(* ===== verification/JsPrelude.thy ===== *)
theory JsPrelude
  imports Complex_Main
begin

text \<open>
  Shared vocabulary of the development.

  A JavaScript string is a sequence of UTF-16 code units; here \<open>jstr\<close> is the list of those
  code units as natural numbers and \<open>js ''abc''\<close> writes an ASCII literal.  The string functions
  below are the ones of the language that the sources under src/ui/web/src call:
  \<open>trim\<close>, \<open>split\<close>, \<open>join\<close>, \<open>startsWith\<close>, \<open>includes\<close>, \<open>padStart\<close>, \<open>toLowerCase\<close> and the
  white space and digit classes of regular expressions.

  The theory also holds the interfaces (locales) that several components share: a machine whose
  steps keep an invariant, with and without a precondition, a machine that simulates an abstract
  one, a monoid on some of the values of a type, and a key-value store (IndexedDB object stores and the Web Storage areas are its instances).
\<close>

section \<open>Strings\<close>

type_synonym jstr = "nat list"

abbreviation js :: "string \<Rightarrow> jstr" where
  "js s \<equiv> map of_char s"

text \<open>WhiteSpace and LineTerminator of the language: what \<open>trim\<close> removes and \<open>\s\<close> matches.\<close>

definition is_ws :: "nat \<Rightarrow> bool" where
  "is_ws c \<longleftrightarrow> (9 \<le> c \<and> c \<le> 13) \<or> c = 32 \<or> c = 160 \<or> c = 5760 \<or> (8192 \<le> c \<and> c \<le> 8202)
     \<or> c = 8232 \<or> c = 8233 \<or> c = 8239 \<or> c = 8287 \<or> c = 12288 \<or> c = 65279"

definition is_digit :: "nat \<Rightarrow> bool" where
  "is_digit c \<longleftrightarrow> 48 \<le> c \<and> c \<le> 57"

definition trim_start :: "jstr \<Rightarrow> jstr" where
  "trim_start s = dropWhile is_ws s"

definition trim_end :: "jstr \<Rightarrow> jstr" where
  "trim_end s = rev (dropWhile is_ws (rev s))"

definition trim :: "jstr \<Rightarrow> jstr" where
  "trim s = trim_end (trim_start s)"

definition starts_with :: "jstr \<Rightarrow> jstr \<Rightarrow> bool" where
  "starts_with p s \<longleftrightarrow> take (length p) s = p"

definition ends_with :: "jstr \<Rightarrow> jstr \<Rightarrow> bool" where
  "ends_with p s \<longleftrightarrow> length p \<le> length s \<and> drop (length s - length p) s = p"

text \<open>The text before the first \<open>p\<close> and after it.\<close>

fun cut_at :: "jstr \<Rightarrow> jstr \<Rightarrow> (jstr \<times> jstr) option" where
  "cut_at p [] = (if p = [] then Some ([], []) else None)"
| "cut_at p (c # s) = (if starts_with p (c # s) then Some ([], drop (length p) (c # s))
     else map_option (apfst ((#) c)) (cut_at p s))"

text \<open>\<open>includes_str n s\<close>: the call \<open>s.includes(n)\<close>.\<close>

fun includes_str :: "jstr \<Rightarrow> jstr \<Rightarrow> bool" where
  "includes_str n [] = (n = [])"
| "includes_str n (c # s) = (starts_with n (c # s) \<or> includes_str n s)"

text \<open>\<open>s.split(sep)\<close> for a separator of one code unit: always at least one part.\<close>

fun split_char :: "nat \<Rightarrow> jstr \<Rightarrow> jstr list" where
  "split_char sep [] = [[]]"
| "split_char sep (c # s) =
     (if c = sep then [] # split_char sep s
      else (case split_char sep s of [] \<Rightarrow> [[c]] | p # ps \<Rightarrow> (c # p) # ps))"

text \<open>\<open>s.split(/\s+/)\<close>: a maximal run of white space separates two parts.\<close>

fun split_ws_from :: "bool \<Rightarrow> jstr \<Rightarrow> jstr \<Rightarrow> jstr list" where
  "split_ws_from in_ws part [] = [part]"
| "split_ws_from in_ws part (c # s) =
     (if is_ws c then (if in_ws then split_ws_from True part s
                       else part # split_ws_from True [] s)
      else split_ws_from False (part @ [c]) s)"

definition split_ws :: "jstr \<Rightarrow> jstr list" where
  "split_ws s = split_ws_from False [] s"

fun join :: "jstr \<Rightarrow> jstr list \<Rightarrow> jstr" where
  "join sep [] = []"
| "join sep [p] = p"
| "join sep (p # ps) = p @ sep @ join sep ps"

text \<open>\<open>s.padStart(n, c)\<close> for a filler of one code unit.\<close>

definition pad_start :: "nat \<Rightarrow> nat \<Rightarrow> jstr \<Rightarrow> jstr" where
  "pad_start n c s = replicate (n - length s) c @ s"

text \<open>
  \<open>toLowerCase\<close>: ASCII letters, and the two other code units whose lower case contains an ASCII
  letter (the Kelvin sign and the capital I with dot).  Every result is compared with ASCII text
  only, so the case of other scripts is not observed.
\<close>

definition lower_unit :: "nat \<Rightarrow> jstr" where
  "lower_unit c = (if 65 \<le> c \<and> c \<le> 90 then [c + 32]
     else if c = 8490 then [107] else if c = 304 then [105, 775] else [c])"

definition lower :: "jstr \<Rightarrow> jstr" where
  "lower s = concat (map lower_unit s)"

text \<open>\<open>s.replace(/[\s_-]+/g, "")\<close>.\<close>

definition strip_separators :: "jstr \<Rightarrow> jstr" where
  "strip_separators s = filter (\<lambda>c. \<not> (is_ws c \<or> c = 95 \<or> c = 45)) s"

definition all_digits :: "jstr \<Rightarrow> bool" where
  "all_digits s \<longleftrightarrow> s \<noteq> [] \<and> list_all is_digit s"

text \<open>The value of a digit string, and the decimal notation of a number.\<close>

definition digits_val :: "jstr \<Rightarrow> nat" where
  "digits_val s = foldl (\<lambda>n c. 10 * n + (c - 48)) 0 s"

fun nat_str :: "nat \<Rightarrow> jstr" where
  "nat_str n = (if n < 10 then [48 + n] else nat_str (n div 10) @ [48 + n mod 10])"

declare nat_str.simps [simp del]

definition int_str :: "int \<Rightarrow> jstr" where
  "int_str i = (if i < 0 then 45 # nat_str (nat (- i)) else nat_str (nat i))"

subsection \<open>Searching a list\<close>

text \<open>\<open>findIndex\<close>.\<close>

fun find_index :: "('a \<Rightarrow> bool) \<Rightarrow> 'a list \<Rightarrow> nat option" where
  "find_index P [] = None"
| "find_index P (x # xs) = (if P x then Some 0 else map_option Suc (find_index P xs))"

lemma find_index_nth: "find_index P xs = Some i \<Longrightarrow> i < length xs \<and> P (xs ! i)"
  by (induction xs arbitrary: i) (auto split: if_splits)

lemma find_index_at: "distinct (map f xs) \<Longrightarrow> i < length xs \<Longrightarrow> find_index (\<lambda>x. f x = f (xs ! i)) xs = Some i"
proof (induction xs arbitrary: i)
  case (Cons x xs)
  then have "f (xs ! k) \<in> f ` set xs" if "i = Suc k" for k using that by simp
  then show ?case using Cons by (cases i) force+
qed simp

subsection \<open>Facts about strings\<close>

lemma trim_Nil [simp]: "trim [] = []"
  by (simp add: trim_def trim_start_def trim_end_def)

lemma starts_with_append [simp]: "starts_with p (p @ s)"
  by (simp add: starts_with_def)

lemma starts_withE:
  assumes "starts_with p s" obtains t where "s = p @ t"
  using assms by (metis append_take_drop_id starts_with_def)

lemma starts_with_iff: "starts_with p s \<longleftrightarrow> (\<exists>t. s = p @ t)"
  by (auto elim: starts_withE)

lemma cut_at_text: "cut_at p s = Some (a, b) \<Longrightarrow> s = a @ p @ b"
  by (induction s arbitrary: a b) (auto split: if_splits simp: starts_with_iff apfst_def map_prod_def)

lemma cut_at_none: "cut_at p s = None \<longleftrightarrow> \<not> includes_str p s"
  by (induction s) auto

lemma split_char_not_Nil [simp]: "split_char sep s \<noteq> []"
  by (induction s) (auto split: list.splits)

lemma split_char_no_sep: "sep \<notin> set s \<Longrightarrow> split_char sep s = [s]"
  by (induction s) auto

lemma split_char_append_sep:
  "sep \<notin> set p \<Longrightarrow> split_char sep (p @ sep # s) = p # split_char sep s"
  by (induction p) auto

text \<open>Splitting after an append: only the last part of the first string is extended.\<close>

lemma split_char_append:
  "split_char sep (s @ t) =
     butlast (split_char sep s) @ split_char sep (last (split_char sep s) @ t)"
proof (induction s)
  case Nil
  then show ?case by simp
next
  case (Cons c s)
  show ?case
  proof (cases "c = sep")
    case True
    with Cons show ?thesis by simp
  next
    case False
    obtain p ps where ps: "split_char sep s = p # ps"
      by (cases "split_char sep s") auto
    show ?thesis
    proof (cases "ps = []")
      case True
      with ps False Cons show ?thesis by (simp split: list.splits)
    next
      case nonempty: False
      with ps False Cons show ?thesis by (simp split: list.splits)
    qed
  qed
qed

lemma sep_not_in_last_split: "sep \<notin> set (last (split_char sep s))"
  by (induction s) (auto split: list.splits if_splits)

lemma split_char_last_part:
  "split_char sep (last (split_char sep s)) = [last (split_char sep s)]"
  by (rule split_char_no_sep) (rule sep_not_in_last_split)

lemma dropWhile_id: "s = [] \<or> \<not> P (hd s) \<Longrightarrow> dropWhile P s = s"
  by (cases s) auto

lemma trim_all_ws: "list_all is_ws s \<Longrightarrow> trim s = []"
  by (simp add: trim_def trim_start_def trim_end_def list_all_iff
      dropWhile_eq_Nil_conv [THEN iffD2])

lemma trim_no_outer_ws:
  "s \<noteq> [] \<Longrightarrow> \<not> is_ws (hd s) \<Longrightarrow> \<not> is_ws (last s) \<Longrightarrow> trim s = s"
  by (simp add: trim_def trim_start_def trim_end_def dropWhile_id hd_rev)

lemma trim_start_idem: "trim_start (trim_start s) = trim_start s"
  by (simp add: trim_start_def)

lemma trim_end_start: "trim_start (trim_end s) = trim_end (trim_start s)"
proof (induction s)
  case Nil
  then show ?case by (simp add: trim_start_def trim_end_def)
next
  case (Cons c s)
  show ?case
  proof (cases "list_all is_ws (c # s)")
    case True
    then show ?thesis
      by (simp add: trim_start_def trim_end_def list_all_iff dropWhile_eq_Nil_conv [THEN iffD2])
  next
    case False
    then show ?thesis using Cons
      by (auto simp: trim_start_def trim_end_def list_all_iff dropWhile_append)
  qed
qed

lemma trim_idem [simp]: "trim (trim s) = trim s"
  by (simp add: trim_def trim_end_start trim_start_idem)
     (simp add: trim_end_def)

lemma nat_str_not_Nil [simp]: "nat_str n \<noteq> []"
  by (subst nat_str.simps) simp

lemma nat_str_digits: "list_all is_digit (nat_str n)"
proof (induction n rule: nat_str.induct)
  case (1 n)
  then show ?case
    by (subst nat_str.simps) (auto simp: is_digit_def list_all_iff)
qed

lemma digits_val_append: "digits_val (s @ [c]) = 10 * digits_val s + (c - 48)"
  by (simp add: digits_val_def)

lemma digits_val_nat_str [simp]: "digits_val (nat_str n) = n"
proof (induction n rule: nat_str.induct)
  case (1 n)
  show ?case
  proof (cases "n < 10")
    case True
    then show ?thesis by (subst nat_str.simps) (simp add: digits_val_def)
  next
    case False
    with 1 have "digits_val (nat_str (n div 10)) = n div 10" by simp
    with False show ?thesis by (subst nat_str.simps) (simp add: digits_val_append)
  qed
qed

lemma nat_str_inject [simp]: "nat_str m = nat_str n \<longleftrightarrow> m = n"
  by (metis digits_val_nat_str)

lemma digit_not_ws: "is_digit c \<Longrightarrow> \<not> is_ws c"
  by (auto simp: is_digit_def is_ws_def)

section \<open>Interfaces shared by the components\<close>

subsection \<open>A machine whose steps keep an invariant\<close>

locale invariant_machine =
  fixes step :: "'s \<Rightarrow> 'e \<Rightarrow> 's" and inv :: "'s \<Rightarrow> bool"
  assumes step_inv: "inv s \<Longrightarrow> inv (step s e)"
begin

lemma run_inv: "inv s \<Longrightarrow> inv (foldl step s es)"
  by (induction es arbitrary: s) (auto intro: step_inv)

end

subsection \<open>A machine whose guarded steps keep an invariant\<close>

text \<open>\<open>ok s e\<close> is the precondition of a step, for example that a generated key is fresh.\<close>

primrec ok_run :: "('s \<Rightarrow> 'e \<Rightarrow> 's) \<Rightarrow> ('s \<Rightarrow> 'e \<Rightarrow> bool) \<Rightarrow> 's \<Rightarrow> 'e list \<Rightarrow> bool" where
  "ok_run step ok s [] = True"
| "ok_run step ok s (e # es) = (ok s e \<and> ok_run step ok (step s e) es)"

locale guarded_machine =
  fixes cstep :: "'s \<Rightarrow> 'e \<Rightarrow> 's" and ok :: "'s \<Rightarrow> 'e \<Rightarrow> bool" and inv :: "'s \<Rightarrow> bool"
  assumes step_ok_inv: "inv s \<Longrightarrow> ok s e \<Longrightarrow> inv (cstep s e)"
begin

lemma run_guarded: "inv s \<Longrightarrow> ok_run cstep ok s es \<Longrightarrow> inv (foldl cstep s es)"
  by (induction es arbitrary: s) (simp_all add: step_ok_inv)

end

subsection \<open>A machine that refines an abstract one\<close>

text \<open>Under the precondition of a step the abstraction commutes with it.\<close>

locale refinement_machine = guarded_machine cstep ok inv
  for cstep :: "'s \<Rightarrow> 'e \<Rightarrow> 's" and ok :: "'s \<Rightarrow> 'e \<Rightarrow> bool" and inv :: "'s \<Rightarrow> bool" +
  fixes astep :: "'a \<Rightarrow> 'e \<Rightarrow> 'a" and abst :: "'s \<Rightarrow> 'a"
  assumes step_refines: "inv s \<Longrightarrow> ok s e \<Longrightarrow> abst (cstep s e) = astep (abst s) e"
begin

lemma run_refines:
  "inv s \<Longrightarrow> ok_run cstep ok s es \<Longrightarrow>
   abst (foldl cstep s es) = foldl astep (abst s) es \<and> inv (foldl cstep s es)"
  by (induction es arbitrary: s) (simp_all add: step_ok_inv step_refines)

end

subsection \<open>A monoid on some of the values\<close>

locale monoid_on =
  fixes S :: "'a \<Rightarrow> bool" and f :: "'a \<Rightarrow> 'a \<Rightarrow> 'a" and e :: 'a
  assumes assoc: "S a \<Longrightarrow> S b \<Longrightarrow> S c \<Longrightarrow> f (f a b) c = f a (f b c)"
    and unit_left: "S a \<Longrightarrow> f e a = a" and unit_right: "S a \<Longrightarrow> f a e = a"
    and closed: "S a \<Longrightarrow> S b \<Longrightarrow> S (f a b)" and unit_closed: "S e"
begin

lemma fold_closed: "S a \<Longrightarrow> (\<And>x. x \<in> set xs \<Longrightarrow> S x) \<Longrightarrow> S (foldl f a xs)"
  by (induction xs arbitrary: a) (auto intro: closed)

lemma fold_start:
  "S a \<Longrightarrow> (\<And>x. x \<in> set xs \<Longrightarrow> S x) \<Longrightarrow> foldl f a xs = f a (foldl f e xs)"
proof (induction xs arbitrary: a)
  case (Cons x xs)
  then have "S x" "\<And>y. y \<in> set xs \<Longrightarrow> S y" by auto
  then have "foldl f (f a x) xs = f (f a x) (foldl f e xs)" "foldl f x xs = f x (foldl f e xs)"
    by (auto intro: Cons.IH closed Cons.prems(1))
  then show ?case
    using \<open>S x\<close> Cons.prems(1) fold_closed [OF unit_closed, of xs] \<open>\<And>y. y \<in> set xs \<Longrightarrow> S y\<close>
    by (simp add: assoc unit_left)
qed (simp add: unit_right)

text \<open>Folding the pieces and then the results is folding the whole.\<close>

lemma fold_concat:
  "(\<And>x. x \<in> set (concat xss) \<Longrightarrow> S x) \<Longrightarrow> foldl f e (map (foldl f e) xss) = foldl f e (concat xss)"
proof (induction xss)
  case (Cons xs xss)
  have S: "S (foldl f e xs)"
    using Cons.prems by (intro fold_closed unit_closed) auto
  have "S y" if "y \<in> set (map (foldl f e) xss)" for y
    using that Cons.prems by (auto intro!: fold_closed unit_closed)
  then have "foldl f e (map (foldl f e) (xs # xss)) = f (foldl f e xs) (foldl f e (map (foldl f e) xss))"
    using fold_start [OF S, of "map (foldl f e) xss"] S by (auto simp: unit_left)
  also have "\<dots> = foldl f (foldl f e xs) (concat xss)"
    using Cons fold_start [OF S, of "concat xss"] by simp
  finally show ?case by simp
qed simp

end

subsection \<open>A key-value store\<close>

locale kv_store =
  fixes get :: "'m \<Rightarrow> 'k \<Rightarrow> 'v option" and put :: "'m \<Rightarrow> 'k \<Rightarrow> 'v \<Rightarrow> 'm"
    and del :: "'m \<Rightarrow> 'k \<Rightarrow> 'm"
  assumes get_put: "get (put m k v) k' = (if k' = k then Some v else get m k')"
    and get_del: "get (del m k) k' = (if k' = k then None else get m k')"
begin

lemma get_put_same: "get (put m k v) k = Some v"
  by (simp add: get_put)

lemma get_put_other: "k' \<noteq> k \<Longrightarrow> get (put m k v) k' = get m k'"
  by (simp add: get_put)

lemma get_del_same: "get (del m k) k = None"
  by (simp add: get_del)

lemma take_after_put: "get (del (put m k v) k) k' = (if k' = k then None else get m k')"
  by (simp add: get_put get_del)

lemma get_put_all:
  "get (foldl (\<lambda>m r. put m (key r) (f r)) m rs) k =
     (case map_of (map (\<lambda>r. (key r, f r)) (rev rs)) k of Some v \<Rightarrow> Some v | None \<Rightarrow> get m k)"
  by (induction rs rule: rev_induct) (simp_all add: get_put)

end

end
