(* ===== verification/JsNumber.thy ===== *)
theory JsNumber
  imports JsPrelude
begin

text \<open>
  The number type of the language.  \<open>Fin q\<close> is a finite number with value \<open>q\<close>, and the three
  special values behave as IEEE-754 prescribes: \<open>NaN\<close> compares false with everything and absorbs
  arithmetic, infinities follow the usual rules, division by zero gives an infinity or \<open>NaN\<close>.
  Two details of doubles are not in the model: rounding (finite results are exact rationals)
  and the sign of zero.
\<close>

datatype jnum = NaN | NInf | Fin rat | PInf

fun n_neg :: "jnum \<Rightarrow> jnum" where
  "n_neg NaN = NaN"
| "n_neg NInf = PInf"
| "n_neg PInf = NInf"
| "n_neg (Fin a) = Fin (- a)"

fun n_add :: "jnum \<Rightarrow> jnum \<Rightarrow> jnum" where
  "n_add NaN b = NaN"
| "n_add a NaN = NaN"
| "n_add PInf NInf = NaN"
| "n_add NInf PInf = NaN"
| "n_add PInf b = PInf"
| "n_add a PInf = PInf"
| "n_add NInf b = NInf"
| "n_add a NInf = NInf"
| "n_add (Fin a) (Fin b) = Fin (a + b)"

definition n_sub :: "jnum \<Rightarrow> jnum \<Rightarrow> jnum" where
  "n_sub a b = n_add a (n_neg b)"

text \<open>An infinity with the sign of \<open>q\<close>; zero times infinity is \<open>NaN\<close>.\<close>

definition inf_times :: "rat \<Rightarrow> jnum" where
  "inf_times q = (if q = 0 then NaN else if 0 < q then PInf else NInf)"

fun n_mul :: "jnum \<Rightarrow> jnum \<Rightarrow> jnum" where
  "n_mul NaN b = NaN"
| "n_mul a NaN = NaN"
| "n_mul PInf PInf = PInf"
| "n_mul PInf NInf = NInf"
| "n_mul NInf PInf = NInf"
| "n_mul NInf NInf = PInf"
| "n_mul PInf (Fin b) = inf_times b"
| "n_mul (Fin a) PInf = inf_times a"
| "n_mul NInf (Fin b) = inf_times (- b)"
| "n_mul (Fin a) NInf = inf_times (- a)"
| "n_mul (Fin a) (Fin b) = Fin (a * b)"

text \<open>Division by zero takes the zero as positive.\<close>

fun n_div :: "jnum \<Rightarrow> jnum \<Rightarrow> jnum" where
  "n_div NaN b = NaN"
| "n_div a NaN = NaN"
| "n_div (Fin a) (Fin b) = (if b = 0 then inf_times a else Fin (a / b))"
| "n_div (Fin a) b = Fin 0"
| "n_div PInf (Fin b) = (if b < 0 then NInf else PInf)"
| "n_div NInf (Fin b) = (if b < 0 then PInf else NInf)"
| "n_div a b = NaN"

fun n_lt :: "jnum \<Rightarrow> jnum \<Rightarrow> bool" where
  "n_lt NaN b = False"
| "n_lt a NaN = False"
| "n_lt (Fin a) (Fin b) = (a < b)"
| "n_lt NInf NInf = False"
| "n_lt NInf b = True"
| "n_lt PInf b = False"
| "n_lt (Fin a) PInf = True"
| "n_lt (Fin a) NInf = False"

text \<open>\<open>a === b\<close> on numbers: \<open>NaN\<close> differs from itself.\<close>

definition n_eq :: "jnum \<Rightarrow> jnum \<Rightarrow> bool" where
  "n_eq a b \<longleftrightarrow> a \<noteq> NaN \<and> a = b"

definition n_le :: "jnum \<Rightarrow> jnum \<Rightarrow> bool" where
  "n_le a b \<longleftrightarrow> n_lt a b \<or> n_eq a b"

definition n_max :: "jnum \<Rightarrow> jnum \<Rightarrow> jnum" where
  "n_max a b = (if a = NaN \<or> b = NaN then NaN else if n_lt a b then b else a)"

definition n_min :: "jnum \<Rightarrow> jnum \<Rightarrow> jnum" where
  "n_min a b = (if a = NaN \<or> b = NaN then NaN else if n_lt b a then b else a)"

fun n_abs :: "jnum \<Rightarrow> jnum" where
  "n_abs (Fin a) = Fin \<bar>a\<bar>"
| "n_abs NaN = NaN"
| "n_abs PInf = PInf"
| "n_abs NInf = PInf"

definition is_finite :: "jnum \<Rightarrow> bool" where
  "is_finite a \<longleftrightarrow> (case a of Fin _ \<Rightarrow> True | _ \<Rightarrow> False)"

fun n_floor :: "jnum \<Rightarrow> jnum" where
  "n_floor (Fin a) = Fin (of_int \<lfloor>a\<rfloor>)"
| "n_floor a = a"

fun n_ceil :: "jnum \<Rightarrow> jnum" where
  "n_ceil (Fin a) = Fin (of_int \<lceil>a\<rceil>)"
| "n_ceil a = a"

text \<open>\<open>Math.round\<close> rounds halves up.\<close>

fun n_round :: "jnum \<Rightarrow> jnum" where
  "n_round (Fin a) = Fin (of_int \<lfloor>a + 1/2\<rfloor>)"
| "n_round a = a"

text \<open>A number as a condition: zero and \<open>NaN\<close> are falsy.\<close>

definition n_truthy :: "jnum \<Rightarrow> bool" where
  "n_truthy a \<longleftrightarrow> a \<noteq> NaN \<and> a \<noteq> Fin 0"

subsection \<open>Type classes: the library's syntax on numbers\<close>

instantiation jnum :: "{zero, one, plus, minus, uminus, times, inverse, ord}"
begin

definition zero_jnum :: jnum where "zero_jnum = Fin 0"
definition one_jnum :: jnum where "one_jnum = Fin 1"
definition plus_jnum :: "jnum \<Rightarrow> jnum \<Rightarrow> jnum" where "plus_jnum = n_add"
definition minus_jnum :: "jnum \<Rightarrow> jnum \<Rightarrow> jnum" where "minus_jnum = n_sub"
definition uminus_jnum :: "jnum \<Rightarrow> jnum" where "uminus_jnum = n_neg"
definition times_jnum :: "jnum \<Rightarrow> jnum \<Rightarrow> jnum" where "times_jnum = n_mul"
definition divide_jnum :: "jnum \<Rightarrow> jnum \<Rightarrow> jnum" where "divide_jnum = n_div"
definition inverse_jnum :: "jnum \<Rightarrow> jnum" where "inverse_jnum = n_div (Fin 1)"
definition less_jnum :: "jnum \<Rightarrow> jnum \<Rightarrow> bool" where "less_jnum = n_lt"
definition less_eq_jnum :: "jnum \<Rightarrow> jnum \<Rightarrow> bool" where "less_eq_jnum = n_le"

instance ..

end

text \<open>Addition is associative and commutative with \<open>NaN\<close> absorbing; exactness is what makes it so.\<close>

lemma n_add_commute: "n_add a b = n_add b a"
  by (cases a; cases b) auto

lemma n_add_assoc: "n_add (n_add a b) c = n_add a (n_add b c)"
  by (cases a; cases b; cases c) auto

lemma n_mul_commute: "n_mul a b = n_mul b a"
  by (cases a; cases b) auto

lemma n_mul_assoc: "n_mul (n_mul a b) c = n_mul a (n_mul b c)"
  by (cases a; cases b; cases c)
     (auto simp: inf_times_def zero_less_mult_iff mult_less_0_iff)

lemma n_add_0: "n_add (Fin 0) a = a"
  by (cases a) auto

lemma n_mul_1: "n_mul (Fin 1) a = a"
  by (cases a) (auto simp: inf_times_def)

instance jnum :: comm_monoid_add
proof
  fix a b c :: jnum
  show "a + b + c = a + (b + c)" by (simp only: plus_jnum_def n_add_assoc)
  show "a + b = b + a" by (simp only: plus_jnum_def n_add_commute)
  show "0 + a = a" by (simp only: plus_jnum_def zero_jnum_def n_add_0)
qed

instance jnum :: comm_monoid_mult
proof
  fix a b c :: jnum
  show "a * b * c = a * (b * c)" by (simp only: times_jnum_def n_mul_assoc)
  show "a * b = b * a" by (simp only: times_jnum_def n_mul_commute)
  show "1 * a = a" by (simp only: times_jnum_def one_jnum_def n_mul_1)
qed

instance jnum :: numeral ..

subsection \<open>Arithmetic on finite numbers\<close>

lemma Fin_plus [simp]: "Fin a + Fin b = Fin (a + b)"
  by (simp add: plus_jnum_def)

lemma Fin_minus [simp]: "Fin a - Fin b = Fin (a - b)"
  by (simp add: minus_jnum_def n_sub_def)

lemma Fin_uminus [simp]: "- Fin a = Fin (- a)"
  by (simp add: uminus_jnum_def)

lemma Fin_times [simp]: "Fin a * Fin b = Fin (a * b)"
  by (simp add: times_jnum_def)

lemma Fin_divide [simp]: "Fin a / Fin b = (if b = 0 then inf_times a else Fin (a / b))"
  by (simp add: divide_jnum_def)

lemma Fin_less [simp]: "Fin a < Fin b \<longleftrightarrow> a < b"
  by (simp add: less_jnum_def)

lemma Fin_le [simp]: "Fin a \<le> Fin b \<longleftrightarrow> a \<le> b"
  by (auto simp: less_eq_jnum_def n_le_def n_eq_def)

lemma zero_Fin: "(0 :: jnum) = Fin 0"
  by (simp add: zero_jnum_def)

lemma one_Fin: "(1 :: jnum) = Fin 1"
  by (simp add: one_jnum_def)

lemma numeral_Fin: "(numeral k :: jnum) = Fin (numeral k)"
  by (induction k) (simp_all only: numeral.simps one_Fin Fin_plus)

lemmas jnum_literals = zero_Fin one_Fin numeral_Fin

lemma NaN_less [simp]: "\<not> NaN < b" "\<not> b < NaN"
  by (simp_all add: less_jnum_def, cases b) simp_all

lemma NaN_le [simp]: "\<not> NaN \<le> b" "\<not> b \<le> NaN"
  by (auto simp: less_eq_jnum_def n_le_def n_eq_def, cases b) simp_all

lemma NInf_less [simp]: "NInf < Fin a" "\<not> Fin a < NInf" "NInf < PInf" "\<not> NInf < NInf"
  by (simp_all add: less_jnum_def)

lemma PInf_less [simp]: "Fin a < PInf" "\<not> PInf < Fin a" "\<not> PInf < NInf" "\<not> PInf < PInf"
  by (simp_all add: less_jnum_def)

lemma Inf_le [simp]: "NInf \<le> Fin a" "\<not> Fin a \<le> NInf" "Fin a \<le> PInf" "\<not> PInf \<le> Fin a"
  "NInf \<le> PInf" "\<not> PInf \<le> NInf" "NInf \<le> NInf" "PInf \<le> PInf"
  by (simp_all add: less_eq_jnum_def n_le_def n_eq_def)

lemma less_cases:
  assumes "a < (b :: jnum)"
  obtains x y where "a = Fin x" "b = Fin y" "x < y"
  | "a = NInf" "b \<noteq> NaN" | "b = PInf" "a \<noteq> NaN"
  using assms by (cases a; cases b) auto

lemma n_max_Fin [simp]: "n_max (Fin a) (Fin b) = Fin (max a b)"
  by (simp add: n_max_def max_def)

lemma n_min_Fin [simp]: "n_min (Fin a) (Fin b) = Fin (min a b)"
  by (simp add: n_min_def min_def)

lemma n_max_ge_left: "n_max a b \<noteq> NaN \<Longrightarrow> a \<le> n_max a b"
  by (cases a; cases b) (auto simp: n_max_def split: if_splits)

lemma n_max_ge_right: "n_max a b \<noteq> NaN \<Longrightarrow> b \<le> n_max a b"
  by (cases a; cases b) (auto simp: n_max_def split: if_splits)

lemma n_min_le_left: "n_min a b \<noteq> NaN \<Longrightarrow> n_min a b \<le> a"
  by (cases a; cases b) (auto simp: n_min_def split: if_splits)

lemma n_min_le_right: "n_min a b \<noteq> NaN \<Longrightarrow> n_min a b \<le> b"
  by (cases a; cases b) (auto simp: n_min_def split: if_splits)

lemma n_max_NaN: "n_max a b = NaN \<longleftrightarrow> a = NaN \<or> b = NaN"
  by (auto simp: n_max_def)

lemma n_min_NaN: "n_min a b = NaN \<longleftrightarrow> a = NaN \<or> b = NaN"
  by (auto simp: n_min_def)

lemma n_lt_irrefl [simp]: "\<not> n_lt a a"
  by (cases a) auto

lemma is_finite_Fin [simp]: "is_finite (Fin a)" "\<not> is_finite NaN" "\<not> is_finite PInf"
  "\<not> is_finite NInf"
  by (simp_all add: is_finite_def)

lemma is_finiteE: "is_finite a \<Longrightarrow> (\<And>q. a = Fin q \<Longrightarrow> P) \<Longrightarrow> P"
  by (cases a) (auto simp: is_finite_def)

text \<open>Evaluation of \<open>floor\<close> on literal fractions.\<close>

lemma floor_rat_numeral [simp]:
  "\<lfloor>numeral a / numeral b :: rat\<rfloor> = numeral a div numeral b"
  "\<lfloor>1 / numeral b :: rat\<rfloor> = 1 div numeral b"
  "\<lfloor>- (numeral a / numeral b) :: rat\<rfloor> = - numeral a div numeral b"
  "\<lfloor>- (1 / numeral b) :: rat\<rfloor> = - 1 div numeral b"
  using floor_divide_of_int_eq [where 'a = rat, of "numeral a" "numeral b"]
    floor_divide_of_int_eq [where 'a = rat, of 1 "numeral b"]
    floor_divide_of_int_eq [where 'a = rat, of "- numeral a" "numeral b"]
    floor_divide_of_int_eq [where 'a = rat, of "- 1" "numeral b"]
  by simp_all

subsection \<open>Decimal notation\<close>

text \<open>
  \<open>String(n)\<close>.  Integers are printed exactly; a fraction is printed with up to twenty decimals
  and trailing zeros dropped, which is the language's shortest notation for the decimal
  literals of at most fifteen significant digits that a document carries.
\<close>

definition drop_zeros :: "jstr \<Rightarrow> jstr" where
  "drop_zeros s = rev (dropWhile (\<lambda>c. c = 48) (rev s))"

definition fraction_digits :: "rat \<Rightarrow> jstr" where
  "fraction_digits q = drop_zeros (pad_start 20 48 (nat_str (nat \<lfloor>(q - of_int \<lfloor>q\<rfloor>) * 10 ^ 20\<rfloor>)))"

definition rat_str :: "rat \<Rightarrow> jstr" where
  "rat_str q = (if q = of_int \<lfloor>q\<rfloor> then int_str \<lfloor>q\<rfloor>
     else (if q < 0 then [45] else []) @ nat_str (nat \<lfloor>\<bar>q\<bar>\<rfloor>) @ [46] @ fraction_digits \<bar>q\<bar>)"

fun num_str :: "jnum \<Rightarrow> jstr" where
  "num_str NaN = js ''NaN''"
| "num_str PInf = js ''Infinity''"
| "num_str NInf = js ''-Infinity''"
| "num_str (Fin q) = rat_str q"

lemma rat_str_of_int [simp]: "rat_str (of_int i) = int_str i"
  by (simp add: rat_str_def)

end
