(* ===== verification/Doubles.thy ===== *)
theory Doubles
  imports Complex_Main "HOL-Library.Log_Nat"
begin

text \<open>
  The rounding of a double, for the places where a result that is rounded to the wrong side of an
  integer changes what the program does.  \<open>double_of x\<close> is the double nearest to \<open>x\<close>, ties to the
  even significand, for zero and for \<open>x\<close> at least a half and below the largest double: there the last
  of the 53 bits of the significand is worth \<open>2 ^ b / 2 ^ 53\<close>, where \<open>b\<close> is the number of bits of the
  integer part: the unit in the last place.
\<close>

definition round_half_even :: "rat \<Rightarrow> int" where
  "round_half_even y =
     (let n = \<lfloor>y\<rfloor>; f = y - of_int n
      in if f < 1 / 2 then n else if 1 / 2 < f then n + 1 else if even n then n else n + 1)"

definition ulp :: "nat \<Rightarrow> rat" where
  "ulp b = 2 ^ b / 2 ^ 53"

definition double_of :: "rat \<Rightarrow> rat" where
  "double_of x = (let u = ulp (nat (bitlen \<lfloor>x\<rfloor>)) in of_int (round_half_even (x / u)) * u)"

section \<open>Rounding to an integer\<close>

lemma round_half_even_of_int [simp]: "round_half_even (of_int n) = n"
  by (simp add: round_half_even_def)

lemma round_half_even_error: "\<bar>of_int (round_half_even y) - y\<bar> \<le> 1 / 2"
proof -
  have "of_int \<lfloor>y\<rfloor> \<le> y" "y < of_int \<lfloor>y\<rfloor> + 1"
    by linarith+
  then show ?thesis
    by (auto simp: round_half_even_def Let_def abs_le_iff)
qed

lemma round_half_even_mono:
  assumes "x \<le> y"
  shows "round_half_even x \<le> round_half_even y"
proof (cases "\<lfloor>x\<rfloor> = \<lfloor>y\<rfloor>")
  case True
  then show ?thesis
    using assms by (auto simp: round_half_even_def Let_def)
next
  case False
  then have "\<lfloor>x\<rfloor> + 1 \<le> \<lfloor>y\<rfloor>"
    using floor_mono [OF assms] by linarith
  moreover have "round_half_even x \<le> \<lfloor>x\<rfloor> + 1" "\<lfloor>y\<rfloor> \<le> round_half_even y"
    by (auto simp: round_half_even_def Let_def)
  ultimately show ?thesis by linarith
qed

lemma round_half_even_le: "y \<le> of_int n \<Longrightarrow> round_half_even y \<le> n"
  using round_half_even_mono [of y "of_int n"] by simp

lemma round_half_even_ge: "of_int n \<le> y \<Longrightarrow> n \<le> round_half_even y"
  using round_half_even_mono [of "of_int n" y] by simp

section \<open>The nearest double\<close>

text \<open>A number lies in the binade of its integer part.\<close>

lemma binade:
  fixes x :: rat
  assumes "1 \<le> x"
  obtains b where "nat (bitlen \<lfloor>x\<rfloor>) = Suc b" and "2 ^ b \<le> x" and "x < 2 ^ Suc b"
proof
  let ?b = "nat (bitlen \<lfloor>x\<rfloor>) - 1"
  have pos: "0 < \<lfloor>x\<rfloor>"
    using assms by simp
  then have "0 < bitlen \<lfloor>x\<rfloor>"
    using bitlen_nonneg [of "\<lfloor>x\<rfloor>"] bitlen_eq_zero_iff [of "\<lfloor>x\<rfloor>"] by linarith
  then show b: "nat (bitlen \<lfloor>x\<rfloor>) = Suc ?b"
    by simp
  have "2 ^ ?b \<le> \<lfloor>x\<rfloor>" "\<lfloor>x\<rfloor> < 2 ^ Suc ?b"
    using bitlen_bounds [OF pos] b by (simp_all add: nat_diff_distrib)
  then show "2 ^ ?b \<le> x" "x < 2 ^ Suc ?b"
    by (simp_all only: le_floor_iff floor_less_iff of_int_power of_int_numeral)
qed

lemma ulp_pos: "0 < ulp b"
  by (simp add: ulp_def)

lemma double_of_zero [simp]: "double_of 0 = 0"
  using round_half_even_of_int [of 0] by (simp add: double_of_def)

text \<open>Integers of at most 53 bits are doubles.\<close>

lemma double_of_nat:
  assumes "n < 2 ^ 53"
  shows "double_of (of_nat n) = of_nat n"
proof -
  let ?b = "nat (bitlen (int n))"
  have "?b \<le> 53"
    using assms less_power_nat_iff_bitlen [of n 53] by simp
  then have u: "ulp ?b * 2 ^ (53 - ?b) = 1"
    by (simp add: ulp_def power_add [symmetric] del: power_Suc)
  have "of_nat n / ulp ?b = of_int (int n * 2 ^ (53 - ?b))"
    using u ulp_pos [of ?b] by (simp add: field_simps)
  then have "round_half_even (of_nat n / ulp ?b) = int n * 2 ^ (53 - ?b)"
    by (simp only: round_half_even_of_int)
  then show ?thesis
    using u by (simp add: double_of_def Let_def mult.commute [of "ulp ?b"])
qed

text \<open>Rounding moves a number by at most one part in \<open>2 ^ 53\<close>.\<close>

lemma double_of_error:
  assumes "1 \<le> x"
  shows "\<bar>double_of x - x\<bar> \<le> x / 2 ^ 53"
proof -
  obtain b where b: "nat (bitlen \<lfloor>x\<rfloor>) = Suc b" "2 ^ b \<le> x"
    using binade [OF assms] .
  let ?u = "ulp (Suc b)"
  have u: "0 < ?u" by (rule ulp_pos)
  then have "double_of x - x = (of_int (round_half_even (x / ?u)) - x / ?u) * ?u"
    by (simp add: double_of_def b(1) Let_def left_diff_distrib)
  then have "\<bar>double_of x - x\<bar> = \<bar>of_int (round_half_even (x / ?u)) - x / ?u\<bar> * ?u"
    using u by (simp add: abs_mult)
  also have "\<dots> \<le> 1 / 2 * ?u"
    using u by (intro mult_right_mono round_half_even_error) simp
  also have "\<dots> \<le> x / 2 ^ 53"
    using b(2) by (simp add: ulp_def divide_right_mono)
  finally show ?thesis .
qed

text \<open>A larger number is not rounded to a smaller one.\<close>

lemma ulp_binade: "of_int (2 ^ 52) * ulp (Suc b) = 2 ^ b" "of_int (2 ^ 53) * ulp (Suc b) = 2 ^ Suc b"
  by (simp_all add: ulp_def)

lemma double_of_binade:
  assumes "nat (bitlen \<lfloor>x\<rfloor>) = Suc b" and "2 ^ b \<le> x" and "x < 2 ^ Suc b"
  shows "2 ^ b \<le> double_of x" and "double_of x \<le> 2 ^ Suc b"
proof -
  let ?u = "ulp (Suc b)"
  have u: "0 < ?u" by (rule ulp_pos)
  then have "of_int (2 ^ 52) \<le> x / ?u" "x / ?u \<le> of_int (2 ^ 53)"
    using assms(2,3) by (simp_all only: pos_le_divide_eq pos_divide_le_eq ulp_binade less_imp_le)
  then have "(of_int (2 ^ 52) :: rat) \<le> of_int (round_half_even (x / ?u))"
    "of_int (round_half_even (x / ?u)) \<le> (of_int (2 ^ 53) :: rat)"
    by (simp_all only: of_int_le_iff round_half_even_ge round_half_even_le)
  then have "of_int (2 ^ 52) * ?u \<le> double_of x" "double_of x \<le> of_int (2 ^ 53) * ?u"
    unfolding double_of_def assms(1) Let_def using u by (blast intro: mult_right_mono less_imp_le)+
  then show "2 ^ b \<le> double_of x" "double_of x \<le> 2 ^ Suc b"
    by (simp_all only: ulp_binade)
qed

lemma double_of_mono:
  assumes "1 \<le> x" and "x \<le> y"
  shows "double_of x \<le> double_of y"
proof -
  obtain a where a: "nat (bitlen \<lfloor>x\<rfloor>) = Suc a" "2 ^ a \<le> x" "x < 2 ^ Suc a"
    using binade [OF assms(1)] .
  obtain b where b: "nat (bitlen \<lfloor>y\<rfloor>) = Suc b" "2 ^ b \<le> y" "y < 2 ^ Suc b"
    using binade [OF order_trans [OF assms]] .
  have "(2 :: rat) ^ a < 2 ^ Suc b"
    using a(2) assms(2) b(3) by linarith
  then have "a < Suc b"
    by (rule power_less_imp_less_exp [rotated]) simp
  then consider "a = b" | "Suc a \<le> b" by linarith
  then show ?thesis
  proof cases
    case 1
    have "round_half_even (x / ulp (Suc b)) \<le> round_half_even (y / ulp (Suc b))"
      using assms(2) ulp_pos [of "Suc b"] by (intro round_half_even_mono divide_right_mono) simp_all
    then show ?thesis
      using ulp_pos [of "Suc b"] by (simp add: double_of_def Let_def a(1) b(1) 1 mult_right_mono)
  next
    case 2
    have "double_of x \<le> 2 ^ Suc a"
      by (rule double_of_binade(2) [OF a])
    also have "\<dots> \<le> 2 ^ b"
      using 2 by (intro power_increasing) simp_all
    also have "\<dots> \<le> double_of y"
      by (rule double_of_binade(1) [OF b])
    finally show ?thesis .
  qed
qed

section \<open>The floor of a multiple of a quotient\<close>

text \<open>
  \<open>Math.floor(k * size)\<close> for a bucket size \<open>size = n / m\<close>: both the quotient and the product are
  rounded before the floor is taken.
\<close>

definition floor_times :: "nat \<Rightarrow> nat \<Rightarrow> nat \<Rightarrow> nat" where
  "floor_times n m k = nat \<lfloor>double_of (of_nat k * double_of (of_nat n / of_nat m))\<rfloor>"

lemma double_of_ge_1: "1 \<le> x \<Longrightarrow> 1 \<le> double_of x"
  using double_of_mono [of 1 x] double_of_nat [of 1] by simp

lemma floor_times_0 [simp]: "floor_times n m 0 = 0"
  by (simp add: floor_times_def)

lemma floor_times_mono:
  assumes "0 < m" and "m \<le> n" and "i \<le> j"
  shows "floor_times n m i \<le> floor_times n m j"
proof (cases i)
  case (Suc i')
  let ?s = "double_of (of_nat n / of_nat m)"
  have s: "1 \<le> ?s"
    using assms(1,2) by (intro double_of_ge_1) simp
  have "of_nat i * ?s \<le> of_nat j * ?s"
    using assms(3) s by (intro mult_right_mono) simp_all
  moreover have "1 \<le> of_nat i * ?s"
    using mult_mono [of 1 "of_nat i" 1 ?s] s Suc by simp
  ultimately show ?thesis
    unfolding floor_times_def by (intro nat_mono floor_mono double_of_mono)
qed simp

text \<open>Two roundings move a product by less than three parts in \<open>2 ^ 53\<close>.\<close>

lemma rounded_product:
  assumes "1 \<le> x" and "0 < k"
  shows "\<bar>double_of (of_nat k * double_of x) - of_nat k * x\<bar> \<le> of_nat k * x * (3 / 2 ^ 53)"
proof -
  let ?e = "1 / 2 ^ 53 :: rat" and ?k = "of_nat k :: rat"
  let ?s = "double_of x" and ?p = "double_of (?k * double_of x)"
  have k: "1 \<le> ?k" using assms(2) by simp
  have s: "\<bar>?s - x\<bar> \<le> x * ?e"
    using double_of_error [OF assms(1)] by simp
  have "\<bar>?k * ?s - ?k * x\<bar> = ?k * \<bar>?s - x\<bar>"
    by (simp add: abs_mult right_diff_distrib [symmetric])
  also have "\<dots> \<le> ?k * (x * ?e)"
    using s k by (intro mult_left_mono) simp_all
  finally have ks: "\<bar>?k * ?s - ?k * x\<bar> \<le> ?k * x * ?e"
    by (simp only: mult.assoc)
  have "1 \<le> ?k * ?s"
    using mult_mono [OF k double_of_ge_1 [OF assms(1)]] k by simp
  then have p: "\<bar>?p - ?k * ?s\<bar> \<le> ?k * ?s * ?e"
    using double_of_error [of "?k * ?s"] by simp
  have "?k * ?s \<le> ?k * x * 2"
  proof -
    have "?k * x * ?e \<le> ?k * x * 1"
      using k assms(1) by (intro mult_left_mono) simp_all
    then show ?thesis using ks by linarith
  qed
  then have "?k * ?s * ?e \<le> ?k * x * 2 * ?e"
    by (rule mult_right_mono) simp
  then have "?k * ?s * ?e \<le> ?k * x * (2 / 2 ^ 53)"
    by (simp only: mult.assoc)
  then have "?k * ?s * ?e + ?k * x * ?e \<le> ?k * x * (2 / 2 ^ 53) + ?k * x * ?e"
    by (rule add_right_mono)
  moreover have "\<bar>?p - ?k * x\<bar> \<le> ?k * ?s * ?e + ?k * x * ?e"
    using order_trans [OF abs_triangle_ineq add_mono [OF p ks]] by simp
  ultimately have "\<bar>?p - ?k * x\<bar> \<le> ?k * x * (2 / 2 ^ 53) + ?k * x * ?e"
    by (rule order_trans [rotated])
  then show ?thesis
    by (simp add: distrib_left [symmetric] mult_ac)
qed

text \<open>The first multiple has the exact floor; the last may fall one short of \<open>n\<close>.\<close>

lemma floor_times_1:
  assumes "0 < m" and "m \<le> n" and "n < 2 ^ 51"
  shows "floor_times n m 1 = n div m"
proof -
  let ?x = "of_nat n / of_nat m :: rat" and ?q = "n div m"
  have x: "1 \<le> ?x" and m: "0 < (of_nat m :: rat)"
    using assms(1,2) by simp_all
  let ?p = "double_of (double_of ?x)"
  have below: "of_nat ?q \<le> ?x"
    using m by (simp add: pos_le_divide_eq of_nat_mult [symmetric] del: of_nat_mult)
  have "1 \<le> ?q"
    using assms(1) div_le_mono [OF assms(2), of m] by simp
  moreover have "?q < 2 ^ 53"
    by (rule order_le_less_trans [OF div_le_dividend]) (use assms(3) in simp)
  ultimately have "double_of (of_nat ?q) = of_nat ?q" "1 \<le> (of_nat ?q :: rat)"
    by (simp_all add: double_of_nat)
  then have lo: "of_nat ?q \<le> ?p"
    using below by (metis double_of_mono)
  have "n + 1 \<le> (?q + 1) * m"
    using dividend_less_div_times [OF assms(1), of n] by simp
  then have "(of_nat (n + 1) :: rat) \<le> of_nat ((?q + 1) * m)"
    by (simp only: of_nat_le_iff)
  then have "?x + 1 / of_nat m \<le> of_nat (?q + 1)"
    using m by (simp add: field_simps)
  moreover have "?x * (3 / 2 ^ 53) < 1 / of_nat m"
    using m assms(3) by (simp add: divide_less_cancel field_simps)
  ultimately have "?p < of_nat (?q + 1)"
    using rounded_product [OF x, of 1] by simp
  then have "\<lfloor>?p\<rfloor> = int ?q"
    using lo by (simp add: floor_eq_iff)
  then show ?thesis
    by (simp add: floor_times_def)
qed

lemma floor_times_last:
  assumes "0 < m" and "m \<le> n" and "n < 2 ^ 51"
  shows "floor_times n m m = n \<or> floor_times n m m = n - 1"
proof -
  let ?p = "double_of (of_nat m * double_of (of_nat n / of_nat m))"
  have "\<bar>?p - of_nat n\<bar> \<le> of_nat n * (3 / 2 ^ 53)"
    using rounded_product [of "of_nat n / of_nat m" m] assms(1,2) by simp
  moreover have "(of_nat n :: rat) < 2 ^ 51"
    using assms(3) by (simp only: of_nat_less_iff [where 'a = rat, symmetric] of_nat_power of_nat_numeral)
  then have "of_nat n * (3 / 2 ^ 53) < (1 :: rat)"
    by simp
  ultimately have "of_nat n - 1 < ?p" "?p < of_nat n + 1"
    by linarith+
  then have "int n - 1 \<le> \<lfloor>?p\<rfloor>" "\<lfloor>?p\<rfloor> \<le> int n"
    by (simp_all add: le_floor_iff floor_le_iff)
  then show ?thesis
    by (auto simp: floor_times_def)
qed

section \<open>Products that fall short\<close>

text \<open>The double nearest to a number in a given binade.\<close>

lemma double_of_at:
  assumes "2 ^ b \<le> x" and "x < 2 ^ Suc b"
  shows "double_of x = of_int (round_half_even (x / ulp (Suc b))) * ulp (Suc b)"
proof -
  have "2 ^ b \<le> \<lfloor>x\<rfloor>" "\<lfloor>x\<rfloor> < 2 ^ Suc b"
    using assms by (simp_all add: le_floor_iff floor_less_iff)
  then have "int (Suc b) \<le> bitlen \<lfloor>x\<rfloor>" "bitlen \<lfloor>x\<rfloor> \<le> int (Suc b)"
    unfolding bitlen_ge_iff_power bitlen_le_iff_power by (simp_all only: nat_int) simp_all
  then have "nat (bitlen \<lfloor>x\<rfloor>) = Suc b"
    by simp
  then show ?thesis
    by (simp add: double_of_def Let_def)
qed
lemma floor_ratio: "\<lfloor>numeral a / numeral b :: rat\<rfloor> = numeral a div numeral b"
  using floor_divide_of_int_eq [where 'a = rat, of "numeral a" "numeral b"] by simp

text \<open>Both products fall short of their last integer.\<close>

lemma floor_times_501_62: "floor_times 501 62 62 = 500"
proof -
  have q: "double_of (501 / 62) = 4548998817162537 / 562949953421312"
    by (subst double_of_at [of 3]) (simp_all add: ulp_def round_half_even_def Let_def floor_ratio)
  have p: "double_of (62 * (4548998817162537 / 562949953421312)) = 8813685208252415 / 17592186044416"
    by (subst double_of_at [of 8]) (simp_all add: ulp_def round_half_even_def Let_def floor_ratio)
  show ?thesis
    by (simp only: floor_times_def of_nat_numeral q p floor_ratio)
qed

lemma floor_times_464_67: "floor_times 464 67 67 = 463"
proof -
  have q: "double_of (464 / 67) = 7797276966790709 / 1125899906842624"
    by (subst double_of_at [of 2]) (simp_all add: ulp_def round_half_even_def Let_def floor_ratio)
  have p: "double_of (67 * (7797276966790709 / 1125899906842624)) = 8162774324609023 / 17592186044416"
    by (subst double_of_at [of 8]) (simp_all add: ulp_def round_half_even_def Let_def floor_ratio)
  show ?thesis
    by (simp only: floor_times_def of_nat_numeral q p floor_ratio)
qed

end
