(* ===== verification/JsValue.thy ===== *)
theory JsValue
  imports JsNumber "HOL-Library.Multiset"
begin

text \<open>
  Values of the language as the sources handle them (typed \<open>unknown\<close>), the property protocol
  of objects, the conversions to booleans and strings, and the reader \<open>JSON.parse\<close>.

  An object is the list of its own properties in creation order.  A property that an object does
  not own is looked up in \<open>Object.prototype\<close>: \<open>JBuiltin k\<close> is the member \<open>k\<close> found there, a
  function for every \<open>k\<close> but \<open>__proto__\<close>.  The sources index plain objects with keys that come
  from a document, so this lookup is part of what they do.
\<close>

datatype jsval =
    JUndef
  | JNull
  | JBool bool
  | JNum jnum
  | JStr jstr
  | JArr "jsval list"
  | JObj "(jstr \<times> jsval) list"
  | JBuiltin jstr

type_synonym jsobj = "(jstr \<times> jsval) list"

section \<open>Objects\<close>

definition proto_key :: jstr where
  "proto_key = js ''__proto__''"

definition proto_names :: "jstr list" where
  "proto_names = [js ''constructor'', js ''__defineGetter__'', js ''__defineSetter__'',
     js ''hasOwnProperty'', js ''__lookupGetter__'', js ''__lookupSetter__'',
     js ''isPrototypeOf'', js ''propertyIsEnumerable'', js ''toString'', js ''valueOf'',
     js ''toLocaleString'', js ''__proto__'']"

text \<open>\<open>o[k]\<close> as an expression.\<close>

definition obj_get :: "jsobj \<Rightarrow> jstr \<Rightarrow> jsval" where
  "obj_get ob k = (case map_of ob k of Some v \<Rightarrow> v
     | None \<Rightarrow> if k \<in> set proto_names then JBuiltin k else JUndef)"

text \<open>Defining an own property, as literals, spreads and \<open>JSON.parse\<close> do.\<close>

fun obj_define :: "(jstr \<times> 'v) list \<Rightarrow> jstr \<Rightarrow> 'v \<Rightarrow> (jstr \<times> 'v) list" where
  "obj_define [] k v = [(k, v)]"
| "obj_define ((k', w) # ob) k v =
     (if k' = k then (k, v) # ob else (k', w) # obj_define ob k v)"

text \<open>
  The assignment \<open>o[k] = v\<close>.  Assigning \<open>__proto__\<close> on an object that does not own it calls the
  inherited setter and leaves the own properties as they are (the prototype it installs is not
  tracked).
\<close>

definition obj_set :: "(jstr \<times> 'v) list \<Rightarrow> jstr \<Rightarrow> 'v \<Rightarrow> (jstr \<times> 'v) list" where
  "obj_set ob k v = (if k = proto_key \<and> map_of ob k = None then ob else obj_define ob k v)"

text \<open>The spread \<open>{...a, ...b}\<close>.\<close>

definition obj_spread :: "jsobj \<Rightarrow> jsobj \<Rightarrow> jsobj" where
  "obj_spread a b = foldl (\<lambda>ob (k, v). obj_define ob k v) a b"

text \<open>
  \<open>Object.entries\<close> lists the keys that are array indices first, in numeric order, then the
  others in creation order.
\<close>

definition is_index :: "jstr \<Rightarrow> bool" where
  "is_index k \<longleftrightarrow> all_digits k \<and> (k = [48] \<or> hd k \<noteq> 48) \<and> digits_val k < 4294967295"

definition obj_entries :: "(jstr \<times> 'v) list \<Rightarrow> (jstr \<times> 'v) list" where
  "obj_entries ob = sort_key (\<lambda>e. digits_val (fst e)) (filter (\<lambda>e. is_index (fst e)) ob)
     @ filter (\<lambda>e. \<not> is_index (fst e)) ob"

section \<open>Type tests and conversions\<close>

text \<open>\<open>v == null\<close>.\<close>

definition nullish :: "jsval \<Rightarrow> bool" where
  "nullish v \<longleftrightarrow> v = JNull \<or> v = JUndef"

fun truthy :: "jsval \<Rightarrow> bool" where
  "truthy JUndef = False"
| "truthy JNull = False"
| "truthy (JBool b) = b"
| "truthy (JNum n) = n_truthy n"
| "truthy (JStr s) = (s \<noteq> [])"
| "truthy (JArr vs) = True"
| "truthy (JObj ob) = True"
| "truthy (JBuiltin k) = True"

fun is_str :: "jsval \<Rightarrow> bool" where
  "is_str (JStr s) = True"
| "is_str v = False"

fun is_num :: "jsval \<Rightarrow> bool" where
  "is_num (JNum n) = True"
| "is_num v = False"

fun is_arr :: "jsval \<Rightarrow> bool" where
  "is_arr (JArr vs) = True"
| "is_arr v = False"

text \<open>The string held by a value, for code guarded by \<open>typeof v === "string"\<close>.\<close>

fun str_opt :: "jsval \<Rightarrow> jstr option" where
  "str_opt (JStr s) = Some s"
| "str_opt v = None"

text \<open>\<open>String(v)\<close>; an object that redefines \<open>toString\<close> is printed like any other.\<close>

fun to_str :: "jsval \<Rightarrow> jstr" where
  "to_str JUndef = js ''undefined''"
| "to_str JNull = js ''null''"
| "to_str (JBool b) = (if b then js ''true'' else js ''false'')"
| "to_str (JNum n) = num_str n"
| "to_str (JStr s) = s"
| "to_str (JArr vs) =
     join [44] (map (\<lambda>v. if v = JNull \<or> v = JUndef then [] else to_str v) vs)"
| "to_str (JObj ob) = js ''[object Object]''"
| "to_str (JBuiltin k) = (if k = proto_key then js ''[object Object]''
     else js ''function '' @ (if k = js ''constructor'' then js ''Object'' else k)
       @ js ''() { [native code] }'')"

text \<open>
  \<open>a === b\<close> for values that were read separately: objects and arrays are then different
  references.
\<close>

fun strict_eq :: "jsval \<Rightarrow> jsval \<Rightarrow> bool" where
  "strict_eq JUndef JUndef = True"
| "strict_eq JNull JNull = True"
| "strict_eq (JBool a) (JBool b) = (a = b)"
| "strict_eq (JNum a) (JNum b) = n_eq a b"
| "strict_eq (JStr a) (JStr b) = (a = b)"
| "strict_eq (JBuiltin a) (JBuiltin b) = (a = b)"
| "strict_eq a b = False"

text \<open>
  The property \<open>k\<close> of any value: \<open>None\<close> where the language throws, on \<open>null\<close> and \<open>undefined\<close>.
  Only names that no primitive or array has are read this way.
\<close>

fun js_prop :: "jsval \<Rightarrow> jstr \<Rightarrow> jsval option" where
  "js_prop JUndef k = None"
| "js_prop JNull k = None"
| "js_prop (JObj ob) k = Some (obj_get ob k)"
| "js_prop v k = Some (obj_get [] k)"

section \<open>Facts about objects\<close>

lemma map_of_define: "map_of (obj_define ob k v) k' = (if k' = k then Some v else map_of ob k')"
  by (induction ob k v rule: obj_define.induct) auto

lemma get_define_same [simp]: "obj_get (obj_define ob k v) k = v"
  by (simp add: obj_get_def map_of_define)

lemma get_define_other: "k' \<noteq> k \<Longrightarrow> obj_get (obj_define ob k v) k' = obj_get ob k'"
  by (simp add: obj_get_def map_of_define)

lemma map_of_set: "k \<noteq> proto_key \<Longrightarrow>
    map_of (obj_set ob k v) k' = (if k' = k then Some v else map_of ob k')"
  by (simp add: obj_set_def map_of_define)

lemma get_set_same [simp]: "k \<noteq> proto_key \<Longrightarrow> obj_get (obj_set ob k v) k = v"
  by (simp add: obj_set_def)

lemma get_set_other: "k' \<noteq> k \<Longrightarrow> obj_get (obj_set ob k v) k' = obj_get ob k'"
  by (simp add: obj_set_def get_define_other)

lemma keys_define: "fst ` set (obj_define ob k v) = insert k (fst ` set ob)"
  by (induction ob k v rule: obj_define.induct) auto

lemma distinct_define:
  "distinct (map fst ob) \<Longrightarrow> distinct (map fst (obj_define ob k v))"
proof (induction ob k v rule: obj_define.induct)
  case (2 k' w ob k v)
  have "k' \<notin> fst ` set (obj_define ob k v)" if "k' \<noteq> k"
    using that "2.prems" by (auto simp: keys_define)
  with 2 show ?case by auto
qed simp

lemma distinct_set: "distinct (map fst ob) \<Longrightarrow> distinct (map fst (obj_set ob k v))"
  by (simp add: obj_set_def distinct_define)

lemma set_obj_entries [simp]: "set (obj_entries ob) = set ob"
  by (auto simp: obj_entries_def)

lemma mset_obj_entries: "mset (obj_entries ob) = mset ob"
  by (simp add: obj_entries_def flip: multiset_partition)

lemma distinct_entries: "distinct (map fst ob) \<Longrightarrow> distinct (map fst (obj_entries ob))"
  by (metis mset_obj_entries mset_map mset_eq_imp_distinct_iff)

lemma map_of_entries: "distinct (map fst ob) \<Longrightarrow> map_of (obj_entries ob) = map_of ob"
  by (subst map_of_inject_set) (simp_all add: distinct_entries)

text \<open>Objects with the operations above are a key-value store, except for the key \<open>__proto__\<close>.\<close>

definition obj_put :: "(jstr \<times> 'v) list \<Rightarrow> jstr \<Rightarrow> 'v \<Rightarrow> (jstr \<times> 'v) list" where
  "obj_put = obj_define"

definition obj_delete :: "(jstr \<times> 'v) list \<Rightarrow> jstr \<Rightarrow> (jstr \<times> 'v) list" where
  "obj_delete ob k = filter (\<lambda>e. fst e \<noteq> k) ob"

lemma map_of_delete: "map_of (obj_delete ob k) k' = (if k' = k then None else map_of ob k')"
  by (induction ob) (auto simp: obj_delete_def)

interpretation obj: kv_store map_of obj_put obj_delete
  by unfold_locales (simp_all add: obj_put_def map_of_define map_of_delete)

end
