(* ===== verification/JsonText.thy ===== *)
theory JsonText
  imports JsValue "HOL-Library.Monad_Syntax"
begin

text \<open>
  \<open>JSON.parse\<close>, the reader of the standard library that \<open>parseReportSpec\<close>, \<open>streamSSE\<close> and
  the workspace themes go through.  A parser takes the text and returns what it read with the
  rest of the text, or \<open>None\<close> for a syntax error.  The nesting of values is bounded by the
  length of the text, which is the fuel of the mutual recursion; \<open>json_fuel_mono\<close> shows that
  more fuel never changes a result.
\<close>

definition json_ws :: "nat \<Rightarrow> bool" where
  "json_ws c \<longleftrightarrow> c = 32 \<or> c = 9 \<or> c = 10 \<or> c = 13"

definition skip_ws :: "jstr \<Rightarrow> jstr" where
  "skip_ws s = dropWhile json_ws s"

definition hex_val :: "nat \<Rightarrow> nat option" where
  "hex_val c = (if is_digit c then Some (c - 48)
     else if 97 \<le> c \<and> c \<le> 102 then Some (c - 87)
     else if 65 \<le> c \<and> c \<le> 70 then Some (c - 55) else None)"

definition hex4 :: "jstr \<Rightarrow> nat option" where
  "hex4 ds = do { a \<leftarrow> hex_val (ds ! 0); b \<leftarrow> hex_val (ds ! 1); c \<leftarrow> hex_val (ds ! 2);
     d \<leftarrow> hex_val (ds ! 3); Some (((a * 16 + b) * 16 + c) * 16 + d) }"

definition unescape :: "nat \<Rightarrow> nat option" where
  "unescape e = map_of [(34, 34), (92, 92), (47, 47), (98, 8), (102, 12), (110, 10),
     (114, 13), (116, 9)] e"

text \<open>The text after an opening quote.\<close>

fun json_string :: "jstr \<Rightarrow> (jstr \<times> jstr) option" where
  "json_string [] = None"
| "json_string (c # s) =
     (if c = 34 then Some ([], s)
      else if c = 92 then
        (case s of
           [] \<Rightarrow> None
         | e # r \<Rightarrow>
             if e = 117 then
               (if length r < 4 then None
                else case hex4 (take 4 r) of
                    None \<Rightarrow> None
                  | Some u \<Rightarrow> map_option (apfst ((#) u)) (json_string (drop 4 r)))
             else (case unescape e of
                 None \<Rightarrow> None
               | Some u \<Rightarrow> map_option (apfst ((#) u)) (json_string r)))
      else if c < 32 then None
      else map_option (apfst ((#) c)) (json_string s))"

text \<open>Numbers: sign, integer part without leading zeros, fraction, exponent.\<close>

definition json_digits :: "jstr \<Rightarrow> (jstr \<times> jstr) option" where
  "json_digits s = (let ds = takeWhile is_digit s in
     if ds = [] then None else Some (ds, dropWhile is_digit s))"

definition json_int :: "jstr \<Rightarrow> (jstr \<times> jstr) option" where
  "json_int s = (case s of c # r \<Rightarrow> if c = 48 then Some ([48], r) else json_digits s | [] \<Rightarrow> None)"

definition json_frac :: "jstr \<Rightarrow> (jstr \<times> jstr) option" where
  "json_frac s = (case s of c # r \<Rightarrow> if c = 46 then json_digits r else Some ([], s)
     | [] \<Rightarrow> Some ([], s))"

definition json_exp :: "jstr \<Rightarrow> (int \<times> jstr) option" where
  "json_exp s = (case s of
     c # r \<Rightarrow>
       if c = 101 \<or> c = 69 then
         (let neg = (case r of d # _ \<Rightarrow> d = 45 | [] \<Rightarrow> False);
              r' = (case r of d # t \<Rightarrow> if d = 45 \<or> d = 43 then t else r | [] \<Rightarrow> r)
          in map_option (apfst (\<lambda>ds. if neg then - int (digits_val ds) else int (digits_val ds)))
               (json_digits r'))
       else Some (0, s)
   | [] \<Rightarrow> Some (0, s))"

definition scale10 :: "rat \<Rightarrow> int \<Rightarrow> rat" where
  "scale10 q e = (if 0 \<le> e then q * 10 ^ nat e else q / 10 ^ nat (- e))"

definition json_number :: "jstr \<Rightarrow> (rat \<times> jstr) option" where
  "json_number s = do {
     let neg = (case s of c # _ \<Rightarrow> c = 45 | [] \<Rightarrow> False);
     (i, r1) \<leftarrow> json_int (if neg then tl s else s);
     (f, r2) \<leftarrow> json_frac r1;
     (e, r3) \<leftarrow> json_exp r2;
     let q = scale10 (of_nat (digits_val (i @ f))) (e - int (length f));
     Some (if neg then - q else q, r3) }"

definition json_word :: "jstr \<Rightarrow> jsval \<Rightarrow> jstr \<Rightarrow> (jsval \<times> jstr) option" where
  "json_word w v s = (if starts_with w s then Some (v, drop (length w) s) else None)"

text \<open>
  Values.  \<open>json_elems\<close> and \<open>json_members\<close> read the elements of an array and the members of an
  object after their opening bracket, when it is not closed at once.
\<close>

fun json_value :: "nat \<Rightarrow> jstr \<Rightarrow> (jsval \<times> jstr) option"
  and json_elems :: "nat \<Rightarrow> jsval list \<Rightarrow> jstr \<Rightarrow> (jsval \<times> jstr) option"
  and json_members :: "nat \<Rightarrow> jsobj \<Rightarrow> jstr \<Rightarrow> (jsval \<times> jstr) option" where
  "json_value 0 s = None"
| "json_value (Suc n) s =
     (case skip_ws s of
        [] \<Rightarrow> None
      | c # r \<Rightarrow>
          if c = 123 then
            (case skip_ws r of
               d # t \<Rightarrow> if d = 125 then Some (JObj [], t) else json_members n [] r
             | [] \<Rightarrow> None)
          else if c = 91 then
            (case skip_ws r of
               d # t \<Rightarrow> if d = 93 then Some (JArr [], t) else json_elems n [] r
             | [] \<Rightarrow> None)
          else if c = 34 then map_option (apfst JStr) (json_string r)
          else if c = 116 then json_word (js ''true'') (JBool True) (c # r)
          else if c = 102 then json_word (js ''false'') (JBool False) (c # r)
          else if c = 110 then json_word (js ''null'') JNull (c # r)
          else map_option (apfst (\<lambda>q. JNum (Fin q))) (json_number (c # r)))"
| "json_elems 0 acc s = None"
| "json_elems (Suc n) acc s =
     (case json_value n s of
        None \<Rightarrow> None
      | Some (v, r) \<Rightarrow>
          (case skip_ws r of
             [] \<Rightarrow> None
           | c # t \<Rightarrow> if c = 44 then json_elems n (acc @ [v]) t
               else if c = 93 then Some (JArr (acc @ [v]), t) else None))"
| "json_members 0 acc s = None"
| "json_members (Suc n) acc s =
     (case skip_ws s of
        [] \<Rightarrow> None
      | q # r \<Rightarrow>
          if q \<noteq> 34 then None
          else (case json_string r of
              None \<Rightarrow> None
            | Some (k, r1) \<Rightarrow>
                (case skip_ws r1 of
                   [] \<Rightarrow> None
                 | c # r2 \<Rightarrow>
                     if c \<noteq> 58 then None
                     else (case json_value n r2 of
                         None \<Rightarrow> None
                       | Some (v, r3) \<Rightarrow>
                           (case skip_ws r3 of
                              [] \<Rightarrow> None
                            | d # t \<Rightarrow>
                                if d = 44 then json_members n (obj_define acc k v) t
                                else if d = 125 then Some (JObj (obj_define acc k v), t)
                                else None)))))"

definition json_parse :: "jstr \<Rightarrow> jsval option" where
  "json_parse s = (case json_value (Suc (2 * length s)) s of
     None \<Rightarrow> None
   | Some (v, r) \<Rightarrow> if skip_ws r = [] then Some v else None)"

subsection \<open>The fuel\<close>

lemma json_fuel_step:
  "(\<forall>s x. json_value n s = Some x \<longrightarrow> json_value (Suc n) s = Some x)
   \<and> (\<forall>acc s x. json_elems n acc s = Some x \<longrightarrow> json_elems (Suc n) acc s = Some x)
   \<and> (\<forall>ob s x. json_members n ob s = Some x \<longrightarrow> json_members (Suc n) ob s = Some x)"
proof (induction n)
  case 0
  show ?case by simp
next
  case (Suc n)
  note no_unfold = json_value.simps json_elems.simps json_members.simps
  have v: "json_value (Suc (Suc n)) s = Some x" if "json_value (Suc n) s = Some x" for s x
    using that Suc.IH unfolding json_value.simps(2)[of n s] json_value.simps(2)[of "Suc n" s]
    by (cases x) (auto split: list.splits if_splits simp del: no_unfold)
  have e: "json_elems (Suc (Suc n)) acc s = Some x" if p: "json_elems (Suc n) acc s = Some x" for acc s x
  proof -
    obtain w r where 1: "json_value n s = Some (w, r)"
      using p unfolding json_elems.simps(2)[of n acc s] by (auto split: option.splits simp del: no_unfold)
    then have "json_value (Suc n) s = Some (w, r)" using Suc.IH by blast
    with p 1 Suc.IH show ?thesis
      unfolding json_elems.simps(2)[of n acc s] json_elems.simps(2)[of "Suc n" acc s]
      by (cases x) (auto split: list.splits if_splits simp del: no_unfold)
  qed
  have m: "json_members (Suc (Suc n)) ob s = Some x" if p: "json_members (Suc n) ob s = Some x" for ob s x
  proof -
    obtain q r k r1 c r2 w r3 where 1: "skip_ws s = q # r" "json_string r = Some (k, r1)"
        "skip_ws r1 = c # r2" "json_value n r2 = Some (w, r3)"
      using p unfolding json_members.simps(2)[of n ob s]
      by (auto split: option.splits list.splits if_splits simp del: no_unfold)
    then have "json_value (Suc n) r2 = Some (w, r3)" using Suc.IH by blast
    with p 1 Suc.IH show ?thesis
      unfolding json_members.simps(2)[of n ob s] json_members.simps(2)[of "Suc n" ob s]
      by (cases x) (auto split: list.splits if_splits simp del: no_unfold)
  qed
  show ?case using v e m by blast
qed

lemma json_value_mono:
  assumes "n \<le> m" and "json_value n s = Some x" shows "json_value m s = Some x"
  using assms by (induction m rule: dec_induct) (use json_fuel_step in blast)+

lemma json_fuel_agree:
  "json_value n s = Some x \<Longrightarrow> json_value m s = Some y \<Longrightarrow> x = y"
  by (metis json_value_mono linorder_le_cases option.inject)


text \<open>Evaluation of the reader on a literal text.\<close>

lemmas json_value_numeral = json_value.simps(2) [of "pred_numeral k" for k, folded numeral_eq_Suc]
  and json_elems_numeral = json_elems.simps(2) [of "pred_numeral k" for k, folded numeral_eq_Suc]
  and json_members_numeral = json_members.simps(2) [of "pred_numeral k" for k, folded numeral_eq_Suc]

lemmas json_eval = json_parse_def skip_ws_def json_ws_def json_word_def starts_with_def
  json_number_def json_int_def json_digits_def json_frac_def json_exp_def scale10_def
  digits_val_def is_digit_def unescape_def hex4_def hex_val_def
  json_value_numeral json_elems_numeral json_members_numeral

end
