(* ===== verification/JsonPrint.thy ===== *)
theory JsonPrint
  imports JsonText
begin

text \<open>
  \<open>JSON.stringify(v, null, gap)\<close>: the writer of the standard library.  \<open>None\<close> is \<open>undefined\<close>, the
  result for \<open>undefined\<close> itself and for functions, which are dropped from objects and written
  as \<open>null\<close> inside arrays.
\<close>

definition hex_digit :: "nat \<Rightarrow> nat" where
  "hex_digit n = (if n < 10 then 48 + n else 87 + n)"

definition json_u :: "nat \<Rightarrow> jstr" where
  "json_u c = [92, 117, hex_digit (c div 4096 mod 16), hex_digit (c div 256 mod 16),
     hex_digit (c div 16 mod 16), hex_digit (c mod 16)]"

text \<open>One code unit; a surrogate without its partner is escaped.\<close>

definition json_escape :: "nat \<Rightarrow> jstr" where
  "json_escape c = (case map_of [(34, 34), (92, 92), (8, 98), (12, 102), (10, 110), (13, 114),
       (9, 116)] c of
     Some e \<Rightarrow> [92, e]
   | None \<Rightarrow> if c < 32 then json_u c else [c])"

definition high_surrogate :: "nat \<Rightarrow> bool" where
  "high_surrogate c \<longleftrightarrow> 55296 \<le> c \<and> c \<le> 56319"

definition low_surrogate :: "nat \<Rightarrow> bool" where
  "low_surrogate c \<longleftrightarrow> 56320 \<le> c \<and> c \<le> 57343"

fun json_escapes :: "jstr \<Rightarrow> jstr" where
  "json_escapes [] = []"
| "json_escapes [c] = (if high_surrogate c \<or> low_surrogate c then json_u c else json_escape c)"
| "json_escapes (c # d # s) =
     (if high_surrogate c \<and> low_surrogate d then c # d # json_escapes s
      else (if high_surrogate c \<or> low_surrogate c then json_u c else json_escape c)
        @ json_escapes (d # s))"

definition json_quote :: "jstr \<Rightarrow> jstr" where
  "json_quote s = [34] @ json_escapes s @ [34]"

text \<open>The items of an array or object between their brackets, on lines of their own when \<open>gap\<close> is positive.\<close>

definition json_items :: "nat \<Rightarrow> jstr \<Rightarrow> nat \<Rightarrow> nat \<Rightarrow> jstr list \<Rightarrow> jstr" where
  "json_items gap indent lb rb items =
     (if items = [] then [lb, rb]
      else if gap = 0 then [lb] @ join [44] items @ [rb]
      else
        let inner = indent @ replicate gap 32
        in [lb, 10] @ inner @ join ([44, 10] @ inner) items @ [10] @ indent @ [rb])"

definition json_member :: "nat \<Rightarrow> jstr \<times> jstr option \<Rightarrow> jstr option" where
  "json_member gap m = map_option
     (\<lambda>t. json_quote (fst m) @ [58] @ (if gap = 0 then [] else [32]) @ t) (snd m)"

fun json_print :: "nat \<Rightarrow> jstr \<Rightarrow> jsval \<Rightarrow> jstr option" where
  "json_print gap indent JUndef = None"
| "json_print gap indent JNull = Some (js ''null'')"
| "json_print gap indent (JBool b) = Some (if b then js ''true'' else js ''false'')"
| "json_print gap indent (JNum n) = Some (if is_finite n then num_str n else js ''null'')"
| "json_print gap indent (JStr s) = Some (json_quote s)"
| "json_print gap indent (JArr vs) = Some (json_items gap indent 91 93
     (map (\<lambda>v. case json_print gap (indent @ replicate gap 32) v of
         Some t \<Rightarrow> t | None \<Rightarrow> js ''null'') vs))"
| "json_print gap indent (JObj ob) = Some (json_items gap indent 123 125
     (List.map_filter (json_member gap)
       (obj_entries (map (\<lambda>(k, v). (k, json_print gap (indent @ replicate gap 32) v)) ob))))"
| "json_print gap indent (JBuiltin k) = (if k = proto_key then Some [123, 125] else None)"

definition json_stringify :: "nat \<Rightarrow> jsval \<Rightarrow> jstr option" where
  "json_stringify gap v = json_print gap [] v"

end
