(* ===== verification/Sse.thy ===== *)
theory Sse
  imports JsonText
begin

text \<open>
  The readers of server-sent events, src/ui/web/src/lib/sse.ts.

  A response body is the list of outcomes of \<open>reader.read()\<close>: \<open>Chunk t\<close> delivers the decoded
  text \<open>t\<close>, \<open>ReadError e\<close> is a rejected read, and the end of the list is \<open>done\<close>.  The callback
  of \<open>streamSSE\<close> is a function on the state of its owner; an exception it throws is swallowed by
  the reader, so what is left of a call that throws is the state it reached.
\<close>

record js_error =
  err_abort :: bool      \<comment> \<open>a \<open>DOMException\<close> named \<open>AbortError\<close>\<close>
  err_message :: jstr

datatype sse_read = Chunk jstr | ReadError js_error

record sse_event =
  ev_type :: jstr
  ev_payload :: jsval

section \<open>\<open>streamSSE\<close>\<close>

record sse_state =
  sse_buffer :: jstr
  current_event :: jstr
  current_data :: jstr

definition sse_init :: sse_state where
  "sse_init = \<lparr>sse_buffer = [], current_event = [], current_data = []\<rparr>"

text \<open>
  The event handed to the callback at a blank line, if any.  The type is overwritten with the
  one of the \<open>event:\<close> field, which throws on a primitive value; \<open>null\<close> throws earlier.
\<close>

definition sse_dispatch :: "jstr \<Rightarrow> jstr \<Rightarrow> sse_event option" where
  "sse_dispatch event data =
     (if event \<noteq> [] \<and> data \<noteq> [] then
        (case json_parse data of
           Some (JObj ob) \<Rightarrow> Some \<lparr>ev_type = event, ev_payload = obj_get ob (js ''payload'')\<rparr>
         | Some (JArr vs) \<Rightarrow> Some \<lparr>ev_type = event, ev_payload = JUndef\<rparr>
         | _ \<Rightarrow> None)
      else None)"

definition sse_line :: "('s \<Rightarrow> sse_event \<Rightarrow> 's) \<Rightarrow> sse_state \<times> 's \<Rightarrow> jstr \<Rightarrow> sse_state \<times> 's" where
  "sse_line on_event x line = (case x of (st, s) \<Rightarrow>
     if starts_with (js ''event: '') line then (st\<lparr>current_event := trim (drop 7 line)\<rparr>, s)
     else if starts_with (js ''data: '') line then (st\<lparr>current_data := drop 6 line\<rparr>, s)
     else if line = [] then
       (st\<lparr>current_event := [], current_data := []\<rparr>,
        (case sse_dispatch (current_event st) (current_data st) of
           Some e \<Rightarrow> on_event s e | None \<Rightarrow> s))
     else (st, s))"

text \<open>One iteration of the read loop.\<close>

definition sse_feed :: "('s \<Rightarrow> sse_event \<Rightarrow> 's) \<Rightarrow> sse_state \<times> 's \<Rightarrow> jstr \<Rightarrow> sse_state \<times> 's" where
  "sse_feed on_event x text = (case x of (st, s) \<Rightarrow>
     let lines = split_char 10 (sse_buffer st @ text)
     in foldl (sse_line on_event) (st\<lparr>sse_buffer := last lines\<rparr>, s) (butlast lines))"

fun sse_loop :: "('s \<Rightarrow> sse_event \<Rightarrow> 's) \<Rightarrow> ('s \<Rightarrow> js_error \<Rightarrow> 's) \<Rightarrow> sse_state \<times> 's
    \<Rightarrow> sse_read list \<Rightarrow> 's" where
  "sse_loop on_event on_error x [] = snd x"
| "sse_loop on_event on_error x (Chunk t # rs) =
     sse_loop on_event on_error (sse_feed on_event x t) rs"
| "sse_loop on_event on_error x (ReadError e # rs) = on_error (snd x) e"

definition no_body_error :: js_error where
  "no_body_error = \<lparr>err_abort = False, err_message = js ''No response body''\<rparr>"

definition streamSSE :: "('s \<Rightarrow> sse_event \<Rightarrow> 's) \<Rightarrow> ('s \<Rightarrow> js_error \<Rightarrow> 's) \<Rightarrow>
    sse_read list option \<Rightarrow> 's \<Rightarrow> 's" where
  "streamSSE on_event on_error body s = (case body of
     None \<Rightarrow> on_error s no_body_error
   | Some reads \<Rightarrow> sse_loop on_event on_error (sse_init, s) reads)"

subsection \<open>What a text means: the reference decoder\<close>

text \<open>
  The decoder reads a whole text at once: the events of its complete lines, in order.
\<close>

definition sse_decode :: "jstr \<Rightarrow> sse_event list" where
  "sse_decode text = snd (foldl (sse_line (\<lambda>es e. es @ [e])) (sse_init, [])
     (butlast (split_char 10 text)))"

subsection \<open>The reader against the decoder\<close>

lemma sse_line_buffer: "sse_buffer (fst (sse_line f x l)) = sse_buffer (fst x)"
  by (cases x) (simp add: sse_line_def)

lemma sse_line_buffer_comm:
  "sse_line f (st\<lparr>sse_buffer := b\<rparr>, s) l = apfst (\<lambda>st'. st'\<lparr>sse_buffer := b\<rparr>) (sse_line f (st, s) l)"
  by (simp add: sse_line_def)

lemma foldl_line_buffer_comm:
  "foldl (sse_line f) (st\<lparr>sse_buffer := b\<rparr>, s) ls =
     apfst (\<lambda>st'. st'\<lparr>sse_buffer := b\<rparr>) (foldl (sse_line f) (st, s) ls)"
proof (induction ls arbitrary: st s)
  case Nil
  then show ?case by simp
next
  case (Cons l ls)
  then show ?case
    by (cases "sse_line f (st, s) l") (simp add: sse_line_buffer_comm)
qed

lemma buffer_twice:
  "apfst (\<lambda>st. st\<lparr>sse_buffer := b\<rparr>) (apfst (\<lambda>st. st\<lparr>sse_buffer := c\<rparr>) p) =
     apfst (\<lambda>st. st\<lparr>sse_buffer := b\<rparr>) p"
  by (cases p) simp

text \<open>Two chunks in a row are the same as their concatenation.\<close>

lemma sse_feed_append: "sse_feed f (sse_feed f x t) u = sse_feed f x (t @ u)"
proof -
  obtain st s where x: "x = (st, s)" by (cases x)
  let ?ls = "split_char 10 (sse_buffer st @ t)"
  let ?r = "foldl (sse_line f) (st, s) (butlast ?ls)"
  have fed: "sse_feed f x t = apfst (\<lambda>st'. st'\<lparr>sse_buffer := last ?ls\<rparr>) ?r"
    by (simp add: x sse_feed_def Let_def foldl_line_buffer_comm)
  obtain st' s' where r: "?r = (st', s')" by (cases ?r)
  have split: "split_char 10 (sse_buffer st @ t @ u) = butlast ?ls @ split_char 10 (last ?ls @ u)"
    using split_char_append [of 10 "sse_buffer st @ t" u] by simp
  show ?thesis
    unfolding fed r
    by (simp add: sse_feed_def x Let_def split butlast_append foldl_line_buffer_comm r buffer_twice)
qed

definition line_buffered :: "sse_state \<times> 's \<Rightarrow> bool" where
  "line_buffered x \<longleftrightarrow> 10 \<notin> set (sse_buffer (fst x))"

lemma sse_feed_buffer:
  "sse_buffer (fst (sse_feed f (st, s) t)) = last (split_char 10 (sse_buffer st @ t))"
  by (simp add: sse_feed_def Let_def foldl_line_buffer_comm)

lemma sse_feed_line_buffered: "line_buffered (sse_feed f x t)"
  by (cases x) (simp add: line_buffered_def sse_feed_buffer sep_not_in_last_split)

lemma sse_feed_Nil: "line_buffered x \<Longrightarrow> sse_feed f x [] = x"
  by (cases x) (simp add: line_buffered_def sse_feed_def split_char_no_sep)

text \<open>The partial line kept between two reads never contains a line end.\<close>

interpretation reader: invariant_machine "sse_feed f" line_buffered
  by unfold_locales (rule sse_feed_line_buffered)

lemma sse_init_line_buffered: "line_buffered (sse_init, s)"
  by (simp add: line_buffered_def sse_init_def)

lemma sse_feeds: "line_buffered x \<Longrightarrow> foldl (sse_feed f) x cs = sse_feed f x (concat cs)"
  by (induction cs arbitrary: x) (simp_all add: sse_feed_Nil sse_feed_line_buffered sse_feed_append)

lemma sse_loop_chunks:
  "sse_loop f g x (map Chunk cs @ rs) = sse_loop f g (foldl (sse_feed f) x cs) rs"
  by (induction cs arbitrary: x) simp_all

text \<open>The callback only sees events: folding it over the collected events is the same.\<close>

lemma sse_line_collect:
  "sse_line f (st, foldl f s es) l =
     map_prod id (foldl f s) (sse_line (\<lambda>es e. es @ [e]) (st, es) l)"
  by (simp add: sse_line_def split: option.splits)

lemma sse_lines_collect:
  "foldl (sse_line f) (st, foldl f s es) ls =
     map_prod id (foldl f s) (foldl (sse_line (\<lambda>es e. es @ [e])) (st, es) ls)"
proof (induction ls arbitrary: st es)
  case Nil
  then show ?case by simp
next
  case (Cons l ls)
  obtain st' es' where "sse_line (\<lambda>es e. es @ [e]) (st, es) l = (st', es')"
    by (metis surj_pair)
  with Cons show ?case by (simp add: sse_line_collect)
qed

lemma sse_feed_init:
  "snd (sse_feed f (sse_init, s) text) = foldl f s (sse_decode text)"
proof -
  have b: "sse_init\<lparr>sse_buffer := b\<rparr> = \<lparr>sse_buffer = b, current_event = [], current_data = []\<rparr>" for b
    by (simp add: sse_init_def)
  show ?thesis
    using sse_lines_collect [of f sse_init s "[]" "butlast (split_char 10 text)"]
    by (simp add: sse_feed_def Let_def foldl_line_buffer_comm sse_decode_def)
       (simp add: sse_init_def snd_map_prod)
qed


text \<open>What every call of the callback keeps, a read keeps.\<close>

lemma sse_line_keeps:
  assumes "\<And>s e. P s \<Longrightarrow> P (f s e)" and "P (snd x)"
  shows "P (snd (sse_line f x l))"
  using assms by (cases x) (auto simp: sse_line_def split: option.splits)

lemma sse_feed_keeps:
  assumes f: "\<And>s e. P s \<Longrightarrow> P (f s e)" and x: "P (snd x)"
  shows "P (snd (sse_feed f x t))"
proof -
  have "P (snd (foldl (sse_line f) z ls))" if "P (snd z)" for z ls
    using that
  proof (induction ls arbitrary: z)
    case (Cons l ls)
    show ?case using Cons.IH [OF sse_line_keeps [of P, OF f Cons.prems]] by simp
  qed simp
  with x show ?thesis by (cases x) (simp add: sse_feed_def Let_def)
qed

text \<open>
  C3.  The events a response delivers depend on its text only, not on how the network cut the
  text into chunks: the callback is folded over the events of the complete lines of the whole
  text.
\<close>

theorem streamSSE_chunking:
  "streamSSE f g (Some (map Chunk cs)) s = foldl f s (sse_decode (concat cs))"
proof -
  have "streamSSE f g (Some (map Chunk cs)) s = snd (foldl (sse_feed f) (sse_init, s) cs)"
    using sse_loop_chunks [of f g "(sse_init, s)" cs "[]"] by (simp add: streamSSE_def)
  also have "\<dots> = foldl f s (sse_decode (concat cs))"
    by (simp add: sse_feeds [OF sse_init_line_buffered] sse_feed_init)
  finally show ?thesis .
qed

text \<open>
  A read that fails after some chunks reports its error once, on the state that the events
  before it produced, and nothing after it is read.
\<close>

theorem streamSSE_read_error:
  "streamSSE f g (Some (map Chunk cs @ ReadError e # rs)) s =
     g (foldl f s (sse_decode (concat cs))) e"
  using sse_loop_chunks [of f g "(sse_init, s)" cs "ReadError e # rs"]
  by (simp add: streamSSE_def sse_feeds [OF sse_init_line_buffered] sse_feed_init)

subsection \<open>Frames\<close>

text \<open>
  The frame that the backend writes for an event (\<open>fmt.Fprintf\<close> of the event name and of the
  JSON text of the event).
\<close>

definition sse_frame :: "jstr \<times> jstr \<Rightarrow> jstr" where
  "sse_frame m = js ''event: '' @ fst m @ [10] @ js ''data: '' @ snd m @ [10, 10]"

definition frame_ok :: "jstr \<times> jstr \<Rightarrow> bool" where
  "frame_ok m \<longleftrightarrow> 10 \<notin> set (fst m) \<and> trim (fst m) = fst m \<and> 10 \<notin> set (snd m)"

definition frame_lines :: "jstr \<times> jstr \<Rightarrow> jstr list" where
  "frame_lines m = [js ''event: '' @ fst m, js ''data: '' @ snd m, []]"

lemma split_frame: "frame_ok m \<Longrightarrow>
    split_char 10 (sse_frame m @ rest) = frame_lines m @ split_char 10 rest"
  using split_char_append_sep [of 10 "js ''event: '' @ fst m" "js ''data: '' @ snd m @ [10, 10] @ rest"]
    split_char_append_sep [of 10 "js ''data: '' @ snd m" "[10] @ rest"]
  by (simp add: frame_ok_def sse_frame_def frame_lines_def)

lemma sse_line_event: "sse_line f (st, s) (js ''event: '' @ t) = (st\<lparr>current_event := trim t\<rparr>, s)"
  by (simp add: sse_line_def starts_with_def)

lemma sse_line_data: "sse_line f (st, s) (js ''data: '' @ t) = (st\<lparr>current_data := t\<rparr>, s)"
  by (simp add: sse_line_def starts_with_def)

lemma sse_line_blank: "sse_line f (st, s) [] =
    (st\<lparr>current_event := [], current_data := []\<rparr>,
     (case sse_dispatch (current_event st) (current_data st) of Some e \<Rightarrow> f s e | None \<Rightarrow> s))"
  by (simp add: sse_line_def starts_with_def)

lemma lines_of_frames:
  "list_all frame_ok ms \<Longrightarrow>
   butlast (split_char 10 (concat (map sse_frame ms))) = concat (map frame_lines ms)"
  by (induction ms) (simp_all add: split_frame butlast_append)

lemma line_frame:
  "foldl (sse_line f) (sse_init, s) (frame_lines m) =
     (sse_init, case sse_dispatch (trim (fst m)) (snd m) of Some e \<Rightarrow> f s e | None \<Rightarrow> s)"
  by (simp only: frame_lines_def foldl.simps sse_line_event sse_line_data sse_line_blank)
     (simp add: sse_init_def)

lemma decode_frames_from:
  "list_all frame_ok ms \<Longrightarrow>
   snd (foldl (sse_line (\<lambda>es e. es @ [e])) (sse_init, es) (concat (map frame_lines ms))) =
   es @ List.map_filter (\<lambda>m. sse_dispatch (fst m) (snd m)) ms"
  by (induction ms arbitrary: es)
     (auto simp: List.map_filter_simps line_frame frame_ok_def split: option.splits)

lemma decode_frames:
  assumes "list_all frame_ok ms"
  shows "sse_decode (concat (map sse_frame ms)) =
    List.map_filter (\<lambda>m. sse_dispatch (fst m) (snd m)) ms"
  using decode_frames_from [OF assms, of "[]"]
  by (simp add: sse_decode_def lines_of_frames [OF assms])


text \<open>
  A sequence of frames decodes to exactly the events of the frames whose data is a JSON
  object or array, in order: a malformed frame is skipped and does not disturb the others.
\<close>

theorem sse_decode_frames:
  assumes "list_all frame_ok ms"
  shows "sse_decode (concat (map sse_frame ms)) =
    List.map_filter (\<lambda>m. sse_dispatch (fst m) (snd m)) ms"
  using assms by (rule decode_frames)

lemma sse_decode_frames_witness:
  "sse_decode (concat (map sse_frame
     [(js ''chunk'', js ''{\"payload\":{\"content\":\"hi\"}}''), (js ''chunk'', js ''{bad''),
      (js ''run.started'', js ''[]'')])) =
   [\<lparr>ev_type = js ''chunk'', ev_payload = JObj [(js ''content'', JStr (js ''hi''))]\<rparr>,
    \<lparr>ev_type = js ''run.started'', ev_payload = JUndef\<rparr>]"
proof -
  have ok: "list_all frame_ok
     [(js ''chunk'', js ''{\"payload\":{\"content\":\"hi\"}}''), (js ''chunk'', js ''{bad''),
      (js ''run.started'', js ''[]'')]"
    by (simp add: frame_ok_def trim_def trim_start_def trim_end_def is_ws_def)
  show ?thesis
    unfolding sse_decode_frames [OF ok]
    by (simp add: List.map_filter_simps sse_dispatch_def json_eval obj_get_def proto_names_def)
qed

section \<open>\<open>streamOpenAIChatCompletion\<close>\<close>

text \<open>
  The second reader collects the \<open>data:\<close> lines of an event and joins them.  It lets errors
  through: a malformed chunk or an error chunk ends the loop with an exception.  \<open>oa_deltas\<close>
  is the sequence of arguments that \<open>onDelta\<close> has received.
\<close>

datatype oa_error =
    OaNoBody              \<comment> \<open>\<open>Error("No response body")\<close>\<close>
  | OaSyntax              \<comment> \<open>\<open>JSON.parse\<close> of a malformed chunk\<close>
  | OaNullChunk           \<comment> \<open>\<open>chunk.error\<close> of \<open>null\<close>: a \<open>TypeError\<close>\<close>
  | OaMessage jstr        \<comment> \<open>\<open>Error(chunk.error.message)\<close>\<close>
  | OaRead js_error       \<comment> \<open>a rejected read\<close>

datatype oa_status = Reading | Finished | Threw oa_error

record oa_state =
  oa_buffer :: jstr
  oa_lines :: "jstr list"
  oa_deltas :: "jsval list"
  oa_status :: oa_status

definition oa_init :: oa_state where
  "oa_init = \<lparr>oa_buffer = [], oa_lines = [], oa_deltas = [], oa_status = Reading\<rparr>"

text \<open>\<open>v?.[0]\<close> and \<open>v?.k\<close>.\<close>

fun opt_first :: "jsval \<Rightarrow> jsval" where
  "opt_first (JArr (v # vs)) = v"
| "opt_first (JStr (c # s)) = JStr [c]"
| "opt_first (JObj ob) = obj_get ob (js ''0'')"
| "opt_first v = JUndef"

definition opt_prop :: "jsval \<Rightarrow> jstr \<Rightarrow> jsval" where
  "opt_prop v k = (case js_prop v k of Some w \<Rightarrow> w | None \<Rightarrow> JUndef)"

definition oa_chunk :: "oa_state \<Rightarrow> jsval \<Rightarrow> oa_state" where
  "oa_chunk st chunk = (case js_prop chunk (js ''error'') of
     None \<Rightarrow> st\<lparr>oa_status := Threw OaNullChunk\<rparr>
   | Some err \<Rightarrow>
       (let msg = opt_prop err (js ''message'') in
        if truthy msg then st\<lparr>oa_status := Threw (OaMessage (to_str msg))\<rparr>
        else
          let content = opt_prop (opt_prop (opt_first (opt_prop chunk (js ''choices'')))
                (js ''delta'')) (js ''content'');
              delta = (if nullish content then JStr [] else content)
          in if truthy delta then st\<lparr>oa_deltas := oa_deltas st @ [delta]\<rparr> else st))"

text \<open>\<open>flush()\<close>; the status becomes \<open>Finished\<close> where it returns \<open>true\<close>.\<close>

definition oa_flush :: "oa_state \<Rightarrow> oa_state" where
  "oa_flush st = (if oa_lines st = [] then st
     else
       let data = trim (join [10] (oa_lines st));
           st' = st\<lparr>oa_lines := []\<rparr>
       in if data = [] then st'
          else if data = js ''[DONE]'' then st'\<lparr>oa_status := Finished\<rparr>
          else (case json_parse data of
              None \<Rightarrow> st'\<lparr>oa_status := Threw OaSyntax\<rparr>
            | Some chunk \<Rightarrow> oa_chunk st' chunk))"

definition oa_line :: "oa_state \<Rightarrow> jstr \<Rightarrow> oa_state" where
  "oa_line st line = (if oa_status st \<noteq> Reading then st
     else if starts_with (js ''data: '') line then st\<lparr>oa_lines := oa_lines st @ [drop 6 line]\<rparr>
     else if line = [] then oa_flush st else st)"

definition oa_feed :: "oa_state \<Rightarrow> jstr \<Rightarrow> oa_state" where
  "oa_feed st text = (let lines = split_char 10 (oa_buffer st @ text)
     in foldl oa_line (st\<lparr>oa_buffer := last lines\<rparr>) (butlast lines))"

text \<open>
  The end of the body: a last \<open>data:\<close> line without a line end still counts.
\<close>

definition oa_end :: "oa_state \<Rightarrow> oa_state" where
  "oa_end st = (let st' = (if starts_with (js ''data: '') (oa_buffer st)
       then st\<lparr>oa_lines := oa_lines st @ [drop 6 (oa_buffer st)]\<rparr> else st);
     st'' = oa_flush st'
   in if oa_status st'' = Reading then st''\<lparr>oa_status := Finished\<rparr> else st'')"

fun oa_loop :: "oa_state \<Rightarrow> sse_read list \<Rightarrow> oa_state" where
  "oa_loop st [] = oa_end st"
| "oa_loop st (Chunk t # rs) =
     (let st' = oa_feed st t in if oa_status st' = Reading then oa_loop st' rs else st')"
| "oa_loop st (ReadError e # rs) = st\<lparr>oa_status := Threw (OaRead e)\<rparr>"

definition streamOpenAIChatCompletion :: "sse_read list option \<Rightarrow> jsval list \<times> oa_status" where
  "streamOpenAIChatCompletion body = (case body of
     None \<Rightarrow> ([], Threw OaNoBody)
   | Some reads \<Rightarrow> (let st = oa_loop oa_init reads in (oa_deltas st, oa_status st)))"

subsection \<open>Facts about the second reader\<close>

text \<open>Once the loop has been left, lines are ignored.\<close>

lemma oa_lines_stopped: "oa_status st \<noteq> Reading \<Longrightarrow> foldl oa_line st ls = st"
  by (induction ls) (simp_all add: oa_line_def)

lemma oa_chunk_buffer: "oa_chunk (st\<lparr>oa_buffer := b\<rparr>) v = (oa_chunk st v)\<lparr>oa_buffer := b\<rparr>"
  by (simp add: oa_chunk_def Let_def split: option.splits)

lemma oa_flush_buffer: "oa_flush (st\<lparr>oa_buffer := b\<rparr>) = (oa_flush st)\<lparr>oa_buffer := b\<rparr>"
proof -
  have swap: "st\<lparr>oa_buffer := b, oa_lines := []\<rparr> = (st\<lparr>oa_lines := []\<rparr>)\<lparr>oa_buffer := b\<rparr>"
    by simp
  have "oa_chunk (st\<lparr>oa_buffer := b, oa_lines := []\<rparr>) v = (oa_chunk (st\<lparr>oa_lines := []\<rparr>) v)\<lparr>oa_buffer := b\<rparr>" for v
    by (simp only: swap oa_chunk_buffer)
  then show ?thesis
    by (simp add: oa_flush_def Let_def split: option.splits)
qed

lemma oa_line_buffer: "oa_line (st\<lparr>oa_buffer := b\<rparr>) l = (oa_line st l)\<lparr>oa_buffer := b\<rparr>"
  by (simp add: oa_line_def oa_flush_buffer)

lemma oa_lines_buffer: "foldl oa_line (st\<lparr>oa_buffer := b\<rparr>) ls = (foldl oa_line st ls)\<lparr>oa_buffer := b\<rparr>"
  by (induction ls arbitrary: st) (simp_all add: oa_line_buffer)

lemma oa_feed_append: "oa_feed (oa_feed st t) u = oa_feed st (t @ u)"
  using split_char_append [of 10 "oa_buffer st @ t" u]
  by (simp add: oa_feed_def Let_def oa_lines_buffer butlast_append)

lemma oa_feed_status_stopped: "oa_status st \<noteq> Reading \<Longrightarrow> oa_status (oa_feed st t) = oa_status st
    \<and> oa_deltas (oa_feed st t) = oa_deltas st"
  by (simp add: oa_feed_def Let_def oa_lines_buffer oa_lines_stopped)

text \<open>Deltas are only ever appended, so what has been shown is never taken back.\<close>

lemma oa_chunk_deltas: "\<exists>ds. oa_deltas (oa_chunk st v) = oa_deltas st @ ds"
  by (simp add: oa_chunk_def Let_def split: option.splits)

lemma oa_flush_deltas: "\<exists>ds. oa_deltas (oa_flush st) = oa_deltas st @ ds"
  using oa_chunk_deltas [of "st\<lparr>oa_lines := []\<rparr>"]
  by (auto simp: oa_flush_def Let_def split: option.splits)

lemma oa_line_deltas: "\<exists>ds. oa_deltas (oa_line st l) = oa_deltas st @ ds"
  using oa_flush_deltas [of st] by (simp add: oa_line_def)

lemma oa_lines_deltas: "\<exists>ds. oa_deltas (foldl oa_line st ls) = oa_deltas st @ ds"
proof (induction ls arbitrary: st)
  case (Cons l ls)
  show ?case using oa_line_deltas [of st l] Cons.IH [of "oa_line st l"] by auto
qed simp

text \<open>
  The outcome over chunks is the outcome over the whole text.
\<close>

definition oa_whole :: "jstr \<Rightarrow> jsval list \<times> oa_status" where
  "oa_whole text = (let st = oa_feed oa_init text;
      st' = (if oa_status st = Reading then oa_end st else st) in (oa_deltas st', oa_status st'))"

lemma oa_loop_whole:
  assumes "oa_status st = Reading" and "10 \<notin> set (oa_buffer st)"
  shows "(let r = oa_loop st (map Chunk cs) in (oa_deltas r, oa_status r)) =
     (let st1 = oa_feed st (concat cs);
          st2 = (if oa_status st1 = Reading then oa_end st1 else st1)
      in (oa_deltas st2, oa_status st2))"
  using assms
proof (induction cs arbitrary: st)
  case Nil
  then have "oa_feed st [] = st" by (simp add: oa_feed_def split_char_no_sep)
  with Nil show ?case by simp
next
  case (Cons c cs)
  have buf: "10 \<notin> set (oa_buffer (oa_feed st c))"
    by (simp add: oa_feed_def Let_def oa_lines_buffer sep_not_in_last_split)
  show ?case
  proof (cases "oa_status (oa_feed st c) = Reading")
    case True
    with Cons.IH [OF True buf] show ?thesis
      by (simp add: Let_def oa_feed_append)
  next
    case False
    with oa_feed_status_stopped [OF False, of "concat cs"] show ?thesis
      by (simp add: Let_def oa_feed_append)
  qed
qed

text \<open>
  C8.  The second reader, too, depends on the text only: the deltas and the way the stream ends
  (normally, at \<open>[DONE]\<close>, or with an exception) are those of the whole text.
\<close>

theorem streamOpenAI_chunking:
  "streamOpenAIChatCompletion (Some (map Chunk cs)) = oa_whole (concat cs)"
  using oa_loop_whole [of oa_init cs]
  by (simp add: streamOpenAIChatCompletion_def oa_whole_def oa_init_def)

end
