(* ===== verification/ChatStore.thy ===== *)
theory ChatStore
  imports Sse "HOL-Library.Sublist"
begin

text \<open>
  The chat store, src/ui/web/src/stores/chat.ts: the state that the session page shows and the
  life of a streamed agent run.

  \<open>sendMessage\<close> is an async function, so between two of its awaits the user can stop, reset or
  send again.  A call is a \<open>chat_run\<close> with its local variables and the point it waits at; the
  system is the store together with all runs started so far, and \<open>chat_step\<close> is one atomic
  piece of work: a store action of the user, or one await of one run that is settled.  An abort
  controller is represented by the index of the run that created it.
\<close>

section \<open>Data\<close>

datatype role = User | Assistant | System | Tool

record message =
  msg_role :: role
  msg_content :: jstr

datatype tool_status = Running | Completed | Failed

record tool_call =
  tc_id :: jsval
  tc_name :: jsval
  tc_status :: tool_status
  tc_arguments :: jsval
  tc_result :: jsval

datatype thinking_step = TextStep jstr | ToolStep tool_call

record chat_state =
  messages :: "message list"
  toolCalls :: "tool_call list"
  thinkingSteps :: "thinking_step list"
  streaming :: bool
  streamingContent :: jstr
  chat_error :: jsval
  abortController :: "nat option"

definition chat_initial :: chat_state where
  "chat_initial = \<lparr>messages = [], toolCalls = [], thinkingSteps = [], streaming = False,
     streamingContent = [], chat_error = JNull, abortController = None\<rparr>"

section \<open>The local variables of a run and its callbacks\<close>

record run_vars =
  completed :: bool
  aborted :: bool
  completedTitle :: "jstr option"

definition run_vars_init :: run_vars where
  "run_vars_init = \<lparr>completed = False, aborted = False, completedTitle = None\<rparr>"

type_synonym run_ctx = "run_vars \<times> chat_state"

definition on_chunk :: "chat_state \<Rightarrow> jsval \<Rightarrow> chat_state" where
  "on_chunk s payload = (case js_prop payload (js ''content'') of
     None \<Rightarrow> s
   | Some content \<Rightarrow> s\<lparr>streamingContent := streamingContent s @ to_str content\<rparr>)"

definition on_tool_call :: "chat_state \<Rightarrow> jsval \<Rightarrow> chat_state" where
  "on_tool_call s payload = (case payload of
     JUndef \<Rightarrow> s | JNull \<Rightarrow> s
   | _ \<Rightarrow>
     let tc = \<lparr>tc_id = opt_prop payload (js ''id''), tc_name = opt_prop payload (js ''name''),
           tc_status = Running, tc_arguments = opt_prop payload (js ''arguments''),
           tc_result = JUndef\<rparr>;
         thought = trim (streamingContent s);
         steps = thinkingSteps s @ (if thought \<noteq> [] then [TextStep thought] else [])
     in s\<lparr>streamingContent := [], toolCalls := toolCalls s @ [tc],
          thinkingSteps := steps @ [ToolStep tc]\<rparr>)"

definition settle_call :: "jsval \<Rightarrow> tool_status \<Rightarrow> jsval \<Rightarrow> tool_call \<Rightarrow> tool_call" where
  "settle_call i status result tc =
     (if strict_eq (tc_id tc) i then tc\<lparr>tc_status := status, tc_result := result\<rparr> else tc)"

fun settle_step :: "jsval \<Rightarrow> tool_status \<Rightarrow> jsval \<Rightarrow> thinking_step \<Rightarrow> thinking_step" where
  "settle_step i status result (ToolStep tc) = ToolStep (settle_call i status result tc)"
| "settle_step i status result (TextStep t) = TextStep t"

definition on_tool_result :: "chat_state \<Rightarrow> jsval \<Rightarrow> chat_state" where
  "on_tool_result s payload = (case payload of
     JUndef \<Rightarrow> s | JNull \<Rightarrow> s
   | _ \<Rightarrow>
     let i = opt_prop payload (js ''id'');
         status = (if truthy (opt_prop payload (js ''is_error'')) then Failed else Completed);
         result = opt_prop payload (js ''result'')
     in s\<lparr>toolCalls := map (settle_call i status result) (toolCalls s),
          thinkingSteps := map (settle_step i status result) (thinkingSteps s)\<rparr>)"

text \<open>The text kept for the answer: the streamed one where the backend only sent its filler.\<close>

definition final_content :: "jstr \<Rightarrow> jstr \<Rightarrow> jstr" where
  "final_content streamed content =
     (if streamed \<noteq> [] \<and> content = js ''...'' then streamed
      else if content \<noteq> [] then content else streamed)"

definition str_or_empty :: "jsval \<Rightarrow> jstr" where
  "str_or_empty v = (case str_opt v of Some t \<Rightarrow> t | None \<Rightarrow> [])"

text \<open>
  \<open>completed\<close> is set before the payload is read: a payload that is \<open>null\<close> or missing throws
  after that, and the reader swallows the exception.
\<close>

definition on_run_completed :: "run_ctx \<Rightarrow> jsval \<Rightarrow> run_ctx" where
  "on_run_completed c payload = (case c of (r, s) \<Rightarrow>
     let r1 = r\<lparr>completed := True\<rparr> in
     case payload of
       JUndef \<Rightarrow> (r1, s) | JNull \<Rightarrow> (r1, s)
     | _ \<Rightarrow>
       let content = str_or_empty (opt_prop payload (js ''content''));
           title = trim (str_or_empty (opt_prop payload (js ''title'')))
       in (r1\<lparr>completedTitle := (if title = [] then None else Some title)\<rparr>,
           s\<lparr>messages := messages s @
               [\<lparr>msg_role = Assistant, msg_content = final_content (streamingContent s) content\<rparr>],
             streaming := False, streamingContent := []\<rparr>))"

definition on_run_failed :: "run_ctx \<Rightarrow> jsval \<Rightarrow> run_ctx" where
  "on_run_failed c payload = (case c of (r, s) \<Rightarrow>
     let r1 = r\<lparr>completed := True\<rparr> in
     case js_prop payload (js ''error'') of
       None \<Rightarrow> (r1, s)
     | Some err \<Rightarrow> (r1, s\<lparr>streaming := False, streamingContent := [], chat_error := err\<rparr>))"

definition on_event :: "run_ctx \<Rightarrow> sse_event \<Rightarrow> run_ctx" where
  "on_event c e = (case c of (r, s) \<Rightarrow>
     if completed r then (r, s)
     else if ev_type e = js ''chunk'' then (r, on_chunk s (ev_payload e))
     else if ev_type e = js ''tool.call'' then (r, on_tool_call s (ev_payload e))
     else if ev_type e = js ''tool.result'' then (r, on_tool_result s (ev_payload e))
     else if ev_type e = js ''run.completed'' then on_run_completed (r, s) (ev_payload e)
     else if ev_type e = js ''run.failed'' then on_run_failed (r, s) (ev_payload e)
     else (r, s))"

definition on_stream_error :: "run_ctx \<Rightarrow> js_error \<Rightarrow> run_ctx" where
  "on_stream_error c err = (case c of (r, s) \<Rightarrow>
     if \<not> completed r then (r, s\<lparr>streaming := False, chat_error := JStr (err_message err)\<rparr>)
     else (r, s))"

definition stopped_suffix :: jstr where
  "stopped_suffix = [10, 10] @ js ''_[Stopped]_''"

text \<open>The code after \<open>streamSSE\<close> has returned.\<close>

definition finish_run :: "run_ctx \<Rightarrow> run_ctx" where
  "finish_run c = (case c of (r, s) \<Rightarrow>
     if \<not> completed r then
       let content = streamingContent s in
       if content \<noteq> [] then
         (r, s\<lparr>messages := messages s @ [\<lparr>msg_role = Assistant,
                 msg_content = content @ (if aborted r then stopped_suffix else [])\<rparr>],
               streaming := False, streamingContent := [], abortController := None\<rparr>)
       else (r, s\<lparr>streaming := False, abortController := None\<rparr>)
     else (r, s\<lparr>abortController := None\<rparr>))"

text \<open>The \<open>catch\<close> branch: the request was rejected, or its status is not a success.\<close>

definition catch_run :: "run_ctx \<Rightarrow> js_error \<Rightarrow> run_ctx" where
  "catch_run c err = (case c of (r, s) \<Rightarrow>
     let r1 = (if err_abort err then r\<lparr>aborted := True\<rparr> else r) in
     if \<not> completed r then
       let content = streamingContent s in
       if err_abort err \<and> content \<noteq> [] then
         (r1, s\<lparr>messages := messages s @ [\<lparr>msg_role = Assistant,
                  msg_content = content @ stopped_suffix\<rparr>],
                streaming := False, streamingContent := [], abortController := None\<rparr>)
       else (r1, s\<lparr>streaming := False,
                 chat_error := (if err_abort err then JNull else JStr (err_message err)),
                 abortController := None\<rparr>)
     else (r1, s))"

text \<open>The response of the request; \<open>json\<close> is the outcome of \<open>response.json()\<close>.\<close>

record http_response =
  resp_ok :: bool
  resp_status :: nat
  resp_statusText :: jstr
  resp_json :: "jsval option"
  resp_body :: bool        \<comment> \<open>the response has a body stream\<close>

text \<open>The error that a response without success turns into.\<close>

definition response_error :: "http_response \<Rightarrow> js_error" where
  "response_error resp =
     (let body = (case resp_json resp of Some v \<Rightarrow> v
          | None \<Rightarrow> JObj [(js ''error'', JStr (resp_statusText resp))])
      in \<lparr>err_abort = False,
          err_message = (case js_prop body (js ''error'') of
             None \<Rightarrow> js ''TypeError''
           | Some e \<Rightarrow> if truthy e then to_str e
               else js ''HTTP '' @ nat_str (resp_status resp))\<rparr>)"

section \<open>Runs and the system\<close>

datatype run_phase = Fetching | Streaming sse_state | Done

record chat_run =
  run_session :: jstr
  run_text :: jstr
  run_signal :: bool      \<comment> \<open>its controller has been aborted\<close>
  run_phase :: run_phase
  run_local :: run_vars

record chat_sys =
  store :: chat_state
  runs :: "chat_run list"

definition chat_sys_init :: chat_sys where
  "chat_sys_init = \<lparr>store = chat_initial, runs = []\<rparr>"

definition set_messages :: "chat_state \<Rightarrow> message list \<Rightarrow> chat_state" where
  "set_messages s msgs =
     s\<lparr>messages := msgs, toolCalls := [], thinkingSteps := [], chat_error := JNull\<rparr>"

definition send_message :: "chat_sys \<Rightarrow> jstr \<Rightarrow> jstr \<Rightarrow> chat_sys" where
  "send_message y session text =
     (let s = store y in
      \<lparr>store = s\<lparr>messages := messages s @ [\<lparr>msg_role = User, msg_content = text\<rparr>],
          streaming := True, streamingContent := [], toolCalls := [], thinkingSteps := [],
          chat_error := JNull, abortController := Some (length (runs y))\<rparr>,
       runs = runs y @ [\<lparr>run_session = session, run_text = text, run_signal = False,
          run_phase = Fetching, run_local = run_vars_init\<rparr>]\<rparr>)"

definition abort_run :: "chat_sys \<Rightarrow> nat \<Rightarrow> chat_sys" where
  "abort_run y i = (if i < length (runs y)
     then y\<lparr>runs := (runs y)[i := (runs y ! i)\<lparr>run_signal := True\<rparr>]\<rparr> else y)"

definition stop_streaming :: "chat_sys \<Rightarrow> chat_sys" where
  "stop_streaming y = (case abortController (store y) of None \<Rightarrow> y | Some i \<Rightarrow> abort_run y i)"

definition reset_chat :: "chat_sys \<Rightarrow> chat_sys" where
  "reset_chat y = (stop_streaming y)\<lparr>store := chat_initial\<rparr>"

text \<open>Working on the context of run \<open>i\<close>, and moving it to another phase.\<close>

definition with_run :: "chat_sys \<Rightarrow> nat \<Rightarrow> run_phase \<Rightarrow> (run_ctx \<Rightarrow> run_ctx) \<Rightarrow> chat_sys" where
  "with_run y i ph f =
     (let run = runs y ! i; (r, s) = f (run_local run, store y)
      in \<lparr>store = s, runs = (runs y)[i := run\<lparr>run_phase := ph, run_local := r\<rparr>]\<rparr>)"

datatype chat_event =
    SetMessages "message list"
  | Send jstr jstr
  | Stop
  | Reset
  | FetchRejects nat js_error
  | FetchResponds nat http_response
  | ReadChunk nat jstr
  | ReadDone nat
  | ReadRejects nat js_error

definition phase_of :: "chat_sys \<Rightarrow> nat \<Rightarrow> run_phase" where
  "phase_of y i = (if i < length (runs y) then run_phase (runs y ! i) else Done)"

definition signalled :: "chat_sys \<Rightarrow> nat \<Rightarrow> bool" where
  "signalled y i \<longleftrightarrow> i < length (runs y) \<and> run_signal (runs y ! i)"

text \<open>
  A settled await that does not fit the phase of its run cannot happen and changes nothing; nor
  can data arrive on a request whose controller has been aborted.
\<close>

fun chat_step :: "chat_sys \<Rightarrow> chat_event \<Rightarrow> chat_sys" where
  "chat_step y (SetMessages msgs) = y\<lparr>store := set_messages (store y) msgs\<rparr>"
| "chat_step y (Send session text) = send_message y session text"
| "chat_step y Stop = stop_streaming y"
| "chat_step y Reset = reset_chat y"
| "chat_step y (FetchRejects i err) = (case phase_of y i of
     Fetching \<Rightarrow> with_run y i Done (\<lambda>c. catch_run c err) | _ \<Rightarrow> y)"
| "chat_step y (FetchResponds i resp) = (case phase_of y i of
     Fetching \<Rightarrow>
       if signalled y i then y
       else if \<not> resp_ok resp then with_run y i Done (\<lambda>c. catch_run c (response_error resp))
       else if \<not> resp_body resp then
         with_run y i Done (\<lambda>c. finish_run (on_stream_error c no_body_error))
       else with_run y i (Streaming sse_init) id
   | _ \<Rightarrow> y)"
| "chat_step y (ReadChunk i text) = (case phase_of y i of
     Streaming st \<Rightarrow>
       if signalled y i then y
       else (let (st', c) = sse_feed on_event (st, (run_local (runs y ! i), store y)) text
             in with_run y i (Streaming st') (\<lambda>_. c))
   | _ \<Rightarrow> y)"
| "chat_step y (ReadDone i) = (case phase_of y i of
     Streaming st \<Rightarrow> if signalled y i then y else with_run y i Done finish_run
   | _ \<Rightarrow> y)"
| "chat_step y (ReadRejects i err) = (case phase_of y i of
     Streaming st \<Rightarrow> with_run y i Done (\<lambda>c. finish_run (on_stream_error c err))
   | _ \<Rightarrow> y)"

definition chat_run_events :: "chat_sys \<Rightarrow> chat_event list \<Rightarrow> chat_sys" where
  "chat_run_events y es = foldl chat_step y es"


section \<open>What every callback keeps\<close>

subsection \<open>The two records of tool calls agree\<close>

fun tool_steps :: "thinking_step list \<Rightarrow> tool_call list" where
  "tool_steps [] = []"
| "tool_steps (ToolStep tc # ss) = tc # tool_steps ss"
| "tool_steps (TextStep t # ss) = tool_steps ss"

fun thought_ok :: "thinking_step \<Rightarrow> bool" where
  "thought_ok (TextStep t) = (t \<noteq> [] \<and> trim t = t)"
| "thought_ok (ToolStep tc) = True"

definition chat_wf :: "chat_state \<Rightarrow> bool" where
  "chat_wf s \<longleftrightarrow> toolCalls s = tool_steps (thinkingSteps s) \<and> list_all thought_ok (thinkingSteps s)"

lemma tool_steps_append: "tool_steps (a @ b) = tool_steps a @ tool_steps b"
  by (induction a rule: tool_steps.induct) simp_all

lemma tool_steps_settle:
  "tool_steps (map (settle_step i st res) ss) = map (settle_call i st res) (tool_steps ss)"
  by (induction ss rule: tool_steps.induct) simp_all

lemma thought_ok_settle: "thought_ok (settle_step i st res x) = thought_ok x"
  by (cases x) simp_all

lemma chat_wf_on_chunk: "chat_wf s \<Longrightarrow> chat_wf (on_chunk s p)"
  by (simp add: chat_wf_def on_chunk_def split: option.splits)

lemma chat_wf_on_tool_call: "chat_wf s \<Longrightarrow> chat_wf (on_tool_call s p)"
  by (simp add: chat_wf_def on_tool_call_def Let_def tool_steps_append split: jsval.splits)

lemma chat_wf_on_tool_result: "chat_wf s \<Longrightarrow> chat_wf (on_tool_result s p)"
  by (simp add: chat_wf_def on_tool_result_def Let_def tool_steps_settle list_all_iff
      thought_ok_settle split: jsval.splits)

lemma chat_wf_on_run_completed: "chat_wf s \<Longrightarrow> chat_wf (snd (on_run_completed (r, s) p))"
  by (simp add: chat_wf_def on_run_completed_def Let_def split: jsval.splits)

lemma chat_wf_on_run_failed: "chat_wf s \<Longrightarrow> chat_wf (snd (on_run_failed (r, s) p))"
  by (simp add: chat_wf_def on_run_failed_def Let_def split: option.splits)

lemmas chat_wf_callbacks = chat_wf_on_chunk chat_wf_on_tool_call chat_wf_on_tool_result
  chat_wf_on_run_completed chat_wf_on_run_failed

lemma chat_wf_on_event: "chat_wf (snd c) \<Longrightarrow> chat_wf (snd (on_event c e))"
  by (cases c) (auto simp: on_event_def intro: chat_wf_callbacks)

lemma chat_wf_finish: "chat_wf (snd c) \<Longrightarrow> chat_wf (snd (finish_run c))"
  by (cases c) (simp add: chat_wf_def finish_run_def Let_def)

lemma chat_wf_catch: "chat_wf (snd c) \<Longrightarrow> chat_wf (snd (catch_run c err))"
  by (cases c) (simp add: chat_wf_def catch_run_def Let_def)

lemma chat_wf_error: "chat_wf (snd c) \<Longrightarrow> chat_wf (snd (on_stream_error c err))"
  by (cases c) (simp add: chat_wf_def on_stream_error_def)

lemma chat_wf_feed: "chat_wf s \<Longrightarrow> chat_wf (snd (snd (sse_feed on_event (st, (r, s)) t)))"
  using sse_feed_keeps [of "\<lambda>c. chat_wf (snd c)" on_event "(st, (r, s))" t]
  by (simp add: chat_wf_on_event)

lemma store_with_run: "store (with_run y i ph f) = snd (f (run_local (runs y ! i), store y))"
  by (simp add: with_run_def Let_def split: prod.splits)

lemma store_stop [simp]: "store (stop_streaming y) = store y"
  by (simp add: stop_streaming_def abort_run_def split: option.splits)

lemma chat_wf_step: "chat_wf (store y) \<Longrightarrow> chat_wf (store (chat_step y e))"
proof (cases e)
  case (SetMessages m)
  then show ?thesis by (simp add: set_messages_def chat_wf_def)
next
  case (Send a b)
  then show ?thesis by (simp add: send_message_def Let_def chat_wf_def)
next
  case Reset
  then show ?thesis by (simp add: reset_chat_def chat_wf_def chat_initial_def)
next
  case (ReadChunk i t)
  then show "chat_wf (store y) \<Longrightarrow> ?thesis"
    using chat_wf_feed [of "store y" _ "run_local (runs y ! i)" t]
    by (auto simp: store_with_run split: run_phase.splits prod.splits) (metis snd_conv)
qed (auto simp: store_with_run chat_wf_finish chat_wf_catch chat_wf_error split: run_phase.splits)

text \<open>The invariant machine: the store under any interleaving of user actions and replies.\<close>

interpretation chat: invariant_machine chat_step "\<lambda>y. chat_wf (store y)"
  by unfold_locales (rule chat_wf_step)

lemma chat_wf_initial: "chat_wf (store chat_sys_init)"
  by (simp add: chat_sys_init_def chat_initial_def chat_wf_def)

text \<open>
  C2.  Under every interleaving of user actions and network replies, of any number of runs, the
  list of tool calls is exactly the list of tool calls inside the thinking steps (same order,
  same status, same result), and no thinking step is blank or has outer white space.
\<close>

theorem chat_tool_calls_synced: "chat_wf (store (chat_run_events chat_sys_init es))"
  unfolding chat_run_events_def by (rule chat.run_inv [OF chat_wf_initial])


subsection \<open>Messages are only appended\<close>

lemma messages_on_event: "prefix (messages (snd c)) (messages (snd (on_event c e)))"
  by (cases c)
     (auto simp: on_event_def on_chunk_def on_tool_call_def on_tool_result_def on_run_completed_def
       on_run_failed_def Let_def split: option.splits jsval.splits)

lemma messages_feed: "prefix (messages s) (messages (snd (snd (sse_feed on_event (st, (r, s)) t))))"
  using sse_feed_keeps [of "\<lambda>c. prefix (messages s) (messages (snd c))" on_event "(st, (r, s))" t]
  by (simp add: prefix_order.order_trans [OF _ messages_on_event])

lemma messages_finish: "prefix (messages (snd c)) (messages (snd (finish_run c)))"
  by (cases c) (simp add: finish_run_def Let_def)

lemma messages_catch: "prefix (messages (snd c)) (messages (snd (catch_run c err)))"
  by (cases c) (simp add: catch_run_def Let_def)

lemma messages_error: "messages (snd (on_stream_error c err)) = messages (snd c)"
  by (cases c) (simp add: on_stream_error_def)

lemma messages_finish_error:
  "prefix (messages (snd c)) (messages (snd (finish_run (on_stream_error c err))))"
  using messages_finish [of "on_stream_error c err"] by (simp add: messages_error)

fun replaces_messages :: "chat_event \<Rightarrow> bool" where
  "replaces_messages (SetMessages m) = True"
| "replaces_messages Reset = True"
| "replaces_messages e = False"

lemma messages_step:
  assumes "\<not> replaces_messages e"
  shows "prefix (messages (store y)) (messages (store (chat_step y e)))"
proof (cases e)
  case (ReadChunk i t)
  then show ?thesis
    using messages_feed [of "store y" _ "run_local (runs y ! i)" t]
    by (auto simp: store_with_run split: run_phase.splits prod.splits) (metis snd_conv)
next
  case (FetchRejects i err)
  then show ?thesis
    using messages_catch [of "(run_local (runs y ! i), store y)" err]
    by (auto simp: store_with_run split: run_phase.splits)
next
  case (FetchResponds i resp)
  then show ?thesis
    using messages_catch [of "(run_local (runs y ! i), store y)" "response_error resp"]
      messages_finish_error [of "(run_local (runs y ! i), store y)" no_body_error]
    by (auto simp: store_with_run split: run_phase.splits)
next
  case (ReadDone i)
  then show ?thesis
    using messages_finish [of "(run_local (runs y ! i), store y)"]
    by (auto simp: store_with_run split: run_phase.splits)
next
  case (ReadRejects i err)
  then show ?thesis
    using messages_finish_error [of "(run_local (runs y ! i), store y)" err]
    by (auto simp: store_with_run split: run_phase.splits)
qed (use assms in \<open>simp_all add: send_message_def Let_def\<close>)

text \<open>
  C5.  No sequence of sends, stops and network replies removes or rewrites a message that is
  shown: until the user loads or resets the conversation, the list of messages only grows at
  its end.
\<close>

theorem chat_messages_grow:
  assumes "list_all (\<lambda>e. \<not> replaces_messages e) es"
  shows "prefix (messages (store y)) (messages (store (chat_run_events y es)))"
  using assms unfolding chat_run_events_def
proof (induction es arbitrary: y)
  case (Cons e es)
  then show ?case
    using prefix_order.order_trans [OF messages_step [of e y]] by simp
qed simp

section \<open>An undisturbed run\<close>

text \<open>What \<open>sendMessage\<close> computes from the store and the events of the response.\<close>

definition started :: "chat_state \<Rightarrow> jstr \<Rightarrow> nat \<Rightarrow> chat_state" where
  "started s text i = s\<lparr>messages := messages s @ [\<lparr>msg_role = User, msg_content = text\<rparr>],
     streaming := True, streamingContent := [], toolCalls := [], thinkingSteps := [],
     chat_error := JNull, abortController := Some i\<rparr>"

definition run_events :: "chat_state \<Rightarrow> jstr \<Rightarrow> nat \<Rightarrow> sse_event list \<Rightarrow> run_ctx" where
  "run_events s text i es = foldl on_event (run_vars_init, started s text i) es"

definition ok_response :: http_response where
  "ok_response = \<lparr>resp_ok = True, resp_status = 200, resp_statusText = js ''OK'',
     resp_json = None, resp_body = True\<rparr>"

definition new_run :: "jstr \<Rightarrow> jstr \<Rightarrow> chat_run" where
  "new_run session text = \<lparr>run_session = session, run_text = text, run_signal = False,
     run_phase = Fetching, run_local = run_vars_init\<rparr>"

lemma send_step:
  "chat_step y (Send session text) =
     \<lparr>store = started (store y) text (length (runs y)), runs = runs y @ [new_run session text]\<rparr>"
  by (simp add: send_message_def Let_def started_def new_run_def)

text \<open>The last run of a system, in its streaming phase.\<close>

definition streaming_sys :: "chat_run list \<Rightarrow> chat_run \<Rightarrow> sse_state \<times> run_ctx \<Rightarrow> chat_sys" where
  "streaming_sys rs run x = \<lparr>store = snd (snd x),
     runs = rs @ [run\<lparr>run_phase := Streaming (fst x), run_local := fst (snd x)\<rparr>]\<rparr>"

lemma respond_step:
  "chat_step (chat_step y (Send session text)) (FetchResponds (length (runs y)) ok_response) =
     streaming_sys (runs y) (new_run session text)
       (sse_init, (run_vars_init, started (store y) text (length (runs y))))"
  unfolding send_step
  by (simp add: phase_of_def signalled_def new_run_def ok_response_def with_run_def
      streaming_sys_def)

lemma chunk_step:
  assumes "\<not> run_signal run"
  shows "chat_step (streaming_sys rs run x) (ReadChunk (length rs) t) =
    streaming_sys rs run (sse_feed on_event x t)"
  using assms
  by (cases x) (simp add: streaming_sys_def phase_of_def signalled_def with_run_def Let_def
      split: prod.splits)

lemma chunk_steps:
  assumes "\<not> run_signal run"
  shows "foldl chat_step (streaming_sys rs run x) (map (ReadChunk (length rs)) cs) =
    streaming_sys rs run (foldl (sse_feed on_event) x cs)"
  by (induction cs arbitrary: x) (simp_all add: chunk_step [OF assms] del: chat_step.simps)

lemma done_step:
  assumes "\<not> run_signal run"
  shows "chat_step (streaming_sys rs run x) (ReadDone (length rs)) =
    \<lparr>store = snd (finish_run (snd x)),
     runs = rs @ [run\<lparr>run_phase := Done, run_local := fst (finish_run (snd x))\<rparr>]\<rparr>"
  using assms
  by (simp add: streaming_sys_def phase_of_def signalled_def with_run_def Let_def
      split: prod.splits)

definition undisturbed :: "chat_sys \<Rightarrow> jstr \<Rightarrow> jstr \<Rightarrow> jstr list \<Rightarrow> chat_event list" where
  "undisturbed y session text cs =
     [Send session text, FetchResponds (length (runs y)) ok_response]
     @ map (ReadChunk (length (runs y))) cs @ [ReadDone (length (runs y))]"

lemma fed_ctx: "snd (foldl (sse_feed on_event) (sse_init, c) cs) = foldl on_event c (sse_decode (concat cs))"
  by (simp add: sse_feeds [OF sse_init_line_buffered] sse_feed_init)

lemma undisturbed_run:
  "chat_run_events y (undisturbed y session text cs) =
     (let (r, s) = finish_run (run_events (store y) text (length (runs y)) (sse_decode (concat cs)))
      in \<lparr>store = s, runs = runs y @ [(new_run session text)\<lparr>run_phase := Done, run_local := r\<rparr>]\<rparr>)"
proof -
  let ?i = "length (runs y)"
  let ?x = "(sse_init, (run_vars_init, started (store y) text ?i))"
  have nosig: "\<not> run_signal (new_run session text)" by (simp add: new_run_def)
  have "chat_run_events y (undisturbed y session text cs) =
      chat_step (foldl chat_step (streaming_sys (runs y) (new_run session text) ?x)
        (map (ReadChunk ?i) cs)) (ReadDone ?i)"
    by (simp add: chat_run_events_def undisturbed_def respond_step del: chat_step.simps)
  also have "\<dots> = chat_step (streaming_sys (runs y) (new_run session text)
      (foldl (sse_feed on_event) ?x cs)) (ReadDone ?i)"
    by (simp only: chunk_steps [OF nosig])
  finally show ?thesis
    by (simp add: done_step [OF nosig] fed_ctx run_events_def split: prod.splits del: chat_step.simps)
qed


text \<open>
  C1.  Without interference, the awaits of a run compute the big-step meaning of
  \<open>sendMessage\<close>: the store after it is the fold of the event handler over the events of the
  response text, followed by the code after the stream, whatever the chunks were; the runs that
  were there before are untouched.
\<close>

theorem chat_run_refines:
  "chat_run_events y (undisturbed y session text cs) =
     (let (r, s) = finish_run (run_events (store y) text (length (runs y)) (sse_decode (concat cs)))
      in \<lparr>store = s, runs = runs y @ [(new_run session text)\<lparr>run_phase := Done, run_local := r\<rparr>]\<rparr>)"
  by (rule undisturbed_run)

section \<open>What an undisturbed run shows\<close>

definition terminal_event :: "sse_event \<Rightarrow> bool" where
  "terminal_event e \<longleftrightarrow> ev_type e = js ''run.completed'' \<or> ev_type e = js ''run.failed''"

definition still_open :: "sse_event list \<Rightarrow> bool" where
  "still_open es \<longleftrightarrow> list_all (\<lambda>e. \<not> terminal_event e) es"

text \<open>
  The text of the answer, as the reader of the events sees it: the contents of the chunks since
  the last tool call, since the text before a tool call has become a thinking step.
\<close>

definition starts_tool :: "sse_event \<Rightarrow> bool" where
  "starts_tool e \<longleftrightarrow> ev_type e = js ''tool.call'' \<and> \<not> nullish (ev_payload e)"

definition chunk_text :: "sse_event \<Rightarrow> jstr" where
  "chunk_text e = (if ev_type e = js ''chunk'' then
     (case js_prop (ev_payload e) (js ''content'') of Some v \<Rightarrow> to_str v | None \<Rightarrow> []) else [])"

definition since_last_tool :: "sse_event list \<Rightarrow> sse_event list" where
  "since_last_tool es = rev (takeWhile (\<lambda>e. \<not> starts_tool e) (rev es))"

definition answer_text :: "sse_event list \<Rightarrow> jstr" where
  "answer_text es = concat (map chunk_text (since_last_tool es))"

lemma answer_text_snoc: "answer_text (es @ [e]) = (if starts_tool e then [] else answer_text es @ chunk_text e)"
  by (simp add: answer_text_def since_last_tool_def)

lemma answer_text_Nil: "answer_text [] = []"
  by (simp add: answer_text_def since_last_tool_def)

lemma on_event_completed: "completed (fst c) \<Longrightarrow> on_event c e = c"
  by (cases c) (simp add: on_event_def)

lemma on_events_completed: "completed (fst c) \<Longrightarrow> foldl on_event c es = c"
  by (induction es) (simp_all add: on_event_completed)

lemma on_event_open:
  assumes "\<not> terminal_event e" and "\<not> completed r"
  shows "fst (on_event (r, s) e) = r
    \<and> messages (snd (on_event (r, s) e)) = messages s
    \<and> streaming (snd (on_event (r, s) e)) = streaming s
    \<and> chat_error (snd (on_event (r, s) e)) = chat_error s
    \<and> abortController (snd (on_event (r, s) e)) = abortController s
    \<and> streamingContent (snd (on_event (r, s) e)) =
        (if starts_tool e then [] else streamingContent s @ chunk_text e)"
  using assms
  by (auto simp: on_event_def terminal_event_def starts_tool_def chunk_text_def nullish_def
      on_chunk_def on_tool_call_def on_tool_result_def Let_def split: option.splits jsval.splits)

lemma run_events_open:
  assumes "still_open es"
  shows "fst (run_events s text i es) = run_vars_init
    \<and> messages (snd (run_events s text i es)) = messages s @ [\<lparr>msg_role = User, msg_content = text\<rparr>]
    \<and> streaming (snd (run_events s text i es))
    \<and> chat_error (snd (run_events s text i es)) = JNull
    \<and> abortController (snd (run_events s text i es)) = Some i
    \<and> streamingContent (snd (run_events s text i es)) = answer_text es"
  using assms
proof (induction es rule: rev_induct)
  case Nil
  then show ?case by (simp add: run_events_def started_def answer_text_Nil)
next
  case (snoc e es)
  have nc: "\<not> completed run_vars_init" by (simp add: run_vars_init_def)
  obtain s' where ctx: "run_events s text i es = (run_vars_init, s')"
    using snoc by (metis list_all_append prod.collapse still_open_def)
  have step: "run_events s text i (es @ [e]) = on_event (run_vars_init, s') e"
    using ctx by (simp add: run_events_def)
  show ?case
    using snoc on_event_open [OF _ nc, of e s'] unfolding step
    by (simp add: ctx still_open_def answer_text_snoc)
qed

definition after_run :: "chat_sys \<Rightarrow> jstr \<Rightarrow> jstr \<Rightarrow> jstr list \<Rightarrow> chat_sys" where
  "after_run y session text cs = chat_run_events y (undisturbed y session text cs)"

lemma store_after_run: "store (after_run y session text cs) =
    snd (finish_run (run_events (store y) text (length (runs y)) (sse_decode (concat cs))))"
  by (simp add: after_run_def undisturbed_run Let_def split: prod.splits)

lemma run_events_append: "run_events s text i (a @ b) = foldl on_event (run_events s text i a) b"
  by (simp add: run_events_def)

text \<open>
  C4.  A run that nothing disturbs and that ends with a completion event with a payload shows the
  question and then one answer: the content of that event, or, where the backend sent its filler or
  nothing, the text streamed since the last tool call.  Events after the completion are ignored, the
  spinner is off and no error is shown.
\<close>

theorem chat_answer:
  assumes "sse_decode (concat cs) = es @ e # rest" and "still_open es"
    and "ev_type e = js ''run.completed''" and "\<not> nullish (ev_payload e)"
  shows "(let s = store (after_run y session text cs) in
    messages s = messages (store y) @ [\<lparr>msg_role = User, msg_content = text\<rparr>,
        \<lparr>msg_role = Assistant, msg_content =
           final_content (answer_text es) (str_or_empty (opt_prop (ev_payload e) (js ''content'')))\<rparr>]
    \<and> \<not> streaming s \<and> streamingContent s = [] \<and> chat_error s = JNull \<and> abortController s = None)"
proof -
  let ?s = "store y" and ?i = "length (runs y)"
  obtain s' where ctx: "run_events ?s text ?i es = (run_vars_init, s')"
    using run_events_open [OF assms(2)] by (metis prod.collapse)
  have over: "completed (fst (on_run_completed (run_vars_init, s') (ev_payload e)))"
    by (simp add: on_run_completed_def Let_def split: jsval.splits)
  have "run_events ?s text ?i (es @ e # rest) = on_run_completed (run_vars_init, s') (ev_payload e)"
    using on_events_completed [OF over] assms(3)
    by (simp add: run_events_append ctx on_event_def run_vars_init_def)
  then have fin: "store (after_run y session text cs) =
      snd (finish_run (on_run_completed (run_vars_init, s') (ev_payload e)))"
    by (simp add: store_after_run assms(1))
  show ?thesis
    unfolding fin using run_events_open [OF assms(2), of ?s "text" ?i] assms(4)
    by (cases "ev_payload e")
       (simp_all add: ctx on_run_completed_def finish_run_def Let_def nullish_def)
qed

text \<open>
  C6.  A run always comes to rest: when the response has ended the spinner is off and the
  controller is released, provided that no completion or failure event lacks its payload.
\<close>

theorem chat_run_settles:
  assumes "\<forall>e \<in> set (sse_decode (concat cs)). terminal_event e \<longrightarrow> \<not> nullish (ev_payload e)"
  shows "\<not> streaming (store (after_run y session text cs))
    \<and> abortController (store (after_run y session text cs)) = None"
proof -
  have settled: "completed (fst (foldl on_event c es)) \<longrightarrow> \<not> streaming (snd (foldl on_event c es))"
    if "completed (fst c) \<longrightarrow> \<not> streaming (snd c)"
      and "\<forall>e \<in> set es. terminal_event e \<longrightarrow> \<not> nullish (ev_payload e)" for c es
    using that
  proof (induction es arbitrary: c)
    case (Cons e es)
    have "completed (fst (on_event c e)) \<longrightarrow> \<not> streaming (snd (on_event c e))"
      using Cons.prems
      by (cases c) (auto simp: on_event_def on_run_completed_def on_run_failed_def terminal_event_def
        nullish_def Let_def split: jsval.splits option.splits elim!: js_prop.elims)
    then show ?case using Cons by simp
  qed simp
  have "completed (fst c) \<longrightarrow> \<not> streaming (snd c) \<Longrightarrow>
      \<not> streaming (snd (finish_run c)) \<and> abortController (snd (finish_run c)) = None" for c
    by (cases c) (simp add: finish_run_def Let_def)
  then show ?thesis
    using settled [OF _ assms] by (simp add: store_after_run run_events_def run_vars_init_def)
qed


text \<open>
  C7.  A completion or failure event whose payload is \<open>null\<close> or missing leaves the session
  stuck: the run is over and its controller released, yet the spinner stays on, and stopping has
  no effect.
\<close>

theorem chat_null_payload_sticks:
  assumes "sse_decode (concat cs) = es @ e # rest" and "still_open es"
    and "terminal_event e" and "nullish (ev_payload e)"
  shows "(let y' = after_run y session text cs in
    streaming (store y') \<and> abortController (store y') = None
    \<and> phase_of y' (length (runs y)) = Done \<and> chat_step y' Stop = y')"
proof -
  let ?s = "store y" and ?i = "length (runs y)"
  obtain s' where ctx: "run_events ?s text ?i es = (run_vars_init, s')"
    using run_events_open [OF assms(2)] by (metis prod.collapse)
  have ev: "on_event (run_vars_init, s') e = (run_vars_init\<lparr>completed := True\<rparr>, s')"
    using assms(3,4)
    by (auto simp: on_event_def run_vars_init_def terminal_event_def nullish_def
        on_run_completed_def on_run_failed_def)
  have "run_events ?s text ?i (es @ e # rest) = (run_vars_init\<lparr>completed := True\<rparr>, s')"
    using on_events_completed [of "(run_vars_init\<lparr>completed := True\<rparr>, s')" rest]
    by (simp add: run_events_append ctx ev)
  then have fin: "after_run y session text cs =
      \<lparr>store = s'\<lparr>abortController := None\<rparr>,
       runs = runs y @ [(new_run session text)\<lparr>run_phase := Done,
         run_local := run_vars_init\<lparr>completed := True\<rparr>\<rparr>]\<rparr>"
    by (simp add: after_run_def undisturbed_run assms(1) finish_run_def)
  show ?thesis
    using run_events_open [OF assms(2), of ?s "text" ?i]
    by (simp add: fin ctx phase_of_def stop_streaming_def)
qed

section \<open>Stopping, and runs that overlap\<close>

definition stopped :: "chat_sys \<Rightarrow> jstr \<Rightarrow> jstr \<Rightarrow> jstr list \<Rightarrow> js_error \<Rightarrow> chat_event list" where
  "stopped y session text cs err =
     [Send session text, FetchResponds (length (runs y)) ok_response]
     @ map (ReadChunk (length (runs y))) cs @ [Stop, ReadRejects (length (runs y)) err]"

text \<open>
  Stopping in the middle of an answer keeps the text streamed so far as a message.  But the
  abort reaches the store as a read error: the message does not get the suffix \<open>_[Stopped]_\<close>
  that the code has for this case, and the text of the abort error is shown as an error.
\<close>

theorem chat_stop_mid_stream:
  assumes "still_open (sse_decode (concat cs))"
  shows "(let s = store (chat_run_events y (stopped y session text cs err));
              answer = answer_text (sse_decode (concat cs)) in
    messages s = messages (store y) @ \<lparr>msg_role = User, msg_content = text\<rparr> #
        (if answer = [] then [] else [\<lparr>msg_role = Assistant, msg_content = answer\<rparr>])
    \<and> \<not> streaming s \<and> chat_error s = JStr (err_message err) \<and> abortController s = None)"
proof -
  let ?i = "length (runs y)"
  let ?x = "(sse_init, (run_vars_init, started (store y) text ?i))"
  let ?x' = "foldl (sse_feed on_event) ?x cs"
  have nosig: "\<not> run_signal (new_run session text)" by (simp add: new_run_def)
  have ctx: "snd ?x' = run_events (store y) text ?i (sse_decode (concat cs))"
    by (simp add: fed_ctx run_events_def)
  note facts = run_events_open [OF assms, of "store y" "text" ?i]
  let ?y1 = "streaming_sys (runs y) (new_run session text) ?x'"
  have y1: "foldl chat_step y ([Send session text, FetchResponds ?i ok_response] @ map (ReadChunk ?i) cs)
      = ?y1"
    by (simp add: respond_step chunk_steps [OF nosig] del: chat_step.simps)
  have ac: "abortController (store ?y1) = Some ?i"
    using facts by (simp add: streaming_sys_def ctx)
  have y2: "chat_step ?y1 Stop = streaming_sys (runs y) ((new_run session text)\<lparr>run_signal := True\<rparr>) ?x'"
    using ac by (simp add: stop_streaming_def abort_run_def) (simp add: streaming_sys_def)
  have y3: "store (chat_step (chat_step ?y1 Stop) (ReadRejects ?i err)) =
      snd (finish_run (on_stream_error (snd ?x') err))"
    unfolding y2 by (simp add: streaming_sys_def phase_of_def with_run_def split: prod.splits)
  have "chat_run_events y (stopped y session text cs err) =
      chat_step (chat_step ?y1 Stop) (ReadRejects ?i err)"
    using y1 by (simp add: chat_run_events_def stopped_def del: chat_step.simps)
  then have "store (chat_run_events y (stopped y session text cs err)) =
      snd (finish_run (on_stream_error (run_events (store y) text ?i (sse_decode (concat cs))) err))"
    using y3 ctx by simp
  then show ?thesis
    using facts by (cases "run_events (store y) text ?i (sse_decode (concat cs))")
      (simp add: on_stream_error_def finish_run_def Let_def run_vars_init_def)
qed

text \<open>
  A run that was abandoned still writes to the store when its read is rejected: with a
  newer request in flight, it turns the spinner of the newer run off, shows the abort error and
  releases the newer run's controller, so that the newer run can no longer be stopped.
\<close>

theorem chat_stale_run_clobbers:
  assumes "phase_of y i = Streaming st" and "\<not> completed (run_local (runs y ! i))"
  shows "(let y' = chat_step y (ReadRejects i err) in
    \<not> streaming (store y') \<and> chat_error (store y') = JStr (err_message err)
    \<and> abortController (store y') = None
    \<and> (\<forall>j. j \<noteq> i \<longrightarrow> phase_of y' j = phase_of y j) \<and> chat_step y' Stop = y')"
  using assms
  by (auto simp: with_run_def Let_def on_stream_error_def finish_run_def phase_of_def
      stop_streaming_def split: if_splits)

section \<open>Concrete runs\<close>

definition demo_hi :: jstr where
  "demo_hi = js ''event: chunk'' @ [10] @ js ''data: {\"payload\":{\"content\":\"Hi\"}}'' @ [10, 10]"

definition demo_done :: jstr where
  "demo_done = js ''event: run.completed'' @ [10] @ js ''data: {\"payload\":{\"content\":\"...\"}}'' @ [10, 10]"

definition demo_empty_done :: jstr where
  "demo_empty_done = js ''event: run.completed'' @ [10] @ js ''data: {}'' @ [10, 10]"

definition ev_hi :: sse_event where
  "ev_hi = \<lparr>ev_type = js ''chunk'', ev_payload = JObj [(js ''content'', JStr (js ''Hi''))]\<rparr>"

definition ev_done :: sse_event where
  "ev_done = \<lparr>ev_type = js ''run.completed'', ev_payload = JObj [(js ''content'', JStr (js ''...''))]\<rparr>"

definition ev_empty_done :: sse_event where
  "ev_empty_done = \<lparr>ev_type = js ''run.completed'', ev_payload = JUndef\<rparr>"

lemmas sse_eval = sse_decode_def sse_line_def sse_init_def sse_dispatch_def json_eval
  trim_def trim_start_def trim_end_def is_ws_def obj_get_def proto_names_def

lemma decode_hi: "sse_decode demo_hi = [ev_hi]"
  by (simp add: demo_hi_def ev_hi_def sse_eval)

lemma decode_hi_done: "sse_decode (demo_hi @ demo_done) = [ev_hi, ev_done]"
  by (simp add: demo_hi_def demo_done_def ev_hi_def ev_done_def sse_eval)

lemma decode_empty_done: "sse_decode (demo_hi @ demo_empty_done) = [ev_hi, ev_empty_done]"
  by (simp add: demo_hi_def demo_empty_done_def ev_hi_def ev_empty_done_def sse_eval)

lemma answer_hi: "answer_text [ev_hi] = js ''Hi''"
  by (simp add: answer_text_def since_last_tool_def starts_tool_def chunk_text_def ev_hi_def
      obj_get_def)

lemma open_hi: "still_open [ev_hi]"
  by (simp add: still_open_def terminal_event_def ev_hi_def)

lemma chat_messages_grow_witness:
  "prefix [] (messages (store (chat_run_events chat_sys_init [Send (js ''k'') (js ''Q''), Stop])))"
  using chat_messages_grow [of "[Send (js ''k'') (js ''Q''), Stop]" chat_sys_init]
  by (simp add: chat_sys_init_def chat_initial_def)

lemma chat_answer_witness:
  "messages (store (after_run chat_sys_init (js ''k'') (js ''Q'') [demo_hi, demo_done])) =
     [\<lparr>msg_role = User, msg_content = js ''Q''\<rparr>, \<lparr>msg_role = Assistant, msg_content = js ''Hi''\<rparr>]"
proof -
  have "sse_decode (concat [demo_hi, demo_done]) = [ev_hi] @ ev_done # []"
    by (simp add: decode_hi_done)
  note run = chat_answer [OF this open_hi, of chat_sys_init "js ''k''" "js ''Q''"]
  show ?thesis
    using run
    by (simp add: ev_done_def nullish_def Let_def answer_hi chat_sys_init_def chat_initial_def
        final_content_def str_or_empty_def opt_prop_def obj_get_def)
qed

lemma chat_run_settles_witness:
  "\<not> streaming (store (after_run chat_sys_init (js ''k'') (js ''Q'') [demo_hi, demo_done]))"
  using chat_run_settles [of "[demo_hi, demo_done]" chat_sys_init "js ''k''" "js ''Q''"]
  by (simp add: decode_hi_done ev_hi_def ev_done_def nullish_def)

lemma chat_null_payload_sticks_witness:
  "streaming (store (after_run chat_sys_init (js ''k'') (js ''Q'') [demo_hi, demo_empty_done]))"
proof -
  have "sse_decode (concat [demo_hi, demo_empty_done]) = [ev_hi] @ ev_empty_done # []"
    by (simp add: decode_empty_done)
  from chat_null_payload_sticks [OF this open_hi, of chat_sys_init "js ''k''" "js ''Q''"]
  show ?thesis by (simp add: ev_empty_done_def terminal_event_def nullish_def Let_def)
qed

definition abort_error :: js_error where
  "abort_error = \<lparr>err_abort = True, err_message = js ''signal is aborted without reason''\<rparr>"

lemma chat_stop_mid_stream_witness:
  "(let s = store (chat_run_events chat_sys_init
        (stopped chat_sys_init (js ''k'') (js ''Q'') [demo_hi] abort_error)) in
    messages s = [\<lparr>msg_role = User, msg_content = js ''Q''\<rparr>,
        \<lparr>msg_role = Assistant, msg_content = js ''Hi''\<rparr>]
    \<and> chat_error s = JStr (js ''signal is aborted without reason''))"
  using chat_stop_mid_stream [of "[demo_hi]" chat_sys_init "js ''k''" "js ''Q''" abort_error]
  by (simp add: decode_hi open_hi answer_hi Let_def chat_sys_init_def chat_initial_def abort_error_def)

text \<open>A first run is reset while it streams, a second one is sent, then the first one is rejected.\<close>

definition demo_overlap :: chat_sys where
  "demo_overlap = chat_run_events chat_sys_init [Send (js ''a'') (js ''Q''),
     FetchResponds 0 ok_response, Reset, Send (js ''b'') (js ''R'')]"

lemma chat_stale_run_clobbers_witness:
  "streaming (store demo_overlap) \<and>
   (let y' = chat_step demo_overlap (ReadRejects 0 abort_error) in
     \<not> streaming (store y') \<and> phase_of y' 1 = Fetching \<and> chat_step y' Stop = y')"
proof -
  have overlap: "demo_overlap =
      \<lparr>store = started chat_initial (js ''R'') 1,
       runs = [(new_run (js ''a'') (js ''Q''))\<lparr>run_signal := True, run_phase := Streaming sse_init\<rparr>,
               new_run (js ''b'') (js ''R'')]\<rparr>"
    by (simp add: demo_overlap_def chat_run_events_def chat_sys_init_def send_message_def Let_def
        phase_of_def signalled_def ok_response_def with_run_def reset_chat_def stop_streaming_def
        abort_run_def started_def new_run_def)
  have "phase_of demo_overlap 0 = Streaming sse_init"
    by (simp add: overlap phase_of_def)
  moreover have "\<not> completed (run_local (runs demo_overlap ! 0))"
    by (simp add: overlap new_run_def run_vars_init_def)
  moreover have "phase_of demo_overlap 1 = Fetching"
    by (simp add: overlap phase_of_def new_run_def)
  ultimately show ?thesis
    using chat_stale_run_clobbers [of demo_overlap 0 sse_init abort_error]
    by (simp add: Let_def overlap started_def del: chat_step.simps)
qed

end
