(* ===== verification/ReportComponents.thy ===== *)
theory ReportComponents
  imports JsonText
begin

text \<open>
  The vocabulary of reports, src/ui/web/src/lib/report-spec.ts: how component, chart, step and
  tone names written by a language model are mapped to the names the renderer knows, and how the
  properties of a component are normalised.

  The name tables are object literals, so a name that is not in a table is looked up in
  \<open>Object.prototype\<close>; \<open>alias_get\<close> keeps that.
\<close>

section \<open>Name tables\<close>

definition alias_table :: "(string \<times> string) list \<Rightarrow> jsobj" where
  "alias_table ps = map (\<lambda>(k, v). (js k, JStr (js v))) ps"

definition component_aliases :: "(string \<times> string) list" where
  "component_aliases =
    [(''alert'', ''Alert''), (''area'', ''AreaChart''), (''areachart'', ''AreaChart''),
     (''avatar'', ''Avatar''), (''badge'', ''Badge''), (''bar'', ''BarChart''),
     (''barchart'', ''BarChart''), (''bargraph'', ''BarGraph''), (''button'', ''Button''),
     (''buttongroup'', ''ButtonGroup''), (''callout'', ''Callout''), (''card'', ''Card''),
     (''carousel'', ''Carousel''), (''checkbox'', ''Checkbox''),
     (''candlestick'', ''CandlestickChart''), (''candlestickchart'', ''CandlestickChart''),
     (''choropleth'', ''ChoroplethChart''), (''choroplethchart'', ''ChoroplethChart''),
     (''collapsible'', ''Collapsible''), (''composed'', ''ComposedChart''),
     (''composedchart'', ''ComposedChart''), (''comparison'', ''BarChart''),
     (''comparisonchart'', ''BarChart''), (''container'', ''Stack''),
     (''delta'', ''WaterfallChart''), (''deltabreakdown'', ''WaterfallChart''),
     (''distribution'', ''HistogramChart''), (''distributionchart'', ''HistogramChart''),
     (''dialog'', ''Dialog''), (''drawer'', ''Drawer''), (''dropdownmenu'', ''DropdownMenu''),
     (''funnel'', ''FunnelChart''), (''funnelchart'', ''FunnelChart''),
     (''gauge'', ''Gauge''), (''gaugechart'', ''GaugeChart''), (''grid'', ''Grid''),
     (''heatmap'', ''HeatmapChart''), (''heatmapchart'', ''HeatmapChart''),
     (''histogram'', ''HistogramChart''), (''histogramchart'', ''HistogramChart''),
     (''heading'', ''Heading''), (''icon'', ''Icon''), (''image'', ''Image''),
     (''input'', ''Input''), (''legend'', ''Legend''), (''line'', ''LineChart''),
     (''linechart'', ''LineChart''), (''linegraph'', ''LineGraph''), (''link'', ''Link''),
     (''liveline'', ''LiveLineChart''), (''livelinechart'', ''LiveLineChart''),
     (''metric'', ''Metric''), (''pagination'', ''Pagination''), (''pie'', ''PieChart''),
     (''piechart'', ''PieChart''), (''popover'', ''Popover''),
     (''profitloss'', ''ProfitLossLine''), (''profitlossline'', ''ProfitLossLine''),
     (''progress'', ''Progress''), (''radio'', ''Radio''), (''radar'', ''RadarChart''),
     (''radarchart'', ''RadarChart''), (''rating'', ''Rating''), (''ring'', ''RingChart''),
     (''ringchart'', ''RingChart''), (''sankey'', ''SankeyChart''),
     (''sankeychart'', ''SankeyChart''), (''scatter'', ''ScatterChart''),
     (''scatterchart'', ''ScatterChart''), (''select'', ''Select''),
     (''separator'', ''Separator''), (''skeleton'', ''Skeleton''), (''slider'', ''Slider''),
     (''spinner'', ''Spinner''), (''stack'', ''Stack''), (''steps'', ''Steps''),
     (''switch'', ''Switch''), (''table'', ''Table''), (''tabs'', ''Tabs''),
     (''text'', ''Text''), (''textarea'', ''Textarea''), (''timeseries'', ''LineChart''),
     (''timeserieschart'', ''LineChart''), (''toggle'', ''Toggle''),
     (''togglegroup'', ''ToggleGroup''), (''tooltip'', ''Tooltip''),
     (''trend'', ''LineChart''), (''trendchart'', ''LineChart''),
     (''waterfall'', ''WaterfallChart''), (''waterfallchart'', ''WaterfallChart'')]"

definition chart_aliases :: "(string \<times> string) list" where
  "chart_aliases =
    [(''area'', ''AreaChart''), (''areachart'', ''AreaChart''), (''bar'', ''BarChart''),
     (''barchart'', ''BarChart''), (''bargraph'', ''BarGraph''),
     (''candlestick'', ''CandlestickChart''), (''candlestickchart'', ''CandlestickChart''),
     (''choropleth'', ''ChoroplethChart''), (''choroplethchart'', ''ChoroplethChart''),
     (''composed'', ''ComposedChart''), (''composedchart'', ''ComposedChart''),
     (''comparison'', ''BarChart''), (''contribution'', ''WaterfallChart''),
     (''delta'', ''WaterfallChart''), (''deltabreakdown'', ''WaterfallChart''),
     (''distribution'', ''HistogramChart''), (''funnel'', ''FunnelChart''),
     (''funnelchart'', ''FunnelChart''), (''gauge'', ''Gauge''),
     (''gaugechart'', ''GaugeChart''), (''heatmap'', ''HeatmapChart''),
     (''heatmapchart'', ''HeatmapChart''), (''histogram'', ''HistogramChart''),
     (''histogramchart'', ''HistogramChart''), (''line'', ''LineChart''),
     (''linechart'', ''LineChart''), (''linegraph'', ''LineGraph''),
     (''liveline'', ''LiveLineChart''), (''livelinechart'', ''LiveLineChart''),
     (''pie'', ''PieChart''), (''piechart'', ''PieChart''),
     (''profitloss'', ''ProfitLossLine''), (''profitlossline'', ''ProfitLossLine''),
     (''radar'', ''RadarChart''), (''radarchart'', ''RadarChart''), (''ring'', ''RingChart''),
     (''ringchart'', ''RingChart''), (''sankey'', ''SankeyChart''),
     (''sankeychart'', ''SankeyChart''), (''scatter'', ''ScatterChart''),
     (''scatterchart'', ''ScatterChart''), (''timeseries'', ''LineChart''),
     (''trend'', ''LineChart''), (''waterfall'', ''WaterfallChart''),
     (''waterfallchart'', ''WaterfallChart'')]"

definition step_aliases :: "(string \<times> string) list" where
  "step_aliases =
    [(''active'', ''active''), (''current'', ''active''), (''doing'', ''active''),
     (''inprogress'', ''active''), (''loading'', ''active''), (''processing'', ''active''),
     (''running'', ''active''), (''waiting'', ''active''), (''done'', ''done''),
     (''complete'', ''done''), (''completed'', ''done''), (''ok'', ''done''),
     (''passed'', ''done''), (''success'', ''done''), (''successful'', ''done''),
     (''error'', ''error''), (''failed'', ''error''), (''failure'', ''error''),
     (''rejected'', ''error''), (''timeout'', ''error''), (''pending'', ''pending''),
     (''queued'', ''pending''), (''todo'', ''pending''), (''waitinginput'', ''pending'')]"

definition tone_aliases :: "(string \<times> string) list" where
  "tone_aliases =
    [(''amber'', ''warning''), (''blue'', ''info''), (''danger'', ''error''),
     (''destructive'', ''error''), (''error'', ''error''), (''fail'', ''error''),
     (''failed'', ''error''), (''gray'', ''neutral''), (''green'', ''success''),
     (''grey'', ''neutral''), (''info'', ''info''), (''neutral'', ''neutral''),
     (''orange'', ''warning''), (''red'', ''error''), (''success'', ''success''),
     (''warn'', ''warning''), (''warning'', ''warning''), (''yellow'', ''warning'')]"

definition chart_types :: "jstr list" where
  "chart_types =
    [js ''AreaChart'', js ''BarChart'', js ''BarGraph'', js ''CandlestickChart'',
     js ''ChoroplethChart'', js ''ComposedChart'', js ''FunnelChart'', js ''Gauge'',
     js ''GaugeChart'', js ''HeatmapChart'', js ''HistogramChart'', js ''LineChart'',
     js ''LineGraph'', js ''LiveLineChart'', js ''PieChart'', js ''ProfitLossLine'',
     js ''RadarChart'', js ''RingChart'', js ''SankeyChart'', js ''ScatterChart'',
     js ''WaterfallChart'']"

text \<open>The key under which a name is looked up.\<close>

definition alias_key :: "jstr \<Rightarrow> jstr" where
  "alias_key s = lower (strip_separators (trim s))"

definition isChartType :: "jsval \<Rightarrow> bool" where
  "isChartType ty = (case ty of JStr t \<Rightarrow> t \<in> set chart_types | _ \<Rightarrow> False)"

definition normalizeChartType :: "jstr \<Rightarrow> jsval" where
  "normalizeChartType chartType = (let v = obj_get (alias_table chart_aliases) chartType in
     if nullish v then JNull else v)"

text \<open>
  The result is a component name, except that a table lookup may find a member of
  \<open>Object.prototype\<close> instead.
\<close>

definition normalizeReportComponentType :: "jstr \<Rightarrow> jsobj \<Rightarrow> jsval" where
  "normalizeReportComponentType ty props =
     (let normalized = alias_key ty in
      if normalized = js ''chart'' \<or> normalized = js ''graph'' then
        (let chartType = (case obj_get props (js ''type'') of JStr t \<Rightarrow> alias_key t | _ \<Rightarrow> []);
             v = normalizeChartType chartType
         in if \<not> nullish v then v
            else if includes_str (js ''line'') chartType then JStr (js ''LineChart'')
            else JStr (js ''BarChart''))
      else
        (let v = obj_get (alias_table component_aliases) normalized in
         if nullish v then JStr ty else v))"

definition normalizeStepStatus :: "jsval \<Rightarrow> jsval" where
  "normalizeStepStatus value = (case value of
     JStr s \<Rightarrow> (let v = obj_get (alias_table step_aliases) (alias_key s) in
       if nullish v then JNull else v)
   | _ \<Rightarrow> JNull)"

definition normalizeTone :: "jsval \<Rightarrow> jsval" where
  "normalizeTone value = (case value of
     JStr s \<Rightarrow> (let v = obj_get (alias_table tone_aliases) (alias_key s) in
       if nullish v then JNull else v)
   | _ \<Rightarrow> JNull)"

section \<open>Properties of a component\<close>

definition is_record :: "jsval \<Rightarrow> bool" where
  "is_record v = (case v of JObj ob \<Rightarrow> True | JBuiltin k \<Rightarrow> k = proto_key | _ \<Rightarrow> False)"

text \<open>\<open>isRecord(v) ? { ...v } : {}\<close>; \<open>Object.prototype\<close> has nothing to copy.\<close>

definition record_copy :: "jsval \<Rightarrow> jsobj" where
  "record_copy v = (case v of JObj ob \<Rightarrow> obj_entries ob | _ \<Rightarrow> [])"

text \<open>\<open>isRecord(v) ? v : {}\<close>, for reading.\<close>

definition record_or_empty :: "jsval \<Rightarrow> jsobj" where
  "record_or_empty v = (case v of JObj ob \<Rightarrow> ob | _ \<Rightarrow> [])"

definition normalizeToneProp :: "jsobj \<Rightarrow> jstr \<Rightarrow> jsobj" where
  "normalizeToneProp props key =
     (let p1 = (if nullish (obj_get props key) \<and> is_str (obj_get props (js ''variant''))
          then obj_set props key (obj_get props (js ''variant'')) else props);
          p2 = (if nullish (obj_get p1 key) \<and> is_str (obj_get p1 (js ''color''))
          then obj_set p1 key (obj_get p1 (js ''color'')) else p1);
          tone = normalizeTone (obj_get p2 key)
      in if truthy tone then obj_set p2 key tone else p2)"

definition non_blank :: "jsval \<Rightarrow> bool" where
  "non_blank v = (case v of JStr s \<Rightarrow> trim s \<noteq> [] | _ \<Rightarrow> False)"

definition normalize_badge :: "jsval \<Rightarrow> jsobj" where
  "normalize_badge badge =
     (let record = record_copy badge;
          r1 = (if nullish (obj_get record (js ''label'')) \<and> is_str (obj_get record (js ''text''))
            then obj_set record (js ''label'') (obj_get record (js ''text'')) else record)
      in normalizeToneProp r1 (js ''tone''))"

definition normalizeBadges :: "jsobj \<Rightarrow> jsobj" where
  "normalizeBadges props = (case obj_get props (js ''badges'') of
     JArr badges \<Rightarrow> obj_set props (js ''badges'')
       (JArr (map JObj (filter (\<lambda>b. non_blank (obj_get b (js ''label''))) (map normalize_badge badges))))
   | _ \<Rightarrow> props)"

definition normalize_step :: "jsval \<Rightarrow> jsobj" where
  "normalize_step item =
     (let record = record_copy item;
          st = normalizeStepStatus (obj_get record (js ''status''));
          r1 = (if truthy st then obj_set record (js ''status'') st else record)
      in if nullish (obj_get r1 (js ''detail'')) \<and> is_str (obj_get r1 (js ''description''))
         then obj_set r1 (js ''detail'') (obj_get r1 (js ''description'')) else r1)"

definition normalizeStepItems :: "jsobj \<Rightarrow> jsobj" where
  "normalizeStepItems props =
     (let map_steps = (\<lambda>key. case obj_get props key of
          JArr items \<Rightarrow> obj_set props key (JArr (map (\<lambda>i. JObj (normalize_step i)) items))
        | _ \<Rightarrow> props)
      in if is_arr (obj_get props (js ''items'')) then map_steps (js ''items'')
         else if is_arr (obj_get props (js ''steps'')) then map_steps (js ''steps'')
         else props)"

text \<open>The first key whose value is a string that is not blank; the value is not trimmed.\<close>

fun firstStringValue :: "jsobj \<Rightarrow> jstr list \<Rightarrow> jstr" where
  "firstStringValue record [] = []"
| "firstStringValue record (key # keys) =
     (if non_blank (obj_get record key) then to_str (obj_get record key)
      else firstStringValue record keys)"

definition finite_num :: "jsval \<Rightarrow> bool" where
  "finite_num v = (case v of JNum n \<Rightarrow> is_finite n | _ \<Rightarrow> False)"

section \<open>The names a report ends up with\<close>

text \<open>Names made of letters, such as all component names, and their lower case.\<close>

definition upper_letters :: string where
  "upper_letters = ''ABCDEFGHIJKLMNOPQRSTUVWXYZ''"

definition lower_letters :: string where
  "lower_letters = ''abcdefghijklmnopqrstuvwxyz''"

fun lower_char :: "char \<Rightarrow> char" where
  "lower_char (Char b0 b1 b2 b3 b4 b5 b6 b7) = Char b0 b1 b2 b3 b4 True b6 b7"

lemma lower_letter:
  "c \<in> set (upper_letters @ lower_letters) \<Longrightarrow> lower_unit (of_char c) = [of_char (lower_char c)]
    \<and> \<not> is_ws (of_char c) \<and> (of_char c :: nat) \<noteq> 95 \<and> (of_char c :: nat) \<noteq> 45"
  by (simp only: upper_letters_def lower_letters_def append.simps list.set insert_iff empty_iff)
     (elim disjE; simp add: upper_letters_def lower_letters_def lower_unit_def is_ws_def)

lemma trim_id: "\<forall>c \<in> set s. \<not> is_ws c \<Longrightarrow> trim s = s"
proof -
  assume a: "\<forall>c \<in> set s. \<not> is_ws c"
  have d: "dropWhile is_ws t = t" if "\<forall>c \<in> set t. \<not> is_ws c" for t using that by (cases t) simp_all
  show ?thesis using a by (simp add: trim_def trim_start_def trim_end_def d)
qed

lemma alias_key_letters:
  assumes "set v \<subseteq> set (upper_letters @ lower_letters)"
  shows "alias_key (js v) = js (map lower_char v)"
proof -
  note l = lower_letter [OF subsetD [OF assms]]
  have "trim (js v) = js v" by (rule trim_id) (use l in auto)
  moreover have "strip_separators (js v) = js v"
    unfolding strip_separators_def by (rule filter_True) (use l in auto)
  moreover have "lower (js v) = concat (map (\<lambda>c. [of_char (lower_char c)]) v)"
    unfolding lower_def map_map o_def using l by (intro arg_cong [where f = concat] map_cong) auto
  ultimately show ?thesis by (simp add: alias_key_def)
qed

text \<open>The component names, each of which is an alias of itself.\<close>

definition component_names :: "string list" where
  "component_names =
    [''Alert'', ''AreaChart'', ''Avatar'', ''Badge'', ''BarGraph'', ''Button'', ''ButtonGroup'',
     ''Callout'', ''Card'', ''Carousel'', ''Checkbox'', ''CandlestickChart'', ''ChoroplethChart'',
     ''Collapsible'', ''ComposedChart'', ''BarChart'', ''Dialog'', ''Drawer'', ''DropdownMenu'',
     ''FunnelChart'', ''Gauge'', ''GaugeChart'', ''Grid'', ''HeatmapChart'', ''HistogramChart'',
     ''Heading'', ''Icon'', ''Image'', ''Input'', ''Legend'', ''LineGraph'', ''Link'',
     ''LiveLineChart'', ''Metric'', ''Pagination'', ''PieChart'', ''Popover'', ''ProfitLossLine'',
     ''Progress'', ''Radio'', ''RadarChart'', ''Rating'', ''RingChart'', ''SankeyChart'',
     ''ScatterChart'', ''Select'', ''Separator'', ''Skeleton'', ''Slider'', ''Spinner'', ''Stack'',
     ''Steps'', ''Switch'', ''Table'', ''Tabs'', ''Text'', ''Textarea'', ''Toggle'',
     ''ToggleGroup'', ''Tooltip'', ''LineChart'', ''WaterfallChart'']"

lemmas name_eval = list.pred_inject map_of.simps fun_upd_apply list.map lower_char.simps prod.sel
  list.inject char.inject simp_thms list.distinct if_True if_False option.inject fst_conv snd_conv
  prod.case Set.insert_iff list.set empty_iff

lemma component_names_aliased:
  "list_all (\<lambda>v. map_of component_aliases (map lower_char v) = Some v) component_names"
  unfolding component_aliases_def component_names_def by (simp only: name_eval)

lemma component_names_letters:
  "list_all (\<lambda>v. list_all (\<lambda>c. c \<in> set (upper_letters @ lower_letters)) v) component_names"
  unfolding component_names_def upper_letters_def lower_letters_def append.simps by (simp only: name_eval)

lemma component_names_not_chart:
  "list_all (\<lambda>v. map lower_char v \<notin> {''chart'', ''graph''}) component_names"
  unfolding component_names_def by (simp only: name_eval)

lemma component_values: "list_all (\<lambda>(k, v). v \<in> set component_names) component_aliases"
  unfolding component_aliases_def component_names_def by (simp only: name_eval)

lemma chart_values: "list_all (\<lambda>(k, v). v \<in> set component_names) chart_aliases"
  unfolding chart_aliases_def component_names_def by (simp only: name_eval)

definition own_alias :: "string \<Rightarrow> bool" where
  "own_alias v \<longleftrightarrow> map_of component_aliases (map lower_char v) = Some v
     \<and> map lower_char v \<noteq> ''chart'' \<and> map lower_char v \<noteq> ''graph''
     \<and> set v \<subseteq> set (upper_letters @ lower_letters)"

lemma component_names_own: "v \<in> set component_names \<Longrightarrow> own_alias v"
  using component_names_aliased component_names_letters component_names_not_chart
  unfolding own_alias_def list_all_iff by (simp add: subset_iff)

lemma alias_value:
  assumes "obj_get (alias_table tab) k = JStr t"
  obtains n v where "k = js n" and "t = js v" and "(n, v) \<in> set tab"
proof -
  have "map_of (alias_table tab) k = Some (JStr t)"
    using assms by (simp add: obj_get_def split: option.splits if_splits)
  then have "(k, JStr t) \<in> set (alias_table tab)" by (rule map_of_SomeD)
  with that show thesis by (auto simp: alias_table_def)
qed

lemma js_inject: "js a = js b \<longleftrightarrow> a = b"
  by (rule inj_map_eq_map) (rule injI, simp)

lemma map_of_alias_table: "map_of (alias_table tab) (js n) = map_option (\<lambda>v. JStr (js v)) (map_of tab n)"
proof (induction tab)
  case Nil
  show ?case by (simp add: alias_table_def)
next
  case (Cons p tab)
  obtain k v where p: "p = (k, v)" by (cases p)
  have "alias_table (p # tab) = (js k, JStr (js v)) # alias_table tab"
    by (simp add: alias_table_def p)
  with Cons show ?case unfolding p by (simp only: map_of.simps js_inject prod.sel fun_upd_apply split: if_split) auto
qed

lemma alias_found: "map_of tab n = Some v \<Longrightarrow> obj_get (alias_table tab) (js n) = JStr (js v)"
  unfolding obj_get_def map_of_alias_table by simp

lemma own_type:
  assumes "own_alias v"
  shows "normalizeReportComponentType (js v) props = JStr (js v)"
proof -
  have k: "alias_key (js v) = js (map lower_char v)"
    by (rule alias_key_letters) (use assms own_alias_def in blast)
  have c: "js (map lower_char v) \<noteq> js ''chart'' \<and> js (map lower_char v) \<noteq> js ''graph''"
    unfolding js_inject using assms unfolding own_alias_def by simp
  have f: "obj_get (alias_table component_aliases) (js (map lower_char v)) = JStr (js v)"
    by (rule alias_found) (use assms own_alias_def in blast)
  show ?thesis
    unfolding normalizeReportComponentType_def Let_def k
    using c by (simp only: f simp_thms if_False nullish_def jsval.distinct)
qed


lemma component_type_text:
  assumes "normalizeReportComponentType ty props = JStr t"
  shows "(\<exists>v. t = js v \<and> v \<in> set component_names)
    \<or> t = ty \<and> alias_key ty \<noteq> js ''chart'' \<and> alias_key ty \<noteq> js ''graph''
      \<and> nullish (obj_get (alias_table component_aliases) (alias_key ty))"
proof (cases "alias_key ty = js ''chart'' \<or> alias_key ty = js ''graph''")
  case True
  define c where "c = (case obj_get props (js ''type'') of JStr t \<Rightarrow> alias_key t | _ \<Rightarrow> [])"
  have r: "normalizeReportComponentType ty props = (if \<not> nullish (normalizeChartType c) then normalizeChartType c
      else if includes_str (js ''line'') c then JStr (js ''LineChart'') else JStr (js ''BarChart''))"
    unfolding normalizeReportComponentType_def Let_def c_def [symmetric] using True by (simp only: if_True)
  show ?thesis
  proof (cases "nullish (normalizeChartType c)")
    case True
    then have "t = js ''LineChart'' \<or> t = js ''BarChart''"
      using r assms by (simp only: if_False simp_thms split: if_splits) auto
    moreover have "''LineChart'' \<in> set component_names" "''BarChart'' \<in> set component_names"
      unfolding component_names_def by (simp_all only: name_eval)
    ultimately show ?thesis by blast
  next
    case False
    then have "normalizeChartType c = JStr t" using r assms by (simp only: if_True simp_thms)
    then have "obj_get (alias_table chart_aliases) c = JStr t"
      by (auto simp: normalizeChartType_def Let_def split: if_splits)
    then obtain n v where "t = js v" "(n, v) \<in> set chart_aliases" by (rule alias_value)
    then show ?thesis using chart_values unfolding list_all_iff by auto
  qed
next
  case False
  define v where "v = obj_get (alias_table component_aliases) (alias_key ty)"
  have r: "normalizeReportComponentType ty props = (if nullish v then JStr ty else v)"
    unfolding normalizeReportComponentType_def Let_def v_def [symmetric] using False by (simp only: if_False)
  show ?thesis
  proof (cases "nullish v")
    case True
    then show ?thesis using r assms False by (simp add: v_def)
  next
    case False
    then have "obj_get (alias_table component_aliases) (alias_key ty) = JStr t"
      using r assms by (simp add: v_def)
    then obtain n v where "t = js v" "(n, v) \<in> set component_aliases" by (rule alias_value)
    then show ?thesis using component_values unfolding list_all_iff by auto
  qed
qed

text \<open>
  Normalising the type of a component is idempotent: a name that the normalisation returned,
  whether known or passed through, is returned unchanged when the component is normalised again,
  whatever its properties are.
\<close>

theorem component_type_idempotent:
  assumes "normalizeReportComponentType ty props = JStr t"
  shows "normalizeReportComponentType t props' = JStr t"
  using component_type_text [OF assms]
proof (elim disjE exE conjE)
  fix v
  assume "t = js v" and "v \<in> set component_names"
  then show ?thesis using own_type component_names_own by simp
next
  assume "t = ty" and "alias_key ty \<noteq> js ''chart''" and "alias_key ty \<noteq> js ''graph''"
    and "nullish (obj_get (alias_table component_aliases) (alias_key ty))"
  then show ?thesis
    unfolding normalizeReportComponentType_def Let_def by (simp only: simp_thms if_True if_False)
qed

theorem component_type_idempotent_witness:
  "normalizeReportComponentType (js ''LineChart'') [] = JStr (js ''LineChart'')"
proof (rule component_type_idempotent [of "js ''Time-Series'' " "[]"])
  have "alias_key (js ''Time-Series'') = js ''timeseries''"
    by (simp add: alias_key_def trim_no_outer_ws strip_separators_def lower_def lower_unit_def is_ws_def)
  moreover have "map_of component_aliases ''timeseries'' = Some ''LineChart''"
    unfolding component_aliases_def by (simp only: name_eval)
  moreover have "''timeseries'' \<noteq> ''chart''" "''timeseries'' \<noteq> ''graph''" by (simp_all only: name_eval)
  ultimately show "normalizeReportComponentType (js ''Time-Series'') [] = JStr (js ''LineChart'')"
    unfolding normalizeReportComponentType_def Let_def
    by (simp only: js_inject alias_found simp_thms if_False nullish_def jsval.distinct)
qed

text \<open>
  A component named constructor is found among the members that the table of names inherits, so
  its type is the function Object and not a name.
\<close>

theorem component_type_inherited:
  "normalizeReportComponentType (js ''constructor'') props = JBuiltin (js ''constructor'')"
proof -
  have k: "alias_key (js ''constructor'') = js ''constructor''"
    by (simp add: alias_key_def trim_no_outer_ws strip_separators_def lower_def lower_unit_def is_ws_def)
  have "map_of component_aliases ''constructor'' = None"
    unfolding component_aliases_def by (simp only: name_eval)
  then have "obj_get (alias_table component_aliases) (js ''constructor'') = JBuiltin (js ''constructor'')"
    unfolding obj_get_def map_of_alias_table by (simp add: proto_names_def)
  moreover have "''constructor'' \<noteq> ''chart''" "''constructor'' \<noteq> ''graph''" by (simp_all only: name_eval)
  ultimately show ?thesis
    unfolding normalizeReportComponentType_def Let_def k
    by (simp only: js_inject simp_thms if_False nullish_def jsval.distinct)
qed

end
