(* ===== verification/ReportProps.thy ===== *)
theory ReportProps
  imports ReportComponents
begin

text \<open>
  Normalisation of chart data and of the properties of every component,
  src/ui/web/src/lib/report-spec.ts (\<open>normalizeReportProps\<close>, \<open>normalizeChartProps\<close> and their
  helpers).
\<close>

section \<open>Chart series\<close>

definition inferChartXKey :: "jsval list \<Rightarrow> jstr" where
  "inferChartXKey data =
     (let usable = (\<lambda>key. list_ex (\<lambda>point.
          let value = obj_get (record_or_empty point) key in is_str value \<or> is_num value) data)
      in case filter usable [js ''label'', js ''date'', js ''week'', js ''month'', js ''name'',
           js ''category''] of [] \<Rightarrow> [] | key # _ \<Rightarrow> key)"

text \<open>The keys with a finite number in some row, in the order in which they are first seen.\<close>

definition add_key :: "jstr list \<Rightarrow> jstr \<Rightarrow> jstr list" where
  "add_key keys k = (if k \<in> set keys then keys else keys @ [k])"

definition inferChartSeries :: "jsval list \<Rightarrow> jstr \<Rightarrow> jsobj list" where
  "inferChartSeries data xKey =
     (let row_keys = (\<lambda>keys point. foldl (\<lambda>keys (key, value).
          if key \<noteq> xKey \<and> finite_num value then add_key keys key else keys)
          keys (obj_entries (record_or_empty point)))
      in map (\<lambda>dataKey. [(js ''dataKey'', JStr dataKey), (js ''name'', JStr dataKey)])
           (foldl row_keys [] data))"

fun seriesFromYKeys :: "jsval list \<Rightarrow> jsobj list" where
  "seriesFromYKeys [] = []"
| "seriesFromYKeys (item # items) =
     (if non_blank item then
        [(js ''dataKey'', JStr (trim (to_str item))), (js ''name'', JStr (trim (to_str item)))]
          # seriesFromYKeys items
      else
        (let record = record_copy item;
             dataKey = firstStringValue record [js ''dataKey'', js ''key'', js ''valueKey''];
             label = firstStringValue record [js ''name'', js ''label'', js ''title'']
         in if dataKey = [] then seriesFromYKeys items
            else obj_define (obj_define record (js ''dataKey'') (JStr dataKey)) (js ''name'')
                   (JStr (if label = [] then dataKey else label))
                 # seriesFromYKeys items))"

text \<open>Category \<open>i\<close> takes color \<open>i\<close>, when there is one that is not blank.\<close>

definition category_series :: "jsval list \<Rightarrow> nat \<Rightarrow> jsval \<Rightarrow> jsobj option" where
  "category_series colors i item =
     (if \<not> non_blank item then None
      else
        (let color = (if i < length colors then colors ! i else JUndef);
             series = [(js ''dataKey'', JStr (trim (to_str item))),
               (js ''name'', JStr (trim (to_str item)))]
         in Some (if non_blank color
              then obj_set series (js ''color'') (JStr (trim (to_str color))) else series)))"

definition seriesFromCategories :: "jsval \<Rightarrow> jsval \<Rightarrow> jsobj list" where
  "seriesFromCategories categoriesValue colorsValue = (case categoriesValue of
     JArr cats \<Rightarrow>
       (let colors = (case colorsValue of JArr cs \<Rightarrow> cs | _ \<Rightarrow> [])
        in List.map_filter (\<lambda>(i, item). category_series colors i item) (enumerate 0 cats))
   | _ \<Rightarrow> [])"

definition raw_series :: "jsobj \<Rightarrow> jsval list" where
  "raw_series props = (case obj_get props (js ''series'') of
     JArr vs \<Rightarrow> vs
   | _ \<Rightarrow> (case obj_get props (js ''bars'') of
       JArr vs \<Rightarrow> vs
     | _ \<Rightarrow> (case obj_get props (js ''yKeys'') of
         JArr vs \<Rightarrow> map JObj (seriesFromYKeys vs)
       | _ \<Rightarrow> map JObj (seriesFromCategories (obj_get props (js ''categories''))
              (obj_get props (js ''colors''))))))"

definition normalize_series_item :: "jsval \<Rightarrow> jsobj" where
  "normalize_series_item item =
     (let record = record_copy item
      in if nullish (obj_get record (js ''fill'')) \<and> is_str (obj_get record (js ''color''))
         then obj_set record (js ''fill'') (obj_get record (js ''color'')) else record)"

definition normalizeChartSeries :: "jsobj \<Rightarrow> jsval list \<Rightarrow> jstr \<Rightarrow> jsobj list" where
  "normalizeChartSeries props data xKey =
     (let normalizedSeries = filter (\<lambda>r. non_blank (obj_get r (js ''dataKey'')))
            (map normalize_series_item (raw_series props))
      in if normalizedSeries \<noteq> [] \<or> xKey = [] then normalizedSeries
         else inferChartSeries data xKey)"

section \<open>Chart properties\<close>

definition chart_x_key :: "jsobj \<Rightarrow> jsval list \<Rightarrow> jstr" where
  "chart_x_key props data =
     (let xAxis = record_or_empty (obj_get props (js ''xAxis''));
          k1 = firstStringValue props [js ''xDataKey'', js ''xAxisKey'', js ''xKey'',
            js ''categoryKey'', js ''labelKey'', js ''index''];
          k2 = (case obj_get xAxis (js ''dataKey'') of JStr s \<Rightarrow> s | _ \<Rightarrow> [])
      in if k1 \<noteq> [] then k1 else if k2 \<noteq> [] then k2 else inferChartXKey data)"

definition renderable_point :: "jsval \<Rightarrow> bool" where
  "renderable_point point = (is_record point
     \<and> is_str (obj_get (record_or_empty point) (js ''label''))
     \<and> is_num (obj_get (record_or_empty point) (js ''value'')))"

definition chart_point :: "jstr \<Rightarrow> jstr \<Rightarrow> jsval \<Rightarrow> jsobj option" where
  "chart_point xKey yKey point =
     (let record = record_or_empty point;
          labelValue = obj_get record xKey;
          dataValue = obj_get record yKey;
          label = (if nullish labelValue then [] else to_str labelValue)
      in if label \<noteq> [] \<and> finite_num dataValue
         then Some [(js ''label'', JStr label), (js ''value'', dataValue)] else None)"

definition normalizeChartProps :: "jsobj \<Rightarrow> jsobj" where
  "normalizeChartProps props = (case obj_get props (js ''data'') of
     JArr data \<Rightarrow>
       (let xKey = chart_x_key props data;
            p1 = (if xKey \<noteq> [] then obj_set props (js ''xDataKey'') (JStr xKey) else props)
        in if list_all renderable_point data then p1
           else
             (let series = normalizeChartSeries p1 data xKey;
                  p2 = (if series \<noteq> [] then obj_set p1 (js ''series'') (JArr (map JObj series)) else p1);
                  firstSeries = (case series of [] \<Rightarrow> [] | r # _ \<Rightarrow> r)
              in if 1 < length series \<and> xKey \<noteq> [] then p2
                 else
                   (let y1 = firstStringValue firstSeries [js ''dataKey'', js ''yAxisKey'', js ''valueKey''];
                        yKey = (if y1 \<noteq> [] then y1
                          else firstStringValue p2 [js ''dataKey'', js ''yAxisKey'', js ''valueKey''])
                    in if xKey = [] \<or> yKey = [] then p2
                       else
                         (let normalizedData = List.map_filter (chart_point xKey yKey) data;
                              p3 = (if normalizedData \<noteq> []
                                then obj_set p2 (js ''data'') (JArr (map JObj normalizedData)) else p2)
                          in if nullish (obj_get p3 (js ''title'')) \<and> is_str (obj_get firstSeries (js ''name''))
                             then obj_set p3 (js ''title'') (obj_get firstSeries (js ''name''))
                             else p3))))
   | _ \<Rightarrow> props)"

section \<open>\<open>normalizeReportProps\<close>\<close>

definition card_description :: "jsobj \<Rightarrow> jsobj" where
  "card_description props =
     (if nullish (obj_get props (js ''description'')) then
        (if is_str (obj_get props (js ''subTitle''))
           then obj_set props (js ''description'') (obj_get props (js ''subTitle''))
         else if is_str (obj_get props (js ''subtitle''))
           then obj_set props (js ''description'') (obj_get props (js ''subtitle''))
         else if is_str (obj_get props (js ''content''))
           then obj_set props (js ''description'') (obj_get props (js ''content''))
         else props)
      else props)"

definition badge_label :: "jsobj \<Rightarrow> jsobj" where
  "badge_label props =
     (if nullish (obj_get props (js ''label'')) \<and> is_str (obj_get props (js ''text''))
      then obj_set props (js ''label'') (obj_get props (js ''text'')) else props)"

definition grid_columns :: "jsobj \<Rightarrow> jsobj" where
  "grid_columns props =
     (if finite_num (obj_get props (js ''columns''))
      then obj_set props (js ''columns'') (JStr (to_str (obj_get props (js ''columns'')))) else props)"

definition normalizeReportProps :: "jsval \<Rightarrow> jsval \<Rightarrow> jsobj" where
  "normalizeReportProps ty value =
     (let p0 = record_copy value;
          p1 = (if ty = JStr (js ''Card'') then normalizeBadges (card_description p0) else p0);
          p2 = (if ty = JStr (js ''Badge'') then normalizeToneProp (badge_label p1) (js ''tone'') else p1);
          p3 = (if ty = JStr (js ''Callout'') then normalizeToneProp p2 (js ''tone'') else p2);
          p4 = (if ty = JStr (js ''Grid'') then grid_columns p3 else p3);
          p5 = (if ty = JStr (js ''Steps'') \<or> ty = JStr (js ''LoanStatusCard'')
            then normalizeStepItems p4 else p4)
      in if isChartType ty then normalizeChartProps p5 else p5)"

section \<open>What a chart is given\<close>

text \<open>A point a chart can draw: a label that is not empty and a finite value.\<close>

definition drawable_point :: "jsval \<Rightarrow> bool" where
  "drawable_point point = (case point of
     JObj ob \<Rightarrow> (case obj_get ob (js ''label'') of JStr l \<Rightarrow> l \<noteq> [] | _ \<Rightarrow> False)
       \<and> finite_num (obj_get ob (js ''value''))
   | _ \<Rightarrow> False)"

definition set_keys :: "jstr list" where
  "set_keys = [js ''xDataKey'', js ''series'', js ''data'', js ''title'']"

lemma set_keys_proto: "k \<in> set set_keys \<Longrightarrow> k \<noteq> proto_key"
  by (auto simp: set_keys_def proto_key_def)

lemma chart_point_drawable: "chart_point xKey yKey point = Some ob \<Longrightarrow> drawable_point (JObj ob)"
  by (auto simp: chart_point_def drawable_point_def obj_get_def Let_def split: if_splits)

definition chart_key :: "jsobj \<Rightarrow> jsval list \<Rightarrow> jsobj" where
  "chart_key props data = (let xKey = chart_x_key props data in
     if xKey \<noteq> [] then obj_set props (js ''xDataKey'') (JStr xKey) else props)"

lemma set_keys_distinct:
  "js ''data'' \<noteq> js ''xDataKey''" "js ''data'' \<noteq> js ''series''" "js ''data'' \<noteq> js ''title''"
  by simp_all

text \<open>What the function may have made of \<open>data\<close>, as a property of its result.\<close>

definition chart_result :: "jsobj \<Rightarrow> jsval list \<Rightarrow> jsobj \<Rightarrow> bool" where
  "chart_result props data r \<longleftrightarrow>
     (\<forall>k. k \<notin> set set_keys \<longrightarrow> obj_get r k = obj_get props k) \<and>
     (obj_get r (js ''data'') = JArr data \<or>
      (\<exists>points. obj_get r (js ''data'') = JArr points \<and> points \<noteq> [] \<and> length points \<le> length data
         \<and> list_all drawable_point points))"

lemma chart_result_refl: "obj_get props (js ''data'') = JArr data \<Longrightarrow> chart_result props data props"
  by (simp add: chart_result_def)

lemma chart_result_set:
  "chart_result props data r \<Longrightarrow> k \<in> {js ''xDataKey'', js ''series'', js ''title''} \<Longrightarrow>
   chart_result props data (obj_set r k v)"
  unfolding chart_result_def set_keys_def by (auto simp: get_set_other)

lemma chart_result_data:
  assumes "chart_result props data r" and "points \<noteq> []" and "length points \<le> length data"
    and "list_all drawable_point points"
  shows "chart_result props data (obj_set r (js ''data'') (JArr points))"
  using assms unfolding chart_result_def set_keys_def by (auto simp: get_set_other proto_key_def)

lemma chart_points:
  "list_all drawable_point (map JObj (List.map_filter (chart_point xKey yKey) data))"
  "length (map JObj (List.map_filter (chart_point xKey yKey) data)) \<le> length data"
  by (induction data) (auto simp: List.map_filter_simps chart_point_drawable split: option.splits)

lemma chart_result_if:
  "chart_result props data a \<Longrightarrow> chart_result props data b \<Longrightarrow> chart_result props data (if c then a else b)"
  by simp

lemma chart_result_points:
  assumes "chart_result props data r"
  shows "chart_result props data (let points = List.map_filter (chart_point xKey yKey) data in
    if points \<noteq> [] then obj_set r (js ''data'') (JArr (map JObj points)) else r)"
proof (cases "List.map_filter (chart_point xKey yKey) data = []")
  case True
  then show ?thesis using assms by simp
next
  case False
  then have "map JObj (List.map_filter (chart_point xKey yKey) data) \<noteq> []" by simp
  from chart_result_data [OF assms this chart_points(2) chart_points(1)] show ?thesis
    using False unfolding Let_def by (simp only: if_True simp_thms)
qed

lemmas chart_result_keys = chart_result_set [where k = "js ''xDataKey''"]
  chart_result_set [where k = "js ''series''"] chart_result_set [where k = "js ''title''"]

lemma normalizeChartProps_result:
  assumes d: "obj_get props (js ''data'') = JArr data"
  shows "chart_result props data (normalizeChartProps props)"
  unfolding normalizeChartProps_def d jsval.case Let_def
  by (intro chart_result_if chart_result_keys insertI1 insertI2 chart_result_refl [OF d]
      chart_result_points [unfolded Let_def])

text \<open>
  Normalising the properties of a chart whose data is a list leaves every property other than
  the four it computes as it was, and hands the renderer either the rows it was given or a list,
  not empty and no longer, of points that each have a label that is not empty and a finite value.
\<close>

theorem chart_data_drawable:
  assumes "obj_get props (js ''data'') = JArr data"
  shows "(\<forall>k. k \<notin> {js ''xDataKey'', js ''series'', js ''data'', js ''title''} \<longrightarrow>
       obj_get (normalizeChartProps props) k = obj_get props k) \<and>
     (obj_get (normalizeChartProps props) (js ''data'') = JArr data \<or>
      (\<exists>points. obj_get (normalizeChartProps props) (js ''data'') = JArr points \<and> points \<noteq> []
         \<and> length points \<le> length data \<and> list_all drawable_point points))"
  using normalizeChartProps_result [OF assms] unfolding chart_result_def set_keys_def list.set .

definition sample_chart :: jsobj where
  "sample_chart = [(js ''data'', JArr [JObj [(js ''month'', JStr (js ''Jan'')), (js ''sales'', JNum 3)]])]"

theorem chart_data_drawable_witness:
  "obj_get (normalizeChartProps sample_chart) (js ''height'') = obj_get sample_chart (js ''height'') \<and>
   (obj_get (normalizeChartProps sample_chart) (js ''data'')
      = JArr [JObj [(js ''month'', JStr (js ''Jan'')), (js ''sales'', JNum 3)]] \<or>
    (\<exists>points. obj_get (normalizeChartProps sample_chart) (js ''data'') = JArr points \<and> points \<noteq> []
       \<and> list_all drawable_point points))"
proof -
  have other: "js ''height'' \<notin> {js ''xDataKey'', js ''series'', js ''data'', js ''title''}"
    by simp
  have "obj_get sample_chart (js ''data'')
      = JArr [JObj [(js ''month'', JStr (js ''Jan'')), (js ''sales'', JNum 3)]]"
    by (simp add: sample_chart_def obj_get_def)
  from chart_data_drawable [OF this] other show ?thesis by blast
qed

end
