(* ===== verification/ReportSpec.thy ===== *)
theory ReportSpec
  imports ReportProps JsonPrint
begin

text \<open>
  Report specifications, src/ui/web/src/lib/report-spec.ts: \<open>parseReportSpec\<close> reads either a flat
  specification (a root and a table of elements) or a tree of nodes, which it flattens.
\<close>

record report_element =
  re_type :: jsval
  re_props :: jsobj
  re_children :: "jstr list"

type_synonym elements = "(jstr \<times> report_element) list"

record report_spec =
  rs_root :: jstr
  rs_elements :: elements
  rs_state :: "jsobj option"

text \<open>The test \<open>!elements[id]\<close>: an inherited member counts as present.\<close>

definition element_present :: "elements \<Rightarrow> jstr \<Rightarrow> bool" where
  "element_present els i \<longleftrightarrow> map_of els i \<noteq> None \<or> i \<in> set proto_names"

section \<open>Flat specifications\<close>

definition string_children :: "jsval \<Rightarrow> jstr list" where
  "string_children v = (case v of JArr cs \<Rightarrow> List.map_filter str_opt cs | _ \<Rightarrow> [])"

definition normalized_element :: "jsval \<Rightarrow> report_element option" where
  "normalized_element value =
     (if \<not> is_record value then None
      else
        let ob = record_or_empty value in
        (case obj_get ob (js ''type'') of
           JStr t \<Rightarrow>
             (let ty = normalizeReportComponentType t (record_or_empty (obj_get ob (js ''props'')))
              in Some \<lparr>re_type = ty, re_props = normalizeReportProps ty (obj_get ob (js ''props'')),
                   re_children = string_children (obj_get ob (js ''children''))\<rparr>)
         | _ \<Rightarrow> None))"

fun normalized_elements :: "elements \<Rightarrow> (jstr \<times> jsval) list \<Rightarrow> elements option" where
  "normalized_elements els [] = Some els"
| "normalized_elements els ((i, value) # rest) =
     (case normalized_element value of
        None \<Rightarrow> None
      | Some el \<Rightarrow> normalized_elements (obj_set els i el) rest)"

definition parseNormalizedSpec :: "jsobj \<Rightarrow> report_spec option" where
  "parseNormalizedSpec parsed =
     (case (obj_get parsed (js ''elements''), obj_get parsed (js ''root'')) of
        (JObj raw, JStr rt) \<Rightarrow>
          (case normalized_elements [] (obj_entries raw) of
             None \<Rightarrow> None
           | Some els \<Rightarrow>
               if \<not> element_present els rt then None
               else Some \<lparr>rs_root = rt, rs_elements = els,
                 rs_state = (case obj_get parsed (js ''state'') of JObj st \<Rightarrow> Some st | _ \<Rightarrow> None)\<rparr>)
      | _ \<Rightarrow> None)"

section \<open>Trees\<close>

definition extractTreeProps :: "jsobj \<Rightarrow> jsobj" where
  "extractTreeProps node =
     foldl (\<lambda>props (key, value).
         if key \<in> {js ''component'', js ''type'', js ''children'', js ''props''} then props
         else obj_set props key value)
       (record_copy (obj_get node (js ''props''))) (obj_entries node)"

definition tree_type :: "jsobj \<Rightarrow> jstr" where
  "tree_type node = (case obj_get node (js ''component'') of
     JStr t \<Rightarrow> t
   | _ \<Rightarrow> (case obj_get node (js ''type'') of JStr t \<Rightarrow> t | _ \<Rightarrow> []))"

text \<open>The elements made so far and the counter of generated ids.\<close>

record tree_state =
  ts_elements :: elements
  ts_next :: nat

definition node_id :: "nat \<Rightarrow> jstr" where
  "node_id n = js ''node_'' @ nat_str n"

text \<open>\<open>id ?? `node_${++nextId}`\<close>.\<close>

definition fresh_id :: "jstr option \<Rightarrow> tree_state \<Rightarrow> jstr \<times> tree_state" where
  "fresh_id i st = (case i of Some n \<Rightarrow> (n, st)
     | None \<Rightarrow> (node_id (Suc (ts_next st)), st\<lparr>ts_next := Suc (ts_next st)\<rparr>))"

definition put_element :: "jstr \<Rightarrow> report_element \<Rightarrow> tree_state \<Rightarrow> tree_state" where
  "put_element i el st = st\<lparr>ts_elements := obj_set (ts_elements st) i el\<rparr>"

definition text_element :: "jstr \<Rightarrow> report_element" where
  "text_element content = \<lparr>re_type = JStr (js ''Text''),
     re_props = [(js ''content'', JStr content)], re_children = []\<rparr>"

lemma size_own: "map_of ob k = Some v \<Longrightarrow> size v < size (JObj ob)"
proof -
  assume "map_of ob k = Some v"
  then have "(k, v) \<in> set ob" by (rule map_of_SomeD)
  then have "size v < Suc (size_list (size_prod (\<lambda>x. 0) size) ob)"
    by (induction ob) auto
  then show ?thesis by simp
qed

lemma size_get_children: "size (obj_get node (js ''children'')) < size (JObj node)"
proof (cases "map_of node (js ''children'')")
  case None
  then show ?thesis by (simp add: obj_get_def proto_names_def)
next
  case (Some v)
  then show ?thesis using size_own [OF Some] by (simp add: obj_get_def)
qed

lemma size_children_arr:
  "obj_get node (js ''children'') = JArr vs \<Longrightarrow> size_list size vs < size (JObj node)"
  using size_get_children [of node] by (simp)

function add_node :: "jsval \<Rightarrow> jstr option \<Rightarrow> tree_state \<Rightarrow> jstr option \<times> tree_state"
  and add_nodes :: "jsval list \<Rightarrow> tree_state \<Rightarrow> jstr list \<times> tree_state" where
  "add_node node i st = (case node of
     JStr content \<Rightarrow>
       (let (n, st1) = fresh_id i st in (Some n, put_element n (text_element content) st1))
   | JObj ob \<Rightarrow>
       (if tree_type ob = [] then (None, st)
        else
          let props = extractTreeProps ob;
              ty = normalizeReportComponentType (tree_type ob) props;
              (n, st1) = fresh_id i st;
              (children, st2) = (case obj_get ob (js ''children'') of
                 JStr s \<Rightarrow> add_nodes [JStr s] st1
               | JArr vs \<Rightarrow> add_nodes vs st1
               | _ \<Rightarrow> ([], st1))
          in (Some n, put_element n \<lparr>re_type = ty, re_props = normalizeReportProps ty (JObj props),
                re_children = children\<rparr> st2))
   | _ \<Rightarrow> (None, st))"
| "add_nodes [] st = ([], st)"
| "add_nodes (v # vs) st =
     (let (c, st1) = add_node v None st;
          (cs, st2) = add_nodes vs st1
      in ((case c of Some n \<Rightarrow> n # cs | None \<Rightarrow> cs), st2))"
  by pat_completeness auto
termination
proof (relation "measure (\<lambda>x. case x of Inl (node, i, st) \<Rightarrow> 2 * size node + 1
    | Inr (vs, st) \<Rightarrow> 2 * size_list size vs)", goal_cases)
  case (3 node i st ob x xa xb xc y vs)
  then show ?case using size_children_arr [of ob vs] by simp
qed simp_all


declare add_node.simps [simp del]

lemmas add_node_str = add_node.simps [of "JStr s" for s, simplified]
  and add_node_obj = add_node.simps [of "JObj ob" for ob, simplified]

definition tree_start :: tree_state where
  "tree_start = \<lparr>ts_elements = [], ts_next = 0\<rparr>"

definition root_id :: jstr where
  "root_id = js ''root''"

definition parseTreeSpec :: "jsobj \<Rightarrow> report_spec option" where
  "parseTreeSpec rootNode = (case add_node (JObj rootNode) (Some root_id) tree_start of
     (Some r, st) \<Rightarrow>
       if r = [] \<or> \<not> element_present (ts_elements st) r then None
       else Some \<lparr>rs_root = r, rs_elements = ts_elements st, rs_state = None\<rparr>
   | (None, st) \<Rightarrow> None)"

section \<open>\<open>parseReportSpec\<close>\<close>

definition parse_report_value :: "jsval \<Rightarrow> report_spec option" where
  "parse_report_value v = (case v of
     JObj parsed \<Rightarrow>
       if is_str (obj_get parsed (js ''root'')) \<and> is_record (obj_get parsed (js ''elements''))
       then parseNormalizedSpec parsed
       else if is_str (obj_get parsed (js ''component'')) \<or> is_str (obj_get parsed (js ''type''))
       then parseTreeSpec parsed
       else None
   | _ \<Rightarrow> None)"

definition parseReportSpec :: "jstr \<Rightarrow> report_spec option" where
  "parseReportSpec raw = (case json_parse (trim raw) of None \<Rightarrow> None | Some v \<Rightarrow> parse_report_value v)"

text \<open>A specification as the value that \<open>JSON.stringify\<close> sees.\<close>

definition element_value :: "report_element \<Rightarrow> jsval" where
  "element_value el = JObj [(js ''type'', re_type el), (js ''props'', JObj (re_props el)),
     (js ''children'', JArr (map JStr (re_children el)))]"

definition spec_value :: "report_spec \<Rightarrow> jsval" where
  "spec_value spec = JObj [(js ''root'', JStr (rs_root spec)),
     (js ''elements'', JObj (map (\<lambda>(i, el). (i, element_value el)) (rs_elements spec))),
     (js ''state'', (case rs_state spec of Some st \<Rightarrow> JObj st | None \<Rightarrow> JUndef))]"

definition normalizeReportSpecForComark :: "jstr \<Rightarrow> jstr option" where
  "normalizeReportSpecForComark raw = (case parseReportSpec raw of
     None \<Rightarrow> None
   | Some spec \<Rightarrow> json_stringify 2 (spec_value spec))"

section \<open>What flattening a tree yields\<close>

text \<open>
  The ids generated while the counter runs from \<open>m\<close> to \<open>n\<close>, and the children listed by a table of
  elements, as multisets.
\<close>

definition new_ids :: "nat \<Rightarrow> nat \<Rightarrow> jstr multiset" where
  "new_ids m n = image_mset node_id (mset_set {m<..n})"

definition kids :: "elements \<Rightarrow> jstr multiset" where
  "kids els = mset (concat (map (\<lambda>e. re_children (snd e)) els))"

lemma node_id_inject [simp]: "node_id m = node_id n \<longleftrightarrow> m = n"
  by (simp add: node_id_def)

lemma node_id_not_proto [simp]: "node_id n \<noteq> proto_key" "proto_key \<noteq> node_id n"
  by (simp_all add: node_id_def proto_key_def)

lemma node_id_not_root [simp]: "node_id n \<noteq> root_id" "root_id \<noteq> node_id n"
  by (simp_all add: node_id_def root_id_def)

lemma new_ids_same [simp]: "new_ids m m = {#}"
  by (simp add: new_ids_def)

lemma new_ids_join: "m \<le> n \<Longrightarrow> n \<le> k \<Longrightarrow> new_ids m n + new_ids n k = new_ids m k"
proof -
  assume "m \<le> n" "n \<le> k"
  then have "{m<..k} = {m<..n} \<union> {n<..k}" and "{m<..n} \<inter> {n<..k} = {}" by auto
  then show ?thesis by (simp add: new_ids_def mset_set_Union)
qed

lemma new_ids_Suc: "Suc m \<le> n \<Longrightarrow> new_ids m n = add_mset (node_id (Suc m)) (new_ids (Suc m) n)"
proof -
  have one: "new_ids m (Suc m) = {#node_id (Suc m)#}"
    by (simp add: new_ids_def atLeastSucAtMost_greaterThanAtMost flip: atLeastSucAtMost_greaterThanAtMost)
  assume "Suc m \<le> n"
  then show ?thesis using new_ids_join [of m "Suc m" n] one by simp
qed

lemma set_new_ids: "set_mset (new_ids m n) = node_id ` {m<..n}"
  by (simp add: new_ids_def)

lemma kids_append [simp]: "kids (a @ b) = kids a + kids b"
  by (simp add: kids_def)

lemma kids_single [simp]: "kids [(i, el)] = mset (re_children el)"
  by (simp add: kids_def)

lemma kids_Nil [simp]: "kids [] = {#}"
  by (simp add: kids_def)

lemma define_fresh: "k \<notin> fst ` set ob \<Longrightarrow> obj_define ob k v = ob @ [(k, v)]"
  by (induction ob k v rule: obj_define.induct) auto

lemma put_fresh:
  "i \<noteq> proto_key \<Longrightarrow> i \<notin> fst ` set (ts_elements st) \<Longrightarrow>
   put_element i el st = st\<lparr>ts_elements := ts_elements st @ [(i, el)]\<rparr>"
  by (simp add: put_element_def obj_set_def define_fresh)

text \<open>The state reached from \<open>st\<close> by adding the elements \<open>new\<close>.\<close>

definition grown :: "tree_state \<Rightarrow> elements \<Rightarrow> nat \<Rightarrow> tree_state" where
  "grown st new n = \<lparr>ts_elements = ts_elements st @ new, ts_next = n\<rparr>"

definition ids_below :: "tree_state \<Rightarrow> bool" where
  "ids_below st \<longleftrightarrow> fst ` set (ts_elements st) \<subseteq> node_id ` {..ts_next st}"

text \<open>The children of an element are generated after the element itself.\<close>

definition newer :: "jstr \<Rightarrow> jstr \<Rightarrow> bool" where
  "newer i c \<longleftrightarrow> (\<exists>j. c = node_id j \<and> (\<forall>k. i = node_id k \<longrightarrow> k < j))"

definition ranked :: "elements \<Rightarrow> bool" where
  "ranked els \<longleftrightarrow> (\<forall>(i, el) \<in> set els. \<forall>c \<in> set (re_children el). newer i c)"

lemma ranked_append: "ranked (a @ b) \<longleftrightarrow> ranked a \<and> ranked b"
  by (auto simp: ranked_def)

lemma ranked_Nil: "ranked []"
  by (simp add: ranked_def)

lemma ranked_single: "ranked [(i, el)] \<longleftrightarrow> (\<forall>c \<in> set (re_children el). newer i c)"
  by (simp add: ranked_def)

lemma children_new: "mset cs + kids new = new_ids m n \<Longrightarrow> set cs \<subseteq> node_id ` {m<..n}"
  by (metis mset_subset_eq_add_left set_mset_mono set_mset_mset set_new_ids)

definition nodes_spec :: "tree_state \<Rightarrow> jstr list \<times> tree_state \<Rightarrow> bool" where
  "nodes_spec st r \<longleftrightarrow> (\<exists>new n. snd r = grown st new n \<and> ts_next st \<le> n
     \<and> mset (map fst new) = new_ids (ts_next st) n
     \<and> mset (fst r) + kids new = new_ids (ts_next st) n \<and> ranked new)"

definition node_spec :: "jstr option \<Rightarrow> tree_state \<Rightarrow> jstr option \<times> tree_state \<Rightarrow> bool" where
  "node_spec i st r \<longleftrightarrow> (case i of
     None \<Rightarrow> nodes_spec st (case fst r of None \<Rightarrow> [] | Some n \<Rightarrow> [n], snd r)
   | Some x \<Rightarrow> r = (None, st) \<or> (\<exists>new n. r = (Some x, grown st new n) \<and> ts_next st \<le> n
       \<and> mset (map fst new) = add_mset x (new_ids (ts_next st) n)
       \<and> kids new = new_ids (ts_next st) n \<and> ranked new))"

lemma nodes_specI:
  "snd r = grown st new n \<Longrightarrow> ts_next st \<le> n \<Longrightarrow>
   mset (map fst new) = new_ids (ts_next st) n \<Longrightarrow>
   mset (fst r) + kids new = new_ids (ts_next st) n \<Longrightarrow> ranked new \<Longrightarrow> nodes_spec st r"
  unfolding nodes_spec_def by blast

lemma node_spec_someI:
  "r = (Some x, grown st new n) \<Longrightarrow> ts_next st \<le> n \<Longrightarrow>
   mset (map fst new) = add_mset x (new_ids (ts_next st) n) \<Longrightarrow>
   kids new = new_ids (ts_next st) n \<Longrightarrow> ranked new \<Longrightarrow> node_spec (Some x) st r"
  unfolding node_spec_def by (simp only: option.case) blast

lemma fst_new: "mset (map fst new) = new_ids m n \<Longrightarrow> fst ` set new = node_id ` {m<..n}"
  by (metis set_mset_mset set_map set_new_ids)

lemma ids_below_grown:
  assumes "ids_below st" and "mset (map fst new) = new_ids (ts_next st) n" and "ts_next st \<le> n"
  shows "ids_below (grown st new n)"
proof -
  have "fst ` set new = set_mset (mset (map fst new))" by simp
  also have "\<dots> = node_id ` {ts_next st<..n}" by (simp only: assms(2) set_new_ids)
  finally have new: "fst ` set new = node_id ` {ts_next st<..n}" .
  have "node_id ` {..ts_next st} \<subseteq> node_id ` {..n}" and "node_id ` {ts_next st<..n} \<subseteq> node_id ` {..n}"
    using assms(3) by auto
  with assms(1) show ?thesis
    unfolding ids_below_def grown_def by (simp only: tree_state.simps set_append image_Un new) blast
qed

lemma nodes_spec_refl: "nodes_spec st ([], st)"
  unfolding nodes_spec_def by (intro exI [of _ "[]"] exI [of _ "ts_next st"]) (simp add: grown_def ranked_Nil)


lemma ids_below_next: "ids_below st \<Longrightarrow> ids_below (st\<lparr>ts_next := Suc (ts_next st)\<rparr>)"
  by (force simp: ids_below_def)

lemma nodes_spec_join:
  assumes "nodes_spec st (cs, st1)" and "nodes_spec st1 (ds, st2)"
  shows "nodes_spec st (cs @ ds, st2)"
proof -
  obtain new n where 1: "st1 = grown st new n" "ts_next st \<le> n"
      "mset (map fst new) = new_ids (ts_next st) n" "mset cs + kids new = new_ids (ts_next st) n" "ranked new"
    using assms(1) by (auto simp: nodes_spec_def)
  obtain new' k where 2: "st2 = grown st1 new' k" "ts_next st1 \<le> k"
      "mset (map fst new') = new_ids (ts_next st1) k" "mset ds + kids new' = new_ids (ts_next st1) k" "ranked new'"
    using assms(2) by (auto simp: nodes_spec_def)
  have n: "ts_next st1 = n" by (simp add: 1 grown_def)
  have j: "new_ids (ts_next st) n + new_ids n k = new_ids (ts_next st) k"
    by (rule new_ids_join) (use 1 2 n in simp_all)
  have "mset (map fst (new @ new')) = new_ids (ts_next st) k"
    using 1(3) 2(3) j n by simp
  moreover have "mset (cs @ ds) + kids (new @ new') = new_ids (ts_next st) k"
    unfolding j [symmetric] using 1(4) 2(4) n by (simp add: union_ac flip: 1(4) 2(4))
  moreover have "st2 = grown st (new @ new') k" using 1(1) 2(1) by (simp add: grown_def)
  moreover have "ts_next st \<le> k" using 1(2) 2(2) n by simp
  moreover have "ranked (new @ new')" using 1(5) 2(5) by (simp add: ranked_append)
  ultimately show ?thesis by (intro nodes_specI [where new = "new @ new'" and n = k]) simp_all
qed

lemma nodes_spec_below: "ids_below st \<Longrightarrow> nodes_spec st (cs, st1) \<Longrightarrow> ids_below st1"
  by (auto simp: nodes_spec_def intro: ids_below_grown)

text \<open>Writing the element of a node once its children have been added.\<close>

lemma put_after_children:
  assumes below: "ids_below st" and kids: "nodes_spec (st\<lparr>ts_next := Suc (ts_next st)\<rparr>) (cs, st2)"
    and el: "re_children el = cs"
  shows "nodes_spec st ([node_id (Suc (ts_next st))], put_element (node_id (Suc (ts_next st))) el st2)"
proof -
  let ?m = "ts_next st" and ?x = "node_id (Suc (ts_next st))"
  obtain new n where st2: "st2 = grown (st\<lparr>ts_next := Suc ?m\<rparr>) new n" and n: "Suc ?m \<le> n"
      and k: "mset (map fst new) = new_ids (Suc ?m) n" and c: "mset cs + kids new = new_ids (Suc ?m) n"
      and r: "ranked new"
    using kids by (auto simp: nodes_spec_def)
  have "?x \<notin> fst ` set new" unfolding fst_new [OF k] by (simp add: image_iff)
  moreover have "?x \<notin> fst ` set (ts_elements st)"
  proof
    assume "?x \<in> fst ` set (ts_elements st)"
    with below have "?x \<in> node_id ` {..?m}" unfolding ids_below_def by blast
    then show False by auto
  qed
  ultimately have "?x \<notin> fst ` set (ts_elements st2)"
    unfolding st2 grown_def by (simp only: tree_state.simps set_append image_Un Un_iff) simp
  then have put: "put_element ?x el st2 = grown st (new @ [(?x, el)]) n"
    by (simp add: put_fresh) (simp add: st2 grown_def)
  have "mset (map fst (new @ [(?x, el)])) = new_ids ?m n"
    using k new_ids_Suc [OF n] by simp
  moreover have "mset [?x] + kids (new @ [(?x, el)]) = new_ids ?m n"
    using c new_ids_Suc [OF n] el by (simp add: add.commute)
  moreover have "?m \<le> n" using n by simp
  moreover have "ranked (new @ [(?x, el)])"
    using r children_new [OF c] el by (auto simp: ranked_append ranked_single newer_def)
  ultimately show ?thesis using put by (intro nodes_specI [where new = "new @ [(?x, el)]" and n = n]) simp_all
qed

lemma put_root_after_children:
  assumes below: "ids_below st" and root: "root_id \<notin> fst ` set (ts_elements st)"
    and kids: "nodes_spec st (cs, st2)" and el: "re_children el = cs"
  shows "node_spec (Some root_id) st (Some root_id, put_element root_id el st2)"
proof -
  obtain new n where st2: "st2 = grown st new n" and n: "ts_next st \<le> n"
      and k: "mset (map fst new) = new_ids (ts_next st) n"
      and c: "mset cs + kids new = new_ids (ts_next st) n" and r: "ranked new"
    using kids by (auto simp: nodes_spec_def)
  have "root_id \<notin> fst ` set new" unfolding fst_new [OF k] by (simp add: image_iff)
  with root have "root_id \<notin> fst ` set (ts_elements st2)"
    unfolding st2 grown_def by (simp only: tree_state.simps set_append image_Un Un_iff) simp
  then have put: "put_element root_id el st2 = grown st (new @ [(root_id, el)]) n"
    by (simp add: put_fresh root_id_def proto_key_def) (simp add: st2 grown_def)
  have "ranked (new @ [(root_id, el)])"
    using r children_new [OF c] el by (auto simp: ranked_append ranked_single newer_def)
  then show ?thesis
    using put n k c el by (intro node_spec_someI [where new = "new @ [(root_id, el)]" and n = n]) (simp_all add: add.commute)
qed

definition id_free :: "jstr option \<Rightarrow> tree_state \<Rightarrow> bool" where
  "id_free i st \<longleftrightarrow> (case i of None \<Rightarrow> True
     | Some x \<Rightarrow> x = root_id \<and> root_id \<notin> fst ` set (ts_elements st))"

text \<open>The node of an id, given or fresh, once its children have been added.\<close>

lemma put_node:
  assumes "ids_below st" and "id_free i st" and "fresh_id i st = (n, st1)"
    and "nodes_spec st1 (cs, st2)" and "re_children el = cs"
  shows "node_spec i st (Some n, put_element n el st2)"
proof (cases i)
  case None
  with assms show ?thesis
    using put_after_children [of st cs st2 el] by (auto simp: node_spec_def fresh_id_def)
next
  case (Some x)
  with assms have "x = root_id" "root_id \<notin> fst ` set (ts_elements st)" "n = root_id" "st1 = st"
    by (auto simp: id_free_def fresh_id_def)
  with assms Some show ?thesis using put_root_after_children [of st cs st2 el] by simp
qed

lemma node_spec_skip: "node_spec i st (None, st)"
  by (cases i) (simp_all add: node_spec_def nodes_spec_refl)

lemma fresh_below: "ids_below st \<Longrightarrow> fresh_id i st = (n, st1) \<Longrightarrow> ids_below st1"
  by (auto simp: fresh_id_def ids_below_next split: option.splits)

lemma add_node_spec:
  "ids_below st \<Longrightarrow> id_free i st \<Longrightarrow> node_spec i st (add_node node i st)"
  "ids_below st \<Longrightarrow> nodes_spec st (add_nodes vs st)"
proof (induction node i st and vs st rule: add_node_add_nodes.induct)
  case (1 node i st)
  obtain n st1 where f: "fresh_id i st = (n, st1)" by (cases "fresh_id i st")
  note below = fresh_below [OF "1.prems"(1) f]
  show ?case
  proof (cases node)
    case (JStr s)
    then show ?thesis
      using put_node [OF "1.prems" f nodes_spec_refl, of "text_element s"]
      by (simp add: add_node_str f text_element_def)
  next
    case (JObj ob)
    show ?thesis
    proof (cases "tree_type ob = []")
      case True
      then show ?thesis by (simp add: JObj add_node_obj node_spec_skip)
    next
      case False
      obtain cs st2 where c: "(case obj_get ob (js ''children'') of
          JStr s \<Rightarrow> add_nodes [JStr s] st1 | JArr vs \<Rightarrow> add_nodes vs st1 | _ \<Rightarrow> ([], st1)) = (cs, st2)"
        by (metis surj_pair)
      have sp: "nodes_spec st1 (cs, st2)"
        using c "1.IH" [OF JObj False refl refl f [symmetric] refl] below nodes_spec_refl
        by (auto split: jsval.splits)
      let ?ty = "normalizeReportComponentType (tree_type ob) (extractTreeProps ob)"
      let ?el = "\<lparr>re_type = ?ty, re_props = normalizeReportProps ?ty (JObj (extractTreeProps ob)),
        re_children = cs\<rparr>"
      have "node_spec i st (Some n, put_element n ?el st2)"
        by (rule put_node [OF "1.prems" f sp]) simp
      moreover have "add_node node i st = (Some n, put_element n ?el st2)"
        using False f c by (simp add: JObj add_node_obj Let_def)
      ultimately show ?thesis by simp
    qed
  qed (simp_all add: add_node.simps node_spec_skip)
next
  case (2 st)
  show ?case by (simp add: nodes_spec_refl)
next
  case (3 v vs st)
  obtain c st1 where a: "add_node v None st = (c, st1)" by (cases "add_node v None st")
  obtain cs st2 where b: "add_nodes vs st1 = (cs, st2)" by (cases "add_nodes vs st1")
  have 1: "nodes_spec st (case c of None \<Rightarrow> [] | Some n \<Rightarrow> [n], st1)"
    using "3.IH"(1) "3.prems" a by (simp add: node_spec_def id_free_def)
  have 2: "nodes_spec st1 (cs, st2)"
    using "3.IH"(2) [OF a [symmetric] refl] nodes_spec_below [OF "3.prems" 1] b by simp
  show ?case using nodes_spec_join [OF 1 2] a b by (cases c) simp_all
qed

section \<open>A tree that was flattened is a tree\<close>

inductive below_root :: "report_spec \<Rightarrow> jstr \<Rightarrow> bool" for spec where
  root_below: "below_root spec (rs_root spec)"
| child_below: "below_root spec i \<Longrightarrow> (i, el) \<in> set (rs_elements spec) \<Longrightarrow> c \<in> set (re_children el) \<Longrightarrow>
    below_root spec c"

definition listed_children :: "report_spec \<Rightarrow> jstr list" where
  "listed_children spec = concat (map (\<lambda>e. re_children (snd e)) (rs_elements spec))"

lemma tree_spec_shape:
  assumes "parseTreeSpec ob = Some spec"
  shows "rs_root spec = root_id \<and> (\<exists>n. mset (map fst (rs_elements spec)) = add_mset root_id (new_ids 0 n)
    \<and> mset (listed_children spec) = new_ids 0 n) \<and> ranked (rs_elements spec)"
proof -
  obtain r st where a: "add_node (JObj ob) (Some root_id) tree_start = (Some r, st)"
      and spec: "spec = \<lparr>rs_root = r, rs_elements = ts_elements st, rs_state = None\<rparr>"
    using assms by (auto simp: parseTreeSpec_def split: prod.splits option.splits if_splits)
  have "node_spec (Some root_id) tree_start (Some r, st)"
    unfolding a [symmetric] by (rule add_node_spec) (simp_all add: ids_below_def id_free_def tree_start_def)
  then obtain new n where "r = root_id" "st = grown tree_start new n"
      "mset (map fst new) = add_mset root_id (new_ids 0 n)" "kids new = new_ids 0 n" "ranked new"
    by (auto simp: node_spec_def tree_start_def)
  then show ?thesis
    unfolding spec listed_children_def
    by (auto simp: grown_def tree_start_def kids_def simp del: mset_map intro!: exI [of _ n])
qed

lemma distinct_new_ids: "mset xs = new_ids m n \<Longrightarrow> distinct xs"
proof -
  assume a: "mset xs = new_ids m n"
  have n: "new_ids m n = mset_set (node_id ` {m<..n})"
    by (simp add: new_ids_def image_mset_mset_set inj_on_def)
  have "set xs = node_id ` {m<..n}" using a by (metis set_mset_mset set_new_ids)
  then show "distinct xs" unfolding distinct_count_atmost_1 a n by (simp add: count_mset_set')
qed

lemma tree_below:
  assumes "parseTreeSpec ob = Some spec" and "i \<in> fst ` set (rs_elements spec)"
  shows "below_root spec i"
proof -
  note shape = tree_spec_shape [OF assms(1)]
  obtain n where ids: "mset (map fst (rs_elements spec)) = add_mset root_id (new_ids 0 n)"
      and ch: "mset (listed_children spec) = new_ids 0 n" using shape by blast
  have ch_set: "set (listed_children spec) = node_id ` {0<..n}"
    using arg_cong [OF ch, of set_mset] by (simp add: set_new_ids)
  have id_set: "fst ` set (rs_elements spec) = insert root_id (node_id ` {0<..n})"
    using arg_cong [OF ids, of set_mset] by (simp add: set_new_ids)
  have root: "below_root spec root_id" using root_below [of spec] shape by simp
  have "below_root spec (node_id j)" if "j \<in> {0<..n}" for j
    using that
  proof (induction j rule: less_induct)
    case (less j)
    then have "node_id j \<in> set (listed_children spec)" using ch_set by simp
    then obtain i el where el: "(i, el) \<in> set (rs_elements spec)" "node_id j \<in> set (re_children el)"
      by (auto simp: listed_children_def)
    then have newer: "newer i (node_id j)" using shape unfolding ranked_def by blast
    have "i \<in> insert root_id (node_id ` {0<..n})" using el(1) id_set by force
    then have "below_root spec i"
      using newer less.IH root by (auto simp: newer_def)
    then show ?case using el by (rule child_below)
  qed
  then show ?thesis using assms(2) id_set root by auto
qed

lemma tree_ids:
  assumes "parseTreeSpec ob = Some spec"
  shows "distinct (map fst (rs_elements spec))" and "distinct (listed_children spec)"
    and "set (listed_children spec) = fst ` set (rs_elements spec) - {root_id}"
proof -
  obtain n where ids: "mset (map fst (rs_elements spec)) = add_mset root_id (new_ids 0 n)"
      and ch: "mset (listed_children spec) = new_ids 0 n" using tree_spec_shape [OF assms] by blast
  show "distinct (listed_children spec)" by (rule distinct_new_ids [OF ch])
  have "mset (map fst (rs_elements spec)) = mset (root_id # listed_children spec)" using ids ch by simp
  then have "distinct (map fst (rs_elements spec)) = distinct (root_id # listed_children spec)"
    by (rule mset_eq_imp_distinct_iff)
  moreover have root: "root_id \<notin> set (listed_children spec)"
    using arg_cong [OF ch, of set_mset] by (auto simp: set_new_ids)
  ultimately show "distinct (map fst (rs_elements spec))" using distinct_new_ids [OF ch] by simp
  have "fst ` set (rs_elements spec) = insert root_id (set (listed_children spec))"
    using arg_cong [OF ids, of set_mset] arg_cong [OF ch, of set_mset] by simp
  then show "set (listed_children spec) = fst ` set (rs_elements spec) - {root_id}" using root by blast
qed

text \<open>
  C9. When a tree of nodes is read, the flat specification it becomes is a tree again: element ids
  are unique, the root is the element root, every listed child exists and is not the root, no
  element is listed twice, and every element is reached from the root.
\<close>

theorem parseTreeSpec_tree:
  assumes "parseTreeSpec ob = Some spec"
  shows "rs_root spec = js ''root'' \<and> distinct (map fst (rs_elements spec)) \<and>
    distinct (listed_children spec) \<and>
    set (listed_children spec) = fst ` set (rs_elements spec) - {js ''root''} \<and>
    (\<forall>i \<in> fst ` set (rs_elements spec). below_root spec i)"
  using tree_spec_shape [OF assms] tree_ids [OF assms] tree_below [OF assms]
  unfolding root_id_def by blast

definition sample_tree :: jsobj where
  "sample_tree = [(js ''type'', JStr (js ''Stack'')),
     (js ''children'', JArr [JStr (js ''Hi''), JObj [(js ''type'', JStr (js ''Text''))]])]"

lemma sample_tree_parses: "parseTreeSpec sample_tree \<noteq> None"
  by (simp add: parseTreeSpec_def sample_tree_def add_node_obj add_node_str add_node.simps tree_type_def obj_get_def
      fresh_id_def tree_start_def put_element_def element_present_def obj_set_def root_id_def
      proto_key_def node_id_def Let_def map_of_define)

theorem parseTreeSpec_tree_witness:
  "\<exists>spec. parseTreeSpec sample_tree = Some spec \<and> rs_root spec = js ''root'' \<and>
    distinct (map fst (rs_elements spec)) \<and> distinct (listed_children spec) \<and>
    set (listed_children spec) = fst ` set (rs_elements spec) - {js ''root''} \<and>
    list_all (below_root spec) (map fst (rs_elements spec))"
proof -
  obtain spec where "parseTreeSpec sample_tree = Some spec" using sample_tree_parses by blast
  then show ?thesis unfolding list_all_iff set_map using parseTreeSpec_tree by blast
qed

section \<open>Flat specifications that are accepted\<close>

lemma normalized_elements_keys:
  "normalized_elements els es = Some r \<Longrightarrow>
   fst ` set r \<subseteq> fst ` set els \<union> fst ` set es \<and> (distinct (map fst els) \<longrightarrow> distinct (map fst r))"
proof (induction els es rule: normalized_elements.induct)
  case (2 els i v rest)
  then obtain el where "normalized_element v = Some el"
      and r: "normalized_elements (obj_set els i el) rest = Some r"
    by (auto split: option.splits)
  from "2.IH" [OF this] have "fst ` set r \<subseteq> fst ` set (obj_set els i el) \<union> fst ` set rest"
      and "distinct (map fst (obj_set els i el)) \<longrightarrow> distinct (map fst r)" by simp_all
  moreover have "fst ` set (obj_set els i el) \<subseteq> insert i (fst ` set els)"
    by (auto simp: obj_set_def keys_define)
  ultimately show ?case using distinct_set [of els i el] by auto
qed simp

text \<open>
  A flat specification that is accepted has distinct element ids, all of them keys of its table
  of elements, and a root that is one of them or the name of a member that every object inherits:
  the second case is a specification without a root element.
\<close>

theorem flat_spec_root:
  assumes "parseNormalizedSpec ob = Some spec"
  shows "distinct (map fst (rs_elements spec)) \<and>
    (\<exists>raw. obj_get ob (js ''elements'') = JObj raw \<and> fst ` set (rs_elements spec) \<subseteq> fst ` set raw) \<and>
    obj_get ob (js ''root'') = JStr (rs_root spec) \<and>
    (rs_root spec \<in> fst ` set (rs_elements spec) \<or> rs_root spec \<in> set proto_names)"
proof -
  obtain raw rt els where ob: "obj_get ob (js ''elements'') = JObj raw" "obj_get ob (js ''root'') = JStr rt"
      and els: "normalized_elements [] (obj_entries raw) = Some els" and p: "element_present els rt"
      and spec: "rs_root spec = rt" "rs_elements spec = els"
    using assms by (auto simp: parseNormalizedSpec_def split: jsval.splits option.splits if_splits)
  have "rt \<in> fst ` set els \<or> rt \<in> set proto_names"
    using p by (auto simp: element_present_def dest!: map_of_SomeD intro: rev_image_eqI)
  then show ?thesis using ob normalized_elements_keys [OF els] spec by simp
qed

definition rootless_spec :: jsobj where
  "rootless_spec = [(js ''elements'', JObj []), (js ''root'', JStr (js ''constructor''))]"

lemma rootless_spec_parses:
  "parseNormalizedSpec rootless_spec
    = Some \<lparr>rs_root = js ''constructor'', rs_elements = [], rs_state = None\<rparr>"
  by (simp add: parseNormalizedSpec_def rootless_spec_def obj_get_def obj_entries_def element_present_def
      proto_names_def)

theorem flat_spec_root_witness:
  "rs_root \<lparr>rs_root = js ''constructor'', rs_elements = [], rs_state = None\<rparr> \<in> set proto_names"
  using flat_spec_root [OF rootless_spec_parses] by simp

end
