(* ===== verification/Uri.thy ===== *)
theory Uri
  imports JsPrelude
begin

text \<open>
  \<open>encodeURIComponent\<close>, \<open>decodeURIComponent\<close> and the serialisation of \<open>URLSearchParams\<close>, which the
  client uses for paths, cookies and query strings.  \<open>None\<close> is a thrown \<open>URIError\<close>.
\<close>

section \<open>Code points and UTF-8\<close>

definition is_high :: "nat \<Rightarrow> bool" where
  "is_high c \<longleftrightarrow> 55296 \<le> c \<and> c < 56320"

definition is_low :: "nat \<Rightarrow> bool" where
  "is_low c \<longleftrightarrow> 56320 \<le> c \<and> c < 57344"

fun code_points :: "jstr \<Rightarrow> nat list option" where
  "code_points [] = Some []"
| "code_points [c] = (if is_high c \<or> is_low c then None else Some [c])"
| "code_points (c # d # s) =
     (if is_low c then None
      else if is_high c then
        (if is_low d then map_option ((#) (65536 + (c - 55296) * 1024 + (d - 56320))) (code_points s) else None)
      else map_option ((#) c) (code_points (d # s)))"

text \<open>The code units of a code point.\<close>

definition units :: "nat \<Rightarrow> jstr" where
  "units cp = (if cp < 65536 then [cp] else [55296 + (cp - 65536) div 1024, 56320 + (cp - 65536) mod 1024])"

definition scalar :: "nat \<Rightarrow> bool" where
  "scalar cp \<longleftrightarrow> cp < 1114112 \<and> \<not> is_high cp \<and> \<not> is_low cp"

definition utf8 :: "nat \<Rightarrow> nat list" where
  "utf8 cp =
     (if cp < 128 then [cp]
      else if cp < 2048 then [192 + cp div 64, 128 + cp mod 64]
      else if cp < 65536 then [224 + cp div 4096, 128 + cp div 64 mod 64, 128 + cp mod 64]
      else [240 + cp div 262144, 128 + cp div 4096 mod 64, 128 + cp div 64 mod 64, 128 + cp mod 64])"

section \<open>Encoding\<close>

definition is_alnum :: "nat \<Rightarrow> bool" where
  "is_alnum c \<longleftrightarrow> is_digit c \<or> 65 \<le> c \<and> c \<le> 90 \<or> 97 \<le> c \<and> c \<le> 122"

text \<open>Letters, digits and \<open>- _ . ! ~ * ' ( )\<close>.\<close>

definition unreserved :: "nat \<Rightarrow> bool" where
  "unreserved c \<longleftrightarrow> is_alnum c \<or> c \<in> {45, 95, 46, 33, 126, 42, 39, 40, 41}"

definition hex_upper :: "nat \<Rightarrow> nat" where
  "hex_upper n = (if n < 10 then 48 + n else 55 + n)"

definition percent :: "nat \<Rightarrow> jstr" where
  "percent b = [37, hex_upper (b div 16), hex_upper (b mod 16)]"

definition encode_point :: "nat \<Rightarrow> jstr" where
  "encode_point cp = (if unreserved cp then [cp] else concat (map percent (utf8 cp)))"

definition encodeURIComponent :: "jstr \<Rightarrow> jstr option" where
  "encodeURIComponent s = map_option (\<lambda>cps. concat (map encode_point cps)) (code_points s)"

section \<open>Decoding\<close>

definition pct_val :: "nat \<Rightarrow> nat option" where
  "pct_val c = (if is_digit c then Some (c - 48)
     else if 65 \<le> c \<and> c \<le> 70 then Some (c - 55)
     else if 97 \<le> c \<and> c \<le> 102 then Some (c - 87) else None)"

fun hex_byte :: "jstr \<Rightarrow> (nat \<times> jstr) option" where
  "hex_byte (p # a # b # s) =
     (if p = 37 then (case pct_val a of None \<Rightarrow> None
        | Some x \<Rightarrow> (case pct_val b of None \<Rightarrow> None | Some y \<Rightarrow> Some (16 * x + y, s)))
      else None)"
| "hex_byte _ = None"

text \<open>\<open>k\<close> further bytes of a sequence.\<close>

fun trail :: "nat \<Rightarrow> nat \<Rightarrow> jstr \<Rightarrow> (nat \<times> jstr) option" where
  "trail 0 acc s = Some (acc, s)"
| "trail (Suc k) acc s = (case hex_byte s of None \<Rightarrow> None
     | Some (b, s') \<Rightarrow> if 128 \<le> b \<and> b < 192 then trail k (64 * acc + (b - 128)) s' else None)"

definition in_range :: "nat \<Rightarrow> nat \<Rightarrow> (nat \<times> jstr) option \<Rightarrow> (nat \<times> jstr) option" where
  "in_range lo hi r = (case r of None \<Rightarrow> None
     | Some (cp, s) \<Rightarrow> if lo \<le> cp \<and> cp < hi \<and> scalar cp then Some (cp, s) else None)"

definition decode_point :: "jstr \<Rightarrow> (nat \<times> jstr) option" where
  "decode_point s = (case hex_byte s of None \<Rightarrow> None
     | Some (b, s') \<Rightarrow>
         if b < 128 then Some (b, s')
         else if b < 192 then None
         else if b < 224 then in_range 128 2048 (trail 1 (b - 192) s')
         else if b < 240 then in_range 2048 65536 (trail 2 (b - 224) s')
         else if b < 248 then in_range 65536 1114112 (trail 3 (b - 240) s')
         else None)"

lemma hex_byte_shorter: "hex_byte s = Some (b, s') \<Longrightarrow> length s' < length s"
  by (induction s rule: hex_byte.induct) (auto split: if_splits option.splits)

lemma trail_shorter: "trail k acc s = Some (cp, s') \<Longrightarrow> length s' \<le> length s"
  by (induction k acc s rule: trail.induct)
     (fastforce split: option.splits if_splits dest!: hex_byte_shorter)+

lemma decode_point_shorter: "decode_point s = Some (cp, s') \<Longrightarrow> length s' < length s"
  by (auto simp: decode_point_def in_range_def split: option.splits if_splits
      dest!: hex_byte_shorter trail_shorter)

function decodeURIComponent :: "jstr \<Rightarrow> jstr option" where
  "decodeURIComponent s = (case s of
     [] \<Rightarrow> Some []
   | c # t \<Rightarrow>
       if c \<noteq> 37 then map_option ((#) c) (decodeURIComponent t)
       else (case decode_point s of
          None \<Rightarrow> None
        | Some (cp, s') \<Rightarrow> map_option ((@) (units cp)) (decodeURIComponent s')))"
  by pat_completeness auto
termination
  by (relation "measure length") (use decode_point_shorter in fastforce)+

declare decodeURIComponent.simps [simp del]

section \<open>Query strings\<close>

text \<open>A lone surrogate becomes the replacement character.\<close>

fun scalar_values :: "jstr \<Rightarrow> nat list" where
  "scalar_values [] = []"
| "scalar_values [c] = [if is_high c \<or> is_low c then 65533 else c]"
| "scalar_values (c # d # s) =
     (if is_high c \<and> is_low d then (65536 + (c - 55296) * 1024 + (d - 56320)) # scalar_values s
      else (if is_high c \<or> is_low c then 65533 else c) # scalar_values (d # s))"

definition form_byte :: "nat \<Rightarrow> jstr" where
  "form_byte b = (if b = 32 then [43] else if is_alnum b \<or> b \<in> {42, 45, 46, 95} then [b] else percent b)"

definition form_encode :: "jstr \<Rightarrow> jstr" where
  "form_encode s = concat (map form_byte (concat (map utf8 (scalar_values s))))"

definition query_string :: "(jstr \<times> jstr) list \<Rightarrow> jstr" where
  "query_string ps = join [38] (map (\<lambda>(k, v). form_encode k @ [61] @ form_encode v) ps)"

section \<open>An encoded component is decoded to itself\<close>

lemma units_scalar: "list_all (\<lambda>c. c < 65536) s \<Longrightarrow> code_points s = Some cps \<Longrightarrow> concat (map units cps) = s"
proof (induction s arbitrary: cps rule: code_points.induct)
  case (3 c d s)
  show ?case
  proof (cases "is_high c")
    case True
    then obtain r where r: "code_points s = Some r" and d: "is_low d"
        and cps: "cps = (65536 + (c - 55296) * 1024 + (d - 56320)) # r"
      using "3.prems" by (auto split: if_splits)
    obtain x y where xy: "c = 55296 + x" "x < 1024" "d = 56320 + y" "y < 1024"
      using True d by (auto simp: is_high_def is_low_def dest!: le_Suc_ex)
    have "units (65536 + (c - 55296) * 1024 + (d - 56320)) = [c, d]"
      by (simp add: units_def xy)
    then show ?thesis using 3 True d r cps by (simp add: is_high_def is_low_def)
  next
    case False
    then show ?thesis using 3 by (auto simp: units_def split: if_splits)
  qed
qed (auto simp: units_def split: if_splits)

lemma code_points_scalar:
  "list_all (\<lambda>c. c < 65536) s \<Longrightarrow> code_points s = Some cps \<Longrightarrow> list_all scalar cps"
proof (induction s arbitrary: cps rule: code_points.induct)
  case (3 c d s)
  show ?case
  proof (cases "is_high c")
    case True
    then obtain r where r: "code_points s = Some r" and d: "is_low d"
        and cps: "cps = (65536 + (c - 55296) * 1024 + (d - 56320)) # r"
      using "3.prems" by (auto split: if_splits)
    obtain x y where "c = 55296 + x" "x < 1024" "d = 56320 + y" "y < 1024"
      using True d by (auto simp: is_high_def is_low_def dest!: le_Suc_ex)
    then have "scalar (65536 + (c - 55296) * 1024 + (d - 56320))"
      by (simp add: scalar_def is_high_def is_low_def)
    then show ?thesis using 3 True d r cps by (simp add: is_high_def is_low_def)
  next
    case False
    then show ?thesis using 3 by (auto simp: scalar_def split: if_splits)
  qed
qed (auto simp: scalar_def split: if_splits)

lemma hex_val_digit: "n < 16 \<Longrightarrow> pct_val (hex_upper n) = Some n"
  by (auto simp: pct_val_def hex_upper_def is_digit_def)

lemma hex_byte_percent: "b < 256 \<Longrightarrow> hex_byte (percent b @ s) = Some (b, s)"
  by (simp add: percent_def hex_val_digit)

lemma trail_percent:
  "c < 64 \<Longrightarrow> trail (Suc k) acc (percent (128 + c) @ s) = trail k (64 * acc + c) s"
  by (simp add: hex_byte_percent)

declare trail.simps(2) [simp del]

lemma div_64_64: "(cp::nat) div 4096 = cp div 64 div 64" "cp div 262144 = cp div 64 div 64 div 64"
  by (simp_all add: div_mult2_eq [symmetric])

lemma join_64: "64 * (n div 64) + n mod (64::nat) = n"
  by simp

lemma decode_utf8:
  assumes "scalar cp"
  shows "decode_point (concat (map percent (utf8 cp)) @ s) = Some (cp, s)"
proof -
  have cp: "cp < 1114112" using assms by (simp add: scalar_def)
  consider "cp < 128" | "128 \<le> cp" "cp < 2048" | "2048 \<le> cp" "cp < 65536" | "65536 \<le> cp" by linarith
  then show ?thesis
  proof cases
    case 1
    then show ?thesis by (simp add: utf8_def decode_point_def hex_byte_percent)
  next
    case 2
    then have b: "192 + cp div 64 < 224" by (simp add: div_less_iff_less_mult)
    show ?thesis using 2 b assms
      by (simp add: utf8_def decode_point_def hex_byte_percent numeral_eq_Suc [of Num.One]
          trail_percent [where k = 0, simplified] join_64 in_range_def)
  next
    case 3
    then have b: "224 + cp div 4096 < 240" by (simp add: div_less_iff_less_mult)
    show ?thesis using 3 b assms
      by (simp add: utf8_def decode_point_def hex_byte_percent numeral_2_eq_2 trail_percent
          div_64_64 join_64 in_range_def)
  next
    case 4
    then have b: "240 + cp div 262144 < 248" using cp by (simp add: div_less_iff_less_mult)
    show ?thesis using 4 b assms cp
      by (simp add: utf8_def decode_point_def hex_byte_percent numeral_3_eq_3 trail_percent
          div_64_64 join_64 in_range_def)
  qed
qed

lemma decode_encode_point:
  assumes "scalar cp"
  shows "decodeURIComponent (encode_point cp @ s) = map_option ((@) (units cp)) (decodeURIComponent s)"
proof (cases "unreserved cp")
  case True
  then have "cp \<noteq> 37" "cp < 65536" by (auto simp: unreserved_def is_alnum_def is_digit_def)
  then show ?thesis
    using True by (subst decodeURIComponent.simps) (simp add: encode_point_def units_def, cases "decodeURIComponent s", auto)
next
  case False
  then have e: "encode_point cp = concat (map percent (utf8 cp))" by (simp add: encode_point_def)
  have "\<exists>r. encode_point cp = 37 # r" unfolding e by (simp add: utf8_def percent_def)
  then obtain r where r: "encode_point cp = 37 # r" by blast
  have "decode_point (37 # r @ s) = Some (cp, s)"
    using decode_utf8 [OF assms, of s] unfolding e [symmetric] r by simp
  then show ?thesis by (subst decodeURIComponent.simps) (simp add: r)
qed

lemma decode_encode:
  assumes "list_all (\<lambda>c. c < 65536) s" and "encodeURIComponent s = Some e"
  shows "decodeURIComponent e = Some s"
proof -
  obtain cps where cps: "code_points s = Some cps" and e: "e = concat (map encode_point cps)"
    using assms(2) by (auto simp: encodeURIComponent_def)
  have "list_all scalar cps" by (rule code_points_scalar [OF assms(1) cps])
  then have "decodeURIComponent (concat (map encode_point cps)) = Some (concat (map units cps))"
  proof (induction cps)
    case Nil
    show ?case by (subst decodeURIComponent.simps) simp
  next
    case (Cons cp cps)
    then show ?case using decode_encode_point [of cp "concat (map encode_point cps)"] by simp
  qed
  then show ?thesis using units_scalar [OF assms(1) cps] e by simp
qed

lemma percent_chars: "b < 256 \<Longrightarrow> c \<in> set (percent b) \<Longrightarrow> c = 37 \<or> is_alnum c"
proof -
  have "n < 16 \<Longrightarrow> is_alnum (hex_upper n)" for n by (auto simp: hex_upper_def is_alnum_def is_digit_def)
  moreover assume "b < 256" "c \<in> set (percent b)"
  moreover have "b div 16 < 16" if "b < 256" using that by (simp add: div_less_iff_less_mult)
  ultimately show ?thesis by (auto simp: percent_def)
qed

lemma utf8_bytes: "scalar cp \<Longrightarrow> b \<in> set (utf8 cp) \<Longrightarrow> b < 256"
  by (auto simp: utf8_def scalar_def div_less_iff_less_mult less_Suc_eq_le split: if_splits)

lemma encode_chars:
  assumes "list_all (\<lambda>c. c < 65536) s" and "encodeURIComponent s = Some e" and "c \<in> set e"
  shows "c = 37 \<or> unreserved c"
proof -
  obtain cps where cps: "code_points s = Some cps" and e: "e = concat (map encode_point cps)"
    using assms(2) by (auto simp: encodeURIComponent_def)
  have "list_all scalar cps" by (rule code_points_scalar [OF assms(1) cps])
  then obtain cp where "scalar cp" "c \<in> set (encode_point cp)"
    using assms(3) by (auto simp: e list_all_iff)
  then show ?thesis
    using percent_chars utf8_bytes by (fastforce simp: encode_point_def unreserved_def split: if_splits)
qed

end
