(* ===== verification/HtmlText.thy ===== *)
theory HtmlText
  imports Uri
begin

text \<open>
  The text functions of src/ui/web/src/lib/html-report-spec.ts: removing tags, decoding entities and
  finding elements.  Every regular expression there is deterministic - no match has two ways to go
  on - and is written as a function on the text; letters are compared without regard to case, as the
  flag \<open>i\<close> asks.
\<close>

section \<open>Matching\<close>

text \<open>The case folding of ASCII and of the Vietnamese letters that the expressions name.\<close>

definition fold_unit :: "nat \<Rightarrow> nat" where
  "fold_unit c = (if 65 \<le> c \<and> c \<le> 90 then c + 32
     else (case map_of [(272, 273), (7900, 7901), (7842, 7843), (194, 226), (7890, 7891), (416, 417)] c of
         Some d \<Rightarrow> d | None \<Rightarrow> c))"

text \<open>\<open>strip_ci p s\<close>: what follows the literal \<open>p\<close>, given in small letters, at the start of \<open>s\<close>.\<close>

definition strip_ci :: "jstr \<Rightarrow> jstr \<Rightarrow> jstr option" where
  "strip_ci p s = (if map fold_unit (take (length p) s) = p then Some (drop (length p) s) else None)"

fun find_ci :: "jstr \<Rightarrow> jstr \<Rightarrow> (jstr \<times> jstr) option" where
  "find_ci p [] = (case strip_ci p [] of Some r \<Rightarrow> Some ([], r) | None \<Rightarrow> None)"
| "find_ci p (c # s) = (case strip_ci p (c # s) of
     Some r \<Rightarrow> Some ([], r)
   | None \<Rightarrow> (case find_ci p s of Some (a, r) \<Rightarrow> Some (c # a, r) | None \<Rightarrow> None))"

definition test_ci :: "jstr list \<Rightarrow> jstr \<Rightarrow> bool" where
  "test_ci ps s \<longleftrightarrow> (\<exists>p \<in> set ps. find_ci p s \<noteq> None)"

text \<open>The first of several literals, in their order.\<close>

fun strip_any :: "jstr list \<Rightarrow> jstr \<Rightarrow> (jstr \<times> jstr) option" where
  "strip_any [] s = None"
| "strip_any (p # ps) s = (case strip_ci p s of Some r \<Rightarrow> Some (p, r) | None \<Rightarrow> strip_any ps s)"

definition is_word :: "nat \<Rightarrow> bool" where
  "is_word c \<longleftrightarrow> (65 \<le> c \<and> c \<le> 90) \<or> (97 \<le> c \<and> c \<le> 122) \<or> is_digit c \<or> c = 95"

text \<open>\<open>\b\<close> after a word character.\<close>

definition at_boundary :: "jstr \<Rightarrow> bool" where
  "at_boundary s \<longleftrightarrow> (case s of [] \<Rightarrow> True | c # _ \<Rightarrow> \<not> is_word c)"

text \<open>\<open>s.replace(re, f)\<close> with the flag \<open>g\<close>: \<open>m\<close> gives the replacement of a match at the start and what follows it.\<close>

function replace_all :: "(jstr \<Rightarrow> (jstr \<times> jstr) option) \<Rightarrow> jstr \<Rightarrow> jstr" where
  "replace_all m s = (case s of
     [] \<Rightarrow> []
   | c # t \<Rightarrow> (case m s of
       Some (u, r) \<Rightarrow> if length r < length s then u @ replace_all m r else c # replace_all m t
     | None \<Rightarrow> c # replace_all m t))"
  by pat_completeness auto
termination
  by (relation "measure (\<lambda>(m, s). length s)") auto

declare replace_all.simps [simp del]

definition replace_ci :: "jstr \<Rightarrow> jstr \<Rightarrow> jstr \<Rightarrow> jstr" where
  "replace_ci p u = replace_all (\<lambda>s. map_option (Pair u) (strip_ci p s))"

section \<open>Tags\<close>

definition br_tag :: "jstr \<Rightarrow> (jstr \<times> jstr) option" where
  "br_tag s = (case strip_ci (js ''<br'') s of
     None \<Rightarrow> None
   | Some r \<Rightarrow>
       let r1 = dropWhile is_ws r; r2 = (if r1 \<noteq> [] \<and> hd r1 = 47 then tl r1 else r1)
       in if r2 \<noteq> [] \<and> hd r2 = 62 then Some ([10], tl r2) else None)"

definition line_tags :: "jstr list" where
  "line_tags = [js ''p'', js ''div'', js ''section'', js ''article'', js ''header'', js ''footer'', js ''h1'',
     js ''h2'', js ''h3'', js ''h4'', js ''h5'', js ''h6'', js ''li'', js ''tr'', js ''table'', js ''dl'', js ''dt'', js ''dd'']"

definition close_tag :: "jstr \<Rightarrow> (jstr \<times> jstr) option" where
  "close_tag s = map_option (\<lambda>(_, r). ([10], r)) (strip_any (map (\<lambda>t. js ''</'' @ t @ js ''>'') line_tags) s)"

definition any_tag :: "jstr \<Rightarrow> (jstr \<times> jstr) option" where
  "any_tag s = (case s of
     [] \<Rightarrow> None
   | c # r \<Rightarrow>
       if c = 60 \<and> takeWhile (\<lambda>c. c \<noteq> 62) r \<noteq> [] then
         (case dropWhile (\<lambda>c. c \<noteq> 62) r of [] \<Rightarrow> None | _ # t \<Rightarrow> Some ([], t))
       else None)"

text \<open>\<open>/<style[\s\S]*?<\/style>/gi\<close>.\<close>

definition unsafe_block :: "jstr \<Rightarrow> jstr \<Rightarrow> (jstr \<times> jstr) option" where
  "unsafe_block name s = (case strip_ci (js ''<'' @ name) s of
     None \<Rightarrow> None
   | Some r \<Rightarrow> map_option (\<lambda>(_, t). ([], t)) (find_ci (js ''</'' @ name @ js ''>'') r))"

definition stripUnsafeBlocks :: "jstr \<Rightarrow> jstr" where
  "stripUnsafeBlocks html =
     replace_all (unsafe_block (js ''script'')) (replace_all (unsafe_block (js ''style'')) html)"

definition strip_tags :: "jstr \<Rightarrow> jstr" where
  "strip_tags html = replace_all any_tag html"

definition break_lines :: "jstr \<Rightarrow> jstr" where
  "break_lines html = strip_tags (replace_all close_tag (replace_all br_tag html))"

section \<open>Entities\<close>

definition entity_names :: "(jstr \<times> nat) list" where
  "entity_names = [(js ''&nbsp;'', 32), (js ''&amp;'', 38), (js ''&lt;'', 60), (js ''&gt;'', 62), (js ''&quot;'', 34), (js ''&#39;'', 39)]"

text \<open>\<open>&#(\d+);\<close> and \<open>&#x([a-f0-9]+);\<close>: the number and what follows.\<close>

definition decimal_code :: "jstr \<Rightarrow> (nat \<times> jstr) option" where
  "decimal_code s = (case strip_ci (js ''&#'') s of
     None \<Rightarrow> None
   | Some r \<Rightarrow>
       let ds = takeWhile is_digit r; t = dropWhile is_digit r
       in if ds \<noteq> [] \<and> t \<noteq> [] \<and> hd t = 59 then Some (digits_val ds, tl t) else None)"

definition hex_code :: "jstr \<Rightarrow> (nat \<times> jstr) option" where
  "hex_code s = (case strip_ci (js ''&#x'') s of
     None \<Rightarrow> None
   | Some r \<Rightarrow>
       let ds = takeWhile (\<lambda>c. pct_val c \<noteq> None) r; t = dropWhile (\<lambda>c. pct_val c \<noteq> None) r
       in if ds \<noteq> [] \<and> t \<noteq> [] \<and> hd t = 59
          then Some (foldl (\<lambda>n c. 16 * n + the (pct_val c)) 0 ds, tl t) else None)"

text \<open>\<open>String.fromCodePoint\<close> throws beyond the last code point: \<open>None\<close>.\<close>

function replace_codes :: "(jstr \<Rightarrow> (nat \<times> jstr) option) \<Rightarrow> jstr \<Rightarrow> jstr option" where
  "replace_codes m s = (case s of
     [] \<Rightarrow> Some []
   | c # t \<Rightarrow> (case m s of
       Some (n, r) \<Rightarrow> if length r < length s
           then if 1114111 < n then None else map_option ((@) (units n)) (replace_codes m r)
           else map_option ((#) c) (replace_codes m t)
     | None \<Rightarrow> map_option ((#) c) (replace_codes m t)))"
  by pat_completeness auto
termination
  by (relation "measure (\<lambda>(m, s). length s)") auto

declare replace_codes.simps [simp del]

definition decodeHtmlEntities :: "jstr \<Rightarrow> jstr option" where
  "decodeHtmlEntities s =
     Option.bind (replace_codes decimal_code (foldl (\<lambda>t (name, c). replace_ci name [c] t) s entity_names))
       (replace_codes hex_code)"

section \<open>Lines\<close>

text \<open>\<open>line.replace(/\s+/g, " ").trim()\<close>.\<close>

definition collapse :: "jstr \<Rightarrow> jstr" where
  "collapse line = trim (join [32] (split_ws line))"

definition text_lines :: "jstr \<Rightarrow> jstr list" where
  "text_lines s = filter (\<lambda>l. l \<noteq> []) (map collapse (split_char 10 s))"

definition htmlToTextLines :: "jstr \<Rightarrow> jstr list option" where
  "htmlToTextLines html = map_option text_lines (decodeHtmlEntities (break_lines (stripUnsafeBlocks html)))"

definition cleanInlineHtml :: "jstr \<Rightarrow> jstr option" where
  "cleanInlineHtml html = map_option (\<lambda>s. join [32] (text_lines s)) (decodeHtmlEntities (break_lines html))"

definition cleanCodeHtml :: "jstr \<Rightarrow> jstr option" where
  "cleanCodeHtml html = map_option trim (decodeHtmlEntities (strip_tags html))"

section \<open>Elements\<close>

text \<open>\<open>/<(names)\b[^>]*>([\s\S]*?)<\/\1>/gi\<close> at the start of a text: the name, the body and what follows.\<close>

fun open_name :: "jstr list \<Rightarrow> jstr \<Rightarrow> (jstr \<times> jstr) option" where
  "open_name [] s = None"
| "open_name (n # ns) s = (case strip_ci (js ''<'' @ n) s of
     Some r \<Rightarrow> if at_boundary r then Some (n, r) else open_name ns s
   | None \<Rightarrow> open_name ns s)"

definition element_at :: "jstr list \<Rightarrow> jstr \<Rightarrow> (jstr \<times> jstr \<times> jstr) option" where
  "element_at names s = (case open_name names s of
     None \<Rightarrow> None
   | Some (n, r) \<Rightarrow> (case dropWhile (\<lambda>c. c \<noteq> 62) r of
       [] \<Rightarrow> None
     | _ # body \<Rightarrow> map_option (\<lambda>(b, t). (n, b, t)) (find_ci (js ''</'' @ n @ js ''>'') body)))"

text \<open>All matches, each with its name and body.\<close>

function elements_of :: "jstr list \<Rightarrow> jstr \<Rightarrow> (jstr \<times> jstr) list" where
  "elements_of names s = (case s of
     [] \<Rightarrow> []
   | c # t \<Rightarrow> (case element_at names s of
       Some (n, b, r) \<Rightarrow> if length r < length s then (n, b) # elements_of names r else elements_of names t
     | None \<Rightarrow> elements_of names t))"
  by pat_completeness auto
termination
  by (relation "measure (\<lambda>(ns, s). length s)") auto

declare elements_of.simps [simp del]

section \<open>The characters that come through\<close>

text \<open>Only these three characters start a match in the expressions for tags and entities.\<close>

lemma fold_unit_mark: "x \<in> {35, 38, 60} \<Longrightarrow> fold_unit c = x \<longleftrightarrow> c = x"
  by (auto simp: fold_unit_def split: if_splits option.splits)

lemma strip_ci_mark:
  assumes "strip_ci p s = Some r" and "x \<in> set p" and "x \<in> {35, 38, 60}"
  shows "x \<in> set s"
proof -
  have "map fold_unit (take (length p) s) = p"
    using assms(1) by (simp add: strip_ci_def split: if_splits)
  then have "x \<in> fold_unit ` set (take (length p) s)"
    using assms(2) by (metis set_map)
  then obtain c where "c \<in> set (take (length p) s)" and "x = fold_unit c"
    by (elim imageE)
  then show ?thesis
    using fold_unit_mark [OF assms(3), of c] in_set_takeD by metis
qed

lemma strip_ci_set: "strip_ci p s = Some r \<Longrightarrow> set r \<subseteq> set s"
  by (auto simp: strip_ci_def dest: in_set_dropD split: if_splits)

lemma find_ci_set: "find_ci p s = Some (a, r) \<Longrightarrow> set a \<subseteq> set s \<and> set r \<subseteq> set s"
proof (induction s arbitrary: a)
  case (Cons c s)
  show ?case
  proof (cases "strip_ci p (c # s)")
    case (Some t)
    then show ?thesis using Cons.prems strip_ci_set [OF Some] by auto
  next
    case None
    then show ?thesis using Cons by (auto split: option.splits)
  qed
qed (auto dest: strip_ci_set split: option.splits)

lemma replace_all_set:
  assumes "\<And>t u r. m t = Some (u, r) \<Longrightarrow> set u \<subseteq> A \<and> set r \<subseteq> set t"
  shows "set (replace_all m s) \<subseteq> set s \<union> A"
proof (induction "length s" arbitrary: s rule: less_induct)
  case less
  show ?case
  proof (cases s)
    case (Cons c t)
    show ?thesis
    proof (cases "m s")
      case None
      then show ?thesis using less [of t] Cons by (subst replace_all.simps) auto
    next
      case (Some x)
      obtain u r where m: "m s = Some (u, r)" using Some by (cases x) auto
      show ?thesis using less [of t] less [of r] assms [OF m] m Cons by (subst replace_all.simps) auto
    qed
  qed (simp add: replace_all.simps)
qed

text \<open>No match, no change.\<close>

lemma replace_all_id: "(\<And>t. set t \<subseteq> set s \<Longrightarrow> m t = None) \<Longrightarrow> replace_all m s = s"
proof (induction s)
  case (Cons c s)
  have "replace_all m s = s" by (rule Cons.IH) (use Cons.prems in auto)
  then show ?case using Cons.prems [of "c # s"] by (subst replace_all.simps) simp
qed (simp add: replace_all.simps)

lemma replace_codes_id: "(\<And>t. set t \<subseteq> set s \<Longrightarrow> m t = None) \<Longrightarrow> replace_codes m s = Some s"
proof (induction s)
  case (Cons c s)
  have "replace_codes m s = Some s" by (rule Cons.IH) (use Cons.prems in auto)
  then show ?case using Cons.prems [of "c # s"] by (subst replace_codes.simps) simp
qed (simp add: replace_codes.simps)

lemma elements_of_none: "(\<And>t. set t \<subseteq> set s \<Longrightarrow> element_at names t = None) \<Longrightarrow> elements_of names s = []"
proof (induction s)
  case (Cons c s)
  have "elements_of names s = []" by (rule Cons.IH) (use Cons.prems in auto)
  then show ?case using Cons.prems [of "c # s"] by (subst elements_of.simps) simp
qed (simp add: elements_of.simps)

section \<open>What each expression keeps\<close>

lemma strip_any_set: "strip_any ps s = Some (p, r) \<Longrightarrow> set r \<subseteq> set s"
  by (induction ps) (auto split: option.splits dest: strip_ci_set)

lemma open_name_set: "open_name ns s = Some (n, r) \<Longrightarrow> set r \<subseteq> set s"
  by (induction ns) (auto split: option.splits if_splits dest: strip_ci_set)

lemma drop_unit_set: "set (if r \<noteq> [] \<and> hd r = c then tl r else r) \<subseteq> set r"
  by (cases r) auto

lemma br_tag_set: "br_tag s = Some (u, r) \<Longrightarrow> set u \<subseteq> {10} \<and> set r \<subseteq> set s"
proof -
  assume br: "br_tag s = Some (u, r)"
  then obtain t where t: "strip_ci (js ''<br'') s = Some t"
    by (auto simp: br_tag_def split: option.splits)
  let ?w = "dropWhile is_ws t"
  have "u = [10]" "r = tl (if ?w \<noteq> [] \<and> hd ?w = 47 then tl ?w else ?w)"
    using br unfolding br_tag_def t option.case Let_def by (auto split: if_splits)
  moreover have "set (tl xs) \<subseteq> set xs" for xs :: jstr by (cases xs) auto
  moreover have "set ?w \<subseteq> set t" using set_dropWhileD by fastforce
  ultimately show ?thesis
    using strip_ci_set [OF t] drop_unit_set [of ?w 47] by (metis empty_set list.simps(15) order_refl subset_trans)
qed

lemma close_tag_set: "close_tag s = Some (u, r) \<Longrightarrow> set u \<subseteq> {10} \<and> set r \<subseteq> set s"
  by (auto simp: close_tag_def dest!: strip_any_set)

lemma any_tag_set: "any_tag s = Some (u, r) \<Longrightarrow> set u \<subseteq> {} \<and> set r \<subseteq> set s"
proof -
  assume "any_tag s = Some (u, r)"
  then obtain c t d where "s = c # t" "u = []" "dropWhile (\<lambda>c. c \<noteq> 62) t = d # r"
    by (auto simp: any_tag_def split: list.splits if_splits)
  moreover from this have "set r \<subseteq> set t"
    by (metis insertCI list.simps(15) set_dropWhileD subsetI)
  ultimately show ?thesis by auto
qed

lemma unsafe_block_set: "unsafe_block n s = Some (u, r) \<Longrightarrow> set u \<subseteq> {} \<and> set r \<subseteq> set s"
  by (fastforce simp: unsafe_block_def split: option.splits dest: strip_ci_set find_ci_set)

lemma element_at_set: "element_at names s = Some (n, b, r) \<Longrightarrow> set b \<subseteq> set s \<and> set r \<subseteq> set s"
proof -
  assume "element_at names s = Some (n, b, r)"
  then obtain t d body where o: "open_name names s = Some (n, t)" and
    d: "dropWhile (\<lambda>c. c \<noteq> 62) t = d # body" and f: "find_ci (js ''</'' @ n @ js ''>'') body = Some (b, r)"
    by (auto simp: element_at_def split: option.splits list.splits)
  have "set body \<subseteq> set t" using d by (metis insertCI list.simps(15) set_dropWhileD subsetI)
  with open_name_set [OF o] find_ci_set [OF f] show ?thesis by auto
qed

lemma elements_of_set: "(n, b) \<in> set (elements_of names s) \<Longrightarrow> set b \<subseteq> set s"
proof (induction "length s" arbitrary: s rule: less_induct)
  case less
  show ?case
  proof (cases s)
    case Nil
    with less.prems show ?thesis by (simp add: elements_of.simps)
  next
    case (Cons c t)
    show ?thesis
    proof (cases "element_at names s")
      case None
      then show ?thesis using less Cons by (subst (asm) elements_of.simps) auto
    next
      case (Some x)
      obtain k d r where e: "element_at names s = Some (k, d, r)" using Some by (cases x) auto
      have "(n, b) \<in> set ((k, d) # elements_of names r) \<and> length r < length s \<or> (n, b) \<in> set (elements_of names t)"
        using less.prems Cons e by (subst (asm) elements_of.simps) (auto split: if_splits)
      then show ?thesis using less.hyps [of t] less.hyps [of r] element_at_set [OF e] Cons by auto
    qed
  qed
qed

text \<open>Texts without a \<open>#\<close>: no number can be out of range, and no removal or replacement brings a \<open>#\<close> in.\<close>

lemma decimal_code_none: "35 \<notin> set s \<Longrightarrow> decimal_code s = None"
  using strip_ci_mark [of "js ''&#''" s _ 35] by (auto simp: decimal_code_def split: option.splits)

lemma hex_code_none: "35 \<notin> set s \<Longrightarrow> hex_code s = None"
  using strip_ci_mark [of "js ''&#x''" s _ 35] by (auto simp: hex_code_def split: option.splits)

lemma replace_ci_set: "set (replace_ci p u s) \<subseteq> set s \<union> set u"
  unfolding replace_ci_def by (rule replace_all_set) (auto dest: strip_ci_set)

definition named :: "jstr \<Rightarrow> jstr" where
  "named s = foldl (\<lambda>t (name, c). replace_ci name [c] t) s entity_names"

lemma named_no_hash: "35 \<notin> set s \<Longrightarrow> 35 \<notin> set (named s)"
proof -
  have keep: "35 \<notin> set (replace_ci p [c] t)" if "35 \<notin> set t" "c \<noteq> 35" for p c t
    using replace_ci_set [of p "[c]" t] that by auto
  assume "35 \<notin> set s"
  then show ?thesis by (simp add: named_def entity_names_def keep)
qed

lemma decode_eq:
  assumes "35 \<notin> set s"
  shows "decodeHtmlEntities s = Some (named s)"
proof -
  have "replace_codes decimal_code t = Some t" "replace_codes hex_code t = Some t" if "35 \<notin> set t" for t
    by (rule replace_codes_id, rule decimal_code_none hex_code_none, use that in auto)+
  then show ?thesis using named_no_hash [OF assms] by (simp add: decodeHtmlEntities_def named_def)
qed

lemma break_lines_set: "set (break_lines s) \<subseteq> set s \<union> {10}"
proof -
  have "set (replace_all close_tag t) \<subseteq> set t \<union> {10}" "set (replace_all br_tag t) \<subseteq> set t \<union> {10}"
    "set (replace_all any_tag t) \<subseteq> set t \<union> {}" for t
    by (rule replace_all_set, blast dest: close_tag_set br_tag_set any_tag_set)+
  then show ?thesis unfolding break_lines_def strip_tags_def by blast
qed

lemma strip_tags_set: "set (strip_tags s) \<subseteq> set s \<union> {}"
  unfolding strip_tags_def by (rule replace_all_set) (rule any_tag_set)

lemma stripUnsafeBlocks_set: "set (stripUnsafeBlocks s) \<subseteq> set s"
proof -
  have "set (replace_all (unsafe_block n) t) \<subseteq> set t \<union> {}" for n t
    by (rule replace_all_set) (rule unsafe_block_set)
  then show ?thesis unfolding stripUnsafeBlocks_def by blast
qed

lemma break_lines_no_hash: "35 \<notin> set s \<Longrightarrow> 35 \<notin> set (break_lines s)"
  using break_lines_set [of s] by auto

lemma cleanInline_total: "35 \<notin> set s \<Longrightarrow> cleanInlineHtml s \<noteq> None"
  by (simp add: cleanInlineHtml_def decode_eq break_lines_no_hash)

lemma cleanCode_total:
  assumes "35 \<notin> set s"
  shows "cleanCodeHtml s \<noteq> None"
proof -
  have "35 \<notin> set (strip_tags s)" using assms strip_tags_set [of s] by auto
  then show ?thesis by (simp add: cleanCodeHtml_def decode_eq)
qed

lemma htmlToTextLines_total:
  assumes "35 \<notin> set s"
  shows "htmlToTextLines s \<noteq> None"
proof -
  have "35 \<notin> set (stripUnsafeBlocks s)" using assms stripUnsafeBlocks_set by blast
  then show ?thesis by (simp add: htmlToTextLines_def decode_eq break_lines_no_hash)
qed

text \<open>Texts without a \<open><\<close> or an \<open>&\<close> stay as they are.\<close>

lemma tag_none:
  assumes "60 \<notin> set s"
  shows "br_tag s = None" and "close_tag s = None" and "any_tag s = None" and "unsafe_block n s = None"
    and "element_at names s = None"
proof -
  have no: "strip_ci p s = None" if "60 \<in> set p" for p
    using strip_ci_mark [of p s _ 60] assms that by (cases "strip_ci p s") auto
  show "br_tag s = None" "unsafe_block n s = None" by (simp_all add: br_tag_def unsafe_block_def no)
  have "strip_any (map (\<lambda>t. js ''</'' @ t @ js ''>'') ts) s = None" for ts
    by (induction ts) (simp_all add: no)
  then show "close_tag s = None" unfolding close_tag_def by (simp only: option.map)
  show "any_tag s = None" using assms by (auto simp: any_tag_def split: list.splits)
  have "open_name names s = None" by (induction names) (simp_all add: no)
  then show "element_at names s = None" by (simp add: element_at_def)
qed

lemma untagged:
  assumes "60 \<notin> set s"
  shows "stripUnsafeBlocks s = s" and "break_lines s = s" and "elements_of names s = []"
proof -
  have sub: "60 \<notin> set t" if "set t \<subseteq> set s" for t :: jstr using assms that by auto
  have "replace_all (unsafe_block n) s = s" for n by (rule replace_all_id) (use sub tag_none(4) in blast)
  then show "stripUnsafeBlocks s = s" by (simp add: stripUnsafeBlocks_def)
  have "replace_all br_tag s = s" "replace_all close_tag s = s" "replace_all any_tag s = s"
    by (rule replace_all_id, use sub tag_none(1-3) in blast)+
  then show "break_lines s = s" by (simp add: break_lines_def strip_tags_def)
  show "elements_of names s = []" by (rule elements_of_none) (use sub tag_none(5) in blast)
qed

lemma entity_free:
  assumes "38 \<notin> set s"
  shows "decodeHtmlEntities s = Some s"
proof -
  have no: "strip_ci p t = None" if "38 \<in> set p" "set t \<subseteq> set s" for p t
    using strip_ci_mark [of p t _ 38] assms that by (cases "strip_ci p t") auto
  have id: "replace_ci p u s = s" if "38 \<in> set p" for p u
    unfolding replace_ci_def by (rule replace_all_id) (simp add: no that)
  have "replace_codes decimal_code s = Some s" "replace_codes hex_code s = Some s"
    by (rule replace_codes_id, simp add: decimal_code_def hex_code_def no)+
  then show ?thesis by (simp add: decodeHtmlEntities_def entity_names_def id)
qed

end
