(* ===== verification/HtmlReport.thy ===== *)
theory HtmlReport
  imports HtmlText ReportSpec
begin

text \<open>
  From HTML to a report, src/ui/web/src/lib/html-report-spec.ts: the summary card of a loan, when
  the text reads like one, and otherwise an element for every block.  The functions return \<open>None\<close>
  where the code throws, which is the case for a numeric entity beyond the last code point.

  \<open>strip_marks\<close> stands for \<open>label.normalize("NFD").replace(/\p{Diacritic}/gu, "")\<close>, which needs the
  character tables of Unicode.
\<close>

section \<open>Blocks\<close>

definition block_tags :: "jstr list" where
  "block_tags = [js ''h1'', js ''h2'', js ''h3'', js ''h4'', js ''h5'', js ''h6'', js ''p'', js ''li'',
     js ''blockquote'', js ''pre'', js ''table'']"

definition row_cells :: "jstr \<Rightarrow> jstr list option" where
  "row_cells body = those (map (cleanInlineHtml \<circ> snd) (elements_of [js ''th'', js ''td''] body))"

text \<open>\<open>/<th\b/i\<close>.\<close>

fun has_th :: "jstr \<Rightarrow> bool" where
  "has_th [] = False"
| "has_th (c # s) = (open_name [js ''th''] (c # s) \<noteq> None \<or> has_th s)"

definition column_name :: "nat \<Rightarrow> jstr" where
  "column_name index = js ''Column '' @ nat_str (index + 1)"

text \<open>The columns and the rows of a table.\<close>

definition parseHtmlTable :: "jstr \<Rightarrow> (jstr list \<times> jstr list list) option" where
  "parseHtmlTable html =
     (let rawRows = map snd (elements_of [js ''tr''] html)
      in map_option (\<lambda>cells.
           let rows = filter (\<lambda>row. \<exists>c \<in> set row. c \<noteq> []) cells
           in if rows = [] then ([], [])
              else
                let firstRowHasHeaders = (case rawRows of [] \<Rightarrow> False | r # _ \<Rightarrow> has_th r);
                    maxColumns = foldl max 0 (map length rows)
                in if firstRowHasHeaders then (hd rows, tl rows) else (map column_name [0..<maxColumns], rows))
         (those (map row_cells rawRows)))"

definition str_array :: "jstr list \<Rightarrow> jsval" where
  "str_array ss = JArr (map JStr ss)"

text \<open>The element of a block: its type and properties, or nothing where the block is empty.\<close>

definition text_props :: "jstr \<Rightarrow> jsobj" where
  "text_props content = [(js ''content'', JStr content)]"

definition block_element :: "jstr \<times> jstr \<Rightarrow> (jstr \<times> jsobj) option option" where
  "block_element m = (case m of (tag, body) \<Rightarrow>
     if hd tag = 104 then
       map_option (\<lambda>t. if t = [] then None
           else Some (js ''Heading'', [(js ''level'', JStr (tl tag)), (js ''text'', JStr t)])) (cleanInlineHtml body)
     else if tag = js ''pre'' then
       map_option (\<lambda>t. if t = [] then None else Some (js ''CodeBlock'', [(js ''code'', JStr t)])) (cleanCodeHtml body)
     else if tag = js ''table'' then
       map_option (\<lambda>(columns, rows). if rows = [] then None
           else Some (js ''Table'', [(js ''columns'', str_array columns), (js ''rows'', JArr (map str_array rows))]))
         (parseHtmlTable body)
     else if tag = js ''blockquote'' then
       map_option (\<lambda>t. if t = [] then None
           else Some (js ''Callout'', [(js ''tone'', JStr (js ''info'')), (js ''content'', JStr t)])) (cleanInlineHtml body)
     else
       map_option (\<lambda>t. if t = [] then None
           else Some (js ''Text'', text_props (if tag = js ''li'' then 8226 # 32 # t else t))) (cleanInlineHtml body))"

text \<open>\<open>addElement\<close>, called for the elements in their order.\<close>

definition add_element :: "elements \<times> jstr list \<Rightarrow> jstr \<times> jsobj \<Rightarrow> elements \<times> jstr list" where
  "add_element x e = (case (x, e) of ((els, children), (ty, props)) \<Rightarrow>
     let i = node_id (length children + 1)
     in (obj_set els i \<lparr>re_type = JStr ty, re_props = props, re_children = []\<rparr>, children @ [i]))"

definition generic_elements :: "jstr \<Rightarrow> (jstr \<times> jsobj) list option" where
  "generic_elements source = Option.bind (those (map block_element (elements_of block_tags source)))
     (\<lambda>blocks. let found = List.map_filter id blocks
       in if found \<noteq> [] then Some found
          else map_option (\<lambda>lines. if lines = [] then [(js ''Text'', text_props (js ''No content''))]
              else map (\<lambda>line. (js ''Text'', text_props line)) lines) (htmlToTextLines source))"

definition element_report :: "(jstr \<times> jsobj) list \<Rightarrow> report_spec" where
  "element_report found =
     (let (els, children) = foldl add_element ([], []) found
      in \<lparr>rs_root = js ''root'',
          rs_elements = obj_set els (js ''root'')
            \<lparr>re_type = JStr (js ''Stack''), re_props = [(js ''gap'', JStr (js ''md''))], re_children = children\<rparr>,
          rs_state = None\<rparr>)"

definition genericHtmlToReportSpec :: "jstr \<Rightarrow> report_spec option" where
  "genericHtmlToReportSpec html = map_option element_report (generic_elements (stripUnsafeBlocks html))"

section \<open>The lines of a loan\<close>

record timeline_item =
  ti_time :: jstr
  ti_title :: jstr
  ti_status :: jstr

record loan_report =
  lr_title :: jstr
  lr_fields :: "(jstr \<times> jstr) list"
  lr_timeline :: "timeline_item list"
  lr_summary :: jstr

definition normalizeLabel :: "(jstr \<Rightarrow> jstr) \<Rightarrow> jstr \<Rightarrow> jstr" where
  "normalizeLabel strip_marks label =
     trim (join [32] (split_ws (lower (map (\<lambda>c. if c = 272 \<or> c = 273 then 100 else c) (strip_marks label)))))"

definition canonicalFieldLabel :: "(jstr \<Rightarrow> jstr) \<Rightarrow> jstr \<Rightarrow> jstr" where
  "canonicalFieldLabel strip_marks label =
     (let n = normalizeLabel strip_marks label
      in if includes_str (js ''loan id'') n then js ''Loan ID''
         else if includes_str (js ''zalopay id'') n then js ''Zalopay ID''
         else if includes_str (js ''partner'') n \<or> includes_str (js ''doi tac'') n then js ''Partner''
         else if n = js ''status'' then js ''Status''
         else if includes_str (js ''amount/term'') n then js ''Amount/Term''
         else if includes_str (js ''amount'') n \<or> includes_str (js ''so tien'') n then js ''Amount''
         else if includes_str (js ''term'') n \<or> includes_str (js ''ky han'') n then js ''Term''
         else if includes_str (js ''score'') n then js ''Score/ZLP Score''
         else if includes_str (js ''ma hop dong'') n \<or> includes_str (js ''contract'') n then js ''Contract ID''
         else if includes_str (js ''ket luan'') n \<or> includes_str (js ''huong xu ly'') n then js ''Summary''
         else [])"

text \<open>One of the four check marks, alone on its line.\<close>

definition isCheckLine :: "jstr \<Rightarrow> bool" where
  "isCheckLine line \<longleftrightarrow> trim line \<in> {[10003], [10004], [9745], [9989]}"

text \<open>\<open>/^([^:]{2,60}):\s*(.+)$/\<close> on a line without outer white space.\<close>

definition parseFieldLine :: "jstr \<Rightarrow> (jstr \<times> jstr) option" where
  "parseFieldLine line =
     (let label = takeWhile (\<lambda>c. c \<noteq> 58) line; rest = drop (length label + 1) line
      in if length label < length line \<and> 2 \<le> length label \<and> length label \<le> 60 \<and> rest \<noteq> []
         then Some (trim label, trim rest) else None)"

text \<open>\<open>/^Status\s+(\d+)\s*[-:]\s*(.+)$/i\<close>.\<close>

definition inlineStatus :: "jstr \<Rightarrow> jstr option" where
  "inlineStatus line = (case strip_ci (js ''status'') line of
     None \<Rightarrow> None
   | Some r \<Rightarrow>
       let ds = takeWhile is_digit (dropWhile is_ws r);
           t = dropWhile is_ws (dropWhile is_digit (dropWhile is_ws r))
       in if r \<noteq> [] \<and> is_ws (hd r) \<and> ds \<noteq> [] \<and> t \<noteq> [] \<and> hd t \<in> {45, 58} \<and> tl t \<noteq> []
          then Some (ds @ js '' ('' @ trim (tl t) @ js '')'') else None)"

definition digits_at :: "nat \<Rightarrow> jstr \<Rightarrow> bool" where
  "digits_at n s \<longleftrightarrow> n \<le> length s \<and> list_all is_digit (take n s)"

text \<open>\<open>\d{2}:\d{2}:\d{2}\<close>, and the date before it.\<close>

definition clock_at :: "jstr \<Rightarrow> bool" where
  "clock_at s \<longleftrightarrow> digits_at 2 s \<and> 6 \<le> length s \<and> s ! 2 = 58 \<and> digits_at 2 (drop 3 s) \<and> s ! 5 = 58 \<and> digits_at 2 (drop 6 s)"

definition date_at :: "jstr \<Rightarrow> bool" where
  "date_at s \<longleftrightarrow> digits_at 4 s \<and> 8 \<le> length s \<and> s ! 4 = 45 \<and> digits_at 2 (drop 5 s) \<and> s ! 7 = 45 \<and> digits_at 2 (drop 8 s)"

text \<open>\<open>(?:\s+UTC)?(?:\s+\([^)]+\))?$\<close>.\<close>

definition zone_end :: "jstr \<Rightarrow> bool" where
  "zone_end s \<longleftrightarrow>
     (let utc = (s \<noteq> [] \<and> is_ws (hd s) \<and> starts_with (js ''UTC'') (dropWhile is_ws s));
          r = (if utc then drop 3 (dropWhile is_ws s) else s);
          p = dropWhile is_ws r
      in r = [] \<or> (is_ws (hd r) \<and> 3 \<le> length p \<and> hd p = 40 \<and> last p = 41 \<and> 41 \<notin> set (butlast p)))"

definition dateTime :: "jstr \<Rightarrow> bool" where
  "dateTime s \<longleftrightarrow> date_at s \<and> (let r = drop 10 s; t = dropWhile is_ws r
     in r \<noteq> [] \<and> is_ws (hd r) \<and> clock_at t \<and> zone_end (drop 8 t))"

definition waiting_names :: "jstr list" where
  "waiting_names =
     [[273] @ js ''ang ch'' @ [7901] @ js '' gi'' @ [7843] @ js ''i ng'' @ [226] @ js ''n'',
      js ''dang cho giai ngan'', js ''ch'' @ [7901] @ js '' gi'' @ [7843] @ js ''i ng'' @ [226] @ js ''n'',
      js ''query_disbursement'']"

definition loan_words :: "jstr list" where
  "loan_words = [js ''loan'', js ''vay'', js ''h'' @ [7891] @ js '' s'' @ [417]]"

text \<open>The two Vietnamese texts ``Cho Giai ngan'' and the note that the partner is being asked, with their marks.\<close>

definition waiting_title :: jstr where
  "waiting_title = js ''Ch'' @ [7901] @ js '' Gi'' @ [7843] @ js ''i ng'' @ [226] @ js ''n''"

definition waiting_note :: jstr where
  "waiting_note = js ''H'' @ [7879] @ js '' th'' @ [7889] @ js ''ng '' @ [273] @ js ''ang truy v'' @ [7845] @ js ''n tr'' @ [7841]
     @ js ''ng th'' @ [225] @ js ''i gi'' @ [7843] @ js ''i ng'' @ [226] @ js ''n t'' @ [7915] @ js '' partner.''"

definition or_str :: "jstr \<Rightarrow> jstr \<Rightarrow> jstr" where
  "or_str a b = (if a \<noteq> [] then a else b)"

definition line_at :: "jstr list \<Rightarrow> nat \<Rightarrow> jstr" where
  "line_at ls i = (if i < length ls then ls ! i else [])"

definition add_item :: "jstr \<Rightarrow> jstr \<Rightarrow> jstr \<Rightarrow> loan_report \<Rightarrow> loan_report" where
  "add_item time title status p =
     p\<lparr>lr_timeline := lr_timeline p @ [\<lparr>ti_time = time, ti_title = title, ti_status = status\<rparr>]\<rparr>"

text \<open>One round of the loop: the line, the lines after it, and how many of those it consumes.\<close>

definition loan_line :: "(jstr \<Rightarrow> jstr) \<Rightarrow> jstr \<Rightarrow> jstr list \<Rightarrow> loan_report \<Rightarrow> loan_report \<times> nat" where
  "loan_line strip_marks line rest p =
     (if lr_title p = [] \<and> 58 \<notin> set line \<and> test_ci loan_words line then (p\<lparr>lr_title := line\<rparr>, 0)
      else case inlineStatus line of
        Some st \<Rightarrow> (p\<lparr>lr_fields := obj_set (lr_fields p) (js ''Status'') st\<rparr>, 0)
      | None \<Rightarrow>
      if isCheckLine line then
        let stepTitle = line_at rest 0; stepTime = line_at rest 1;
            timed = (stepTime \<noteq> [] \<and> \<not> isCheckLine stepTime)
        in if stepTitle \<noteq> [] then
             (add_item (if timed then stepTime else []) stepTitle (js ''done'') p, if timed then 2 else 1)
           else (p, 0)
      else if 3 \<le> length line \<and> set line = {46} then (p, 0)
      else if dateTime line then
        let nextLine = line_at rest 0
        in if nextLine \<noteq> [] \<and> \<not> dateTime nextLine then (add_item line nextLine (js ''done'') p, 1) else (p, 0)
      else case parseFieldLine line of
        Some (label0, val) \<Rightarrow>
          let label = canonicalFieldLabel strip_marks label0
          in (if label = js ''Summary'' \<or> label = js ''Status'' \<and> 60 < length val then p\<lparr>lr_summary := val\<rparr>
              else if label \<noteq> [] then p\<lparr>lr_fields := obj_set (lr_fields p) label val\<rparr> else p, 0)
      | None \<Rightarrow>
      if test_ci waiting_names line then
        let stepTime = (if line_at rest 0 \<noteq> [] \<and> \<not> isCheckLine (line_at rest 0) then line_at rest 0 else []);
            stepDetail = (if line_at rest 1 \<noteq> [] \<and> parseFieldLine (line_at rest 1) = None then line_at rest 1 else [])
        in (add_item (or_str (or_str stepDetail stepTime) waiting_note) waiting_title (js ''active'') p,
            if stepTime \<noteq> [] then 1 else 0)
      else (p, 0))"

function loan_lines :: "(jstr \<Rightarrow> jstr) \<Rightarrow> jstr list \<Rightarrow> loan_report \<Rightarrow> loan_report" where
  "loan_lines strip_marks [] p = p"
| "loan_lines strip_marks (line # rest) p =
     (let (q, n) = loan_line strip_marks line rest p in loan_lines strip_marks (drop n rest) q)"
  by pat_completeness auto
termination
  by (relation "measure (\<lambda>(m, ls, p). length ls)") auto

definition field_of :: "loan_report \<Rightarrow> jstr \<Rightarrow> jstr" where
  "field_of p k = (case map_of (lr_fields p) k of Some v \<Rightarrow> v | None \<Rightarrow> [])"

definition loan_of_lines :: "(jstr \<Rightarrow> jstr) \<Rightarrow> jstr list \<Rightarrow> loan_report option" where
  "loan_of_lines strip_marks ls =
     (if ls = [] then None
      else
        let p = loan_lines strip_marks ls \<lparr>lr_title = [], lr_fields = [], lr_timeline = [], lr_summary = []\<rparr>;
            q = p\<lparr>lr_title := or_str (lr_title p) (line_at ls 0)\<rparr>
        in if lr_title q = [] \<or> (field_of q (js ''Loan ID'') = [] \<and> field_of q (js ''Zalopay ID'') = [] \<and>
              field_of q (js ''Amount/Term'') = [] \<and> field_of q (js ''Amount'') = [])
           then None else Some q)"

text \<open>The outer \<open>None\<close> is an exception, the inner one \<open>null\<close>.\<close>

definition parseLoanStatusReport :: "(jstr \<Rightarrow> jstr) \<Rightarrow> jstr \<Rightarrow> loan_report option option" where
  "parseLoanStatusReport strip_marks html = map_option (loan_of_lines strip_marks) (htmlToTextLines html)"

section \<open>The card of a loan\<close>

text \<open>The Vietnamese texts of the card, with their marks.\<close>

definition card_title :: jstr where
  "card_title = js ''Chi ti'' @ [7871] @ js ''t H'' @ [7891] @ js '' s'' @ [417] @ js '' Vay''"

definition progress_text :: jstr where
  "progress_text = js ''IN PROGRESS (Ch'' @ [7901] @ js '' gi'' @ [7843] @ js ''i ng'' @ [226] @ js ''n: ''"

definition created_title :: jstr where
  "created_title = js ''T'' @ [7841] @ js ''o h'' @ [7891] @ js '' s'' @ [417] @ js '' & Pass Rules''"

definition created_text :: jstr where
  "created_text = js ''Ho'' @ [224] @ js ''n t'' @ [7845] @ js ''t l'' @ [250] @ js ''c ''"

definition sent_title :: jstr where
  "sent_title = js ''G'' @ [7917] @ js ''i d'' @ [7919] @ js '' li'' @ [7879] @ js ''u qua TNEX''"

definition sent_text :: jstr where
  "sent_text = js ''Submit th'' @ [224] @ js ''nh c'' @ [244] @ js ''ng l'' @ [250] @ js ''c ''"

definition approved_title :: jstr where
  "approved_title = js ''TNEX Ph'' @ [234] @ js '' duy'' @ [7879] @ js ''t''"

definition approved_text :: jstr where
  "approved_text = js ''Duy'' @ [7879] @ js ''t h'' @ [7841] @ js ''n m'' @ [7913] @ js ''c ''"

definition loan_text :: jstr where
  "loan_text = js ''kho'' @ [7843] @ js ''n vay''"

definition at_text :: jstr where
  "at_text = js '' l'' @ [250] @ js ''c ''"

definition signed_title :: jstr where
  "signed_title = js ''K'' @ [253] @ js '' H'' @ [7907] @ js ''p '' @ [273, 7891] @ js ''ng''"

definition signed_text :: jstr where
  "signed_text = js ''Kh'' @ [225] @ js ''ch h'' @ [224] @ js ''ng x'' @ [225] @ js ''c nh'' @ [7853] @ js ''n v'' @ [224] @ js '' k'' @ [253] @ js '' h'' @ [7907] @ js ''p '' @ [273, 7891] @ js ''ng th'' @ [224] @ js ''nh c'' @ [244] @ js ''ng l'' @ [250] @ js ''c ''"

text \<open>\<open>/\b\d{2}:\d{2}(?::\d{2})?\b/\<close>; the flag tells whether the character before is a word character.\<close>

fun clock_in :: "bool \<Rightarrow> jstr \<Rightarrow> jstr option" where
  "clock_in w [] = None"
| "clock_in w (c # s) =
     (let t = c # s
      in if \<not> w \<and> digits_at 2 t \<and> 3 \<le> length t \<and> t ! 2 = 58 \<and> digits_at 2 (drop 3 t) \<and>
           (clock_at t \<and> at_boundary (drop 8 t) \<or> at_boundary (drop 5 t))
         then Some (if clock_at t \<and> at_boundary (drop 8 t) then take 8 t else take 5 t)
         else clock_in (is_word c) s)"

definition timeOnly :: "jstr \<Rightarrow> jstr" where
  "timeOnly v = (case clock_in False v of Some t \<Rightarrow> t | None \<Rightarrow> v)"

record milestone =
  ms_title :: jstr
  ms_detail :: jstr
  ms_status :: jstr

definition includes_any :: "jstr list \<Rightarrow> jstr \<Rightarrow> bool" where
  "includes_any ps s \<longleftrightarrow> (\<exists>p \<in> set ps. includes_str p s)"

definition normalizeTimelineItem :: "(jstr \<Rightarrow> jstr) \<Rightarrow> jstr \<Rightarrow> timeline_item \<Rightarrow> milestone option" where
  "normalizeTimelineItem strip_marks amount item =
     (let title = normalizeLabel strip_marks (ti_title item);
          status = ti_status item;
          time = timeOnly (ti_time item);
          detail = (\<lambda>t. if time \<noteq> [] then t @ time else ti_title item)
      in if includes_any [js ''created'', js ''pass'', js ''kyc'', js ''nfc'', js ''income'', js ''tao ho so''] title then
           Some \<lparr>ms_title = created_title, ms_detail = detail created_text, ms_status = status\<rparr>
         else if includes_any [js ''submit'', js ''partner submission'', js ''handle submit'', js ''gui du lieu''] title then
           Some \<lparr>ms_title = sent_title, ms_detail = detail sent_text, ms_status = status\<rparr>
         else if includes_any [js ''approved'', js ''phe duyet''] title then
           Some \<lparr>ms_title = approved_title, ms_detail = detail (approved_text @ or_str amount loan_text @ at_text), ms_status = status\<rparr>
         else if includes_any [js ''contract signed'', js ''signed'', js ''ky hop dong''] title then
           Some \<lparr>ms_title = signed_title, ms_detail = detail signed_text, ms_status = status\<rparr>
         else if includes_any [js ''cho giai ngan'', js ''query_disbursement''] title then
           Some \<lparr>ms_title = waiting_title, ms_detail = or_str (ti_time item) waiting_note, ms_status = js ''active''\<rparr>
         else None)"

definition add_milestone :: "(jstr \<Rightarrow> jstr) \<Rightarrow> jstr \<Rightarrow> milestone list \<Rightarrow> timeline_item \<Rightarrow> milestone list" where
  "add_milestone strip_marks amount items item = (case normalizeTimelineItem strip_marks amount item of
     Some m \<Rightarrow> if ms_title m \<in> ms_title ` set items then items else items @ [m]
   | None \<Rightarrow> items)"

definition milestoneItems :: "(jstr \<Rightarrow> jstr) \<Rightarrow> timeline_item list \<Rightarrow> jstr \<Rightarrow> milestone list" where
  "milestoneItems strip_marks timeline amount = foldl (add_milestone strip_marks amount) [] timeline"

definition error_words :: "jstr list" where
  "error_words = [js ''error'', js ''failed'', js ''rejected'']"

definition timelineItems :: "(jstr \<Rightarrow> jstr) \<Rightarrow> timeline_item list \<Rightarrow> jstr \<Rightarrow> jstr \<Rightarrow> jstr \<Rightarrow> milestone list" where
  "timelineItems strip_marks timeline statusName summary amount =
     (let items = milestoneItems strip_marks timeline amount
      in if statusName \<noteq> [] \<and> waiting_title \<notin> ms_title ` set items then
           items @ [\<lparr>ms_title = (if statusName = js ''QUERY_DISBURSEMENT'' then waiting_title else statusName),
             ms_detail = or_str summary waiting_note,
             ms_status = (if test_ci error_words summary then js ''error'' else js ''active'')\<rparr>]
         else items)"

text \<open>\<open>/\(([^)]+)\)/\<close>.\<close>

fun in_parens :: "jstr \<Rightarrow> jstr option" where
  "in_parens [] = None"
| "in_parens (c # s) =
     (if c = 40 \<and> takeWhile (\<lambda>d. d \<noteq> 41) s \<noteq> [] \<and> dropWhile (\<lambda>d. d \<noteq> 41) s \<noteq> []
      then Some (takeWhile (\<lambda>d. d \<noteq> 41) s) else in_parens s)"

definition splitAmountTerm :: "jstr \<Rightarrow> jstr \<times> jstr" where
  "splitAmountTerm v = (if v = [] then ([], [])
     else let parts = map trim (split_char 47 v) in (line_at parts 0, line_at parts 1))"

definition milestone_value :: "milestone \<Rightarrow> jsval" where
  "milestone_value m = JObj [(js ''title'', JStr (ms_title m)), (js ''detail'', JStr (ms_detail m)),
     (js ''status'', JStr (ms_status m))]"

definition loan_card :: "(jstr \<Rightarrow> jstr) \<Rightarrow> loan_report \<Rightarrow> jsobj" where
  "loan_card strip_marks r =
     (let status = field_of r (js ''Status'');
          statusName = (case in_parens status of Some n \<Rightarrow> n | None \<Rightarrow> status);
          (amount, term) = splitAmountTerm (field_of r (js ''Amount/Term''));
          finalAmount = or_str amount (field_of r (js ''Amount''));
          finalTerm = or_str term (field_of r (js ''Term''));
          summaryTone = (if test_ci error_words (lr_summary r) then js ''error''
            else if test_ci [js ''waiting'', js ''query'', js ''pending''] (lr_summary r @ status) then js ''warning''
            else js ''success'')
      in [(js ''title'', JStr card_title),
          (js ''description'', JStr (or_str (lr_summary r) (lr_title r))),
          (js ''statusLabel'', JStr (if statusName \<noteq> [] then progress_text @ statusName @ js '')'' else status)),
          (js ''statusTone'', JStr summaryTone),
          (js ''partner'', JStr (field_of r (js ''Partner''))),
          (js ''amount'', JStr finalAmount),
          (js ''term'', JStr finalTerm),
          (js ''loanId'', JStr (field_of r (js ''Loan ID''))),
          (js ''zalopayId'', JStr (field_of r (js ''Zalopay ID''))),
          (js ''contractId'', JStr (field_of r (js ''Contract ID''))),
          (js ''score'', JStr (field_of r (js ''Score/ZLP Score''))),
          (js ''steps'', JArr (map milestone_value
             (timelineItems strip_marks (lr_timeline r) statusName (lr_summary r) finalAmount)))])"

definition loan_spec :: "(jstr \<Rightarrow> jstr) \<Rightarrow> loan_report \<Rightarrow> report_spec" where
  "loan_spec strip_marks r = \<lparr>rs_root = js ''root'',
     rs_elements = [(js ''root'', \<lparr>re_type = JStr (js ''LoanStatusCard''), re_props = loan_card strip_marks r, re_children = []\<rparr>)],
     rs_state = None\<rparr>"

definition loanStatusHtmlToReportSpec :: "(jstr \<Rightarrow> jstr) \<Rightarrow> jstr \<Rightarrow> report_spec option option" where
  "loanStatusHtmlToReportSpec strip_marks html =
     map_option (map_option (loan_spec strip_marks)) (parseLoanStatusReport strip_marks html)"

definition htmlToReportSpec :: "(jstr \<Rightarrow> jstr) \<Rightarrow> jstr \<Rightarrow> report_spec option" where
  "htmlToReportSpec strip_marks html = (case loanStatusHtmlToReportSpec strip_marks html of
     None \<Rightarrow> None
   | Some (Some spec) \<Rightarrow> Some spec
   | Some None \<Rightarrow> genericHtmlToReportSpec html)"

section \<open>The report is a stack of elements\<close>

definition leaf :: "jstr \<times> jsobj \<Rightarrow> report_element" where
  "leaf e = \<lparr>re_type = JStr (fst e), re_props = snd e, re_children = []\<rparr>"

lemma set_fresh: "k \<noteq> proto_key \<Longrightarrow> k \<notin> fst ` set ob \<Longrightarrow> obj_set ob k v = ob @ [(k, v)]"
  by (simp add: obj_set_def define_fresh)

text \<open>The elements of the blocks, numbered from one.\<close>

definition numbered :: "(jstr \<times> jsobj) list \<Rightarrow> elements" where
  "numbered found = map (\<lambda>i. (node_id (i + 1), leaf (found ! i))) [0..<length found]"

definition numbers :: "nat \<Rightarrow> jstr list" where
  "numbers n = map (\<lambda>i. node_id (i + 1)) [0..<n]"

lemma numbered_snoc: "numbered (found @ [e]) = numbered found @ [(node_id (length found + 1), leaf e)]"
  by (simp add: numbered_def nth_append)

lemma numbered_keys: "map fst (numbered found) = numbers (length found)"
  by (simp add: numbered_def numbers_def)

lemma add_numbered:
  "add_element (numbered found, numbers (length found)) e = (numbered (found @ [e]), numbers (length (found @ [e])))"
proof -
  obtain ty props where e: "e = (ty, props)" by (cases e)
  have len: "length (numbers n) = n" for n by (simp add: numbers_def)
  have "node_id (length found + 1) \<notin> fst ` set (numbered found)"
    by (auto simp: numbered_def)
  then show ?thesis
    by (simp add: add_element_def e len numbered_snoc set_fresh leaf_def Let_def) (simp add: numbers_def)
qed

lemma add_elements: "foldl add_element ([], []) found = (numbered found, numbers (length found))"
proof (induction found rule: rev_induct)
  case (snoc e found)
  then show ?case by (simp only: foldl_append foldl.simps add_numbered)
qed (simp add: numbered_def numbers_def)

lemma element_report_eq:
  "element_report found = \<lparr>rs_root = js ''root'',
     rs_elements = numbered found @
       [(js ''root'', \<lparr>re_type = JStr (js ''Stack''), re_props = [(js ''gap'', JStr (js ''md''))],
          re_children = numbers (length found)\<rparr>)],
     rs_state = None\<rparr>"
proof -
  have "root_id \<notin> fst ` set (numbered found)"
    by (auto simp: numbered_def)
  moreover have "root_id \<noteq> proto_key" by (simp add: root_id_def proto_key_def)
  ultimately show ?thesis
    unfolding element_report_def add_elements Let_def split_conv root_id_def [symmetric] by (simp add: set_fresh)
qed

text \<open>The shape of a report: a root, distinct ids, and every other element is a child of one element and below the root.\<close>

definition report_tree :: "report_spec \<Rightarrow> bool" where
  "report_tree spec \<longleftrightarrow> rs_root spec = js ''root'' \<and> distinct (map fst (rs_elements spec)) \<and>
     distinct (listed_children spec) \<and>
     set (listed_children spec) = fst ` set (rs_elements spec) - {js ''root''} \<and>
     list_all (below_root spec) (map fst (rs_elements spec))"

lemma element_report_tree: "report_tree (element_report found)"
proof -
  let ?spec = "element_report found"
  define stack where "stack = \<lparr>re_type = JStr (js ''Stack''), re_props = [(js ''gap'', JStr (js ''md''))],
    re_children = numbers (length found)\<rparr>"
  have els: "rs_elements ?spec = numbered found @ [(root_id, stack)]" and root: "rs_root ?spec = root_id"
    by (simp_all add: element_report_eq stack_def root_id_def)
  have keys: "map fst (rs_elements ?spec) = numbers (length found) @ [root_id]"
    by (simp add: els numbered_keys)
  have "concat (map (\<lambda>e. re_children (snd e)) (numbered found)) = []"
    by (simp add: numbered_def leaf_def)
  then have ch: "listed_children ?spec = numbers (length found)"
    by (simp add: listed_children_def els stack_def)
  have dist: "distinct (numbers n)" "root_id \<notin> set (numbers n)" for n
    by (auto simp: numbers_def distinct_map inj_on_def)
  have "below_root ?spec root_id" using root_below [of ?spec] by (simp add: root)
  moreover have "(root_id, stack) \<in> set (rs_elements ?spec)" by (simp add: els)
  ultimately have "below_root ?spec k" if "k \<in> set (numbers (length found))" for k
    using that by (auto simp: stack_def intro: child_below)
  moreover have "fst ` set (rs_elements ?spec) = insert root_id (set (numbers (length found)))"
    using arg_cong [OF keys, of set] by simp
  ultimately show ?thesis
    using dist [of "length found"] \<open>below_root ?spec root_id\<close>
    unfolding report_tree_def root_id_def [symmetric] list_all_iff keys ch root by auto
qed

lemma loan_spec_tree: "report_tree (loan_spec m r)"
proof -
  have "below_root (loan_spec m r) (rs_root (loan_spec m r))" by (rule root_below)
  then show ?thesis by (simp add: report_tree_def loan_spec_def listed_children_def)
qed

section \<open>No exception without a numeric entity\<close>

lemma those_total: "(\<And>x. x \<in> set xs \<Longrightarrow> f x \<noteq> None) \<Longrightarrow> those (map f xs) \<noteq> None"
  by (induction xs) (auto split: option.splits)

lemma elements_no_hash: "35 \<notin> set s \<Longrightarrow> x \<in> set (elements_of names s) \<Longrightarrow> 35 \<notin> set (snd x)"
  using elements_of_set [of "fst x" "snd x" names s] by auto

lemma row_cells_total: "35 \<notin> set s \<Longrightarrow> row_cells s \<noteq> None"
  unfolding row_cells_def by (rule those_total) (simp add: cleanInline_total elements_no_hash)

lemma parseHtmlTable_total:
  assumes "35 \<notin> set s"
  shows "parseHtmlTable s \<noteq> None"
proof -
  have "those (map row_cells (map snd (elements_of [js ''tr''] s))) \<noteq> None"
    unfolding map_map by (rule those_total) (use assms row_cells_total elements_no_hash in \<open>simp only: comp_def\<close>, metis)
  then show ?thesis unfolding parseHtmlTable_def Let_def by (simp only: option.map_disc_iff not_False_eq_True)
qed

lemma block_element_total: "35 \<notin> set (snd x) \<Longrightarrow> block_element x \<noteq> None"
  using cleanInline_total [of "snd x"] cleanCode_total [of "snd x"] parseHtmlTable_total [of "snd x"]
  by (cases x) (auto simp: block_element_def)

lemma generic_total:
  assumes "35 \<notin> set html"
  shows "genericHtmlToReportSpec html \<noteq> None"
proof -
  let ?s = "stripUnsafeBlocks html"
  have s: "35 \<notin> set ?s" using assms stripUnsafeBlocks_set by blast
  have "those (map block_element (elements_of block_tags ?s)) \<noteq> None"
    by (rule those_total) (use s elements_no_hash block_element_total in blast)
  moreover have "htmlToTextLines ?s \<noteq> None" by (rule htmlToTextLines_total [OF s])
  ultimately show ?thesis by (auto simp: genericHtmlToReportSpec_def generic_elements_def Let_def)
qed

text \<open>
  C13. Every report made from HTML is a tree: its root is \<open>root\<close>, the ids are distinct, every other
  element is the child of exactly one element and is reached from the root.  No report at all - an
  exception - is possible only for a text with a \<open>#\<close>, the sign of a numeric entity.
\<close>

theorem html_report_tree:
  "case htmlToReportSpec strip_marks html of Some spec \<Rightarrow> report_tree spec | None \<Rightarrow> 35 \<in> set html"
proof (cases "35 \<in> set html")
  case True
  then show ?thesis
    by (auto simp: htmlToReportSpec_def loanStatusHtmlToReportSpec_def genericHtmlToReportSpec_def
        loan_spec_tree element_report_tree split: option.splits)
next
  case False
  then obtain ls g where "htmlToTextLines html = Some ls" "generic_elements (stripUnsafeBlocks html) = Some g"
    using htmlToTextLines_total generic_total by (fastforce simp: genericHtmlToReportSpec_def)
  then show ?thesis
    by (simp add: htmlToReportSpec_def loanStatusHtmlToReportSpec_def parseLoanStatusReport_def
        genericHtmlToReportSpec_def loan_spec_tree element_report_tree split: option.splits)
qed

section \<open>Plain text\<close>

definition text_report :: "jstr list \<Rightarrow> report_spec" where
  "text_report ls = element_report (map (\<lambda>l. (js ''Text'', text_props l)) (if ls = [] then [js ''No content''] else ls))"

text \<open>
  A text without tags and entities becomes the card of a loan when its lines read like one, and
  otherwise a stack of one \<open>Text\<close> element per line that is not blank, in the order of the lines, or
  the text ``No content''.
\<close>

theorem html_plain_text:
  assumes "60 \<notin> set html" and "38 \<notin> set html"
  shows "htmlToReportSpec strip_marks html = Some (case loan_of_lines strip_marks (text_lines html) of
    Some r \<Rightarrow> loan_spec strip_marks r | None \<Rightarrow> text_report (text_lines html))"
proof -
  have "htmlToTextLines html = Some (text_lines html)"
    by (simp add: htmlToTextLines_def untagged [OF assms(1)] entity_free [OF assms(2)])
  then show ?thesis
    by (simp add: htmlToReportSpec_def loanStatusHtmlToReportSpec_def parseLoanStatusReport_def genericHtmlToReportSpec_def
        generic_elements_def untagged [OF assms(1)] map_filter_simps text_report_def Let_def split: option.splits)
qed

lemma hi_lines: "text_lines (js ''hi'') = [js ''hi'']"
  by (simp add: text_lines_def collapse_def split_ws_def trim_def trim_start_def trim_end_def is_ws_def)

lemma hi_no_loan: "loan_of_lines id [js ''hi''] = None"
proof -
  have "lr_fields (loan_lines id [js ''hi''] p) = lr_fields p" for p
    by (simp add: loan_line_def inlineStatus_def strip_ci_def fold_unit_def isCheckLine_def dateTime_def date_at_def digits_at_def
        parseFieldLine_def test_ci_def waiting_names_def loan_words_def trim_def trim_start_def trim_end_def is_ws_def)
  then show ?thesis by (simp add: loan_of_lines_def field_of_def Let_def)
qed

lemma html_plain_text_witness:
  "htmlToReportSpec id (js ''hi'') = Some (text_report [js ''hi'']) \<and> rs_root (text_report [js ''hi'']) = js ''root''"
proof -
  have "60 \<notin> set (js ''hi'')" "38 \<notin> set (js ''hi'')" by simp_all
  from html_plain_text [OF this, of id] show ?thesis
    unfolding hi_lines hi_no_loan option.case by (simp add: text_report_def element_report_eq)
qed

end
