(* ===== verification/HtmlSanitizer.thy ===== *)
theory HtmlSanitizer
  imports HtmlText JsValue
begin

text \<open>
  The sanitizer of src/ui/web/src/components/chat/HtmlRenderer.tsx, which prepares the html of an
  answer for the frame that shows it.  A fragment is a list of document nodes; reading it from a
  text and writing it back, which the browser does for \<open>template.innerHTML\<close>, are parameters.

  The parser gives tags a name, attributes distinct names in small letters, and a \<open>style\<close> element
  one text; \<open>parsed\<close> states the part the theorems use.
\<close>

section \<open>Style sheets\<close>

text \<open>\<open>/@import[^;]+;?/gi\<close>.\<close>

definition css_import :: "jstr \<Rightarrow> (jstr \<times> jstr) option" where
  "css_import s = (case strip_ci (js ''@import'') s of
     None \<Rightarrow> None
   | Some r \<Rightarrow>
       let t = dropWhile (\<lambda>c. c \<noteq> 59) r
       in if takeWhile (\<lambda>c. c \<noteq> 59) r = [] then None else Some ([], if t = [] then [] else tl t))"

text \<open>\<open>name\s*\([^)]*\)\<close> with the flags \<open>gi\<close>, replaced by \<open>u\<close>.\<close>

definition css_call :: "jstr \<Rightarrow> jstr \<Rightarrow> jstr \<Rightarrow> (jstr \<times> jstr) option" where
  "css_call name u s = (case strip_ci name s of
     None \<Rightarrow> None
   | Some r \<Rightarrow>
       let t = dropWhile is_ws r; e = dropWhile (\<lambda>c. c \<noteq> 41) (tl t)
       in if t \<noteq> [] \<and> hd t = 40 \<and> e \<noteq> [] then Some (u, tl e) else None)"

definition sanitizeCss :: "jstr \<Rightarrow> jstr" where
  "sanitizeCss css =
     replace_all (css_call (js ''expression'') [])
       (replace_all (css_call (js ''url'') (js ''none'')) (replace_all css_import css))"

section \<open>Addresses\<close>

definition isSafeHref :: "jstr \<Rightarrow> bool" where
  "isSafeHref v \<longleftrightarrow>
     (let trimmed = lower (trim v)
      in starts_with (js ''https://'') trimmed \<or> starts_with (js ''http://'') trimmed \<or>
         starts_with (js ''mailto:'') trimmed \<or> starts_with (js ''#'') trimmed \<or> starts_with (js ''/'') trimmed)"

section \<open>Nodes\<close>

datatype dom_node =
  Element (dom_tag: jstr) (dom_attrs: "(jstr \<times> jstr) list") (dom_kids: "dom_node list")
| TextNode jstr
| CommentNode jstr

fun textContent :: "dom_node \<Rightarrow> jstr" where
  "textContent (Element t as ns) = concat (map textContent ns)"
| "textContent (TextNode s) = s"
| "textContent (CommentNode s) = []"

definition allowedTags :: "jstr list" where
  "allowedTags = map js [''a'', ''article'', ''aside'', ''b'', ''br'', ''code'', ''dd'', ''div'', ''dl'', ''dt'', ''em'',
     ''footer'', ''h1'', ''h2'', ''h3'', ''h4'', ''h5'', ''h6'', ''header'', ''hr'', ''i'', ''li'', ''ol'', ''p'', ''pre'',
     ''section'', ''small'', ''span'', ''strong'', ''style'', ''table'', ''tbody'', ''td'', ''th'', ''thead'', ''tr'', ''ul'']"

definition forbiddenTags :: "jstr list" where
  "forbiddenTags = map js [''base'', ''button'', ''embed'', ''form'', ''iframe'', ''img'', ''input'', ''link'', ''meta'',
     ''object'', ''script'', ''textarea'']"

definition allowedAttributes :: "jstr list" where
  "allowedAttributes = map js [''class'', ''id'', ''role'', ''style'', ''title'']"

text \<open>One round of the loop over the attributes the element had at the start.\<close>

definition sanitize_attr :: "jstr \<Rightarrow> (jstr \<times> jstr) list \<Rightarrow> jstr \<times> jstr \<Rightarrow> (jstr \<times> jstr) list" where
  "sanitize_attr tag el attr = (case attr of (attr_name, v) \<Rightarrow>
     let name = lower attr_name
     in if starts_with (js ''on'') name \<or> name = js ''srcdoc'' then obj_delete el attr_name
        else if starts_with (js ''aria-'') name \<or> starts_with (js ''data-'') name then el
        else if tag = js ''a'' \<and> name = js ''href'' then (if isSafeHref v then el else obj_delete el attr_name)
        else if name \<notin> set allowedAttributes then obj_delete el attr_name
        else if name = js ''style'' then obj_put el attr_name (sanitizeCss v)
        else el)"

definition sanitizeAttributes :: "(jstr \<times> jstr) list \<Rightarrow> jstr \<Rightarrow> (jstr \<times> jstr) list" where
  "sanitizeAttributes el tag =
     (let cleaned = foldl (sanitize_attr tag) el el
      in if tag = js ''a''
         then obj_put (obj_put cleaned (js ''target'') (js ''_blank'')) (js ''rel'') (js ''noopener noreferrer'')
         else cleaned)"

text \<open>Setting \<open>textContent\<close> leaves one text, or nothing for the empty text.\<close>

definition text_kids :: "jstr \<Rightarrow> dom_node list" where
  "text_kids s = (if s = [] then [] else [TextNode s])"

text \<open>
  What a node is replaced by.  The loop runs over the children as they were, so the children of an
  element that is unwrapped are not visited; the text of a \<open>style\<close> element is, and stays.
\<close>

fun sanitize_node :: "dom_node \<Rightarrow> dom_node list" where
  "sanitize_node (CommentNode s) = []"
| "sanitize_node (TextNode s) = [TextNode s]"
| "sanitize_node (Element tagName as ns) =
     (let tag = lower tagName
      in if tag \<in> set forbiddenTags then []
         else if tag \<notin> set allowedTags then ns
         else [Element tagName (sanitizeAttributes as tag)
           (if tag = js ''style'' then text_kids (sanitizeCss (concat (map textContent ns)))
            else concat (map sanitize_node ns))])"

definition sanitizeChildren :: "dom_node list \<Rightarrow> dom_node list" where
  "sanitizeChildren ns = concat (map sanitize_node ns)"

definition sanitizeHtmlFragment :: "(jstr \<Rightarrow> dom_node list) \<Rightarrow> (dom_node list \<Rightarrow> jstr) \<Rightarrow> jstr \<Rightarrow> jstr" where
  "sanitizeHtmlFragment read write input = write (sanitizeChildren (read input))"

section \<open>The frame\<close>

text \<open>The height of the frame from the scroll heights of its body and its root, where they exist.\<close>

definition MIN_HEIGHT :: int where "MIN_HEIGHT = 180"

definition MAX_HEIGHT :: int where "MAX_HEIGHT = 900"

definition frame_height :: "int option \<Rightarrow> int option \<Rightarrow> int" where
  "frame_height body_px root_px =
     (let scroll = (\<lambda>h. case h of Some n \<Rightarrow> n | None \<Rightarrow> 0);
          nextHeight = max (max (scroll body_px) (scroll root_px)) MIN_HEIGHT
      in min (max nextHeight MIN_HEIGHT) MAX_HEIGHT)"

lemma frame_height_bounds: "MIN_HEIGHT \<le> frame_height b r \<and> frame_height b r \<le> MAX_HEIGHT"
  by (simp add: frame_height_def MIN_HEIGHT_def MAX_HEIGHT_def Let_def)

text \<open>A custom property of the page, read from its computed styles.\<close>

definition cssVariable :: "(jstr \<Rightarrow> jstr) \<Rightarrow> jstr \<Rightarrow> jstr \<Rightarrow> jstr" where
  "cssVariable styles name fallback = (let v = trim (styles name) in if v \<noteq> [] then v else fallback)"

section \<open>Attributes\<close>

text \<open>What becomes of a single attribute.\<close>

definition clean_attr :: "jstr \<Rightarrow> jstr \<times> jstr \<Rightarrow> (jstr \<times> jstr) list" where
  "clean_attr tag attr = sanitize_attr tag [attr] attr"

lemma define_middle: "n \<notin> fst ` set xs \<Longrightarrow> obj_define (xs @ (n, v) # ys) n w = xs @ (n, w) # ys"
  by (induction xs) auto

lemma delete_none: "n \<notin> fst ` set xs \<Longrightarrow> filter (\<lambda>e. fst e \<noteq> n) xs = xs"
  by (induction xs) auto

lemma delete_middle:
  "n \<notin> fst ` set xs \<Longrightarrow> n \<notin> fst ` set ys \<Longrightarrow> obj_delete (xs @ (n, v) # ys) n = xs @ ys"
  by (simp add: obj_delete_def delete_none)

lemma sanitize_attr_middle:
  "fst a \<notin> fst ` set xs \<Longrightarrow> fst a \<notin> fst ` set ys \<Longrightarrow>
     sanitize_attr tag (xs @ a # ys) a = xs @ clean_attr tag a @ ys"
  using delete_middle [of "fst a" xs ys "snd a"] define_middle [of "fst a" xs "snd a" ys]
  by (cases a) (simp add: sanitize_attr_def clean_attr_def Let_def obj_put_def obj_delete_def)

lemma clean_attr_key: "fst ` set (clean_attr tag a) \<subseteq> {fst a}"
  by (cases a) (auto simp: clean_attr_def sanitize_attr_def Let_def obj_put_def obj_delete_def)

lemma clean_keys: "fst ` set (concat (map (clean_attr tag) as)) \<subseteq> fst ` set as"
proof (induction as)
  case (Cons a as)
  then show ?case using clean_attr_key [of tag a] by (auto simp: image_Un)
qed simp

lemma sanitize_attrs:
  assumes "distinct (map fst (xs @ ys))"
  shows "foldl (sanitize_attr tag) (concat (map (clean_attr tag) xs) @ ys) ys = concat (map (clean_attr tag) (xs @ ys))"
  using assms
proof (induction ys arbitrary: xs)
  case (Cons y ys)
  have "fst y \<notin> fst ` set (concat (map (clean_attr tag) xs))" "fst y \<notin> fst ` set ys"
    using Cons.prems clean_keys [of tag xs] by (simp_all add: disjoint_iff) blast
  then show ?case using Cons.IH [of "xs @ [y]"] Cons.prems by (simp add: sanitize_attr_middle)
qed simp

lemma attributes_cleaned:
  assumes "distinct (map fst as)"
  shows "foldl (sanitize_attr tag) as as = concat (map (clean_attr tag) as)"
  using sanitize_attrs [of "[]" as tag] assms by simp

section \<open>What is safe\<close>

definition attr_safe :: "jstr \<Rightarrow> jstr \<times> jstr \<Rightarrow> bool" where
  "attr_safe tag attr = (case attr of (n, v) \<Rightarrow>
     let name = lower n
     in \<not> starts_with (js ''on'') name \<and> name \<noteq> js ''srcdoc'' \<and>
        (starts_with (js ''aria-'') name \<or> starts_with (js ''data-'') name \<or> name \<in> set allowedAttributes \<or>
         tag = js ''a'' \<and> (name = js ''href'' \<and> isSafeHref v \<or> n = js ''target'' \<and> v = js ''_blank'' \<or>
           n = js ''rel'' \<and> v = js ''noopener noreferrer'')))"

text \<open>A link opens in a page of its own that does not know its opener.\<close>

definition link_safe :: "jstr \<Rightarrow> (jstr \<times> jstr) list \<Rightarrow> bool" where
  "link_safe tag as \<longleftrightarrow> (tag = js ''a'' \<longrightarrow>
     map_of as (js ''target'') = Some (js ''_blank'') \<and> map_of as (js ''rel'') = Some (js ''noopener noreferrer''))"

fun safe_node :: "dom_node \<Rightarrow> bool" where
  "safe_node (CommentNode s) = False"
| "safe_node (TextNode s) = True"
| "safe_node (Element t as ns) = (lower t \<in> set allowedTags \<and> list_all (attr_safe (lower t)) as \<and>
     link_safe (lower t) as \<and> list_all safe_node ns)"

text \<open>The nodes that get out of an element that is unwrapped.\<close>

fun exposed :: "dom_node \<Rightarrow> dom_node list" where
  "exposed (CommentNode s) = []"
| "exposed (TextNode s) = []"
| "exposed (Element t as ns) =
     (if lower t \<in> set forbiddenTags \<or> lower t = js ''style'' then []
      else if lower t \<notin> set allowedTags then ns
      else concat (map exposed ns))"

fun parsed :: "dom_node \<Rightarrow> bool" where
  "parsed (Element t as ns) = (distinct (map fst as) \<and> list_all parsed ns)"
| "parsed n = True"

lemma list_all_concat: "list_all P (concat xss) \<longleftrightarrow> list_all (list_all P) xss"
  by (induction xss) auto

lemma clean_attr_safe: "list_all (attr_safe tag) (clean_attr tag a)"
  by (cases a) (simp add: clean_attr_def sanitize_attr_def attr_safe_def Let_def obj_delete_def obj_put_def)

lemma attr_safe_define:
  "list_all P as \<Longrightarrow> P (k, v) \<Longrightarrow> list_all P (obj_define as k v)"
  by (induction as k v rule: obj_define.induct) auto

lemma sanitizeAttributes_safe:
  assumes "distinct (map fst as)"
  shows "list_all (attr_safe tag) (sanitizeAttributes as tag)" and "link_safe tag (sanitizeAttributes as tag)"
proof -
  have "list_all (attr_safe tag) (concat (map (clean_attr tag) as))"
    by (simp add: list_all_concat list_all_iff clean_attr_safe [unfolded list_all_iff])
  moreover have "attr_safe (js ''a'') (js ''target'', js ''_blank'')" "attr_safe (js ''a'') (js ''rel'', js ''noopener noreferrer'')"
    by (simp_all add: attr_safe_def lower_def lower_unit_def starts_with_def)
  ultimately show "list_all (attr_safe tag) (sanitizeAttributes as tag)"
    unfolding sanitizeAttributes_def attributes_cleaned [OF assms] Let_def obj_put_def by (auto intro!: attr_safe_define)
  show "link_safe tag (sanitizeAttributes as tag)"
    by (simp add: link_safe_def sanitizeAttributes_def obj_put_def Let_def map_of_define)
qed

lemma style_allowed: "js ''style'' \<in> set allowedTags" and style_not_forbidden: "js ''style'' \<notin> set forbiddenTags"
  by (simp_all add: allowedTags_def forbiddenTags_def)

lemma sanitize_node_safe:
  "parsed n \<Longrightarrow> list_all safe_node (sanitize_node n) \<longleftrightarrow> list_all safe_node (exposed n)"
proof (induction n rule: sanitize_node.induct)
  case (3 t as ns)
  let ?tag = "lower t"
  consider "?tag \<in> set forbiddenTags \<or> ?tag \<notin> set allowedTags" | "?tag = js ''style''"
    | "?tag \<notin> set forbiddenTags" "?tag \<in> set allowedTags" "?tag \<noteq> js ''style''" by blast
  then show ?case
  proof cases
    case 1
    then show ?thesis using style_allowed by (auto simp: Let_def)
  next
    case 2
    then show ?thesis
      using "3.prems" style_allowed style_not_forbidden sanitizeAttributes_safe [of as ?tag]
      unfolding sanitize_node.simps exposed.simps Let_def by (simp add: text_kids_def)
  next
    case 3
    have "list_all safe_node (concat (map sanitize_node ns)) \<longleftrightarrow> list_all safe_node (concat (map exposed ns))"
      using "3.prems" "3.IH" [OF refl 3(1)] 3(2,3) by (auto simp: list_all_concat list_all_iff)
    then show ?thesis
      using "3.prems" 3 sanitizeAttributes_safe [of as ?tag]
      unfolding sanitize_node.simps exposed.simps Let_def by simp
  qed
qed simp_all

text \<open>
  C18. The sanitized fragment is safe - allowed elements only, no handlers, no unsafe addresses, links
  with their protection, no comments - exactly when the children of the elements it unwraps are safe
  as they came: those children, and nothing else, get through unchecked.
\<close>

theorem sanitizer_safe_iff:
  assumes "list_all parsed ns"
  shows "list_all safe_node (sanitizeChildren ns) \<longleftrightarrow> list_all safe_node (concat (map exposed ns))"
  using assms sanitize_node_safe unfolding sanitizeChildren_def list_all_concat list_all_iff by auto

lemma sanitizer_safe_iff_witness:
  "safe_node (hd (sanitizeChildren [Element (js ''P'') [(js ''onclick'', js ''x'')] [CommentNode [], TextNode (js ''hi'')]]))"
proof -
  let ?n = "Element (js ''P'') [(js ''onclick'', js ''x'')] [CommentNode [], TextNode (js ''hi'')]"
  have "list_all safe_node (concat (map exposed [?n]))"
    by (simp add: lower_def lower_unit_def allowedTags_def forbiddenTags_def)
  then have "list_all safe_node (sanitizeChildren [?n])"
    using sanitizer_safe_iff [of "[?n]"] by simp
  moreover have "sanitizeChildren [?n] \<noteq> []"
    by (simp add: sanitizeChildren_def lower_def lower_unit_def allowedTags_def forbiddenTags_def Let_def)
  ultimately show ?thesis by (simp add: list_all_iff)
qed

text \<open>Anything at all passes inside an element of an unknown kind, for instance an image with a handler in a \<open>font\<close>.\<close>

lemma unwrapped_unchecked:
  assumes "lower t \<notin> set forbiddenTags" and "lower t \<notin> set allowedTags"
  shows "sanitizeChildren [Element t as ns] = ns"
  using assms by (simp add: sanitizeChildren_def Let_def)

lemma font_hides_image:
  "sanitizeChildren [Element (js ''FONT'') [] [Element (js ''IMG'') [(js ''onerror'', js ''x'')] []]]
     = [Element (js ''IMG'') [(js ''onerror'', js ''x'')] []]"
  by (rule unwrapped_unchecked) (simp_all add: lower_def lower_unit_def allowedTags_def forbiddenTags_def)

text \<open>Each pass over a style sheet runs once: what it removes can bring together what it looks for.\<close>

lemma import_survives: "sanitizeCss (js ''@@import a;import b'') = js ''@import b''"
  by (simp add: sanitizeCss_def replace_all.simps css_import_def css_call_def strip_ci_def fold_unit_def Let_def)

lemma url_survives: "sanitizeCss (js ''uexpression()rl(a)'') = js ''url(a)''"
  by (simp add: sanitizeCss_def replace_all.simps css_import_def css_call_def strip_ci_def fold_unit_def is_ws_def Let_def)

section \<open>Where a link leads\<close>

text \<open>
  The scheme of an address as the URL standard reads it: white space and control characters are cut
  off at both ends, tabs and line breaks are dropped, and the scheme is the name before the first colon.
\<close>

definition is_alpha :: "nat \<Rightarrow> bool" where
  "is_alpha c \<longleftrightarrow> (65 \<le> c \<and> c \<le> 90) \<or> (97 \<le> c \<and> c \<le> 122)"

definition scheme_char :: "nat \<Rightarrow> bool" where
  "scheme_char c \<longleftrightarrow> is_alpha c \<or> is_digit c \<or> c \<in> {43, 45, 46}"

definition strip_tail :: "jstr \<Rightarrow> jstr" where
  "strip_tail s = rev (dropWhile (\<lambda>c. c \<le> 32) (rev s))"

definition url_input :: "jstr \<Rightarrow> jstr" where
  "url_input s = filter (\<lambda>c. c \<notin> {9, 10, 13}) (strip_tail (dropWhile (\<lambda>c. c \<le> 32) s))"

definition url_scheme :: "jstr \<Rightarrow> jstr option" where
  "url_scheme s =
     (let t = url_input s; n = takeWhile scheme_char t; r = dropWhile scheme_char t
      in if t \<noteq> [] \<and> is_alpha (hd t) \<and> r \<noteq> [] \<and> hd r = 58 then Some (lower n) else None)"

lemma strip_tail_keeps: "32 < c \<Longrightarrow> \<exists>z. strip_tail (xs @ c # y) = xs @ c # z"
proof (cases "list_all (\<lambda>c. c \<le> 32) y")
  case True
  moreover assume "32 < c"
  ultimately have "strip_tail (xs @ c # y) = xs @ c # []"
    using dropWhile_append2 [of "rev y" "\<lambda>c. c \<le> 32"] by (simp add: strip_tail_def list_all_iff)
  then show ?thesis by blast
next
  case False
  then obtain x where "x \<in> set (rev y)" "\<not> x \<le> 32" by (auto simp: list_all_iff)
  then have "strip_tail (xs @ c # y) = xs @ c # strip_tail y"
    by (simp add: strip_tail_def dropWhile_append1)
  then show ?thesis by blast
qed

lemma url_scheme_name:
  assumes u: "list_all (\<lambda>c. c \<le> 32) u" and n: "list_all is_alpha n" "n \<noteq> []"
  shows "url_scheme (u @ n @ 58 # r) = Some (lower n)"
proof -
  have "dropWhile (\<lambda>c. c \<le> 32) (u @ n @ 58 # r) = n @ 58 # r"
    using u n by (cases n) (auto simp: list_all_iff dropWhile_append2 is_alpha_def)
  moreover obtain z where "strip_tail (n @ 58 # r) = n @ 58 # z"
    using strip_tail_keeps [of 58 n r] by auto
  moreover have "filter (\<lambda>c. c \<notin> {9, 10, 13}) n = n"
    using n(1) by (induction n) (auto simp: is_alpha_def)
  ultimately have t: "url_input (u @ n @ 58 # r) = n @ 58 # filter (\<lambda>c. c \<notin> {9, 10, 13}) z"
    by (simp add: url_input_def)
  have "scheme_char c" if "c \<in> set n" for c using n(1) that by (simp add: list_all_iff scheme_char_def)
  moreover have "\<not> scheme_char 58" by (simp add: scheme_char_def is_alpha_def is_digit_def)
  ultimately have "takeWhile scheme_char (n @ 58 # z') = n" "dropWhile scheme_char (n @ 58 # z') = 58 # z'" for z'
    by (simp_all add: takeWhile_append2 dropWhile_append2)
  then show ?thesis using n unfolding url_scheme_def t Let_def by (cases n) simp_all
qed

lemma url_scheme_other:
  assumes "32 < c" and "\<not> is_alpha c" and "list_all (\<lambda>c. c \<le> 32) u"
  shows "url_scheme (u @ c # r) = None"
proof -
  have "dropWhile (\<lambda>c. c \<le> 32) (u @ c # r) = c # r"
    using assms by (simp add: list_all_iff dropWhile_append2)
  moreover obtain z where "strip_tail (c # r) = c # z" using strip_tail_keeps [of c "[]" r] assms(1) by auto
  ultimately show ?thesis using assms(1,2) by (simp add: url_scheme_def url_input_def Let_def)
qed

lemma trim_cuts:
  obtains u w where "v = u @ trim v @ w" and "list_all is_ws u"
proof -
  let ?t = "trim_start v"
  have "?t = trim_end ?t @ rev (takeWhile is_ws (rev ?t))"
    by (metis rev_append rev_rev_ident takeWhile_dropWhile_id trim_end_def)
  then have "v = takeWhile is_ws v @ trim v @ rev (takeWhile is_ws (rev ?t))"
    by (metis takeWhile_dropWhile_id trim_def trim_start_def)
  moreover have "list_all is_ws (takeWhile is_ws v)" by (auto simp: list_all_iff dest: set_takeWhileD)
  ultimately show ?thesis by (rule that)
qed

lemma lower_prefix:
  "starts_with p (lower w) \<Longrightarrow> 775 \<notin> set p \<Longrightarrow> p \<noteq> [] \<Longrightarrow> last p \<noteq> 105 \<Longrightarrow>
     \<exists>a b. w = a @ b \<and> map lower_unit a = map (\<lambda>c. [c]) p"
proof (induction p arbitrary: w)
  case (Cons c p)
  then obtain d w' where w: "w = d # w'" by (cases w) (auto simp: lower_def starts_with_def)
  have p: "starts_with (c # p) (lower_unit d @ lower w')" using Cons.prems(1) by (simp add: w lower_def)
  have d: "lower_unit d = [c]"
    using p Cons.prems(2-4) by (cases p) (auto simp: lower_unit_def starts_with_def split: if_splits)
  show ?case
  proof (cases "p = []")
    case True
    then have "w = [d] @ w'" "map lower_unit [d] = map (\<lambda>c. [c]) (c # p)" using d w by simp_all
    then show ?thesis by blast
  next
    case False
    have "starts_with p (lower w')" using p by (simp add: d starts_with_def)
    then obtain a b where "w' = a @ b" "map lower_unit a = map (\<lambda>c. [c]) p"
      using Cons.IH [of w'] Cons.prems False by auto
    then have "w = (d # a) @ b" "map lower_unit (d # a) = map (\<lambda>c. [c]) (c # p)" using d w by simp_all
    then show ?thesis by blast
  qed
qed simp

lemma lower_unit_letter: "lower_unit d = [c] \<Longrightarrow> c \<noteq> 107 \<Longrightarrow> is_alpha d \<longleftrightarrow> is_alpha c"
  by (auto simp: lower_unit_def is_alpha_def split: if_splits)

lemma lower_letters_alpha:
  "map lower_unit a = map (\<lambda>c. [c]) n \<Longrightarrow> list_all is_alpha n \<Longrightarrow> 107 \<notin> set n \<Longrightarrow> list_all is_alpha a"
  by (induction a arbitrary: n) (auto simp: Cons_eq_map_conv lower_unit_letter)

lemma lower_unit_sign: "lower_unit d = [c] \<Longrightarrow> \<not> is_alpha c \<Longrightarrow> d = c"
  by (auto simp: lower_unit_def is_alpha_def split: if_splits)

lemma ws_scheme:
  assumes "list_all is_ws u" and "\<not> list_all (\<lambda>c. c \<le> 32) u"
  shows "url_scheme (u @ s) = None"
proof -
  obtain xs c ys where u: "u = xs @ c # ys" "\<not> c \<le> 32" "\<forall>x \<in> set xs. x \<le> 32"
    using split_list_first_prop [of u "\<lambda>c. \<not> c \<le> 32"] assms(2) by (auto simp: list_all_iff)
  moreover have "\<not> is_alpha c" using assms(1) u(1) by (auto simp: is_ws_def is_alpha_def)
  ultimately show ?thesis using url_scheme_other [of c xs "ys @ s"] by (simp add: list_all_iff)
qed

lemma named_scheme:
  assumes "starts_with (n @ 58 # r) (lower (trim v))" and n: "list_all is_alpha n" "n \<noteq> []" "107 \<notin> set n"
    and r: "775 \<notin> set (n @ 58 # r)" "last (58 # r) \<noteq> 105"
  shows "url_scheme v \<in> {None, Some n}"
proof -
  obtain u w where v: "v = u @ trim v @ w" and u: "list_all is_ws u" by (rule trim_cuts)
  obtain a b where t: "trim v = a @ b" "map lower_unit a = map (\<lambda>c. [c]) (n @ 58 # r)"
    using lower_prefix [OF assms(1) r(1)] r(2) by auto
  then obtain an d ar where a: "a = an @ d # ar" "map lower_unit an = map (\<lambda>c. [c]) n" "lower_unit d = [58]"
    by (auto simp: map_eq_append_conv)
  have d: "d = 58" using lower_unit_sign [OF a(3)] by (simp add: is_alpha_def)
  have an: "lower an = n" using a(2) by (simp add: lower_def)
  have "list_all is_alpha an"
    using a(2) n(1,3) by (rule lower_letters_alpha)
  moreover have "an \<noteq> []" using a(2) n(2) by auto
  ultimately have "list_all (\<lambda>c. c \<le> 32) u \<Longrightarrow> url_scheme (u @ an @ 58 # ar @ b @ w) = Some n"
    using url_scheme_name [of u an "ar @ b @ w"] an by simp
  then show ?thesis using ws_scheme [OF u] v t(1) a(1) d by (metis append.assoc append_Cons insertCI)
qed

text \<open>
  An address that passes the check leads, as browsers read it, to \<open>http\<close>, \<open>https\<close> or \<open>mailto\<close>
  or is relative: no white space, no control character and no letter outside ASCII can bring another
  scheme, such as \<open>javascript\<close>, through.
\<close>

theorem safe_href_scheme:
  assumes "isSafeHref v"
  shows "url_scheme v \<in> {None, Some (js ''https''), Some (js ''http''), Some (js ''mailto'')}"
proof -
  have sign: "url_scheme v = None" if p: "starts_with [c] (lower (trim v))" and c: "c = 35 \<or> c = 47" for c
  proof -
    obtain u w where v: "v = u @ trim v @ w" and u: "list_all is_ws u" by (rule trim_cuts)
    have "775 \<notin> set [c]" "[c] \<noteq> []" "last [c] \<noteq> 105" using c by auto
    from lower_prefix [OF p this] obtain a b where t: "trim v = a @ b" "map lower_unit a = map (\<lambda>c. [c]) [c]" by blast
    then have a: "a = [c]" using lower_unit_sign [of _ c] c by (auto simp: is_alpha_def)
    have "list_all (\<lambda>c. c \<le> 32) u \<Longrightarrow> url_scheme (u @ c # b @ w) = None"
      using c url_scheme_other [of c u "b @ w"] by (auto simp: is_alpha_def)
    then show ?thesis using ws_scheme [OF u] v t(1) a by (metis append.assoc append_Cons append_Nil)
  qed
  have https: "url_scheme v \<in> {None, Some n}" if "starts_with (n @ 58 # r) (lower (trim v))"
    and "n \<in> {js ''https'', js ''http'', js ''mailto''}" and "r \<in> {[], [47, 47]}" for n r
    by (rule named_scheme [OF that(1)]) (use that(2,3) in \<open>auto simp: is_alpha_def\<close>)
  consider "starts_with (js ''https'' @ 58 # [47, 47]) (lower (trim v))" | "starts_with (js ''http'' @ 58 # [47, 47]) (lower (trim v))"
    | "starts_with (js ''mailto'' @ 58 # []) (lower (trim v))" | "starts_with [35] (lower (trim v))" | "starts_with [47] (lower (trim v))"
    using assms by (auto simp: isSafeHref_def Let_def)
  then show ?thesis by cases (use https sign in blast)+
qed

lemma safe_href_scheme_witness:
  "url_scheme (js '' https://x'') = Some (js ''https'')"
proof -
  have "isSafeHref (js '' https://x'')"
    by (simp add: isSafeHref_def trim_def trim_start_def trim_end_def is_ws_def lower_def lower_unit_def starts_with_def)
  then have "url_scheme (js '' https://x'') \<in> {None, Some (js ''https''), Some (js ''http''), Some (js ''mailto'')}"
    by (rule safe_href_scheme)
  then show ?thesis
    by (simp add: url_scheme_def url_input_def strip_tail_def scheme_char_def is_alpha_def is_digit_def lower_def lower_unit_def Let_def)
qed

end
