(* ===== verification/ReportTree.thy ===== *)
theory ReportTree
  imports HtmlReport
begin

text \<open>
  How a report becomes a tree of components: \<open>RenderedElement\<close> of
  src/ui/web/src/components/chat/ReportRenderer.tsx, from the root down, with the guards against
  missing and repeated elements.
\<close>

datatype shown_report = ShownMissing jstr | ShownRecursive | ShownElement jstr report_element "shown_report list"

text \<open>
  The elements are looked up in a plain object: for a name like \<open>constructor\<close> that no element has,
  the inherited member is found, it has no children, and reading their \<open>map\<close> throws (\<open>None\<close>).
\<close>

function render_element :: "elements \<Rightarrow> jstr \<Rightarrow> jstr list \<Rightarrow> nat \<Rightarrow> shown_report option" where
  "render_element els i seen depth =
     (if \<not> element_present els i then Some (ShownMissing i)
      else if i \<in> set seen \<or> 30 < depth then Some ShownRecursive
      else (case map_of els i of
          None \<Rightarrow> None
        | Some el \<Rightarrow> map_option (ShownElement i el)
            (those (map (\<lambda>c. render_element els c (seen @ [i]) (depth + 1)) (re_children el)))))"
  by pat_completeness auto
termination
  by (relation "measure (\<lambda>(els, i, seen, depth). 31 - depth)") auto

declare render_element.simps [simp del]

definition ReportRenderer :: "report_spec \<Rightarrow> shown_report option" where
  "ReportRenderer spec = render_element (rs_elements spec) (rs_root spec) [] 0"

text \<open>An element that lists an inherited name as its child makes the whole report throw.\<close>

lemma inherited_child_throws:
  "ReportRenderer \<lparr>rs_root = js ''root'', rs_elements = [(js ''root'',
     \<lparr>re_type = JStr (js ''Stack''), re_props = [], re_children = [js ''constructor'']\<rparr>)], rs_state = None\<rparr> = None"
  by (simp add: ReportRenderer_def render_element.simps element_present_def proto_names_def)

section \<open>What is shown\<close>

fun shown_ids :: "shown_report \<Rightarrow> jstr list" where
  "shown_ids (ShownMissing i) = []"
| "shown_ids ShownRecursive = []"
| "shown_ids (ShownElement i el ts) = i # concat (map shown_ids ts)"

fun complete :: "shown_report \<Rightarrow> bool" where
  "complete (ShownElement i el ts) \<longleftrightarrow> list_all complete ts"
| "complete t \<longleftrightarrow> False"

text \<open>The subtree below an element has at most \<open>n\<close> levels, all of whose elements exist.\<close>

fun fits :: "elements \<Rightarrow> nat \<Rightarrow> jstr \<Rightarrow> bool" where
  "fits els 0 i = False"
| "fits els (Suc n) i = (case map_of els i of None \<Rightarrow> False | Some el \<Rightarrow> list_all (fits els n) (re_children el))"

definition levels :: "elements \<Rightarrow> jstr \<Rightarrow> nat" where
  "levels els i = (LEAST n. fits els n i)"

lemma fits_levels: "fits els n i \<Longrightarrow> fits els (levels els i) i"
  unfolding levels_def by (rule LeastI)

lemma levels_child:
  assumes "fits els n i" and "map_of els i = Some el" and "c \<in> set (re_children el)"
  shows "levels els c < levels els i" and "fits els (levels els i - 1) c"
proof -
  obtain m where m: "levels els i = Suc m" using fits_levels [OF assms(1)] by (cases "levels els i") auto
  then have "fits els (Suc m) i" using fits_levels [OF assms(1)] by simp
  then have c: "fits els m c" using assms(2,3) by (simp add: list_all_iff)
  then show "fits els (levels els i - 1) c" by (simp add: m)
  have "levels els c \<le> m" unfolding levels_def by (rule Least_le) (rule c)
  then show "levels els c < levels els i" by (simp add: m)
qed

definition kids_of :: "elements \<Rightarrow> jstr \<Rightarrow> jstr list" where
  "kids_of els i = (case map_of els i of Some el \<Rightarrow> re_children el | None \<Rightarrow> [])"

lemma those_map_some: "(\<And>x. x \<in> set xs \<Longrightarrow> f x = Some (g x)) \<Longrightarrow> those (map f xs) = Some (map g xs)"
  by (induction xs) simp_all

text \<open>
  Where the levels fit, the element is shown with everything below it; and what is shown is the element
  and, for every element shown, its children.
\<close>

lemma render_complete:
  "fits els n i \<Longrightarrow> n + depth \<le> 31 \<Longrightarrow> list_all (\<lambda>s. levels els i < levels els s) seen \<Longrightarrow>
   \<exists>t. render_element els i seen depth = Some t \<and> complete t \<and> set (shown_ids t) \<subseteq> fst ` set els \<and>
     mset (shown_ids t) = add_mset i (mset (concat (map (kids_of els) (shown_ids t))))"
proof (induction n arbitrary: i seen depth)
  case (Suc n)
  then obtain el where el: "map_of els i = Some el" by (auto split: option.splits)
  have here: "i \<notin> set seen" using Suc.prems(3) by (auto simp: list_all_iff)
  let ?r = "\<lambda>c. render_element els c (seen @ [i]) (depth + 1)"
  have "\<exists>t. ?r c = Some t \<and> complete t \<and> set (shown_ids t) \<subseteq> fst ` set els \<and> mset (shown_ids t) = add_mset c (mset (concat (map (kids_of els) (shown_ids t))))"
    if "c \<in> set (re_children el)" for c
  proof (rule Suc.IH)
    show "fits els n c" using Suc.prems(1) el that by (simp add: list_all_iff)
    show "n + (depth + 1) \<le> 31" using Suc.prems(2) by simp
    show "list_all (\<lambda>s. levels els c < levels els s) (seen @ [i])"
      using levels_child(1) [OF Suc.prems(1) el that] Suc.prems(3) by (auto simp: list_all_iff)
  qed
  then obtain g where g: "\<And>c. c \<in> set (re_children el) \<Longrightarrow> ?r c = Some (g c) \<and> complete (g c) \<and>
      set (shown_ids (g c)) \<subseteq> fst ` set els \<and>
      mset (shown_ids (g c)) = add_mset c (mset (concat (map (kids_of els) (shown_ids (g c)))))" by metis
  have "render_element els i seen depth = Some (ShownElement i el (map g (re_children el)))"
    using those_map_some [of "re_children el" ?r g] g el here Suc.prems(2)
    by (subst render_element.simps) (simp add: element_present_def)
  moreover have "mset (concat (map (\<lambda>c. shown_ids (g c)) cs)) =
      mset cs + mset (concat (map (kids_of els) (concat (map (\<lambda>c. shown_ids (g c)) cs))))"
    if "set cs \<subseteq> set (re_children el)" for cs
    using that g by (induction cs) auto
  from this [of "re_children el"] have "mset (concat (map (\<lambda>c. shown_ids (g c)) (re_children el))) =
      mset (kids_of els i) + mset (concat (map (kids_of els) (concat (map (\<lambda>c. shown_ids (g c)) (re_children el)))))"
    by (simp add: kids_of_def el)
  moreover have "i \<in> fst ` set els" using map_of_SomeD [OF el] by force
  moreover have "set (shown_ids (ShownElement i el (map g (re_children el)))) \<subseteq> fst ` set els"
    using \<open>i \<in> fst ` set els\<close> g by auto
  ultimately show ?case using g by (auto simp: list_all_iff comp_def)
qed simp

lemma count_concat: "count (mset (concat (map f xs))) x = (\<Sum>p\<leftarrow>xs. count (mset (f p)) x)"
  by (induction xs) simp_all

lemma sum_here: "(\<Sum>q\<leftarrow>xs. if q = p then 1 else 0) = count (mset xs) p"
  by (induction xs) simp_all

lemma one_parent:
  "distinct (concat (map f es)) \<Longrightarrow> a \<in> set es \<Longrightarrow> b \<in> set es \<Longrightarrow> c \<in> set (f a) \<Longrightarrow> c \<in> set (f b) \<Longrightarrow> a = b"
  by (induction es) auto

lemma kids_count:
  assumes tree: "report_tree spec" and el: "(p, el) \<in> set (rs_elements spec)" "c \<in> set (re_children el)"
    and q: "q \<in> fst ` set (rs_elements spec)"
  shows "count (mset (kids_of (rs_elements spec) q)) c = (if q = p then 1 else 0)"
proof -
  let ?els = "rs_elements spec"
  have dist: "distinct (map fst ?els)" "distinct (concat (map (\<lambda>e. re_children (snd e)) ?els))"
    using tree by (simp_all add: report_tree_def listed_children_def)
  obtain el' where el': "(q, el') \<in> set ?els" using q by auto
  then have kids: "kids_of ?els q = re_children el'" using dist(1) by (simp add: kids_of_def)
  have "distinct (re_children el')" using dist(2) el' by (auto simp: distinct_concat_iff)
  then have "count (mset (re_children el')) c = (if c \<in> set (re_children el') then 1 else 0)"
    by (simp add: distinct_count_atmost_1)
  moreover have "c \<in> set (re_children el') \<longleftrightarrow> q = p"
  proof
    assume "c \<in> set (re_children el')"
    then show "q = p" using one_parent [OF dist(2) el' el(1)] el(2) by auto
  next
    assume "q = p"
    then show "c \<in> set (re_children el')" using el el' dist(1) by (metis eq_key_imp_eq_value)
  qed
  ultimately show ?thesis by (simp add: kids)
qed

text \<open>In a tree every element is shown exactly once.\<close>

lemma shown_once:
  assumes tree: "report_tree spec" and fit: "fits (rs_elements spec) 31 (rs_root spec)"
  shows "\<exists>t. ReportRenderer spec = Some t \<and> complete t \<and> mset (shown_ids t) = mset (map fst (rs_elements spec))"
proof -
  let ?els = "rs_elements spec"
  obtain t where t: "ReportRenderer spec = Some t" "complete t" "set (shown_ids t) \<subseteq> fst ` set ?els"
      "mset (shown_ids t) = add_mset (rs_root spec) (mset (concat (map (kids_of ?els) (shown_ids t))))"
    using render_complete [OF fit, of 0 "[]"] by (auto simp: ReportRenderer_def)
  have count: "count (mset (shown_ids t)) x = (if x = rs_root spec then 1 else 0) + (\<Sum>q\<leftarrow>shown_ids t. count (mset (kids_of ?els q)) x)" for x
    using arg_cong [OF t(4), of "\<lambda>m. count m x"] by (simp add: count_concat)
  have root: "rs_root spec = js ''root''" "js ''root'' \<notin> set (listed_children spec)"
    using tree by (auto simp: report_tree_def)
  have once: "count (mset (shown_ids t)) x = 1" if "below_root spec x" for x
    using that
  proof (induction rule: below_root.induct)
    case root_below
    have "set (kids_of ?els q) \<subseteq> set (listed_children spec)" for q
      by (cases "map_of ?els q") (force simp: kids_of_def listed_children_def dest: map_of_SomeD)+
    then have "count (mset (kids_of ?els q)) (rs_root spec) = 0" for q
      using root by (auto simp: count_eq_zero_iff)
    then show ?case unfolding count by simp
  next
    case (child_below p el c)
    have "c \<in> set (listed_children spec)" using child_below.hyps by (force simp: listed_children_def)
    then have "c \<noteq> rs_root spec" using root by auto
    moreover have "(\<Sum>q\<leftarrow>shown_ids t. count (mset (kids_of ?els q)) c) = (\<Sum>q\<leftarrow>shown_ids t. if q = p then 1 else 0)"
      by (rule arg_cong [where f = sum_list], rule map_cong [OF refl], rule kids_count [OF tree]) (use child_below.hyps t(3) in auto)
    ultimately show ?case using child_below.IH unfolding count [of c] sum_here by simp
  qed
  have "mset (shown_ids t) = mset (map fst ?els)"
  proof (rule multiset_eqI)
    fix x
    show "count (mset (shown_ids t)) x = count (mset (map fst ?els)) x"
    proof (cases "x \<in> fst ` set ?els")
      case True
      have "distinct (map fst ?els)" using tree by (simp add: report_tree_def)
      then have "count (mset (map fst ?els)) x = (if x \<in> set (map fst ?els) then 1 else 0)"
        unfolding distinct_count_atmost_1 by blast
      then have "count (mset (map fst ?els)) x = 1" using True by (simp del: mset_map)
      moreover have "below_root spec x" using True tree by (auto simp: report_tree_def list_all_iff)
      ultimately show ?thesis using once by simp
    next
      case False
      then have "x \<notin> set (shown_ids t)" using t(3) by blast
      moreover have "x \<notin> set (map fst ?els)" using False by simp
      ultimately show ?thesis by (metis count_mset_0_iff)
    qed
  qed
  then show ?thesis using t(1,2) by blast
qed

section \<open>Reports from HTML and from trees\<close>

lemma element_report_fits: "fits (rs_elements (element_report found)) 31 (rs_root (element_report found))"
proof -
  define stack where "stack = \<lparr>re_type = JStr (js ''Stack''), re_props = [(js ''gap'', JStr (js ''md''))],
    re_children = numbers (length found)\<rparr>"
  define els where "els = numbered found @ [(root_id, stack)]"
  have eq: "rs_elements (element_report found) = els" "rs_root (element_report found) = root_id"
    by (simp_all add: element_report_eq els_def stack_def root_id_def)
  have "root_id \<notin> fst ` set (numbered found)" by (auto simp: numbered_def)
  then have root: "map_of els root_id = Some stack" by (simp add: els_def map_add_dom_app_simps map_of_append map_add_def split: option.split)
      (metis map_of_eq_None_iff option.distinct(1))
  have leaf: "fits els 30 k" if "k \<in> set (numbers (length found))" for k
  proof -
    have "k \<in> fst ` set (numbered found)" using that arg_cong [OF numbered_keys [of found], of set] by simp
    then obtain el where el: "map_of (numbered found) k = Some el" by (metis map_of_eq_None_iff not_None_eq)
    then have "map_of els k = Some el" "re_children el = []"
      using map_of_SomeD [OF el] by (auto simp: els_def numbered_def leaf_def)
    then show ?thesis using fits.simps(2) [of els 29 k] by simp
  qed
  have "fits els 31 root_id \<longleftrightarrow> list_all (fits els 30) (re_children stack)"
    using fits.simps(2) [of els 30 root_id] by (simp add: root)
  then show ?thesis unfolding eq using leaf by (simp add: stack_def list_all_iff)
qed

lemma loan_spec_fits: "fits (rs_elements (loan_spec m r)) 31 (rs_root (loan_spec m r))"
  by (simp add: loan_spec_def eval_nat_numeral)

text \<open>
  Whatever html is converted to a report, the report is shown completely: every element of the
  specification appears exactly once, none is reported missing or recursive, and nothing throws.
\<close>

theorem html_report_shown:
  assumes "htmlToReportSpec strip_marks html = Some spec"
  shows "\<exists>t. ReportRenderer spec = Some t \<and> complete t \<and> mset (shown_ids t) = mset (map fst (rs_elements spec))"
proof -
  have "(\<exists>found. spec = element_report found) \<or> (\<exists>r. spec = loan_spec strip_marks r)"
    using assms by (auto simp: htmlToReportSpec_def loanStatusHtmlToReportSpec_def genericHtmlToReportSpec_def
        split: option.splits)
  then show ?thesis
    using shown_once element_report_tree element_report_fits loan_spec_tree loan_spec_fits by metis
qed

lemma html_plain_hi: "htmlToReportSpec id (js ''hi'') = Some (text_report [js ''hi''])"
proof -
  have plain: "60 \<notin> set (js ''hi'')" "38 \<notin> set (js ''hi'')" by simp_all
  note tags = untagged [OF plain(1)]
  have lines: "htmlToTextLines (js ''hi'') = Some [js ''hi'']"
    unfolding htmlToTextLines_def tags entity_free [OF plain(2)] option.map hi_lines ..
  show ?thesis
    unfolding htmlToReportSpec_def loanStatusHtmlToReportSpec_def parseLoanStatusReport_def genericHtmlToReportSpec_def
      generic_elements_def tags lines option.map hi_no_loan text_report_def
    by (simp add: map_filter_simps)
qed

lemma html_report_shown_witness:
  "\<exists>t. ReportRenderer (text_report [js ''hi'']) = Some t \<and> complete t \<and> length (shown_ids t) = 2"
proof -
  from html_report_shown [OF html_plain_hi] obtain t where "ReportRenderer (text_report [js ''hi'']) = Some t" "complete t"
      "mset (shown_ids t) = mset (map fst (rs_elements (text_report [js ''hi''])))" by blast
  moreover from this have "length (shown_ids t) = length (rs_elements (text_report [js ''hi'']))"
    by (metis size_mset length_map)
  ultimately show ?thesis by (simp add: text_report_def element_report_eq numbered_def)
qed

text \<open>
  A tree of nodes that is at most 31 levels deep is shown completely: flattened to a specification
  and drawn from its root, it shows each of its elements exactly once.
\<close>

theorem tree_report_shown:
  assumes "parseTreeSpec ob = Some spec" and "fits (rs_elements spec) 31 (rs_root spec)"
  shows "\<exists>t. ReportRenderer spec = Some t \<and> complete t \<and> mset (shown_ids t) = mset (map fst (rs_elements spec))"
proof (rule shown_once [OF _ assms(2)])
  show "report_tree spec"
    using tree_spec_shape [OF assms(1)] tree_ids [OF assms(1)] tree_below [OF assms(1)]
    by (auto simp: report_tree_def list_all_iff root_id_def)
qed

definition single_node :: jsobj where
  "single_node = [(js ''type'', JStr (js ''Text''))]"

lemma single_node_parses:
  "\<exists>spec el. parseTreeSpec single_node = Some spec \<and> rs_root spec = root_id \<and> rs_elements spec = [(root_id, el)] \<and>
    re_children el = []"
  by (simp add: parseTreeSpec_def single_node_def add_node_obj add_node.simps tree_type_def obj_get_def
      fresh_id_def tree_start_def put_element_def element_present_def obj_set_def root_id_def
      proto_key_def Let_def proto_names_def)

lemma tree_report_shown_witness:
  "\<exists>spec t. parseTreeSpec single_node = Some spec \<and> ReportRenderer spec = Some t \<and> complete t \<and> length (shown_ids t) = 1"
proof -
  obtain spec el where spec: "parseTreeSpec single_node = Some spec" "rs_root spec = root_id"
      "rs_elements spec = [(root_id, el)]" "re_children el = []" using single_node_parses by blast
  then have "fits (rs_elements spec) 31 (rs_root spec)" using fits.simps(2) [of "rs_elements spec" 30 root_id] by simp
  from tree_report_shown [OF spec(1) this] show ?thesis using spec(1,3) by (metis length_Cons list.size(3) length_map size_mset One_nat_def)
qed

end
