(* ===== verification/RendererData.thy ===== *)
theory RendererData
  imports ReportProps JsonPrint HtmlText
begin

text \<open>
  The data that a report hands to its charts: the helpers of
  src/ui/web/src/components/chat/ReportRenderer.tsx and lib/compact-number.ts.  Properties come from
  JSON, so no value is a \<open>Date\<close>; a date is its time in milliseconds, \<open>NaN\<close> for an invalid one.
  \<open>parse_date\<close> stands for \<open>new Date(text).getTime()\<close>, \<open>url_protocol\<close> for \<open>new URL(text).protocol\<close>
  (\<open>None\<close> where it throws) and \<open>short_decimal\<close> for the number format of the locale.
\<close>

section \<open>Reading properties\<close>

definition asRecord :: "jsval \<Rightarrow> jsobj" where
  "asRecord v = (case v of JObj ob \<Rightarrow> ob | _ \<Rightarrow> [])"

definition stringProp :: "jsobj \<Rightarrow> jstr \<Rightarrow> jstr" where
  "stringProp props key = (case obj_get props key of JStr s \<Rightarrow> s | _ \<Rightarrow> [])"

definition boolProp :: "jsobj \<Rightarrow> jstr \<Rightarrow> bool" where
  "boolProp props key \<longleftrightarrow> obj_get props key = JBool True"

definition numberProp :: "jsobj \<Rightarrow> jstr \<Rightarrow> jnum option" where
  "numberProp props key = (case obj_get props key of JNum n \<Rightarrow> if is_finite n then Some n else None | _ \<Rightarrow> None)"

definition arrayProp :: "jsobj \<Rightarrow> jstr \<Rightarrow> jsval list" where
  "arrayProp props key = (case obj_get props key of JArr vs \<Rightarrow> vs | _ \<Rightarrow> [])"

fun firstStringProp :: "jsobj \<Rightarrow> jstr list \<Rightarrow> jstr" where
  "firstStringProp props [] = []"
| "firstStringProp props (key # keys) = (case obj_get props key of
     JStr s \<Rightarrow> if trim s \<noteq> [] then s else firstStringProp props keys
   | JNum n \<Rightarrow> if is_finite n then num_str n else firstStringProp props keys
   | _ \<Rightarrow> firstStringProp props keys)"

definition tupleNumberProp :: "jsobj \<Rightarrow> jstr \<Rightarrow> (jnum \<times> jnum) option" where
  "tupleNumberProp props key = (case obj_get props key of
     JArr (JNum a # JNum b # _) \<Rightarrow> if is_finite a \<and> is_finite b then Some (a, b) else None
   | _ \<Rightarrow> None)"

definition enumProp :: "jsobj \<Rightarrow> jstr \<Rightarrow> jstr list \<Rightarrow> jstr \<Rightarrow> jstr" where
  "enumProp props key allowed fallback = (case obj_get props key of
     JStr s \<Rightarrow> if s \<in> set allowed then s else fallback | _ \<Rightarrow> fallback)"

definition clamp :: "jnum \<Rightarrow> jnum \<Rightarrow> jnum \<Rightarrow> jnum" where
  "clamp v lo hi = n_min hi (n_max lo v)"

definition or_num :: "jnum option \<Rightarrow> jnum option \<Rightarrow> jnum option" where
  "or_num a b = (case a of Some n \<Rightarrow> Some n | None \<Rightarrow> b)"

definition first_text :: "jstr \<Rightarrow> jstr \<Rightarrow> jstr" where
  "first_text a b = (if a \<noteq> [] then a else b)"

text \<open>\<open>a ?? b\<close>.\<close>

definition or_value :: "jsval \<Rightarrow> jsval \<Rightarrow> jsval" where
  "or_value a b = (if nullish a then b else a)"

section \<open>Dates\<close>

text \<open>\<open>new Date(n)\<close>: whole milliseconds, and an invalid date beyond 100 million days.\<close>

fun date_clip :: "jnum \<Rightarrow> jnum" where
  "date_clip (Fin q) = (if 8640000000000000 < \<bar>q\<bar> then NaN else Fin (of_int (if 0 \<le> q then \<lfloor>q\<rfloor> else \<lceil>q\<rceil>)))"
| "date_clip n = NaN"

definition dateFromValue :: "(jstr \<Rightarrow> jnum) \<Rightarrow> jsval \<Rightarrow> nat \<Rightarrow> jnum" where
  "dateFromValue parse_date v index = (case v of
     JNum n \<Rightarrow> if is_finite n then date_clip n else Fin (of_nat index)
   | JStr s \<Rightarrow> if trim s \<noteq> [] \<and> parse_date s \<noteq> NaN then parse_date s else Fin (of_nat index)
   | _ \<Rightarrow> Fin (of_nat index))"

section \<open>Colors\<close>

definition chartPalette :: "jstr list" where
  "chartPalette = map js [''var(--chart-line-primary)'', ''var(--chart-line-secondary)'', ''var(--chart-3)'',
     ''var(--chart-4)'', ''var(--chart-5)'', ''var(--chart-6)'', ''var(--chart-7)'', ''var(--chart-8)'',
     ''var(--chart-9)'', ''var(--chart-10)'', ''var(--chart-11)'', ''var(--chart-12)'']"

definition chartPaletteColor :: "nat \<Rightarrow> jstr" where
  "chartPaletteColor index = chartPalette ! (index mod length chartPalette)"

text \<open>The two forms of a lightness, \<open>0?\.\d+\<close> and \<open>\d+(?:\.\d+)?%\<close>: what follows.\<close>

definition fraction_at :: "jstr \<Rightarrow> jstr option" where
  "fraction_at s = (case s of c # r \<Rightarrow>
       if c = 46 \<and> takeWhile is_digit r \<noteq> [] then Some (dropWhile is_digit r) else None
     | [] \<Rightarrow> None)"

definition lightness_fraction :: "jstr \<Rightarrow> jstr option" where
  "lightness_fraction s = fraction_at (case s of c # r \<Rightarrow> if c = 48 then r else s | [] \<Rightarrow> [])"

definition lightness_percent :: "jstr \<Rightarrow> jstr option" where
  "lightness_percent s =
     (let r = dropWhile is_digit s; t = (case fraction_at r of Some u \<Rightarrow> u | None \<Rightarrow> r)
      in if takeWhile is_digit s \<noteq> [] \<and> t \<noteq> [] \<and> hd t = 37 then Some (tl t) else None)"

text \<open>\<open>\s+0(?:%|\b)\s+(?:none|0)\s*(?:\/[^)]*)?\)$\<close>.\<close>

definition past_ws :: "jstr \<Rightarrow> jstr option" where
  "past_ws s = (if s \<noteq> [] \<and> is_ws (hd s) then Some (dropWhile is_ws s) else None)"

definition no_hue :: "jstr \<Rightarrow> bool" where
  "no_hue s \<longleftrightarrow>
     (case (if s \<noteq> [] \<and> hd s = 48 then Some (tl s) else strip_ci (js ''none'') s) of None \<Rightarrow> False
         | Some t \<Rightarrow>
             let u = dropWhile is_ws t;
                 w = (if u \<noteq> [] \<and> hd u = 47 then dropWhile (\<lambda>c. c \<noteq> 41) u else u)
             in w = [41])"

definition no_chroma :: "jstr \<Rightarrow> bool" where
  "no_chroma s \<longleftrightarrow> (case past_ws s of
     None \<Rightarrow> False
   | Some r \<Rightarrow> r \<noteq> [] \<and> hd r = 48 \<and>
       (case past_ws (if tl r \<noteq> [] \<and> hd (tl r) = 37 then tl (tl r) else tl r) of None \<Rightarrow> False | Some t \<Rightarrow> no_hue t))"

definition isLegacyNeutralChartColor :: "jstr \<Rightarrow> bool" where
  "isLegacyNeutralChartColor v \<longleftrightarrow>
     (case strip_ci (js ''oklch('') (trim v) of
        None \<Rightarrow> False
      | Some r0 \<Rightarrow>
          let r = dropWhile is_ws r0
          in (case lightness_fraction r of Some t \<Rightarrow> no_chroma t | None \<Rightarrow> False) \<or>
             (case lightness_percent r of Some t \<Rightarrow> no_chroma t | None \<Rightarrow> False))"

definition neutralColorNames :: "jstr list" where
  "neutralColorNames = map js [''black'', ''gray'', ''grey'', ''neutral'', ''slate'', ''stone'', ''white'', ''zinc'']"

definition namedColors :: jsobj where
  "namedColors = map (\<lambda>(n, c). (js n, JStr (js c))) [(''amber'', ''var(--chart-3)''), (''blue'', ''var(--chart-1)''),
     (''cyan'', ''var(--chart-6)''), (''emerald'', ''var(--chart-2)''), (''fuchsia'', ''var(--chart-4)''),
     (''green'', ''var(--chart-2)''), (''indigo'', ''var(--chart-8)''), (''lime'', ''var(--chart-7)''),
     (''orange'', ''var(--chart-3)''), (''pink'', ''var(--chart-11)''), (''purple'', ''var(--chart-4)''),
     (''red'', ''var(--chart-5)''), (''rose'', ''var(--chart-5)''), (''sky'', ''var(--chart-6)''),
     (''teal'', ''var(--chart-9)''), (''violet'', ''var(--chart-8)''), (''yellow'', ''var(--chart-3)'')]"

definition chartColor :: "jstr \<Rightarrow> jstr \<Rightarrow> jsval" where
  "chartColor v fallback =
     (if isLegacyNeutralChartColor v then JStr fallback
      else
        let normalized = lower (strip_separators (trim v))
        in if normalized \<in> set neutralColorNames then JStr fallback
           else or_value (obj_get namedColors normalized) (JStr v))"

definition chartSegmentColor :: "jstr \<Rightarrow> nat \<Rightarrow> jsval" where
  "chartSegmentColor v index =
     (if v \<noteq> [] then chartColor v (chartPaletteColor index) else JStr (chartPaletteColor index))"

section \<open>Points and series\<close>

record data_point =
  dp_label :: jstr
  dp_value :: jnum

definition data_point_of :: "jsval \<Rightarrow> data_point option" where
  "data_point_of raw =
     (let label = stringProp (asRecord raw) (js ''label'')
      in case numberProp (asRecord raw) (js ''value'') of
           Some v \<Rightarrow> if label \<noteq> [] then Some \<lparr>dp_label = label, dp_value = v\<rparr> else None
         | None \<Rightarrow> None)"

definition chartData :: "jsobj \<Rightarrow> data_point list" where
  "chartData props = List.map_filter data_point_of (arrayProp props (js ''data''))"

record data_series =
  ds_key :: jstr
  ds_name :: jstr
  ds_fill :: jsval

definition rawSeriesChartData :: "jsobj \<Rightarrow> jstr \<Rightarrow> data_series list \<Rightarrow> jsobj list" where
  "rawSeriesChartData props xDataKey series =
     filter (\<lambda>point. (is_str (obj_get point xDataKey) \<or> is_num (obj_get point xDataKey)) \<and>
         (\<exists>item \<in> set series. numberProp point (ds_key item) \<noteq> None))
       (map asRecord (arrayProp props (js ''data'')))"

definition category_item :: "jsval list \<Rightarrow> nat \<times> jsval \<Rightarrow> jsval" where
  "category_item colors x = (case x of (i, item) \<Rightarrow>
     (case item of
        JStr s \<Rightarrow> JObj [(js ''dataKey'', item), (js ''name'', item),
          (js ''color'', if i < length colors \<and> is_str (colors ! i) then colors ! i else JUndef)]
      | _ \<Rightarrow> item))"

definition y_key_item :: "jsval \<Rightarrow> jsval" where
  "y_key_item item = (case item of JStr s \<Rightarrow> JObj [(js ''dataKey'', item), (js ''name'', item)] | _ \<Rightarrow> item)"

definition chartSeriesSource :: "jsobj \<Rightarrow> jsval list" where
  "chartSeriesSource props =
     (let series = arrayProp props (js ''series''); bars = arrayProp props (js ''bars'');
          categories = arrayProp props (js ''categories'')
      in if series \<noteq> [] then series else if bars \<noteq> [] then bars
         else if categories \<noteq> [] then map (category_item (arrayProp props (js ''colors''))) (enumerate 0 categories)
         else map y_key_item (arrayProp props (js ''yKeys'')))"

definition series_of :: "nat \<times> jsval \<Rightarrow> data_series option" where
  "series_of x = (case x of (i, item) \<Rightarrow>
     let record = asRecord item;
         dataKey = firstStringProp record [js ''dataKey'', js ''key'', js ''valueKey''];
         explicitFill = firstStringProp record [js ''fill'', js ''color'', js ''stroke''];
         fallbackFill = chartPaletteColor i
     in if dataKey = [] then None
        else Some \<lparr>ds_key = dataKey,
          ds_name = first_text (firstStringProp record [js ''name'', js ''label'', js ''title'']) dataKey,
          ds_fill = (if explicitFill \<noteq> [] then chartColor explicitFill fallbackFill else JStr fallbackFill)\<rparr>)"

text \<open>\<open>inferChartSeries\<close> of this file.\<close>

definition infer_series :: "jsobj \<Rightarrow> jstr \<Rightarrow> data_series list" where
  "infer_series props xDataKey =
     (if xDataKey = [] then []
      else
        let row_keys = (\<lambda>keys point. foldl (\<lambda>keys (key, v).
              if key \<noteq> xDataKey \<and> finite_num v then add_key keys key else keys) keys (obj_entries point));
            keys = foldl row_keys [] (map asRecord (arrayProp props (js ''data'')))
        in if length keys \<le> 1 then []
           else map (\<lambda>(i, k). \<lparr>ds_key = k, ds_name = k, ds_fill = JStr (chartPaletteColor i)\<rparr>) (enumerate 0 keys))"

definition chartSeries :: "jsobj \<Rightarrow> jstr \<Rightarrow> data_series list" where
  "chartSeries props xDataKey =
     (let series = List.map_filter series_of (enumerate 0 (chartSeriesSource props))
      in if series \<noteq> [] then series else infer_series props xDataKey)"

definition label_keys :: "jstr list" where
  "label_keys = [js ''label'', js ''date'', js ''week'', js ''month'', js ''name'', js ''category'']"

definition inferChartXDataKey :: "jsobj \<Rightarrow> jstr" where
  "inferChartXDataKey props =
     (let data = map asRecord (arrayProp props (js ''data''))
      in case filter (\<lambda>key. \<exists>point \<in> set data. firstStringProp point [key] \<noteq> []) label_keys of
           [] \<Rightarrow> [] | key # _ \<Rightarrow> key)"

definition chartXDataKey :: "jsobj \<Rightarrow> jstr" where
  "chartXDataKey props =
     first_text (firstStringProp props [js ''xDataKey'', js ''xAxisKey'', js ''xKey'', js ''categoryKey'', js ''labelKey'', js ''index''])
       (first_text (stringProp (asRecord (obj_get props (js ''xAxis''))) (js ''dataKey'')) (inferChartXDataKey props))"

definition chartCategoryLabel :: "jsval \<Rightarrow> jstr \<Rightarrow> jstr" where
  "chartCategoryLabel point xDataKey = firstStringProp (asRecord point) (xDataKey # label_keys)"

section \<open>The data of each kind of chart\<close>

record segment_point =
  sg_label :: jstr
  sg_value :: jnum
  sg_color :: jsval
  sg_display :: "jstr option"
  sg_max :: "jnum option"

definition segment_of :: "nat \<times> jsval \<Rightarrow> segment_point option" where
  "segment_of x = (case x of (index, raw) \<Rightarrow>
     let point = asRecord raw; label = stringProp point (js ''label''); display = stringProp point (js ''displayValue'')
     in case numberProp point (js ''value'') of
          None \<Rightarrow> None
        | Some v \<Rightarrow> if label = [] then None
            else Some \<lparr>sg_label = label, sg_value = v,
              sg_color = chartSegmentColor (firstStringProp point [js ''color'', js ''fill'']) index,
              sg_display = (if display \<noteq> [] then Some display else None), sg_max = numberProp point (js ''maxValue'')\<rparr>)"

definition chartSegments :: "jsobj \<Rightarrow> segment_point list" where
  "chartSegments props = List.map_filter segment_of (enumerate 0 (arrayProp props (js ''data'')))"

definition timeSeriesRows :: "jsobj \<Rightarrow> (data_point \<times> nat) list" where
  "timeSeriesRows props = map (\<lambda>(i, p). (p, i)) (enumerate 0 (chartData props))"

record candle_row =
  cr_date :: jnum
  cr_open :: jnum
  cr_high :: jnum
  cr_low :: jnum
  cr_close :: jnum

definition num_or :: "jnum option \<Rightarrow> jnum \<Rightarrow> jnum" where
  "num_or a b = (case a of Some n \<Rightarrow> n | None \<Rightarrow> b)"

text \<open>One row, with the close of the row before it.\<close>

definition candle_row_of :: "(jstr \<Rightarrow> jnum) \<Rightarrow> jnum option \<Rightarrow> nat \<Rightarrow> jsobj \<Rightarrow> candle_row option" where
  "candle_row_of parse_date previousClose index row =
     (case or_num (numberProp row (js ''close'')) (numberProp row (js ''value'')) of
        None \<Rightarrow> None
      | Some close \<Rightarrow>
          let op = num_or (numberProp row (js ''open'')) (num_or previousClose close)
          in Some \<lparr>cr_date = dateFromValue parse_date
                 (or_value (obj_get row (js ''date'')) (or_value (obj_get row (js ''x'')) (obj_get row (js ''label'')))) index,
               cr_open = op,
               cr_high = num_or (numberProp row (js ''high'')) (n_mul (n_max op close) (Fin (51 / 50))),
               cr_low = num_or (numberProp row (js ''low'')) (n_mul (n_min op close) (Fin (49 / 50))),
               cr_close = close\<rparr>)"

fun candle_rows :: "(jstr \<Rightarrow> jnum) \<Rightarrow> jnum option \<Rightarrow> nat \<Rightarrow> jsobj list \<Rightarrow> candle_row list" where
  "candle_rows parse_date previousClose index [] = []"
| "candle_rows parse_date previousClose index (row # rows) =
     (case candle_row_of parse_date previousClose index row of
        None \<Rightarrow> candle_rows parse_date previousClose (index + 1) rows
      | Some c \<Rightarrow> c # candle_rows parse_date (Some (cr_close c)) (index + 1) rows)"

definition point_record :: "data_point \<Rightarrow> jsobj" where
  "point_record p = [(js ''label'', JStr (dp_label p)), (js ''value'', JNum (dp_value p))]"

definition candlestickData :: "(jstr \<Rightarrow> jnum) \<Rightarrow> jsobj \<Rightarrow> candle_row list" where
  "candlestickData parse_date props =
     (let rows = map asRecord (arrayProp props (js ''data'')); points = chartData props
      in if rows = [] \<and> points = [] then []
         else candle_rows parse_date None 0 (if rows \<noteq> [] then rows else map point_record points))"

definition choroplethData :: "jsobj \<Rightarrow> jsobj option" where
  "choroplethData props =
     (let data = asRecord (obj_get props (js ''data''))
      in if obj_get data (js ''type'') \<noteq> JStr (js ''FeatureCollection'') \<or> \<not> is_arr (obj_get data (js ''features''))
         then None else Some data)"

text \<open>The value in the middle and the percentage of the gauge.\<close>

definition gaugeValue :: "jsobj \<Rightarrow> jnum \<times> jnum" where
  "gaugeValue props =
     (let points = chartData props;
          v = num_or (numberProp props (js ''value'')) (if points = [] then Fin 0 else dp_value (last points));
          percent = (case numberProp props (js ''maxValue'') of
            Some m \<Rightarrow> if n_lt (Fin 0) m then n_mul (n_div v m) (Fin 100) else v
          | None \<Rightarrow> v)
      in (v, clamp percent (Fin 0) (Fin 100)))"

record heat_bin =
  hb_bin :: jnum
  hb_count :: jnum
  hb_date :: jnum

definition heat_bin_of :: "(jstr \<Rightarrow> jnum) \<Rightarrow> nat \<Rightarrow> jsobj \<Rightarrow> nat \<times> jsobj \<Rightarrow> heat_bin option" where
  "heat_bin_of parse_date columnIndex column x = (case x of (rowIndex, bin) \<Rightarrow>
     map_option (\<lambda>count. \<lparr>hb_bin = num_or (numberProp bin (js ''bin'')) (Fin (of_nat rowIndex)), hb_count = count,
         hb_date = dateFromValue parse_date (or_value (obj_get bin (js ''date''))
           (or_value (obj_get column (js ''date'')) (obj_get column (js ''label'')))) columnIndex\<rparr>)
       (or_num (numberProp bin (js ''count'')) (numberProp bin (js ''value''))))"

definition heat_column_of :: "(jstr \<Rightarrow> jnum) \<Rightarrow> nat \<times> jsobj \<Rightarrow> (jnum \<times> heat_bin list) option" where
  "heat_column_of parse_date x = (case x of (columnIndex, column) \<Rightarrow>
     let bins = List.map_filter (heat_bin_of parse_date columnIndex column)
           (enumerate 0 (map asRecord (arrayProp column (js ''bins''))))
     in if bins = [] then None else Some (num_or (numberProp column (js ''bin'')) (Fin (of_nat columnIndex)), bins))"

definition heatmapData :: "(jstr \<Rightarrow> jnum) \<Rightarrow> jsobj \<Rightarrow> (jnum \<times> heat_bin list) list" where
  "heatmapData parse_date props =
     (let nativeColumns = List.map_filter (heat_column_of parse_date)
           (enumerate 0 (map asRecord (arrayProp props (js ''data''))))
      in if nativeColumns \<noteq> [] then nativeColumns
         else map (\<lambda>(i, p). (Fin (of_nat i), [\<lparr>hb_bin = Fin 0, hb_count = dp_value p,
             hb_date = dateFromValue parse_date (JStr (dp_label p)) i\<rparr>])) (enumerate 0 (chartData props)))"

definition liveLineData :: "jsobj \<Rightarrow> (nat \<times> jnum) list" where
  "liveLineData props = map (\<lambda>(i, p). (1700000000 + i, dp_value p)) (enumerate 0 (chartData props))"

record radar_row =
  rr_label :: jstr
  rr_color :: "jstr option"
  rr_values :: "(jstr \<times> jnum) list"

definition radar_metric :: "jsval \<Rightarrow> (jstr \<times> jstr) option" where
  "radar_metric raw =
     (let metric = asRecord raw; key = firstStringProp metric [js ''key'', js ''value'', js ''name'']
      in if key = [] then None
         else Some (key, first_text (firstStringProp metric [js ''label'', js ''title'', js ''name'']) key))"

definition radar_value :: "jstr \<times> jsval \<Rightarrow> (jstr \<times> jnum) option" where
  "radar_value x = (case x of (key, v) \<Rightarrow>
     (case v of JNum n \<Rightarrow> if is_finite n then Some (key, clamp n (Fin 0) (Fin 100)) else None | _ \<Rightarrow> None))"

definition radar_row_of :: "jsobj \<Rightarrow> radar_row option" where
  "radar_row_of row =
     (let values = asRecord (obj_get row (js ''values''));
          label = firstStringProp row [js ''label'', js ''name'', js ''title''];
          color = stringProp row (js ''color'')
      in if values = [] \<or> label = [] then None
         else Some \<lparr>rr_label = label, rr_color = (if color \<noteq> [] then Some color else None),
           rr_values = List.map_filter radar_value (obj_entries values)\<rparr>)"

definition metric_id :: "nat \<Rightarrow> jstr" where
  "metric_id i = 109 # nat_str i"

definition n_max_list :: "jnum list \<Rightarrow> jnum" where
  "n_max_list ns = foldl n_max NInf ns"

definition radarData :: "jsobj \<Rightarrow> radar_row list \<times> (jstr \<times> jstr) list" where
  "radarData props =
     (let metrics = List.map_filter radar_metric (arrayProp props (js ''metrics''));
          nativeData = List.map_filter radar_row_of (map asRecord (arrayProp props (js ''data'')));
          points = chartData props;
          maxValue = n_max_list (map dp_value points @ [Fin 1])
      in if nativeData \<noteq> [] \<and> metrics \<noteq> [] then (nativeData, metrics)
         else (if points = [] then []
             else [\<lparr>rr_label = first_text (stringProp props (js ''seriesLabel'')) (first_text (stringProp props (js ''title'')) (js ''Values'')),
               rr_color = None,
               rr_values = map (\<lambda>(i, p). (metric_id i, clamp (n_mul (n_div (dp_value p) maxValue) (Fin 100)) (Fin 0) (Fin 100)))
                 (enumerate 0 points)\<rparr>],
           map (\<lambda>(i, p). (metric_id i, dp_label p)) (enumerate 0 points)))"

record ring_row =
  rg_label :: jstr
  rg_value :: jnum
  rg_max :: jnum
  rg_color :: jsval

definition ringData :: "jsobj \<Rightarrow> ring_row list" where
  "ringData props =
     (let segments = chartSegments props;
          maxFromData = n_max_list (map (\<lambda>p. num_or (sg_max p) (sg_value p)) segments @ [Fin 100])
      in map (\<lambda>p. \<lparr>rg_label = sg_label p, rg_value = sg_value p, rg_max = num_or (sg_max p) maxFromData, rg_color = sg_color p\<rparr>)
           segments)"

definition sankey_node :: "jsval \<Rightarrow> jsobj option" where
  "sankey_node raw =
     (let node = asRecord raw; name = firstStringProp node [js ''name'', js ''label'', js ''title'']
      in if name = [] then None else Some (obj_define (obj_entries node) (js ''name'') (JStr name)))"

definition link_object :: "jsobj \<Rightarrow> jnum \<Rightarrow> jnum \<Rightarrow> jnum \<Rightarrow> jsobj" where
  "link_object link s t v =
     obj_define (obj_define (obj_define link (js ''source'') (JNum s)) (js ''target'') (JNum t)) (js ''value'') (JNum v)"

definition sankey_link_of :: "jsval \<Rightarrow> jsobj option" where
  "sankey_link_of raw =
     (let link = asRecord raw
      in case (numberProp link (js ''source''), numberProp link (js ''target''), numberProp link (js ''value'')) of
           (Some s, Some t, Some v) \<Rightarrow> Some (link_object (obj_entries link) s t v)
         | _ \<Rightarrow> None)"

definition source_array :: "jsobj \<Rightarrow> jsobj \<Rightarrow> jstr \<Rightarrow> jsval list" where
  "source_array nativeData props key = (case obj_get nativeData key of JArr vs \<Rightarrow> vs | _ \<Rightarrow> arrayProp props key)"

definition sankeyData :: "jsobj \<Rightarrow> (jsobj list \<times> jsobj list) option" where
  "sankeyData props =
     (let nativeData = asRecord (obj_get props (js ''data''));
          nodes = List.map_filter sankey_node (source_array nativeData props (js ''nodes''));
          links = List.map_filter sankey_link_of (source_array nativeData props (js ''links''));
          points = chartData props
      in if nodes \<noteq> [] \<and> links \<noteq> [] then Some (nodes, links)
         else if length points < 2 then None
         else Some (map (\<lambda>p. [(js ''name'', JStr (dp_label p))]) points,
           map (\<lambda>i. link_object [] (Fin (of_nat i)) (Fin (of_nat (i + 1)))
               (n_max (Fin 0) (n_min (dp_value (points ! i)) (dp_value (points ! (i + 1))))))
             [0..<length points - 1]))"

record scatter_row =
  sc_label :: jstr
  sc_value :: jnum
  sc_x :: jnum

definition scatter_row_of :: "(jstr \<Rightarrow> jnum) \<Rightarrow> nat \<times> jsobj \<Rightarrow> scatter_row option" where
  "scatter_row_of parse_date x = (case x of (index, row) \<Rightarrow>
     map_option (\<lambda>v. \<lparr>sc_label = first_text (firstStringProp row [js ''label'', js ''name'', js ''title''])
           (js ''Point '' @ nat_str (index + 1)),
         sc_value = v,
         sc_x = dateFromValue parse_date
           (or_value (obj_get row (js ''x'')) (or_value (obj_get row (js ''date'')) (obj_get row (js ''label'')))) index\<rparr>)
       (or_num (numberProp row (js ''value'')) (numberProp row (js ''y''))))"

definition scatterData :: "(jstr \<Rightarrow> jnum) \<Rightarrow> jsobj \<Rightarrow> scatter_row list" where
  "scatterData parse_date props =
     (let nativeRows = List.map_filter (scatter_row_of parse_date) (enumerate 0 (map asRecord (arrayProp props (js ''data''))))
      in if nativeRows \<noteq> [] then nativeRows
         else map (\<lambda>(i, p). \<lparr>sc_label = dp_label p, sc_value = dp_value p, sc_x = dateFromValue parse_date (JStr (dp_label p)) i\<rparr>)
           (enumerate 0 (chartData props)))"

definition itemLabel :: "jsobj \<Rightarrow> nat \<Rightarrow> jstr" where
  "itemLabel item index =
     first_text (firstStringProp item [js ''label'', js ''title'', js ''text'', js ''name'', js ''value''])
       (js ''Item '' @ nat_str (index + 1))"

record legend_item =
  lg_label :: jstr
  lg_value :: "jnum option"
  lg_color :: jstr

definition legendItems :: "jsobj \<Rightarrow> legend_item list + segment_point list" where
  "legendItems props =
     (let explicit = map (\<lambda>(i, raw). \<lparr>lg_label = itemLabel (asRecord raw) i,
            lg_value = numberProp (asRecord raw) (js ''value''), lg_color = stringProp (asRecord raw) (js ''color'')\<rparr>)
          (enumerate 0 (arrayProp props (js ''items'')))
      in if explicit \<noteq> [] then Inl explicit else Inr (chartSegments props))"

section \<open>Texts and keys\<close>

text \<open>\<open>value.toFixed(1)\<close>: the nearest tenth, the larger one of two.\<close>

definition to_fixed_1 :: "rat \<Rightarrow> jstr" where
  "to_fixed_1 q =
     (let n = nat \<lfloor>\<bar>q\<bar> * 10 + 1 / 2\<rfloor>
      in (if q < 0 then [45] else []) @ nat_str (n div 10) @ [46] @ nat_str (n mod 10))"

text \<open>The Vietnamese words for a thousand, a million and a billion.\<close>

definition thousand_word :: jstr where
  "thousand_word = js ''ngh'' @ [236] @ js ''n''"

definition million_word :: jstr where
  "million_word = js ''tri'' @ [7879] @ js ''u''"

definition billion_word :: jstr where
  "billion_word = js ''t'' @ [7927]"

definition COMPACT_UNITS :: "(rat \<times> jstr) list" where
  "COMPACT_UNITS = [(1000000000000, thousand_word @ [32] @ billion_word), (1000000000, billion_word),
     (1000000, million_word), (1000, thousand_word)]"

text \<open>For the finite numbers that properties hold.\<close>

definition formatCompactNumber :: "(rat \<Rightarrow> jstr) \<Rightarrow> rat \<Rightarrow> jstr" where
  "formatCompactNumber short_decimal v =
     (case filter (\<lambda>(u, suffix). u \<le> \<bar>v\<bar>) COMPACT_UNITS of
        (u, suffix) # _ \<Rightarrow> short_decimal (v / u) @ [32] @ suffix
      | [] \<Rightarrow> if 100 \<le> \<bar>v\<bar> \<or> v = of_int \<lfloor>v\<rfloor> then int_str \<lfloor>v + 1 / 2\<rfloor> else to_fixed_1 v)"

definition formatChartValue :: "(rat \<Rightarrow> jstr) \<Rightarrow> rat \<Rightarrow> jstr \<Rightarrow> jstr" where
  "formatChartValue short_decimal v unit =
     (let formatted = formatCompactNumber short_decimal v
      in if unit = [] then formatted else if unit = js ''%'' then formatted @ unit else formatted @ [32] @ unit)"

definition compactIdentifier :: "jstr \<Rightarrow> jstr" where
  "compactIdentifier v = (if 12 < length v then take 8 v @ js ''...'' else v)"

definition itemContent :: "jsobj \<Rightarrow> jstr" where
  "itemContent item = firstStringProp item [js ''content'', js ''description'', js ''message'', js ''detail'', js ''body'']"

definition stableValueKey :: "jsval \<Rightarrow> jstr" where
  "stableValueKey v = first_text (case json_stringify 0 v of Some s \<Rightarrow> s | None \<Rightarrow> []) (to_str v)"

definition itemKey :: "jsobj \<Rightarrow> jstr" where
  "itemKey item = first_text (firstStringProp item [js ''id'', js ''key'', js ''value'', js ''label'', js ''title'', js ''text'',
       js ''name'', js ''content'', js ''description'', js ''detail'', js ''href'', js ''url'']) (stableValueKey (JObj item))"

definition cell_text :: "jsval \<Rightarrow> jstr" where
  "cell_text v = (if nullish v then [] else to_str v)"

definition rowKey :: "jsval \<Rightarrow> jstr list \<Rightarrow> jstr" where
  "rowKey row keys = (case row of
     JArr cells \<Rightarrow> join [124] (map cell_text cells)
   | _ \<Rightarrow> first_text (firstStringProp (asRecord row) [js ''id'', js ''key''])
       (first_text (join [124] (map (\<lambda>k. cell_text (obj_get (asRecord row) k)) keys)) (stableValueKey row)))"

definition safeHref :: "(jstr \<Rightarrow> jstr option) \<Rightarrow> jstr \<Rightarrow> jstr" where
  "safeHref url_protocol v =
     (if v = [] then []
      else if starts_with (js ''#'') v \<or> starts_with (js ''/'') v then v
      else (case url_protocol v of
          Some p \<Rightarrow> if p \<in> {js ''http:'', js ''https:'', js ''mailto:''} then v else []
        | None \<Rightarrow> []))"

definition safeImageSrc :: "(jstr \<Rightarrow> jstr option) \<Rightarrow> jstr \<Rightarrow> jstr" where
  "safeImageSrc url_protocol v =
     (if v = [] then []
      else if starts_with (js ''data:image/'') v then v
      else (case url_protocol v of
          Some p \<Rightarrow> if p \<in> {js ''http:'', js ''https:''} then v else []
        | None \<Rightarrow> []))"

datatype report_icon = IconCheck | IconTriangleAlert | IconX | IconImage | IconExternalLink | IconStar | IconMore | IconInfo

definition iconFor :: "jstr \<Rightarrow> report_icon" where
  "iconFor name =
     (let has = (\<lambda>p. includes_str (js p) (lower name))
      in if has ''check'' \<or> has ''success'' then IconCheck
         else if has ''alert'' \<or> has ''warning'' then IconTriangleAlert
         else if has ''error'' \<or> has ''x'' then IconX
         else if has ''image'' then IconImage
         else if has ''external'' \<or> has ''link'' then IconExternalLink
         else if has ''star'' \<or> has ''rating'' then IconStar
         else if has ''more'' \<or> has ''menu'' then IconMore
         else IconInfo)"

text \<open>The name ``external'' contains an x, so it never gets its own icon.\<close>

lemma external_icon: "iconFor (js ''external'') = IconX"
  by (simp add: iconFor_def lower_def lower_unit_def starts_with_def Let_def)

section \<open>The numbers that are drawn\<close>

definition in_percent :: "jnum \<Rightarrow> bool" where
  "in_percent v \<longleftrightarrow> n_le (Fin 0) v \<and> n_le v (Fin 100)"

lemma n_le_Fin [simp]: "n_le (Fin a) (Fin b) \<longleftrightarrow> a \<le> b"
  by (auto simp: n_le_def n_eq_def)

lemma clamp_percent: "is_finite v \<Longrightarrow> in_percent (clamp v (Fin 0) (Fin 100))"
  by (cases v) (auto simp: is_finite_def in_percent_def clamp_def n_max_def n_min_def)

lemma numberProp_finite: "numberProp props key = Some v \<Longrightarrow> is_finite v"
  by (auto simp: numberProp_def split: jsval.splits if_splits)

lemma chartData_finite: "p \<in> set (chartData props) \<Longrightarrow> is_finite (dp_value p)"
  by (auto simp: chartData_def map_filter_def data_point_of_def Let_def split: option.splits if_splits
      dest: numberProp_finite)

text \<open>The largest of finitely many finite numbers is finite, and at least each of them.\<close>

lemma n_max_fold:
  "list_all is_finite ns \<Longrightarrow> is_finite m \<Longrightarrow> is_finite (foldl n_max m ns) \<and> n_le m (foldl n_max m ns) \<and>
     list_all (\<lambda>n. n_le n (foldl n_max m ns)) ns"
proof (induction ns arbitrary: m)
  case Nil
  then show ?case by (cases m) (auto simp: is_finite_def)
next
  case (Cons n ns)
  obtain a b where ab: "m = Fin a" "n = Fin b" using Cons.prems by (cases m; cases n) (auto simp: is_finite_def)
  have fin: "is_finite (n_max m n)" by (simp add: ab n_max_def is_finite_def)
  have "is_finite (foldl n_max (n_max m n) ns) \<and> n_le (n_max m n) (foldl n_max (n_max m n) ns) \<and>
     list_all (\<lambda>k. n_le k (foldl n_max (n_max m n) ns)) ns"
    by (rule Cons.IH [OF _ fin]) (use Cons.prems in simp)
  moreover from this obtain c where c: "foldl n_max (n_max m n) ns = Fin c"
    by (cases "foldl n_max (n_max m n) ns") (auto simp: is_finite_def)
  moreover have "n_max m n = Fin (max a b)" by (simp add: ab n_max_def max_def)
  ultimately show ?case by (simp add: ab)
qed

lemma n_max_list_spec:
  assumes "list_all is_finite ns" and "ns \<noteq> []"
  shows "is_finite (n_max_list ns) \<and> list_all (\<lambda>n. n_le n (n_max_list ns)) ns"
proof -
  obtain n ms where ns: "ns = n # ms" using assms(2) by (cases ns) auto
  then have "n_max NInf n = n" using assms(1) by (cases n) (auto simp: n_max_def is_finite_def)
  then show ?thesis using n_max_fold [of ms n] assms(1) by (simp add: ns n_max_list_def)
qed

lemma gauge_percent: "in_percent (snd (gaugeValue props))"
proof -
  let ?v = "num_or (numberProp props (js ''value'')) (if chartData props = [] then Fin 0 else dp_value (last (chartData props)))"
  have v: "is_finite ?v"
    using chartData_finite [of "last (chartData props)" props] numberProp_finite [of props "js ''value''"]
    by (cases "numberProp props (js ''value'')") (auto simp: num_or_def is_finite_def [of "Fin 0"])
  have "is_finite (n_mul (n_div ?v m) (Fin 100))" if "numberProp props (js ''maxValue'') = Some m" "n_lt (Fin 0) m" for m
    using v numberProp_finite [OF that(1)] that(2) by (cases ?v; cases m) (auto simp: is_finite_def)
  then show ?thesis using v by (auto simp: gaugeValue_def Let_def clamp_percent split: option.splits)
qed

lemma radar_percent: "list_all (\<lambda>r. list_all (\<lambda>e. in_percent (snd e)) (rr_values r)) (fst (radarData props))"
proof -
  let ?points = "chartData props"
  let ?max = "n_max_list (map dp_value ?points @ [Fin 1])"
  have fin: "list_all is_finite (map dp_value ?points @ [Fin 1])"
    using chartData_finite by (auto simp: list_all_iff is_finite_def [of "Fin 1"])
  obtain m where m: "?max = Fin m" "1 \<le> m"
    using n_max_list_spec [OF fin] by (cases ?max) (auto simp: is_finite_def)
  have "in_percent (clamp (n_mul (n_div (dp_value p) ?max) (Fin 100)) (Fin 0) (Fin 100))" if "p \<in> set ?points" for p
    using chartData_finite [OF that] m by (intro clamp_percent) (cases "dp_value p"; auto simp: is_finite_def)
  moreover have "in_percent v" if "radar_value x = Some (k, v)" for x k v
    using that by (auto simp: radar_value_def clamp_percent split: prod.splits jsval.splits if_splits)
  then have "in_percent v" if "radar_row_of row = Some r" "(k, v) \<in> set (rr_values r)" for row r k v
    using that by (fastforce simp: radar_row_of_def Let_def map_filter_def split: if_splits)
  ultimately show ?thesis
    by (auto simp: radarData_def Let_def list_all_iff map_filter_def in_set_enumerate_eq)
qed

lemma numberProp_pred: "pred_option is_finite (numberProp props key)"
  by (cases "numberProp props key") (auto dest: numberProp_finite)

lemma segment_finite: "segment_of x = Some p \<Longrightarrow> is_finite (sg_value p) \<and> pred_option is_finite (sg_max p)"
  unfolding segment_of_def Let_def
  by (auto simp: numberProp_pred numberProp_finite split: prod.splits option.splits if_splits)

lemma segments_finite: "p \<in> set (chartSegments props) \<Longrightarrow> is_finite (num_or (sg_max p) (sg_value p))"
  using segment_finite by (fastforce simp: chartSegments_def map_filter_def num_or_def split: option.splits)

lemma ring_fits:
  "list_all2 (\<lambda>p r. case sg_max p of None \<Rightarrow> n_le (rg_value r) (rg_max r) | Some m \<Rightarrow> rg_max r = m)
     (chartSegments props) (ringData props)"
proof -
  let ?segs = "chartSegments props"
  let ?ns = "map (\<lambda>p. num_or (sg_max p) (sg_value p)) ?segs @ [Fin 100]"
  have "list_all is_finite ?ns"
    using segments_finite [of _ props] by (auto simp: list_all_iff is_finite_def [of "Fin 100"])
  then have "list_all (\<lambda>n. n_le n (n_max_list ?ns)) ?ns" using n_max_list_spec by blast
  then show ?thesis
    by (auto simp: ringData_def Let_def list_all2_map2 list_all2_same list_all_iff num_or_def split: option.splits)
qed

text \<open>
  Whatever numbers a report contains, the gauge shows a percentage from 0 to 100, all values of a
  radar lie between 0 and 100, and no ring that leaves its maximum open is filled beyond it.
\<close>

theorem drawn_in_range:
  "in_percent (snd (gaugeValue props)) \<and>
   list_all (\<lambda>r. list_all (\<lambda>e. in_percent (snd e)) (rr_values r)) (fst (radarData props)) \<and>
   list_all2 (\<lambda>p r. case sg_max p of None \<Rightarrow> n_le (rg_value r) (rg_max r) | Some m \<Rightarrow> rg_max r = m)
     (chartSegments props) (ringData props)"
  by (intro conjI gauge_percent radar_percent ring_fits)

text \<open>A candle without a high and a low of its own: its wick goes the wrong way for negative prices.\<close>

lemma candle_wick:
  assumes "candle_row_of parse_date prev i row = Some c" and "numberProp row (js ''high'') = None" and "numberProp row (js ''low'') = None"
    and "cr_open c = Fin p" and "cr_close c = Fin q" and "0 \<le> p" and "0 \<le> q"
  shows "n_le (cr_low c) (Fin p) \<and> n_le (cr_low c) (Fin q) \<and> n_le (Fin p) (cr_high c) \<and> n_le (Fin q) (cr_high c)"
  using assms by (auto simp: candle_row_of_def num_or_def n_max_def n_min_def Let_def split: option.splits if_splits)

lemma negative_candle:
  "\<exists>c. candle_row_of parse_date None 0 [(js ''close'', JNum (Fin (- 100)))] = Some c \<and> cr_close c = Fin (- 100) \<and>
     cr_high c = Fin (- 102) \<and> cr_low c = Fin (- 98)"
  by (simp add: candle_row_of_def numberProp_def obj_get_def or_num_def num_or_def is_finite_def n_max_def n_min_def Let_def)

text \<open>Nodes without a name are dropped, and the links still count them.\<close>

lemma sankey_links_shift:
  "sankeyData [(js ''nodes'', JArr [JNull, JObj [(js ''name'', JStr (js ''a''))], JObj [(js ''name'', JStr (js ''b''))]]),
     (js ''links'', JArr [JObj [(js ''source'', JNum (Fin 1)), (js ''target'', JNum (Fin 2)), (js ''value'', JNum (Fin 5))]])]
   = Some ([[(js ''name'', JStr (js ''a''))], [(js ''name'', JStr (js ''b''))]],
       [[(js ''source'', JNum (Fin 1)), (js ''target'', JNum (Fin 2)), (js ''value'', JNum (Fin 5))]])"
  by (simp add: sankeyData_def source_array_def asRecord_def obj_get_def sankey_node_def sankey_link_of_def numberProp_def
      is_finite_def link_object_def map_filter_simps arrayProp_def proto_names_def obj_entries_def is_index_def all_digits_def is_digit_def
      trim_def trim_start_def trim_end_def is_ws_def Let_def)

lemma constructor_color: "chartColor (js ''constructor'') fb = JBuiltin (js ''constructor'')"
  by (simp add: chartColor_def isLegacyNeutralChartColor_def strip_ci_def trim_def trim_start_def trim_end_def is_ws_def
      fold_unit_def strip_separators_def lower_def lower_unit_def neutralColorNames_def namedColors_def obj_get_def proto_names_def
      or_value_def nullish_def Let_def)

end
