(* ===== verification/MessageSegments.thy ===== *)
theory MessageSegments
  imports ReportSpec
begin

text \<open>
  Splitting the text of an answer into markdown, reports and html, src/ui/web/src/lib/report-spec.ts
  (\<open>parseReportMessageContent\<close>, \<open>parseHtmlMessageContent\<close>).  The regular expression for a fence
  matches three backticks, a label without newline or backtick, an optional newline, and the
  shortest text up to the next three backticks; its first match is computed by \<open>next_fence\<close>.
\<close>

datatype segment = SMarkdown jstr | SReport report_spec | SHtml jstr

section \<open>Fences\<close>

definition ticks :: jstr where
  "ticks = [96, 96, 96]"

text \<open>The text before the first three backticks and the text after them.\<close>

fun cut_ticks :: "jstr \<Rightarrow> (jstr \<times> jstr) option" where
  "cut_ticks [] = None"
| "cut_ticks (c # s) =
     (if starts_with ticks (c # s) then Some ([], drop 3 (c # s))
      else (case cut_ticks s of None \<Rightarrow> None | Some (a, b) \<Rightarrow> Some (c # a, b)))"

definition label_char :: "nat \<Rightarrow> bool" where
  "label_char c \<longleftrightarrow> c \<noteq> 10 \<and> c \<noteq> 96"

definition drop_newline :: "jstr \<Rightarrow> jstr" where
  "drop_newline s = (case s of [] \<Rightarrow> [] | c # t \<Rightarrow> if c = 10 then t else s)"

text \<open>What follows the opening backticks: the label, and the text after the label's line.\<close>

definition fence_label :: "jstr \<Rightarrow> jstr" where
  "fence_label s = takeWhile label_char s"

definition fence_body :: "jstr \<Rightarrow> jstr" where
  "fence_body s = drop_newline (dropWhile label_char s)"

record fence_match =
  fm_before :: jstr
  fm_text :: jstr
  fm_label :: jstr
  fm_code :: jstr
  fm_rest :: jstr

definition next_fence :: "jstr \<Rightarrow> fence_match option" where
  "next_fence s = (case cut_ticks s of
     None \<Rightarrow> None
   | Some (before, opened) \<Rightarrow>
       (case cut_ticks (fence_body opened) of
          None \<Rightarrow> None
        | Some (code, rest) \<Rightarrow> Some \<lparr>fm_before = before,
            fm_text = take (length s - length before - length rest) (drop (length before) s),
            fm_label = fence_label opened, fm_code = code, fm_rest = rest\<rparr>))"

definition fence_labels :: "jstr \<Rightarrow> jstr list" where
  "fence_labels rawLang = filter (\<lambda>l. l \<noteq> []) (split_ws (lower (trim rawLang)))"

definition isSpecFence :: "jstr \<Rightarrow> bool" where
  "isSpecFence rawLang \<longleftrightarrow> js ''spec'' \<in> set (fence_labels rawLang)
     \<or> js ''json-render'' \<in> set (fence_labels rawLang)"

definition isHtmlFence :: "jstr \<Rightarrow> bool" where
  "isHtmlFence rawLang \<longleftrightarrow> js ''chat-html'' \<in> set (fence_labels rawLang)
     \<or> js ''html-render'' \<in> set (fence_labels rawLang) \<or> js ''render-html'' \<in> set (fence_labels rawLang)"

section \<open>Segments\<close>

definition pushMarkdown :: "segment list \<Rightarrow> jstr \<Rightarrow> segment list" where
  "pushMarkdown segs content =
     (if content = [] then segs
      else if segs = [] then [SMarkdown content]
      else (case last segs of
         SMarkdown t \<Rightarrow> butlast segs @ [SMarkdown (t @ content)]
       | _ \<Rightarrow> segs @ [SMarkdown content]))"

text \<open>What a complete fence becomes; \<open>None\<close> leaves it as markdown.\<close>

definition report_fence :: "jstr \<Rightarrow> jstr \<Rightarrow> segment option" where
  "report_fence lang code =
     (case (if isSpecFence lang then parseReportSpec code else None) of
        Some spec \<Rightarrow> Some (SReport spec)
      | None \<Rightarrow> if isHtmlFence lang then Some (SHtml (trim code)) else None)"

definition html_fence :: "jstr \<Rightarrow> jstr \<Rightarrow> segment option" where
  "html_fence lang code = (if isHtmlFence lang then Some (SHtml (trim code)) else None)"

definition push_fence :: "(jstr \<Rightarrow> jstr \<Rightarrow> segment option) \<Rightarrow> segment list \<Rightarrow> fence_match \<Rightarrow> segment list" where
  "push_fence classify segs m =
     (let segs1 = pushMarkdown segs (fm_before m)
      in (case classify (fm_label m) (fm_code m) of
            Some seg \<Rightarrow> segs1 @ [seg]
          | None \<Rightarrow> pushMarkdown segs1 (fm_text m)))"

lemma cut_ticks_text: "cut_ticks s = Some (a, b) \<Longrightarrow> s = a @ ticks @ b"
proof (induction s arbitrary: a)
  case (Cons c s)
  show ?case
  proof (cases "starts_with ticks (c # s)")
    case True
    then obtain t where "c # s = ticks @ t" by (auto simp: starts_with_iff)
    with True Cons.prems show ?thesis by (auto simp: ticks_def)
  next
    case False
    with Cons show ?thesis by (auto split: option.splits)
  qed
qed simp

lemma fence_body_suffix: "\<exists>nl. dropWhile label_char s = nl @ fence_body s \<and> (nl = [] \<or> nl = [10])"
  by (auto simp: fence_body_def drop_newline_def split: list.split)

lemma next_fence_text:
  assumes "next_fence s = Some m"
  shows "s = fm_before m @ fm_text m @ fm_rest m"
    and "\<exists>nl. (nl = [] \<or> nl = [10]) \<and> fm_text m = ticks @ fm_label m @ nl @ fm_code m @ ticks"
proof -
  obtain before opened code rest where c: "cut_ticks s = Some (before, opened)"
      "cut_ticks (fence_body opened) = Some (code, rest)"
      and m: "m = \<lparr>fm_before = before,
        fm_text = take (length s - length before - length rest) (drop (length before) s),
        fm_label = fence_label opened, fm_code = code, fm_rest = rest\<rparr>"
    using assms by (auto simp: next_fence_def split: option.splits)
  obtain nl where nl: "dropWhile label_char opened = nl @ fence_body opened" "nl = [] \<or> nl = [10]"
    using fence_body_suffix by blast
  have "opened = fence_label opened @ dropWhile label_char opened" by (simp add: fence_label_def)
  then have "s = before @ ticks @ fence_label opened @ nl @ code @ ticks @ rest"
    using cut_ticks_text [OF c(1)] cut_ticks_text [OF c(2)] nl(1) by simp
  moreover from this have "fm_text m = ticks @ fence_label opened @ nl @ code @ ticks" by (simp add: m)
  ultimately show "s = fm_before m @ fm_text m @ fm_rest m"
    and "\<exists>nl. (nl = [] \<or> nl = [10]) \<and> fm_text m = ticks @ fm_label m @ nl @ fm_code m @ ticks"
    using nl(2) by (auto simp: m)
qed

lemma next_fence_shorter: "next_fence s = Some m \<Longrightarrow> length (fm_rest m) < length s"
proof -
  assume a: "next_fence s = Some m"
  have "fm_text m \<noteq> []" using next_fence_text(2) [OF a] by (auto simp: ticks_def)
  then show ?thesis using arg_cong [OF next_fence_text(1) [OF a], of length] by simp
qed

text \<open>The loop over the complete fences: the segments so far and the text after the last one.\<close>

function scan_fences :: "(jstr \<Rightarrow> jstr \<Rightarrow> segment option) \<Rightarrow> segment list \<Rightarrow> jstr \<Rightarrow> segment list \<times> jstr" where
  "scan_fences classify segs s = (case next_fence s of
     None \<Rightarrow> (segs, s)
   | Some m \<Rightarrow> scan_fences classify (push_fence classify segs m) (fm_rest m))"
  by pat_completeness auto
termination
  by (relation "measure (\<lambda>(classify, segs, s). length s)") (simp_all add: next_fence_shorter)

declare scan_fences.simps [simp del]

definition or_markdown :: "jstr \<Rightarrow> segment list \<Rightarrow> segment list" where
  "or_markdown content segs = (if segs = [] then [SMarkdown content] else segs)"

definition parseReportMessageContent :: "jstr \<Rightarrow> segment list" where
  "parseReportMessageContent content =
     (let (segs, tail) = scan_fences report_fence [] content
      in or_markdown content (pushMarkdown segs tail))"

section \<open>A fence that is still open\<close>

definition htmlFenceContentOffset :: "jstr \<Rightarrow> jstr \<Rightarrow> nat option" where
  "htmlFenceContentOffset rawLang body =
     (if isHtmlFence rawLang then Some 0
      else if trim rawLang \<noteq> [] then None
      else if \<not> isHtmlFence (fence_label body) then None
      else Some (length body - length (fence_body body)))"

lemma cut_ticks_shorter: "cut_ticks s = Some (a, b) \<Longrightarrow> length b < length s"
  using cut_ticks_text [of s a b] by (simp add: ticks_def)

lemma fence_body_length: "length (fence_body s) \<le> length s"
proof -
  have "length (fence_body s) \<le> length (dropWhile label_char s)"
    by (simp add: fence_body_def drop_newline_def split: list.split)
  also have "\<dots> \<le> length s" by (rule length_dropWhile_le)
  finally show ?thesis .
qed

text \<open>\<open>before\<close> is the text of \<open>content\<close> up to the point where the search goes on.\<close>

function incomplete_from :: "jstr \<Rightarrow> jstr \<Rightarrow> (jstr \<times> jstr) option" where
  "incomplete_from before s = (case cut_ticks s of
     None \<Rightarrow> None
   | Some (a, opened) \<Rightarrow>
       (let body = fence_body opened
        in (case htmlFenceContentOffset (fence_label opened) body of
              Some n \<Rightarrow> Some (before @ a, trim (drop n body))
            | None \<Rightarrow> incomplete_from
                (before @ take (length s - length body) s) body)))"
  by pat_completeness auto
termination
  by (relation "measure (\<lambda>(before, s). length s)")
     (auto dest: cut_ticks_shorter intro: le_less_trans fence_body_length)

declare incomplete_from.simps [simp del]

definition pushIncompleteHtmlFence :: "segment list \<Rightarrow> jstr \<Rightarrow> segment list option" where
  "pushIncompleteHtmlFence segs content = (case incomplete_from [] content of
     None \<Rightarrow> None
   | Some (before, html) \<Rightarrow> Some (pushMarkdown segs before @ [SHtml html]))"

definition parseHtmlMessageContent :: "jstr \<Rightarrow> segment list" where
  "parseHtmlMessageContent content =
     (let (segs, tail) = scan_fences html_fence [] content
      in or_markdown content (case pushIncompleteHtmlFence segs tail of
           Some segs' \<Rightarrow> segs'
         | None \<Rightarrow> pushMarkdown segs tail))"

section \<open>No text is lost\<close>

text \<open>The text of a message that a segment stands for.\<close>

inductive covers :: "segment \<Rightarrow> jstr \<Rightarrow> bool" where
  covers_markdown: "covers (SMarkdown t) t"
| covers_report: "isSpecFence lang \<Longrightarrow> parseReportSpec code = Some spec \<Longrightarrow> nl = [] \<or> nl = [10] \<Longrightarrow>
    covers (SReport spec) (ticks @ lang @ nl @ code @ ticks)"
| covers_html: "isHtmlFence lang \<Longrightarrow> nl = [] \<or> nl = [10] \<Longrightarrow>
    covers (SHtml (trim code)) (ticks @ lang @ nl @ code @ ticks)"
| covers_open_html: "isHtmlFence lang \<Longrightarrow> nl = [] \<or> nl = [10] \<Longrightarrow>
    covers (SHtml (trim code)) (ticks @ lang @ nl @ code)"
| covers_open_line: "trim blank = [] \<Longrightarrow> isHtmlFence lang \<Longrightarrow> nl = [] \<or> nl = [10] \<Longrightarrow> nl' = [] \<or> nl' = [10] \<Longrightarrow>
    covers (SHtml (trim code)) (ticks @ blank @ nl @ lang @ nl' @ code)"

inductive_cases covers_markdownE: "covers (SMarkdown t) s"

definition spelled :: "segment list \<Rightarrow> jstr \<Rightarrow> bool" where
  "spelled segs s \<longleftrightarrow> (\<exists>texts. list_all2 covers segs texts \<and> concat texts = s)"

lemma spelled_Nil: "spelled [] []"
  by (simp add: spelled_def)

lemma spelled_snoc: "spelled segs s \<Longrightarrow> covers seg t \<Longrightarrow> spelled (segs @ [seg]) (s @ t)"
  unfolding spelled_def by (metis concat.simps concat_append append_Nil2 list_all2_Cons list_all2_Nil list_all2_appendI)

lemma spelled_push: "spelled segs s \<Longrightarrow> spelled (pushMarkdown segs t) (s @ t)"
proof -
  assume a: "spelled segs s"
  show ?thesis
  proof (cases "t = [] \<or> segs = [] \<or> (\<forall>u. last segs \<noteq> SMarkdown u)")
    case True
    then show ?thesis
      using a spelled_snoc [OF a covers_markdown, of t]
      by (auto simp: pushMarkdown_def spelled_def split: segment.splits)
  next
    case False
    then obtain u segs' where s: "segs = segs' @ [SMarkdown u]" by (metis append_butlast_last_id)
    from a obtain texts where "list_all2 covers segs texts" "concat texts = s" by (auto simp: spelled_def)
    then obtain texts' v where "list_all2 covers segs' texts'" "covers (SMarkdown u) v" "concat texts' @ v = s"
      unfolding s by (auto simp: list_all2_append1 list_all2_Cons1)
    then have "spelled segs' (concat texts')" "s = concat texts' @ u"
      by (auto simp: spelled_def elim: covers_markdownE)
    then show ?thesis
      using False spelled_snoc [OF _ covers_markdown, of segs' "concat texts'" "u @ t"]
      by (simp add: s pushMarkdown_def)
  qed
qed

text \<open>A classification of fences is sound when what it makes of a fence stands for its text.\<close>

definition sound_fences :: "(jstr \<Rightarrow> jstr \<Rightarrow> segment option) \<Rightarrow> bool" where
  "sound_fences classify \<longleftrightarrow> (\<forall>lang code seg nl. classify lang code = Some seg \<longrightarrow> nl = [] \<or> nl = [10] \<longrightarrow>
     covers seg (ticks @ lang @ nl @ code @ ticks))"

lemma sound_report: "sound_fences report_fence"
  unfolding sound_fences_def
proof (intro allI impI)
  fix lang code seg nl
  assume seg: "report_fence lang code = Some seg" and nl: "nl = [] \<or> nl = ([10] :: jstr)"
  show "covers seg (ticks @ lang @ nl @ code @ ticks)"
    using seg covers_report [OF _ _ nl, of lang code] covers_html [OF _ nl, of lang code]
    by (auto simp: report_fence_def split: if_splits option.splits)
qed

lemma sound_html: "sound_fences html_fence"
  unfolding sound_fences_def
proof (intro allI impI)
  fix lang code seg nl
  assume seg: "html_fence lang code = Some seg" and nl: "nl = [] \<or> nl = ([10] :: jstr)"
  show "covers seg (ticks @ lang @ nl @ code @ ticks)"
    using seg covers_html [OF _ nl, of lang code] by (auto simp: html_fence_def split: if_splits)
qed

lemma spelled_fence:
  assumes "sound_fences classify" and "spelled segs s" and "next_fence t = Some m"
  shows "spelled (push_fence classify segs m) (s @ fm_before m @ fm_text m)"
proof -
  obtain nl where nl: "nl = [] \<or> nl = [10]" "fm_text m = ticks @ fm_label m @ nl @ fm_code m @ ticks"
    using next_fence_text(2) [OF assms(3)] by blast
  have p: "spelled (pushMarkdown segs (fm_before m)) (s @ fm_before m)" by (rule spelled_push [OF assms(2)])
  show ?thesis
  proof (cases "classify (fm_label m) (fm_code m)")
    case None
    then show ?thesis using spelled_push [OF p, of "fm_text m"] by (simp add: push_fence_def Let_def)
  next
    case (Some seg)
    then have "covers seg (fm_text m)" using assms(1) nl unfolding sound_fences_def by auto
    then show ?thesis using spelled_snoc [OF p] Some by (simp add: push_fence_def Let_def)
  qed
qed

lemma spelled_scan:
  "sound_fences classify \<Longrightarrow> spelled segs s \<Longrightarrow> scan_fences classify segs t = (segs', tail) \<Longrightarrow>
   \<exists>u. spelled segs' (s @ u) \<and> u @ tail = t"
proof (induction classify segs t arbitrary: s rule: scan_fences.induct)
  case (1 classify segs t)
  show ?case
  proof (cases "next_fence t")
    case None
    then show ?thesis using 1 by (simp add: scan_fences.simps)
  next
    case (Some m)
    then have "scan_fences classify (push_fence classify segs m) (fm_rest m) = (segs', tail)"
      using "1.prems"(3) by (simp add: scan_fences.simps)
    from "1.IH" [OF Some "1.prems"(1) spelled_fence [OF "1.prems"(1,2) Some] this]
    obtain u where "spelled segs' ((s @ fm_before m @ fm_text m) @ u)" "u @ tail = fm_rest m" by auto
    then show ?thesis
      using next_fence_text(1) [OF Some] by (intro exI [of _ "fm_before m @ fm_text m @ u"]) simp
  qed
qed

lemma spelled_or: "spelled segs s \<Longrightarrow> spelled (or_markdown s segs) s"
  using spelled_snoc [OF spelled_Nil covers_markdown, of s] by (simp add: or_markdown_def)

lemma spelled_report: "spelled (parseReportMessageContent content) content"
proof -
  obtain segs tail where s: "scan_fences report_fence [] content = (segs, tail)" by fastforce
  from spelled_scan [OF sound_report spelled_Nil s] obtain u where "spelled segs u" "u @ tail = content"
    by auto
  then show ?thesis
    using spelled_push [of segs u tail] s by (auto simp: parseReportMessageContent_def intro: spelled_or)
qed

lemma split_opened:
  "\<exists>nl. opened = fence_label opened @ nl @ fence_body opened \<and> (nl = [] \<or> nl = [10])"
proof -
  obtain nl where "dropWhile label_char opened = nl @ fence_body opened" "nl = [] \<or> nl = [10]"
    using fence_body_suffix by blast
  moreover have "opened = fence_label opened @ dropWhile label_char opened" by (simp add: fence_label_def)
  ultimately show ?thesis by metis
qed

lemma offset_covers:
  assumes "htmlFenceContentOffset (fence_label opened) (fence_body opened) = Some n"
  shows "covers (SHtml (trim (drop n (fence_body opened)))) (ticks @ opened)"
proof -
  obtain nl where nl: "opened = fence_label opened @ nl @ fence_body opened" "nl = [] \<or> nl = [10]"
    using split_opened by blast
  show ?thesis
  proof (cases "isHtmlFence (fence_label opened)")
    case True
    then have "n = 0" using assms by (simp add: htmlFenceContentOffset_def)
    then show ?thesis using covers_open_html [OF True nl(2)] nl(1) by (metis drop0)
  next
    case False
    let ?b = "fence_body opened"
    have l: "trim (fence_label opened) = []" "isHtmlFence (fence_label ?b)"
        "n = length ?b - length (fence_body ?b)"
      using assms False by (auto simp: htmlFenceContentOffset_def split: if_splits)
    obtain nl' where nl': "?b = fence_label ?b @ nl' @ fence_body ?b" "nl' = [] \<or> nl' = [10]"
      using split_opened by blast
    have "drop n ?b = fence_body ?b" using l(3) nl'(1) by (metis append.assoc append_eq_conv_conj diff_add_inverse2 length_append)
    then show ?thesis using covers_open_line [OF l(1,2) nl(2) nl'(2), of "fence_body ?b"] nl(1) nl'(1) by metis
  qed
qed

lemma incomplete_covers:
  "incomplete_from before s = Some (a, html) \<Longrightarrow> \<exists>u. a @ u = before @ s \<and> covers (SHtml html) u"
proof (induction before s rule: incomplete_from.induct)
  case (1 before s)
  then obtain x opened where c: "cut_ticks s = Some (x, opened)"
    by (auto simp: incomplete_from.simps split: option.splits)
  note s = cut_ticks_text [OF c]
  let ?body = "fence_body opened"
  show ?case
  proof (cases "htmlFenceContentOffset (fence_label opened) ?body")
    case (Some n)
    then have "a = before @ x" "html = trim (drop n ?body)"
      using "1.prems" c by (auto simp: incomplete_from.simps Let_def)
    then show ?thesis using offset_covers [OF Some] s by (intro exI [of _ "ticks @ opened"]) simp
  next
    case None
    let ?t = "take (length s - length ?body) s"
    have "incomplete_from (before @ ?t) ?body = Some (a, html)"
      using "1.prems" c None by (subst (asm) incomplete_from.simps) (simp add: Let_def)
    from "1.IH" [OF c refl refl None this] obtain u where u: "a @ u = (before @ ?t) @ ?body" "covers (SHtml html) u"
      by blast
    obtain nl where "opened = fence_label opened @ nl @ ?body" using split_opened by blast
    then have "s = (x @ ticks @ fence_label opened @ nl) @ ?body" using s by simp
    then have "?t @ ?body = s" by (metis add_diff_cancel_right' append_eq_conv_conj length_append)
    then show ?thesis using u by auto
  qed
qed

lemma spelled_html: "spelled (parseHtmlMessageContent content) content"
proof -
  obtain segs tail where s: "scan_fences html_fence [] content = (segs, tail)" by fastforce
  from spelled_scan [OF sound_html spelled_Nil s] obtain u where u: "spelled segs u" "u @ tail = content"
    by auto
  have "spelled (case pushIncompleteHtmlFence segs tail of Some segs' \<Rightarrow> segs' | None \<Rightarrow> pushMarkdown segs tail) content"
  proof (cases "incomplete_from [] tail")
    case None
    then show ?thesis using spelled_push [OF u(1), of tail] u(2) by (simp add: pushIncompleteHtmlFence_def)
  next
    case (Some r)
    then obtain a html where r: "incomplete_from [] tail = Some (a, html)" by (cases r) simp
    then obtain v where v: "a @ v = tail" "covers (SHtml html) v" using incomplete_covers by fastforce
    have "spelled (pushMarkdown segs a @ [SHtml html]) ((u @ a) @ v)"
      by (intro spelled_snoc spelled_push u v)
    then show ?thesis using u(2) v(1) r by (auto simp: pushIncompleteHtmlFence_def)
  qed
  then show ?thesis using s by (simp add: parseHtmlMessageContent_def spelled_or)
qed

text \<open>
  C10. Splitting a message loses nothing: the segments, in order, stand for consecutive pieces of the
  text that together are the whole text; a markdown segment is its piece verbatim, a report is a
  fence labelled as such whose code is a specification, and an html segment is a fence labelled as
  html (in the second function possibly one that is not closed yet).
\<close>

theorem segments_cover_content:
  "(\<exists>texts. list_all2 covers (parseReportMessageContent content) texts \<and> concat texts = content) \<and>
   (\<exists>texts. list_all2 covers (parseHtmlMessageContent content) texts \<and> concat texts = content)"
  using spelled_report spelled_html unfolding spelled_def by blast


section \<open>Markdown is merged\<close>

fun is_markdown :: "segment \<Rightarrow> bool" where
  "is_markdown (SMarkdown t) = True"
| "is_markdown _ = False"

text \<open>No empty markdown, and no two markdown segments in a row.\<close>

fun merged :: "segment list \<Rightarrow> bool" where
  "merged [] = True"
| "merged (seg # segs) = (seg \<noteq> SMarkdown [] \<and> \<not> (is_markdown seg \<and> segs \<noteq> [] \<and> is_markdown (hd segs))
     \<and> merged segs)"

lemma merged_snoc: "merged (segs @ [seg]) \<longleftrightarrow> merged segs \<and> seg \<noteq> SMarkdown []
    \<and> \<not> (segs \<noteq> [] \<and> is_markdown (last segs) \<and> is_markdown seg)"
proof (induction segs)
  case (Cons a segs)
  then show ?case by (cases segs) auto
qed simp

lemma merged_snoc2: "merged (segs @ [a, b]) \<longleftrightarrow> merged (segs @ [a]) \<and> b \<noteq> SMarkdown []
    \<and> \<not> (is_markdown a \<and> is_markdown b)"
  using merged_snoc [of "segs @ [a]" b] by simp

lemma merged_html_snoc: "merged segs \<Longrightarrow> merged (segs @ [SHtml h])"
  by (simp add: merged_snoc)

lemma merged_push: "merged segs \<Longrightarrow> merged (pushMarkdown segs t)"
proof (cases "t = [] \<or> segs = []")
  case False
  assume m: "merged segs"
  obtain segs' seg where s: "segs = segs' @ [seg]" using False by (metis append_butlast_last_id)
  show ?thesis using False m by (cases seg) (auto simp: pushMarkdown_def s merged_snoc merged_snoc2)
qed (auto simp: pushMarkdown_def)

lemma merged_fence:
  "(\<And>lang code seg. classify lang code = Some seg \<Longrightarrow> \<not> is_markdown seg) \<Longrightarrow> merged segs \<Longrightarrow>
   merged (push_fence classify segs m)"
  by (fastforce simp: push_fence_def Let_def merged_snoc intro!: merged_push split: option.splits)

lemma merged_scan:
  "(\<And>lang code seg. classify lang code = Some seg \<Longrightarrow> \<not> is_markdown seg) \<Longrightarrow> merged segs \<Longrightarrow>
   merged (fst (scan_fences classify segs s))"
proof (induction classify segs s rule: scan_fences.induct)
  case (1 classify segs s)
  then show ?case
    by (cases "next_fence s") (simp_all add: scan_fences.simps merged_fence)
qed

lemma merged_report: "merged (pushMarkdown (fst (scan_fences report_fence [] content)) t)"
  by (intro merged_push merged_scan) (auto simp: report_fence_def split: if_splits option.splits)

lemma merged_html: "merged (fst (scan_fences html_fence [] content))"
  by (intro merged_scan) (auto simp: html_fence_def split: if_splits)

text \<open>
  The segments of a message that is not empty are never empty markdown, and no two markdown
  segments follow each other; an empty message is one empty markdown segment.
\<close>

theorem segments_merged:
  "(if content = [] then parseReportMessageContent content = [SMarkdown []] \<and> parseHtmlMessageContent content = [SMarkdown []]
    else merged (parseReportMessageContent content) \<and> merged (parseHtmlMessageContent content))"
proof (cases "content = []")
  case True
  then show ?thesis
    by (simp add: parseReportMessageContent_def parseHtmlMessageContent_def scan_fences.simps next_fence_def
        pushMarkdown_def or_markdown_def pushIncompleteHtmlFence_def incomplete_from.simps)
next
  case False
  have o: "merged segs \<Longrightarrow> merged (or_markdown content segs)" for segs
    using False by (simp add: or_markdown_def)
  have "merged (parseHtmlMessageContent content)"
    using merged_html [of content]
    by (auto simp: parseHtmlMessageContent_def pushIncompleteHtmlFence_def
        intro!: o merged_push merged_html_snoc split: prod.splits option.splits)
  moreover have "merged (parseReportMessageContent content)"
    using merged_report [of content] by (auto simp: parseReportMessageContent_def intro!: o split: prod.splits)
  ultimately show ?thesis using False by simp
qed

section \<open>Fences while the answer is streamed\<close>

text \<open>A text after which three backticks open or close a fence.\<close>

definition tick_free :: "jstr \<Rightarrow> bool" where
  "tick_free s \<longleftrightarrow> cut_ticks s = None \<and> (s = [] \<or> last s \<noteq> 96)"

lemma cut_ticks_after: "tick_free a \<Longrightarrow> cut_ticks (a @ ticks @ b) = Some (a, b)"
  unfolding tick_free_def
proof (induction a)
  case Nil
  show ?case by (simp add: ticks_def starts_with_def)
next
  case (Cons c a)
  then have n: "cut_ticks a = None" "\<not> starts_with ticks (c # a)"
    by (auto split: if_splits option.splits)
  have l: "a = [] \<or> last a \<noteq> 96" using Cons.prems by (cases a) auto
  have "\<not> starts_with ticks (c # a @ ticks @ b)"
  proof (cases a)
    case Nil
    then show ?thesis using Cons.prems by (simp add: starts_with_def ticks_def)
  next
    case (Cons d a')
    then show ?thesis using n l by (cases a') (auto simp: starts_with_def ticks_def)
  qed
  then show ?case using Cons.IH n l by simp
qed

lemma label_line:
  "list_all label_char lang \<Longrightarrow> fence_label (lang @ 10 # body) = lang"
  "list_all label_char lang \<Longrightarrow> fence_body (lang @ 10 # body) = body"
  by (simp_all add: fence_label_def fence_body_def list_all_iff takeWhile_append dropWhile_append3
      label_char_def drop_newline_def dropWhile_append)

lemma scan_none: "next_fence s = None \<Longrightarrow> scan_fences classify segs s = (segs, s)"
  by (simp add: scan_fences.simps)

lemma next_fence_Nil: "next_fence [] = None"
  by (simp add: next_fence_def)

lemma open_fence:
  assumes "tick_free pre" and "list_all label_char lang" and "cut_ticks body = None"
  shows "scan_fences classify segs (pre @ ticks @ lang @ 10 # body) = (segs, pre @ ticks @ lang @ 10 # body)"
  by (rule scan_none) (simp add: next_fence_def cut_ticks_after assms label_line)

lemma closed_fence:
  assumes "tick_free pre" and "list_all label_char lang" and "tick_free body"
  shows "scan_fences classify [] (pre @ ticks @ lang @ 10 # body @ ticks)
    = (case classify lang body of Some seg \<Rightarrow> pushMarkdown [] pre @ [seg]
       | None \<Rightarrow> pushMarkdown (pushMarkdown [] pre) (ticks @ lang @ 10 # body @ ticks), [])"
proof -
  have "cut_ticks (body @ ticks @ []) = Some (body, [])" by (rule cut_ticks_after [OF assms(3)])
  then have "next_fence (pre @ ticks @ lang @ 10 # body @ ticks) = Some \<lparr>fm_before = pre,
      fm_text = ticks @ lang @ 10 # body @ ticks, fm_label = lang, fm_code = body, fm_rest = []\<rparr>"
    by (simp add: next_fence_def cut_ticks_after assms label_line)
  then show ?thesis
    by (subst scan_fences.simps) (simp add: scan_none next_fence_Nil push_fence_def Let_def split: option.splits)
qed

lemma incomplete_open:
  assumes "tick_free pre" and "list_all label_char lang"
    and "htmlFenceContentOffset lang body = Some n"
  shows "incomplete_from [] (pre @ ticks @ lang @ 10 # body) = Some (pre, trim (drop n body))"
  using assms by (subst incomplete_from.simps) (simp add: cut_ticks_after label_line)

lemma incomplete_Nil: "incomplete_from before [] = None"
  by (simp add: incomplete_from.simps)

text \<open>
  A fence labelled as html is shown as html while it is streamed, with the text received so far,
  and closing it changes nothing: the same segments result with and without the closing backticks.
\<close>

theorem html_fence_streams:
  assumes "tick_free pre" and "list_all label_char lang" and "isHtmlFence lang" and "tick_free body"
  shows "parseHtmlMessageContent (pre @ ticks @ lang @ 10 # body) = pushMarkdown [] pre @ [SHtml (trim body)]
    \<and> parseHtmlMessageContent (pre @ ticks @ lang @ 10 # body @ ticks) = pushMarkdown [] pre @ [SHtml (trim body)]"
proof -
  have b: "cut_ticks body = None" using assms(4) by (simp add: tick_free_def)
  have o: "htmlFenceContentOffset lang body = Some 0" using assms(3) by (simp add: htmlFenceContentOffset_def)
  show ?thesis
    unfolding parseHtmlMessageContent_def pushIncompleteHtmlFence_def closed_fence [OF assms(1,2,4)]
      open_fence [OF assms(1,2) b]
    by (simp add: incomplete_open [OF assms(1,2) o] or_markdown_def html_fence_def assms(3) incomplete_Nil
        pushMarkdown_def)
qed

lemma html_label: "isHtmlFence (js ''chat-html'')"
  by (simp add: isHtmlFence_def fence_labels_def trim_no_outer_ws lower_def lower_unit_def split_ws_def is_ws_def)

lemma html_label_chars: "list_all label_char (js ''chat-html'')"
  by (simp add: label_char_def)

theorem html_fence_streams_witness:
  "parseHtmlMessageContent (js ''Hi'' @ ticks @ js ''chat-html'' @ 10 # js ''<b>'')
    = pushMarkdown [] (js ''Hi'') @ [SHtml (trim (js ''<b>''))]
   \<and> parseHtmlMessageContent (js ''Hi'' @ ticks @ js ''chat-html'' @ 10 # js ''<b>'' @ ticks)
    = pushMarkdown [] (js ''Hi'') @ [SHtml (trim (js ''<b>''))]"
  by (rule html_fence_streams [OF _ html_label_chars html_label])
     (simp_all add: tick_free_def starts_with_def ticks_def)

text \<open>
  A fence without a label whose first line is the label is html only while it is open: when the
  closing backticks arrive the whole fence, label line included, becomes markdown.
\<close>

theorem html_label_line_flips:
  assumes "list_all label_char lang" and "isHtmlFence lang" and "tick_free (lang @ 10 # body)"
  shows "parseHtmlMessageContent (ticks @ 10 # lang @ 10 # body) = [SHtml (trim body)]
    \<and> parseHtmlMessageContent (ticks @ 10 # lang @ 10 # body @ ticks)
       = [SMarkdown (ticks @ 10 # lang @ 10 # body @ ticks)]"
proof -
  have e: "tick_free []" "list_all label_char []" by (simp_all add: tick_free_def)
  have n: "\<not> isHtmlFence []" by (simp add: isHtmlFence_def fence_labels_def lower_def split_ws_def)
  have b: "cut_ticks (lang @ 10 # body) = None" using assms(3) by (simp add: tick_free_def)
  have o: "htmlFenceContentOffset [] (lang @ 10 # body) = Some (length lang + 1)"
    using assms(1,2) n by (simp add: htmlFenceContentOffset_def label_line)
  have "ticks \<noteq> []" by (simp add: ticks_def)
  then show ?thesis
    using open_fence [OF e b, of html_fence "[]"] closed_fence [OF e assms(3), of html_fence]
      incomplete_open [OF e o] n
    by (simp add: parseHtmlMessageContent_def pushIncompleteHtmlFence_def or_markdown_def html_fence_def
        incomplete_Nil pushMarkdown_def)
qed

theorem html_label_line_flips_witness:
  "parseHtmlMessageContent (ticks @ 10 # js ''chat-html'' @ 10 # js ''<b>'') = [SHtml (trim (js ''<b>''))]
    \<and> parseHtmlMessageContent (ticks @ 10 # js ''chat-html'' @ 10 # js ''<b>'' @ ticks)
       = [SMarkdown (ticks @ 10 # js ''chat-html'' @ 10 # js ''<b>'' @ ticks)]"
  by (rule html_label_line_flips [OF html_label_chars html_label])
     (simp add: tick_free_def starts_with_def ticks_def)

end
