(* ===== verification/Markdown.thy ===== *)
theory Markdown
  imports MessageSegments
begin

text \<open>
  The markdown of an answer, src/ui/web/src/components/markdown/Prose.tsx: fenced code, blocks of
  lines, lists, tables and the marks inside a line.  A node is what the component renders, without
  class names; the key of a block is its line number.

  The loop over the lines need not end: \<open>md_loop\<close> is a partial function, \<open>None\<close> means that it runs
  for ever.
\<close>

section \<open>Lines\<close>

text \<open>What \<open>.\<close> in an expression does not match.\<close>

definition is_lt :: "nat \<Rightarrow> bool" where
  "is_lt c \<longleftrightarrow> c \<in> {10, 13, 8232, 8233}"

text \<open>\<open>/^(\s*[-*_]\s*){3,}$/\<close>.\<close>

definition rule_mark :: "nat \<Rightarrow> bool" where
  "rule_mark c \<longleftrightarrow> c \<in> {45, 42, 95}"

definition is_rule :: "jstr \<Rightarrow> bool" where
  "is_rule s \<longleftrightarrow> list_all (\<lambda>c. is_ws c \<or> rule_mark c) s \<and> 3 \<le> length (filter rule_mark s)"

text \<open>\<open>/^#{1,6}\s+/\<close>, and \<open>/^(#{1,6})\s+(.+)$/\<close>: the white space is as long as it can be, unless nothing is left for the text.\<close>

definition hashes :: "jstr \<Rightarrow> jstr" where
  "hashes s = takeWhile (\<lambda>c. c = 35) s"

definition after_hashes :: "jstr \<Rightarrow> jstr" where
  "after_hashes s = dropWhile (\<lambda>c. c = 35) s"

definition heading_start :: "jstr \<Rightarrow> bool" where
  "heading_start s \<longleftrightarrow> 1 \<le> length (hashes s) \<and> length (hashes s) \<le> 6 \<and> after_hashes s \<noteq> [] \<and> is_ws (hd (after_hashes s))"

definition heading_of :: "jstr \<Rightarrow> (nat \<times> jstr) option" where
  "heading_of s =
     (let w = takeWhile is_ws (after_hashes s); r = dropWhile is_ws (after_hashes s)
      in if \<not> heading_start s then None
         else if r \<noteq> [] then (if list_ex is_lt r then None else Some (length (hashes s), r))
         else if 2 \<le> length w \<and> \<not> is_lt (last w) then Some (length (hashes s), [last w]) else None)"

text \<open>\<open>/^\|?\s*[-:]+[-| :]*$/\<close>.\<close>

definition is_separator :: "jstr \<Rightarrow> bool" where
  "is_separator s \<longleftrightarrow>
     (let t = dropWhile is_ws (if s \<noteq> [] \<and> hd s = 124 then tl s else s)
      in t \<noteq> [] \<and> hd t \<in> {45, 58} \<and> list_all (\<lambda>c. c \<in> {45, 124, 32, 58}) t)"

text \<open>What follows the mark of a list item; the mark stands at the start, or after white space.\<close>

definition cut_bullet :: "jstr \<Rightarrow> jstr option" where
  "cut_bullet s = (case s of [] \<Rightarrow> None
     | c # r \<Rightarrow> if c \<in> {45, 42, 43} \<and> r \<noteq> [] \<and> is_ws (hd r) then Some (dropWhile is_ws r) else None)"

definition cut_number :: "jstr \<Rightarrow> jstr option" where
  "cut_number s = (case dropWhile is_digit s of [] \<Rightarrow> None
     | c # r \<Rightarrow> if takeWhile is_digit s \<noteq> [] \<and> c \<in> {46, 41} \<and> r \<noteq> [] \<and> is_ws (hd r)
         then Some (dropWhile is_ws r) else None)"

definition bullet_text :: "jstr \<Rightarrow> jstr option" where
  "bullet_text s = cut_bullet (dropWhile is_ws s)"

definition number_text :: "jstr \<Rightarrow> jstr option" where
  "number_text s = cut_number (dropWhile is_ws s)"

definition is_indented :: "jstr \<Rightarrow> bool" where
  "is_indented s \<longleftrightarrow> 2 \<le> length s \<and> is_ws (s ! 0) \<and> is_ws (s ! 1)"

section \<open>Lists and tables\<close>

record list_item =
  li_text :: jstr
  li_children :: "jstr list"

definition or_same :: "jstr option \<Rightarrow> jstr \<Rightarrow> jstr" where
  "or_same r s = (case r of Some t \<Rightarrow> t | None \<Rightarrow> s)"

definition nested_text :: "jstr \<Rightarrow> jstr" where
  "nested_text line =
     (let t = dropWhile is_ws line; u = or_same (cut_bullet t) t in or_same (cut_number u) u)"

definition list_line ::
  "(jstr \<Rightarrow> jstr option) \<Rightarrow> list_item list \<times> list_item option \<Rightarrow> jstr \<Rightarrow> list_item list \<times> list_item option" where
  "list_line marker st line = (case st of (items, current) \<Rightarrow>
     (case (if is_indented line then None else marker line) of
       Some t \<Rightarrow> (case current of Some c \<Rightarrow> items @ [c] | None \<Rightarrow> items, Some \<lparr>li_text = t, li_children = []\<rparr>)
     | None \<Rightarrow> (items, map_option (\<lambda>c. c\<lparr>li_children := li_children c @ [nested_text line]\<rparr>) current)))"

definition parseListItems :: "(jstr \<Rightarrow> jstr option) \<Rightarrow> jstr list \<Rightarrow> list_item list" where
  "parseListItems marker ls = (case foldl (list_line marker) ([], None) ls of
     (items, Some c) \<Rightarrow> items @ [c] | (items, None) \<Rightarrow> items)"

definition parse_row :: "jstr \<Rightarrow> jstr list" where
  "parse_row line =
     (let a = (if line \<noteq> [] \<and> hd line = 124 then tl line else line);
          b = (if a \<noteq> [] \<and> last a = 124 then butlast a else a)
      in map trim (split_char 124 b))"

text \<open>The head and the rows of a table; nothing for a single line.\<close>

definition renderTable :: "jstr list \<Rightarrow> (jstr list \<times> jstr list list) option" where
  "renderTable ls = (if length ls < 2 then None else Some (parse_row (ls ! 0), map parse_row (drop 2 ls)))"

section \<open>Blocks\<close>

datatype md_block =
  Rule | Heading nat jstr | Tabular "(jstr list \<times> jstr list list) option" | Bullets "list_item list"
| Numbers "list_item list" | Para "jstr list"

text \<open>The inner loops: the first place from \<open>j\<close> on where \<open>P\<close> fails.\<close>

function scan :: "(nat \<Rightarrow> bool) \<Rightarrow> nat \<Rightarrow> nat \<Rightarrow> nat" where
  "scan P n j = (if j < n \<and> P j then scan P n (Suc j) else j)"
  by pat_completeness auto
termination
  by (relation "measure (\<lambda>(P, n, j). n - j)") auto

declare scan.simps [simp del]

definition slice :: "jstr list \<Rightarrow> nat \<Rightarrow> nat \<Rightarrow> jstr list" where
  "slice ls i j = take (j - i) (drop i ls)"

definition table_at :: "jstr list \<Rightarrow> nat \<Rightarrow> bool" where
  "table_at ls i \<longleftrightarrow> 124 \<in> set (ls ! i) \<and> i + 1 < length ls \<and> is_separator (ls ! (i + 1))"

definition list_goes_on :: "(jstr \<Rightarrow> jstr option) \<Rightarrow> jstr list \<Rightarrow> nat \<Rightarrow> bool" where
  "list_goes_on marker ls j \<longleftrightarrow> marker (ls ! j) \<noteq> None \<or> is_indented (ls ! j)"

definition para_line :: "jstr list \<Rightarrow> nat \<Rightarrow> bool" where
  "para_line ls j \<longleftrightarrow> trim (ls ! j) \<noteq> [] \<and> \<not> heading_start (ls ! j) \<and> bullet_text (ls ! j) = None \<and>
     number_text (ls ! j) = None \<and> \<not> is_rule (ls ! j) \<and> \<not> table_at ls j"

text \<open>One round of the loop at line \<open>i\<close>: the blocks it adds and the line it goes on with.\<close>

definition block_at :: "jstr list \<Rightarrow> nat \<Rightarrow> (nat \<times> md_block) list \<times> nat" where
  "block_at ls i =
     (let line = ls ! i; n = length ls
      in if is_rule line then ([(i, Rule)], i + 1)
         else case heading_of line of Some (level, t) \<Rightarrow> ([(i, Heading level t)], i + 1)
         | None \<Rightarrow>
         if table_at ls i then
           let j = scan (\<lambda>k. 124 \<in> set (ls ! k)) n i in ([(i, Tabular (renderTable (slice ls i j)))], j)
         else if bullet_text line \<noteq> None then
           let j = scan (list_goes_on bullet_text ls) n i
           in ([(i, Bullets (parseListItems bullet_text (slice ls i j)))], j)
         else if number_text line \<noteq> None then
           let j = scan (list_goes_on number_text ls) n i
           in ([(i, Numbers (parseListItems number_text (slice ls i j)))], j)
         else if trim line = [] then ([], i + 1)
         else
           let j = scan (para_line ls) n i
           in (if i < j then [(i, Para (slice ls i j))] else [], if j \<noteq> 0 then j else i + 1))"

partial_function (option) md_loop :: "jstr list \<Rightarrow> nat \<Rightarrow> (nat \<times> md_block) list option" where
  "md_loop ls i =
     (if i < length ls then
        Option.bind (md_loop ls (snd (block_at ls i))) (\<lambda>bs. Some (fst (block_at ls i) @ bs))
      else Some [])"

definition parseBlocks :: "jstr \<Rightarrow> (nat \<times> md_block) list option" where
  "parseBlocks s = (if s = [] then Some [] else md_loop (split_char 10 s) 0)"

section \<open>When the loop ends\<close>

lemma scan_ge: "j \<le> scan P n j"
  by (induction P n j rule: scan.induct) (subst scan.simps, auto)

lemma scan_gt: "j < n \<Longrightarrow> P j \<Longrightarrow> j < scan P n j"
  using scan_ge [of "Suc j" P n] by (subst scan.simps) simp

lemma scan_stop: "j \<le> k \<Longrightarrow> \<not> P k \<Longrightarrow> scan P n j \<le> k"
proof (induction P n j rule: scan.induct)
  case (1 P n j)
  show ?case
  proof (cases "j < n \<and> P j")
    case True
    then have "Suc j \<le> k" using "1.prems" by (metis Suc_leI le_neq_implies_less)
    then show ?thesis using 1 True by (subst scan.simps) simp
  next
    case False
    then show ?thesis using "1.prems" by (subst scan.simps) auto
  qed
qed

lemma scan_here: "\<not> P j \<Longrightarrow> scan P n j = j"
  by (subst scan.simps) simp

text \<open>A line that starts like a heading is nothing else.\<close>

lemma heading_start_hd: "heading_start s \<Longrightarrow> s \<noteq> [] \<and> hd s = 35"
  by (cases s) (auto simp: heading_start_def hashes_def split: if_splits)

lemma heading_start_only:
  assumes "heading_start s"
  shows "\<not> is_rule s" and "bullet_text s = None" and "number_text s = None" and "\<not> is_indented s" and "trim s \<noteq> []"
proof -
  obtain r where s: "s = 35 # r" using heading_start_hd [OF assms] by (cases s) auto
  show "\<not> is_rule s" by (simp add: s is_rule_def rule_mark_def is_ws_def)
  show "bullet_text s = None" "number_text s = None" "\<not> is_indented s"
    by (simp_all add: s bullet_text_def cut_bullet_def number_text_def cut_number_def is_indented_def is_ws_def is_digit_def)
  show "trim s \<noteq> []" by (simp add: s trim_def trim_start_def trim_end_def is_ws_def dropWhile_eq_Nil_conv)
qed

definition stuck :: "jstr list \<Rightarrow> nat \<Rightarrow> bool" where
  "stuck ls i \<longleftrightarrow> heading_start (ls ! i) \<and> heading_of (ls ! i) = None \<and> \<not> table_at ls i"

lemma block_at_stuck:
  assumes "stuck ls i" and "0 < i"
  shows "block_at ls i = ([], i)"
proof -
  have "heading_start (ls ! i)" "heading_of (ls ! i) = None" "\<not> table_at ls i" using assms(1) by (simp_all add: stuck_def)
  then show ?thesis
    using assms(2) heading_start_only [of "ls ! i"]
    by (simp add: block_at_def Let_def para_line_def scan_here)
qed

lemma block_at_progress:
  assumes "i < length ls" and "i = 0 \<or> \<not> stuck ls i"
  shows "i < snd (block_at ls i)"
proof (cases "is_rule (ls ! i) \<or> heading_of (ls ! i) \<noteq> None \<or> trim (ls ! i) = [] \<and> \<not> table_at ls i \<and>
    bullet_text (ls ! i) = None \<and> number_text (ls ! i) = None")
  case True
  then show ?thesis by (auto simp: block_at_def Let_def split: option.splits)
next
  case False
  then have h: "\<not> is_rule (ls ! i)" "heading_of (ls ! i) = None" by blast+
  consider "table_at ls i" | "\<not> table_at ls i" "bullet_text (ls ! i) \<noteq> None"
    | "\<not> table_at ls i" "bullet_text (ls ! i) = None" "number_text (ls ! i) \<noteq> None"
    | "\<not> table_at ls i" "bullet_text (ls ! i) = None" "number_text (ls ! i) = None" "trim (ls ! i) \<noteq> []"
    using False by (cases "table_at ls i"; cases "bullet_text (ls ! i) = None"; cases "number_text (ls ! i) = None"; simp)
  then show ?thesis
  proof cases
    case 1
    then have "124 \<in> set (ls ! i)" by (simp add: table_at_def)
    then show ?thesis using h 1 assms(1) by (simp add: block_at_def Let_def scan_gt)
  next
    case 2
    then show ?thesis using h 2 assms(1) by (simp add: block_at_def Let_def list_goes_on_def scan_gt)
  next
    case 3
    then show ?thesis using h 3 assms(1) by (simp add: block_at_def Let_def list_goes_on_def scan_gt)
  next
    case 4
    have "i < scan (para_line ls) (length ls) i" if "i \<noteq> 0"
      by (rule scan_gt) (use that False 4 assms in \<open>auto simp: para_line_def stuck_def\<close>)
    then show ?thesis
      using h 4 scan_ge [of i "para_line ls" "length ls"] by (cases "i = 0") (simp_all add: block_at_def Let_def)
  qed
qed

lemma block_at_stops:
  assumes "i < k" and "heading_start (ls ! k)" and "124 \<notin> set (ls ! k)"
  shows "snd (block_at ls i) \<le> k"
proof -
  have "\<not> list_goes_on bullet_text ls k" "\<not> list_goes_on number_text ls k" "\<not> para_line ls k"
    using heading_start_only [OF assms(2)] assms(2) by (simp_all add: list_goes_on_def para_line_def)
  then show ?thesis
    using assms scan_stop [of i k] by (auto simp: block_at_def Let_def split: option.splits)
qed

lemma md_loop_returns:
  assumes "\<And>k. i \<le> k \<Longrightarrow> k < length ls \<Longrightarrow> k = 0 \<or> \<not> stuck ls k"
  shows "md_loop ls i \<noteq> None"
  using assms
proof (induction "length ls - i" arbitrary: i rule: less_induct)
  case less
  show ?case
  proof (cases "i < length ls")
    case True
    then have more: "i < snd (block_at ls i)" using less.prems [of i] by (intro block_at_progress) auto
    have "k = 0 \<or> \<not> stuck ls k" if "snd (block_at ls i) \<le> k" "k < length ls" for k
      using less.prems [of k] that more by simp
    then have "md_loop ls (snd (block_at ls i)) \<noteq> None" using True more by (intro less.hyps) auto
    then show ?thesis using True by (subst md_loop.simps) (auto simp: bind_eq_None_conv)
  qed (simp add: md_loop.simps)
qed

lemma md_loop_hangs:
  assumes ret: "md_loop ls i = Some r" and k: "0 < k" "k < length ls" "stuck ls k" "124 \<notin> set (ls ! k)"
  shows "k < i"
proof -
  have "ls = ls \<longrightarrow> k < i"
  proof (rule md_loop.raw_induct [where P = "\<lambda>l i r. l = ls \<longrightarrow> k < i", OF _ ret], intro impI)
    fix f l i r
    assume IH: "\<And>l i r. f l i = Some r \<Longrightarrow> l = ls \<longrightarrow> k < i" and l: "l = ls"
      and eq: "(if i < length l then f l (snd (block_at l i)) \<bind> (\<lambda>bs. Some (fst (block_at l i) @ bs)) else Some []) = Some r"
    show "k < i"
    proof (rule ccontr)
      assume "\<not> k < i"
      then obtain r' where "f ls (snd (block_at ls i)) = Some r'"
        using eq k(2) l by (auto simp: bind_eq_Some_conv)
      then have "k < snd (block_at ls i)" using IH by blast
      moreover have "snd (block_at ls i) \<le> k"
        using \<open>\<not> k < i\<close> k block_at_stuck [OF k(3,1)] block_at_stops [of i k ls]
        by (cases "i = k") (auto simp: stuck_def)
      ultimately show False by simp
    qed
  qed
  then show ?thesis by simp
qed

text \<open>A heading without a text, as it looks while an answer streams: the hashes and one white space.\<close>

definition bare_heading :: "jstr \<Rightarrow> bool" where
  "bare_heading s \<longleftrightarrow> heading_start s \<and> length s = length (hashes s) + 1"

lemma hashes_split: "s = hashes s @ after_hashes s"
  by (simp add: hashes_def after_hashes_def)

lemma bare_heading_iff:
  assumes "\<not> list_ex is_lt s"
  shows "bare_heading s \<longleftrightarrow> heading_start s \<and> heading_of s = None"
proof (cases "heading_start s")
  case True
  let ?w = "takeWhile is_ws (after_hashes s)" and ?r = "dropWhile is_ws (after_hashes s)"
  have a: "after_hashes s = ?w @ ?r" by simp
  have sub: "\<not> list_ex is_lt (after_hashes s)"
    using assms hashes_split [of s] by (metis list_ex_append)
  then have r: "\<not> list_ex is_lt ?r" using a by (metis list_ex_append)
  have w0: "?w \<noteq> []" using True by (simp add: heading_start_def takeWhile_eq_Nil_iff)
  then have "last ?w \<in> set (after_hashes s)" by (meson last_in_set set_takeWhileD)
  then have w: "?w \<noteq> []" "\<not> is_lt (last ?w)" using w0 sub by (auto simp: list_ex_iff)
  have len: "length s = length (hashes s) + length (after_hashes s)" "length (after_hashes s) = length ?w + length ?r"
    by (subst hashes_split, simp only: length_append) (metis a length_append)
  have "0 < length ?w" using w(1) by simp
  then show ?thesis
  proof (cases "?r = []")
    case True
    then have "heading_of s = None \<longleftrightarrow> length ?w < 2"
      using w(2) \<open>heading_start s\<close> by (simp add: heading_of_def Let_def)
    moreover have "length ?r = 0" using True by (simp only: list.size(3))
    then have "length s = length (hashes s) + 1 \<longleftrightarrow> length ?w < 2" using len \<open>0 < length ?w\<close> by linarith
    ultimately show ?thesis using \<open>heading_start s\<close> unfolding bare_heading_def by blast
  next
    case False
    then have "heading_of s \<noteq> None" "0 < length ?r" using r \<open>heading_start s\<close> by (simp_all add: heading_of_def Let_def)
    then have "length s \<noteq> length (hashes s) + 1" using len \<open>0 < length ?w\<close> by linarith
    then show ?thesis using \<open>heading_of s \<noteq> None\<close> unfolding bare_heading_def by blast
  qed
qed (simp add: bare_heading_def)

lemma bare_heading_chars:
  assumes "bare_heading s"
  shows "124 \<notin> set s"
proof -
  obtain w where "after_hashes s = [w]" "is_ws w"
    using assms arg_cong [OF hashes_split [of s], of length]
    by (auto simp: bare_heading_def heading_start_def length_Suc_conv)
  moreover have "set (hashes s) \<subseteq> {35}" by (auto simp: hashes_def dest: set_takeWhileD)
  ultimately have "set s \<subseteq> {35, w}" by (subst hashes_split) auto
  then show ?thesis using \<open>is_ws w\<close> by (auto simp: is_ws_def)
qed

lemma split_char_sets: "\<forall>l \<in> set (split_char c s). set l \<subseteq> set s - {c}"
  by (induction s) (auto split: list.splits if_splits)

lemmas split_char_set = split_char_sets [rule_format]

text \<open>
  Whatever the text, a line after the first that starts like a heading without being one stops the loop,
  unless a bar in it might make it part of a table.
\<close>

lemma unread_heading_hangs:
  assumes "0 < k" "k < length (split_char 10 s)" "heading_start (split_char 10 s ! k)"
    and "heading_of (split_char 10 s ! k) = None" "124 \<notin> set (split_char 10 s ! k)"
  shows "parseBlocks s = None"
proof -
  let ?ls = "split_char 10 s"
  have "stuck ?ls k" using assms by (simp add: stuck_def table_at_def)
  then have "md_loop ?ls 0 = None" using md_loop_hangs [OF _ assms(1,2) _ assms(5), of 0] by (cases "md_loop ?ls 0") auto
  moreover have "s \<noteq> []" using assms by auto
  ultimately show ?thesis by (simp add: parseBlocks_def)
qed

text \<open>A dot does not match a carriage return, so every heading after the first line does it in a text with CRLF lines.\<close>

lemma crlf_heading_hangs: "parseBlocks (js ''a'' @ [13, 10] @ js ''# Title'' @ [13]) = None"
proof -
  have ls: "split_char 10 (js ''a'' @ [13, 10] @ js ''# Title'' @ [13]) = [js ''a'' @ [13], js ''# Title'' @ [13]]" by simp
  have "heading_start (js ''# Title'' @ [13])" "heading_of (js ''# Title'' @ [13]) = None"
    by (simp_all add: heading_of_def heading_start_def hashes_def after_hashes_def is_ws_def is_lt_def Let_def)
  then show ?thesis by (intro unread_heading_hangs [of 1]) (simp_all only: ls, simp_all)
qed

text \<open>
  C19. For a text without carriage returns, U+2028 and U+2029, the block parser fails to return exactly
  when a line after the first is a bare heading - one to six hashes and a single white space: there the
  loop adds no block and stays on its line.  For every other such text it returns.
\<close>

theorem blocks_hang_iff:
  assumes "list_all (\<lambda>c. c = 10 \<or> \<not> is_lt c) s"
  shows "parseBlocks s = None \<longleftrightarrow> list_ex bare_heading (tl (split_char 10 s))"
proof -
  let ?ls = "split_char 10 s"
  have bare: "bare_heading l \<longleftrightarrow> heading_start l \<and> heading_of l = None" if "l \<in> set ?ls" for l
    using split_char_set [OF that] assms by (intro bare_heading_iff) (auto simp: list_all_iff list_ex_iff)
  have hangs: "list_ex bare_heading (tl ?ls) \<longleftrightarrow> (\<exists>k. 0 < k \<and> k < length ?ls \<and> bare_heading (?ls ! k))"
    by (cases ?ls) (auto simp: list_ex_length nth_Cons gr0_conv_Suc split: nat.splits)
  show ?thesis
  proof (cases "list_ex bare_heading (tl ?ls)")
    case True
    then obtain k where k: "0 < k" "k < length ?ls" "bare_heading (?ls ! k)" using hangs by blast
    then have "parseBlocks s = None"
      using bare [of "?ls ! k"] bare_heading_chars by (intro unread_heading_hangs [of k]) simp_all
    then show ?thesis using True by simp
  next
    case False
    then have "md_loop ?ls 0 \<noteq> None"
      using hangs bare by (intro md_loop_returns) (auto simp: stuck_def)
    then show ?thesis using False by (auto simp: parseBlocks_def)
  qed
qed

lemma blocks_hang_iff_witness:
  "parseBlocks (js ''a'' @ 10 # js ''# '') = None \<and> parseBlocks (js ''# '') \<noteq> None"
proof -
  have lines: "split_char 10 (js ''a'' @ 10 # js ''# '') = [js ''a'', js ''# '']" "split_char 10 (js ''# '') = [js ''# '']"
    by simp_all
  have "list_all (\<lambda>c. c = 10 \<or> \<not> is_lt c) (js ''a'' @ 10 # js ''# '')" "list_all (\<lambda>c. c = 10 \<or> \<not> is_lt c) (js ''# '')"
    by (simp_all add: is_lt_def)
  moreover have "bare_heading (js ''# '')"
    by (simp add: bare_heading_def heading_start_def hashes_def after_hashes_def is_ws_def)
  ultimately show ?thesis
    using blocks_hang_iff [of "js ''a'' @ 10 # js ''# ''"] blocks_hang_iff [of "js ''# ''"] unfolding lines by simp
qed

section \<open>What gets lost\<close>

text \<open>A list all of whose lines are indented is shown without its items.\<close>

lemma indented_list_empty:
  assumes "list_all is_indented ls"
  shows "parseListItems marker ls = []"
proof -
  have "foldl (list_line marker) ([], None) ls = ([], None)"
    using assms by (induction ls) (simp_all add: list_line_def)
  then show ?thesis by (simp add: parseListItems_def)
qed

text \<open>A table whose separator has no bar is not shown at all: its lines end before the separator.\<close>

lemma barless_table_lost:
  assumes "table_at ls i" and "\<not> is_rule (ls ! i)" and "heading_of (ls ! i) = None" and "124 \<notin> set (ls ! (i + 1))"
  shows "block_at ls i = ([(i, Tabular None)], i + 1)"
proof -
  have i: "i < length ls" "124 \<in> set (ls ! i)" using assms(1) by (auto simp: table_at_def)
  have "scan (\<lambda>k. 124 \<in> set (ls ! k)) (length ls) (Suc i) = Suc i" using assms(4) by (simp add: scan_here)
  then have j: "scan (\<lambda>k. 124 \<in> set (ls ! k)) (length ls) i = i + 1" using i by (subst scan.simps) simp
  have "renderTable (slice ls i (i + 1)) = None" by (simp add: renderTable_def slice_def)
  then show ?thesis using assms by (simp add: block_at_def j Let_def)
qed

end
