(* ===== verification/Prose.thy ===== *)
theory Prose
  imports Markdown
begin

text \<open>
  The marks inside a line and the fences around code, src/ui/web/src/components/markdown/Prose.tsx,
  and the component itself.
\<close>

section \<open>Marks\<close>

text \<open>A run of characters other than \<open>m\<close> between two copies of \<open>n\<close> times \<open>m\<close>: the text of the match and what follows.\<close>

definition marked :: "nat \<Rightarrow> nat \<Rightarrow> jstr \<Rightarrow> (jstr \<times> jstr) option" where
  "marked m n s =
     (let fence = replicate n m; b = takeWhile (\<lambda>c. c \<noteq> m) (drop n s); r = dropWhile (\<lambda>c. c \<noteq> m) (drop n s)
      in if starts_with fence s \<and> b \<noteq> [] \<and> starts_with fence r then Some (fence @ b @ fence, drop n r) else None)"

text \<open>The alternatives in their order: code, three, two and one star, two tildes.\<close>

definition mark_kinds :: "(nat \<times> nat) list" where
  "mark_kinds = [(96, 1), (42, 3), (42, 2), (42, 1), (126, 2)]"

fun first_mark :: "(nat \<times> nat) list \<Rightarrow> jstr \<Rightarrow> (jstr \<times> jstr) option" where
  "first_mark [] s = None"
| "first_mark ((m, n) # ks) s = (case marked m n s of Some x \<Rightarrow> Some x | None \<Rightarrow> first_mark ks s)"

text \<open>\<open>s.split(/(...)/)\<close> with one group: the texts between the matches and the matches, in turn.\<close>

function split_matches :: "(jstr \<Rightarrow> (jstr \<times> jstr) option) \<Rightarrow> jstr \<Rightarrow> jstr list" where
  "split_matches f s = (case s of
     [] \<Rightarrow> [[]]
   | c # t \<Rightarrow> (case f s of
       Some (u, r) \<Rightarrow> if length r < length s then [] # u # split_matches f r
         else (case split_matches f t of [] \<Rightarrow> [[c]] | p # ps \<Rightarrow> (c # p) # ps)
     | None \<Rightarrow> (case split_matches f t of [] \<Rightarrow> [[c]] | p # ps \<Rightarrow> (c # p) # ps)))"
  by pat_completeness auto
termination
  by (relation "measure (\<lambda>(f, s). length s)") auto

declare split_matches.simps [simp del]

section \<open>Links\<close>

text \<open>\<open>/(https?:\/\/[^\s)<>]+)/g\<close>.\<close>

definition url_char :: "nat \<Rightarrow> bool" where
  "url_char c \<longleftrightarrow> \<not> is_ws c \<and> c \<notin> {41, 60, 62}"

definition url_match :: "jstr \<Rightarrow> (jstr \<times> jstr) option" where
  "url_match s =
     (let p = (if starts_with (js ''https://'') s then js ''https://'' else js ''http://'');
          r = drop (length p) s; b = takeWhile url_char r
      in if starts_with p s \<and> b \<noteq> [] then Some (p @ b, dropWhile url_char r) else None)"

datatype link_part = Link jstr | Span jstr

definition link_part_of :: "jstr \<Rightarrow> link_part" where
  "link_part_of p = (if starts_with (js ''http://'') p \<or> starts_with (js ''https://'') p then Link p else Span p)"

definition linkifyText :: "jstr \<Rightarrow> link_part list" where
  "linkifyText t = (let parts = split_matches url_match t
     in if length parts = 1 then [Span t] else map link_part_of parts)"

section \<open>The inside of a line\<close>

datatype inline =
  Code jstr | BoldItalic jstr | Bold jstr | Italic jstr | Strike jstr | Plain "link_part list"

text \<open>\<open>part.slice(k, -k)\<close>.\<close>

definition inner :: "nat \<Rightarrow> jstr \<Rightarrow> jstr" where
  "inner k s = take (length s - 2 * k) (drop k s)"

definition wrapped :: "nat \<Rightarrow> nat \<Rightarrow> jstr \<Rightarrow> bool" where
  "wrapped m k s \<longleftrightarrow> starts_with (replicate k m) s \<and> ends_with (replicate k m) s"

definition inline_of :: "jstr \<Rightarrow> inline" where
  "inline_of part =
     (if wrapped 96 1 part then Code (inner 1 part)
      else if wrapped 42 3 part then BoldItalic (inner 3 part)
      else if wrapped 42 2 part then Bold (inner 2 part)
      else if wrapped 42 1 part \<and> 2 < length part then Italic (inner 1 part)
      else if wrapped 126 2 part then Strike (inner 2 part)
      else Plain (linkifyText part))"

definition renderInline :: "jstr \<Rightarrow> inline list" where
  "renderInline s = map inline_of (split_matches (first_mark mark_kinds) s)"

section \<open>The component\<close>

datatype prose_node =
  PBlocks "(nat \<times> md_block) list" | PReport report_spec | PYaml jstr | PCode jstr jstr

definition yaml_markdown :: "jstr \<Rightarrow> jstr" where
  "yaml_markdown code = js ''```yaml-render'' @ [10] @ code @ [10] @ js ''```''"

definition renderJsonRenderFence :: "jstr \<Rightarrow> jstr \<Rightarrow> prose_node option" where
  "renderJsonRenderFence lang code =
     (let labels = fence_labels lang;
          isJsonRender = js ''json-render'' \<in> set labels;
          isSpec = js ''spec'' \<in> set labels;
          isYamlRender = js ''yaml-render'' \<in> set labels
      in if \<not> isJsonRender \<and> \<not> isYamlRender \<and> \<not> isSpec then None
         else if isJsonRender \<or> isSpec then map_option PReport (parseReportSpec code)
         else
           let normalizedCode = (case normalizeReportSpecForComark code of Some c \<Rightarrow> c | None \<Rightarrow> trim code)
           in if normalizedCode = [] then None else Some (PYaml (yaml_markdown normalizedCode)))"

definition text_nodes :: "jstr \<Rightarrow> prose_node list option" where
  "text_nodes s = map_option (\<lambda>bs. if bs = [] then [] else [PBlocks bs]) (parseBlocks s)"

definition fence_node :: "jstr \<Rightarrow> jstr \<Rightarrow> prose_node" where
  "fence_node lang code = (case renderJsonRenderFence lang code of Some n \<Rightarrow> n | None \<Rightarrow> PCode lang code)"

text \<open>The texts and the fences in turn; \<open>None\<close> where a block parser does not return.\<close>

function prose_nodes :: "jstr \<Rightarrow> prose_node list option" where
  "prose_nodes s = (case next_fence s of
     None \<Rightarrow> text_nodes s
   | Some m \<Rightarrow> Option.bind (text_nodes (fm_before m)) (\<lambda>ns.
       map_option (\<lambda>rest. ns @ fence_node (fm_label m) (fm_code m) # rest) (prose_nodes (fm_rest m))))"
  by pat_completeness auto
termination
  by (relation "measure length") (simp_all add: next_fence_shorter)

declare prose_nodes.simps [simp del]

definition Prose :: "jstr \<Rightarrow> prose_node list option" where
  "Prose content = (if content = [] then Some [] else prose_nodes content)"

section \<open>Splitting loses nothing\<close>

definition match_text :: "(jstr \<Rightarrow> (jstr \<times> jstr) option) \<Rightarrow> bool" where
  "match_text f \<longleftrightarrow> (\<forall>s u r. f s = Some (u, r) \<longrightarrow> s = u @ r)"

lemma split_matches_text:
  assumes "match_text f"
  shows "concat (split_matches f s) = s"
proof (induction "length s" arbitrary: s rule: less_induct)
  case less
  show ?case
  proof (cases s)
    case (Cons c t)
    have plain: "concat (case split_matches f t of [] \<Rightarrow> [[c]] | p # ps \<Rightarrow> (c # p) # ps) = c # t"
      using less [of t] Cons by (auto split: list.splits)
    show ?thesis
    proof (cases "f s")
      case None
      then show ?thesis using Cons plain by (subst split_matches.simps) simp
    next
      case (Some x)
      obtain u r where m: "f s = Some (u, r)" using Some by (cases x) auto
      then have su: "u @ r = s" using assms unfolding match_text_def by metis
      have "split_matches f s = (if length r < length s then [] # u # split_matches f r
          else (case split_matches f t of [] \<Rightarrow> [[c]] | p # ps \<Rightarrow> (c # p) # ps))"
        using m Cons by (subst split_matches.simps) simp
      then show ?thesis using less [of r] plain su Cons by (cases "length r < length s") (simp_all del: length_append)
    qed
  qed (simp add: split_matches.simps)
qed

lemma starts_with_drop: "starts_with p s \<Longrightarrow> s = p @ drop (length p) s"
  by (metis append_take_drop_id starts_with_def)

lemma match_url: "match_text url_match"
proof -
  have "s = p @ takeWhile url_char (drop (length p) s) @ dropWhile url_char (drop (length p) s)" if "starts_with p s" for p s
    using starts_with_drop [OF that] by simp
  then show ?thesis by (auto simp: match_text_def url_match_def Let_def split: if_splits)
qed

lemma match_marked: "match_text (marked m n)"
proof -
  have "s = fence @ b @ fence @ drop n r"
    if "starts_with fence s" "starts_with fence r" "drop n s = b @ r" "length fence = n" for s b r fence :: jstr and n
    using starts_with_drop [OF that(1)] starts_with_drop [OF that(2)] that(3,4) by simp
  then show ?thesis
    by (auto simp: match_text_def marked_def Let_def split: if_splits)
qed

lemma match_first_mark: "match_text (first_mark ks)"
proof -
  have "s = u @ r" if "first_mark ks s = Some (u, r)" for s u r
    using that match_marked by (induction ks) (auto simp: match_text_def split: option.splits)
  then show ?thesis by (simp add: match_text_def)
qed

definition link_text :: "link_part \<Rightarrow> jstr" where
  "link_text l = (case l of Link s \<Rightarrow> s | Span s \<Rightarrow> s)"

definition inline_text :: "inline \<Rightarrow> jstr" where
  "inline_text i = (case i of Code s \<Rightarrow> s | BoldItalic s \<Rightarrow> s | Bold s \<Rightarrow> s | Italic s \<Rightarrow> s | Strike s \<Rightarrow> s
     | Plain ls \<Rightarrow> concat (map link_text ls))"

lemma linkifyText_text: "concat (map link_text (linkifyText t)) = t"
proof -
  have "link_text (link_part_of p) = p" for p by (simp add: link_part_of_def link_text_def)
  then have "map link_text (map link_part_of ps) = ps" for ps by (simp add: comp_def)
  then show ?thesis
    using split_matches_text [OF match_url, of t] by (auto simp: linkifyText_def Let_def link_text_def)
qed

lemma wrapped_inner:
  assumes "wrapped m k s"
  shows "filter (\<lambda>c. c \<noteq> m) (inner k s) = filter (\<lambda>c. c \<noteq> m) s"
proof -
  let ?f = "replicate k m"
  obtain t where s: "s = ?f @ t" using assms by (auto simp: wrapped_def elim: starts_withE)
  have e: "k \<le> length s" "drop (length s - k) s = ?f" using assms by (simp_all add: wrapped_def ends_with_def)
  show ?thesis
  proof (cases "2 * k \<le> length s")
    case True
    then have "drop (length s - 2 * k) t = ?f" using e(2) by (simp add: s)
    then have "t = inner k s @ ?f" by (metis append_take_drop_id inner_def append_eq_conv_conj length_replicate s)
    then show ?thesis by (subst s) simp
  next
    case False
    then have "drop k s = drop (k - (length s - k)) (drop (length s - k) s)" by simp
    then have "set (drop k s) \<subseteq> set ?f" by (metis e(2) set_drop_subset)
    then have "set t \<subseteq> {m}" by (auto simp: s set_replicate_conv_if split: if_splits)
    then have "filter (\<lambda>c. c \<noteq> m) t = []" by (auto simp: filter_empty_conv)
    then show ?thesis using False by (subst (2) s) (simp add: inner_def)
  qed
qed

text \<open>
  What is shown of a line is the line: only marks - backticks, stars and tildes - are left out, and
  every other character appears, in its order, whether it ends up in a link, in code or in plain text.
\<close>

theorem inline_shows_all:
  "filter (\<lambda>c. c \<notin> {96, 42, 126}) (concat (map inline_text (renderInline s))) = filter (\<lambda>c. c \<notin> {96, 42, 126}) s"
proof -
  let ?keep = "\<lambda>c :: nat. c \<notin> {96, 42, 126}"
  have w: "filter ?keep (inner k p) = filter ?keep p" if "wrapped m k p" "m \<in> {96, 42, 126}" for m k p
  proof -
    have "filter ?keep (filter (\<lambda>c. c \<noteq> m) x) = filter ?keep x" for x
      using that(2) by (simp add: filter_filter) (rule filter_cong, auto)
    then show ?thesis using wrapped_inner [OF that(1)] by metis
  qed
  have part: "filter ?keep (inline_text (inline_of p)) = filter ?keep p" for p
    using w [of 96 1 p] w [of 42 3 p] w [of 42 2 p] w [of 42 1 p] w [of 126 2 p]
    by (simp add: inline_of_def inline_text_def linkifyText_text)
  have "filter ?keep (concat (map inline_text (map inline_of ps))) = filter ?keep (concat ps)" for ps
    using part by (induction ps) simp_all
  then show ?thesis unfolding renderInline_def by (simp only: split_matches_text [OF match_first_mark])
qed

text \<open>A link that is shown leads to \<open>http\<close> or \<open>https\<close>.\<close>

lemma links_are_web: "Link p \<in> set (linkifyText t) \<Longrightarrow> starts_with (js ''http://'') p \<or> starts_with (js ''https://'') p"
  by (auto simp: linkifyText_def link_part_of_def Let_def split: if_splits)

text \<open>Marks without a text between them vanish.\<close>

lemma lone_marks_vanish: "inline_of (js ''**'') = Bold []" "inline_of (js ''`'') = Code []"
  by (simp_all add: inline_of_def wrapped_def inner_def starts_with_def ends_with_def eval_nat_numeral)

section \<open>The whole text\<close>

text \<open>The texts between the fences.\<close>

function prose_texts :: "jstr \<Rightarrow> jstr list" where
  "prose_texts s = (case next_fence s of None \<Rightarrow> [s] | Some m \<Rightarrow> fm_before m # prose_texts (fm_rest m))"
  by pat_completeness auto
termination
  by (relation "measure length") (simp_all add: next_fence_shorter)

declare prose_texts.simps [simp del]

lemma prose_nodes_return: "prose_nodes s = None \<longleftrightarrow> list_ex (\<lambda>t. parseBlocks t = None) (prose_texts s)"
proof (induction s rule: prose_texts.induct)
  case (1 s)
  show ?case
  proof (cases "next_fence s")
    case None
    then show ?thesis by (simp add: prose_nodes.simps prose_texts.simps text_nodes_def)
  next
    case (Some m)
    then show ?thesis
      using "1.IH" [OF Some] by (simp add: prose_nodes.simps [of s] prose_texts.simps [of s] text_nodes_def bind_eq_None_conv)
  qed
qed

end
