(* ===== verification/IndexedDb.thy ===== *)
theory IndexedDb
  imports JsPrelude "HOL-Library.List_Lexorder"
begin

text \<open>
  The browser database, src/ui/web/src/lib/db.ts: three object stores whose records are keyed by
  their id and read back in key order, and the requests the program issues on them.  Requests are
  kept in the order in which they were issued: connections to one database are opened in request
  order, and transactions on a store run in the order of their creation.
\<close>

section \<open>An object store\<close>

type_synonym 'a object_store = "(jstr \<times> 'a) list"

fun store_put :: "'a object_store \<Rightarrow> jstr \<Rightarrow> 'a \<Rightarrow> 'a object_store" where
  "store_put [] k v = [(k, v)]"
| "store_put ((k', v') # os) k v =
     (if k < k' then (k, v) # (k', v') # os
      else if k = k' then (k, v) # os
      else (k', v') # store_put os k v)"

definition store_delete :: "'a object_store \<Rightarrow> jstr \<Rightarrow> 'a object_store" where
  "store_delete os k = filter (\<lambda>(k', v). k' \<noteq> k) os"

definition store_get :: "'a object_store \<Rightarrow> jstr \<Rightarrow> 'a option" where
  "store_get os k = map_of os k"

definition store_all :: "'a object_store \<Rightarrow> 'a list" where
  "store_all os = map snd os"

definition store_sorted :: "'a object_store \<Rightarrow> bool" where
  "store_sorted os \<longleftrightarrow> sorted_wrt (<) (map fst os)"

lemma store_get_put: "store_get (store_put os k v) k' = (if k' = k then Some v else store_get os k')"
  by (induction os k v rule: store_put.induct) (auto simp: store_get_def)

lemma store_get_delete: "store_get (store_delete os k) k' = (if k' = k then None else store_get os k')"
  by (induction os) (auto simp: store_get_def store_delete_def)

interpretation odb: kv_store store_get store_put store_delete
  by unfold_locales (simp_all add: store_get_put store_get_delete)

lemma keys_put: "fst ` set (store_put os k v) = insert k (fst ` set os)"
  by (induction os k v rule: store_put.induct) auto

lemma store_sorted_put: "store_sorted os \<Longrightarrow> store_sorted (store_put os k v)"
proof (induction os k v rule: store_put.induct)
  case (2 k' v' os k v)
  have "k' < fst y" if "y \<in> set (store_put os k v)" "\<not> k < k'" "k \<noteq> k'" "\<forall>x \<in> set os. k' < fst x" for y
  proof -
    have "fst y \<in> insert k (fst ` set os)" using that(1) keys_put [of os k v] by (metis imageI)
    then show ?thesis using that(2,3,4) by auto
  qed
  with 2 show ?case by (auto simp: store_sorted_def)
qed (simp add: store_sorted_def)

lemma store_sorted_delete: "store_sorted os \<Longrightarrow> store_sorted (store_delete os k)"
  unfolding store_sorted_def store_delete_def by (induction os) auto

section \<open>Writes\<close>

datatype 'a db_write = Put jstr 'a | Del jstr

fun apply_write :: "'a object_store \<Rightarrow> 'a db_write \<Rightarrow> 'a object_store" where
  "apply_write os (Put k v) = store_put os k v"
| "apply_write os (Del k) = store_delete os k"

definition apply_writes :: "'a object_store \<Rightarrow> 'a db_write list \<Rightarrow> 'a object_store" where
  "apply_writes os ws = foldl apply_write os ws"

lemma apply_writes_append: "apply_writes os (ws @ ws') = apply_writes (apply_writes os ws) ws'"
  by (simp add: apply_writes_def)

lemma apply_writes_Nil: "apply_writes os [] = os"
  by (simp add: apply_writes_def)

text \<open>The record of an id in a list of records, and writes that store some of the records.\<close>

definition lookup :: "('a \<Rightarrow> jstr) \<Rightarrow> 'a list \<Rightarrow> jstr \<Rightarrow> 'a option" where
  "lookup key xs i = map_of (map (\<lambda>x. (key x, x)) xs) i"

definition put_all :: "('a \<Rightarrow> jstr) \<Rightarrow> 'a list \<Rightarrow> 'a db_write list" where
  "put_all key xs = map (\<lambda>x. Put (key x) x) xs"

lemma lookup_None: "lookup key xs i = None \<longleftrightarrow> i \<notin> key ` set xs"
  by (auto simp: lookup_def map_of_eq_None_iff image_iff)

lemma lookup_SomeD: "lookup key xs i = Some x \<Longrightarrow> x \<in> set xs \<and> key x = i"
  by (auto simp: lookup_def dest!: map_of_SomeD)

lemma lookup_in: "distinct (map key xs) \<Longrightarrow> x \<in> set xs \<Longrightarrow> lookup key xs (key x) = Some x"
  unfolding lookup_def by (rule map_of_is_SomeI) (auto simp: comp_def)

lemma lookup_snoc: "key x \<notin> key ` set xs \<Longrightarrow>
   lookup key (xs @ [x]) i = (if i = key x then Some x else lookup key xs i)"
  by (induction xs) (auto simp: lookup_def)

lemma lookup_filter: "lookup key (filter (\<lambda>x. key x \<noteq> i) xs) j = (if j = i then None else lookup key xs j)"
  by (induction xs) (auto simp: lookup_def)

lemma lookup_update:
  "(\<And>x. key (f x) = key x) \<Longrightarrow> lookup key (map f xs) j = map_option f (lookup key xs j)"
  by (induction xs) (auto simp: lookup_def)

lemma map_of_rev_distinct: "distinct (map fst ps) \<Longrightarrow> map_of (rev ps) = map_of ps"
  by (subst map_of_inject_set) (simp_all add: rev_map [symmetric])

lemma get_put_all_writes:
  "store_get (apply_writes os (put_all key xs)) i =
     (case map_of (map (\<lambda>x. (key x, x)) (rev xs)) i of Some x \<Rightarrow> Some x | None \<Rightarrow> store_get os i)"
proof -
  have "apply_writes os (put_all key xs) = foldl (\<lambda>m x. store_put m (key x) x) os xs"
    by (induction xs arbitrary: os) (simp_all add: apply_writes_def put_all_def)
  then show ?thesis using odb.get_put_all [of key "\<lambda>x. x" os xs i] by simp
qed

text \<open>
  The programs change the records of a list that satisfy a condition and store exactly those: a
  store that held the list holds the changed list afterwards.
\<close>

lemma store_updated:
  assumes key: "\<And>x. key (f x) = key x" and dist: "distinct (map key xs)"
    and old: "store_get os = lookup key xs"
  shows "store_get (apply_writes os (put_all key (map f (filter P xs))))
    = lookup key (map (\<lambda>x. if P x then f x else x) xs)"
proof
  fix i
  let ?ys = "map f (filter P xs)"
  have "distinct (map key ?ys)"
    using dist by (simp add: comp_def key distinct_map_filter)
  then have r: "map_of (map (\<lambda>x. (key x, x)) (rev ?ys)) i = lookup key ?ys i"
    unfolding lookup_def rev_map [symmetric] by (simp add: map_of_rev_distinct comp_def)
  have u: "lookup key (map (\<lambda>x. if P x then f x else x) xs) i
      = map_option (\<lambda>x. if P x then f x else x) (lookup key xs i)"
    by (rule lookup_update) (simp add: key)
  have y: "lookup key ?ys i = (case lookup key xs i of Some x \<Rightarrow> if P x then Some (f x) else None | None \<Rightarrow> None)"
    using dist
  proof (induction xs)
    case (Cons x xs)
    have "key x = i \<Longrightarrow> lookup key (map f (filter P xs)) i = None"
      using Cons.prems by (auto simp: lookup_None key)
    moreover have "lookup key xs i = None" if "key x = i" using that Cons.prems by (auto simp: lookup_None)
    ultimately show ?case using Cons by (auto simp: lookup_def key)
  qed (simp add: lookup_def)
  show "store_get (apply_writes os (put_all key ?ys)) i
      = lookup key (map (\<lambda>x. if P x then f x else x) xs) i"
    unfolding get_put_all_writes r y u by (simp add: old split: option.splits)
qed

lemma store_added: "store_get os = lookup key xs \<Longrightarrow> key x \<notin> key ` set xs \<Longrightarrow> key x = i \<Longrightarrow>
   store_get (store_put os i x) = lookup key (xs @ [x])"
  by (rule ext) (auto simp: store_get_put lookup_snoc)

lemma store_removed: "store_get os = lookup key xs \<Longrightarrow>
   store_get (store_delete os i) = lookup key (filter (\<lambda>x. key x \<noteq> i) xs)"
  by (rule ext) (simp add: store_get_delete lookup_filter)

lemma distinct_filter_map: "distinct (map key xs) \<Longrightarrow> distinct (map key (filter P xs))"
  by (rule distinct_map_filter)

lemma lookup_added: "key x \<notin> key ` set xs \<Longrightarrow> lookup key (xs @ [x]) = (lookup key xs)(key x \<mapsto> x)"
  by (rule ext) (simp add: lookup_snoc)

lemma lookup_removed: "lookup key (filter (\<lambda>x. key x \<noteq> i) xs) = (lookup key xs)(i := None)"
  by (rule ext) (simp add: lookup_filter)

lemma lookup_updated:
  "(\<And>x. key (f x) = key x) \<Longrightarrow>
   lookup key (map (\<lambda>x. if key x = i then f x else x) xs) = (lookup key xs)(i := map_option f (lookup key xs i))"
proof (rule ext)
  fix j
  assume key: "\<And>x. key (f x) = key x"
  have "lookup key (map (\<lambda>x. if key x = i then f x else x) xs) j
      = map_option (\<lambda>x. if key x = i then f x else x) (lookup key xs j)"
    by (rule lookup_update) (simp add: key)
  then show "lookup key (map (\<lambda>x. if key x = i then f x else x) xs) j
      = ((lookup key xs)(i := map_option f (lookup key xs i))) j"
    by (cases "lookup key xs j") (auto dest: lookup_SomeD)
qed

end
