(* ===== verification/DocumentsStore.thy ===== *)
theory DocumentsStore
  imports IndexedDb
begin

text \<open>
  The documents, sections and links of a workspace, src/ui/web/src/stores/documents.ts, with the
  database behind them.  An action changes the lists at once and issues requests to the database;
  a request completes (\<open>Commit\<close>) or fails (\<open>Reject\<close>) later.  Loading is a loop of requests of its
  own, so actions can fall between its requests.
\<close>

section \<open>Records\<close>

record document =
  d_id :: jstr
  d_workspaceId :: jstr
  d_title :: jstr
  d_content :: jstr
  d_sectionId :: "jstr option"
  d_isPinned :: bool
  d_createdAt :: jstr
  d_updatedAt :: jstr

record doc_section =
  s_id :: jstr
  s_workspaceId :: jstr
  s_name :: jstr

record ext_link =
  l_id :: jstr
  l_workspaceId :: jstr
  l_title :: jstr
  l_url :: jstr
  l_description :: "jstr option"
  l_sectionId :: "jstr option"
  l_isPinned :: bool

text \<open>The fields that an update gives; \<open>updatedAt\<close> is overwritten whatever the update says.\<close>

record document_updates =
  du_title :: "jstr option"
  du_content :: "jstr option"
  du_sectionId :: "jstr option option"
  du_isPinned :: "bool option"

record link_updates =
  lu_title :: "jstr option"
  lu_url :: "jstr option"
  lu_description :: "jstr option option"
  lu_sectionId :: "jstr option option"
  lu_isPinned :: "bool option"

definition given :: "'a option \<Rightarrow> 'a \<Rightarrow> 'a" where
  "given u old = (case u of Some v \<Rightarrow> v | None \<Rightarrow> old)"

definition update_document :: "document_updates \<Rightarrow> jstr \<Rightarrow> document \<Rightarrow> document" where
  "update_document u stamp d = d\<lparr>d_title := given (du_title u) (d_title d),
     d_content := given (du_content u) (d_content d),
     d_sectionId := given (du_sectionId u) (d_sectionId d),
     d_isPinned := given (du_isPinned u) (d_isPinned d), d_updatedAt := stamp\<rparr>"

definition update_link :: "link_updates \<Rightarrow> ext_link \<Rightarrow> ext_link" where
  "update_link u l = l\<lparr>l_title := given (lu_title u) (l_title l), l_url := given (lu_url u) (l_url l),
     l_description := given (lu_description u) (l_description l),
     l_sectionId := given (lu_sectionId u) (l_sectionId l),
     l_isPinned := given (lu_isPinned u) (l_isPinned l)\<rparr>"

section \<open>Seed data\<close>
definition playbook_content :: jstr where
  "playbook_content = join [10]
     [js ''# Lending Support Operations Playbook'',
      js '''',
      js ''Welcome to the operations playbook for the Lending Claw platform. This guide outlines standard operating procedures for investigating and resolving client loan issues.'',
      js '''',
      js ''## 1. Ticket Triage Workflow'',
      js ''When a customer ticket is escalated from CS, follow these steps:'',
      js ''- **Analyze Ticket**: Identify Zalo ID, Loan Application ID, and issue type (e.g., Disbursement failure, Repayment mismatch).'',
      js ''- **Run Tool Checks**: '',
      js ''  - Call `get_customer_loans` to inspect current loans.'',
      js ''  - Call `get_loan_detail` for specific application status.'',
      js ''  - Query `search_http_errors` if logs show errors.'',
      js '''',
      js ''## 2. Common Scenarios & Resolutions'',
      js '''',
      js ''### Disbursement Failed (Status: FAILED)'',
      js ''- **Cause**: Bank transfer failure, partner downtime, or incorrect bank account.'',
      js ''- **Action**: Check OpenSearch logs using `get_logs_by_trace_id` to confirm the partner response code. Contact finance if funds were locked.'',
      js '''',
      js ''### Repayment Pending (Double payment)'',
      js ''- **Cause**: Customer repaid twice within the same cycle.'',
      js ''- **Action**: Verify payments in the database. Open JIRA ticket for CS reimbursement.'',
      js '''',
      js ''## 3. Communication Guidelines'',
      js ''Keep replies concise, clear, and professional. Always attach relevant trace IDs or loan identifiers when updating tickets.'',
      js '''']"

definition replies_content :: jstr where
  "replies_content = join [10]
     [js ''# Standard Response Templates'',
      js '''',
      js ''Use these templates to quickly formulate standard responses for CS tickets. Modify bracketed placeholders `[like this]` before posting.'',
      js '''',
      js ''## Disbursement Delays'',
      js ''> We have investigated the disbursement issue for loan ID `[LOAN_ID]`. The transaction failed due to bank partner connectivity issues. We have re-triggered the payout process, and the funds should arrive within 2 hours.'',
      js '''',
      js ''## Interest Recalculation Approval'',
      js ''> Following a review of the interest calculation mismatch for ticket `[TICKET_ID]`, we verified that a late-fee correction was required. The system has updated, and the customer's outstanding balance is now adjusted. Please notify the user.'',
      js '''',
      js ''## Technical Issue Escalation'',
      js ''> The logs for application `[APP_ID]` show database connection timeouts during the signature phase. We have resolved the system lock, and the user can now re-submit their application.'',
      js '''']"

definition mockSections :: "doc_section list" where
  "mockSections =
    [\<lparr>s_id = js ''sec-guides'', s_workspaceId = js ''default'', s_name = js ''Guides & Reference''\<rparr>,
     \<lparr>s_id = js ''sec-notes'', s_workspaceId = js ''default'', s_name = js ''Meeting Notes''\<rparr>]"

text \<open>\<open>today\<close> is the date in the notation of the locale.\<close>

definition mockDocs :: "jstr \<Rightarrow> document list" where
  "mockDocs today =
    [\<lparr>d_id = js ''doc-playbook'', d_workspaceId = js ''default'',
      d_title = js ''Lending Support Operations Playbook'', d_content = playbook_content,
      d_sectionId = Some (js ''sec-guides''), d_isPinned = True, d_createdAt = today, d_updatedAt = today\<rparr>,
     \<lparr>d_id = js ''doc-replies'', d_workspaceId = js ''default'',
      d_title = js ''Standard Response Templates'', d_content = replies_content,
      d_sectionId = Some (js ''sec-guides''), d_isPinned = False, d_createdAt = today, d_updatedAt = today\<rparr>]"

definition mockLinks :: "ext_link list" where
  "mockLinks =
    [\<lparr>l_id = js ''lnk-devportal'', l_workspaceId = js ''default'',
      l_title = js ''Zalopay Developer Portal'', l_url = js ''https://developers.zalopay.vn'',
      l_description = Some (js ''Official documentation for Zalopay merchant integration, APIs, and partner callbacks.''),
      l_sectionId = Some (js ''sec-guides''), l_isPinned = True\<rparr>,
     \<lparr>l_id = js ''lnk-jira'', l_workspaceId = js ''default'',
      l_title = js ''Lending Operations JIRA Board'', l_url = js ''https://jira.zalopay.vn'',
      l_description = Some (js ''Direct queue access to outstanding CS escalation tickets and bug reports.''),
      l_sectionId = Some (js ''sec-notes''), l_isPinned = False\<rparr>]"

section \<open>State\<close>

record database =
  db_documents :: "document object_store"
  db_sections :: "doc_section object_store"
  db_links :: "ext_link object_store"

datatype request = WriteDoc "document db_write" | WriteSec "doc_section db_write"
  | WriteLink "ext_link db_write" | ReadDocs | ReadSecs | ReadLinks

text \<open>Where a call of \<open>loadFromDB\<close> is; a seeding loader has the writes that are still to be issued.\<close>

datatype loader = AwaitDocs | AwaitSecs "document list" | AwaitLinks "document list" "doc_section list"
  | Seeding "request list" jstr | Loaded

text \<open>A queued request names the loader that awaits it, if any.\<close>

record documents_state =
  documents :: "document list"
  sections :: "doc_section list"
  links :: "ext_link list"
  docs_loading :: bool
  doc_db :: database
  db_queue :: "(request \<times> nat option) list"
  loaders :: "loader list"

datatype documents_event =
    LoadFromDB
  | CreateDocument nat jstr jstr jstr jstr jstr "jstr option"
  | UpdateDocument jstr jstr document_updates
  | DeleteDocument jstr
  | CreateSection nat jstr jstr
  | UpdateSection jstr jstr
  | DeleteSection jstr jstr
  | CreateLink nat jstr jstr jstr "jstr option" "jstr option"
  | UpdateLink jstr link_updates
  | DeleteLink jstr
  | Commit jstr
  | Reject

section \<open>Requests\<close>

definition enqueue :: "request list \<Rightarrow> documents_state \<Rightarrow> documents_state" where
  "enqueue rs s = s\<lparr>db_queue := db_queue s @ map (\<lambda>r. (r, None)) rs\<rparr>"

definition enqueue_for :: "nat \<Rightarrow> request \<Rightarrow> documents_state \<Rightarrow> documents_state" where
  "enqueue_for k r s = s\<lparr>db_queue := db_queue s @ [(r, Some k)]\<rparr>"

fun apply_request :: "database \<Rightarrow> request \<Rightarrow> database" where
  "apply_request db (WriteDoc w) = db\<lparr>db_documents := apply_write (db_documents db) w\<rparr>"
| "apply_request db (WriteSec w) = db\<lparr>db_sections := apply_write (db_sections db) w\<rparr>"
| "apply_request db (WriteLink w) = db\<lparr>db_links := apply_write (db_links db) w\<rparr>"
| "apply_request db _ = db"

definition set_loader :: "nat \<Rightarrow> loader \<Rightarrow> documents_state \<Rightarrow> documents_state" where
  "set_loader k l s = s\<lparr>loaders := (loaders s)[k := l]\<rparr>"

definition seed_writes :: "jstr \<Rightarrow> request list" where
  "seed_writes today = map WriteSec (put_all s_id mockSections)
     @ map WriteDoc (put_all d_id (mockDocs today)) @ map WriteLink (put_all l_id mockLinks)"

text \<open>What a loader does when the request it awaits has completed.\<close>

definition loader_step :: "jstr \<Rightarrow> nat \<Rightarrow> documents_state \<Rightarrow> documents_state" where
  "loader_step today k s = (if k < length (loaders s) then (case loaders s ! k of
     AwaitDocs \<Rightarrow>
       enqueue_for k ReadSecs (set_loader k (AwaitSecs (store_all (db_documents (doc_db s)))) s)
   | AwaitSecs docs \<Rightarrow>
       enqueue_for k ReadLinks (set_loader k (AwaitLinks docs (store_all (db_sections (doc_db s)))) s)
   | AwaitLinks docs secs \<Rightarrow>
       (let lnks = store_all (db_links (doc_db s))
        in if docs = [] \<and> secs = [] \<and> lnks = [] then
             (case seed_writes today of
                [] \<Rightarrow> s
              | w # ws \<Rightarrow> enqueue_for k w (set_loader k (Seeding ws today) s))
           else
             set_loader k Loaded (s\<lparr>documents := docs, sections := secs, links := lnks, docs_loading := False\<rparr>))
   | Seeding ws day \<Rightarrow>
       (case ws of
          w # ws' \<Rightarrow> enqueue_for k w (set_loader k (Seeding ws' day) s)
        | [] \<Rightarrow> set_loader k Loaded (s\<lparr>documents := mockDocs day, sections := mockSections,
            links := mockLinks, docs_loading := False\<rparr>))
   | Loaded \<Rightarrow> s) else s)"

section \<open>Actions\<close>

definition loadFromDB :: "documents_state \<Rightarrow> documents_state" where
  "loadFromDB s = enqueue_for (length (loaders s)) ReadDocs (s\<lparr>loaders := loaders s @ [AwaitDocs]\<rparr>)"

definition generated_id :: "jstr \<Rightarrow> nat \<Rightarrow> jstr" where
  "generated_id prefix now = prefix @ nat_str now"

definition createDocument :: "nat \<Rightarrow> jstr \<Rightarrow> jstr \<Rightarrow> jstr \<Rightarrow> jstr \<Rightarrow> jstr \<Rightarrow> jstr option \<Rightarrow> documents_state \<Rightarrow> documents_state" where
  "createDocument now created updated workspaceId title content sectionId s =
     (let newDoc = \<lparr>d_id = generated_id (js ''doc-'') now, d_workspaceId = workspaceId, d_title = title,
            d_content = content, d_sectionId = sectionId, d_isPinned = False,
            d_createdAt = created, d_updatedAt = updated\<rparr>
      in enqueue [WriteDoc (Put (d_id newDoc) newDoc)] (s\<lparr>documents := documents s @ [newDoc]\<rparr>))"

definition updateDocument :: "jstr \<Rightarrow> jstr \<Rightarrow> document_updates \<Rightarrow> documents_state \<Rightarrow> documents_state" where
  "updateDocument stamp i u s =
     enqueue (map WriteDoc (put_all d_id (map (update_document u stamp) (filter (\<lambda>d. d_id d = i) (documents s)))))
       (s\<lparr>documents := map (\<lambda>d. if d_id d = i then update_document u stamp d else d) (documents s)\<rparr>)"

definition deleteDocument :: "jstr \<Rightarrow> documents_state \<Rightarrow> documents_state" where
  "deleteDocument i s = enqueue [WriteDoc (Del i)] (s\<lparr>documents := filter (\<lambda>d. d_id d \<noteq> i) (documents s)\<rparr>)"

definition createSection :: "nat \<Rightarrow> jstr \<Rightarrow> jstr \<Rightarrow> documents_state \<Rightarrow> documents_state" where
  "createSection now workspaceId name s =
     (let newSec = \<lparr>s_id = generated_id (js ''sec-'') now, s_workspaceId = workspaceId, s_name = name\<rparr>
      in enqueue [WriteSec (Put (s_id newSec) newSec)] (s\<lparr>sections := sections s @ [newSec]\<rparr>))"

definition updateSection :: "jstr \<Rightarrow> jstr \<Rightarrow> documents_state \<Rightarrow> documents_state" where
  "updateSection i name s =
     enqueue (map WriteSec (put_all s_id (map (\<lambda>c. c\<lparr>s_name := name\<rparr>) (filter (\<lambda>c. s_id c = i) (sections s)))))
       (s\<lparr>sections := map (\<lambda>c. if s_id c = i then c\<lparr>s_name := name\<rparr> else c) (sections s)\<rparr>)"

definition deleteSection :: "jstr \<Rightarrow> jstr \<Rightarrow> documents_state \<Rightarrow> documents_state" where
  "deleteSection stamp i s =
     (let free_doc = (\<lambda>d. d\<lparr>d_sectionId := None, d_updatedAt := stamp\<rparr>);
          free_link = (\<lambda>l. l\<lparr>l_sectionId := None\<rparr>);
          in_doc = (\<lambda>d. d_sectionId d = Some i);
          in_link = (\<lambda>l. l_sectionId l = Some i)
      in enqueue (map WriteDoc (put_all d_id (map free_doc (filter in_doc (documents s))))
           @ map WriteLink (put_all l_id (map free_link (filter in_link (links s))))
           @ [WriteSec (Del i)])
         (s\<lparr>sections := filter (\<lambda>c. s_id c \<noteq> i) (sections s),
            documents := map (\<lambda>d. if in_doc d then free_doc d else d) (documents s),
            links := map (\<lambda>l. if in_link l then free_link l else l) (links s)\<rparr>))"

definition createLink :: "nat \<Rightarrow> jstr \<Rightarrow> jstr \<Rightarrow> jstr \<Rightarrow> jstr option \<Rightarrow> jstr option \<Rightarrow> documents_state \<Rightarrow> documents_state" where
  "createLink now workspaceId title url description sectionId s =
     (let newLink = \<lparr>l_id = generated_id (js ''lnk-'') now, l_workspaceId = workspaceId, l_title = title,
            l_url = url, l_description = description, l_sectionId = sectionId, l_isPinned = False\<rparr>
      in enqueue [WriteLink (Put (l_id newLink) newLink)] (s\<lparr>links := links s @ [newLink]\<rparr>))"

definition updateLink :: "jstr \<Rightarrow> link_updates \<Rightarrow> documents_state \<Rightarrow> documents_state" where
  "updateLink i u s =
     enqueue (map WriteLink (put_all l_id (map (update_link u) (filter (\<lambda>l. l_id l = i) (links s)))))
       (s\<lparr>links := map (\<lambda>l. if l_id l = i then update_link u l else l) (links s)\<rparr>)"

definition deleteLink :: "jstr \<Rightarrow> documents_state \<Rightarrow> documents_state" where
  "deleteLink i s = enqueue [WriteLink (Del i)] (s\<lparr>links := filter (\<lambda>l. l_id l \<noteq> i) (links s)\<rparr>)"

text \<open>The oldest request completes: its effect, then the loader that awaits it goes on.\<close>

definition commit :: "jstr \<Rightarrow> documents_state \<Rightarrow> documents_state" where
  "commit today s = (case db_queue s of
     [] \<Rightarrow> s
   | (r, owner) # q \<Rightarrow>
       (let s' = s\<lparr>db_queue := q, doc_db := apply_request (doc_db s) r\<rparr>
        in (case owner of None \<Rightarrow> s' | Some k \<Rightarrow> loader_step today k s')))"

text \<open>
  The oldest request fails: a loader gives up, and an action's promise is rejected, which leaves the
  state as it is.
\<close>

definition reject :: "documents_state \<Rightarrow> documents_state" where
  "reject s = (case db_queue s of
     [] \<Rightarrow> s
   | (r, owner) # q \<Rightarrow>
       (case owner of
          None \<Rightarrow> s\<lparr>db_queue := q\<rparr>
        | Some k \<Rightarrow> set_loader k Loaded (s\<lparr>db_queue := q, docs_loading := False\<rparr>)))"

fun documents_step :: "documents_state \<Rightarrow> documents_event \<Rightarrow> documents_state" where
  "documents_step s LoadFromDB = loadFromDB s"
| "documents_step s (CreateDocument now created updated ws title content sec) =
     createDocument now created updated ws title content sec s"
| "documents_step s (UpdateDocument stamp i u) = updateDocument stamp i u s"
| "documents_step s (DeleteDocument i) = deleteDocument i s"
| "documents_step s (CreateSection now ws name) = createSection now ws name s"
| "documents_step s (UpdateSection i name) = updateSection i name s"
| "documents_step s (DeleteSection stamp i) = deleteSection stamp i s"
| "documents_step s (CreateLink now ws title url desc sec) = createLink now ws title url desc sec s"
| "documents_step s (UpdateLink i u) = updateLink i u s"
| "documents_step s (DeleteLink i) = deleteLink i s"
| "documents_step s (Commit today) = commit today s"
| "documents_step s Reject = reject s"

section \<open>The lists are what the database will hold\<close>

text \<open>The specification: three maps from ids to records, changed at once.\<close>

record documents_spec =
  spec_documents :: "jstr \<Rightarrow> document option"
  spec_sections :: "jstr \<Rightarrow> doc_section option"
  spec_links :: "jstr \<Rightarrow> ext_link option"

fun spec_step :: "documents_spec \<Rightarrow> documents_event \<Rightarrow> documents_spec" where
  "spec_step m (CreateDocument now created updated ws title content sec) =
     (let i = generated_id (js ''doc-'') now
      in m\<lparr>spec_documents := (spec_documents m)(i \<mapsto> \<lparr>d_id = i, d_workspaceId = ws, d_title = title,
           d_content = content, d_sectionId = sec, d_isPinned = False, d_createdAt = created,
           d_updatedAt = updated\<rparr>)\<rparr>)"
| "spec_step m (UpdateDocument stamp i u) =
     m\<lparr>spec_documents := (spec_documents m)(i := map_option (update_document u stamp) (spec_documents m i))\<rparr>"
| "spec_step m (DeleteDocument i) = m\<lparr>spec_documents := (spec_documents m)(i := None)\<rparr>"
| "spec_step m (CreateSection now ws name) =
     (let i = generated_id (js ''sec-'') now
      in m\<lparr>spec_sections := (spec_sections m)(i \<mapsto> \<lparr>s_id = i, s_workspaceId = ws, s_name = name\<rparr>)\<rparr>)"
| "spec_step m (UpdateSection i name) =
     m\<lparr>spec_sections := (spec_sections m)(i := map_option (\<lambda>c. c\<lparr>s_name := name\<rparr>) (spec_sections m i))\<rparr>"
| "spec_step m (DeleteSection stamp i) =
     \<lparr>spec_documents = (\<lambda>k. map_option (\<lambda>d. if d_sectionId d = Some i
         then d\<lparr>d_sectionId := None, d_updatedAt := stamp\<rparr> else d) (spec_documents m k)),
      spec_sections = (spec_sections m)(i := None),
      spec_links = (\<lambda>k. map_option (\<lambda>l. if l_sectionId l = Some i
         then l\<lparr>l_sectionId := None\<rparr> else l) (spec_links m k))\<rparr>"
| "spec_step m (CreateLink now ws title url desc sec) =
     (let i = generated_id (js ''lnk-'') now
      in m\<lparr>spec_links := (spec_links m)(i \<mapsto> \<lparr>l_id = i, l_workspaceId = ws, l_title = title, l_url = url,
           l_description = desc, l_sectionId = sec, l_isPinned = False\<rparr>)\<rparr>)"
| "spec_step m (UpdateLink i u) =
     m\<lparr>spec_links := (spec_links m)(i := map_option (update_link u) (spec_links m i))\<rparr>"
| "spec_step m (DeleteLink i) = m\<lparr>spec_links := (spec_links m)(i := None)\<rparr>"
| "spec_step m _ = m"

definition documents_abs :: "documents_state \<Rightarrow> documents_spec" where
  "documents_abs s = \<lparr>spec_documents = lookup d_id (documents s), spec_sections = lookup s_id (sections s),
     spec_links = lookup l_id (links s)\<rparr>"

text \<open>The database once every queued request has completed.\<close>

definition flushed :: "documents_state \<Rightarrow> database" where
  "flushed s = foldl apply_request (doc_db s) (map fst (db_queue s))"

text \<open>
  No loader is at work, ids are unique, and the queued writes bring the database to the lists.
\<close>

definition synced :: "documents_state \<Rightarrow> bool" where
  "synced s \<longleftrightarrow> (\<forall>(r, owner) \<in> set (db_queue s). owner = None)
     \<and> distinct (map d_id (documents s)) \<and> distinct (map s_id (sections s)) \<and> distinct (map l_id (links s))
     \<and> store_get (db_documents (flushed s)) = lookup d_id (documents s)
     \<and> store_get (db_sections (flushed s)) = lookup s_id (sections s)
     \<and> store_get (db_links (flushed s)) = lookup l_id (links s)"

text \<open>A generated id must be new; loading and failing requests are not part of the claim.\<close>

fun documents_ok :: "documents_state \<Rightarrow> documents_event \<Rightarrow> bool" where
  "documents_ok s LoadFromDB = False"
| "documents_ok s Reject = False"
| "documents_ok s (CreateDocument now created updated ws title content sec) =
     (generated_id (js ''doc-'') now \<notin> d_id ` set (documents s))"
| "documents_ok s (CreateSection now ws name) = (generated_id (js ''sec-'') now \<notin> s_id ` set (sections s))"
| "documents_ok s (CreateLink now ws title url desc sec) = (generated_id (js ''lnk-'') now \<notin> l_id ` set (links s))"
| "documents_ok s _ = True"

lemma apply_doc_writes:
  "foldl apply_request db (map WriteDoc ws) = db\<lparr>db_documents := apply_writes (db_documents db) ws\<rparr>"
  by (induction ws arbitrary: db) (simp_all add: apply_writes_def)

lemma apply_sec_writes:
  "foldl apply_request db (map WriteSec ws) = db\<lparr>db_sections := apply_writes (db_sections db) ws\<rparr>"
  by (induction ws arbitrary: db) (simp_all add: apply_writes_def)

lemma apply_link_writes:
  "foldl apply_request db (map WriteLink ws) = db\<lparr>db_links := apply_writes (db_links db) ws\<rparr>"
  by (induction ws arbitrary: db) (simp_all add: apply_writes_def)

lemmas apply_one_write = apply_doc_writes [of _ "[w]" for w, simplified]
  apply_sec_writes [of _ "[w]" for w, simplified] apply_link_writes [of _ "[w]" for w, simplified]

lemma flushed_enqueue: "flushed (enqueue rs s) = foldl apply_request (flushed s) rs"
  by (simp add: flushed_def enqueue_def comp_def)

lemma enqueue_fields [simp]:
  "documents (enqueue rs s) = documents s" "sections (enqueue rs s) = sections s"
  "links (enqueue rs s) = links s"
  by (simp_all add: enqueue_def)

lemma flushed_fields [simp]:
  "flushed (s\<lparr>documents := ds\<rparr>) = flushed s" "flushed (s\<lparr>sections := ss\<rparr>) = flushed s"
  "flushed (s\<lparr>links := ls\<rparr>) = flushed s"
  by (simp_all add: flushed_def)

lemma synced_enqueue:
  "synced (enqueue rs s) \<longleftrightarrow> (\<forall>(r, owner) \<in> set (db_queue s). owner = None)
     \<and> distinct (map d_id (documents s)) \<and> distinct (map s_id (sections s)) \<and> distinct (map l_id (links s))
     \<and> store_get (db_documents (foldl apply_request (flushed s) rs)) = lookup d_id (documents s)
     \<and> store_get (db_sections (foldl apply_request (flushed s) rs)) = lookup s_id (sections s)
     \<and> store_get (db_links (foldl apply_request (flushed s) rs)) = lookup l_id (links s)"
  unfolding synced_def flushed_enqueue by (simp add: enqueue_def) blast

lemma update_keys [simp]:
  "d_id (update_document du stamp d) = d_id d" "l_id (update_link lu l) = l_id l"
  by (simp_all add: update_document_def update_link_def)

lemma flushed_commit: "\<forall>(r, owner) \<in> set (db_queue s). owner = None \<Longrightarrow>
   flushed (commit today s) = flushed s \<and> documents (commit today s) = documents s
   \<and> sections (commit today s) = sections s \<and> links (commit today s) = links s
   \<and> db_queue (commit today s) = tl (db_queue s)"
  by (cases "db_queue s") (auto simp: commit_def flushed_def split: option.splits)

lemma synced_doc_step:
  assumes "synced s" and "distinct (map d_id ds)"
    and "store_get (apply_writes (db_documents (flushed s)) ws) = lookup d_id ds"
  shows "synced (enqueue (map WriteDoc ws) (s\<lparr>documents := ds\<rparr>))"
  using assms unfolding synced_enqueue flushed_fields apply_doc_writes by (simp add: synced_def)

lemma synced_sec_step:
  assumes "synced s" and "distinct (map s_id ds)"
    and "store_get (apply_writes (db_sections (flushed s)) ws) = lookup s_id ds"
  shows "synced (enqueue (map WriteSec ws) (s\<lparr>sections := ds\<rparr>))"
  using assms unfolding synced_enqueue flushed_fields apply_sec_writes by (simp add: synced_def)

lemma synced_link_step:
  assumes "synced s" and "distinct (map l_id ds)"
    and "store_get (apply_writes (db_links (flushed s)) ws) = lookup l_id ds"
  shows "synced (enqueue (map WriteLink ws) (s\<lparr>links := ds\<rparr>))"
  using assms unfolding synced_enqueue flushed_fields apply_link_writes by (simp add: synced_def)

lemma syncedD:
  assumes "synced s"
  shows "distinct (map d_id (documents s))" "distinct (map s_id (sections s))" "distinct (map l_id (links s))"
    "store_get (db_documents (flushed s)) = lookup d_id (documents s)"
    "store_get (db_sections (flushed s)) = lookup s_id (sections s)"
    "store_get (db_links (flushed s)) = lookup l_id (links s)"
  using assms by (simp_all add: synced_def)

lemma one_write: "apply_writes os [Put i x] = store_put os i x" "apply_writes os [Del i] = store_delete os i"
  by (simp_all add: apply_writes_def)

lemmas synced_one_write = synced_doc_step [where ws = "[w]" for w, simplified]
  synced_sec_step [where ws = "[w]" for w, simplified] synced_link_step [where ws = "[w]" for w, simplified]

lemma distinct_updated:
  "(\<And>x. key (f x) = key x) \<Longrightarrow> distinct (map key xs) \<Longrightarrow>
   distinct (map key (map (\<lambda>x. if P x then f x else x) xs))"
proof -
  assume key: "\<And>x. key (f x) = key x" and dist: "distinct (map key xs)"
  have e: "map key (map (\<lambda>x. if P x then f x else x) xs) = map key xs" by (simp add: key)
  show ?thesis unfolding e by (rule dist)
qed

lemma synced_delete_section:
  assumes s: "synced s"
  shows "synced (deleteSection stamp i s)"
proof -
  let ?fd = "\<lambda>d. d\<lparr>d_sectionId := None, d_updatedAt := stamp\<rparr>" and ?fl = "\<lambda>l. l\<lparr>l_sectionId := None\<rparr>"
  let ?pd = "\<lambda>d. d_sectionId d = Some i" and ?pl = "\<lambda>l. l_sectionId l = Some i"
  let ?s1 = "enqueue (map WriteDoc (put_all d_id (map ?fd (filter ?pd (documents s)))))
    (s\<lparr>documents := map (\<lambda>d. if ?pd d then ?fd d else d) (documents s)\<rparr>)"
  let ?s2 = "enqueue (map WriteLink (put_all l_id (map ?fl (filter ?pl (links s)))))
    (?s1\<lparr>links := map (\<lambda>l. if ?pl l then ?fl l else l) (links s)\<rparr>)"
  have 1: "synced ?s1"
    by (rule synced_doc_step [OF s], rule distinct_updated, simp, rule syncedD [OF s],
        rule store_updated, simp_all add: syncedD [OF s])
  have 2: "synced ?s2"
    by (rule synced_link_step [OF 1], rule distinct_updated, simp, rule syncedD [OF s],
        rule store_updated, simp_all add: syncedD [OF s] flushed_enqueue apply_doc_writes)
  have 3: "synced (enqueue [WriteSec (Del i)] (?s2\<lparr>sections := filter (\<lambda>c. s_id c \<noteq> i) (sections s)\<rparr>))"
    by (rule synced_one_write(2) [OF 2])
       (simp_all add: distinct_filter_map one_write syncedD [OF s] store_removed flushed_enqueue
          apply_doc_writes apply_link_writes)
  have "deleteSection stamp i s
      = enqueue [WriteSec (Del i)] (?s2\<lparr>sections := filter (\<lambda>c. s_id c \<noteq> i) (sections s)\<rparr>)"
    by (simp add: deleteSection_def enqueue_def Let_def)
  with 3 show ?thesis by simp
qed

lemma synced_updates:
  assumes s: "synced s"
  shows "synced (updateDocument stamp i du s)" and "synced (updateSection i name s)"
    and "synced (updateLink i lu s)"
proof -
  show "synced (updateDocument stamp i du s)"
    unfolding updateDocument_def
    by (rule synced_doc_step [OF s], rule distinct_updated, simp, rule syncedD [OF s],
        rule store_updated, simp_all add: syncedD [OF s])
  show "synced (updateSection i name s)"
    unfolding updateSection_def
    by (rule synced_sec_step [OF s], rule distinct_updated, simp, rule syncedD [OF s],
        rule store_updated, simp_all add: syncedD [OF s])
  show "synced (updateLink i lu s)"
    unfolding updateLink_def
    by (rule synced_link_step [OF s], rule distinct_updated, simp, rule syncedD [OF s],
        rule store_updated, simp_all add: syncedD [OF s])
qed

lemma synced_deletes:
  assumes s: "synced s"
  shows "synced (deleteDocument i s)" and "synced (deleteLink i s)"
  unfolding deleteDocument_def deleteLink_def
  by (intro synced_one_write [OF s]; simp add: distinct_filter_map one_write syncedD [OF s] store_removed)+

lemma synced_creates:
  assumes s: "synced s"
  shows "generated_id (js ''doc-'') now \<notin> d_id ` set (documents s) \<Longrightarrow>
      synced (createDocument now created updated ws title content sec s)"
    and "generated_id (js ''sec-'') now \<notin> s_id ` set (sections s) \<Longrightarrow> synced (createSection now ws name s)"
    and "generated_id (js ''lnk-'') now \<notin> l_id ` set (links s) \<Longrightarrow>
      synced (createLink now ws title url desc sec s)"
  unfolding createDocument_def createSection_def createLink_def Let_def
  by (intro synced_one_write [OF s]; simp add: one_write syncedD [OF s] store_added)+

lemma step_synced: "synced s \<Longrightarrow> documents_ok s e \<Longrightarrow> synced (documents_step s e)"
proof (cases e)
  case (Commit today)
  assume "synced s"
  then show ?thesis using flushed_commit [of s today] Commit by (cases "db_queue s") (auto simp: synced_def)
qed (simp_all add: synced_delete_section synced_updates synced_deletes synced_creates)

lemma spec_commutes:
  "synced s \<Longrightarrow> documents_ok s e \<Longrightarrow> documents_abs (documents_step s e) = spec_step (documents_abs s) e"
proof (cases e)
  case (Commit today)
  assume "synced s"
  then show ?thesis using flushed_commit [of s today] Commit by (auto simp: synced_def documents_abs_def)
next
  case (DeleteSection stamp i)
  then show ?thesis
    by (simp add: deleteSection_def documents_abs_def enqueue_def Let_def lookup_removed lookup_update fun_eq_iff)
qed (simp_all add: documents_abs_def createDocument_def updateDocument_def deleteDocument_def createSection_def
    updateSection_def createLink_def updateLink_def deleteLink_def Let_def lookup_added lookup_removed lookup_updated)

interpretation docs: refinement_machine documents_step documents_ok synced spec_step documents_abs
  by unfold_locales (simp_all add: step_synced spec_commutes)

text \<open>Once every queued request has completed the database is what was to be flushed.\<close>

lemma drain_queue:
  "synced s \<Longrightarrow>
   (let t = foldl documents_step s (replicate (length (db_queue s)) (Commit today))
    in db_queue t = [] \<and> doc_db t = flushed s \<and> documents_abs t = documents_abs s)"
proof (induction "length (db_queue s)" arbitrary: s)
  case 0
  then show ?case by (simp add: flushed_def)
next
  case (Suc n)
  have t: "synced (commit today s)" using step_synced [OF Suc.prems, of "Commit today"] by simp
  have f: "flushed (commit today s) = flushed s \<and> documents (commit today s) = documents s
      \<and> sections (commit today s) = sections s \<and> links (commit today s) = links s
      \<and> db_queue (commit today s) = tl (db_queue s)"
    by (rule flushed_commit) (use Suc.prems synced_def in blast)
  have n: "n = length (db_queue (commit today s))" using Suc.hyps(2) f by simp
  have r: "replicate (length (db_queue s)) (Commit today) = Commit today # replicate (length (db_queue (commit today s))) (Commit today)"
    using Suc.hyps(2) n by (metis replicate_Suc)
  show ?case
    using Suc.hyps(1) [OF n t] f unfolding r by (simp add: Let_def documents_abs_def)
qed

lemma documents_run:
  "synced s \<Longrightarrow> ok_run documents_step documents_ok s es \<Longrightarrow>
   documents_abs (foldl documents_step s es) = foldl spec_step (documents_abs s) es
   \<and> synced (foldl documents_step s es)"
  by (rule docs.run_refines)

text \<open>
  C11. From a state in which the lists have no id twice and the database, once the requests queued so
  far have completed, holds what the lists hold, any sequence of actions and completing requests
  changes the lists as the specification changes three maps, and once the requests still queued have
  completed the database holds, under every id, exactly the record the lists hold.  This is for a
  stretch of use in which no request fails, the lists are not loaded again and no load is under way,
  and every id made from the clock is new in its list; lemmas \<open>same_millisecond_collides\<close> and
  \<open>create_during_load_is_lost\<close> show what happens otherwise.
\<close>

theorem documents_refine_spec:
  assumes "synced s" and "ok_run documents_step documents_ok s es"
    and "t = foldl documents_step s es"
    and "u = foldl documents_step t (replicate (length (db_queue t)) (Commit today))"
  shows "documents_abs u = foldl spec_step (documents_abs s) es \<and> db_queue u = [] \<and>
    store_get (db_documents (doc_db u)) = lookup d_id (documents u) \<and>
    store_get (db_sections (doc_db u)) = lookup s_id (sections u) \<and>
    store_get (db_links (doc_db u)) = lookup l_id (links u)"
proof -
  have t: "documents_abs t = foldl spec_step (documents_abs s) es" "synced t"
    using documents_run [OF assms(1,2)] assms(3) by simp_all
  have u: "db_queue u = []" "doc_db u = flushed t" "documents_abs u = documents_abs t"
    using drain_queue [OF t(2), of today] assms(4) by (simp_all add: Let_def)
  have "lookup d_id (documents u) = lookup d_id (documents t)" "lookup s_id (sections u) = lookup s_id (sections t)"
    "lookup l_id (links u) = lookup l_id (links t)"
    using u(3) by (simp_all add: documents_abs_def)
  then show ?thesis using u t syncedD [OF t(2)] by simp
qed

definition empty_documents :: documents_state where
  "empty_documents = \<lparr>documents = [], sections = [], links = [], docs_loading = False,
     doc_db = \<lparr>db_documents = [], db_sections = [], db_links = []\<rparr>, db_queue = [], loaders = []\<rparr>"

lemma empty_synced: "synced empty_documents"
  by (simp add: synced_def empty_documents_def flushed_def store_get_def lookup_def fun_eq_iff)

definition sample_actions :: "documents_event list" where
  "sample_actions = [CreateSection 7 (js ''w'') (js ''Guides''),
     CreateDocument 8 (js ''a'') (js ''a'') (js ''w'') (js ''t'') (js ''c'') (Some (js ''sec-7'')),
     Commit (js ''d''), DeleteSection (js ''b'') (js ''sec-7'')]"

theorem documents_refine_spec_witness:
  "let t = foldl documents_step empty_documents sample_actions;
       u = foldl documents_step t (replicate (length (db_queue t)) (Commit (js ''d'')))
   in documents_abs u = foldl spec_step (documents_abs empty_documents) sample_actions \<and> db_queue u = [] \<and>
    store_get (db_documents (doc_db u)) = lookup d_id (documents u) \<and>
    store_get (db_sections (doc_db u)) = lookup s_id (sections u) \<and>
    store_get (db_links (doc_db u)) = lookup l_id (links u)"
  unfolding Let_def
proof (rule documents_refine_spec [OF empty_synced _ refl refl])
  show "ok_run documents_step documents_ok empty_documents sample_actions"
    by (simp add: sample_actions_def empty_documents_def createSection_def enqueue_def Let_def)
qed

section \<open>Sections and references to them\<close>


definition filed_documents :: documents_state where
  "filed_documents = foldl documents_step empty_documents (take 2 sample_actions)"


section \<open>Two documents in one millisecond\<close>

text \<open>
  Two documents created in the same millisecond get the same id: the list holds both, an update
  of the one changes both to equal contents, and the database keeps only the second.
\<close>

theorem same_millisecond_collides:
  assumes "synced s" and "generated_id (js ''doc-'') now \<notin> d_id ` set (documents s)"
    and "t = createDocument now c2 u2 ws2 t2 b2 x2 (createDocument now c1 u1 ws1 t1 b1 x1 s)"
  shows "length (documents t) = length (documents s) + 2 \<and> \<not> distinct (map d_id (documents t)) \<and>
    (\<exists>d. store_get (db_documents (flushed t)) (generated_id (js ''doc-'') now) = Some d \<and> d_content d = b2) \<and>
    (\<forall>stamp u. du_content u = Some b \<longrightarrow>
       filter (\<lambda>d. d_content d \<noteq> b \<and> d_id d = generated_id (js ''doc-'') now)
         (documents (updateDocument stamp (generated_id (js ''doc-'') now) u t)) = [])"
proof -
  let ?i = "generated_id (js ''doc-'') now"
  define d1 where "d1 = \<lparr>d_id = ?i, d_workspaceId = ws1, d_title = t1, d_content = b1, d_sectionId = x1,
    d_isPinned = False, d_createdAt = c1, d_updatedAt = u1\<rparr>"
  define d2 where "d2 = \<lparr>d_id = ?i, d_workspaceId = ws2, d_title = t2, d_content = b2, d_sectionId = x2,
    d_isPinned = False, d_createdAt = c2, d_updatedAt = u2\<rparr>"
  have ids: "d_id d1 = ?i" "d_id d2 = ?i" "d_content d2 = b2" unfolding d1_def d2_def by simp_all
  have t: "t = enqueue [WriteDoc (Put ?i d2)] ((enqueue [WriteDoc (Put ?i d1)]
      (s\<lparr>documents := documents s @ [d1]\<rparr>))\<lparr>documents := documents s @ [d1, d2]\<rparr>)"
    unfolding assms(3) createDocument_def Let_def d1_def [symmetric] d2_def [symmetric] by (simp add: ids)
  have docs: "documents t = documents s @ [d1, d2]" unfolding t by simp
  have "store_get (db_documents (flushed t)) ?i = Some d2"
    unfolding t flushed_enqueue by (simp add: store_get_put)
  moreover have "filter (\<lambda>d. d_content d \<noteq> b \<and> d_id d = ?i) (documents (updateDocument stamp ?i u t)) = []"
    if "du_content u = Some b" for stamp u
    using that by (auto simp: updateDocument_def filter_empty_conv update_document_def given_def)
  ultimately show ?thesis using ids by (auto simp: docs)
qed

theorem same_millisecond_collides_witness:
  "\<not> distinct (map d_id (documents (createDocument 5 [] [] [] [] [50] None
      (createDocument 5 [] [] [] [] [49] None empty_documents))))"
  using same_millisecond_collides [OF empty_synced _ refl, of 5 "[]" "[]" "[]" "[]" "[50]" None "[]" "[]" "[]" "[]" "[49]" None]
  by (simp add: empty_documents_def)

section \<open>A document created while the store loads\<close>

text \<open>
  A document created after the loader has read the documents but before it has read the links
  disappears from the list when the load ends, although the database holds it: the loaded lists
  replace the ones in memory.
\<close>

theorem create_during_load_is_lost:
  assumes "db_queue s = []" and "db_documents (doc_db s) \<noteq> []"
    and "t = foldl documents_step s [LoadFromDB, Commit day,
      CreateDocument now created updated ws title content sec, Commit day, Commit day, Commit day]"
  shows "documents t = store_all (db_documents (doc_db s)) \<and>
    store_get (db_documents (doc_db t)) (generated_id (js ''doc-'') now)
      = Some \<lparr>d_id = generated_id (js ''doc-'') now, d_workspaceId = ws, d_title = title, d_content = content,
          d_sectionId = sec, d_isPinned = False, d_createdAt = created, d_updatedAt = updated\<rparr>"
  unfolding assms(3) using assms(1,2)
  by (simp add: loadFromDB_def enqueue_for_def enqueue_def commit_def loader_step_def set_loader_def
      createDocument_def Let_def nth_append store_all_def store_get_put)

theorem create_during_load_is_lost_witness:
  "documents (foldl documents_step (filed_documents\<lparr>db_queue := [],
       doc_db := \<lparr>db_documents = [(js ''doc-1'', hd (mockDocs []))], db_sections = [], db_links = []\<rparr>\<rparr>)
     [LoadFromDB, Commit [], CreateDocument 9 [] [] [] [] [] None, Commit [], Commit [], Commit []])
   = [hd (mockDocs [])]"
proof -
  let ?s = "filed_documents\<lparr>db_queue := [],
       doc_db := \<lparr>db_documents = [(js ''doc-1'', hd (mockDocs []))], db_sections = [], db_links = []\<rparr>\<rparr>"
  have "db_queue ?s = []" and "db_documents (doc_db ?s) \<noteq> []" by simp_all
  from create_during_load_is_lost [OF this refl, of "[]" 9 "[]" "[]" "[]" "[]" "[]" None]
  have "documents (foldl documents_step ?s
      [LoadFromDB, Commit [], CreateDocument 9 [] [] [] [] [] None, Commit [], Commit [], Commit []])
    = store_all (db_documents (doc_db ?s))" by (rule conjunct1)
  then show ?thesis by (simp add: store_all_def)
qed

end
