(* ===== verification/Cron.thy ===== *)
theory Cron
  imports JsValue
begin

text \<open>
  Schedules of routines, src/ui/web/src/lib/cron.ts: how the editor of a schedule writes a cron
  expression and reads one back, and the text that describes it.
\<close>

section \<open>Parts of a cron expression\<close>

definition cron_parts :: "jstr \<Rightarrow> jstr list" where
  "cron_parts cron = split_ws (trim cron)"

definition star :: jstr where
  "star = [42]"

definition isNumberPart :: "jstr \<Rightarrow> bool" where
  "isNumberPart s = all_digits s"

definition two_digits :: "nat \<Rightarrow> jstr" where
  "two_digits n = pad_start 2 48 (nat_str n)"

definition formatCronTime :: "jstr \<Rightarrow> jstr \<Rightarrow> jstr option" where
  "formatCronTime hour minute =
     (if \<not> isNumberPart hour \<or> \<not> isNumberPart minute then None
      else if digits_val hour > 23 \<or> digits_val minute > 59 then None
      else Some (two_digits (digits_val hour) @ [58] @ two_digits (digits_val minute)))"

definition formatCronMinute :: "jstr \<Rightarrow> jstr option" where
  "formatCronMinute minute =
     (if \<not> isNumberPart minute then None
      else if digits_val minute > 59 then None
      else Some (two_digits (digits_val minute)))"

definition formatCronDayMonth :: "jstr \<Rightarrow> jstr \<Rightarrow> jstr option" where
  "formatCronDayMonth dayOfMonth month =
     (if \<not> isNumberPart dayOfMonth \<or> \<not> isNumberPart month then None
      else if digits_val dayOfMonth < 1 \<or> digits_val dayOfMonth > 31 \<or> digits_val month < 1
        \<or> digits_val month > 12 then None
      else Some (two_digits (digits_val dayOfMonth) @ [47] @ two_digits (digits_val month)))"

definition WEEKDAY_LABELS :: jsobj where
  "WEEKDAY_LABELS =
    [(js ''0'', JStr (js ''Sunday'')), (js ''7'', JStr (js ''Sunday'')), (js ''1'', JStr (js ''Monday'')),
     (js ''2'', JStr (js ''Tuesday'')), (js ''3'', JStr (js ''Wednesday'')), (js ''4'', JStr (js ''Thursday'')),
     (js ''5'', JStr (js ''Friday'')), (js ''6'', JStr (js ''Saturday''))]"

section \<open>Descriptions\<close>

definition describe_parts :: "jstr \<Rightarrow> jstr \<Rightarrow> jstr \<Rightarrow> jstr \<Rightarrow> jstr \<Rightarrow> jstr" where
  "describe_parts minute hour dayOfMonth month dayOfWeek =
     (let time = formatCronTime hour minute;
          minuteText = formatCronMinute minute;
          weekday = obj_get WEEKDAY_LABELS dayOfWeek;
          dayMonth = formatCronDayMonth dayOfMonth month
      in if hour = star \<and> dayOfMonth = star \<and> month = star \<and> dayOfWeek = star \<and> minuteText \<noteq> None then
           js ''Every hour at minute '' @ the minuteText
         else
           (case time of
              None \<Rightarrow> js ''Custom schedule''
            | Some t \<Rightarrow>
                if dayOfMonth = star \<and> month = star \<and> dayOfWeek = star then js ''Every day at '' @ t
                else if dayOfMonth = star \<and> month = star \<and> dayOfWeek = js ''1-5'' then js ''Weekdays at '' @ t
                else if dayOfMonth = star \<and> month = star \<and> truthy weekday then
                  js ''Every week on '' @ to_str weekday @ js '' at '' @ t
                else if month = star \<and> dayOfWeek = star \<and> isNumberPart dayOfMonth then
                  js ''Every month on day '' @ nat_str (digits_val dayOfMonth) @ js '' at '' @ t
                else if dayOfWeek = star \<and> dayMonth \<noteq> None then
                  js ''Once on '' @ the dayMonth @ js '' at '' @ t
                else js ''Custom schedule at '' @ t))"

definition cronDescription :: "jstr \<Rightarrow> jstr" where
  "cronDescription cron = (case cron_parts cron of
     [minute, hour, dayOfMonth, month, dayOfWeek] \<Rightarrow> describe_parts minute hour dayOfMonth month dayOfWeek
   | _ \<Rightarrow> js ''Custom schedule'')"

text \<open>An absent argument is \<open>None\<close>.\<close>

definition timezoneDescription :: "jstr option \<Rightarrow> jstr" where
  "timezoneDescription timezone = (case timezone of
     None \<Rightarrow> []
   | Some tz \<Rightarrow> if tz = [] then []
       else if tz = js ''Asia/Ho_Chi_Minh'' then js ''Vietnam time''
       else map (\<lambda>c. if c = 95 then 32 else c) tz)"

definition scheduleDescription :: "jstr \<Rightarrow> jstr option \<Rightarrow> jstr" where
  "scheduleDescription cron timezone =
     (let timezoneText = timezoneDescription timezone
      in if timezoneText \<noteq> [] then cronDescription cron @ [32, 183, 32] @ timezoneText
         else cronDescription cron)"

section \<open>The editor\<close>

definition schedule_type_of_parts :: "jstr \<Rightarrow> jstr \<Rightarrow> jstr \<Rightarrow> jstr \<Rightarrow> jstr" where
  "schedule_type_of_parts hr dm mon dow =
     (if hr = star \<and> dm = star \<and> mon = star \<and> dow = star then js ''hourly''
      else if dm = star \<and> mon = star \<and> dow = star then js ''daily''
      else if dm = star \<and> mon = star \<and> dow = js ''1-5'' then js ''weekdays''
      else if dm = star \<and> mon = star \<and> dow \<noteq> star \<and> dow \<noteq> js ''1-5'' then js ''weekly''
      else if isNumberPart dm \<and> isNumberPart mon \<and> dow = star then js ''once''
      else js ''custom'')"

definition getScheduleType :: "jstr option \<Rightarrow> jstr" where
  "getScheduleType cron = (case cron of
     None \<Rightarrow> js ''hourly''
   | Some c \<Rightarrow> if c = [] then js ''hourly''
       else (case cron_parts c of
           [m, hr, dm, mon, dow] \<Rightarrow> schedule_type_of_parts hr dm mon dow
         | _ \<Rightarrow> js ''custom''))"

definition schedule_labels :: jsobj where
  "schedule_labels =
    [(js ''hourly'', JStr (js ''Hourly'')), (js ''daily'', JStr (js ''Daily'')),
     (js ''weekdays'', JStr (js ''Weekdays'')), (js ''weekly'', JStr (js ''Weekly'')),
     (js ''once'', JStr (js ''Once'')), (js ''custom'', JStr (js ''Custom''))]"

definition scheduleRuleLabel :: "jstr option \<Rightarrow> jsval" where
  "scheduleRuleLabel cron =
     (let v = obj_get schedule_labels (getScheduleType cron)
      in if nullish v then obj_get schedule_labels (js ''custom'') else v)"

definition parseTime :: "jstr \<Rightarrow> jstr" where
  "parseTime cron = (case cron_parts cron of
     [m, h, dm, mon, dow] \<Rightarrow>
       (let mins = (if m = star then js ''00'' else pad_start 2 48 m);
            hr = (if h = star then js ''09'' else pad_start 2 48 h)
        in hr @ [58] @ mins)
   | _ \<Rightarrow> js ''09:00'')"

definition parseMinute :: "jstr \<Rightarrow> jstr" where
  "parseMinute cron = (case cron_parts cron of
     [m, h, dm, mon, dow] \<Rightarrow> if m = star then js ''0'' else m
   | _ \<Rightarrow> js ''0'')"

text \<open>\<open>parseInt(s, 10).toString()\<close>: white space, a sign, and as many digits as there are.\<close>

definition parse_int_str :: "jstr \<Rightarrow> jstr" where
  "parse_int_str s =
     (let t = trim_start s;
          neg = (t \<noteq> [] \<and> hd t = 45);
          u = (if t \<noteq> [] \<and> (hd t = 45 \<or> hd t = 43) then tl t else t);
          ds = takeWhile is_digit u
      in if ds = [] then js ''NaN''
         else int_str (if neg then - int (digits_val ds) else int (digits_val ds)))"

definition generateCron :: "jstr \<Rightarrow> jstr \<Rightarrow> jstr" where
  "generateCron ty timeOrMin =
     (if ty = js ''hourly'' then (if timeOrMin = [] then js ''0'' else timeOrMin) @ js '' * * * *''
      else
        (let parts = split_char 58 timeOrMin;
             hr = parts ! 0;
             mins = (if 1 < length parts then parts ! 1 else []);
             h = (if hr = [] then js ''0'' else parse_int_str hr);
             m = (if mins = [] then js ''0'' else parse_int_str mins)
         in if ty = js ''daily'' then m @ [32] @ h @ js '' * * *''
            else if ty = js ''weekdays'' then m @ [32] @ h @ js '' * * 1-5''
            else if ty = js ''weekly'' then m @ [32] @ h @ js '' * * 0''
            else js ''0 0 * * *''))"

section \<open>What is written is read back\<close>

lemma split_ws_word:
  "list_all (\<lambda>c. \<not> is_ws c) w \<Longrightarrow> w \<noteq> [] \<Longrightarrow>
   split_ws_from in_ws part (w @ 32 # s) = (part @ w) # split_ws_from True [] s"
proof (induction w arbitrary: in_ws part)
  case (Cons c w)
  then show ?case
    using Cons.IH [of False "part @ [c]"] by (cases "w = []") (simp_all add: is_ws_def [of 32])
qed simp

lemma split_ws_last:
  "list_all (\<lambda>c. \<not> is_ws c) w \<Longrightarrow> w \<noteq> [] \<Longrightarrow> split_ws_from in_ws part w = [part @ w]"
proof (induction w arbitrary: in_ws part)
  case (Cons c w)
  then show ?case using Cons.IH [of False "part @ [c]"] by (cases "w = []") simp_all
qed simp

definition word :: "jstr \<Rightarrow> bool" where
  "word w \<longleftrightarrow> w \<noteq> [] \<and> list_all (\<lambda>c. \<not> is_ws c) w"

lemma cron_parts_five:
  assumes "word a" "word b" "word c" "word d" "word e"
  shows "cron_parts (a @ 32 # b @ 32 # c @ 32 # d @ 32 # e) = [a, b, c, d, e]"
proof -
  let ?s = "a @ 32 # b @ 32 # c @ 32 # d @ 32 # e"
  have h: "\<not> is_ws (hd a)" "a \<noteq> []" "\<not> is_ws (last e)" "e \<noteq> []"
    using assms(1,5) by (auto simp: word_def list_all_iff)
  have "trim ?s = ?s" by (rule trim_no_outer_ws) (use h in simp_all)
  then show ?thesis
    using assms by (simp add: cron_parts_def split_ws_def word_def split_ws_word split_ws_last)
qed

lemma word_number: "word (nat_str n)"
  using nat_str_digits [of n] digit_not_ws by (auto simp: word_def list_all_iff)

lemma word_lits: "word star" "word (js ''1-5'')" "word (js ''0'')"
  by (simp_all add: word_def star_def is_ws_def)

lemma number_not_star: "nat_str n \<noteq> star" "star \<noteq> nat_str n"
proof -
  have "\<not> list_all is_digit star" by (simp add: star_def is_digit_def)
  then show "nat_str n \<noteq> star" "star \<noteq> nat_str n" using nat_str_digits [of n] by metis+
qed

lemma number_part: "isNumberPart (nat_str n)" "\<not> isNumberPart star"
  using nat_str_digits [of n] by (simp_all add: isNumberPart_def all_digits_def star_def is_digit_def)

lemma two_digits_cases: "n < 100 \<Longrightarrow> two_digits n = (if n < 10 then 48 # nat_str n else nat_str n)"
proof -
  assume n: "n < 100"
  have s: "nat_str m = [48 + m]" if "m < 10" for m using that by (simp add: nat_str.simps)
  show ?thesis
  proof (cases "n < 10")
    case True
    then show ?thesis by (simp add: two_digits_def pad_start_def s)
  next
    case False
    then have "nat_str n = [48 + n div 10, 48 + n mod 10]" using n s [of "n div 10"] by (subst nat_str.simps) simp
    then show ?thesis using False by (simp add: two_digits_def pad_start_def)
  qed
qed

lemma two_digits_digits: "list_all is_digit (two_digits n)"
proof -
  have "list_all is_digit (replicate k 48)" for k by (induction k) (simp_all add: is_digit_def)
  then show ?thesis by (simp add: two_digits_def pad_start_def nat_str_digits)
qed

lemma digits_val_two: "n < 100 \<Longrightarrow> digits_val (two_digits n) = n"
proof -
  have "digits_val (48 # s) = digits_val s" for s by (simp add: digits_val_def)
  then show "n < 100 \<Longrightarrow> digits_val (two_digits n) = n" by (simp add: two_digits_cases)
qed

lemma parse_int_digits:
  assumes "list_all is_digit s" and "s \<noteq> []"
  shows "parse_int_str s = nat_str (digits_val s)"
proof -
  obtain c t where s: "s = c # t" using assms(2) by (cases s) auto
  have c: "is_digit c" "\<not> is_ws c" "c \<noteq> 45" "c \<noteq> 43"
    using assms(1) digit_not_ws [of c] by (auto simp: s is_digit_def)
  have ts: "trim_start (c # t) = c # t" using c by (simp add: trim_start_def)
  have tw: "takeWhile is_digit t = t"
    using assms(1) by (simp add: takeWhile_eq_all_conv list_all_iff s)
  show ?thesis using c by (simp add: parse_int_str_def Let_def int_str_def s ts tw)
qed

lemma no_colon: "list_all is_digit s \<Longrightarrow> 58 \<notin> set s"
  by (auto simp: list_all_iff is_digit_def)

lemma two_digits_not_Nil: "two_digits n \<noteq> []"
  by (simp add: two_digits_def pad_start_def)

lemma clock_split: "split_char 58 (two_digits h @ 58 # two_digits m) = [two_digits h, two_digits m]"
  by (simp add: split_char_append_sep split_char_no_sep no_colon two_digits_digits)

definition clock :: "nat \<Rightarrow> nat \<Rightarrow> jstr" where
  "clock h m = two_digits h @ [58] @ two_digits m"

lemma generate_clock:
  assumes "h < 24" "m < 60"
  shows "generateCron (js ''daily'') (clock h m) = nat_str m @ 32 # nat_str h @ 32 # star @ 32 # star @ 32 # star"
    and "generateCron (js ''weekdays'') (clock h m) = nat_str m @ 32 # nat_str h @ 32 # star @ 32 # star @ 32 # js ''1-5''"
    and "generateCron (js ''weekly'') (clock h m) = nat_str m @ 32 # nat_str h @ 32 # star @ 32 # star @ 32 # js ''0''"
  using assms
  by (simp_all add: generateCron_def clock_def clock_split Let_def two_digits_not_Nil parse_int_digits
      two_digits_digits digits_val_two star_def)

lemma time_number: "h < 24 \<Longrightarrow> m < 60 \<Longrightarrow> formatCronTime (nat_str h) (nat_str m) = Some (clock h m)"
  by (simp add: formatCronTime_def number_part clock_def)

lemma pad_number: "pad_start 2 48 (nat_str n) = two_digits n"
  by (simp add: two_digits_def)

lemma star_lits: "star \<noteq> js ''1-5''" "star \<noteq> js ''0''" "js ''1-5'' \<noteq> star" "js ''0'' \<noteq> star" "js ''0'' \<noteq> js ''1-5''"
  by (simp_all add: star_def)

lemma sunday: "obj_get WEEKDAY_LABELS (js ''0'') = JStr (js ''Sunday'')"
  by (simp add: obj_get_def WEEKDAY_LABELS_def)

lemma generated_parts:
  assumes "h < 24" "m < 60"
  shows "cron_parts (generateCron (js ''daily'') (clock h m)) = [nat_str m, nat_str h, star, star, star]"
    and "cron_parts (generateCron (js ''weekdays'') (clock h m)) = [nat_str m, nat_str h, star, star, js ''1-5'']"
    and "cron_parts (generateCron (js ''weekly'') (clock h m)) = [nat_str m, nat_str h, star, star, js ''0'']"
  unfolding generate_clock [OF assms] by (intro cron_parts_five word_lits word_number)+

lemmas part_eval = getScheduleType_def parseTime_def parseMinute_def cronDescription_def
  schedule_type_of_parts_def describe_parts_def

lemma generated_not_Nil: "generateCron (js ''daily'') (clock h m) \<noteq> []"
  "generateCron (js ''weekdays'') (clock h m) \<noteq> []" "generateCron (js ''weekly'') (clock h m) \<noteq> []"
  by (simp_all add: generateCron_def Let_def)

lemma daily_round_trip:
  assumes "h < 24" "m < 60"
  shows "getScheduleType (Some (generateCron (js ''daily'') (clock h m))) = js ''daily''"
    and "parseTime (generateCron (js ''daily'') (clock h m)) = clock h m"
    and "cronDescription (generateCron (js ''daily'') (clock h m)) = js ''Every day at '' @ clock h m"
  unfolding part_eval option.case generated_parts(1) [OF assms] list.case Let_def time_number [OF assms]
  using generated_not_Nil(1) [of h m]
  by (simp_all add: number_not_star pad_number clock_def)

lemma weekdays_round_trip:
  assumes "h < 24" "m < 60"
  shows "getScheduleType (Some (generateCron (js ''weekdays'') (clock h m))) = js ''weekdays''"
    and "parseTime (generateCron (js ''weekdays'') (clock h m)) = clock h m"
    and "cronDescription (generateCron (js ''weekdays'') (clock h m)) = js ''Weekdays at '' @ clock h m"
  unfolding part_eval option.case generated_parts(2) [OF assms] list.case Let_def time_number [OF assms]
  using generated_not_Nil(2) [of h m] star_lits
  by (simp_all add: number_not_star pad_number clock_def)

lemma weekly_round_trip:
  assumes "h < 24" "m < 60"
  shows "getScheduleType (Some (generateCron (js ''weekly'') (clock h m))) = js ''weekly''"
    and "parseTime (generateCron (js ''weekly'') (clock h m)) = clock h m"
    and "cronDescription (generateCron (js ''weekly'') (clock h m)) = js ''Every week on Sunday at '' @ clock h m"
  unfolding part_eval option.case generated_parts(3) [OF assms] list.case Let_def time_number [OF assms] sunday
  using generated_not_Nil(3) [of h m] star_lits
  by (simp_all add: number_not_star pad_number clock_def)

lemma hourly_round_trip:
  assumes "m < 60"
  shows "getScheduleType (Some (generateCron (js ''hourly'') (nat_str m))) = js ''hourly''"
    and "parseMinute (generateCron (js ''hourly'') (nat_str m)) = nat_str m"
    and "cronDescription (generateCron (js ''hourly'') (nat_str m)) = js ''Every hour at minute '' @ two_digits m"
proof -
  have g: "generateCron (js ''hourly'') (nat_str m) = nat_str m @ 32 # star @ 32 # star @ 32 # star @ 32 # star"
    by (simp add: generateCron_def star_def)
  have n: "generateCron (js ''hourly'') (nat_str m) \<noteq> []" unfolding g by simp
  have p: "cron_parts (generateCron (js ''hourly'') (nat_str m)) = [nat_str m, star, star, star, star]"
    unfolding g by (intro cron_parts_five word_lits word_number)
  show "getScheduleType (Some (generateCron (js ''hourly'') (nat_str m))) = js ''hourly''"
    unfolding part_eval option.case p list.case using n by simp
  show "parseMinute (generateCron (js ''hourly'') (nat_str m)) = nat_str m"
    unfolding part_eval p list.case by (simp add: number_not_star)
  show "cronDescription (generateCron (js ''hourly'') (nat_str m)) = js ''Every hour at minute '' @ two_digits m"
    unfolding part_eval p list.case Let_def using assms
    by (simp add: formatCronMinute_def number_part)
qed

text \<open>
  A schedule written by the editor is read back as it was: its type, the time of day of a daily,
  weekday or weekly schedule, and the minute of an hourly one; and its description names that time.
\<close>

theorem cron_round_trip:
  assumes "h < 24" and "m < 60"
  shows "(\<forall>ty \<in> {js ''daily'', js ''weekdays'', js ''weekly''}.
      getScheduleType (Some (generateCron ty (clock h m))) = ty \<and> parseTime (generateCron ty (clock h m)) = clock h m) \<and>
    cronDescription (generateCron (js ''daily'') (clock h m)) = js ''Every day at '' @ clock h m \<and>
    cronDescription (generateCron (js ''weekdays'') (clock h m)) = js ''Weekdays at '' @ clock h m \<and>
    getScheduleType (Some (generateCron (js ''hourly'') (nat_str m))) = js ''hourly'' \<and>
    parseMinute (generateCron (js ''hourly'') (nat_str m)) = nat_str m \<and>
    cronDescription (generateCron (js ''hourly'') (nat_str m)) = js ''Every hour at minute '' @ two_digits m"
  using daily_round_trip [OF assms] weekdays_round_trip [OF assms] weekly_round_trip [OF assms]
    hourly_round_trip [OF assms(2)] by blast

theorem cron_round_trip_witness:
  "parseTime (generateCron (js ''weekly'') (clock 7 5)) = clock 7 5"
  using cron_round_trip [of 7 5] by simp

text \<open>
  The editor of a weekly schedule forgets the day: a schedule on any other day is shown as
  weekly on that day, and writing it back at the time that was read moves it to Sunday.
\<close>

theorem weekly_day_is_lost:
  assumes "h < 24" and "m < 60" and "(dow, name) \<in> {(js ''1'', js ''Monday''), (js ''2'', js ''Tuesday''),
      (js ''3'', js ''Wednesday''), (js ''4'', js ''Thursday''), (js ''5'', js ''Friday''), (js ''6'', js ''Saturday'')}"
    and "cron = nat_str m @ 32 # nat_str h @ 32 # star @ 32 # star @ 32 # dow"
  shows "getScheduleType (Some cron) = js ''weekly'' \<and>
    cronDescription cron = js ''Every week on '' @ name @ js '' at '' @ clock h m \<and>
    cronDescription (generateCron (js ''weekly'') (parseTime cron)) = js ''Every week on Sunday at '' @ clock h m"
proof -
  have d: "word dow" "dow \<noteq> star" "star \<noteq> dow" "dow \<noteq> js ''1-5''" "obj_get WEEKDAY_LABELS dow = JStr name"
    "truthy (JStr name)"
    using assms(3) by (auto simp: word_def is_ws_def star_def obj_get_def WEEKDAY_LABELS_def)
  have p: "cron_parts cron = [nat_str m, nat_str h, star, star, dow]"
    unfolding assms(4) by (intro cron_parts_five word_lits word_number d)
  have "cron \<noteq> []" by (simp add: assms(4))
  then have "getScheduleType (Some cron) = js ''weekly''"
    unfolding part_eval option.case p list.case using d by (simp add: number_not_star)
  moreover have "parseTime cron = clock h m"
    unfolding part_eval p list.case Let_def by (simp add: number_not_star pad_number clock_def)
  moreover have "cronDescription cron = js ''Every week on '' @ name @ js '' at '' @ clock h m"
    unfolding part_eval p list.case Let_def time_number [OF assms(1,2)] option.case d(5)
    using d by (simp add: number_not_star)
  ultimately show ?thesis using weekly_round_trip [OF assms(1,2)] by simp
qed

theorem weekly_day_is_lost_witness:
  "cronDescription (generateCron (js ''weekly'') (parseTime (nat_str 30 @ 32 # nat_str 9 @ 32 # star @ 32 # star @ 32 # js ''3'')))
    = js ''Every week on Sunday at '' @ clock 9 30"
  using weekly_day_is_lost [of 9 30 "js ''3''" "js ''Wednesday''", OF _ _ _ refl] by simp

end
