(* ===== verification/ApiClient.thy ===== *)
theory ApiClient
  imports Uri JsonPrint "HOL-Library.Monad_Syntax"
begin

text \<open>
  The HTTP client, src/ui/web/src/lib/api.ts: the request each call sends, as a function of the web
  storage (which holds the active workspace) and the call's arguments, and what a call makes of the
  response.  A request is \<open>None\<close> when \<open>encodeURIComponent\<close> throws.
\<close>

section \<open>Requests\<close>

type_synonym storage = "(jstr \<times> jstr) list"

record browser =
  session_storage :: storage
  local_storage :: storage

record http_request =
  rq_method :: jstr
  rq_path :: jstr
  rq_body :: "jstr option"

definition BASE :: jstr where
  "BASE = js ''/api/v1''"

definition active_key :: jstr where
  "active_key = js ''lending_claw_active_workspace_id''"

text \<open>\<open>a || b\<close> for strings that may be absent: an empty string is passed over.\<close>

definition str_or :: "jstr option \<Rightarrow> jstr \<Rightarrow> jstr" where
  "str_or a b = (case a of None \<Rightarrow> b | Some s \<Rightarrow> if s = [] then b else s)"

definition getActiveWorkspaceId :: "browser \<Rightarrow> jstr" where
  "getActiveWorkspaceId b = str_or (map_of (session_storage b) active_key)
     (str_or (map_of (local_storage b) active_key) (js ''default''))"

definition wsPath :: "browser \<Rightarrow> jstr \<Rightarrow> jstr option" where
  "wsPath b p = map_option (\<lambda>ws. js ''/workspaces/'' @ ws @ p) (encodeURIComponent (getActiveWorkspaceId b))"

text \<open>A request as \<open>fetch\<close> gets it; every request is sent with cookies and a JSON content type.\<close>

definition req :: "jstr \<Rightarrow> jsval option \<Rightarrow> jstr option \<Rightarrow> http_request option" where
  "req meth body path = map_option
     (\<lambda>p. \<lparr>rq_method = meth, rq_path = BASE @ p,
        rq_body = (case body of None \<Rightarrow> None | Some v \<Rightarrow> json_stringify 0 v)\<rparr>) path"

abbreviation GET :: jstr where "GET \<equiv> js ''GET''"
abbreviation POST :: jstr where "POST \<equiv> js ''POST''"
abbreviation PUT :: jstr where "PUT \<equiv> js ''PUT''"
abbreviation DELETE :: jstr where "DELETE \<equiv> js ''DELETE''"
abbreviation PATCH :: jstr where "PATCH \<equiv> js ''PATCH''"

definition js_strs :: "jstr list \<Rightarrow> jsval" where
  "js_strs ss = JArr (map JStr ss)"

text \<open>\<open>{ ...req, stream }\<close>.\<close>

definition with_stream :: "jsobj \<Rightarrow> bool \<Rightarrow> jsval" where
  "with_stream ob b = JObj (obj_define (obj_spread [] ob) (js ''stream'') (JBool b))"

section \<open>Calls\<close>

text \<open>Calls that are not tied to a workspace: authentication and the workspaces themselves.\<close>

datatype global_call =
    SetToken jstr | Logout | CasLogin jstr jstr
  | WorkspacesList | WorkspacesGet jstr | WorkspacesCreate jsobj | WorkspacesUpdate jstr jsobj
  | WorkspacesDelete jstr | WorkspacesMembers jstr | WorkspacesAddMember jstr jstr "jstr list"
  | WorkspacesSetMemberRoles jstr jstr "jstr list" | WorkspacesRemoveMember jstr jstr

fun global_request :: "global_call \<Rightarrow> http_request option" where
  "global_request (SetToken token) = req POST (Some (JObj [(js ''token'', JStr token)])) (Some (js ''/set-token''))"
| "global_request Logout = req POST None (Some (js ''/logout''))"
| "global_request (CasLogin ticket service) =
     req POST (Some (JObj [(js ''ticket'', JStr ticket), (js ''service'', JStr service)])) (Some (js ''/sso/cas''))"
| "global_request WorkspacesList = req GET None (Some (js ''/workspaces''))"
| "global_request (WorkspacesGet i) =
     req GET None (do { e \<leftarrow> encodeURIComponent i; Some (js ''/workspaces/'' @ e) })"
| "global_request (WorkspacesCreate data) = req POST (Some (JObj data)) (Some (js ''/workspaces''))"
| "global_request (WorkspacesUpdate i data) =
     req PUT (Some (JObj data)) (do { e \<leftarrow> encodeURIComponent i; Some (js ''/workspaces/'' @ e) })"
| "global_request (WorkspacesDelete i) =
     req DELETE None (do { e \<leftarrow> encodeURIComponent i; Some (js ''/workspaces/'' @ e) })"
| "global_request (WorkspacesMembers i) =
     req GET None (do { e \<leftarrow> encodeURIComponent i; Some (js ''/workspaces/'' @ e @ js ''/members'') })"
| "global_request (WorkspacesAddMember i sub roles) =
     req POST (Some (JObj [(js ''sub'', JStr sub), (js ''roles'', js_strs roles)]))
       (do { e \<leftarrow> encodeURIComponent i; Some (js ''/workspaces/'' @ e @ js ''/members'') })"
| "global_request (WorkspacesSetMemberRoles i sub roles) =
     req PUT (Some (JObj [(js ''roles'', js_strs roles)]))
       (do { e \<leftarrow> encodeURIComponent i; f \<leftarrow> encodeURIComponent sub;
             Some (js ''/workspaces/'' @ e @ js ''/members/'' @ f @ js ''/roles'') })"
| "global_request (WorkspacesRemoveMember i sub) =
     req DELETE None
       (do { e \<leftarrow> encodeURIComponent i; f \<leftarrow> encodeURIComponent sub;
             Some (js ''/workspaces/'' @ e @ js ''/members/'' @ f) })"

text \<open>Calls inside the active workspace.\<close>

datatype scoped_call =
    SessionsList "jstr option" | SessionsGet jstr | SessionsUpdate jstr jsobj | SessionsDelete jstr
  | AgentRun jsobj | AgentRunStream jsobj
  | ChatCompletions jsobj | ChatCompletionsStream jsobj
  | SkillsList | SkillsGet jstr | SkillsCreate jsobj | SkillsUpdate jstr jsobj | SkillsDelete jstr
  | SkillsGenerateStream jsobj
  | ContextFilesList | ContextFilesCreate jsobj | ContextFilesUpsert jsobj
  | ContextFilesDelete jstr jstr "jstr option"
  | RbacMe | RbacResources | RolesList | RolesCreate jsobj | RolesUpdate jstr jsobj | RolesDelete jstr
  | McpList | McpGet jstr | McpCreate jsobj | McpUpdate jstr jsobj | McpRefresh jstr
  | McpSetFunctionEnabled jstr jstr bool | McpStartOAuth jstr | McpDisconnectOAuth jstr | McpDelete jstr
  | KnowledgeList | KnowledgeGet jstr | KnowledgeCreate jsobj | KnowledgeUpdate jstr jsobj
  | KnowledgeDelete jstr | KnowledgeSync jstr "bool option"
  | RoutinesList | RoutinesGet jstr | RoutinesCreate jsobj | RoutinesUpdate jstr jsobj
  | RoutinesDelete jstr | RoutinesListRuns jstr "jnum option" | RoutinesFire jstr "jstr option"
  | RoutinesRotateToken jstr | RoutinesRevokeToken jstr

definition session_path :: "browser \<Rightarrow> jstr \<Rightarrow> jstr option" where
  "session_path b key = do { e \<leftarrow> encodeURIComponent key; wsPath b (js ''/sessions/'' @ e) }"

definition role_path :: "browser \<Rightarrow> jstr \<Rightarrow> jstr option" where
  "role_path b name = do { e \<leftarrow> encodeURIComponent name; wsPath b (js ''/rbac/roles/'' @ e) }"

definition mcp_path :: "browser \<Rightarrow> jstr \<Rightarrow> jstr \<Rightarrow> jstr option" where
  "mcp_path b name rest = do { e \<leftarrow> encodeURIComponent name; wsPath b (js ''/mcp/servers/'' @ e @ rest) }"

text \<open>The path each call passes on; ids of skills, knowledge bases and routines are not encoded.\<close>

fun scoped_path :: "browser \<Rightarrow> scoped_call \<Rightarrow> jstr option" where
  "scoped_path b (SessionsList kind) = wsPath b (js ''/sessions'' @ (case kind of None \<Rightarrow> []
     | Some k \<Rightarrow> if k = [] then [] else js ''?kind='' @ k))"
| "scoped_path b (SessionsGet key) = session_path b key"
| "scoped_path b (SessionsUpdate key data) = session_path b key"
| "scoped_path b (SessionsDelete key) = session_path b key"
| "scoped_path b (AgentRun r) = wsPath b (js ''/agent/run'')"
| "scoped_path b (AgentRunStream r) = wsPath b (js ''/agent/run'')"
| "scoped_path b (ChatCompletions r) = wsPath b (js ''/chat/completions'')"
| "scoped_path b (ChatCompletionsStream r) = wsPath b (js ''/chat/completions'')"
| "scoped_path b SkillsList = wsPath b (js ''/skills'')"
| "scoped_path b (SkillsGet i) = wsPath b (js ''/skills/'' @ i)"
| "scoped_path b (SkillsCreate data) = wsPath b (js ''/skills'')"
| "scoped_path b (SkillsUpdate i data) = wsPath b (js ''/skills/'' @ i)"
| "scoped_path b (SkillsDelete i) = wsPath b (js ''/skills/'' @ i)"
| "scoped_path b (SkillsGenerateStream r) = wsPath b (js ''/skills/generate'')"
| "scoped_path b ContextFilesList = wsPath b (js ''/context-files'')"
| "scoped_path b (ContextFilesCreate data) = wsPath b (js ''/context-files'')"
| "scoped_path b (ContextFilesUpsert data) = wsPath b (js ''/context-files'')"
| "scoped_path b (ContextFilesDelete scp path userId) = wsPath b (js ''/context-files?'' @ query_string
     ([(js ''scope'', scp), (js ''path'', path)]
      @ (case userId of None \<Rightarrow> [] | Some u \<Rightarrow> if u = [] then [] else [(js ''user_id'', u)])))"
| "scoped_path b RbacMe = wsPath b (js ''/rbac/me'')"
| "scoped_path b RbacResources = wsPath b (js ''/rbac/resources'')"
| "scoped_path b RolesList = wsPath b (js ''/rbac/roles'')"
| "scoped_path b (RolesCreate data) = wsPath b (js ''/rbac/roles'')"
| "scoped_path b (RolesUpdate name data) = role_path b name"
| "scoped_path b (RolesDelete name) = role_path b name"
| "scoped_path b McpList = wsPath b (js ''/mcp/servers'')"
| "scoped_path b (McpGet name) = mcp_path b name []"
| "scoped_path b (McpCreate data) = wsPath b (js ''/mcp/servers'')"
| "scoped_path b (McpUpdate name data) = mcp_path b name []"
| "scoped_path b (McpRefresh name) = mcp_path b name (js ''/refresh'')"
| "scoped_path b (McpSetFunctionEnabled name fn enabled) =
     (do { f \<leftarrow> encodeURIComponent fn; mcp_path b name (js ''/functions/'' @ f) })"
| "scoped_path b (McpStartOAuth name) = mcp_path b name (js ''/oauth/start'')"
| "scoped_path b (McpDisconnectOAuth name) = mcp_path b name (js ''/oauth/disconnect'')"
| "scoped_path b (McpDelete name) = mcp_path b name []"
| "scoped_path b KnowledgeList = wsPath b (js ''/knowledge'')"
| "scoped_path b (KnowledgeGet i) = wsPath b (js ''/knowledge/'' @ i)"
| "scoped_path b (KnowledgeCreate data) = wsPath b (js ''/knowledge'')"
| "scoped_path b (KnowledgeUpdate i data) = wsPath b (js ''/knowledge/'' @ i)"
| "scoped_path b (KnowledgeDelete i) = wsPath b (js ''/knowledge/'' @ i)"
| "scoped_path b (KnowledgeSync i reset) = wsPath b (js ''/knowledge/'' @ i @ js ''/sync'' @
     (if reset = Some True then js ''?reset=true'' else []))"
| "scoped_path b RoutinesList = wsPath b (js ''/routines'')"
| "scoped_path b (RoutinesGet i) = wsPath b (js ''/routines/'' @ i)"
| "scoped_path b (RoutinesCreate data) = wsPath b (js ''/routines'')"
| "scoped_path b (RoutinesUpdate i data) = wsPath b (js ''/routines/'' @ i)"
| "scoped_path b (RoutinesDelete i) = wsPath b (js ''/routines/'' @ i)"
| "scoped_path b (RoutinesListRuns i limit) = wsPath b (js ''/routines/'' @ i @ js ''/runs?limit='' @
     num_str (case limit of None \<Rightarrow> 100 | Some n \<Rightarrow> n))"
| "scoped_path b (RoutinesFire i txt) = wsPath b (js ''/routines/'' @ i @ js ''/fire'')"
| "scoped_path b (RoutinesRotateToken i) = wsPath b (js ''/routines/'' @ i @ js ''/rotate-token'')"
| "scoped_path b (RoutinesRevokeToken i) = wsPath b (js ''/routines/'' @ i @ js ''/revoke-token'')"

fun scoped_method :: "scoped_call \<Rightarrow> jstr" where
  "scoped_method (SessionsUpdate key data) = PUT"
| "scoped_method (SessionsDelete key) = DELETE"
| "scoped_method (AgentRun r) = POST"
| "scoped_method (AgentRunStream r) = POST"
| "scoped_method (ChatCompletions r) = POST"
| "scoped_method (ChatCompletionsStream r) = POST"
| "scoped_method (SkillsCreate data) = POST"
| "scoped_method (SkillsUpdate i data) = PUT"
| "scoped_method (SkillsDelete i) = DELETE"
| "scoped_method (SkillsGenerateStream r) = POST"
| "scoped_method (ContextFilesCreate data) = POST"
| "scoped_method (ContextFilesUpsert data) = PUT"
| "scoped_method (ContextFilesDelete scp path userId) = DELETE"
| "scoped_method (RolesCreate data) = POST"
| "scoped_method (RolesUpdate name data) = PUT"
| "scoped_method (RolesDelete name) = DELETE"
| "scoped_method (McpCreate data) = POST"
| "scoped_method (McpUpdate name data) = PUT"
| "scoped_method (McpRefresh name) = POST"
| "scoped_method (McpSetFunctionEnabled name fn enabled) = PATCH"
| "scoped_method (McpStartOAuth name) = POST"
| "scoped_method (McpDisconnectOAuth name) = POST"
| "scoped_method (McpDelete name) = DELETE"
| "scoped_method (KnowledgeCreate data) = POST"
| "scoped_method (KnowledgeUpdate i data) = PUT"
| "scoped_method (KnowledgeDelete i) = DELETE"
| "scoped_method (KnowledgeSync i reset) = POST"
| "scoped_method (RoutinesCreate data) = POST"
| "scoped_method (RoutinesUpdate i data) = PUT"
| "scoped_method (RoutinesDelete i) = DELETE"
| "scoped_method (RoutinesFire i txt) = POST"
| "scoped_method (RoutinesRotateToken i) = POST"
| "scoped_method (RoutinesRevokeToken i) = DELETE"
| "scoped_method c = GET"

fun scoped_body :: "scoped_call \<Rightarrow> jsval option" where
  "scoped_body (SessionsUpdate key data) = Some (JObj data)"
| "scoped_body (AgentRun r) = Some (with_stream r False)"
| "scoped_body (AgentRunStream r) = Some (with_stream r True)"
| "scoped_body (ChatCompletions r) = Some (with_stream r False)"
| "scoped_body (ChatCompletionsStream r) = Some (with_stream r True)"
| "scoped_body (SkillsCreate data) = Some (JObj data)"
| "scoped_body (SkillsUpdate i data) = Some (JObj data)"
| "scoped_body (SkillsGenerateStream r) = Some (JObj r)"
| "scoped_body (ContextFilesCreate data) = Some (JObj data)"
| "scoped_body (ContextFilesUpsert data) = Some (JObj data)"
| "scoped_body (RolesCreate data) = Some (JObj data)"
| "scoped_body (RolesUpdate name data) = Some (JObj data)"
| "scoped_body (McpCreate data) = Some (JObj data)"
| "scoped_body (McpUpdate name data) = Some (JObj data)"
| "scoped_body (McpSetFunctionEnabled name fn enabled) = Some (JObj [(js ''enabled'', JBool enabled)])"
| "scoped_body (McpStartOAuth name) = Some (JObj [])"
| "scoped_body (KnowledgeCreate data) = Some (JObj data)"
| "scoped_body (KnowledgeUpdate i data) = Some (JObj data)"
| "scoped_body (RoutinesCreate data) = Some (JObj data)"
| "scoped_body (RoutinesUpdate i data) = Some (JObj data)"
| "scoped_body (RoutinesFire i txt) =
     Some (JObj [(js ''text'', (case txt of None \<Rightarrow> JUndef | Some t \<Rightarrow> JStr t))])"
| "scoped_body c = None"

definition scoped_request :: "browser \<Rightarrow> scoped_call \<Rightarrow> http_request option" where
  "scoped_request b c = req (scoped_method c) (scoped_body c) (scoped_path b c)"

section \<open>Responses\<close>

record api_response =
  rp_status :: nat
  rp_statusText :: jstr
  rp_text :: jstr

datatype call_result = Resolved jsval | ApiError jstr nat | TypeError | SyntaxError

text \<open>The result of a call, and the message shown when it failed.\<close>

definition api_result :: "api_response \<Rightarrow> call_result \<times> jstr option" where
  "api_result res =
     (if \<not> (200 \<le> rp_status res \<and> rp_status res \<le> 299) then
        (let body = (case json_parse (rp_text res) of Some v \<Rightarrow> v
             | None \<Rightarrow> JObj [(js ''error'', JStr (rp_statusText res))])
         in (case js_prop body (js ''error'') of
               None \<Rightarrow> (TypeError, None)
             | Some e \<Rightarrow>
                 (let msg = (if truthy e then to_str e else js ''HTTP '' @ nat_str (rp_status res))
                  in (ApiError msg (rp_status res), Some msg))))
      else if rp_status res = 204 then (Resolved JUndef, None)
      else (case json_parse (rp_text res) of Some v \<Rightarrow> (Resolved v, None) | None \<Rightarrow> (SyntaxError, None)))"

section \<open>Where requests go\<close>

definition utf16 :: "jstr \<Rightarrow> bool" where
  "utf16 s \<longleftrightarrow> list_all (\<lambda>c. c < 65536) s"

lemma encode_no_slash:
  assumes "utf16 s" and "encodeURIComponent s = Some e"
  shows "47 \<notin> set e" and "63 \<notin> set e" and "35 \<notin> set e"
proof -
  have "c = 37 \<or> unreserved c" if "c \<in> set e" for c
    using encode_chars [OF _ assms(2) that] assms(1) by (simp add: utf16_def)
  moreover have "\<not> unreserved 47" "\<not> unreserved 63" "\<not> unreserved 35"
    by (simp_all add: unreserved_def is_alnum_def is_digit_def)
  ultimately show "47 \<notin> set e" "63 \<notin> set e" "35 \<notin> set e" by fastforce+
qed

lemma encode_inject:
  assumes "utf16 s" "utf16 t" "encodeURIComponent s = Some e" "encodeURIComponent t = Some e"
  shows "s = t"
  using decode_encode [of s e] decode_encode [of t e] assms by (simp add: utf16_def)

lemma active_utf16:
  assumes "\<forall>v. map_of (session_storage b) active_key = Some v \<longrightarrow> utf16 v"
    and "\<forall>v. map_of (local_storage b) active_key = Some v \<longrightarrow> utf16 v"
  shows "utf16 (getActiveWorkspaceId b)"
  using assms by (auto simp: getActiveWorkspaceId_def str_or_def utf16_def split: option.splits)

subsection \<open>The address a request ends up with\<close>

text \<open>
  What the browser makes of an address that starts with a slash, by the URL standard: control characters
  and spaces around it and line breaks and tabs in it are dropped, what follows the first ? or # is not
  part of the path, a backslash counts as a slash, and the segments . and .., also percent-encoded, are
  resolved.  The result is the list of the segments.
\<close>

definition single_dots :: "jstr list" where
  "single_dots = [js ''.'', js ''%2e'', js ''%2E'']"

definition is_single_dot :: "jstr \<Rightarrow> bool" where
  "is_single_dot p \<longleftrightarrow> p \<in> set single_dots"

definition is_double_dot :: "jstr \<Rightarrow> bool" where
  "is_double_dot p \<longleftrightarrow> p \<in> set (concat (map (\<lambda>a. map ((@) a) single_dots) single_dots))"

fun resolve_dots :: "jstr list \<Rightarrow> jstr list \<Rightarrow> jstr list" where
  "resolve_dots out [] = out"
| "resolve_dots out [p] =
     (if is_double_dot p then butlast out @ [[]] else if is_single_dot p then out @ [[]] else out @ [p])"
| "resolve_dots out (p # ps) =
     (if is_double_dot p then resolve_dots (butlast out) ps
      else if is_single_dot p then resolve_dots out ps else resolve_dots (out @ [p]) ps)"

definition strip_controls :: "jstr \<Rightarrow> jstr" where
  "strip_controls u = filter (\<lambda>c. c \<notin> {9, 10, 13}) (rev (dropWhile (\<lambda>c. c \<le> 32) (rev (dropWhile (\<lambda>c. c \<le> 32) u))))"

definition path_part :: "jstr \<Rightarrow> jstr" where
  "path_part u = takeWhile (\<lambda>c. c \<noteq> 63 \<and> c \<noteq> 35) u"

definition url_segments :: "jstr \<Rightarrow> jstr list" where
  "url_segments u = resolve_dots [] (split_char 47 (tl (map (\<lambda>c. if c = 92 then 47 else c) (path_part (strip_controls u)))))"

text \<open>A segment that the browser leaves as it is.\<close>

definition plain_char :: "nat \<Rightarrow> bool" where
  "plain_char c \<longleftrightarrow> 32 < c \<and> c \<notin> {35, 47, 63, 92}"

definition plain_segment :: "jstr \<Rightarrow> bool" where
  "plain_segment p \<longleftrightarrow> list_all plain_char p \<and> \<not> is_single_dot p \<and> \<not> is_double_dot p"

lemma resolve_plain: "list_all plain_segment ps \<Longrightarrow> resolve_dots out ps = out @ ps"
  by (induction out ps rule: resolve_dots.induct) (simp_all add: plain_segment_def)

lemma all_in_segments: "c \<in> set s \<Longrightarrow> c = sep \<or> (\<exists>p\<in>set (split_char sep s). c \<in> set p)"
proof (induction s)
  case (Cons d s)
  then show ?case by (cases "split_char sep s") (auto split: if_splits)
qed simp

text \<open>Dropping what surrounds and breaks an address leaves its path alone.\<close>

lemma strip_controls_path:
  assumes "list_all (\<lambda>c. 32 < c) u" and "u \<noteq> []" and "v = [] \<or> hd v \<in> {35, 63}"
  obtains w where "strip_controls (u @ v) = u @ w" and "w = [] \<or> hd w \<in> {35, 63}"
proof -
  obtain c u' where u: "u = c # u'" using assms(2) by (cases u) auto
  have keep: "filter (\<lambda>c. c \<notin> {9, 10, 13}) u = u"
    using assms(1) by (auto simp: filter_id_conv list_all_iff)
  have start: "dropWhile (\<lambda>c. c \<le> 32) (u @ v) = u @ v"
    using assms(1) by (simp add: u)
  have end_u: "dropWhile (\<lambda>c. c \<le> 32) (rev u) = rev u"
    using assms(1) by (cases "rev u") (auto simp: list_all_iff dest: arg_cong [where f = set])
  show thesis
  proof (cases v)
    case Nil
    then show thesis using that [of "[]"] keep start end_u by (simp add: strip_controls_def)
  next
    case (Cons d v')
    then have d: "d \<in> {35, 63}" using assms(3) by simp
    let ?r = "dropWhile (\<lambda>c. c \<le> 32) (rev v' @ [d])"
    have "dropWhile (\<lambda>c. c \<le> 32) (rev (u @ v)) = ?r @ rev u"
      using d dropWhile_append1 [of d "rev v' @ [d]" "\<lambda>c. c \<le> 32" "rev u"] by (auto simp: Cons)
    then have "strip_controls (u @ v) = u @ filter (\<lambda>c. c \<notin> {9, 10, 13}) (rev ?r)"
      using keep start by (simp add: strip_controls_def)
    moreover have "\<exists>y. ?r = y @ [d]"
      using d by (cases "\<forall>c\<in>set (rev v'). c \<le> 32") (auto simp: dropWhile_append dropWhile_append3)
    then obtain y where "?r = y @ [d]" by blast
    then have "\<exists>x. rev ?r = d # x" by simp
    ultimately show thesis using d by (auto intro: that)
  qed
qed

text \<open>An address whose path consists of plain segments keeps them.\<close>

lemma url_segments_plain:
  assumes "list_all plain_segment (split_char 47 t)" and "v = [] \<or> hd v \<in> {35, 63}"
  shows "url_segments (47 # t @ v) = split_char 47 t"
proof -
  have t: "c \<in> set t \<Longrightarrow> c = 47 \<or> plain_char c" for c
    using all_in_segments [of c t 47] assms(1) by (auto simp: list_all_iff plain_segment_def)
  then have "list_all (\<lambda>c. 32 < c) (47 # t)"
    unfolding list_all_iff by (fastforce simp: plain_char_def)
  from strip_controls_path [OF this _ assms(2)]
  obtain w where w: "strip_controls (47 # t @ v) = 47 # t @ w" "w = [] \<or> hd w \<in> {35, 63}" by auto
  have "63 \<notin> set t" "35 \<notin> set t"
    using t by (force simp: plain_char_def)+
  then have "path_part (47 # t @ w) = 47 # t"
    using w(2) unfolding path_part_def
    by (cases w) (auto simp: plain_char_def takeWhile_tail intro!: takeWhile_append2 [THEN trans])
  moreover have "92 \<notin> set t"
    using t by (force simp: plain_char_def)
  then have "map (\<lambda>c. if c = 92 then 47 else c) t = t"
    by (intro map_idI) auto
  ultimately show ?thesis
    by (simp add: url_segments_def w(1) resolve_plain [OF assms(1)])
qed

text \<open>An encoded name is plain unless it is . or .. itself.\<close>

lemma dots_decoded:
  "is_single_dot e \<Longrightarrow> decodeURIComponent e = Some (js ''.'')"
  "is_double_dot e \<Longrightarrow> decodeURIComponent e = Some (js ''..'')"
proof -
  have dot: "decode_point (37 # 50 # 101 # s) = Some (46, s)" "decode_point (37 # 50 # 69 # s) = Some (46, s)" for s
    by (simp_all add: decode_point_def pct_val_def is_digit_def)
  show "is_single_dot e \<Longrightarrow> decodeURIComponent e = Some (js ''.'')"
    by (auto simp: is_single_dot_def single_dots_def decodeURIComponent.simps dot units_def)
  show "is_double_dot e \<Longrightarrow> decodeURIComponent e = Some (js ''..'')"
    by (auto simp: is_double_dot_def single_dots_def decodeURIComponent.simps dot units_def)
qed

definition dotless_name :: "jstr \<Rightarrow> bool" where
  "dotless_name n \<longleftrightarrow> utf16 n \<and> n \<noteq> js ''.'' \<and> n \<noteq> js ''..''"

lemma encoded_plain: "dotless_name n \<Longrightarrow> encodeURIComponent n = Some e \<Longrightarrow> plain_segment e"
proof -
  assume n: "dotless_name n" and e: "encodeURIComponent n = Some e"
  have "plain_char c" if "c \<in> set e" for c
    using encode_chars [OF _ e that] n
    by (auto simp: dotless_name_def utf16_def plain_char_def unreserved_def is_alnum_def is_digit_def)
  moreover have "decodeURIComponent e = Some n"
    using n e by (intro decode_encode) (simp_all add: dotless_name_def utf16_def)
  then have "\<not> is_single_dot e" "\<not> is_double_dot e"
    using dots_decoded n by (auto simp: dotless_name_def)
  ultimately show ?thesis by (simp add: plain_segment_def list_all_iff)
qed

text \<open>The ids a call puts into its path as they are, and the names it encodes.\<close>

fun call_ids :: "scoped_call \<Rightarrow> jstr list" where
  "call_ids (SkillsGet i) = [i]"
| "call_ids (SkillsUpdate i data) = [i]"
| "call_ids (SkillsDelete i) = [i]"
| "call_ids (KnowledgeGet i) = [i]"
| "call_ids (KnowledgeUpdate i data) = [i]"
| "call_ids (KnowledgeDelete i) = [i]"
| "call_ids (KnowledgeSync i reset) = [i]"
| "call_ids (RoutinesGet i) = [i]"
| "call_ids (RoutinesUpdate i data) = [i]"
| "call_ids (RoutinesDelete i) = [i]"
| "call_ids (RoutinesListRuns i limit) = [i]"
| "call_ids (RoutinesFire i txt) = [i]"
| "call_ids (RoutinesRotateToken i) = [i]"
| "call_ids (RoutinesRevokeToken i) = [i]"
| "call_ids c = []"

fun call_names :: "scoped_call \<Rightarrow> jstr list" where
  "call_names (SessionsGet key) = [key]"
| "call_names (SessionsUpdate key data) = [key]"
| "call_names (SessionsDelete key) = [key]"
| "call_names (RolesUpdate name data) = [name]"
| "call_names (RolesDelete name) = [name]"
| "call_names (McpGet name) = [name]"
| "call_names (McpUpdate name data) = [name]"
| "call_names (McpRefresh name) = [name]"
| "call_names (McpSetFunctionEnabled name fn enabled) = [name, fn]"
| "call_names (McpStartOAuth name) = [name]"
| "call_names (McpDisconnectOAuth name) = [name]"
| "call_names (McpDelete name) = [name]"
| "call_names c = []"

text \<open>A path below the workspace: segments that are plain, then perhaps a query.\<close>

definition below :: "browser \<Rightarrow> jstr \<Rightarrow> bool" where
  "below b q \<longleftrightarrow> (\<exists>t v. list_all plain_segment (split_char 47 t) \<and> (v = [] \<or> hd v \<in> {35, 63}) \<and> wsPath b (47 # t @ v) = Some q)"

lemma belowI:
  "wsPath b (47 # t) = Some q \<Longrightarrow> list_all plain_segment (split_char 47 t) \<Longrightarrow> below b q"
  "wsPath b (47 # t @ 63 # v) = Some q \<Longrightarrow> list_all plain_segment (split_char 47 t) \<Longrightarrow> below b q"
  unfolding below_def by (metis append_Nil2) (metis insertI1 insertI2 list.sel(1))

lemma plain_split [simp]: "plain_segment i \<Longrightarrow> split_char 47 i = [i]"
  by (rule split_char_no_sep) (auto simp: plain_segment_def plain_char_def list_all_iff)

lemma plain_split_append [simp]: "plain_segment i \<Longrightarrow> split_char 47 (i @ 47 # s) = i # split_char 47 s"
  by (rule split_char_append_sep) (auto simp: plain_segment_def plain_char_def list_all_iff)

lemma plain_literals:
  "plain_segment (js ''sessions'')" "plain_segment (js ''agent'')" "plain_segment (js ''run'')" "plain_segment (js ''runs'')"
  "plain_segment (js ''chat'')" "plain_segment (js ''completions'')" "plain_segment (js ''skills'')" "plain_segment (js ''generate'')"
  "plain_segment (js ''context-files'')" "plain_segment (js ''rbac'')" "plain_segment (js ''me'')" "plain_segment (js ''resources'')"
  "plain_segment (js ''roles'')" "plain_segment (js ''mcp'')" "plain_segment (js ''servers'')" "plain_segment (js ''refresh'')"
  "plain_segment (js ''functions'')" "plain_segment (js ''oauth'')" "plain_segment (js ''start'')" "plain_segment (js ''disconnect'')"
  "plain_segment (js ''knowledge'')" "plain_segment (js ''sync'')" "plain_segment (js ''routines'')" "plain_segment (js ''fire'')"
  "plain_segment (js ''rotate-token'')" "plain_segment (js ''revoke-token'')"
  "plain_segment (js ''api'')" "plain_segment (js ''v1'')" "plain_segment (js ''workspaces'')"
  by (simp_all add: plain_segment_def plain_char_def is_single_dot_def is_double_dot_def single_dots_def)

lemmas plain_simps = plain_literals [simplified]

lemma scoped_path_below:
  assumes "list_all plain_segment (call_ids c)" and "list_all dotless_name (call_names c)" and "scoped_path b c = Some q"
  shows "below b q"
proof (cases c)
  case (SessionsList kind)
  show ?thesis
  proof (cases "kind = None \<or> kind = Some []")
    case True
    then show ?thesis using assms(3) belowI(1) [of b "js ''sessions''" q] SessionsList by (auto simp: plain_simps)
  next
    case False
    then obtain k where "kind = Some k" "k \<noteq> []" by auto
    then show ?thesis using assms(3) belowI(2) [of b "js ''sessions''" "js ''kind='' @ k" q] SessionsList by (simp add: plain_simps)
  qed
next
  case (ContextFilesDelete scp path userId)
  then show ?thesis using assms(3) belowI(2) [of b "js ''context-files''" _ q] by (simp add: plain_simps)
next
  case (KnowledgeSync i reset)
  then show ?thesis
    using assms(1,3) belowI(1) [of b "js ''knowledge/'' @ i @ js ''/sync''" q]
      belowI(2) [of b "js ''knowledge/'' @ i @ js ''/sync''" "js ''reset=true''" q]
    by (cases "reset = Some True") (simp_all add: plain_simps)
next
  case (RoutinesListRuns i limit)
  then show ?thesis
    using assms(1,3) belowI(2) [of b "js ''routines/'' @ i @ js ''/runs''" _ q] by (simp add: plain_simps)
qed (use assms in \<open>auto simp: session_path_def role_path_def mcp_path_def bind_eq_Some_conv plain_simps encoded_plain intro!: belowI(1)\<close>)

text \<open>
  C14. Every call inside a workspace ends up in the workspace that is active in this tab: after the
  browser has resolved its address, the path consists of api, v1, workspaces, a segment that decodes to
  the active id, and at least one more segment.  This holds when the active workspace and the names of
  sessions, roles, servers and functions are not . or .. themselves, which the encoding leaves as they
  are, and when the ids of skills, knowledge bases and routines, which are not encoded at all, are plain
  segments.  What another tab selects matters only while this tab has not selected any.
\<close>

theorem scoped_call_in_active_workspace:
  assumes "dotless_name (getActiveWorkspaceId b)" and "list_all plain_segment (call_ids c)" and "list_all dotless_name (call_names c)"
    and "scoped_request b c = Some r"
  shows "(\<exists>e ps. url_segments (rq_path r) = [js ''api'', js ''v1'', js ''workspaces'', e] @ ps \<and> ps \<noteq> [] \<and>
      decodeURIComponent e = Some (getActiveWorkspaceId b)) \<and>
    (\<forall>v other. map_of (session_storage b) active_key = Some v \<longrightarrow> v \<noteq> [] \<longrightarrow>
      scoped_request (b\<lparr>local_storage := other\<rparr>) c = Some r)"
proof
  obtain q where q: "scoped_path b c = Some q" "rq_path r = BASE @ q"
    using assms(4) by (auto simp: scoped_request_def req_def)
  obtain t v where t: "list_all plain_segment (split_char 47 t)" "v = [] \<or> hd v \<in> {35, 63}" and w: "wsPath b (47 # t @ v) = Some q"
    using scoped_path_below [OF assms(2,3) q(1)] unfolding below_def by blast
  obtain e where e: "encodeURIComponent (getActiveWorkspaceId b) = Some e" and eq: "q = js ''/workspaces/'' @ e @ 47 # t @ v"
    using w by (auto simp: wsPath_def)
  have plain: "plain_segment e" by (rule encoded_plain [OF assms(1) e])
  let ?u = "js ''api/v1/workspaces/'' @ e @ 47 # t"
  have segs: "split_char 47 ?u = [js ''api'', js ''v1'', js ''workspaces'', e] @ split_char 47 t"
    using plain by simp
  have "url_segments (47 # ?u @ v) = split_char 47 ?u"
    using t plain by (intro url_segments_plain) (simp_all only: segs list_all_append list.pred_inject plain_literals simp_thms)
  moreover have "rq_path r = 47 # ?u @ v"
    unfolding q(2) eq BASE_def by simp
  moreover have "decodeURIComponent e = Some (getActiveWorkspaceId b)"
    using assms(1) e by (intro decode_encode) (simp_all add: dotless_name_def utf16_def)
  ultimately show "\<exists>e ps. url_segments (rq_path r) = [js ''api'', js ''v1'', js ''workspaces'', e] @ ps \<and> ps \<noteq> [] \<and>
      decodeURIComponent e = Some (getActiveWorkspaceId b)"
    unfolding segs by (intro exI [of _ e] exI [of _ "split_char 47 t"]) simp
  have same: "scoped_path b' c = scoped_path b c" if "getActiveWorkspaceId b' = getActiveWorkspaceId b" for b'
  proof -
    have "wsPath b' = wsPath b" using that by (intro ext) (simp add: wsPath_def)
    then show ?thesis by (cases c) (simp_all add: session_path_def role_path_def mcp_path_def)
  qed
  show "\<forall>v other. map_of (session_storage b) active_key = Some v \<longrightarrow> v \<noteq> [] \<longrightarrow>
      scoped_request (b\<lparr>local_storage := other\<rparr>) c = Some r"
  proof (intro allI impI)
    fix v other
    assume "map_of (session_storage b) active_key = Some v" "v \<noteq> []"
    then have "getActiveWorkspaceId (b\<lparr>local_storage := other\<rparr>) = getActiveWorkspaceId b"
      by (simp add: getActiveWorkspaceId_def str_or_def)
    from same [OF this] show "scoped_request (b\<lparr>local_storage := other\<rparr>) c = Some r"
      using assms(4) by (simp only: scoped_request_def)
  qed
qed

definition sample_browser :: browser where
  "sample_browser = \<lparr>session_storage = [(active_key, js ''a/b'')], local_storage = []\<rparr>"

lemma sample_active: "getActiveWorkspaceId sample_browser = js ''a/b''"
  by (simp add: getActiveWorkspaceId_def sample_browser_def str_or_def)

lemma sample_encoded: "encodeURIComponent (js ''a/b'') = Some (js ''a%2Fb'')"
  by (simp add: encodeURIComponent_def is_high_def is_low_def encode_point_def unreserved_def is_alnum_def
      is_digit_def utf8_def percent_def hex_upper_def)

lemma sample_request: "scoped_request sample_browser (SkillsGet i) = Some \<lparr>rq_method = GET,
    rq_path = js ''/api/v1/workspaces/a%2Fb/skills/'' @ i, rq_body = None\<rparr>"
  unfolding scoped_request_def scoped_path.simps wsPath_def sample_active sample_encoded by (simp add: req_def BASE_def)

theorem scoped_call_in_active_workspace_witness:
  "\<exists>e ps. url_segments (js ''/api/v1/workspaces/a%2Fb/skills/s1'') = [js ''api'', js ''v1'', js ''workspaces'', e] @ ps \<and> ps \<noteq> [] \<and>
     decodeURIComponent e = Some (js ''a/b'')"
proof -
  have "dotless_name (getActiveWorkspaceId sample_browser)" by (simp add: sample_active dotless_name_def utf16_def)
  moreover have "list_all plain_segment (call_ids (SkillsGet (js ''s1'')))" "list_all dotless_name (call_names (SkillsGet (js ''s1'')))"
    by (simp_all add: plain_segment_def plain_char_def is_single_dot_def is_double_dot_def single_dots_def)
  ultimately show ?thesis
    using scoped_call_in_active_workspace [OF _ _ _ sample_request [of "js ''s1''"]] unfolding sample_active by simp
qed

text \<open>An id with dots in it leads out of the workspace: into another one, or to a call that is not tied to any.\<close>

lemma dots_leave_workspace:
  "url_segments (js ''/api/v1/workspaces/a%2Fb/skills/'' @ js ''../../c/skills/s1'') =
     [js ''api'', js ''v1'', js ''workspaces'', js ''c'', js ''skills'', js ''s1'']"
  by (simp add: url_segments_def strip_controls_def path_part_def is_single_dot_def is_double_dot_def single_dots_def)

lemma segments_inject:
  assumes "(47::nat) \<notin> set e" "47 \<notin> set e'" and "e @ 47 # r = e' @ 47 # r'"
  shows "e = e' \<and> r = r'"
proof -
  have t: "takeWhile (\<lambda>c. c \<noteq> 47) (x @ 47 # y) = x" if "(47::nat) \<notin> set x" for x y
    using that by (induction x) auto
  have "e = e'" using t [OF assms(1), of r] t [OF assms(2), of r'] assms(3) by simp
  then show ?thesis using assms(3) by simp
qed

lemma wsPath_inject: "wsPath b p = Some q \<Longrightarrow> wsPath b p' = Some q \<Longrightarrow> p = p'"
  by (auto simp: wsPath_def)

lemma named_paths_inject:
  assumes "utf16 x" "utf16 y"
  shows "session_path b x = Some p \<Longrightarrow> session_path b y = Some p \<Longrightarrow> x = y"
    and "role_path b x = Some p \<Longrightarrow> role_path b y = Some p \<Longrightarrow> x = y"
    and "mcp_path b x [] = Some p \<Longrightarrow> mcp_path b y [] = Some p \<Longrightarrow> x = y"
  unfolding session_path_def role_path_def mcp_path_def bind_eq_Some_conv
  using encode_inject [OF assms] by (auto dest: wsPath_inject)

text \<open>
  Calls that name a session, a role or a tool server reach that one only: two calls of the same
  kind send the same path exactly when they name the same thing, whatever characters the names hold.
\<close>

theorem named_calls_injective:
  assumes "utf16 x" "utf16 y" "utf16 f" "utf16 g"
  shows "(scoped_path b (SessionsDelete x) = Some p \<longrightarrow> scoped_path b (SessionsDelete y) = Some p \<longrightarrow> x = y) \<and>
    (scoped_path b (RolesDelete x) = Some p \<longrightarrow> scoped_path b (RolesDelete y) = Some p \<longrightarrow> x = y) \<and>
    (scoped_path b (McpDelete x) = Some p \<longrightarrow> scoped_path b (McpDelete y) = Some p \<longrightarrow> x = y) \<and>
    (scoped_path b (McpSetFunctionEnabled x f on) = Some p \<longrightarrow>
      scoped_path b (McpSetFunctionEnabled y g off) = Some p \<longrightarrow> x = y \<and> f = g)"
proof (intro conjI impI)
  assume "scoped_path b (SessionsDelete x) = Some p" "scoped_path b (SessionsDelete y) = Some p"
  then show "x = y" using named_paths_inject(1) [OF assms(1,2)] by simp
next
  assume "scoped_path b (RolesDelete x) = Some p" "scoped_path b (RolesDelete y) = Some p"
  then show "x = y" using named_paths_inject(2) [OF assms(1,2)] by simp
next
  assume "scoped_path b (McpDelete x) = Some p" "scoped_path b (McpDelete y) = Some p"
  then show "x = y" using named_paths_inject(3) [OF assms(1,2)] by simp
next
  assume a: "scoped_path b (McpSetFunctionEnabled x f on) = Some p" "scoped_path b (McpSetFunctionEnabled y g off) = Some p"
  obtain ex ey ef eg where e: "encodeURIComponent x = Some ex" "encodeURIComponent y = Some ey"
      "encodeURIComponent f = Some ef" "encodeURIComponent g = Some eg"
      and p: "ex @ js ''/functions/'' @ ef = ey @ js ''/functions/'' @ eg"
    using a by (auto simp: mcp_path_def bind_eq_Some_conv dest: wsPath_inject)
  have "ex = ey \<and> js ''functions/'' @ ef = js ''functions/'' @ eg"
    by (rule segments_inject) (use p encode_no_slash e assms in simp_all)
  then have "ex = ey" "ef = eg" by simp_all
  then show "x = y" and "f = g" using e assms encode_inject by blast+
qed

theorem named_calls_injective_witness:
  "\<exists>p. scoped_path sample_browser (SessionsDelete (js ''a/b'')) = Some p \<and>
     scoped_path sample_browser (SessionsDelete (js ''a'')) \<noteq> Some p"
proof -
  have u: "utf16 (js ''a/b'')" "utf16 (js ''a'')" by (simp_all add: utf16_def)
  obtain p where p: "scoped_path sample_browser (SessionsDelete (js ''a/b'')) = Some p"
    by (simp only: scoped_path.simps session_path_def sample_encoded wsPath_def sample_active option.map bind.bind_lunit)
  have "js ''a/b'' \<noteq> js ''a''" by simp
  with named_calls_injective [OF u(1) u(2) u(1) u(1), of sample_browser p] p show ?thesis by blast
qed

section \<open>What a call makes of a response\<close>

text \<open>
  A call resolves exactly on a success status with an empty reply (204) or a JSON text, and then
  shows nothing; a failure status with a JSON text other than null, or with no JSON text at all,
  is an API error carrying the status, whose message is shown; a failure whose text is null is a
  type error instead, and nothing is shown.
\<close>

theorem api_result_cases:
  "(let good = (200 \<le> rp_status res \<and> rp_status res \<le> 299);
        body = json_parse (rp_text res)
    in ((\<exists>v. fst (api_result res) = Resolved v) \<longleftrightarrow> good \<and> (rp_status res = 204 \<or> body \<noteq> None)) \<and>
       (fst (api_result res) = SyntaxError \<longleftrightarrow> good \<and> rp_status res \<noteq> 204 \<and> body = None) \<and>
       (fst (api_result res) = TypeError \<longleftrightarrow> \<not> good \<and> (body = Some JNull \<or> body = Some JUndef)) \<and>
       (\<forall>m st. fst (api_result res) = ApiError m st \<longrightarrow> st = rp_status res \<and> snd (api_result res) = Some m) \<and>
       (snd (api_result res) \<noteq> None \<longleftrightarrow> (\<exists>m. fst (api_result res) = ApiError m (rp_status res))))"
proof (cases "200 \<le> rp_status res \<and> rp_status res \<le> 299")
  case True
  then show ?thesis by (auto simp: api_result_def split: option.splits)
next
  case False
  have n: "js_prop v k = None \<longleftrightarrow> v = JNull \<or> v = JUndef" for v k by (cases v) auto
  show ?thesis
    using False
    by (cases "json_parse (rp_text res)") (auto simp: api_result_def Let_def n split: option.splits)
qed

end
