(* ===== verification/AuthStore.thy ===== *)
theory AuthStore
  imports Uri
begin

text \<open>
  Who is signed in and what they may see, src/ui/web/src/stores/auth.ts, and the address of the
  single sign-on server, src/ui/web/src/lib/cas.ts.
\<close>

section \<open>Cookies\<close>

definition name_eq :: "jstr \<Rightarrow> jstr" where
  "name_eq name = name @ [61]"

text \<open>The first place where \<open>; name=\<close> stands, and the text up to the next semicolon.\<close>

fun scan_cookie :: "jstr \<Rightarrow> jstr \<Rightarrow> jstr option" where
  "scan_cookie name [] = None"
| "scan_cookie name (c # s) =
     (if starts_with ([59, 32] @ name_eq name) (c # s)
      then Some (takeWhile (\<lambda>d. d \<noteq> 59) (drop (length ([59, 32] @ name_eq name)) (c # s)))
      else scan_cookie name s)"

definition match_cookie :: "jstr \<Rightarrow> jstr \<Rightarrow> jstr option" where
  "match_cookie name cookie =
     (if starts_with (name_eq name) cookie
      then Some (takeWhile (\<lambda>d. d \<noteq> 59) (drop (length (name_eq name)) cookie))
      else scan_cookie name cookie)"

text \<open>\<open>None\<close> is a thrown \<open>URIError\<close>.\<close>

definition getCookie :: "jstr \<Rightarrow> jstr \<Rightarrow> jstr option" where
  "getCookie cookie name = (case match_cookie name cookie of
     None \<Rightarrow> Some []
   | Some v \<Rightarrow> decodeURIComponent v)"

section \<open>The store\<close>

record auth_state =
  auth_sub :: jstr
  permissions :: "jstr list option"

definition auth_initial :: "jstr \<Rightarrow> auth_state option" where
  "auth_initial cookie = map_option (\<lambda>s. \<lparr>auth_sub = s, permissions = None\<rparr>) (getCookie cookie (js ''sub''))"

definition setSub :: "jstr \<Rightarrow> auth_state \<Rightarrow> auth_state" where
  "setSub s st = st\<lparr>auth_sub := s\<rparr>"

definition setPermissions :: "jstr list option \<Rightarrow> auth_state \<Rightarrow> auth_state" where
  "setPermissions ps st = st\<lparr>permissions := ps\<rparr>"

definition hasPermission :: "auth_state \<Rightarrow> jstr \<Rightarrow> bool" where
  "hasPermission st resource = (case permissions st of None \<Rightarrow> True | Some ps \<Rightarrow> resource \<in> set ps)"

definition hasTabAccess :: "auth_state \<Rightarrow> jstr \<Rightarrow> bool" where
  "hasTabAccess st tabName = (case permissions st of None \<Rightarrow> True
     | Some ps \<Rightarrow> list_ex (starts_with (js ''tab:'' @ tabName @ js '':'')) ps)"

definition clearAuth :: "auth_state \<Rightarrow> auth_state" where
  "clearAuth st = st\<lparr>auth_sub := [], permissions := None\<rparr>"

section \<open>Single sign-on\<close>

text \<open>\<open>configured\<close> is the build-time setting, when there is one.\<close>

definition CAS_SSO_URL :: "jstr option \<Rightarrow> jstr" where
  "CAS_SSO_URL configured = (case configured of Some u \<Rightarrow> u
     | None \<Rightarrow> js ''https://zlpdev-platform-cas.zalopay.vn/sso'')"

definition casServiceUrl :: "jstr \<Rightarrow> jstr" where
  "casServiceUrl origin = origin @ js ''/sso/cas''"

definition casRedirectUrl :: "jstr option \<Rightarrow> jstr \<Rightarrow> jstr option" where
  "casRedirectUrl configured origin =
     map_option (\<lambda>e. CAS_SSO_URL configured @ js ''?service='' @ e) (encodeURIComponent (casServiceUrl origin))"

section \<open>Reading back a cookie\<close>

text \<open>The cookie string of a list of cookies; neither names nor values hold a semicolon, nor names an equals sign.\<close>

definition cookie_text :: "(jstr \<times> jstr) list \<Rightarrow> jstr" where
  "cookie_text cs = join [59, 32] (map (\<lambda>(n, v). n @ 61 # v) cs)"

definition cookies_ok :: "(jstr \<times> jstr) list \<Rightarrow> bool" where
  "cookies_ok cs \<longleftrightarrow> list_all (\<lambda>(n, v). 59 \<notin> set n \<and> 61 \<notin> set n \<and> 59 \<notin> set v) cs"

lemma starts_name_eq:
  assumes "61 \<notin> set m" "61 \<notin> set n"
  shows "starts_with (name_eq m) (n @ 61 # r) \<longleftrightarrow> m = n"
proof
  assume "starts_with (name_eq m) (n @ 61 # r)"
  then obtain t where "n @ 61 # r = m @ 61 # t" by (auto simp: starts_with_iff name_eq_def)
  then have "takeWhile (\<lambda>c. c \<noteq> 61) (n @ 61 # r) = takeWhile (\<lambda>c. c \<noteq> 61) (m @ 61 # t)" by simp
  moreover have "takeWhile (\<lambda>c. c \<noteq> 61) (x @ 61 # y) = x" if "61 \<notin> set x" for x y :: jstr
    using that by (induction x) auto
  ultimately show "m = n" using assms by metis
next
  assume "m = n"
  then show "starts_with (name_eq m) (n @ 61 # r)" by (auto simp: starts_with_iff name_eq_def)
qed

lemma scan_skip: "59 \<notin> set s \<Longrightarrow> scan_cookie name (s @ t) = scan_cookie name t"
proof (induction s)
  case (Cons c s)
  then show ?case by (auto simp: starts_with_def)
qed simp

lemma take_value: "59 \<notin> set v \<Longrightarrow> takeWhile (\<lambda>d. d \<noteq> 59) v = v"
  "59 \<notin> set v \<Longrightarrow> takeWhile (\<lambda>d. d \<noteq> 59) (v @ 59 # r) = v"
  by (induction v) auto

text \<open>What follows a cookie: nothing, or a separator and the other cookies.\<close>

definition more :: "(jstr \<times> jstr) list \<Rightarrow> jstr" where
  "more cs = (if cs = [] then [] else [59, 32] @ cookie_text cs)"

lemma cookie_text_Cons: "cookie_text ((n, v) # cs) = n @ 61 # v @ more cs"
  by (cases cs) (simp_all add: cookie_text_def more_def)

lemma take_more: "59 \<notin> set v \<Longrightarrow> takeWhile (\<lambda>d. d \<noteq> 59) (v @ more cs) = v"
  by (auto simp: more_def take_value)

lemma scan_more:
  "cookies_ok cs \<Longrightarrow> 61 \<notin> set name \<Longrightarrow> scan_cookie name (more cs) = map_of cs name"
proof (induction cs)
  case Nil
  show ?case by (simp add: more_def)
next
  case (Cons p cs)
  obtain n v where p: "p = (n, v)" by (cases p)
  have ok: "59 \<notin> set n" "61 \<notin> set n" "59 \<notin> set v" "cookies_ok cs"
    using Cons.prems(1) by (simp_all add: cookies_ok_def p)
  have m: "more (p # cs) = 59 # 32 # n @ 61 # v @ more cs" by (simp add: more_def p cookie_text_Cons)
  have s: "starts_with ([59, 32] @ name_eq name) (59 # 32 # n @ 61 # v @ more cs) \<longleftrightarrow> name = n"
    using starts_name_eq [OF Cons.prems(2) ok(2), of "v @ more cs"] by (simp add: starts_with_def)
  show ?case
  proof (cases "name = n")
    case True
    then show ?thesis unfolding m using s ok by (simp add: p name_eq_def take_more)
  next
    case False
    have "scan_cookie name (32 # n @ 61 # v @ more cs) = scan_cookie name ((32 # n @ 61 # v) @ more cs)" by simp
    also have "\<dots> = scan_cookie name (more cs)" by (rule scan_skip) (use ok in simp)
    also have "\<dots> = map_of cs name" by (rule Cons.IH [OF ok(4) Cons.prems(2)])
    finally show ?thesis unfolding m using s False by (simp add: p)
  qed
qed

lemma match_cookie_text:
  assumes "cookies_ok cs" and "61 \<notin> set name" and "59 \<notin> set name"
  shows "match_cookie name (cookie_text cs) = map_of cs name"
proof (cases cs)
  case Nil
  then show ?thesis by (simp add: match_cookie_def cookie_text_def starts_with_def name_eq_def)
next
  case (Cons p cs')
  obtain n v where p: "p = (n, v)" by (cases p)
  have ok: "59 \<notin> set n" "61 \<notin> set n" "59 \<notin> set v" "cookies_ok cs'"
    using assms(1) by (simp_all add: cookies_ok_def p Cons)
  have t: "cookie_text cs = n @ 61 # v @ more cs'" by (simp add: Cons p cookie_text_Cons)
  have s: "starts_with (name_eq name) (n @ 61 # v @ more cs') \<longleftrightarrow> name = n"
    by (rule starts_name_eq [OF assms(2) ok(2)])
  show ?thesis
  proof (cases "name = n")
    case True
    then show ?thesis unfolding match_cookie_def t using s ok by (simp add: Cons p name_eq_def take_more)
  next
    case False
    have "scan_cookie name ((n @ 61 # v) @ more cs') = scan_cookie name (more cs')"
      by (rule scan_skip) (use ok in simp)
    also have "\<dots> = map_of cs' name" by (rule scan_more [OF ok(4) assms(2)])
    finally show ?thesis unfolding match_cookie_def t using s False by (simp add: Cons p)
  qed
qed

text \<open>
  A cookie is read back: among any other cookies, whatever their names and values contain, the
  cookie that was set to the encoding of a text is read as that text; a name that is not set gives
  the empty text.
\<close>

theorem cookie_read_back:
  assumes "cookies_ok cs" and "61 \<notin> set name" and "59 \<notin> set name"
  shows "(\<forall>s e. list_all (\<lambda>c. c < 65536) s \<longrightarrow> encodeURIComponent s = Some e \<longrightarrow> map_of cs name = Some e \<longrightarrow>
      getCookie (cookie_text cs) name = Some s) \<and>
    (map_of cs name = None \<longrightarrow> getCookie (cookie_text cs) name = Some [])"
  unfolding getCookie_def match_cookie_text [OF assms] using decode_encode by auto

theorem cookie_read_back_witness:
  "getCookie (cookie_text [(js ''xsub'', js ''sub=1''), (js ''sub'', js ''a%2Fb'')]) (js ''sub'') = Some (js ''a/b'')"
proof -
  let ?cs = "[(js ''xsub'', js ''sub=1''), (js ''sub'', js ''a%2Fb'')]"
  have ok: "cookies_ok ?cs" and n: "61 \<notin> set (js ''sub'')" "59 \<notin> set (js ''sub'')"
    by (simp_all add: cookies_ok_def)
  have "encodeURIComponent (js ''a/b'') = Some (js ''a%2Fb'')"
    by (simp add: encodeURIComponent_def is_high_def is_low_def encode_point_def unreserved_def is_alnum_def
        is_digit_def utf8_def percent_def hex_upper_def)
  moreover have "list_all (\<lambda>c. c < 65536) (js ''a/b'')" "map_of ?cs (js ''sub'') = Some (js ''a%2Fb'')" by simp_all
  ultimately show ?thesis using cookie_read_back [OF ok n] by blast
qed

end
