(* ===== verification/WorkspacesStore.thy ===== *)
theory WorkspacesStore
  imports ApiClient
begin

text \<open>
  The workspaces of the user and the active one, src/ui/web/src/stores/workspaces.ts.  The replies
  of the server are events; the web storage is shared with the HTTP client, and its local part with
  other tabs, which may change it between any two events.
\<close>

section \<open>State\<close>

text \<open>A workspace; a theme is what the theme table holds, \<open>undefined\<close> when it holds none.\<close>

record workspace =
  w_id :: jstr
  w_slug :: jstr
  w_name :: jstr
  w_description :: jstr
  w_created_by :: "jstr option"
  w_created_at :: jstr
  w_updated_at :: jstr
  w_theme :: jsval

record workspaces_state =
  workspaces :: "workspace list"
  activeWorkspaceId :: jstr
  ws_loaded :: bool

record ws_tab =
  tab_store :: workspaces_state
  tab_browser :: browser

section \<open>Web storage\<close>

definition THEMES_KEY :: jstr where
  "THEMES_KEY = js ''lending_claw_workspace_themes''"

definition readActive :: "browser \<Rightarrow> jstr" where
  "readActive b = str_or (map_of (session_storage b) active_key)
     (str_or (map_of (local_storage b) active_key) (js ''default''))"

definition persistActive :: "jstr \<Rightarrow> browser \<Rightarrow> browser" where
  "persistActive i b = b\<lparr>session_storage := obj_put (session_storage b) active_key i,
     local_storage := obj_put (local_storage b) active_key i\<rparr>"

text \<open>The stored text is parsed and may be any JSON value.\<close>

definition loadThemeMap :: "browser \<Rightarrow> jsval" where
  "loadThemeMap b = (case json_parse (str_or (map_of (local_storage b) THEMES_KEY) (js ''{}'')) of
     Some v \<Rightarrow> v | None \<Rightarrow> JObj [])"

text \<open>\<open>JSON.stringify\<close> of a parsed value always gives a text.\<close>

definition saveThemeMap :: "jsval \<Rightarrow> browser \<Rightarrow> browser" where
  "saveThemeMap m b = (case json_stringify 0 m of
     Some t \<Rightarrow> b\<lparr>local_storage := obj_put (local_storage b) THEMES_KEY t\<rparr> | None \<Rightarrow> b)"

section \<open>Actions\<close>

definition ws_initial :: "browser \<Rightarrow> ws_tab" where
  "ws_initial b = \<lparr>tab_store = \<lparr>workspaces = [], activeWorkspaceId = readActive b, ws_loaded = False\<rparr>,
     tab_browser = b\<rparr>"

text \<open>\<open>list.map((w) => ({ ...w, theme: themes[w.id] }))\<close>; \<open>None\<close> when the table is \<open>null\<close>.\<close>

fun with_themes :: "jsval \<Rightarrow> workspace list \<Rightarrow> workspace list option" where
  "with_themes themes [] = Some []"
| "with_themes themes (w # ws) = (case js_prop themes (w_id w) of
     None \<Rightarrow> None
   | Some t \<Rightarrow> map_option ((#) (w\<lparr>w_theme := t\<rparr>)) (with_themes themes ws))"

definition choose_active :: "browser \<Rightarrow> workspace list \<Rightarrow> jstr" where
  "choose_active b ws =
     (let stored = str_or (map_of (session_storage b) active_key)
            (case map_of (local_storage b) active_key of None \<Rightarrow> [] | Some v \<Rightarrow> v);
          a1 = (if stored \<noteq> [] \<and> list_ex (\<lambda>w. w_id w = stored) ws then stored else []);
          a2 = (if a1 = [] \<and> ws \<noteq> [] then w_id (hd ws) else a1)
      in if a2 = [] then js ''default'' else a2)"

text \<open>\<open>loadWorkspaces\<close> once the list has arrived; a type error leaves everything as it is.\<close>

definition loadWorkspaces_reply :: "workspace list \<Rightarrow> ws_tab \<Rightarrow> ws_tab" where
  "loadWorkspaces_reply reply t = (case with_themes (loadThemeMap (tab_browser t)) reply of
     None \<Rightarrow> t
   | Some ws \<Rightarrow>
       (let a = choose_active (tab_browser t) ws
        in \<lparr>tab_store = \<lparr>workspaces = ws, activeWorkspaceId = a, ws_loaded = True\<rparr>,
            tab_browser = persistActive a (tab_browser t)\<rparr>))"

definition setActiveWorkspaceId :: "jstr \<Rightarrow> ws_tab \<Rightarrow> ws_tab" where
  "setActiveWorkspaceId i t = \<lparr>tab_store = (tab_store t)\<lparr>activeWorkspaceId := i\<rparr>,
     tab_browser = persistActive i (tab_browser t)\<rparr>"

definition createWorkspace_reply :: "workspace \<Rightarrow> ws_tab \<Rightarrow> ws_tab" where
  "createWorkspace_reply w t = \<lparr>tab_store = (tab_store t)\<lparr>workspaces := workspaces (tab_store t) @ [w],
       activeWorkspaceId := w_id w\<rparr>, tab_browser = persistActive (w_id w) (tab_browser t)\<rparr>"

text \<open>\<open>{ ...w, ...ws, theme: w.theme }\<close>.\<close>

definition merge_workspace :: "workspace \<Rightarrow> workspace \<Rightarrow> workspace" where
  "merge_workspace w ws = ws\<lparr>w_created_by := (case w_created_by ws of None \<Rightarrow> w_created_by w | c \<Rightarrow> c),
     w_theme := w_theme w\<rparr>"

definition updateWorkspace_reply :: "jstr \<Rightarrow> workspace \<Rightarrow> ws_tab \<Rightarrow> ws_tab" where
  "updateWorkspace_reply i ws t = t\<lparr>tab_store := (tab_store t)\<lparr>workspaces :=
     map (\<lambda>w. if w_id w = i then merge_workspace w ws else w) (workspaces (tab_store t))\<rparr>\<rparr>"

text \<open>
  \<open>themes[id] = theme\<close> on the parsed table: \<open>null\<close> and primitive values throw, after the list has been
  changed; a property set on an array is not written back.
\<close>

definition updateActiveWorkspaceTheme :: "jstr \<Rightarrow> ws_tab \<Rightarrow> ws_tab" where
  "updateActiveWorkspaceTheme theme t =
     (let a = activeWorkspaceId (tab_store t);
          st = (tab_store t)\<lparr>workspaces := map (\<lambda>w. if w_id w = a then w\<lparr>w_theme := JStr theme\<rparr> else w)
                 (workspaces (tab_store t))\<rparr>;
          b = tab_browser t
      in \<lparr>tab_store = st,
          tab_browser = (case loadThemeMap b of
             JObj m \<Rightarrow> saveThemeMap (JObj (obj_set m a (JStr theme))) b
           | JArr vs \<Rightarrow> saveThemeMap (JArr vs) b
           | _ \<Rightarrow> b)\<rparr>)"

text \<open>\<open>OtherTab\<close> is whatever other tabs write to the local storage.\<close>

datatype ws_event = WorkspacesLoaded "workspace list" | LoadFailed | SetActive jstr
  | WorkspaceCreated workspace | WorkspaceUpdated jstr workspace | SetWorkspaceTheme jstr
  | OtherTab storage

fun ws_step :: "ws_tab \<Rightarrow> ws_event \<Rightarrow> ws_tab" where
  "ws_step t (WorkspacesLoaded reply) = loadWorkspaces_reply reply t"
| "ws_step t LoadFailed = t"
| "ws_step t (SetActive i) = setActiveWorkspaceId i t"
| "ws_step t (WorkspaceCreated w) = createWorkspace_reply w t"
| "ws_step t (WorkspaceUpdated i w) = updateWorkspace_reply i w t"
| "ws_step t (SetWorkspaceTheme theme) = updateActiveWorkspaceTheme theme t"
| "ws_step t (OtherTab s) = t\<lparr>tab_browser := (tab_browser t)\<lparr>local_storage := s\<rparr>\<rparr>"

section \<open>The store and the client agree on the active workspace\<close>

lemma get_persisted:
  "map_of (session_storage (persistActive i b)) active_key = Some i"
  "map_of (local_storage (persistActive i b)) active_key = Some i"
  by (simp_all add: persistActive_def obj.get_put_same)

lemma active_persisted: "i \<noteq> [] \<Longrightarrow> getActiveWorkspaceId (persistActive i b) = i"
  by (simp add: getActiveWorkspaceId_def str_or_def get_persisted)

text \<open>A tab that has loaded has its own entry for the active workspace.\<close>

definition active_agrees :: "ws_tab \<Rightarrow> bool" where
  "active_agrees t \<longleftrightarrow> (ws_loaded (tab_store t) \<longrightarrow>
     map_of (session_storage (tab_browser t)) active_key = Some (activeWorkspaceId (tab_store t)))"

lemma theme_keeps_session:
  "session_storage (tab_browser (updateActiveWorkspaceTheme theme t)) = session_storage (tab_browser t)"
  by (auto simp: updateActiveWorkspaceTheme_def saveThemeMap_def Let_def split: jsval.splits option.splits)

lemma theme_keeps_active:
  "activeWorkspaceId (tab_store (updateActiveWorkspaceTheme theme t)) = activeWorkspaceId (tab_store t)"
  "ws_loaded (tab_store (updateActiveWorkspaceTheme theme t)) = ws_loaded (tab_store t)"
  by (simp_all add: updateActiveWorkspaceTheme_def Let_def)

interpretation ws: invariant_machine ws_step active_agrees
proof
  fix t e
  assume inv: "active_agrees t"
  show "active_agrees (ws_step t e)"
  proof (cases e)
    case (WorkspacesLoaded reply)
    then show ?thesis using inv
      by (auto simp: loadWorkspaces_reply_def active_agrees_def Let_def get_persisted split: option.splits)
  next
    case (SetWorkspaceTheme theme)
    then show ?thesis using inv by (simp add: active_agrees_def theme_keeps_session theme_keeps_active)
  qed (use inv in \<open>simp_all add: active_agrees_def setActiveWorkspaceId_def createWorkspace_reply_def
      updateWorkspace_reply_def get_persisted\<close>)
qed

lemma ws_initial_agrees: "active_agrees (ws_initial b)"
  by (simp add: active_agrees_def ws_initial_def)

text \<open>
  C15. Whatever the user does in a tab, whatever the server replies, and whatever other tabs write to
  the shared storage in between: once a tab has loaded its workspaces, the workspace its store shows
  as active (unless that is the empty id) is the one to which its requests go.
\<close>

theorem store_and_client_agree:
  assumes "t = foldl ws_step (ws_initial b) es" and "ws_loaded (tab_store t)"
    and "activeWorkspaceId (tab_store t) \<noteq> []"
  shows "getActiveWorkspaceId (tab_browser t) = activeWorkspaceId (tab_store t)"
proof -
  have "active_agrees t" unfolding assms(1) by (rule ws.run_inv [OF ws_initial_agrees])
  then show ?thesis using assms(2,3) by (simp add: active_agrees_def getActiveWorkspaceId_def str_or_def)
qed

definition sample_workspace :: workspace where
  "sample_workspace = \<lparr>w_id = js ''w1'', w_slug = [], w_name = [], w_description = [], w_created_by = None,
     w_created_at = [], w_updated_at = [], w_theme = JUndef\<rparr>"

theorem store_and_client_agree_witness:
  "getActiveWorkspaceId (tab_browser (foldl ws_step (ws_initial \<lparr>session_storage = [], local_storage = []\<rparr>)
     [WorkspacesLoaded [sample_workspace], OtherTab [(active_key, js ''w2'')]])) = js ''w1''"
proof -
  let ?t = "foldl ws_step (ws_initial \<lparr>session_storage = [], local_storage = []\<rparr>)
     [WorkspacesLoaded [sample_workspace], OtherTab [(active_key, js ''w2'')]]"
  have themes: "loadThemeMap \<lparr>session_storage = [], local_storage = []\<rparr> = JObj []"
    by (simp add: loadThemeMap_def str_or_def json_eval)
  have t: "ws_loaded (tab_store ?t)" "activeWorkspaceId (tab_store ?t) = js ''w1''"
    by (simp_all add: ws_initial_def loadWorkspaces_reply_def themes sample_workspace_def choose_active_def
        str_or_def Let_def)
  then show ?thesis using store_and_client_agree [OF refl t(1)] by simp
qed

text \<open>
  Loading keeps the active workspace when the server still lists it, otherwise takes the first
  one listed, and falls back to the default one when the list is empty or the id is.
\<close>

lemma choose_active_cases:
  "(getActiveWorkspaceId b \<in> w_id ` set ws \<and> (map_of (session_storage b) active_key \<noteq> None
       \<or> map_of (local_storage b) active_key \<noteq> None) \<and> getActiveWorkspaceId b \<noteq> js ''default'' \<longrightarrow>
      choose_active b ws = getActiveWorkspaceId b) \<and>
   (ws \<noteq> [] \<longrightarrow> [] \<notin> w_id ` set ws \<longrightarrow> choose_active b ws \<in> w_id ` set ws) \<and>
   (ws = [] \<longrightarrow> choose_active b ws = js ''default'')"
  by (cases ws) (auto simp: choose_active_def getActiveWorkspaceId_def str_or_def Let_def list_ex_iff
      split: option.splits if_splits)

end
