(* ===== verification/SessionsStore.thy ===== *)
theory SessionsStore
  imports JsValue
begin

text \<open>
  Chat sessions: their list (src/ui/web/src/stores/sessions.ts), the title that is shown
  (src/ui/web/src/lib/session-title.ts), and the prompt that waits for a new session to open
  (src/ui/web/src/lib/chat-session.ts).
\<close>

section \<open>The list\<close>

record session_info =
  si_key :: jstr
  si_title :: "jstr option"
  si_created_by :: "jstr option"
  si_message_count :: nat
  si_created_at :: jstr
  si_updated_at :: jstr

record sessions_state =
  sessions :: "session_info list"
  sessions_loading :: bool

text \<open>The events are the calls and the replies of the server; \<open>createSession\<close> only loads.\<close>

datatype sessions_event = LoadSessions | SessionsReply "session_info list" | SessionsError
  | DeleteReply jstr | DeleteError

fun sessions_step :: "sessions_state \<Rightarrow> sessions_event \<Rightarrow> sessions_state" where
  "sessions_step s LoadSessions = s\<lparr>sessions_loading := True\<rparr>"
| "sessions_step s (SessionsReply l) = s\<lparr>sessions := l, sessions_loading := False\<rparr>"
| "sessions_step s SessionsError = s\<lparr>sessions := [], sessions_loading := False\<rparr>"
| "sessions_step s (DeleteReply key) = s\<lparr>sessions := filter (\<lambda>i. si_key i \<noteq> key) (sessions s)\<rparr>"
| "sessions_step s DeleteError = s"

section \<open>The title\<close>

definition NEW_SESSION_TITLE :: jstr where
  "NEW_SESSION_TITLE = js ''Cu'' @ [7897] @ js ''c tr'' @ [242] @ js '' chuy'' @ [7879] @ js ''n m'' @ [7899] @ js ''i''"

definition trimmed :: "jstr option \<Rightarrow> jstr" where
  "trimmed t = (case t of None \<Rightarrow> [] | Some s \<Rightarrow> trim s)"

definition getSessionDisplayTitle :: "jstr option \<Rightarrow> (jstr \<times> jstr) list option \<Rightarrow> jstr" where
  "getSessionDisplayTitle title extra_meta =
     (let t1 = trimmed title;
          t2 = trimmed (case extra_meta of None \<Rightarrow> None | Some m \<Rightarrow> map_of m (js ''title''));
          t = (if t1 \<noteq> [] then t1 else t2)
      in if t \<noteq> [] then t else NEW_SESSION_TITLE)"

lemma title_not_blank: "trim (getSessionDisplayTitle title m) = getSessionDisplayTitle title m
    \<and> getSessionDisplayTitle title m \<noteq> []"
proof -
  have "trim NEW_SESSION_TITLE = NEW_SESSION_TITLE"
    by (rule trim_no_outer_ws) (simp_all add: NEW_SESSION_TITLE_def is_ws_def)
  moreover have "NEW_SESSION_TITLE \<noteq> []" by (simp add: NEW_SESSION_TITLE_def)
  moreover have "trim (trimmed t) = trimmed t" for t by (simp add: trimmed_def split: option.split)
  ultimately show ?thesis by (simp add: getSessionDisplayTitle_def Let_def)
qed

section \<open>A prompt waiting for its session\<close>

definition base36_digit :: "nat \<Rightarrow> nat" where
  "base36_digit n = (if n < 10 then 48 + n else 87 + n)"

fun base36 :: "nat \<Rightarrow> jstr" where
  "base36 n = (if n < 36 then [base36_digit n] else base36 (n div 36) @ [base36_digit (n mod 36)])"

declare base36.simps [simp del]

text \<open>\<open>now\<close> is the clock in milliseconds and \<open>random\<close> the text of a random number in base 36.\<close>

definition createChatSessionKey :: "nat \<Rightarrow> jstr \<Rightarrow> jstr" where
  "createChatSessionKey now random = js ''chat-'' @ base36 now @ [45] @ take 4 (drop 2 random)"

definition PENDING_CHAT_PROMPT_PREFIX :: jstr where
  "PENDING_CHAT_PROMPT_PREFIX = js ''lending_claw_pending_chat_prompt:''"

definition queueChatPrompt :: "jstr \<Rightarrow> jstr \<Rightarrow> (jstr \<times> jstr) list \<Rightarrow> (jstr \<times> jstr) list" where
  "queueChatPrompt sessionKey prompt storage =
     (if trim prompt = [] then storage
      else obj_put storage (PENDING_CHAT_PROMPT_PREFIX @ sessionKey) (trim prompt))"

definition takeQueuedChatPrompt :: "jstr \<Rightarrow> (jstr \<times> jstr) list \<Rightarrow> jstr option \<times> (jstr \<times> jstr) list" where
  "takeQueuedChatPrompt sessionKey storage =
     (let storageKey = PENDING_CHAT_PROMPT_PREFIX @ sessionKey
      in (map_of storage storageKey, obj_delete storage storageKey))"

text \<open>
  A prompt queued for a session is handed over trimmed and exactly once, a second take finds
  nothing, prompts of other sessions and all other entries of the storage stay as they are; a blank
  prompt queues nothing.
\<close>

theorem prompt_taken_once:
  "(case takeQueuedChatPrompt k (queueChatPrompt k p st) of (r, st') \<Rightarrow>
      r = (if trim p = [] then map_of st (PENDING_CHAT_PROMPT_PREFIX @ k) else Some (trim p)) \<and>
      fst (takeQueuedChatPrompt k st') = None \<and>
      fst (takeQueuedChatPrompt j st') = (if j = k then None else fst (takeQueuedChatPrompt j st)) \<and>
      map_of st' x = (if x = PENDING_CHAT_PROMPT_PREFIX @ k then None else map_of st x))"
  by (simp add: takeQueuedChatPrompt_def queueChatPrompt_def Let_def obj.get_put obj.get_del)

end
