(* ===== verification/RoutinesStore.thy ===== *)
theory RoutinesStore
  imports IndexedDb
begin

text \<open>
  The routines of a workspace and their runs, src/ui/web/src/stores/routines.ts.  The events are the
  calls that change the store at once and the replies of the server.
\<close>

section \<open>State\<close>

record routine =
  r_id :: jstr
  r_workspace_id :: jstr
  r_name :: jstr
  r_prompt :: jstr
  r_model :: "jstr option"
  r_session_prefix :: jstr
  r_enabled :: bool
  r_schedule_cron :: "jstr option"
  r_schedule_tz :: jstr
  r_temporal_schedule_id :: "jstr option"
  r_has_fire_token :: bool
  r_created_by :: "jstr option"
  r_created_at :: jstr
  r_updated_at :: jstr

datatype trigger_type = Schedule | Api | Manual

datatype run_status = Running | Success | Failed

record routine_run =
  rr_id :: jstr
  rr_routine_id :: jstr
  rr_workspace_id :: jstr
  rr_trigger_type :: trigger_type
  rr_status :: run_status
  rr_session_key :: "jstr option"
  rr_workflow_id :: "jstr option"
  rr_temporal_run_id :: "jstr option"
  rr_input_text :: "jstr option"
  rr_output_preview :: "jstr option"
  rr_error :: "jstr option"
  rr_input_tokens :: nat
  rr_output_tokens :: nat
  rr_iterations :: nat
  rr_started_at :: jstr
  rr_finished_at :: "jstr option"
  rr_duration_ms :: nat

record routines_state =
  items :: "routine list"
  rt_loaded :: bool
  rt_loading :: bool
  runsByRoutine :: "jstr \<Rightarrow> routine_run list option"
  runsLoading :: "jstr \<Rightarrow> bool option"

definition routines_initial :: routines_state where
  "routines_initial = \<lparr>items = [], rt_loaded = False, rt_loading = False,
     runsByRoutine = (\<lambda>i. None), runsLoading = (\<lambda>i. None)\<rparr>"

section \<open>Actions\<close>

datatype routines_event =
    LoadRoutines | RoutinesReply "routine list" | RoutinesError
  | Created routine | Updated jstr routine | Deleted jstr
  | LoadRuns jstr | RunsReply jstr "routine_run list" | RunsError jstr
  | TokenRotated jstr | TokenRevoked jstr | CallRejected

fun routines_step :: "routines_state \<Rightarrow> routines_event \<Rightarrow> routines_state" where
  "routines_step s LoadRoutines = s\<lparr>rt_loading := True\<rparr>"
| "routines_step s (RoutinesReply l) = s\<lparr>items := l, rt_loaded := True, rt_loading := False\<rparr>"
| "routines_step s RoutinesError = s\<lparr>items := [], rt_loaded := False, rt_loading := False\<rparr>"
| "routines_step s (Created r) = s\<lparr>items := items s @ [r]\<rparr>"
| "routines_step s (Updated i r) = s\<lparr>items := map (\<lambda>x. if r_id x = i then r else x) (items s)\<rparr>"
| "routines_step s (Deleted i) = s\<lparr>items := filter (\<lambda>x. r_id x \<noteq> i) (items s),
     runsByRoutine := (runsByRoutine s)(i \<mapsto> [])\<rparr>"
| "routines_step s (LoadRuns i) = s\<lparr>runsLoading := (runsLoading s)(i \<mapsto> True)\<rparr>"
| "routines_step s (RunsReply i runs) = s\<lparr>runsByRoutine := (runsByRoutine s)(i \<mapsto> runs),
     runsLoading := (runsLoading s)(i \<mapsto> False)\<rparr>"
| "routines_step s (RunsError i) = s\<lparr>runsLoading := (runsLoading s)(i \<mapsto> False)\<rparr>"
| "routines_step s (TokenRotated i) =
     s\<lparr>items := map (\<lambda>x. if r_id x = i then x\<lparr>r_has_fire_token := True\<rparr> else x) (items s)\<rparr>"
| "routines_step s (TokenRevoked i) =
     s\<lparr>items := map (\<lambda>x. if r_id x = i then x\<lparr>r_has_fire_token := False\<rparr> else x) (items s)\<rparr>"
| "routines_step s CallRejected = s"

section \<open>The list is the server's table\<close>

text \<open>The specification: a map from ids to routines, changed as the server changes its table.\<close>

fun routines_spec :: "(jstr \<Rightarrow> routine option) \<Rightarrow> routines_event \<Rightarrow> (jstr \<Rightarrow> routine option)" where
  "routines_spec m (RoutinesReply l) = lookup r_id l"
| "routines_spec m RoutinesError = (\<lambda>i. None)"
| "routines_spec m (Created r) = m(r_id r \<mapsto> r)"
| "routines_spec m (Updated i r) = m(i := map_option (\<lambda>x. r) (m i))"
| "routines_spec m (Deleted i) = m(i := None)"
| "routines_spec m (TokenRotated i) = m(i := map_option (\<lambda>x. x\<lparr>r_has_fire_token := True\<rparr>) (m i))"
| "routines_spec m (TokenRevoked i) = m(i := map_option (\<lambda>x. x\<lparr>r_has_fire_token := False\<rparr>) (m i))"
| "routines_spec m _ = m"

definition routines_abs :: "routines_state \<Rightarrow> jstr \<Rightarrow> routine option" where
  "routines_abs s = lookup r_id (items s)"

definition routines_inv :: "routines_state \<Rightarrow> bool" where
  "routines_inv s \<longleftrightarrow> distinct (map r_id (items s))"

text \<open>Replies are coherent: ids are unique, a created id is new, an update returns the routine it updated.\<close>

fun routines_ok :: "routines_state \<Rightarrow> routines_event \<Rightarrow> bool" where
  "routines_ok s (RoutinesReply l) = distinct (map r_id l)"
| "routines_ok s (Created r) = (r_id r \<notin> r_id ` set (items s))"
| "routines_ok s (Updated i r) = (r_id r = i)"
| "routines_ok s _ = True"

lemma distinct_if:
  assumes "\<And>x. key x = i \<Longrightarrow> key (f x) = i" and "distinct (map key xs)"
  shows "distinct (map key (map (\<lambda>x. if key x = i then f x else x) xs))"
proof -
  have "map key (map (\<lambda>x. if key x = i then f x else x) xs) = map key xs" using assms(1) by simp
  with assms(2) show ?thesis by metis
qed

lemma lookup_Nil: "lookup key [] = (\<lambda>i. None)"
  by (simp add: lookup_def fun_eq_iff)

lemma lookup_if: "(\<And>x. key x = i \<Longrightarrow> key (f x) = i) \<Longrightarrow>
   lookup key (map (\<lambda>x. if key x = i then f x else x) xs) = (lookup key xs)(i := map_option f (lookup key xs i))"
  by (induction xs) (auto simp: lookup_def fun_eq_iff)

interpretation routines: refinement_machine routines_step routines_ok routines_inv routines_spec routines_abs
proof
  fix s e
  assume inv: "routines_inv s" and ok: "routines_ok s e"
  show "routines_inv (routines_step s e)"
  proof (cases e)
    case (Updated i r)
    have "items (routines_step s e) = map (\<lambda>x. if r_id x = i then r else x) (items s)"
      by (simp add: Updated)
    then show ?thesis
      unfolding routines_inv_def
      using distinct_if [of r_id i "\<lambda>x. r" "items s"] inv ok by (simp only: routines_inv_def Updated routines_ok.simps)
  next
    case (TokenRotated i)
    have "items (routines_step s e) = map (\<lambda>x. if r_id x = i then x\<lparr>r_has_fire_token := True\<rparr> else x) (items s)"
      by (simp add: TokenRotated)
    then show ?thesis
      unfolding routines_inv_def
      using distinct_if [of r_id i "\<lambda>x. x\<lparr>r_has_fire_token := True\<rparr>" "items s"] inv
      by (simp add: routines_inv_def del: map_map)
  next
    case (TokenRevoked i)
    have "items (routines_step s e) = map (\<lambda>x. if r_id x = i then x\<lparr>r_has_fire_token := False\<rparr> else x) (items s)"
      by (simp add: TokenRevoked)
    then show ?thesis
      unfolding routines_inv_def
      using distinct_if [of r_id i "\<lambda>x. x\<lparr>r_has_fire_token := False\<rparr>" "items s"] inv
      by (simp add: routines_inv_def del: map_map)
  qed (use inv ok in \<open>simp_all add: routines_inv_def distinct_filter_map\<close>)
  show "routines_abs (routines_step s e) = routines_spec (routines_abs s) e"
    using ok by (cases e) (simp_all add: routines_abs_def lookup_added lookup_removed lookup_if lookup_Nil)
qed

text \<open>
  As long as the server's replies are coherent, the list of routines is the server's table of
  routines, whatever the order in which replies about different routines arrive.
\<close>

theorem routines_refine_spec:
  assumes "distinct (map r_id (items s))" and "ok_run routines_step routines_ok s es"
  shows "lookup r_id (items (foldl routines_step s es)) = foldl routines_spec (lookup r_id (items s)) es
    \<and> distinct (map r_id (items (foldl routines_step s es)))"
  using routines.run_refines [of s es] assms unfolding routines_abs_def routines_inv_def by blast

definition sample_routine :: routine where
  "sample_routine = \<lparr>r_id = [49], r_workspace_id = [], r_name = [], r_prompt = [], r_model = None,
     r_session_prefix = [], r_enabled = True, r_schedule_cron = None, r_schedule_tz = [],
     r_temporal_schedule_id = None, r_has_fire_token = False, r_created_by = None, r_created_at = [],
     r_updated_at = []\<rparr>"

theorem routines_refine_spec_witness:
  "lookup r_id (items (foldl routines_step routines_initial [Created sample_routine, TokenRotated [49]])) [49]
    = Some (sample_routine\<lparr>r_has_fire_token := True\<rparr>)"
proof -
  have "distinct (map r_id (items routines_initial))" by (simp add: routines_initial_def)
  moreover have "ok_run routines_step routines_ok routines_initial [Created sample_routine, TokenRotated [49]]"
    by (simp add: routines_initial_def)
  ultimately have "lookup r_id (items (foldl routines_step routines_initial [Created sample_routine, TokenRotated [49]]))
      = foldl routines_spec (lookup r_id (items routines_initial)) [Created sample_routine, TokenRotated [49]]"
    by (rule conjunct1 [OF routines_refine_spec])
  then show ?thesis by (simp add: routines_initial_def sample_routine_def)
qed

end
