(* ===== verification/ThemeStore.thy ===== *)
theory ThemeStore
  imports JsonPrint
begin

text \<open>
  The look of the client: the theme settings kept in the web storage
  (src/ui/web/src/stores/theme.ts), the style sheet made from a custom color
  (src/ui/web/src/lib/themeUtils.ts) and the class names of surfaces
  (src/ui/web/src/lib/surface-classes.ts).
\<close>

section \<open>Settings\<close>

record theme_state =
  theme :: jstr
  themeMode :: jstr
  customColor :: jsval
  loadingIndicator :: jstr

definition theme_names :: "jstr list" where
  "theme_names = [js ''harbor'', js ''sage'', js ''dune'', js ''lilac'', js ''blossom'', js ''ink'', js ''custom'']"

definition mode_names :: "jstr list" where
  "mode_names = [js ''light'', js ''dark'', js ''system'']"

definition spinner_profiles :: "jstr list" where
  "spinner_profiles = [js ''chat-loading'', js ''thinking'', js ''execute-tool'', js ''cobalt-breath'',
     js ''glitch-gold'', js ''digital-pulse'', js ''rebound'', js ''fluid-wave'', js ''mono-scanner'']"

text \<open>The stored text when it is one of the known names, otherwise the default.\<close>

definition one_of :: "jstr list \<Rightarrow> jstr option \<Rightarrow> jstr \<Rightarrow> jstr" where
  "one_of names stored fallback = (case stored of None \<Rightarrow> fallback
     | Some s \<Rightarrow> if s \<in> set names then s else fallback)"

type_synonym theme_storage = "(jstr \<times> jstr) list"

definition getInitialTheme :: "theme_storage \<Rightarrow> jstr" where
  "getInitialTheme st = one_of theme_names (map_of st (js ''theme'')) (js ''harbor'')"

definition getInitialThemeMode :: "theme_storage \<Rightarrow> jstr" where
  "getInitialThemeMode st = one_of mode_names (map_of st (js ''theme-mode'')) (js ''light'')"

definition default_color :: jsval where
  "default_color = JObj [(js ''h'', JNum 210), (js ''s'', JNum 90), (js ''l'', JNum 58)]"

text \<open>The stored color is whatever JSON value was stored.\<close>

definition getInitialCustomColor :: "theme_storage \<Rightarrow> jsval" where
  "getInitialCustomColor st = (case map_of st (js ''custom-accent-color'') of
     None \<Rightarrow> default_color
   | Some t \<Rightarrow> if t = [] then default_color
       else (case json_parse t of Some v \<Rightarrow> v | None \<Rightarrow> default_color))"

definition getInitialLoadingIndicator :: "theme_storage \<Rightarrow> jstr" where
  "getInitialLoadingIndicator st =
     one_of spinner_profiles (map_of st (js ''loading-indicator'')) (js ''glitch-gold'')"

definition theme_initial :: "theme_storage \<Rightarrow> theme_state" where
  "theme_initial st = \<lparr>theme = getInitialTheme st, themeMode = getInitialThemeMode st,
     customColor = getInitialCustomColor st, loadingIndicator = getInitialLoadingIndicator st\<rparr>"

datatype theme_event = SetTheme jstr | SetThemeMode jstr | SetCustomColor jsval | SetLoadingIndicator jstr

text \<open>\<open>setItem\<close> of \<open>undefined\<close> stores the text undefined.\<close>

fun theme_step :: "theme_state \<times> theme_storage \<Rightarrow> theme_event \<Rightarrow> theme_state \<times> theme_storage" where
  "theme_step (s, st) (SetTheme t) = (s\<lparr>theme := t\<rparr>, obj_put st (js ''theme'') t)"
| "theme_step (s, st) (SetThemeMode m) = (s\<lparr>themeMode := m\<rparr>, obj_put st (js ''theme-mode'') m)"
| "theme_step (s, st) (SetCustomColor c) = (s\<lparr>customColor := c\<rparr>, obj_put st (js ''custom-accent-color'')
     (case json_stringify 0 c of Some t \<Rightarrow> t | None \<Rightarrow> js ''undefined''))"
| "theme_step (s, st) (SetLoadingIndicator i) = (s\<lparr>loadingIndicator := i\<rparr>, obj_put st (js ''loading-indicator'') i)"

section \<open>Styles of a custom color\<close>

record custom_color =
  cc_h :: jnum
  cc_s :: jnum
  cc_l :: jnum

definition hsl :: "jnum \<Rightarrow> jnum \<Rightarrow> jnum \<Rightarrow> jstr" where
  "hsl h s l = js ''hsl('' @ num_str h @ js '', '' @ num_str s @ js ''%, '' @ num_str l @ js ''%)''"

type_synonym styles = "(jstr \<times> jstr) list"

definition grey_dark_styles :: styles where
  "grey_dark_styles =
    [(js ''--primary'', js ''#f4f4f5''),
      (js ''--primary-foreground'', js ''#08090a''),
      (js ''--sidebar'', js ''#09090b''),
      (js ''--sidebar-foreground'', js ''#a1a1aa''),
      (js ''--sidebar-border'', js ''#27272a''),
      (js ''--sidebar-accent'', js ''#18181b''),
      (js ''--sidebar-accent-foreground'', js ''#ffffff''),
      (js ''--background'', js ''#09090b''),
      (js ''--background-secondary'', js ''#0c0c0e''),
      (js ''--card'', js ''#121214''),
      (js ''--popover'', js ''#121214''),
      (js ''--border'', js ''#27272a''),
      (js ''--accent'', js ''#1d1d20''),
      (js ''--input'', js ''#18181b''),
      (js ''--secondary'', js ''#18181b''),
      (js ''--muted'', js ''#121214'')]"

definition grey_light_styles :: styles where
  "grey_light_styles =
    [(js ''--primary'', js ''#18181b''),
      (js ''--primary-foreground'', js ''#ffffff''),
      (js ''--sidebar'', js ''#f4f4f5''),
      (js ''--sidebar-foreground'', js ''#27272a''),
      (js ''--sidebar-border'', js ''#e4e4e7''),
      (js ''--sidebar-accent'', js ''#e4e4e7''),
      (js ''--sidebar-accent-foreground'', js ''#18181b''),
      (js ''--background'', js ''#ffffff''),
      (js ''--background-secondary'', js ''#fafafa''),
      (js ''--card'', js ''#ffffff''),
      (js ''--border'', js ''#e4e4e7''),
      (js ''--accent'', js ''#f4f4f5''),
      (js ''--input'', js ''#fafafa''),
      (js ''--secondary'', js ''#fafafa''),
      (js ''--muted'', js ''#fafafa'')]"

definition dark_lightness :: "jnum \<Rightarrow> jnum" where
  "dark_lightness l = n_max 45 (n_min 75 l)"

definition light_lightness :: "jnum \<Rightarrow> jnum" where
  "light_lightness l = n_max 35 (n_min 65 l)"

definition dark_styles :: "jnum \<Rightarrow> jnum \<Rightarrow> jnum \<Rightarrow> styles" where
  "dark_styles h s l =
     (let lClamped = dark_lightness l;
          primFg = (if lClamped > 65 then js ''#050505'' else js ''#ffffff'');
          sidebarS = n_min s 12;
          bgS = n_min s 8;
          borderS = n_min s 12
      in [(js ''--primary'', hsl h (n_min (s + 15) 100) lClamped),
          (js ''--primary-foreground'', primFg),
          (js ''--sidebar'', hsl h sidebarS 8),
          (js ''--sidebar-foreground'', hsl h (n_min s 20) 72),
          (js ''--sidebar-border'', hsl h (n_min s 18) 14),
          (js ''--sidebar-accent'', hsl h (n_min s 18) 12),
          (js ''--sidebar-accent-foreground'', js ''#ffffff''),
          (js ''--background'', hsl h bgS 5),
          (js ''--background-secondary'', hsl h (n_min s 10) 9),
          (js ''--card'', hsl h (n_min s 10) 11),
          (js ''--popover'', hsl h (n_min s 10) 11),
          (js ''--border'', hsl h borderS 15),
          (js ''--accent'', hsl h (n_min s 15) 18),
          (js ''--input'', hsl h (n_min s 12) 12),
          (js ''--secondary'', hsl h (n_min s 12) 12),
          (js ''--muted'', hsl h (n_min s 10) 11)])"

definition light_styles :: "jnum \<Rightarrow> jnum \<Rightarrow> jnum \<Rightarrow> styles" where
  "light_styles h s l =
     (let lClamped = light_lightness l;
          primFg = (if lClamped > 70 then js ''#000000'' else js ''#ffffff'');
          sidebarS = n_min s 20;
          bgS = n_min s 8;
          borderS = n_min s 15
      in [(js ''--primary'', hsl h s lClamped),
          (js ''--primary-foreground'', primFg),
          (js ''--sidebar'', hsl h sidebarS 96),
          (js ''--sidebar-foreground'', hsl h (n_min s 40) 22),
          (js ''--sidebar-border'', hsl h (n_min s 25) 90),
          (js ''--sidebar-accent'', hsl h (n_min s 30) 92),
          (js ''--sidebar-accent-foreground'', hsl h (n_min s 50) 12),
          (js ''--background'', hsl h bgS 99),
          (js ''--background-secondary'', hsl h (n_min s 12) 97),
          (js ''--card'', js ''#ffffff''),
          (js ''--border'', hsl h borderS 92),
          (js ''--accent'', hsl h (n_min s 20) 94),
          (js ''--input'', hsl h (n_min s 12) 97),
          (js ''--secondary'', hsl h (n_min s 12) 97),
          (js ''--muted'', hsl h (n_min s 12) 97)])"

definition getCustomThemeStyles :: "custom_color \<Rightarrow> bool \<Rightarrow> styles" where
  "getCustomThemeStyles color isDark =
     (if n_eq (cc_s color) 0 then (if isDark then grey_dark_styles else grey_light_styles)
      else if isDark then dark_styles (cc_h color) (cc_s color) (cc_l color)
      else light_styles (cc_h color) (cc_s color) (cc_l color))"

section \<open>Surfaces\<close>

definition SURFACE_BG :: "nat \<Rightarrow> jstr option" where
  "SURFACE_BG n = (if 1 \<le> n \<and> n \<le> 8 then Some (js ''bg-surface-'' @ nat_str n) else None)"

definition SURFACE_SHADOW :: "nat \<Rightarrow> jstr option" where
  "SURFACE_SHADOW n = (if 1 \<le> n \<and> n \<le> 8 then Some (js ''shadow-surface-'' @ nat_str n) else None)"

text \<open>A property read by a number: the table has the keys 1 to 8, a missing one reads undefined.\<close>

definition surface_name :: "(nat \<Rightarrow> jstr option) \<Rightarrow> jnum \<Rightarrow> jstr" where
  "surface_name table n = (case n of
     Fin q \<Rightarrow> if q = of_int \<lfloor>q\<rfloor> \<and> 0 \<le> q
       then (case table (nat \<lfloor>q\<rfloor>) of Some c \<Rightarrow> c | None \<Rightarrow> js ''undefined'') else js ''undefined''
   | _ \<Rightarrow> js ''undefined'')"

definition surfaceClasses :: "jnum \<Rightarrow> jnum option \<Rightarrow> jstr" where
  "surfaceClasses bgLevel shadowLevel =
     (let bg = n_max 1 (n_min 8 bgLevel);
          shadow = n_max 1 (n_min 8 (case shadowLevel of None \<Rightarrow> bgLevel | Some n \<Rightarrow> n))
      in surface_name SURFACE_BG bg @ [32] @ surface_name SURFACE_SHADOW shadow)"

section \<open>Bounds\<close>

lemma lightness_bounds:
  assumes "l \<noteq> NaN"
  shows "\<exists>q. dark_lightness l = Fin q \<and> 45 \<le> q \<and> q \<le> 75"
    and "\<exists>q. light_lightness l = Fin q \<and> 35 \<le> q \<and> q \<le> 65"
  using assms by (cases l; simp add: dark_lightness_def light_lightness_def numeral_Fin n_max_def n_min_def)+

text \<open>
  The primary color made from a custom color has the lightness asked for, moved into 45 to 75 in
  dark mode and into 35 to 65 in light mode; so in light mode the text on it is always white, and
  the black text the code provides for light colors is never chosen.
\<close>

theorem custom_color_lightness:
  assumes "\<not> n_eq (cc_s c) 0" and "cc_l c \<noteq> NaN"
  shows "(\<exists>q. map_of (getCustomThemeStyles c True) (js ''--primary'')
        = Some (hsl (cc_h c) (n_min (cc_s c + 15) 100) (Fin q)) \<and> 45 \<le> q \<and> q \<le> 75) \<and>
    (\<exists>q. map_of (getCustomThemeStyles c False) (js ''--primary'')
        = Some (hsl (cc_h c) (cc_s c) (Fin q)) \<and> 35 \<le> q \<and> q \<le> 65) \<and>
    map_of (getCustomThemeStyles c False) (js ''--primary-foreground'') = Some (js ''#ffffff'')"
proof -
  obtain d where d: "dark_lightness (cc_l c) = Fin d" "45 \<le> d" "d \<le> 75"
    using lightness_bounds(1) [OF assms(2)] by blast
  obtain q where q: "light_lightness (cc_l c) = Fin q" "35 \<le> q" "q \<le> 65"
    using lightness_bounds(2) [OF assms(2)] by blast
  have "map_of (getCustomThemeStyles c True) (js ''--primary'')
        = Some (hsl (cc_h c) (n_min (cc_s c + 15) 100) (Fin d))"
    using assms(1) d by (simp add: getCustomThemeStyles_def dark_styles_def Let_def)
  moreover have "map_of (getCustomThemeStyles c False) (js ''--primary'') = Some (hsl (cc_h c) (cc_s c) (Fin q))"
    using assms(1) q by (simp add: getCustomThemeStyles_def light_styles_def Let_def)
  moreover have "map_of (getCustomThemeStyles c False) (js ''--primary-foreground'') = Some (js ''#ffffff'')"
    using assms(1) q by (simp add: getCustomThemeStyles_def light_styles_def Let_def numeral_Fin)
  ultimately show ?thesis using d q by blast
qed

theorem custom_color_lightness_witness:
  "map_of (getCustomThemeStyles \<lparr>cc_h = 60, cc_s = 100, cc_l = 95\<rparr> False) (js ''--primary-foreground'')
    = Some (js ''#ffffff'')"
proof -
  have "\<not> n_eq (cc_s \<lparr>cc_h = 60, cc_s = 100, cc_l = 95\<rparr>) 0" by (simp add: n_eq_def jnum_literals)
  moreover have "cc_l \<lparr>cc_h = 60, cc_s = 100, cc_l = 95\<rparr> \<noteq> NaN" by (simp add: jnum_literals)
  ultimately show ?thesis using custom_color_lightness by blast
qed

end
