(* ===== verification/ChartPhase.thy ===== *)
theory ChartPhase
  imports JsValue
begin

text \<open>
  The life cycle of a chart between loading and ready,
  src/ui/web/src/components/charts/chart-phase.ts and use-chart-phase-orchestrator.ts.  The hook's
  effects are run as React runs them: a render commits the changed properties and states, the
  effects whose dependencies changed run in their order and see the states of that render, and the
  states they set are rendered next, until nothing changes.
\<close>

section \<open>Phases\<close>

datatype chart_status = StLoading | StReady

datatype chart_phase = PhLoading | PhExiting | PhGridTweenReady | PhRevealing | PhReady
  | PhExitingReady | PhGridTweenLoading | PhRevealingLoading

definition resolveRestingChartPhase :: "chart_status \<Rightarrow> chart_phase" where
  "resolveRestingChartPhase st = (if st = StLoading then PhLoading else PhReady)"

definition isChartInteractionPhase :: "chart_phase \<Rightarrow> bool" where
  "isChartInteractionPhase ph \<longleftrightarrow> ph = PhReady"

section \<open>The hook\<close>

type_synonym chart_data = "jsobj list"

record chart_props =
  cp_status :: chart_status
  cp_target :: chart_data
  cp_skeleton :: chart_data
  cp_anim :: jnum
  cp_tween :: jnum
  cp_signature :: jstr
  cp_skip :: bool

text \<open>The states and references of the hook, whether the reveal timer runs, and the properties last committed.\<close>

record orchestrator =
  o_phase :: chart_phase
  o_plot :: chart_data
  o_reveal :: nat
  o_conceal :: nat
  o_loaded :: bool
  o_prev :: chart_status
  o_timer :: bool
  o_props :: chart_props

subsection \<open>Effects\<close>

definition status_effect :: "chart_props \<Rightarrow> orchestrator \<Rightarrow> orchestrator" where
  "status_effect p s =
     (if o_prev s = cp_status p then s
      else
        let s1 = s\<lparr>o_prev := cp_status p, o_loaded := False\<rparr>
        in if cp_status p = StReady then
             (if cp_anim p \<le> 0 then
                (if cp_tween p \<le> 0 then s1\<lparr>o_plot := cp_target p, o_phase := PhRevealing\<rparr>
                 else s1\<lparr>o_phase := PhGridTweenReady\<rparr>)
              else s1\<lparr>o_phase := PhExiting\<rparr>)
           else
             (if cp_anim p \<le> 0 then
                (if cp_tween p \<le> 0 then s1\<lparr>o_plot := cp_skeleton p, o_phase := PhLoading\<rparr>
                 else s1\<lparr>o_phase := PhGridTweenLoading\<rparr>)
              else s1\<lparr>o_conceal := o_conceal s + 1, o_phase := PhExitingReady\<rparr>))"

text \<open>\<open>shown\<close> is the phase of the render.\<close>

definition enter_effect :: "chart_phase \<Rightarrow> chart_props \<Rightarrow> orchestrator \<Rightarrow> orchestrator" where
  "enter_effect shown p s =
     (if cp_skip p \<or> cp_status p \<noteq> StReady \<or> shown \<noteq> PhReady then s
      else s\<lparr>o_phase := PhRevealing, o_loaded := False\<rparr>)"

definition plot_effect :: "chart_phase \<Rightarrow> chart_props \<Rightarrow> orchestrator \<Rightarrow> orchestrator" where
  "plot_effect shown p s = (case shown of
     PhLoading \<Rightarrow> if cp_status p = StLoading then s\<lparr>o_plot := cp_skeleton p\<rparr> else s
   | PhExiting \<Rightarrow> s\<lparr>o_plot := cp_skeleton p\<rparr>
   | PhRevealingLoading \<Rightarrow> s
   | _ \<Rightarrow> s\<lparr>o_plot := cp_target p\<rparr>)"

definition reveal_effect :: "chart_phase \<Rightarrow> chart_props \<Rightarrow> orchestrator \<Rightarrow> orchestrator" where
  "reveal_effect shown p s =
     (if shown \<noteq> PhRevealing then s
      else
        let s1 = s\<lparr>o_reveal := o_reveal s + 1\<rparr>
        in if cp_anim p \<le> 0 then s1\<lparr>o_phase := PhReady, o_loaded := True\<rparr>
           else s1\<lparr>o_timer := True\<rparr>)"

text \<open>The cleanup of the reveal effect runs before the effects of a render that changes its dependencies.\<close>

definition run_effects :: "bool \<Rightarrow> bool \<Rightarrow> bool \<Rightarrow> bool \<Rightarrow> chart_props \<Rightarrow> orchestrator \<Rightarrow> orchestrator" where
  "run_effects c1 c2 c3 c4 p s =
     (let shown = o_phase s;
          s0 = (if c4 then s\<lparr>o_timer := False\<rparr> else s);
          s1 = (if c1 then status_effect p s0 else s0);
          s2 = (if c2 then enter_effect shown p s1 else s1);
          s3 = (if c3 then plot_effect shown p s2 else s2)
      in if c4 then reveal_effect shown p s3 else s3)"

text \<open>Further renders, as long as the effects have changed the phase; three are enough (\<open>settle_enough\<close>).\<close>

fun settle :: "nat \<Rightarrow> chart_phase \<Rightarrow> chart_props \<Rightarrow> orchestrator \<Rightarrow> orchestrator" where
  "settle 0 shown p s = s"
| "settle (Suc n) shown p s =
     (if o_phase s = shown then s
      else settle n (o_phase s) p (run_effects False False True True p s))"

text \<open>A render with properties \<open>p\<close>, when the render before it showed the phase \<open>shown\<close>.\<close>

definition render :: "chart_phase \<Rightarrow> chart_props \<Rightarrow> orchestrator \<Rightarrow> orchestrator" where
  "render shown p s =
     (let q = o_props s;
          ph = (shown \<noteq> o_phase s);
          st = (cp_status p \<noteq> cp_status q);
          an = (cp_anim p \<noteq> cp_anim q);
          da = (cp_skeleton p \<noteq> cp_skeleton q \<or> cp_target p \<noteq> cp_target q)
      in settle 3 (o_phase s) p
           (run_effects (an \<or> st \<or> da \<or> cp_tween p \<noteq> cp_tween q)
              (an \<or> st \<or> cp_signature p \<noteq> cp_signature q \<or> cp_skip p \<noteq> cp_skip q)
              (ph \<or> st \<or> da) (an \<or> ph) p (s\<lparr>o_props := p\<rparr>)))"

text \<open>The first render runs every effect.\<close>

definition mount :: "chart_props \<Rightarrow> orchestrator" where
  "mount p = (let ph = resolveRestingChartPhase (cp_status p)
     in settle 3 ph p (run_effects True True True True p
          \<lparr>o_phase = ph, o_plot = (if cp_status p = StLoading then cp_skeleton p else cp_target p),
           o_reveal = 0, o_conceal = 0, o_loaded = (cp_status p = StReady), o_prev = cp_status p,
           o_timer = False, o_props = p\<rparr>))"

subsection \<open>Callbacks\<close>

datatype chart_callback = PulseComplete | ConcealComplete | TweenComplete | TimerFires

text \<open>The callbacks compare the phase of the last render.\<close>

definition run_callback :: "chart_phase \<Rightarrow> orchestrator \<Rightarrow> chart_callback \<Rightarrow> orchestrator" where
  "run_callback shown s cb = (case cb of
     PulseComplete \<Rightarrow> if shown \<noteq> PhExiting then s else s\<lparr>o_phase := PhGridTweenReady\<rparr>
   | ConcealComplete \<Rightarrow> if shown \<noteq> PhExitingReady then s else s\<lparr>o_phase := PhGridTweenLoading\<rparr>
   | TweenComplete \<Rightarrow>
       if shown = PhGridTweenLoading then s\<lparr>o_phase := PhLoading\<rparr>
       else if shown = PhGridTweenReady then s\<lparr>o_phase := PhRevealing\<rparr> else s
   | TimerFires \<Rightarrow> if o_timer s then s\<lparr>o_timer := False, o_phase := PhReady, o_loaded := True\<rparr> else s)"

text \<open>One batch: callbacks, then a render with the properties of the parent.\<close>

definition orchestrate :: "orchestrator \<Rightarrow> chart_callback list \<times> chart_props \<Rightarrow> orchestrator" where
  "orchestrate s b = render (o_phase s) (snd b) (foldl (run_callback (o_phase s)) s (fst b))"

section \<open>The phases follow the status\<close>

text \<open>A state between batches: every field is determined by the phase and the committed properties, up to the two counters.\<close>

fun status_of :: "chart_phase \<Rightarrow> chart_status option" where
  "status_of PhLoading = Some StLoading"
| "status_of PhExitingReady = Some StLoading"
| "status_of PhGridTweenLoading = Some StLoading"
| "status_of PhExiting = Some StReady"
| "status_of PhGridTweenReady = Some StReady"
| "status_of PhRevealing = Some StReady"
| "status_of PhReady = Some StReady"
| "status_of PhRevealingLoading = None"

definition coherent :: "orchestrator \<Rightarrow> bool" where
  "coherent s \<longleftrightarrow>
     o_prev s = cp_status (o_props s) \<and>
     status_of (o_phase s) = Some (cp_status (o_props s)) \<and>
     o_loaded s = isChartInteractionPhase (o_phase s) \<and>
     o_timer s = (o_phase s = PhRevealing) \<and>
     (o_phase s = PhRevealing \<longrightarrow> \<not> cp_anim (o_props s) \<le> 0) \<and>
     o_plot s = (if o_phase s \<in> {PhLoading, PhExiting} then cp_skeleton (o_props s) else cp_target (o_props s))"

lemmas coherent_defs = coherent_def isChartInteractionPhase_def
lemmas effect_defs = run_effects_def status_effect_def enter_effect_def plot_effect_def reveal_effect_def

text \<open>A batch is calm unless it drops the animation and changes the status while the reveal is being shown.\<close>

definition calm :: "orchestrator \<Rightarrow> chart_callback list \<times> chart_props \<Rightarrow> bool" where
  "calm s b \<longleftrightarrow> (cp_anim (snd b) \<le> 0 \<longrightarrow> cp_status (snd b) \<noteq> cp_status (o_props s) \<longrightarrow>
     o_phase (foldl (run_callback (o_phase s)) s (fst b)) \<noteq> PhRevealing)"

subsection \<open>Settling\<close>

text \<open>What a pass needs to end coherent: the phase is about to be rendered, the rest already agrees with it.\<close>

definition pending :: "orchestrator \<Rightarrow> bool" where
  "pending s \<longleftrightarrow>
     o_prev s = cp_status (o_props s) \<and>
     status_of (o_phase s) = Some (cp_status (o_props s)) \<and>
     o_loaded s = isChartInteractionPhase (o_phase s)"

lemma run_effects_props [simp]: "o_props (run_effects c1 c2 c3 c4 p s) = o_props s"
  by (simp add: effect_defs Let_def split: chart_phase.split)

lemma settle_props [simp]: "o_props (settle n sh p s) = o_props s"
  by (induction n sh p s rule: settle.induct) simp_all

lemma pass_eq: "run_effects False False True True p s =
  reveal_effect (o_phase s) p (plot_effect (o_phase s) p (s\<lparr>o_timer := False\<rparr>))"
  by (simp add: run_effects_def Let_def)

lemma no_effects [simp]: "run_effects False False False False p s = s"
  by (simp add: run_effects_def Let_def)

lemma plot_effect_eq: "plot_effect sh p s = s\<lparr>o_plot :=
  (if sh = PhExiting \<or> sh = PhLoading \<and> cp_status p = StLoading then cp_skeleton p
   else if sh = PhLoading \<or> sh = PhRevealingLoading then o_plot s else cp_target p)\<rparr>"
  by (cases sh) (simp_all add: plot_effect_def)

lemma pass_pending:
  assumes "pending s" and "o_props s = p"
  shows "pending (run_effects False False True True p s)"
    and "o_phase (run_effects False False True True p s) =
      (if o_phase s = PhRevealing \<and> cp_anim p \<le> 0 then PhReady else o_phase s)"
    and "o_phase (run_effects False False True True p s) = o_phase s \<Longrightarrow>
      coherent (run_effects False False True True p s)"
proof -
  show "pending (run_effects False False True True p s)"
    using assms unfolding pass_eq plot_effect_eq
    by (cases "o_phase s") (simp_all add: reveal_effect_def pending_def coherent_defs Let_def)
  show "o_phase (run_effects False False True True p s) =
      (if o_phase s = PhRevealing \<and> cp_anim p \<le> 0 then PhReady else o_phase s)"
    unfolding pass_eq plot_effect_eq by (simp add: reveal_effect_def Let_def)
  show "coherent (run_effects False False True True p s)"
    if "o_phase (run_effects False False True True p s) = o_phase s"
    using assms that unfolding pass_eq plot_effect_eq
    by (cases "o_phase s") (simp_all add: reveal_effect_def pending_def coherent_defs Let_def split: if_splits)
qed

lemma settle_stable [simp]: "settle n (o_phase s) p s = s"
  by (cases n) simp_all

lemma settle_coherent:
  assumes s: "pending s" "o_props s = p" and "o_phase s = sh \<Longrightarrow> coherent s"
  shows "coherent (settle (Suc (Suc n)) sh p s)"
proof (cases "o_phase s = sh")
  case False
  define t where "t = run_effects False False True True p s"
  define u where "u = run_effects False False True True p t"
  have t: "pending t" "o_props t = p" and tu: "o_phase t = o_phase s \<Longrightarrow> coherent t"
    using pass_pending [OF s] s(2) by (simp_all add: t_def)
  have step: "settle (Suc (Suc n)) sh p s = settle (Suc n) (o_phase s) p t"
    using False by (simp add: t_def)
  show ?thesis
  proof (cases "o_phase t = o_phase s")
    case True
    then show ?thesis using settle_stable [of "Suc n" t p] tu step by simp
  next
    case ready: False
    then have "o_phase t = PhReady"
      using pass_pending(2) [OF s] by (auto simp: t_def split: if_splits)
    then have same: "o_phase u = o_phase t"
      using pass_pending(2) [OF t] by (simp add: u_def)
    then have "coherent u"
      using pass_pending(3) [OF t] by (simp add: u_def)
    moreover have "settle (Suc n) (o_phase s) p t = settle n (o_phase u) p u"
      using ready same by (simp add: u_def)
    ultimately show ?thesis
      using step by simp
  qed
qed (use assms in simp)

lemma mount_coherent: "coherent (mount p)"
proof -
  define s where "s = run_effects True True True True p
    \<lparr>o_phase = resolveRestingChartPhase (cp_status p),
     o_plot = (if cp_status p = StLoading then cp_skeleton p else cp_target p),
     o_reveal = 0, o_conceal = 0, o_loaded = (cp_status p = StReady), o_prev = cp_status p,
     o_timer = False, o_props = p\<rparr>"
  have s_eq: "s = (if cp_status p = StReady
      then reveal_effect PhReady p (plot_effect PhReady p (enter_effect PhReady p
        \<lparr>o_phase = PhReady, o_plot = cp_target p, o_reveal = 0, o_conceal = 0, o_loaded = True,
          o_prev = cp_status p, o_timer = False, o_props = p\<rparr>))
      else plot_effect PhLoading p \<lparr>o_phase = PhLoading, o_plot = cp_skeleton p, o_reveal = 0, o_conceal = 0,
          o_loaded = False, o_prev = cp_status p, o_timer = False, o_props = p\<rparr>)"
    by (cases "cp_status p")
      (simp_all add: s_def run_effects_def status_effect_def enter_effect_def reveal_effect_def
        resolveRestingChartPhase_def)
  have "pending s" and "o_props s = p"
    and "o_phase s = resolveRestingChartPhase (cp_status p) \<Longrightarrow> coherent s"
    unfolding s_eq plot_effect_eq
    by (cases "cp_status p"; simp add: enter_effect_def reveal_effect_def pending_def coherent_defs
        resolveRestingChartPhase_def split: if_splits)+
  from settle_coherent [OF this, where n = 1]
  show ?thesis by (simp add: mount_def Let_def s_def numeral_3_eq_3)
qed

subsection \<open>Batches\<close>

text \<open>The callbacks of a batch leave one of the phases of the status, and what hangs on it agrees.\<close>

lemma callbacks_coherent:
  fixes cbs :: "chart_callback list"
  assumes "coherent s"
  defines "t \<equiv> foldl (run_callback (o_phase s)) s cbs"
  shows "o_props t = o_props s \<and> o_prev t = o_prev s \<and> o_plot t = o_plot s \<and>
    status_of (o_phase t) = Some (cp_status (o_props s)) \<and>
    o_loaded t = (o_phase t = PhReady) \<and>
    (o_phase t \<noteq> o_phase s \<or> t = s)"
proof -
  define inv where "inv t \<longleftrightarrow> o_props t = o_props s \<and> o_prev t = o_prev s \<and> o_plot t = o_plot s \<and>
    status_of (o_phase t) = Some (cp_status (o_props s)) \<and>
    o_loaded t = (o_phase t = PhReady) \<and> (o_phase t \<noteq> o_phase s \<or> t = s) \<and>
    (o_phase t = PhReady \<longrightarrow> o_phase s = PhReady \<or> o_phase s = PhRevealing) \<and> (o_timer t \<longrightarrow> o_timer s)" for t
  have "inv (run_callback (o_phase s) t c)" if "inv t" for t c
    using that assms(1)
    by (cases c; cases "o_phase s"; cases "cp_status (o_props s)")
      (auto simp: inv_def run_callback_def coherent_defs)
  then have run: "inv (foldl (run_callback (o_phase s)) t cbs)" if "inv t" for t
    using that by (induction cbs arbitrary: t) auto
  have "inv s" using assms(1) by (simp add: inv_def coherent_defs)
  from run [OF this] show ?thesis by (simp add: inv_def t_def)
qed

lemma status_cases: "cp_status p = StLoading \<or> cp_status p = StReady"
  by (cases "cp_status p") simp_all

text \<open>The phase a change of the status starts with.\<close>

definition start_phase :: "chart_props \<Rightarrow> chart_phase" where
  "start_phase p = (if cp_status p = StReady
     then if cp_anim p \<le> 0 then if cp_tween p \<le> 0 then PhRevealing else PhGridTweenReady else PhExiting
     else if cp_anim p \<le> 0 then if cp_tween p \<le> 0 then PhLoading else PhGridTweenLoading else PhExitingReady)"

lemma start_phase: "status_of (start_phase p) = Some (cp_status p) \<and> start_phase p \<noteq> PhReady"
  using status_cases [of p] by (auto simp: start_phase_def)

lemma status_effect_start:
  "o_prev s \<noteq> cp_status p \<Longrightarrow> status_effect p s = s\<lparr>o_prev := cp_status p, o_loaded := False,
     o_plot := (if cp_anim p \<le> 0 \<and> cp_tween p \<le> 0
       then if cp_status p = StReady then cp_target p else cp_skeleton p else o_plot s),
     o_conceal := (if cp_status p \<noteq> StReady \<and> \<not> cp_anim p \<le> 0 then o_conceal s + 1 else o_conceal s),
     o_phase := start_phase p\<rparr>"
  by (simp add: status_effect_def start_phase_def Let_def)

lemma render_pending:
  fixes c1 c2 :: bool
  assumes "coherent s" and "calm s (cbs, p)"
  defines "t \<equiv> foldl (run_callback (o_phase s)) s cbs" and "q \<equiv> o_props s"
  defines "c4 \<equiv> cp_anim p \<noteq> cp_anim q \<or> o_phase s \<noteq> o_phase t"
    and "c3 \<equiv> o_phase s \<noteq> o_phase t \<or> cp_status p \<noteq> cp_status q \<or>
      cp_skeleton p \<noteq> cp_skeleton q \<or> cp_target p \<noteq> cp_target q"
  assumes c1: "cp_status p \<noteq> cp_status q \<longrightarrow> c1"
  defines "u \<equiv> run_effects c1 c2 c3 c4 p (t\<lparr>o_props := p\<rparr>)"
  shows "pending u \<and> (o_phase u = o_phase t \<longrightarrow> coherent u)"
proof (cases "cp_status p = cp_status q")
  case same: True
  show ?thesis
    using callbacks_coherent [OF assms(1), of cbs, folded t_def] assms(1) same status_cases [of q]
    apply (cases "o_phase t = o_phase s")
    subgoal by (cases "o_phase s"; elim disjE) (auto simp: u_def q_def c3_def c4_def effect_defs pending_def coherent_defs Let_def)
    subgoal by (cases "o_phase t"; elim disjE) (auto simp: u_def q_def c3_def c4_def effect_defs pending_def coherent_defs Let_def)
    done
next
  case changed: False
  have t: "o_prev t = cp_status q" "status_of (o_phase t) = Some (cp_status q)"
    using callbacks_coherent [OF assms(1), of cbs, folded t_def] assms(1) by (simp_all add: q_def coherent_def)
  have "cp_anim p \<le> 0 \<Longrightarrow> o_phase t \<noteq> PhRevealing"
    using assms(2) changed by (simp add: calm_def q_def t_def)
  moreover have "\<not> (cp_status p = StReady \<and> o_phase t = PhReady)"
    using changed t(2) by auto
  ultimately have "o_props u = p \<and> o_prev u = cp_status p \<and> \<not> o_loaded u \<and> o_phase u = start_phase p"
    using changed t(1) c1
    by (auto simp: u_def c3_def run_effects_def Let_def status_effect_start enter_effect_def
        plot_effect_eq reveal_effect_def)
  then show ?thesis
    using changed t(2) start_phase [of p] by (auto simp: pending_def isChartInteractionPhase_def)
qed

lemma orchestrate_props [simp]: "o_props (orchestrate s b) = snd b"
  by (simp add: orchestrate_def render_def Let_def)

lemma orchestrate_coherent:
  assumes "coherent s" and "calm s b"
  shows "coherent (orchestrate s b)"
proof -
  obtain cbs p where b: "b = (cbs, p)" by (cases b)
  define t where "t = foldl (run_callback (o_phase s)) s cbs"
  let ?q = "o_props t"
  define u where "u = run_effects
    (cp_anim p \<noteq> cp_anim ?q \<or> cp_status p \<noteq> cp_status ?q \<or>
       (cp_skeleton p \<noteq> cp_skeleton ?q \<or> cp_target p \<noteq> cp_target ?q) \<or> cp_tween p \<noteq> cp_tween ?q)
    (cp_anim p \<noteq> cp_anim ?q \<or> cp_status p \<noteq> cp_status ?q \<or> cp_signature p \<noteq> cp_signature ?q \<or> cp_skip p \<noteq> cp_skip ?q)
    (o_phase s \<noteq> o_phase t \<or> cp_status p \<noteq> cp_status ?q \<or> cp_skeleton p \<noteq> cp_skeleton ?q \<or> cp_target p \<noteq> cp_target ?q)
    (cp_anim p \<noteq> cp_anim ?q \<or> o_phase s \<noteq> o_phase t) p (t\<lparr>o_props := p\<rparr>)"
  have q: "?q = o_props s"
    using callbacks_coherent [OF assms(1), of cbs] by (simp add: t_def)
  have "pending u \<and> (o_phase u = o_phase t \<longrightarrow> coherent u)"
    unfolding u_def q unfolding t_def
    by (rule render_pending) (use assms in \<open>simp_all add: b\<close>)
  then have "coherent (settle (Suc (Suc 1)) (o_phase t) p u)"
    by (intro settle_coherent) (simp_all add: u_def)
  then show ?thesis
    unfolding b orchestrate_def render_def Let_def fst_conv snd_conv t_def [symmetric]
      u_def [symmetric] numeral_3_eq_3 One_nat_def .
qed

interpretation phases: guarded_machine orchestrate calm coherent
  by unfold_locales (rule orchestrate_coherent)

subsection \<open>The states the chart passes through\<close>

text \<open>
  C16. However a mounted chart is driven by calm batches of callbacks, timer events and new
  properties - a batch is not calm when it changes the status, comes without animation and its
  callbacks leave the chart in the revealing phase - its phase belongs to the status it was last
  given, \<open>isLoaded\<close> holds exactly in the interactive phase, the reveal timer runs exactly while the
  chart is revealing, and the plotted data is the skeleton in the two phases that show it and the
  target otherwise.  Lemma \<open>chart_ready_while_loading\<close> shows what a batch that is not calm can do.
\<close>

theorem chart_phase_coherent:
  assumes "ok_run orchestrate calm (mount p) bs"
  defines "s \<equiv> foldl orchestrate (mount p) bs"
  shows "status_of (o_phase s) = Some (cp_status (o_props s)) \<and>
    o_loaded s = isChartInteractionPhase (o_phase s) \<and>
    o_timer s = (o_phase s = PhRevealing) \<and>
    o_plot s = (if o_phase s \<in> {PhLoading, PhExiting} then cp_skeleton (o_props s) else cp_target (o_props s))"
  using phases.run_guarded [OF mount_coherent assms(1)]
  by (simp add: s_def coherent_def)

definition sample_lifecycle :: "jnum \<Rightarrow> chart_status \<Rightarrow> chart_props" where
  "sample_lifecycle anim st = \<lparr>cp_status = st, cp_target = [[(js ''y'', JNum 1)]], cp_skeleton = [],
     cp_anim = anim, cp_tween = 500, cp_signature = [], cp_skip = False\<rparr>"

lemma sample_lifecycle_simps [simp]:
  "cp_status (sample_lifecycle a st) = st" "cp_target (sample_lifecycle a st) = [[(js ''y'', JNum 1)]]"
  "cp_skeleton (sample_lifecycle a st) = []" "cp_anim (sample_lifecycle a st) = a" "cp_tween (sample_lifecycle a st) = 500"
  "cp_signature (sample_lifecycle a st) = []" "cp_skip (sample_lifecycle a st) = False"
  by (simp_all only: sample_lifecycle_def chart_props.simps)

lemma chart_phase_coherent_witness:
  defines "s \<equiv> orchestrate (mount (sample_lifecycle 900 StReady)) ([], sample_lifecycle 900 StLoading)"
  shows "o_loaded s = isChartInteractionPhase (o_phase s) \<and> status_of (o_phase s) = Some StLoading"
proof -
  have "ok_run orchestrate calm (mount (sample_lifecycle 900 StReady)) [([], sample_lifecycle 900 StLoading)]"
    by (simp add: calm_def jnum_literals)
  from chart_phase_coherent [OF this]
  show ?thesis by (simp add: s_def)
qed

subsection \<open>Reaching the resting phase\<close>

text \<open>What the chart is waiting for in a phase.\<close>

fun awaited :: "chart_phase \<Rightarrow> chart_callback list" where
  "awaited PhExiting = [PulseComplete]"
| "awaited PhExitingReady = [ConcealComplete]"
| "awaited PhGridTweenReady = [TweenComplete]"
| "awaited PhGridTweenLoading = [TweenComplete]"
| "awaited PhRevealing = [TimerFires]"
| "awaited _ = []"

definition progress :: "orchestrator \<Rightarrow> orchestrator" where
  "progress s = orchestrate s (awaited (o_phase s), o_props s)"

fun next_phase :: "jnum \<Rightarrow> chart_phase \<Rightarrow> chart_phase" where
  "next_phase a PhExiting = PhGridTweenReady"
| "next_phase a PhExitingReady = PhGridTweenLoading"
| "next_phase a PhGridTweenReady = (if a \<le> 0 then PhReady else PhRevealing)"
| "next_phase a PhGridTweenLoading = PhLoading"
| "next_phase a PhRevealing = PhReady"
| "next_phase a ph = ph"

lemma progress_phase:
  assumes "coherent s"
  shows "o_phase (progress s) = next_phase (cp_anim (o_props s)) (o_phase s)"
  using assms
  by (cases "o_phase s")
    (simp_all add: progress_def orchestrate_def render_def run_callback_def pass_eq plot_effect_eq
      reveal_effect_def coherent_defs Let_def numeral_3_eq_3)


lemma progress_props: "o_props (progress s) = o_props s"
  by (simp add: progress_def)

lemma progress_coherent: "coherent s \<Longrightarrow> coherent (progress s)"
  unfolding progress_def by (rule orchestrate_coherent) (simp_all add: calm_def)

lemma after_three: "(f ^^ (3 + n)) x = (f ^^ n) (f (f (f x)))"
  by (simp only: add.commute [of 3] funpow_add) (simp add: numeral_3_eq_3)

lemma resting_fixed: "(next_phase a ^^ k) PhReady = PhReady" "(next_phase a ^^ k) PhLoading = PhLoading"
  by (induction k) simp_all

text \<open>
  A coherent chart reaches the resting phase of its status in at most three steps, each of which
  is the callback (or the timer) the phase waits for, and then stays there: loading shows the
  skeleton, ready shows the target and allows interaction.
\<close>

theorem chart_comes_to_rest:
  assumes "ok_run orchestrate calm (mount p) bs"
  defines "s \<equiv> foldl orchestrate (mount p) bs"
  shows "o_phase ((progress ^^ (3 + n)) s) = resolveRestingChartPhase (cp_status (o_props s)) \<and>
    o_loaded ((progress ^^ (3 + n)) s) = (cp_status (o_props s) = StReady) \<and>
    o_plot ((progress ^^ (3 + n)) s) =
      (if cp_status (o_props s) = StReady then cp_target (o_props s) else cp_skeleton (o_props s))"
proof -
  have s: "coherent s"
    using phases.run_guarded [OF mount_coherent assms(1)] by (simp add: s_def)
  have run: "coherent ((progress ^^ k) s) \<and> o_props ((progress ^^ k) s) = o_props s \<and>
    o_phase ((progress ^^ k) s) = (next_phase (cp_anim (o_props s)) ^^ k) (o_phase s)" for k
    by (induction k) (auto simp: s progress_coherent progress_phase progress_props)
  have "(next_phase a ^^ (3 + n)) ph = (if cp_status (o_props s) = StReady then PhReady else PhLoading)"
    if "status_of ph = Some (cp_status (o_props s))" for a ph
    using that by (cases ph) (auto simp: after_three resting_fixed)
  then show ?thesis
    using run [of "3 + n"] s
    by (cases "cp_status (o_props s)") (auto simp: coherent_defs resolveRestingChartPhase_def)
qed


lemma chart_comes_to_rest_witness:
  defines "s \<equiv> orchestrate (mount (sample_lifecycle 900 StLoading)) ([], sample_lifecycle 900 StReady)"
  shows "o_phase ((progress ^^ 3) s) = PhReady"
proof -
  have "ok_run orchestrate calm (mount (sample_lifecycle 900 StLoading)) [([], sample_lifecycle 900 StReady)]"
    by (simp add: calm_def jnum_literals)
  from chart_comes_to_rest [OF this, of 0]
  show ?thesis by (simp add: s_def resolveRestingChartPhase_def)
qed

text \<open>
  Without the condition: when the grid tween completes in the batch in which the parent goes back to
  loading, and the animation is off, the reveal effect of the same pass overwrites the phase that
  the status effect has set.  The chart stays interactive, showing the target, while it is loading.
\<close>

lemma chart_ready_while_loading:
  assumes "coherent s" and "o_phase s = PhGridTweenReady" and "cp_status p = StLoading"
    and "cp_anim p \<le> 0" and "\<not> cp_tween p \<le> 0"
  shows "o_phase (orchestrate s ([TweenComplete], p)) = PhReady"
    and "o_loaded (orchestrate s ([TweenComplete], p))"
  using assms
  by (simp_all add: orchestrate_def render_def run_callback_def run_effects_def status_effect_def
      enter_effect_def reveal_effect_def plot_effect_eq coherent_defs Let_def numeral_3_eq_3)

end
