(* ===== verification/TimeSeries.thy ===== *)
theory TimeSeries
  imports JsValue Doubles
begin

text \<open>
  Thinning out the rows of a chart, src/ui/web/src/components/charts/decimate-time-series.ts, and
  the window and extent of a time axis, filter-data-by-x-domain.ts.  A row is an object with its
  properties.  Indices are natural numbers.  The cuts between the buckets are floors of products of
  doubles and are computed with the rounding of doubles (theory Doubles); the values of the rows and
  the areas, which only decide which row of a bucket is picked, are exact.  The limit on the number
  of points is an integer, as \<open>maxRenderPointsForWidth\<close> computes it.
\<close>

section \<open>Sampling a line\<close>

text \<open>The value of a row that has no number is its index.\<close>

definition getY :: "jstr list \<Rightarrow> jsobj \<Rightarrow> nat \<Rightarrow> jnum" where
  "getY valueKeys point index =
     (if valueKeys = [] then
        (case find is_num (map snd (obj_entries point)) of
           Some (JNum val) \<Rightarrow> val | _ \<Rightarrow> Fin (of_nat index))
      else
        let (total, cnt) = foldl (\<lambda>(total, cnt) key.
              (case obj_get point key of JNum val \<Rightarrow> (total + val, cnt + 1) | _ \<Rightarrow> (total, cnt)))
              (0, 0) valueKeys
        in if 0 < cnt then total / Fin (of_nat cnt) else Fin (of_nat index))"

text \<open>\<open>Math.floor(k * bucketSize) + 1\<close>, with a bucket size of (len - 2) / (maxPoints - 2).\<close>

definition bucket_cut :: "nat \<Rightarrow> int \<Rightarrow> nat \<Rightarrow> nat" where
  "bucket_cut len maxPoints k = floor_times (len - 2) (nat (maxPoints - 2)) k + 1"

text \<open>The mean point of the bucket after the next, or the last row where that bucket is empty.\<close>

definition next_average :: "jsobj list \<Rightarrow> int \<Rightarrow> jstr list \<Rightarrow> nat \<Rightarrow> jnum \<times> jnum" where
  "next_average data maxPoints valueKeys i =
     (let len = length data;
          nextRangeStart = bucket_cut len maxPoints (i + 2);
          nextRangeEnd = min (bucket_cut len maxPoints (i + 3)) len;
          nextCount = nextRangeEnd - nextRangeStart
      in if 0 < nextCount then
           let (sx, sy) = foldl (\<lambda>(sx, sy) j. (sx + Fin (of_nat j), sy + getY valueKeys (data ! j) j))
                 (0, 0) [nextRangeStart..<nextRangeEnd]
           in (sx / Fin (of_nat nextCount), sy / Fin (of_nat nextCount))
         else (Fin (of_nat (len - 1)), getY valueKeys (data ! (len - 1)) (len - 1)))"

text \<open>Twice halved: the area of the triangle between the previous sample, row \<open>j\<close> and the mean point.\<close>

definition triangle_area :: "jsobj list \<Rightarrow> jstr list \<Rightarrow> nat \<Rightarrow> jnum \<times> jnum \<Rightarrow> nat \<Rightarrow> jnum" where
  "triangle_area data valueKeys previousIndex avg j =
     (let ax = Fin (of_nat previousIndex); ay = getY valueKeys (data ! previousIndex) previousIndex
      in n_abs ((ax - fst avg) * (getY valueKeys (data ! j) j - ay)
           - (ax - Fin (of_nat j)) * (snd avg - ay)) * Fin (1 / 2))"

definition largest_triangle :: "jsobj list \<Rightarrow> int \<Rightarrow> jstr list \<Rightarrow> nat \<Rightarrow> nat \<Rightarrow> nat" where
  "largest_triangle data maxPoints valueKeys previousIndex i =
     (let len = length data;
          rangeStart = bucket_cut len maxPoints (i + 1);
          rangeEnd = min (bucket_cut len maxPoints (i + 2)) (len - 1);
          avg = next_average data maxPoints valueKeys i
      in snd (foldl (\<lambda>(maxArea, maxIndex) j.
                 let area = triangle_area data valueKeys previousIndex avg j
                 in if maxArea < area then (area, j) else (maxArea, maxIndex))
               (- 1, rangeStart) [rangeStart..<rangeEnd]))"

text \<open>The loop: the indices pushed in rounds \<open>i\<close> to \<open>i + n - 1\<close>.\<close>

fun sampled_indices :: "jsobj list \<Rightarrow> int \<Rightarrow> jstr list \<Rightarrow> nat \<Rightarrow> nat \<Rightarrow> nat \<Rightarrow> nat list" where
  "sampled_indices data maxPoints valueKeys previousIndex i 0 = []"
| "sampled_indices data maxPoints valueKeys previousIndex i (Suc n) =
     (let m = largest_triangle data maxPoints valueKeys previousIndex i
      in m # sampled_indices data maxPoints valueKeys m (i + 1) n)"

definition decimateTimeSeries :: "jsobj list \<Rightarrow> int \<Rightarrow> jstr list \<Rightarrow> jsobj list" where
  "decimateTimeSeries data maxPoints valueKeys =
     (let len = length data
      in if int len \<le> maxPoints \<or> maxPoints < 3 then data
         else data ! 0 # map ((!) data) (sampled_indices data maxPoints valueKeys 0 0 (nat (maxPoints - 2)))
                @ [data ! (len - 1)])"

definition maxRenderPointsForWidth :: "jnum \<Rightarrow> jnum" where
  "maxRenderPointsForWidth innerWidth = n_max 64 (n_ceil (innerWidth * Fin (3 / 2)))"

section \<open>Merging candles\<close>

definition highest :: "jsobj list \<Rightarrow> jnum" where
  "highest rows = foldl (\<lambda>high row. case obj_get row (js ''high'') of
     JNum v \<Rightarrow> if high < v then v else high | _ \<Rightarrow> high) NInf rows"

definition lowest :: "jsobj list \<Rightarrow> jnum" where
  "lowest rows = foldl (\<lambda>low row. case obj_get row (js ''low'') of
     JNum v \<Rightarrow> if v < low then v else low | _ \<Rightarrow> low) PInf rows"

definition merge_candles :: "jsobj list \<Rightarrow> jsobj" where
  "merge_candles bucket =
     (let f = hd bucket; l = last bucket; high = highest bucket; low = lowest bucket
      in obj_spread l
          [(js ''open'', obj_get f (js ''open'')),
           (js ''high'', if is_finite high then JNum high else obj_get l (js ''high'')),
           (js ''low'', if is_finite low then JNum low else obj_get l (js ''low'')),
           (js ''close'', obj_get l (js ''close''))])"

definition candle_cut :: "nat \<Rightarrow> int \<Rightarrow> nat \<Rightarrow> nat" where
  "candle_cut len maxPoints i = floor_times len (nat maxPoints) i"

definition candle_bucket :: "jsobj list \<Rightarrow> int \<Rightarrow> nat \<Rightarrow> jsobj list" where
  "candle_bucket data maxPoints i =
     (let start = candle_cut (length data) maxPoints i;
          fin = min (length data) (candle_cut (length data) maxPoints (i + 1))
      in take (fin - start) (drop start data))"

definition decimateOhlcData :: "jsobj list \<Rightarrow> int \<Rightarrow> jsobj list" where
  "decimateOhlcData data maxPoints =
     (if int (length data) \<le> maxPoints \<or> maxPoints < 2 then data
      else map merge_candles
        (filter (\<lambda>b. b \<noteq> []) (map (candle_bucket data maxPoints) [0..<nat maxPoints])))"

section \<open>The window of a time axis\<close>

text \<open>\<open>xAccessor\<close> gives the time of a row in milliseconds, \<open>NaN\<close> for an invalid date.\<close>

definition filterDataByXDomain :: "jsobj list \<Rightarrow> jnum \<times> jnum \<Rightarrow> (jsobj \<Rightarrow> jnum) \<Rightarrow> jsobj list" where
  "filterDataByXDomain data xDomain xAccessor =
     (let minTime = n_min (fst xDomain) (snd xDomain); maxTime = n_max (fst xDomain) (snd xDomain)
      in filter (\<lambda>d. minTime \<le> xAccessor d \<and> xAccessor d \<le> maxTime) data)"

definition resolveDataXExtent :: "jsobj list \<Rightarrow> (jsobj \<Rightarrow> jnum) \<Rightarrow> (jnum \<times> jnum) option" where
  "resolveDataXExtent data xAccessor =
     (if data = [] then None
      else
        let (minTime, maxTime) = foldl (\<lambda>(lo, hi) point.
              let time = xAccessor point
              in (if time < lo then time else lo, if hi < time then time else hi)) (PInf, NInf) data
        in if minTime = PInf then None else Some (minTime, maxTime))"

section \<open>What sampling keeps\<close>

lemma bucket_cut_mono:
  assumes "3 \<le> mp" and "mp < int len" and "i \<le> j"
  shows "bucket_cut len mp i \<le> bucket_cut len mp j"
  using floor_times_mono [of "nat (mp - 2)" "len - 2" i j] assms by (simp add: bucket_cut_def)

lemma bucket_cut_1:
  assumes "3 \<le> mp" and "mp < int len" and "len < 2 ^ 32"
  shows "bucket_cut len mp 1 = (len - 2) div nat (mp - 2) + 1"
  using floor_times_1 [of "nat (mp - 2)" "len - 2"] assms by (simp add: bucket_cut_def)

text \<open>The cut of the last round is the last row, or by rounding the row before it.\<close>

lemma bucket_cut_last:
  assumes "3 \<le> mp" and "mp < int len" and "len < 2 ^ 32"
  shows "bucket_cut len mp (nat (mp - 2)) = len - 1 \<or> bucket_cut len mp (nat (mp - 2)) = len - 2"
  using floor_times_last [of "nat (mp - 2)" "len - 2"] assms unfolding bucket_cut_def by simp linarith

text \<open>The search stays in its range, or returns the start of it.\<close>

lemma search_range:
  "snd (foldl (\<lambda>(a, m) j. let b = f j in if a < b then (b, j) else (a, m)) (a0, m0) xs) \<in> insert m0 (set xs)"
  for a0 :: "'a :: ord"
  by (induction xs arbitrary: a0 m0) (auto simp: Let_def split: if_splits; blast)+

lemma largest_triangle_pick:
  "largest_triangle data mp ks prev i \<in> insert (bucket_cut (length data) mp (i + 1))
     {bucket_cut (length data) mp (i + 1)..<min (bucket_cut (length data) mp (i + 2)) (length data - 1)}"
  unfolding largest_triangle_def Let_def
  using search_range [of "triangle_area data ks prev (next_average data mp ks i)" "- 1"
      "bucket_cut (length data) mp (i + 1)"
      "[bucket_cut (length data) mp (i + 1)..<min (bucket_cut (length data) mp (i + 2)) (length data - 1)]"]
  by (simp add: Let_def)

lemma largest_triangle_range:
  fixes prev :: nat and ks :: "jstr list"
  assumes "3 \<le> mp" and "mp < int (length data)" and "length data < 2 ^ 32" and "i < nat (mp - 2)"
  defines "m \<equiv> largest_triangle data mp ks prev i"
  shows "bucket_cut (length data) mp (i + 1) \<le> m" and "m < length data"
    and "m \<le> bucket_cut (length data) mp (i + 2)"
proof -
  let ?n = "length data"
  note m = largest_triangle_pick [of data mp ks prev i, folded m_def]
  have "bucket_cut ?n mp (i + 1) \<le> bucket_cut ?n mp (nat (mp - 2))"
    using assms(4) by (intro bucket_cut_mono assms(1,2)) simp
  moreover have "bucket_cut ?n mp (nat (mp - 2)) \<le> ?n - 1"
    using bucket_cut_last [OF assms(1-3)] by auto
  moreover have "bucket_cut ?n mp (i + 1) \<le> bucket_cut ?n mp (i + 2)"
    by (intro bucket_cut_mono assms(1,2)) simp
  ultimately show "bucket_cut ?n mp (i + 1) \<le> m" "m < ?n" "m \<le> bucket_cut ?n mp (i + 2)"
    using m assms(1,2) by auto
qed

lemma length_sampled [simp]: "length (sampled_indices data mp ks prev i n) = n"
  by (induction data mp ks prev i n rule: sampled_indices.induct) (simp_all add: Let_def)

text \<open>The samples of rounds \<open>i\<close> to \<open>i + n - 1\<close> do not decrease and start above the cut of round \<open>i\<close>.\<close>

lemma sampled_indices_range:
  assumes "3 \<le> mp" and "mp < int (length data)" and "length data < 2 ^ 32" and "i + n \<le> nat (mp - 2)"
  shows "sorted (sampled_indices data mp ks prev i n) \<and>
    (\<forall>m \<in> set (sampled_indices data mp ks prev i n).
       bucket_cut (length data) mp (i + 1) \<le> m \<and> m < length data)"
  using assms(4)
proof (induction n arbitrary: i prev)
  case (Suc n)
  define m where "m = largest_triangle data mp ks prev i"
  have m: "bucket_cut (length data) mp (i + 1) \<le> m" "m < length data" "m \<le> bucket_cut (length data) mp (i + 2)"
    unfolding m_def using Suc.prems by (intro largest_triangle_range assms(1-3); simp)+
  have "sorted (sampled_indices data mp ks m (i + 1) n) \<and>
    (\<forall>k \<in> set (sampled_indices data mp ks m (i + 1) n). bucket_cut (length data) mp (i + 2) \<le> k \<and> k < length data)"
    using Suc.IH [of "i + 1" m] Suc.prems by (simp add: add.assoc)
  then show ?case
    using m by (auto simp: Let_def m_def [symmetric] intro: order_trans)
qed simp

lemma last_sampled:
  "\<exists>prev'. last (sampled_indices data mp ks prev i (Suc n)) = largest_triangle data mp ks prev' (i + n)"
proof (induction n arbitrary: i prev)
  case (Suc n)
  let ?rest = "sampled_indices data mp ks (largest_triangle data mp ks prev i) (i + 1) (Suc n)"
  have rest: "?rest \<noteq> []"
    by (metis length_sampled list.size(3) nat.distinct(1))
  have "last (sampled_indices data mp ks prev i (Suc (Suc n))) = last ?rest"
    using last_ConsR [OF rest] by (simp only: sampled_indices.simps(2) [of data mp ks prev i] Let_def)
  then show ?case
    using Suc.IH [of "largest_triangle data mp ks prev i" "i + 1"] by simp
qed (auto simp: Let_def)

lemma last_round:
  assumes "3 \<le> mp" and "mp < int (length data)" and "length data < 2 ^ 32"
  shows "largest_triangle data mp ks prev (nat (mp - 2) - 1) = bucket_cut (length data) mp (nat (mp - 2))"
proof -
  define c where "c = bucket_cut (length data) mp (nat (mp - 2))"
  have "nat (mp - 2) - 1 + 1 = nat (mp - 2)"
    using assms(1) by simp
  then have "largest_triangle data mp ks prev (nat (mp - 2) - 1) \<in> insert c {c..<length data - 1}"
    using largest_triangle_pick [of data mp ks prev "nat (mp - 2) - 1"] unfolding c_def by auto
  moreover have "c = length data - 1 \<or> c = length data - 2"
    unfolding c_def by (rule bucket_cut_last [OF assms])
  ultimately show ?thesis
    unfolding c_def [symmetric] by simp linarith
qed

text \<open>
  C17. Thinning a line of fewer than \<open>2 ^ 32\<close> rows out to \<open>maxPoints\<close> rows, fewer than there are,
  returns exactly that many, picked from the data at indices that do not decrease, from the first row
  to the last.  Two of the picks are wasted and a stretch is never looked at, because the rounds start
  with the second bucket: no row of the first bucket is ever returned, and the last round picks the
  only row its range may hold, which is the last row once more, or the row before it where the
  rounding of the bucket size makes the product of bucket size and number of buckets fall short of
  the number of rows.
\<close>

theorem decimate_samples:
  assumes "3 \<le> mp" and "mp < int (length data)" and "length data < 2 ^ 32"
  shows "\<exists>ix. decimateTimeSeries data mp ks = map ((!) data) ix \<and> length ix = nat mp \<and> sorted ix \<and>
    (\<forall>i \<in> set ix. i < length data) \<and> hd ix = 0 \<and> last ix = length data - 1 \<and>
    ix ! (nat mp - 2) = bucket_cut (length data) mp (nat mp - 2) \<and>
    ix ! (nat mp - 2) \<in> {length data - 1, length data - 2} \<and>
    (\<forall>i \<in> set ix. i = 0 \<or> (length data - 2) div nat (mp - 2) < i)"
proof -
  define k where "k = nat (mp - 2)"
  have k: "nat mp = k + 2" "0 < k"
    using assms(1) by (simp_all add: k_def)
  define xs where "xs = sampled_indices data mp ks 0 0 k"
  have xs: "sorted xs" "length xs = k"
    "\<forall>m \<in> set xs. bucket_cut (length data) mp 1 \<le> m \<and> m < length data"
    using sampled_indices_range [OF assms, of 0 k ks 0] by (simp_all add: xs_def k_def)
  note cut = bucket_cut_1 [OF assms, folded k_def] and end_cut = bucket_cut_last [OF assms, folded k_def]
  have "last xs = bucket_cut (length data) mp k"
    using last_sampled [of data mp ks 0 0 "k - 1"] last_round [OF assms, of ks, folded k_def] k(2)
    unfolding xs_def by (simp only: Suc_pred' [symmetric] add_0) auto
  then have "xs ! (k - 1) = bucket_cut (length data) mp k"
    using xs(2) k(2) by (metis last_conv_nth length_greater_0_conv)
  then have "(0 # xs @ [length data - 1]) ! k = bucket_cut (length data) mp k"
    using xs(2) k(2) by (simp add: nth_Cons' nth_append)
  moreover have "decimateTimeSeries data mp ks = map ((!) data) (0 # xs @ [length data - 1])"
    using assms by (simp add: decimateTimeSeries_def Let_def xs_def k_def)
  moreover have "sorted (0 # xs @ [length data - 1])"
    using xs by (auto simp: sorted_append)
  moreover have "(length data - 2) div k < length data - 1"
    using div_le_dividend [of "length data - 2" k] assms by linarith
  ultimately show ?thesis
    using xs cut end_cut k assms(1,2) unfolding k_def [symmetric]
    by (intro exI [of _ "0 # xs @ [length data - 1]"] conjI) (auto simp: Suc_le_eq)
qed

definition sample_rows :: "jsobj list" where
  "sample_rows = map (\<lambda>y. [(js ''y'', JNum (Fin y))]) [1, 9, 1, 1, 5]"

lemma decimate_samples_witness:
  "\<exists>ix. decimateTimeSeries sample_rows 4 [] = map ((!) sample_rows) ix \<and> length ix = 4 \<and> ix ! 2 \<in> {4, 3}"
  using decimate_samples [of 4 sample_rows "[]"] by (auto simp: sample_rows_def)

text \<open>Thinning 503 rows out to 64 does not pick the last row twice, but the row before it.\<close>

lemma last_pick_short: "bucket_cut 503 64 62 = 503 - 2"
  using floor_times_501_62 by (simp add: bucket_cut_def)

section \<open>What merging candles keeps\<close>

lemma concat_nonempty: "concat (filter (\<lambda>b. b \<noteq> []) xs) = concat xs"
  by (induction xs) auto

lemma candle_cut_mono:
  assumes "2 \<le> mp" and "mp < int len" and "i \<le> j"
  shows "candle_cut len mp i \<le> candle_cut len mp j"
  using floor_times_mono [of "nat mp" len i j] assms by (simp add: candle_cut_def)

lemma candle_cut_last:
  assumes "2 \<le> mp" and "mp < int len" and "len < 2 ^ 32"
  shows "candle_cut len mp (nat mp) = len \<or> candle_cut len mp (nat mp) = len - 1"
  using floor_times_last [of "nat mp" len] assms unfolding candle_cut_def by simp

text \<open>The buckets, laid end to end, are the data up to the last cut.\<close>

lemma candle_buckets:
  assumes "2 \<le> mp" and "mp < int (length data)" and "length data < 2 ^ 32" and "n \<le> nat mp"
  shows "concat (map (candle_bucket data mp) [0..<n]) = take (candle_cut (length data) mp n) data"
  using assms(4)
proof (induction n)
  case 0
  show ?case by (simp add: candle_cut_def)
next
  case (Suc n)
  let ?c = "candle_cut (length data) mp"
  have "?c (Suc n) \<le> ?c (nat mp)" and le: "?c n \<le> ?c (Suc n)"
    using Suc.prems by (intro candle_cut_mono assms(1,2); simp)+
  then have "?c (Suc n) \<le> length data"
    using candle_cut_last [OF assms(1-3)] by auto
  then have "candle_bucket data mp n = take (?c (Suc n) - ?c n) (drop (?c n) data)"
    by (simp add: candle_bucket_def Let_def min_absorb2)
  moreover have "take (?c (Suc n)) data = take (?c n) data @ take (?c (Suc n) - ?c n) (drop (?c n) data)"
    using le take_add [of "?c n" "?c (Suc n) - ?c n" data] by simp
  ultimately show ?case
    using Suc by simp
qed

text \<open>The running maximum and minimum are monoids on the numbers other than \<open>NaN\<close>.\<close>

definition higher_of :: "jnum \<Rightarrow> jnum \<Rightarrow> jnum" where
  "higher_of h v = (if h < v then v else h)"

definition lower_of :: "jnum \<Rightarrow> jnum \<Rightarrow> jnum" where
  "lower_of l v = (if v < l then v else l)"

interpretation high: monoid_on "\<lambda>v. v \<noteq> NaN" higher_of NInf
proof
  fix a b c :: jnum
  assume "a \<noteq> NaN" "b \<noteq> NaN" "c \<noteq> NaN"
  then show "higher_of (higher_of a b) c = higher_of a (higher_of b c)"
    by (cases a; cases b; cases c) (auto simp: higher_of_def)
next
  fix a :: jnum
  assume "a \<noteq> NaN"
  then show "higher_of NInf a = a" "higher_of a NInf = a"
    by (cases a; simp add: higher_of_def)+
qed (auto simp: higher_of_def)

interpretation low: monoid_on "\<lambda>v. v \<noteq> NaN" lower_of PInf
proof
  fix a b c :: jnum
  assume "a \<noteq> NaN" "b \<noteq> NaN" "c \<noteq> NaN"
  then show "lower_of (lower_of a b) c = lower_of a (lower_of b c)"
    by (cases a; cases b; cases c) (auto simp: lower_of_def)
next
  fix a :: jnum
  assume "a \<noteq> NaN"
  then show "lower_of PInf a = a" "lower_of a PInf = a"
    by (cases a; simp add: lower_of_def)+
qed (auto simp: lower_of_def)

text \<open>A candle has finite prices.\<close>

definition price :: "jstr \<Rightarrow> jsobj \<Rightarrow> jnum" where
  "price k row = (case obj_get row k of JNum v \<Rightarrow> v | _ \<Rightarrow> NaN)"

definition candle :: "jsobj \<Rightarrow> bool" where
  "candle row \<longleftrightarrow> is_finite (price (js ''high'') row) \<and> is_finite (price (js ''low'') row)"

lemma highest_price: "highest rows = foldl higher_of NInf (map (price (js ''high'')) rows)"
  unfolding highest_def foldl_map
  by (rule foldl_cong) (simp_all add: higher_of_def price_def split: jsval.split)

lemma lowest_price: "lowest rows = foldl lower_of PInf (map (price (js ''low'')) rows)"
  unfolding lowest_def foldl_map
  by (rule foldl_cong) (simp_all add: lower_of_def price_def split: jsval.split)

lemma fold_finite_from:
  assumes "is_finite a" and "\<forall>x \<in> set xs. is_finite x"
  shows "is_finite (foldl higher_of a xs)" and "is_finite (foldl lower_of a xs)"
  using assms by (induction xs arbitrary: a) (simp_all add: higher_of_def lower_of_def)

lemma fold_finite:
  assumes "xs \<noteq> []" and "\<forall>x \<in> set xs. is_finite x"
  shows "is_finite (foldl higher_of NInf xs)" and "is_finite (foldl lower_of PInf xs)"
proof -
  obtain x ys where xs: "xs = x # ys" using assms(1) by (cases xs) auto
  then have "x \<noteq> NaN" using assms(2) by (auto simp: is_finite_def)
  then show "is_finite (foldl higher_of NInf xs)" "is_finite (foldl lower_of PInf xs)"
    using fold_finite_from [of x ys] assms(2)
    by (simp_all add: xs high.unit_left low.unit_left)
qed

lemma spread_four:
  assumes "distinct [k1, k2, k3, k4]"
  shows "obj_get (obj_spread l [(k1, a), (k2, b), (k3, c), (k4, d)]) k1 = a"
    and "obj_get (obj_spread l [(k1, a), (k2, b), (k3, c), (k4, d)]) k2 = b"
    and "obj_get (obj_spread l [(k1, a), (k2, b), (k3, c), (k4, d)]) k3 = c"
    and "obj_get (obj_spread l [(k1, a), (k2, b), (k3, c), (k4, d)]) k4 = d"
  using assms unfolding obj_spread_def
  by (simp_all add: get_define_other del: obj_define.simps)

lemma candle_keys: "distinct [js ''open'', js ''high'', js ''low'', js ''close'']"
  by simp

lemmas candle_fields = spread_four [OF candle_keys]

lemma merged_prices:
  assumes "b \<noteq> []" and "\<forall>row \<in> set b. candle row"
  shows "price (js ''high'') (merge_candles b) = highest b" and "price (js ''low'') (merge_candles b) = lowest b"
    and "obj_get (merge_candles b) (js ''open'') = obj_get (hd b) (js ''open'')"
    and "obj_get (merge_candles b) (js ''close'') = obj_get (last b) (js ''close'')"
proof -
  have "is_finite (highest b)" "is_finite (lowest b)"
    unfolding highest_price lowest_price
    using assms by (intro fold_finite; auto simp: candle_def)+
  then show "price (js ''high'') (merge_candles b) = highest b" "price (js ''low'') (merge_candles b) = lowest b"
    unfolding price_def merge_candles_def Let_def candle_fields by (simp_all only: if_True jsval.case)
  show "obj_get (merge_candles b) (js ''open'') = obj_get (hd b) (js ''open'')"
    "obj_get (merge_candles b) (js ''close'') = obj_get (last b) (js ''close'')"
    unfolding merge_candles_def Let_def candle_fields by (rule refl)+
qed

text \<open>
  Thinning candles out to \<open>maxPoints\<close> returns at most that many; each stands for a run of
  consecutive candles, a merged candle opens like the first of its run and closes like the last, and
  the highest and the lowest price of the runs are kept.  The runs are the whole chart, or the chart
  without its newest candle where the rounding of the bucket size puts the last cut before the end.
\<close>

theorem candles_merged:
  assumes "2 \<le> mp" and "mp < int (length data)" and "length data < 2 ^ 32"
    and "\<forall>row \<in> set data. candle row"
  shows "\<exists>runs. concat runs = take (candle_cut (length data) mp (nat mp)) data \<and>
    concat runs \<in> {data, butlast data} \<and> length runs \<le> nat mp \<and> [] \<notin> set runs \<and>
    decimateOhlcData data mp = map merge_candles runs \<and>
    map (\<lambda>row. obj_get row (js ''open'')) (decimateOhlcData data mp) = map (\<lambda>run. obj_get (hd run) (js ''open'')) runs \<and>
    map (\<lambda>row. obj_get row (js ''close'')) (decimateOhlcData data mp) = map (\<lambda>run. obj_get (last run) (js ''close'')) runs \<and>
    highest (decimateOhlcData data mp) = highest (concat runs) \<and> lowest (decimateOhlcData data mp) = lowest (concat runs)"
proof -
  define runs where "runs = filter (\<lambda>b. b \<noteq> []) (map (candle_bucket data mp) [0..<nat mp])"
  have shown: "concat runs = take (candle_cut (length data) mp (nat mp)) data"
    unfolding runs_def using candle_buckets [OF assms(1-3) order_refl] by (simp add: concat_nonempty)
  then have most: "concat runs \<in> {data, butlast data}"
    using candle_cut_last [OF assms(1-3)] by (auto simp: butlast_conv_take)
  have ne: "[] \<notin> set runs" and len: "length runs \<le> nat mp"
    unfolding runs_def using length_filter_le [of "\<lambda>b. b \<noteq> []" "map (candle_bucket data mp) [0..<nat mp]"]
    by (simp, simp)
  have out: "decimateOhlcData data mp = map merge_candles runs"
    using assms(1,2) by (simp add: decimateOhlcData_def runs_def [symmetric])
  have "set (concat runs) \<subseteq> set data"
    unfolding shown by (rule set_take_subset)
  then have run: "b \<noteq> [] \<and> (\<forall>row \<in> set b. candle row)" if "b \<in> set runs" for b
    using that ne assms(4) by auto
  note prices = merged_prices [OF run [THEN conjunct1] run [THEN conjunct2]]
  have S: "price (js ''high'') row \<noteq> NaN" "price (js ''low'') row \<noteq> NaN" if "row \<in> set b" "b \<in> set runs" for row b
    using run that unfolding candle_def by (metis is_finite_Fin(2))+
  have "highest (decimateOhlcData data mp) = foldl higher_of NInf (map (foldl higher_of NInf) (map (map (price (js ''high''))) runs))"
    unfolding out highest_price map_map by (rule arg_cong [where f = "foldl higher_of NInf"])
      (rule map_cong [OF refl], simp only: o_apply prices highest_price)
  also have "\<dots> = highest (concat runs)"
    unfolding highest_price
    by (subst high.fold_concat) (use S in \<open>auto simp: map_concat [symmetric]\<close>)
  finally have h: "highest (decimateOhlcData data mp) = highest (concat runs)" .
  have "lowest (decimateOhlcData data mp) = foldl lower_of PInf (map (foldl lower_of PInf) (map (map (price (js ''low''))) runs))"
    unfolding out lowest_price map_map by (rule arg_cong [where f = "foldl lower_of PInf"])
      (rule map_cong [OF refl], simp only: o_apply prices lowest_price)
  also have "\<dots> = lowest (concat runs)"
    unfolding lowest_price
    by (subst low.fold_concat) (use S in \<open>auto simp: map_concat [symmetric]\<close>)
  finally have l: "lowest (decimateOhlcData data mp) = lowest (concat runs)" .
  have "map (\<lambda>row. obj_get row (js ''open'')) (map merge_candles runs) = map (\<lambda>run. obj_get (hd run) (js ''open'')) runs"
    "map (\<lambda>row. obj_get row (js ''close'')) (map merge_candles runs) = map (\<lambda>run. obj_get (last run) (js ''close'')) runs"
    unfolding map_map by (rule map_cong [OF refl], simp only: o_apply prices)+
  then show ?thesis
    using shown most ne len h l out by (intro exI [of _ runs]) simp
qed

text \<open>A chart of 464 candles on which 67 fit loses its newest candle.\<close>

lemma newest_candle_lost: "candle_cut 464 67 (nat 67) = 464 - 1"
  using floor_times_464_67 by (simp add: candle_cut_def)

definition sample_candles :: "jsobj list" where
  "sample_candles = map (\<lambda>q. [(js ''high'', JNum (Fin q)), (js ''low'', JNum (Fin (q - 1)))]) [3, 7, 5]"

lemma candles_merged_witness:
  "highest (decimateOhlcData sample_candles 2) = highest sample_candles \<and> highest sample_candles = 7"
proof -
  have prices: "price (js ''high'') [(js ''high'', JNum (Fin q)), (js ''low'', JNum (Fin r))] = Fin q"
    "price (js ''low'') [(js ''high'', JNum (Fin q)), (js ''low'', JNum (Fin r))] = Fin r" for q r
    by (simp_all add: price_def obj_get_def)
  have candles: "\<forall>row \<in> set sample_candles. candle row"
    by (auto simp: sample_candles_def candle_def prices simp del: list.map)
  have size: "double_of (3 / 2) = 3 / 2" and three: "double_of (2 * (3 / 2)) = 3"
    using double_of_nat [of 3] round_half_even_of_int [of 6755399441055744]
    by (simp_all add: double_of_at [of 0] ulp_def)
  have "length sample_candles = 3"
    by (simp add: sample_candles_def)
  moreover have "candle_cut 3 2 (nat 2) = 3"
    unfolding candle_cut_def floor_times_def by (simp add: size three del: of_nat_mult) (simp add: three [simplified])
  ultimately have "highest (decimateOhlcData sample_candles 2) = highest sample_candles"
    using candles_merged [OF _ _ _ candles, of 2] by auto
  moreover have "highest sample_candles = 7"
    by (simp add: sample_candles_def highest_price price_def obj_get_def higher_of_def jnum_literals)
  ultimately show ?thesis by simp
qed

subsection \<open>The extent of the data is a window that shows all of it\<close>

lemma running_extent:
  "foldl (\<lambda>(lo, hi) point. let time = acc point
      in (if time < lo then time else lo, if hi < time then time else hi)) (a, b) data =
   (foldl lower_of a (map acc data), foldl higher_of b (map acc data))"
  by (induction data arbitrary: a b) (simp_all add: Let_def lower_of_def higher_of_def)

lemma jnum_trans: "a \<le> b \<Longrightarrow> b \<le> c \<Longrightarrow> a \<le> (c :: jnum)"
  by (cases a; cases b; cases c) auto

lemma jnum_refl: "a \<noteq> NaN \<Longrightarrow> a \<le> (a :: jnum)"
  by (cases a) auto

lemma lower_le: "a \<noteq> NaN \<Longrightarrow> lower_of a x \<noteq> NaN \<and> lower_of a x \<le> a \<and> (x \<noteq> NaN \<longrightarrow> lower_of a x \<le> x)"
  by (cases a; cases x) (auto simp: lower_of_def)

lemma higher_ge: "a \<noteq> NaN \<Longrightarrow> higher_of a x \<noteq> NaN \<and> a \<le> higher_of a x \<and> (x \<noteq> NaN \<longrightarrow> x \<le> higher_of a x)"
  by (cases a; cases x) (auto simp: higher_of_def)

lemma lowest_bound:
  "a \<noteq> NaN \<Longrightarrow> foldl lower_of a xs \<noteq> NaN \<and> foldl lower_of a xs \<le> a \<and>
     (\<forall>x \<in> set xs. x \<noteq> NaN \<longrightarrow> foldl lower_of a xs \<le> x)"
proof (induction xs arbitrary: a)
  case (Cons x xs)
  show ?case
    using Cons.IH [of "lower_of a x"] lower_le [OF Cons.prems, of x] by (auto intro: jnum_trans)
qed (simp add: jnum_refl)

lemma highest_bound:
  "a \<noteq> NaN \<Longrightarrow> foldl higher_of a xs \<noteq> NaN \<and> a \<le> foldl higher_of a xs \<and>
     (\<forall>x \<in> set xs. x \<noteq> NaN \<longrightarrow> x \<le> foldl higher_of a xs)"
proof (induction xs arbitrary: a)
  case (Cons x xs)
  show ?case
    using Cons.IH [of "higher_of a x"] higher_ge [OF Cons.prems, of x] by (auto intro: jnum_trans)
qed (simp add: jnum_refl)

lemma lower_invalid: "(\<forall>x \<in> set xs. x = NaN) \<Longrightarrow> foldl lower_of a xs = a"
  by (induction xs) (auto simp: lower_of_def)

text \<open>
  The extent of the rows is a window that shows every row with a valid date: filtering the data
  by its own extent drops exactly the rows whose date is invalid, whichever way round the window
  is given.
\<close>

theorem extent_shows_all:
  assumes "resolveDataXExtent data acc = Some (lo, hi)"
  shows "filterDataByXDomain data (lo, hi) acc = filter (\<lambda>d. acc d \<noteq> NaN) data \<and>
    filterDataByXDomain data (hi, lo) acc = filter (\<lambda>d. acc d \<noteq> NaN) data"
proof -
  have lo: "lo = foldl lower_of PInf (map acc data)" and hi: "hi = foldl higher_of NInf (map acc data)"
    and "lo \<noteq> PInf"
    using assms by (auto simp: resolveDataXExtent_def running_extent split: if_splits)
  have low: "lo \<noteq> NaN" "acc d \<noteq> NaN \<Longrightarrow> lo \<le> acc d" if "d \<in> set data" for d
    using lowest_bound [of PInf "map acc data", folded lo] that by auto
  have high: "hi \<noteq> NaN" "acc d \<noteq> NaN \<Longrightarrow> acc d \<le> hi" if "d \<in> set data" for d
    using highest_bound [of NInf "map acc data", folded hi] that by auto
  obtain d where d: "d \<in> set data" "acc d \<noteq> NaN"
    using \<open>lo \<noteq> PInf\<close> lower_invalid [of "map acc data" PInf] lo by auto
  then have "lo \<le> hi" "lo \<noteq> NaN" "hi \<noteq> NaN"
    using low high jnum_trans by blast+
  then have ends: "n_min lo hi = lo" "n_max lo hi = hi" "n_min hi lo = lo" "n_max hi lo = hi"
    by (cases lo; cases hi; auto simp: n_min_def n_max_def)+
  have "(lo \<le> acc d \<and> acc d \<le> hi) = (acc d \<noteq> NaN)" if "d \<in> set data" for d
    using low(2) [OF that] high(2) [OF that] by auto
  then show ?thesis
    by (simp add: filterDataByXDomain_def ends cong: filter_cong)
qed

lemma extent_shows_all_witness:
  "filterDataByXDomain [[], [(js ''t'', JNum (Fin 7))]] (Fin 7, Fin 7) (price (js ''t'')) = [[(js ''t'', JNum (Fin 7))]]"
proof -
  have p: "price (js ''t'') [] = NaN" "price (js ''t'') [(js ''t'', JNum (Fin 7))] = Fin 7"
    by (simp_all add: price_def obj_get_def proto_names_def)
  have "resolveDataXExtent [[], [(js ''t'', JNum (Fin 7))]] (price (js ''t'')) = Some (Fin 7, Fin 7)"
    by (simp add: resolveDataXExtent_def p Let_def del: list.map)
  from extent_shows_all [OF this] show ?thesis
    by (simp add: p del: list.map)
qed

end
