(* ===== verification/ProfitLoss.thy ===== *)
theory ProfitLoss
  imports JsValue
begin

text \<open>
  Splitting a line at zero, src/ui/web/src/lib/profit-loss-segments.ts.  \<open>xAccessor\<close> gives the time
  of a row in milliseconds.  A date stored in a row is an object that holds its time value.
\<close>

section \<open>Segments\<close>

text \<open>\<open>new Date(t)\<close>: a time within 100 million days, without a fraction, or an invalid date.\<close>

definition time_clip :: "jnum \<Rightarrow> jnum" where
  "time_clip t = (case t of
     Fin q \<Rightarrow> if \<bar>q\<bar> \<le> 8640000000000000 then Fin (of_int (if q < 0 then \<lceil>q\<rceil> else \<lfloor>q\<rfloor>)) else NaN
   | _ \<Rightarrow> NaN)"

definition date_value :: "jnum \<Rightarrow> jsval" where
  "date_value t = JObj [(js ''[[DateValue]]'', JNum (time_clip t))]"

text \<open>The sign is \<open>True\<close> for \<open>"positive"\<close>.\<close>

record pl_segment =
  pl_data :: "jsobj list"
  isPositive :: bool

definition resolveSign :: "jnum \<Rightarrow> bool \<Rightarrow> bool" where
  "resolveSign val fallback = (if 0 < val then True else if val < 0 then False else fallback)"

fun findInitialSign :: "jstr \<Rightarrow> jsobj list \<Rightarrow> bool" where
  "findInitialSign dataKey [] = True"
| "findInitialSign dataKey (row # data) =
     (case obj_get row dataKey of
        JNum val \<Rightarrow> if 0 < val then True else if val < 0 then False else findInitialSign dataKey data
      | _ \<Rightarrow> findInitialSign dataKey data)"

definition interpolateZeroCrossing ::
    "jsobj \<Rightarrow> jsobj \<Rightarrow> jnum \<Rightarrow> jnum \<Rightarrow> jstr \<Rightarrow> jstr \<Rightarrow> (jsobj \<Rightarrow> jnum) \<Rightarrow> jsobj" where
  "interpolateZeroCrossing a b ya yb dataKey xDataKey xAccessor =
     (let t = ya / (ya - yb);
          start = xAccessor a;
          fin = xAccessor b
      in obj_spread a [(xDataKey, date_value (start + t * (fin - start))), (dataKey, JNum 0)])"

text \<open>\<open>Math.sign(a) !== Math.sign(b)\<close> for numbers other than zero; \<open>NaN\<close> differs from every sign.\<close>

definition signs_differ :: "jnum \<Rightarrow> jnum \<Rightarrow> bool" where
  "signs_differ a b \<longleftrightarrow> a = NaN \<or> b = NaN \<or> (0 < a) \<noteq> (0 < b)"

definition crosses :: "jsval \<Rightarrow> jsval \<Rightarrow> (jnum \<times> jnum) option" where
  "crosses ya yb = (case (ya, yb) of
     (JNum u, JNum v) \<Rightarrow> if \<not> n_eq u 0 \<and> \<not> n_eq v 0 \<and> signs_differ u v then Some (u, v) else None
   | _ \<Rightarrow> None)"

definition next_sign :: "jsval \<Rightarrow> bool \<Rightarrow> bool" where
  "next_sign yb currentSign = (case yb of
     JNum v \<Rightarrow> if n_eq v 0 then currentSign else resolveSign v currentSign | _ \<Rightarrow> currentSign)"

text \<open>The loop over neighbouring rows, with the segments, the sign and the segment being built.\<close>

fun split_loop ::
    "jstr \<Rightarrow> jstr \<Rightarrow> (jsobj \<Rightarrow> jnum) \<Rightarrow> bool \<Rightarrow> jsobj list \<Rightarrow> jsobj list \<Rightarrow> pl_segment list" where
  "split_loop dataKey xDataKey xAccessor currentSign currentSegment (a # b # rest) =
     (case crosses (obj_get a dataKey) (obj_get b dataKey) of
        Some (ya, yb) \<Rightarrow>
          let cross = interpolateZeroCrossing a b ya yb dataKey xDataKey xAccessor
          in \<lparr>pl_data = currentSegment @ [cross], isPositive = currentSign\<rparr>
             # split_loop dataKey xDataKey xAccessor (resolveSign yb currentSign) [cross, b] (b # rest)
      | None \<Rightarrow>
          split_loop dataKey xDataKey xAccessor
            (next_sign (obj_get b dataKey) currentSign) (currentSegment @ [b]) (b # rest))"
| "split_loop dataKey xDataKey xAccessor currentSign currentSegment rest =
     [\<lparr>pl_data = currentSegment, isPositive = currentSign\<rparr>]"

definition splitProfitLossSegments :: "jsobj list \<Rightarrow> jstr \<Rightarrow> jstr \<Rightarrow> (jsobj \<Rightarrow> jnum) \<Rightarrow> pl_segment list" where
  "splitProfitLossSegments data dataKey xDataKey xAccessor =
     (case data of [] \<Rightarrow> []
      | firstPoint # _ \<Rightarrow>
          split_loop dataKey xDataKey xAccessor (findInitialSign dataKey data) [firstPoint] data)"

section \<open>What the segments hold\<close>

text \<open>
  The rows of a chain of segments without the crossing rows: every segment but the last ends in one,
  every segment but the first starts with one.
\<close>

fun own_rows :: "bool \<Rightarrow> pl_segment list \<Rightarrow> jsobj list" where
  "own_rows first [] = []"
| "own_rows first [g] = (if first then pl_data g else tl (pl_data g))"
| "own_rows first (g # h # gs) =
     butlast (if first then pl_data g else tl (pl_data g)) @ own_rows False (h # gs)"

fun joined :: "jstr \<Rightarrow> pl_segment list \<Rightarrow> bool" where
  "joined k (g # h # gs) \<longleftrightarrow> last (pl_data g) = hd (pl_data h) \<and>
     obj_get (hd (pl_data h)) k = JNum 0 \<and> joined k (h # gs)"
| "joined k gs = True"

lemma split_loop_cons:
  obtains g gs where "split_loop k x acc sg cur rows = g # gs" "cur \<noteq> [] \<Longrightarrow> hd (pl_data g) = hd cur"
proof -
  have "split_loop k x acc sg cur rows \<noteq> [] \<and>
    (cur \<noteq> [] \<longrightarrow> hd (pl_data (hd (split_loop k x acc sg cur rows))) = hd cur)"
    by (induction k x acc sg cur rows rule: split_loop.induct)
      (simp_all add: Let_def hd_append split: option.split)
  then show thesis using that by (metis list.exhaust_sel)
qed

lemma crossing_value: "obj_get (interpolateZeroCrossing a b u v k x acc) k = JNum 0"
  by (simp add: interpolateZeroCrossing_def obj_spread_def Let_def)

lemma split_loop_rows:
  "cur \<noteq> [] \<Longrightarrow> rows \<noteq> [] \<Longrightarrow>
   own_rows first (split_loop k x acc sg cur rows) = (if first then cur else tl cur) @ tl rows \<and>
   joined k (split_loop k x acc sg cur rows)"
proof (induction k x acc sg cur rows arbitrary: first rule: split_loop.induct)
  case (1 k x acc sg cur a b rest)
  show ?case
  proof (cases "crosses (obj_get a k) (obj_get b k)")
    case None
    then show ?thesis
      using "1.IH"(1) [OF None, of first] "1.prems" by simp
  next
    case (Some p)
    obtain u v where p: "p = (u, v)" by (cases p)
    define cross where "cross = interpolateZeroCrossing a b u v k x acc"
    obtain g gs where next_seg: "split_loop k x acc (resolveSign v sg) [cross, b] (b # rest) = g # gs"
      "hd (pl_data g) = cross"
      by (rule split_loop_cons [of k x acc "resolveSign v sg" "[cross, b]" "b # rest"]) auto
    have "own_rows False (g # gs) = b # rest" "joined k (g # gs)"
      using "1.IH"(2) [OF Some p [symmetric] refl, of False] next_seg by (simp_all add: cross_def)
    then show ?thesis
      using "1.prems"(1) next_seg crossing_value [of a b u v k x acc]
      by (simp add: Some p Let_def cross_def [symmetric] butlast_append)
  qed
qed auto

text \<open>The sign of a row: zero goes with both.\<close>

definition on_side :: "jstr \<Rightarrow> bool \<Rightarrow> jsobj \<Rightarrow> bool" where
  "on_side k pos row \<longleftrightarrow> (case obj_get row k of
     JNum v \<Rightarrow> if pos then 0 \<le> v else v \<le> 0 | _ \<Rightarrow> False)"

definition nonzero_row :: "jstr \<Rightarrow> jsobj \<Rightarrow> bool" where
  "nonzero_row k row \<longleftrightarrow> (case obj_get row k of JNum (Fin q) \<Rightarrow> q \<noteq> 0 | _ \<Rightarrow> False)"

lemma nonzero_rowE:
  assumes "nonzero_row k row"
  obtains q where "obj_get row k = JNum (Fin q)" "q \<noteq> 0"
  using assms by (auto simp: nonzero_row_def split: jsval.splits jnum.splits)

lemma split_loop_sides:
  "rows \<noteq> [] \<Longrightarrow> \<forall>row \<in> set rows. nonzero_row k row \<Longrightarrow> on_side k sg (hd rows) \<Longrightarrow>
   \<forall>row \<in> set cur. on_side k sg row \<Longrightarrow>
   \<forall>g \<in> set (split_loop k x acc sg cur rows). \<forall>row \<in> set (pl_data g). on_side k (isPositive g) row"
proof (induction k x acc sg cur rows rule: split_loop.induct)
  case (1 k x acc sg cur a b rest)
  obtain p q where a: "obj_get a k = JNum (Fin p)" "p \<noteq> 0" and b: "obj_get b k = JNum (Fin q)" "q \<noteq> 0"
    using "1.prems"(2) by (auto elim!: nonzero_rowE)
  have a_side: "if sg then 0 < p else p < 0"
    using "1.prems"(3) a by (auto simp: on_side_def zero_Fin)
  show ?case
  proof (cases "crosses (obj_get a k) (obj_get b k)")
    case None
    then have same: "0 < p \<longleftrightarrow> 0 < q"
      using a b by (simp add: crosses_def signs_differ_def n_eq_def zero_Fin split: if_splits)
    then have "on_side k sg b" "next_sign (obj_get b k) sg = sg"
      using a_side b by (cases sg; auto simp: on_side_def next_sign_def resolveSign_def n_eq_def zero_Fin)+
    then show ?thesis
      using "1.IH"(1) [OF None] "1.prems" None b by auto
  next
    case (Some r)
    then have r: "r = (Fin p, Fin q)" and differ: "0 < p \<longleftrightarrow> \<not> 0 < q"
      using a b by (auto simp: crosses_def signs_differ_def zero_Fin split: if_splits)
    have cross: "on_side k s (interpolateZeroCrossing a b (Fin p) (Fin q) k x acc)" for s
      by (simp add: on_side_def crossing_value zero_Fin)
    have "on_side k (resolveSign (Fin q) sg) b"
      using b by (auto simp: on_side_def resolveSign_def zero_Fin)
    then show ?thesis
      using "1.IH"(2) [OF Some r [symmetric] refl] "1.prems" cross by (auto simp: Some r Let_def)
  qed
qed auto

text \<open>
  Splitting a line at zero loses nothing and adds nothing but the crossings: without them the
  segments, laid end to end, are the rows, and neighbouring segments share one crossing row with
  the value zero.  If no value is zero or missing, every row of a segment lies on the side the
  segment is labelled with.
\<close>

theorem profit_loss_split:
  "own_rows True (splitProfitLossSegments data k x acc) = data \<and>
   joined k (splitProfitLossSegments data k x acc) \<and>
   ((\<forall>row \<in> set data. nonzero_row k row) \<longrightarrow>
     (\<forall>g \<in> set (splitProfitLossSegments data k x acc). \<forall>row \<in> set (pl_data g). on_side k (isPositive g) row))"
proof (cases data)
  case (Cons a rest)
  have "on_side k (findInitialSign k (a # rest)) a" if "nonzero_row k a"
    using that by (elim nonzero_rowE) (auto simp: on_side_def zero_Fin)
  then show ?thesis
    using split_loop_rows [of "[a]" "a # rest" True k x acc "findInitialSign k (a # rest)"]
      split_loop_sides [of "a # rest" k "findInitialSign k (a # rest)" "[a]" x acc]
    by (auto simp: splitProfitLossSegments_def Cons)
qed (simp add: splitProfitLossSegments_def)

definition pl_rows :: "rat list \<Rightarrow> jsobj list" where
  "pl_rows qs = map (\<lambda>q. [(js ''y'', JNum (Fin q))]) qs"

lemma profit_loss_split_witness:
  "list_all (\<lambda>g. list_all (on_side (js ''y'') (isPositive g)) (pl_data g))
     (splitProfitLossSegments (pl_rows [4, - 2]) (js ''y'') (js ''x'') (\<lambda>_. 0))"
proof -
  have "\<forall>row \<in> set (pl_rows [4, - 2]). nonzero_row (js ''y'') row"
    unfolding pl_rows_def nonzero_row_def by (simp add: obj_get_def)
  with profit_loss_split [of "pl_rows [4, - 2]" "js ''y''" "js ''x''" "\<lambda>_. 0"] show ?thesis
    unfolding list_all_iff by blast
qed

text \<open>
  A line that touches zero is not split there: with the values +, 0, - all three rows are one
  segment, labelled as a loss.
\<close>

lemma zero_touch_not_split:
  assumes "obj_get a k = JNum (Fin p)" "obj_get z k = JNum 0" "obj_get b k = JNum (Fin q)"
    and "0 < p" and "q < 0"
  shows "splitProfitLossSegments [a, z, b] k x acc = [\<lparr>pl_data = [a, z, b], isPositive = False\<rparr>]"
  using assms
  by (simp add: splitProfitLossSegments_def crosses_def next_sign_def n_eq_def resolveSign_def zero_Fin)

end
