(* ===== verification/ScheduledTooltip.thy ===== *)
theory ScheduledTooltip
  imports JsonPrint
begin

text \<open>
  Tooltips that follow the pointer once per animation frame,
  src/ui/web/src/components/charts/use-scheduled-tooltip.ts.  A tooltip is a value of the language;
  \<open>None\<close> stands for \<open>null\<close>.  The hook's references and its state are the fields of a record, the
  pending animation frame is a flag, and each function of the hook and the frame callback is a step.
\<close>

section \<open>The hook\<close>

record scheduled =
  tooltipData :: "jsval option"
  lastKey :: "jstr option"
  st_pending :: "jsval option"
  frame :: bool
  pendingKey :: "jstr option"

definition scheduled_initial :: scheduled where
  "scheduled_initial = \<lparr>tooltipData = None, lastKey = None, st_pending = None, frame = False, pendingKey = None\<rparr>"

text \<open>A tooltip that cannot be written as JSON has no key.\<close>

definition defaultDedupeKey :: "jsval \<Rightarrow> jstr option" where
  "defaultDedupeKey tooltip = (case tooltip of
     JObj ob \<Rightarrow> (case obj_get ob (js ''index'') of
         JNum index \<Rightarrow> (case obj_get ob (js ''x'') of
             JNum x \<Rightarrow> Some (num_str index @ js '':'' @ num_str (n_round x))
           | _ \<Rightarrow> Some (num_str index))
       | _ \<Rightarrow> json_stringify 0 tooltip)
   | _ \<Rightarrow> json_stringify 0 tooltip)"

definition commitTooltip :: "jsval \<Rightarrow> jstr \<Rightarrow> scheduled \<Rightarrow> scheduled" where
  "commitTooltip tooltip dedupeKey s =
     (if Some dedupeKey = lastKey s then s
      else s\<lparr>lastKey := Some dedupeKey, tooltipData := Some tooltip\<rparr>)"

definition scheduleTooltip :: "jsval \<Rightarrow> jstr option \<Rightarrow> scheduled \<Rightarrow> scheduled" where
  "scheduleTooltip tooltip dedupeKey s =
     (let key = (case dedupeKey of Some k \<Rightarrow> Some k | None \<Rightarrow> defaultDedupeKey tooltip);
          s1 = s\<lparr>st_pending := Some tooltip, pendingKey := key\<rparr>
      in if key \<noteq> None \<and> key = lastKey s then s1
         else if frame s then s1
         else s1\<lparr>frame := True\<rparr>)"

text \<open>The callback of the animation frame.\<close>

definition run_frame :: "scheduled \<Rightarrow> scheduled" where
  "run_frame s =
     (if frame s then
        let s1 = s\<lparr>frame := False\<rparr>
        in (case (st_pending s, pendingKey s) of
              (Some nxt, Some nextKey) \<Rightarrow>
                if truthy nxt \<and> nextKey \<noteq> [] then commitTooltip nxt nextKey s1 else s1
            | _ \<Rightarrow> s1)
      else s)"

definition clearTooltip :: "scheduled \<Rightarrow> scheduled" where
  "clearTooltip s = s\<lparr>frame := False, st_pending := None, pendingKey := None, lastKey := None, tooltipData := None\<rparr>"

definition resetTooltipDedupe :: "scheduled \<Rightarrow> scheduled" where
  "resetTooltipDedupe s = s\<lparr>lastKey := None\<rparr>"

definition setTooltipData :: "jsval option \<Rightarrow> scheduled \<Rightarrow> scheduled" where
  "setTooltipData t s = s\<lparr>tooltipData := t\<rparr>"

datatype tooltip_event = ScheduleTooltip jsval "jstr option" | Frame | ClearTooltip | ResetDedupe
  | SetTooltip "jsval option"

fun tooltip_step :: "scheduled \<Rightarrow> tooltip_event \<Rightarrow> scheduled" where
  "tooltip_step s (ScheduleTooltip t k) = scheduleTooltip t k s"
| "tooltip_step s Frame = run_frame s"
| "tooltip_step s ClearTooltip = clearTooltip s"
| "tooltip_step s ResetDedupe = resetTooltipDedupe s"
| "tooltip_step s (SetTooltip t) = setTooltipData t s"

section \<open>What is shown between frames\<close>

text \<open>The tooltip a schedule asks for, with its key, and whether it can be shown.\<close>

definition key_for :: "jsval \<Rightarrow> jstr option \<Rightarrow> jstr option" where
  "key_for t k = (case k of Some k' \<Rightarrow> Some k' | None \<Rightarrow> defaultDedupeKey t)"

text \<open>
  The keys are a function of the tooltips: \<open>kf\<close> is the key every schedule of the run uses, it is not
  empty, and nothing sets the tooltip past the hook.
\<close>

fun tooltip_ok :: "(jsval \<Rightarrow> jstr) \<Rightarrow> scheduled \<Rightarrow> tooltip_event \<Rightarrow> bool" where
  "tooltip_ok kf s (ScheduleTooltip t k) = (key_for t k = Some (kf t) \<and> kf t \<noteq> [] \<and> truthy t)"
| "tooltip_ok kf s (SetTooltip t) = False"
| "tooltip_ok kf s e = True"

definition tooltip_inv :: "(jsval \<Rightarrow> jstr) \<Rightarrow> scheduled \<Rightarrow> bool" where
  "tooltip_inv kf s \<longleftrightarrow>
     (case st_pending s of
        None \<Rightarrow> pendingKey s = None \<and> tooltipData s = None \<and> lastKey s = None \<and> \<not> frame s
      | Some t \<Rightarrow> pendingKey s = Some (kf t) \<and> kf t \<noteq> [] \<and> truthy t \<and>
          (\<not> frame s \<longrightarrow> map_option kf (tooltipData s) = Some (kf t))) \<and>
     (lastKey s \<noteq> None \<longrightarrow> map_option kf (tooltipData s) = lastKey s)"

lemma run_frame_eq:
  assumes "tooltip_inv kf s"
  shows "run_frame s = (case st_pending s of
    Some t \<Rightarrow> if frame s then commitTooltip t (kf t) (s\<lparr>frame := False\<rparr>) else s | None \<Rightarrow> s)"
  using assms by (auto simp: tooltip_inv_def run_frame_def Let_def split: option.splits)

lemma frame_inv:
  assumes "tooltip_inv kf s"
  shows "tooltip_inv kf (run_frame s)"
proof (cases "st_pending s")
  case (Some t)
  show ?thesis
  proof (cases "lastKey s = Some (kf t)")
    case True
    then show ?thesis
      using assms Some by (simp add: run_frame_eq [OF assms] commitTooltip_def tooltip_inv_def)
  next
    case False
    then show ?thesis
      using assms Some by (simp add: run_frame_eq [OF assms] commitTooltip_def tooltip_inv_def)
  qed
qed (use assms in \<open>simp add: run_frame_eq [OF assms]\<close>)

lemma tooltip_step_inv:
  assumes "tooltip_inv kf s" and "tooltip_ok kf s e"
  shows "tooltip_inv kf (tooltip_step s e)"
proof (cases e)
  case (ScheduleTooltip t k)
  have key: "(case k of Some k' \<Rightarrow> Some k' | None \<Rightarrow> defaultDedupeKey t) = Some (kf t)"
    using assms(2) by (simp add: ScheduleTooltip key_for_def)
  show ?thesis
    using assms
    unfolding ScheduleTooltip tooltip_step.simps scheduleTooltip_def Let_def key
    by (auto simp: tooltip_inv_def split: option.splits)
next
  case Frame
  then show ?thesis using assms(1) by (simp add: frame_inv)
qed (use assms in \<open>auto simp: tooltip_inv_def clearTooltip_def resetTooltipDedupe_def split: option.splits\<close>)

interpretation tooltip: guarded_machine tooltip_step "tooltip_ok kf" "tooltip_inv kf" for kf
  by unfold_locales (rule tooltip_step_inv)

text \<open>The last tooltip scheduled since the last clear.\<close>

fun latest :: "jsval option \<Rightarrow> tooltip_event list \<Rightarrow> jsval option" where
  "latest t [] = t"
| "latest t (ScheduleTooltip u k # es) = latest (Some u) es"
| "latest t (ClearTooltip # es) = latest None es"
| "latest t (e # es) = latest t es"

lemma latest_pending: "st_pending (foldl tooltip_step s es) = latest (st_pending s) es"
proof (induction es arbitrary: s)
  case (Cons e es)
  then show ?case
    by (cases e) (auto simp: scheduleTooltip_def run_frame_def commitTooltip_def clearTooltip_def
        resetTooltipDedupe_def setTooltipData_def Let_def split: option.split)
qed simp

text \<open>
  However moves, frames, clears and resets of the deduplication interleave: once no frame is
  pending, the chart shows the tooltip last scheduled since the last clear, up to its key, and none
  if there was no schedule; while a frame is pending, the next frame brings that about.
\<close>

theorem tooltip_follows_pointer:
  assumes "ok_run tooltip_step (tooltip_ok kf) scheduled_initial es"
  defines "s \<equiv> foldl tooltip_step scheduled_initial es"
  shows "map_option kf (tooltipData (run_frame s)) = map_option kf (latest None es) \<and>
    (\<not> frame s \<longrightarrow> run_frame s = s)"
proof -
  have "tooltip_inv kf scheduled_initial"
    by (simp add: tooltip_inv_def scheduled_initial_def)
  from tooltip.run_guarded [OF this assms(1)] have "tooltip_inv kf s"
    by (simp add: s_def)
  moreover from this have "tooltip_inv kf (run_frame s)" "\<not> frame (run_frame s)"
    using tooltip_step_inv [of kf s Frame]
    by (auto simp: run_frame_def commitTooltip_def Let_def split: option.split)
  moreover have "st_pending (run_frame s) = latest None es"
    using latest_pending [of scheduled_initial es]
    by (auto simp: s_def scheduled_initial_def run_frame_def commitTooltip_def Let_def split: option.split)
  ultimately show ?thesis
    by (auto simp: tooltip_inv_def run_frame_def split: option.splits)
qed

lemma tooltip_follows_pointer_witness:
  "tooltipData (run_frame (foldl tooltip_step scheduled_initial
     [ScheduleTooltip (JStr (js ''a'')) (Some (js ''a'')), ScheduleTooltip (JStr (js ''b'')) (Some (js ''b''))])) \<noteq> None"
proof -
  let ?es = "[ScheduleTooltip (JStr (js ''a'')) (Some (js ''a'')), ScheduleTooltip (JStr (js ''b'')) (Some (js ''b''))]"
  let ?kf = "\<lambda>v. case v of JStr k \<Rightarrow> k | _ \<Rightarrow> []"
  have "ok_run tooltip_step (tooltip_ok ?kf) scheduled_initial ?es"
    by (simp add: key_for_def)
  from tooltip_follows_pointer [OF this] show ?thesis by auto
qed

end
