(* ===== verification/YAxis.thy ===== *)
theory YAxis
  imports ChartPhase
begin

text \<open>
  Vertical axes, src/ui/web/src/components/charts/y-axis-scales.ts, y-domain-utils.ts and
  y-axis-ticks.ts.  The scales of the visx library are parameters: \<open>nice\<close> is the domain a scale with
  \<open>nice: true\<close> reports, \<open>mk\<close> builds a scale from its range, its domain and that flag.
\<close>

section \<open>Axes of lines\<close>

record line_config =
  dataKey :: jstr
  yAxisId :: jsval

definition DEFAULT_Y_AXIS_ID :: jstr where
  "DEFAULT_Y_AXIS_ID = js ''left''"

definition normalizeYAxisId :: "jsval \<Rightarrow> jstr" where
  "normalizeYAxisId i = (if nullish i \<or> i = JStr [] then DEFAULT_Y_AXIS_ID else to_str i)"

text \<open>A \<open>Map\<close> keeps its keys in the order they were first set.\<close>

definition group_line :: "(jstr \<times> line_config list) list \<Rightarrow> line_config \<Rightarrow> (jstr \<times> line_config list) list" where
  "group_line groups line =
     (let axisId = normalizeYAxisId (yAxisId line);
          bucket = (case map_of groups axisId of Some b \<Rightarrow> b | None \<Rightarrow> [])
      in obj_define groups axisId (bucket @ [line]))"

definition groupLinesByYAxisId :: "line_config list \<Rightarrow> (jstr \<times> line_config list) list" where
  "groupLinesByYAxisId lines = foldl group_line [] lines"

type_synonym ydomain = "jnum \<times> jnum"

text \<open>The records below are indexed with axis ids; the names of \<open>Object.prototype\<close> are not axis ids.\<close>

definition getPrimaryYScale :: "(jstr \<times> 's) list \<Rightarrow> 's \<Rightarrow> 's" where
  "getPrimaryYScale yScales fallback = (case map_of yScales DEFAULT_Y_AXIS_ID of
     Some primary \<Rightarrow> primary
   | None \<Rightarrow> (case obj_entries yScales of [] \<Rightarrow> fallback | e # _ \<Rightarrow> snd e))"

definition axis_keys :: "line_config list \<Rightarrow> jstr list" where
  "axis_keys axisLines = map dataKey axisLines"

definition default_domain :: ydomain where
  "default_domain = (0, 100)"

definition with_default :: "'s \<Rightarrow> (jstr \<times> 's) list \<Rightarrow> (jstr \<times> 's) list" where
  "with_default v scales =
     (if map_of scales DEFAULT_Y_AXIS_ID = None then obj_set scales DEFAULT_Y_AXIS_ID v else scales)"

definition buildYScalesForLines ::
    "(jnum \<times> jnum \<Rightarrow> ydomain \<Rightarrow> bool \<Rightarrow> 's) \<Rightarrow> line_config list \<Rightarrow> jnum \<Rightarrow> (jstr list \<Rightarrow> ydomain) \<Rightarrow> (jstr \<times> 's) list" where
  "buildYScalesForLines mk lines innerHeight resolveDomain =
     with_default (mk (innerHeight, 0) default_domain True)
       (foldl (\<lambda>scales (axisId, axisLines).
           obj_set scales axisId (mk (innerHeight, 0) (resolveDomain (axis_keys axisLines)) True))
         [] (groupLinesByYAxisId lines))"

definition domain_for :: "(jstr \<times> ydomain) list \<Rightarrow> jstr \<Rightarrow> ydomain" where
  "domain_for domainsByAxis axisId = (case map_of domainsByAxis axisId of
     Some d \<Rightarrow> d
   | None \<Rightarrow> (case map_of domainsByAxis DEFAULT_Y_AXIS_ID of Some d \<Rightarrow> d | None \<Rightarrow> default_domain))"

definition buildYScalesFromDomains ::
    "(jnum \<times> jnum \<Rightarrow> ydomain \<Rightarrow> bool \<Rightarrow> 's) \<Rightarrow> line_config list \<Rightarrow> jnum \<Rightarrow> (jstr \<times> ydomain) list \<Rightarrow> (jstr \<times> 's) list" where
  "buildYScalesFromDomains mk lines innerHeight domainsByAxis =
     with_default (mk (innerHeight, 0) (domain_for domainsByAxis DEFAULT_Y_AXIS_ID) False)
       (foldl (\<lambda>scales (axisId, _). obj_set scales axisId (mk (innerHeight, 0) (domain_for domainsByAxis axisId) False))
         [] (groupLinesByYAxisId lines))"

definition wrapSingleYScale :: "'s \<Rightarrow> (jstr \<times> 's) list" where
  "wrapSingleYScale yScale = [(DEFAULT_Y_AXIS_ID, yScale)]"

section \<open>Domains\<close>

definition shouldTweenYDomain :: "ydomain \<Rightarrow> ydomain \<Rightarrow> bool" where
  "shouldTweenYDomain d e =
     (let span = n_max (n_max (n_abs (snd e - fst e)) (n_abs (snd d - fst d))) 1;
          deltaMin = n_abs (fst e - fst d) / span;
          deltaMax = n_abs (snd e - snd d) / span
      in Fin (2 / 100) \<le> deltaMin \<or> Fin (2 / 100) \<le> deltaMax)"

definition isLoadingChromePhase :: "chart_phase \<Rightarrow> bool" where
  "isLoadingChromePhase ph \<longleftrightarrow> ph = PhLoading \<or> ph = PhRevealingLoading"

definition isLoadingGridChromePhase :: "chart_phase \<Rightarrow> bool" where
  "isLoadingGridChromePhase ph \<longleftrightarrow> ph = PhLoading \<or> ph = PhExiting \<or> ph = PhGridTweenLoading"

definition isYDomainTweenPhase :: "chart_phase \<Rightarrow> bool" where
  "isYDomainTweenPhase ph \<longleftrightarrow> ph = PhGridTweenLoading \<or> ph = PhGridTweenReady"

definition resolveAnimatedYDestinationDomains :: "chart_phase \<Rightarrow> 'd \<Rightarrow> 'd \<Rightarrow> 'd" where
  "resolveAnimatedYDestinationDomains ph skeletonByAxis targetByAxis = (case ph of
     PhLoading \<Rightarrow> skeletonByAxis
   | PhExiting \<Rightarrow> skeletonByAxis
   | PhGridTweenLoading \<Rightarrow> skeletonByAxis
   | _ \<Rightarrow> targetByAxis)"

definition computeYDomainsByAxis ::
    "(ydomain \<Rightarrow> ydomain) \<Rightarrow> line_config list \<Rightarrow> (jstr list \<Rightarrow> ydomain) \<Rightarrow> (jstr \<times> ydomain) list" where
  "computeYDomainsByAxis nice lines resolveDomain =
     with_default (nice default_domain)
       (foldl (\<lambda>domains (axisId, axisLines).
           obj_set domains (normalizeYAxisId (JStr axisId)) (nice (resolveDomain (axis_keys axisLines))))
         [] (groupLinesByYAxisId lines))"

definition mergeYDomainRecords :: "(jstr \<times> ydomain) list list \<Rightarrow> (jstr \<times> ydomain) list" where
  "mergeYDomainRecords records =
     foldl (foldl (\<lambda>merged (axisId, dm). obj_set merged (normalizeYAxisId (JStr axisId)) dm))
       [] (map obj_entries records)"

definition domainsEqual :: "(jstr \<times> ydomain) list \<Rightarrow> (jstr \<times> ydomain) list \<Rightarrow> bool" where
  "domainsEqual l r \<longleftrightarrow> length l = length r \<and>
     list_all (\<lambda>axisId. case (map_of l axisId, map_of r axisId) of
         (Some a, Some b) \<Rightarrow> n_eq (fst a) (fst b) \<and> n_eq (snd a) (snd b)
       | _ \<Rightarrow> False) (map fst l)"

section \<open>Ticks\<close>

definition resolveYAxisTickCount :: "jnum option \<Rightarrow> jnum" where
  "resolveYAxisTickCount numTicks = (case numTicks of
     None \<Rightarrow> 5
   | Some n \<Rightarrow> if \<not> is_finite n then 5
       else let rounded = n_round n in if rounded < 1 then 1 else if 10 < rounded then 10 else rounded)"

section \<open>Every line has a scale on its axis\<close>

text \<open>Grouping is a partition: the group of an axis holds the lines of that axis, in order.\<close>

lemma group_line_lookup:
  "map_of (group_line gs l) a = (if a = normalizeYAxisId (yAxisId l)
     then Some ((case map_of gs a of Some b \<Rightarrow> b | None \<Rightarrow> []) @ [l]) else map_of gs a)"
  by (simp add: group_line_def Let_def map_of_define)

lemma groups_lookup:
  "map_of (groupLinesByYAxisId lines) a =
     (let own = filter (\<lambda>l. normalizeYAxisId (yAxisId l) = a) lines in if own = [] then None else Some own)"
proof -
  have "map_of (foldl group_line gs lines) a =
    (let own = filter (\<lambda>l. normalizeYAxisId (yAxisId l) = a) lines
     in if own = [] then map_of gs a
        else Some ((case map_of gs a of Some b \<Rightarrow> b | None \<Rightarrow> []) @ own))" for gs
    by (induction lines arbitrary: gs) (auto simp: group_line_lookup Let_def split: option.split)
  from this [of "[]"] show ?thesis
    by (simp add: groupLinesByYAxisId_def Let_def)
qed

lemma groups_distinct: "distinct (map fst (groupLinesByYAxisId lines))"
proof -
  have "distinct (map fst (foldl group_line gs lines))" if "distinct (map fst gs)" for gs
    using that by (induction lines arbitrary: gs) (simp_all add: group_line_def Let_def distinct_define)
  from this [of "[]"] show ?thesis by (simp add: groupLinesByYAxisId_def)
qed

text \<open>Assigning along a list of entries with different keys.\<close>

lemma assign_all:
  assumes "distinct (map fst es)" and "proto_key \<notin> fst ` set es"
  shows "map_of (foldl (\<lambda>m (k, v). obj_set m k (f k v)) m es) a =
    (case map_of es a of Some v \<Rightarrow> Some (f a v) | None \<Rightarrow> map_of m a)"
  using assms
proof (induction es arbitrary: m)
  case (Cons e es)
  obtain k v where e: "e = (k, v)" by (cases e)
  have "map_of es k = None"
    using Cons.prems(1) by (simp add: e map_of_eq_None_iff)
  moreover have "k \<noteq> proto_key" using Cons.prems(2) by (auto simp: e)
  ultimately show ?case
    using Cons.IH [of "obj_set m k (f k v)"] Cons.prems by (simp add: e map_of_set split: option.split)
qed simp

lemma with_default_lookup:
  "map_of (with_default v m) a = (case map_of m a of Some w \<Rightarrow> Some w
     | None \<Rightarrow> if a = DEFAULT_Y_AXIS_ID then Some v else None)"
proof -
  have "DEFAULT_Y_AXIS_ID \<noteq> proto_key"
    by (simp add: DEFAULT_Y_AXIS_ID_def proto_key_def)
  then show ?thesis
    by (auto simp: with_default_def map_of_set split: option.split)
qed

text \<open>
  The domains of a chart: every line finds a domain under its own axis, computed from exactly
  the keys of the lines on that axis in their order; the left axis always has one, and no other
  axis does.
\<close>

theorem domains_by_axis:
  assumes "\<forall>l \<in> set lines. normalizeYAxisId (yAxisId l) \<noteq> proto_key \<and> normalizeYAxisId (yAxisId l) \<noteq> []"
  shows "map_of (computeYDomainsByAxis nice lines resolve) a =
    (let own = filter (\<lambda>l. normalizeYAxisId (yAxisId l) = a) lines
     in if own \<noteq> [] then Some (nice (resolve (map dataKey own)))
        else if a = DEFAULT_Y_AXIS_ID then Some (nice (0, 100)) else None)"
proof -
  let ?gs = "groupLinesByYAxisId lines"
  have keys: "k \<noteq> proto_key \<and> k \<noteq> []" if "k \<in> fst ` set ?gs" for k
  proof -
    from that obtain own where "map_of ?gs k = Some own"
      by (metis map_of_eq_None_iff not_None_eq)
    then show ?thesis
      using assms by (auto simp: groups_lookup Let_def filter_empty_conv split: if_splits)
  qed
  have norm: "normalizeYAxisId (JStr k) = k" if "k \<noteq> []" for k
    using that by (simp add: normalizeYAxisId_def nullish_def)
  have cong: "foldl (\<lambda>domains (axisId, axisLines).
        obj_set domains (normalizeYAxisId (JStr axisId)) (nice (resolve (axis_keys axisLines)))) [] ?gs =
    foldl (\<lambda>m (k, v). obj_set m k (nice (resolve (axis_keys v)))) [] ?gs"
  proof (rule foldl_cong [OF refl refl])
    fix m and e :: "jstr \<times> line_config list"
    assume "e \<in> set ?gs"
    then have "fst e \<noteq> []" using keys by auto
    from norm [OF this]
    show "(case e of (axisId, axisLines) \<Rightarrow>
        obj_set m (normalizeYAxisId (JStr axisId)) (nice (resolve (axis_keys axisLines)))) =
      (case e of (k, v) \<Rightarrow> obj_set m k (nice (resolve (axis_keys v))))"
      by (simp add: case_prod_unfold)
  qed
  have "proto_key \<notin> fst ` set ?gs"
    using keys by blast
  note lookup = assign_all [OF groups_distinct this, of "\<lambda>k v. nice (resolve (axis_keys v))" "[]" a]
  have "map_of (computeYDomainsByAxis nice lines resolve) a =
    (case map_of ?gs a of Some own \<Rightarrow> Some (nice (resolve (axis_keys own)))
     | None \<Rightarrow> if a = DEFAULT_Y_AXIS_ID then Some (nice default_domain) else None)"
    unfolding computeYDomainsByAxis_def with_default_lookup cong lookup by (simp split: option.split)
  then show ?thesis
    by (simp add: groups_lookup Let_def axis_keys_def default_domain_def)
qed

definition sample_lines :: "line_config list" where
  "sample_lines = [\<lparr>dataKey = js ''a'', yAxisId = JUndef\<rparr>, \<lparr>dataKey = js ''b'', yAxisId = JStr (js ''right'')\<rparr>,
     \<lparr>dataKey = js ''c'', yAxisId = JStr (js ''left'')\<rparr>]"

lemma domains_by_axis_witness:
  "map_of (computeYDomainsByAxis id sample_lines (\<lambda>ks. (0, Fin (of_nat (length ks))))) (js ''left'') = Some (0, Fin 2)"
proof -
  have "\<forall>l \<in> set sample_lines. normalizeYAxisId (yAxisId l) \<noteq> proto_key \<and> normalizeYAxisId (yAxisId l) \<noteq> []"
    by (simp add: sample_lines_def normalizeYAxisId_def nullish_def proto_key_def DEFAULT_Y_AXIS_ID_def)
  from domains_by_axis [OF this] show ?thesis
    by (simp add: sample_lines_def normalizeYAxisId_def nullish_def DEFAULT_Y_AXIS_ID_def)
qed

end
