(* ===== verification/ChartInteraction.thy ===== *)
theory ChartInteraction
  imports ScheduledTooltip YAxis
begin

text \<open>
  Hovering, dragging and touching a chart,
  src/ui/web/src/components/charts/use-chart-interaction.ts, and the highlighted band of
  highlight-segment-bounds.ts.  The scales and the bisector come from libraries and are fields of
  the chart a handler runs on, with the properties of the last render.  A pointer event carries the
  pixel position the event library reports, or nothing.
\<close>

section \<open>The chart and its handlers\<close>

record chart_env =
  x_invert :: "jnum \<Rightarrow> jnum"
  x_scale :: "jnum \<Rightarrow> jnum option"
  y_scale :: "jnum \<Rightarrow> jnum option"
  y_scales :: "(jstr \<times> (jnum \<Rightarrow> jnum option)) list"
  ce_data :: "jsobj list"
  ce_lines :: "line_config list"
  margin_left :: jnum
  x_accessor :: "jsobj \<Rightarrow> jnum"
  bisect :: "jsobj list \<Rightarrow> jnum \<Rightarrow> nat \<Rightarrow> int"
  canInteract :: bool

record selection =
  startX :: jnum
  endX :: jnum
  startIndex :: int
  endIndex :: int
  active :: bool

text \<open>\<open>data[i]\<close>.\<close>

definition row_at :: "jsobj list \<Rightarrow> int \<Rightarrow> jsobj option" where
  "row_at data i = (if 0 \<le> i \<and> i < int (length data) then Some (data ! nat i) else None)"

text \<open>Whether the right neighbour is nearer.\<close>

definition right_nearer :: "chart_env \<Rightarrow> jnum \<Rightarrow> jsobj \<Rightarrow> jsobj \<Rightarrow> bool" where
  "right_nearer c x0 d0 d1 \<longleftrightarrow> x_accessor c d1 - x0 < x0 - x_accessor c d0"

definition y_position :: "chart_env \<Rightarrow> jsobj \<Rightarrow> jsobj \<Rightarrow> line_config \<Rightarrow> jsobj" where
  "y_position c d yPositions line = (case obj_get d (dataKey line) of
     JNum v \<Rightarrow>
       let axisScale = (case map_of (y_scales c) (normalizeYAxisId (yAxisId line)) of
             Some sc \<Rightarrow> sc | None \<Rightarrow> y_scale c)
       in obj_set yPositions (dataKey line) (JNum (case axisScale v of Some y \<Rightarrow> y | None \<Rightarrow> 0))
   | _ \<Rightarrow> yPositions)"

definition resolveTooltipFromX :: "chart_env \<Rightarrow> jnum \<Rightarrow> jsval option" where
  "resolveTooltipFromX c pixelX =
     (let x0 = x_invert c pixelX;
          index = bisect c (ce_data c) x0 1
      in (case row_at (ce_data c) (index - 1) of
            None \<Rightarrow> None
          | Some d0 \<Rightarrow>
              let (d, finalIndex) = (case row_at (ce_data c) index of
                    Some d1 \<Rightarrow> if right_nearer c x0 d0 d1 then (d1, index) else (d0, index - 1)
                  | None \<Rightarrow> (d0, index - 1))
              in Some (JObj
                   [(js ''point'', JObj d), (js ''index'', JNum (Fin (of_int finalIndex))),
                    (js ''x'', JNum (case x_scale c (x_accessor c d) of Some x \<Rightarrow> x | None \<Rightarrow> 0)),
                    (js ''yPositions'', JObj (foldl (y_position c d) [] (ce_lines c)))])))"

definition resolveIndexFromX :: "chart_env \<Rightarrow> jnum \<Rightarrow> int" where
  "resolveIndexFromX c pixelX =
     (let x0 = x_invert c pixelX;
          index = bisect c (ce_data c) x0 1
      in (case row_at (ce_data c) (index - 1) of
            None \<Rightarrow> 0
          | Some d0 \<Rightarrow> (case row_at (ce_data c) index of
              Some d1 \<Rightarrow> if right_nearer c x0 d0 d1 then index else index - 1
            | None \<Rightarrow> index - 1)))"

text \<open>The position of a pointer in the chart: a mouse event has one point, a touch event a list.\<close>

definition getChartX :: "chart_env \<Rightarrow> jnum option \<Rightarrow> jnum option" where
  "getChartX c point = map_option (\<lambda>x. x - margin_left c) point"

definition touch_x :: "chart_env \<Rightarrow> jnum option list \<Rightarrow> nat \<Rightarrow> jnum option" where
  "touch_x c touches i = (if i < length touches then getChartX c (touches ! i) else None)"

definition select_range :: "chart_env \<Rightarrow> jnum \<Rightarrow> jnum \<Rightarrow> selection" where
  "select_range c a b = (let sx = n_min a b; ex = n_max a b
     in \<lparr>startX = sx, endX = ex, startIndex = resolveIndexFromX c sx, endIndex = resolveIndexFromX c ex,
         active = True\<rparr>)"

record interaction =
  chart :: chart_env
  selected :: "selection option"
  tips :: scheduled
  isDragging :: bool
  dragStartX :: jnum
  lastHoveredX :: "jnum option"

definition interaction_initial :: "chart_env \<Rightarrow> interaction" where
  "interaction_initial c = \<lparr>chart = c, selected = None, tips = scheduled_initial, isDragging = False,
     dragStartX = 0, lastHoveredX = None\<rparr>"

text \<open>A pointer over the chart: remember the place and schedule the tooltip found there.\<close>

definition hover :: "jnum \<Rightarrow> interaction \<Rightarrow> interaction" where
  "hover x s = (case resolveTooltipFromX (chart s) x of
     Some t \<Rightarrow> s\<lparr>lastHoveredX := Some x, tips := scheduleTooltip t None (tips s)\<rparr>
   | None \<Rightarrow> s\<lparr>lastHoveredX := Some x\<rparr>)"

definition handleMouseMove :: "jnum option \<Rightarrow> interaction \<Rightarrow> interaction" where
  "handleMouseMove point s = (case getChartX (chart s) point of
     None \<Rightarrow> s
   | Some chartX \<Rightarrow>
       if isDragging s then s\<lparr>selected := Some (select_range (chart s) (dragStartX s) chartX)\<rparr>
       else hover chartX s)"

definition handleMouseLeave :: "interaction \<Rightarrow> interaction" where
  "handleMouseLeave s =
     s\<lparr>lastHoveredX := None, tips := clearTooltip (tips s), isDragging := False, selected := None\<rparr>"

definition handleMouseDown :: "jnum option \<Rightarrow> interaction \<Rightarrow> interaction" where
  "handleMouseDown point s = (case getChartX (chart s) point of
     None \<Rightarrow> s
   | Some chartX \<Rightarrow> s\<lparr>isDragging := True, dragStartX := chartX, tips := clearTooltip (tips s), selected := None\<rparr>)"

definition handleMouseUp :: "interaction \<Rightarrow> interaction" where
  "handleMouseUp s = s\<lparr>isDragging := False, selected := None\<rparr>"

text \<open>One finger hovers.\<close>

definition touch_hover :: "jnum option list \<Rightarrow> interaction \<Rightarrow> interaction" where
  "touch_hover touches s = (case touch_x (chart s) touches 0 of None \<Rightarrow> s | Some chartX \<Rightarrow> hover chartX s)"

text \<open>Two fingers select.\<close>

definition touch_select :: "jnum option list \<Rightarrow> interaction \<Rightarrow> interaction" where
  "touch_select touches s = (case (touch_x (chart s) touches 0, touch_x (chart s) touches 1) of
     (Some x0, Some x1) \<Rightarrow> s\<lparr>selected := Some (select_range (chart s) x0 x1)\<rparr>
   | _ \<Rightarrow> s)"

definition handleTouchStart :: "jnum option list \<Rightarrow> interaction \<Rightarrow> interaction" where
  "handleTouchStart touches s =
     (if length touches = 1 then touch_hover touches s
      else if length touches = 2 then
        touch_select touches (s\<lparr>tips := clearTooltip (resetTooltipDedupe (tips s))\<rparr>)
      else s)"

definition handleTouchMove :: "jnum option list \<Rightarrow> interaction \<Rightarrow> interaction" where
  "handleTouchMove touches s =
     (if length touches = 1 then touch_hover touches s
      else if length touches = 2 then touch_select touches s
      else s)"

definition handleTouchEnd :: "interaction \<Rightarrow> interaction" where
  "handleTouchEnd s = s\<lparr>tips := clearTooltip (tips s), selected := None\<rparr>"

definition clearSelection :: "interaction \<Rightarrow> interaction" where
  "clearSelection s = s\<lparr>selected := None\<rparr>"

text \<open>The effect of a render whose scales, data or permission to interact have changed.\<close>

definition reanchor :: "interaction \<Rightarrow> interaction" where
  "reanchor s = (case lastHoveredX s of
     None \<Rightarrow> s
   | Some x \<Rightarrow>
       if \<not> canInteract (chart s) then s
       else (case resolveTooltipFromX (chart s) x of
           Some t \<Rightarrow> s\<lparr>tips := setTooltipData (Some t) (tips s)\<rparr>
         | None \<Rightarrow> s\<lparr>tips := clearTooltip (tips s)\<rparr>))"

datatype pointer_event = MouseMove "jnum option" | MouseLeave | MouseDown "jnum option" | MouseUp
  | TouchStart "jnum option list" | TouchMove "jnum option list" | TouchEnd

datatype interaction_event = Pointer pointer_event | ClearSelection | AnimationFrame | Rendered chart_env

fun handle :: "pointer_event \<Rightarrow> interaction \<Rightarrow> interaction" where
  "handle (MouseMove p) s = handleMouseMove p s"
| "handle MouseLeave s = handleMouseLeave s"
| "handle (MouseDown p) s = handleMouseDown p s"
| "handle MouseUp s = handleMouseUp s"
| "handle (TouchStart ts) s = handleTouchStart ts s"
| "handle (TouchMove ts) s = handleTouchMove ts s"
| "handle TouchEnd s = handleTouchEnd s"

text \<open>Without permission to interact no handler is attached.\<close>

fun interaction_step :: "interaction \<Rightarrow> interaction_event \<Rightarrow> interaction" where
  "interaction_step s (Pointer e) = (if canInteract (chart s) then handle e s else s)"
| "interaction_step s ClearSelection = clearSelection s"
| "interaction_step s AnimationFrame = s\<lparr>tips := run_frame (tips s)\<rparr>"
| "interaction_step s (Rendered c) = reanchor (s\<lparr>chart := c\<rparr>)"

section \<open>The highlighted band\<close>

record segment_bounds =
  sb_x :: jnum
  sb_width :: jnum
  isActive :: bool

definition INACTIVE_SEGMENT :: segment_bounds where
  "INACTIVE_SEGMENT = \<lparr>sb_x = 0, sb_width = 0, isActive = False\<rparr>"

text \<open>The band around the hovered row; \<open>hovered\<close> is the index of the tooltip.\<close>

definition hover_band ::
    "jsobj list \<Rightarrow> (jnum \<Rightarrow> jnum option) \<Rightarrow> (jsobj \<Rightarrow> jnum) \<Rightarrow> int option \<Rightarrow> segment_bounds" where
  "hover_band data xScale xAccessor hovered = (case hovered of
     None \<Rightarrow> INACTIVE_SEGMENT
   | Some idx \<Rightarrow>
       let startIdx = max 0 (idx - 1); endIdx = min (int (length data) - 1) (idx + 1)
       in (case (row_at data startIdx, row_at data endIdx) of
             (Some startPoint, Some endPoint) \<Rightarrow>
               let sx = (case xScale (xAccessor startPoint) of Some x \<Rightarrow> x | None \<Rightarrow> 0);
                   ex = (case xScale (xAccessor endPoint) of Some x \<Rightarrow> x | None \<Rightarrow> 0)
               in \<lparr>sb_x = sx, sb_width = n_max 0 (ex - sx), isActive = True\<rparr>
           | _ \<Rightarrow> INACTIVE_SEGMENT))"

definition computeSegmentBounds ::
    "jsobj list \<Rightarrow> (jnum \<Rightarrow> jnum option) \<Rightarrow> (jsobj \<Rightarrow> jnum) \<Rightarrow> int option \<Rightarrow> selection option \<Rightarrow> segment_bounds" where
  "computeSegmentBounds data xScale xAccessor hovered sel =
     (if data = [] then INACTIVE_SEGMENT
      else (case sel of
        Some z \<Rightarrow> if active z then
            \<lparr>sb_x = n_min (startX z) (endX z), sb_width = n_abs (endX z - startX z), isActive = True\<rparr>
          else hover_band data xScale xAccessor hovered
      | None \<Rightarrow> hover_band data xScale xAccessor hovered))"

section \<open>The nearest row\<close>

text \<open>
  What the bisector documents for rows sorted by time: a place from \<open>lo = 1\<close> on that has the
  earlier rows before it and the others from it on.
\<close>

definition bisects :: "chart_env \<Rightarrow> (nat \<Rightarrow> rat) \<Rightarrow> rat \<Rightarrow> bool" where
  "bisects c T t \<longleftrightarrow> (\<exists>b. bisect c (ce_data c) (Fin t) 1 = int b \<and> 1 \<le> b \<and> b \<le> max 1 (length (ce_data c)) \<and>
     (\<forall>j. 1 \<le> j \<and> j < b \<longrightarrow> T j < t) \<and> (\<forall>j. b \<le> j \<and> j < length (ce_data c) \<longrightarrow> t \<le> T j))"

lemma row_at_nat [simp]: "row_at data (int i) = (if i < length data then Some (data ! i) else None)"
  by (simp add: row_at_def)

lemma row_at_pred: "1 \<le> b \<Longrightarrow> row_at data (int b - 1) = row_at data (int (b - 1))"
  by (simp add: of_nat_diff)

text \<open>The nearer of two neighbours \<open>a\<close> and \<open>c\<close> is nearer than anything outside of them.\<close>

lemma nearer_left:
  fixes a :: rat
  assumes "t \<le> c" and "x \<le> a" and "x = a \<or> a < t"
  shows "\<bar>(if c - t < t - a then c else a) - t\<bar> \<le> \<bar>x - t\<bar>"
  using assms by (cases "c - t < t - a") auto

lemma nearer_right:
  fixes a :: rat
  assumes "t \<le> c" and "c \<le> x" and "a \<le> c"
  shows "\<bar>(if c - t < t - a then c else a) - t\<bar> \<le> \<bar>x - t\<bar>"
  using assms by (cases "c - t < t - a") auto

lemma nearest_index:
  fixes T :: "nat \<Rightarrow> rat"
  assumes times: "\<And>j. j < n \<Longrightarrow> x_accessor c (ce_data c ! j) = Fin (T j)"
    and n: "n = length (ce_data c)" "0 < n" and sorted: "\<And>i j. i \<le> j \<Longrightarrow> j < n \<Longrightarrow> T i \<le> T j"
    and t: "x_invert c px = Fin t" and b: "bisects c T t"
  shows "\<exists>i < n. resolveIndexFromX c px = int i \<and> (\<forall>j < n. \<bar>T i - t\<bar> \<le> \<bar>T j - t\<bar>)"
proof -
  obtain b where b: "bisect c (ce_data c) (Fin t) 1 = int b" "1 \<le> b" "b \<le> max 1 n"
    and before: "\<And>j. 1 \<le> j \<Longrightarrow> j < b \<Longrightarrow> T j < t" and after: "\<And>j. b \<le> j \<Longrightarrow> j < n \<Longrightarrow> t \<le> T j"
    using b n(1) unfolding bisects_def by blast
  have pred: "b - 1 < n"
    using b(2,3) n(2) by linarith
  have d0: "row_at (ce_data c) (int b - 1) = Some (ce_data c ! (b - 1))"
    using row_at_pred [OF b(2), of "ce_data c"] pred by (simp add: n(1))
  have d1: "row_at (ce_data c) (int b) = (if b < n then Some (ce_data c ! b) else None)"
    by (simp add: n(1))
  define i where "i = (if b < n \<and> T b - t < t - T (b - 1) then b else b - 1)"
  have "resolveIndexFromX c px = int i"
    using b(2) times [OF pred] times [of b]
    unfolding resolveIndexFromX_def t Let_def b(1) d0 d1
    by (simp add: i_def right_nearer_def of_nat_diff)
  moreover have "i < n"
    using pred by (auto simp: i_def)
  moreover have "\<bar>T i - t\<bar> \<le> \<bar>T j - t\<bar>" if "j < n" for j
  proof (cases "j < b")
    case True
    then have le: "T j \<le> T (b - 1)" using sorted pred by simp
    have side: "T j = T (b - 1) \<or> T (b - 1) < t"
      using True before [of "b - 1"] by (cases "j = b - 1") auto
    show ?thesis
    proof (cases "b < n")
      case True
      then have "T i = (if T b - t < t - T (b - 1) then T b else T (b - 1))" by (simp add: i_def)
      then show ?thesis
        using nearer_left [OF after [OF order_refl True] le side] by simp
    next
      case False
      then have "T i = T (b - 1)" by (simp add: i_def)
      then show ?thesis using le side by auto
    qed
  next
    case False
    then have "b < n" "T b \<le> T j" "t \<le> T b"
      using that sorted after by auto
    moreover have "T (b - 1) \<le> T b" using sorted \<open>b < n\<close> by simp
    moreover have "T i = (if T b - t < t - T (b - 1) then T b else T (b - 1))"
      using \<open>b < n\<close> by (simp add: i_def)
    ultimately show ?thesis
      using nearer_right [OF \<open>t \<le> T b\<close> \<open>T b \<le> T j\<close> \<open>T (b - 1) \<le> T b\<close>] by (simp only:)
  qed
  ultimately show ?thesis by blast
qed

text \<open>The tooltip under the pointer is the one of that row.\<close>

lemma tooltip_fields:
  "obj_get [(js ''point'', a), (js ''index'', b), (js ''x'', c), (js ''yPositions'', d)] (js ''index'') = b"
  "obj_get [(js ''point'', a), (js ''index'', b), (js ''x'', c), (js ''yPositions'', d)] (js ''point'') = a"
  by (simp_all add: obj_get_def)

definition hovered_row :: "chart_env \<Rightarrow> jsobj \<times> int \<Rightarrow> jsval" where
  "hovered_row c r = JObj
     [(js ''point'', JObj (fst r)), (js ''index'', JNum (Fin (of_int (snd r)))),
      (js ''x'', JNum (case x_scale c (x_accessor c (fst r)) of Some x \<Rightarrow> x | None \<Rightarrow> 0)),
      (js ''yPositions'', JObj (foldl (y_position c (fst r)) [] (ce_lines c)))]"

lemma tooltip_row:
  assumes "row_at (ce_data c) (bisect c (ce_data c) (x_invert c px) 1 - 1) = Some d0"
  shows "\<exists>d. row_at (ce_data c) (resolveIndexFromX c px) = Some d \<and>
    resolveTooltipFromX c px = Some (hovered_row c (d, resolveIndexFromX c px))"
proof -
  define b where "b = bisect c (ce_data c) (x_invert c px) 1"
  note d0 = assms [folded b_def]
  show ?thesis
    unfolding resolveTooltipFromX_def resolveIndexFromX_def Let_def b_def [symmetric] d0 option.case hovered_row_def
    using d0 by (cases "row_at (ce_data c) b") (simp_all only: option.case if_split split_conv fst_conv snd_conv, auto)
qed

text \<open>
  Hovering finds the nearest row: for rows sorted by a finite time and a pointer whose time is
  finite, the index the chart resolves is that of a row no other row is nearer to, and the tooltip
  under the pointer names that index and that row.
\<close>

theorem hover_nearest:
  assumes times: "\<And>j. j < length (ce_data c) \<Longrightarrow> x_accessor c (ce_data c ! j) = Fin (T j)"
    and "ce_data c \<noteq> []" and sorted: "\<And>i j. i \<le> j \<Longrightarrow> j < length (ce_data c) \<Longrightarrow> T i \<le> T j"
    and "x_invert c px = Fin t" and "bisects c T t"
  shows "\<exists>i ob. i < length (ce_data c) \<and> resolveIndexFromX c px = int i \<and>
    (\<forall>j < length (ce_data c). \<bar>T i - t\<bar> \<le> \<bar>T j - t\<bar>) \<and>
    resolveTooltipFromX c px = Some (JObj ob) \<and> obj_get ob (js ''index'') = JNum (Fin (of_nat i)) \<and>
    obj_get ob (js ''point'') = JObj (ce_data c ! i)"
proof -
  obtain i where i: "i < length (ce_data c)" "resolveIndexFromX c px = int i"
    "\<forall>j < length (ce_data c). \<bar>T i - t\<bar> \<le> \<bar>T j - t\<bar>"
    using nearest_index [OF times refl _ sorted assms(4,5)] assms(2) by blast
  obtain b where b: "bisect c (ce_data c) (Fin t) 1 = int b" "1 \<le> b" "b \<le> max 1 (length (ce_data c))"
    using assms(5) unfolding bisects_def by blast
  have "b - 1 < length (ce_data c)"
    using b(2,3) assms(2) length_greater_0_conv [of "ce_data c"] by linarith
  then have d0: "row_at (ce_data c) (int b - 1) = Some (ce_data c ! (b - 1))"
    using row_at_pred [OF b(2), of "ce_data c"] by simp
  then obtain d where d: "row_at (ce_data c) (int i) = Some d"
    "resolveTooltipFromX c px = Some (hovered_row c (d, int i))"
    using tooltip_row [of c px] unfolding assms(4) b(1) i(2) by blast
  have "d = ce_data c ! i"
    using d(1) i(1) by simp
  then show ?thesis
    using i d(2) unfolding hovered_row_def
    by (intro exI conjI) (auto simp only: tooltip_fields fst_conv snd_conv of_int_of_nat_eq)
qed

definition sample_env :: chart_env where
  "sample_env = \<lparr>x_invert = (\<lambda>x. x), x_scale = Some, y_scale = Some, y_scales = [],
     ce_data = [[(js ''t'', JNum 0)], [(js ''t'', JNum 10)]], ce_lines = [], margin_left = 0,
     x_accessor = (\<lambda>d. case obj_get d (js ''t'') of JNum v \<Rightarrow> v | _ \<Rightarrow> NaN),
     bisect = (\<lambda>_ _ _. 1), canInteract = True\<rparr>"

lemma hover_nearest_witness: "resolveIndexFromX sample_env (Fin 7) = 1"
proof -
  define T :: "nat \<Rightarrow> rat" where "T j = 10 * of_nat j" for j
  have times: "x_accessor sample_env (ce_data sample_env ! j) = Fin (T j)" if "j < length (ce_data sample_env)" for j
    using that by (auto simp: sample_env_def T_def obj_get_def less_Suc_eq jnum_literals)
  have "bisects sample_env T 7"
    by (auto simp: bisects_def sample_env_def T_def less_Suc_eq intro!: exI [of _ 1])
  from hover_nearest [OF times _ _ _ this, of "Fin 7"]
  obtain i where "i < 2" "resolveIndexFromX sample_env (Fin 7) = int i" "\<forall>j < 2. \<bar>T i - 7\<bar> \<le> \<bar>T j - 7\<bar>"
    by (auto simp: sample_env_def T_def numeral_2_eq_2)
  then show ?thesis
    by (auto simp: T_def less_2_cases_iff)
qed

section \<open>Dragging with the mouse\<close>

text \<open>Mouse events with finite positions, frames, and renders that do not change the chart during a drag.\<close>

definition finite_point :: "jnum option \<Rightarrow> bool" where
  "finite_point p \<longleftrightarrow> (case p of Some x \<Rightarrow> is_finite x | None \<Rightarrow> True)"

fun mouse_only :: "interaction \<Rightarrow> interaction_event \<Rightarrow> bool" where
  "mouse_only s (Pointer (MouseMove p)) = finite_point p"
| "mouse_only s (Pointer (MouseDown p)) = finite_point p"
| "mouse_only s (Pointer (TouchStart ts)) = False"
| "mouse_only s (Pointer (TouchMove ts)) = False"
| "mouse_only s (Rendered c) = (\<not> isDragging s \<and> is_finite (margin_left c))"
| "mouse_only s e = True"

definition quiet :: "scheduled \<Rightarrow> bool" where
  "quiet t \<longleftrightarrow> tooltipData t = None \<and> \<not> frame t"

definition drag_inv :: "interaction \<Rightarrow> bool" where
  "drag_inv s \<longleftrightarrow> is_finite (margin_left (chart s)) \<and> is_finite (dragStartX s) \<and>
     (isDragging s \<longrightarrow> quiet (tips s)) \<and>
     (case selected s of None \<Rightarrow> True
      | Some z \<Rightarrow> isDragging s \<and> active z \<and> is_finite (startX z) \<and> is_finite (endX z) \<and> startX z \<le> endX z)"

lemma select_range_ok:
  "is_finite a \<Longrightarrow> is_finite b \<Longrightarrow>
   active (select_range c a b) \<and> is_finite (startX (select_range c a b)) \<and>
   is_finite (endX (select_range c a b)) \<and> startX (select_range c a b) \<le> endX (select_range c a b)"
  by (elim is_finiteE) (simp add: select_range_def Let_def)

lemma hover_fields [simp]:
  "chart (hover x s) = chart s" "selected (hover x s) = selected s" "isDragging (hover x s) = isDragging s"
  "dragStartX (hover x s) = dragStartX s"
  by (simp_all add: hover_def split: option.split)

lemma finite_chart_x:
  "finite_point p \<Longrightarrow> is_finite (margin_left c) \<Longrightarrow> getChartX c p = Some x \<Longrightarrow> is_finite x"
  by (auto simp: finite_point_def getChartX_def elim!: is_finiteE split: option.splits)

lemma quiet_clear [simp]: "quiet (clearTooltip t)"
  by (simp add: quiet_def clearTooltip_def)

lemma quiet_frame [simp]: "quiet t \<Longrightarrow> quiet (run_frame t)"
  by (simp add: quiet_def run_frame_def)

lemma drag_step:
  assumes inv: "drag_inv s" and ok: "mouse_only s e"
  shows "drag_inv (interaction_step s e)"
proof (cases e)
  case (Pointer pe)
  show ?thesis
  proof (cases pe)
    case (MouseMove p)
    then show ?thesis
      using inv ok select_range_ok finite_chart_x [of p "chart s"]
      by (auto simp: Pointer drag_inv_def handleMouseMove_def split: option.split)
  next
    case (MouseDown p)
    then show ?thesis
      using inv ok finite_chart_x [of p "chart s"]
      by (auto simp: Pointer drag_inv_def handleMouseDown_def split: option.split)
  qed (use inv ok Pointer in \<open>auto simp: drag_inv_def handleMouseLeave_def handleMouseUp_def handleTouchEnd_def\<close>)
next
  case (Rendered c)
  then show ?thesis
    using inv ok by (auto simp: drag_inv_def reanchor_def split: option.splits)
qed (use inv in \<open>auto simp: drag_inv_def clearSelection_def split: option.splits\<close>)

interpretation drag: guarded_machine interaction_step mouse_only drag_inv
  by unfold_locales (rule drag_step)

text \<open>
  Under any sequence of mouse events, animation frames and renders that do not change the
  chart during a drag: while the mouse is dragging no tooltip is shown or about to be shown, there
  is a selection only during a drag, and the highlighted band is then exactly the range between
  the place of the press and the pointer, whatever row is hovered.
\<close>

theorem drag_selects:
  assumes "is_finite (margin_left c)" and "ok_run interaction_step mouse_only (interaction_initial c) es"
  defines "s \<equiv> foldl interaction_step (interaction_initial c) es"
  shows "(isDragging s \<longrightarrow> tooltipData (tips s) = None \<and> tips (interaction_step s AnimationFrame) = tips s) \<and>
    (selected s \<noteq> None \<longrightarrow> isDragging s) \<and>
    (\<forall>z data. selected s = Some z \<longrightarrow> data \<noteq> [] \<longrightarrow>
       computeSegmentBounds data xs acc hovered (selected s) =
         \<lparr>sb_x = startX z, sb_width = endX z - startX z, isActive = True\<rparr> \<and> 0 \<le> endX z - startX z)"
proof -
  have "drag_inv (interaction_initial c)"
    using assms(1) by (simp add: drag_inv_def interaction_initial_def quiet_def scheduled_initial_def jnum_literals)
  from drag.run_guarded [OF this assms(2)] have inv: "drag_inv s"
    by (simp add: s_def)
  have "computeSegmentBounds data xs acc hovered (selected s) =
      \<lparr>sb_x = startX z, sb_width = endX z - startX z, isActive = True\<rparr> \<and> 0 \<le> endX z - startX z"
    if "selected s = Some z" "data \<noteq> []" for z and data :: "jsobj list"
  proof -
    have "active z" "is_finite (startX z)" "is_finite (endX z)" "startX z \<le> endX z"
      using inv that(1) by (simp_all add: drag_inv_def)
    then show ?thesis
      using that by (elim is_finiteE) (simp add: computeSegmentBounds_def zero_Fin)
  qed
  then show ?thesis
    using inv by (auto simp: drag_inv_def quiet_def run_frame_def split: option.splits)
qed

lemma drag_selects_witness:
  "computeSegmentBounds [[]] Some (\<lambda>_. 0) None (selected (foldl interaction_step (interaction_initial sample_env)
     [Pointer (MouseDown (Some (Fin 9))), Pointer (MouseMove (Some (Fin 4)))])) =
   \<lparr>sb_x = Fin 4, sb_width = Fin 5, isActive = True\<rparr>"
proof -
  let ?es = "[Pointer (MouseDown (Some (Fin 9))), Pointer (MouseMove (Some (Fin 4)))]"
  let ?s = "foldl interaction_step (interaction_initial sample_env) ?es"
  have env: "canInteract sample_env" "margin_left sample_env = 0"
    by (simp_all add: sample_env_def)
  have "selected ?s = Some (select_range sample_env (Fin 9) (Fin 4))"
    by (simp add: interaction_initial_def env handleMouseDown_def handleMouseMove_def getChartX_def zero_Fin)
  moreover have "startX (select_range sample_env (Fin 9) (Fin 4)) = Fin 4"
    "endX (select_range sample_env (Fin 9) (Fin 4)) = Fin 9"
    by (simp_all add: select_range_def Let_def)
  moreover have "ok_run interaction_step mouse_only (interaction_initial sample_env) ?es"
    by (simp add: finite_point_def)
  ultimately show ?thesis
    using drag_selects [of sample_env ?es Some "\<lambda>_. 0" None] env by (auto simp: zero_Fin)
qed

text \<open>
  After a touch has ended the remembered place is kept, so the next render that changes the chart
  shows a tooltip although nothing points at it.
\<close>

lemma tooltip_returns_after_touch:
  assumes "canInteract c" and "lastHoveredX s = Some x" and "resolveTooltipFromX c x = Some t"
    and "canInteract (chart s)"
  shows "tooltipData (tips (interaction_step (interaction_step s (Pointer TouchEnd)) (Rendered c))) = Some t"
  using assms by (simp add: handleTouchEnd_def reanchor_def setTooltipData_def)

end
