(* ===== verification/ChartGeometry.thy ===== *)
theory ChartGeometry
  imports JsValue
begin

text \<open>
  Pure geometry of the charts, src/ui/web/src/components/charts/path-stroke-utils.ts,
  series-bar-layout.ts, bar-depth-geometry.ts, fade-edges.ts and indicator-fade.ts.  The path of an
  SVG element is the function that gives the x coordinate at a length along it, and its total
  length, which the browser reports as a finite number.
\<close>

section \<open>Paths\<close>

lemma half_ceiling:
  fixes d :: rat
  assumes "1 / 2 < d"
  shows "\<lceil>d\<rceil> < \<lceil>2 * d\<rceil>"
proof (cases "1 \<le> d")
  case True
  then have "d \<le> 2 * d - 1" by simp
  then have "\<lceil>d\<rceil> \<le> \<lceil>2 * d - 1\<rceil>" by (rule ceiling_mono)
  then show ?thesis by simp
next
  case False
  then have "\<lceil>d\<rceil> \<le> 1" by (simp add: ceiling_le_iff)
  moreover have "1 < \<lceil>2 * d\<rceil>" using assms by (simp add: less_ceiling_iff)
  ultimately show ?thesis by linarith
qed

lemma half_interval:
  fixes d e :: rat
  assumes "1 / 2 < d" and "2 * e = d"
  shows "nat \<lceil>2 * e\<rceil> < nat \<lceil>2 * d\<rceil>"
  unfolding assms(2) using half_ceiling [OF assms(1)] assms(1) by (simp add: less_ceiling_iff)

text \<open>The bisection of \<open>findPathLengthAtX\<close>; it halves the interval until it is at most half a pixel wide.\<close>

function bisect_path :: "(rat \<Rightarrow> jnum) \<Rightarrow> jnum \<Rightarrow> rat \<Rightarrow> rat \<Rightarrow> rat" where
  "bisect_path xAt targetX low high =
     (if 1 / 2 < high - low then
        let mid = (low + high) / 2
        in if xAt mid < targetX then bisect_path xAt targetX mid high else bisect_path xAt targetX low mid
      else (low + high) / 2)"
  by pat_completeness auto

termination
  by (relation "measure (\<lambda>(_, _, low, high). nat \<lceil>2 * (high - low)\<rceil>)")
    (simp_all only: in_measure prod.case wf_measure, (rule half_interval; simp add: field_simps)+)

declare bisect_path.simps [simp del]

definition findPathLengthAtX :: "(rat \<Rightarrow> jnum) option \<Rightarrow> rat \<Rightarrow> jnum \<Rightarrow> rat" where
  "findPathLengthAtX path len targetX = (case path of
     None \<Rightarrow> 0
   | Some xAt \<Rightarrow> if len = 0 then 0 else bisect_path xAt targetX 0 len)"

text \<open>The metrics of a stroke are replaced only when they change; \<open>None\<close> is a missing attribute.\<close>

record path_metrics =
  pm_d :: "jstr option"
  pm_length :: rat

definition EMPTY_METRICS :: path_metrics where
  "EMPTY_METRICS = \<lparr>pm_d = None, pm_length = 0\<rparr>"

text \<open>One run of the effect on the mounted path: its attribute and its total length.\<close>

definition measure_path :: "(jstr option \<times> rat) option \<Rightarrow> path_metrics \<Rightarrow> path_metrics" where
  "measure_path path prev = (case path of
     None \<Rightarrow> prev
   | Some (d, totalLength) \<Rightarrow>
       let len = (if d = None \<or> d = Some [] then 0 else totalLength)
       in if pm_d prev = d \<and> pm_length prev = len then prev else \<lparr>pm_d = d, pm_length = len\<rparr>)"

definition resolveDashTailBounds :: "int option \<Rightarrow> nat \<Rightarrow> bool" where
  "resolveDashTailBounds dashFromIndex dataLength = (case dashFromIndex of
     None \<Rightarrow> False | Some i \<Rightarrow> 0 \<le> i \<and> i < int dataLength - 1)"

definition resolveDashStartX :: "jsobj list \<Rightarrow> int \<Rightarrow> (jnum \<Rightarrow> jnum option) \<Rightarrow> (jsobj \<Rightarrow> jnum) \<Rightarrow> jnum" where
  "resolveDashStartX data dashFromIndex xScale xAccessor =
     (if 0 \<le> dashFromIndex \<and> dashFromIndex < int (length data) then
        (case xScale (xAccessor (data ! nat dashFromIndex)) of Some x \<Rightarrow> x | None \<Rightarrow> 0)
      else 0)"

section \<open>Bars\<close>

record bar_layout =
  innerWidth :: jnum
  dataLength :: nat
  columnWidth :: jnum
  seriesCount :: jnum
  composedBarSize :: "jnum option"
  composedMaxBarSize :: "jnum option"
  composedBarGap :: jnum
  stacked :: bool

definition bar_slot :: "bar_layout \<Rightarrow> jnum" where
  "bar_slot i = (if columnWidth i \<le> 0
     then if dataLength i < 2 then innerWidth i else innerWidth i / (Fin (of_nat (dataLength i)) - 1)
     else columnWidth i)"

definition bar_width_wanted :: "bar_layout \<Rightarrow> jnum" where
  "bar_width_wanted i =
     (let w = (case composedBarSize i of Some b \<Rightarrow> b
        | None \<Rightarrow> n_min (bar_slot i * Fin (88 / 100)) (case composedMaxBarSize i of Some m \<Rightarrow> m | None \<Rightarrow> PInf))
      in case composedMaxBarSize i of Some m \<Rightarrow> n_min w m | None \<Rightarrow> w)"

definition computeSeriesBarWidth :: "bar_layout \<Rightarrow> jnum" where
  "computeSeriesBarWidth i =
     (let gap = composedBarGap i;
          groupCount = (if stacked i then 1 else n_max 1 (seriesCount i));
          slot = bar_slot i;
          width = bar_width_wanted i;
          width = (if 1 < groupCount then
              let maxGroup = slot * Fin (92 / 100);
                  needed = groupCount * width + (groupCount - 1) * gap
              in if maxGroup < needed \<and> 0 < maxGroup
                 then n_max 4 ((maxGroup - (groupCount - 1) * gap) / groupCount) else width
            else width)
      in n_max 2 width)"

definition computeSeriesBarRevealClipPadding :: "jnum \<Rightarrow> jnum \<Rightarrow> jnum \<Rightarrow> bool \<Rightarrow> jnum" where
  "computeSeriesBarRevealClipPadding barWidth bars gap isStacked =
     (if isStacked \<or> bars \<le> 1 then n_ceil (barWidth / 2)
      else n_ceil ((bars * barWidth + (bars - 1) * gap) / 2))"

definition barDepthMaxDepth :: "jnum \<Rightarrow> jnum \<Rightarrow> jnum" where
  "barDepthMaxDepth stepWidth bandWidth =
     (let gap = n_max 0 (stepWidth - bandWidth)
      in n_min (n_min (bandWidth * Fin (22 / 100)) (n_max 0 (gap - 1))) 7)"

definition barDepthAndRise :: "jnum \<Rightarrow> jnum \<Rightarrow> jnum \<Rightarrow> jnum \<times> jnum" where
  "barDepthAndRise absOffset naturalHeight maxDepth =
     (let offset = n_min 1 (n_max 0 absOffset);
          cappedMaxDepth = n_min maxDepth (n_max 0 naturalHeight);
          depth = offset * cappedMaxDepth
      in (depth, depth * Fin (45 / 100)))"

section \<open>Fading edges\<close>

datatype fade_edges = FadeBool bool | FadeLeft | FadeRight

record fade_sides =
  fs_left :: bool
  fs_right :: bool
  fs_any :: bool

definition resolveFadeSides :: "fade_edges \<Rightarrow> fade_sides" where
  "resolveFadeSides fade = (case fade of
     FadeBool False \<Rightarrow> \<lparr>fs_left = False, fs_right = False, fs_any = False\<rparr>
   | FadeLeft \<Rightarrow> \<lparr>fs_left = True, fs_right = False, fs_any = True\<rparr>
   | FadeRight \<Rightarrow> \<lparr>fs_left = False, fs_right = True, fs_any = True\<rparr>
   | FadeBool True \<Rightarrow> \<lparr>fs_left = True, fs_right = True, fs_any = True\<rparr>)"

text \<open>A gradient stop is an offset and an opacity.\<close>

definition fadeGradientStops :: "fade_sides \<Rightarrow> (jstr \<times> jnum) list" where
  "fadeGradientStops sides =
     [(js ''0%'', if fs_left sides then 0 else 1), (js ''15%'', 1), (js ''85%'', 1),
      (js ''100%'', if fs_right sides then 0 else 1)]"

datatype indicator_fade = IndicatorBool bool | IndicatorBoth | IndicatorNone | IndicatorTop | IndicatorBottom

record vertical_sides =
  vs_top :: bool
  vs_bottom :: bool
  vs_any :: bool

definition resolveVerticalFadeSides :: "indicator_fade \<Rightarrow> vertical_sides" where
  "resolveVerticalFadeSides fade =
     (if fade = IndicatorBool False \<or> fade = IndicatorNone then \<lparr>vs_top = False, vs_bottom = False, vs_any = False\<rparr>
      else if fade = IndicatorBool True \<or> fade = IndicatorBoth then \<lparr>vs_top = True, vs_bottom = True, vs_any = True\<rparr>
      else if fade = IndicatorTop then \<lparr>vs_top = True, vs_bottom = False, vs_any = True\<rparr>
      else \<lparr>vs_top = False, vs_bottom = True, vs_any = True\<rparr>)"

definition percent_of :: "jnum \<Rightarrow> jstr" where
  "percent_of n = num_str n @ js ''%''"

definition indicatorFadeGradientStops :: "vertical_sides \<Rightarrow> jnum \<Rightarrow> (jstr \<times> jnum) list" where
  "indicatorFadeGradientStops sides fadeLengthPercent =
     (let fade = n_min 40 (n_max 2 fadeLengthPercent); innerEnd = 100 - fade
      in if \<not> vs_any sides then [(js ''0%'', 1)]
         else if vs_top sides \<and> vs_bottom sides then
           [(js ''0%'', 0), (percent_of fade, 1), (js ''50%'', 1), (percent_of innerEnd, 1), (js ''100%'', 0)]
         else if vs_top sides then [(js ''0%'', 0), (percent_of fade, 1), (js ''100%'', 1)]
         else [(js ''0%'', 1), (percent_of innerEnd, 1), (js ''100%'', 0)])"

section \<open>The point found on a path\<close>

lemma le_less_trans_jnum: "a \<le> b \<Longrightarrow> b < c \<Longrightarrow> a < (c :: jnum)"
  by (cases a; cases b; cases c) auto

lemma bisect_path_bracket:
  assumes "low \<le> high" and "low = 0 \<or> xAt low < x" and "high = len \<or> \<not> xAt high < x"
  shows "\<exists>l h. low \<le> l \<and> l \<le> h \<and> h \<le> high \<and> h - l \<le> 1 / 2 \<and>
    bisect_path xAt x low high = (l + h) / 2 \<and> (l = 0 \<or> xAt l < x) \<and> (h = len \<or> \<not> xAt h < x)"
  using assms
proof (induction xAt x low high rule: bisect_path.induct)
  case (1 xAt x low high)
  let ?mid = "(low + high) / 2"
  have mid: "low \<le> ?mid" "?mid \<le> high" using "1.prems"(1) by (simp_all add: field_simps)
  show ?case
  proof (cases "1 / 2 < high - low")
    case wide: True
    show ?thesis
    proof (cases "xAt ?mid < x")
      case True
      then obtain l h where lh: "?mid \<le> l" "l \<le> h" "h \<le> high" "h - l \<le> 1 / 2"
          "bisect_path xAt x ?mid high = (l + h) / 2" "l = 0 \<or> xAt l < x" "h = len \<or> \<not> xAt h < x"
        using "1.IH"(1) [OF wide refl True mid(2)] "1.prems"(3) by blast
      moreover have "bisect_path xAt x low high = bisect_path xAt x ?mid high"
        by (subst bisect_path.simps) (simp only: wide True Let_def if_True)
      ultimately show ?thesis
        using order_trans [OF mid(1) lh(1)] by (intro exI [of _ l] exI [of _ h]) (simp only: simp_thms)
    next
      case False
      then obtain l h where lh: "low \<le> l" "l \<le> h" "h \<le> ?mid" "h - l \<le> 1 / 2"
          "bisect_path xAt x low ?mid = (l + h) / 2" "l = 0 \<or> xAt l < x" "h = len \<or> \<not> xAt h < x"
        using "1.IH"(2) [OF wide refl False mid(1)] "1.prems"(2) by blast
      moreover have "bisect_path xAt x low high = bisect_path xAt x low ?mid"
        by (subst bisect_path.simps) (simp only: wide False Let_def if_True if_False)
      ultimately show ?thesis
        using order_trans [OF lh(3) mid(2)] by (intro exI [of _ l] exI [of _ h]) (simp only: simp_thms)
    qed
  next
    case False
    then show ?thesis
      using "1.prems" by (subst bisect_path.simps) auto
  qed
qed

text \<open>
  The search for the place of an x coordinate on a path ends, inside the path, and is right to a
  quarter of a pixel: on a path that runs from left to right every point more than that before
  the result lies left of the target and no point more than that behind it does.
\<close>

theorem path_length_at_x:
  fixes x :: jnum
  assumes "0 < len" and mono: "\<And>p q. 0 \<le> p \<Longrightarrow> p \<le> q \<Longrightarrow> q \<le> len \<Longrightarrow> xAt p \<le> xAt q"
  defines "r \<equiv> findPathLengthAtX (Some xAt) len x"
  shows "0 \<le> r \<and> r \<le> len \<and> (\<forall>p. 0 < p \<and> p \<le> r - 1 / 4 \<longrightarrow> xAt p < x) \<and>
    (\<forall>p. r + 1 / 4 \<le> p \<and> p < len \<longrightarrow> \<not> xAt p < x)"
proof -
  obtain l h where b: "0 \<le> l" "l \<le> h" "h \<le> len" "h - l \<le> 1 / 2" "r = (l + h) / 2"
    "l = 0 \<or> xAt l < x" "h = len \<or> \<not> xAt h < x"
    using bisect_path_bracket [of 0 len xAt x len] assms(1) by (auto simp: r_def findPathLengthAtX_def)
  have "xAt p < x" if "0 < p" "p \<le> r - 1 / 4" for p
  proof -
    have "p \<le> l" using that(2) b(4,5) by (simp add: field_simps)
    then show ?thesis
      using b(1-3,6) that(1) mono [of p l] le_less_trans_jnum by fastforce
  qed
  moreover have "\<not> xAt p < x" if "r + 1 / 4 \<le> p" "p < len" for p
  proof -
    have "h \<le> p" using that(1) b(4,5) by (simp add: field_simps)
    then show ?thesis
      using b(1,2,7) that(2) mono [of h p] le_less_trans_jnum by fastforce
  qed
  ultimately show ?thesis
    using b by (auto simp: field_simps)
qed

lemma path_length_at_x_witness:
  "findPathLengthAtX (Some (\<lambda>p. Fin (2 * p))) 8 (Fin 6) \<in> {11 / 4 .. 13 / 4}"
proof -
  have "0 \<le> p \<Longrightarrow> p \<le> q \<Longrightarrow> q \<le> 8 \<Longrightarrow> Fin (2 * p) \<le> Fin (2 * q)" for p q :: rat
    by simp
  note path_length_at_x [of 8 "\<lambda>p. Fin (2 * p)" "Fin 6", OF _ this]
  then have r: "0 \<le> r" "r \<le> 8" "\<forall>p. 0 < p \<and> p \<le> r - 1 / 4 \<longrightarrow> 2 * p < 6" "\<forall>p. r + 1 / 4 \<le> p \<and> p < 8 \<longrightarrow> \<not> 2 * p < 6"
    if "r = findPathLengthAtX (Some (\<lambda>p. Fin (2 * p))) 8 (Fin 6)" for r
    using that by (auto simp: algebra_simps)
  let ?r = "findPathLengthAtX (Some (\<lambda>p. Fin (2 * p))) 8 (Fin 6)"
  have "?r \<le> 13 / 4"
    using r(3) [OF refl, THEN spec, of "?r - 1 / 4"] by auto
  moreover have "11 / 4 \<le> ?r"
    using r(4) [OF refl, THEN spec, of "?r + 1 / 4"] by auto
  ultimately show ?thesis by simp
qed

section \<open>Bars side by side fit\<close>

text \<open>
  A group of two or more bars fits: if the slot of a category has room for bars of four pixels
  with their gaps in 92 percent of its width, the bars the layout computes do not take more than
  that, and each is at least two pixels wide.
\<close>

theorem bars_fit:
  assumes slot: "bar_slot i = Fin slot" and width: "bar_width_wanted i = Fin w" and gap: "composedBarGap i = Fin g"
    and n: "seriesCount i = Fin n" "1 < n" and "\<not> stacked i"
    and room: "n * 4 + (n - 1) * g \<le> slot * (92 / 100)" and "0 < slot"
  shows "\<exists>b. computeSeriesBarWidth i = Fin b \<and> 2 \<le> b \<and> n * b + (n - 1) * g \<le> slot * (92 / 100)"
proof -
  define m where "m = slot * (92 / 100)"
  define b where "b = (if m < n * w + (n - 1) * g then max 4 ((m - (n - 1) * g) / n) else w)"
  have "0 < m" using \<open>0 < slot\<close> by (simp add: m_def)
  have "computeSeriesBarWidth i = Fin (max 2 b)"
  proof -
    have "n_max 1 (Fin n) = Fin n" and "Fin slot * Fin (92 / 100) = Fin m"
      using n by (simp_all add: jnum_literals m_def)
    moreover have "n \<noteq> 0" using n by simp
    ultimately show ?thesis
      using n(2) \<open>0 < m\<close> \<open>\<not> stacked i\<close> unfolding computeSeriesBarWidth_def slot width gap n(1) Let_def
      by (simp add: jnum_literals b_def)
  qed
  moreover have fits: "n * ((m - (n - 1) * g) / n) + (n - 1) * g = m"
    using n by simp
  have "n * 4 + (n - 1) * g \<le> m" using room by (simp add: m_def)
  then have "n * max 4 ((m - (n - 1) * g) / n) + (n - 1) * g \<le> m"
    using fits by (auto simp: max_def)
  then have b: "n * b + (n - 1) * g \<le> m"
    by (auto simp: b_def)
  have "n * 2 \<le> n * 4" using n by simp
  then have "n * 2 + (n - 1) * g \<le> m" using \<open>n * 4 + (n - 1) * g \<le> m\<close> by linarith
  with b have "n * max 2 b + (n - 1) * g \<le> m" by (auto simp: max_def)
  ultimately show ?thesis
    by (intro exI [of _ "max 2 b"]) (simp add: m_def)
qed

definition sample_bars :: bar_layout where
  "sample_bars = \<lparr>innerWidth = 300, dataLength = 4, columnWidth = 100, seriesCount = 3, composedBarSize = None,
     composedMaxBarSize = None, composedBarGap = 4, stacked = False\<rparr>"

lemma bars_fit_witness: "\<exists>b. computeSeriesBarWidth sample_bars = Fin b \<and> 3 * b + 8 \<le> 92"
proof -
  have "bar_slot sample_bars = Fin 100" "bar_width_wanted sample_bars = Fin 88" "composedBarGap sample_bars = Fin 4"
    "seriesCount sample_bars = Fin 3" "\<not> stacked sample_bars"
    by (simp_all add: sample_bars_def bar_slot_def bar_width_wanted_def n_min_def jnum_literals)
  from bars_fit [OF this(1-4) _ this(5)] show ?thesis by auto
qed

end
