(* ===== verification/XAxisTicks.thy ===== *)
theory XAxisTicks
  imports JsPrelude Complex_Main
begin

text \<open>
  The labels of a time axis, src/ui/web/src/components/charts/x-axis.tsx: which rows get a tick, where
  the ticks of a domain lie and how labels fade near the crosshair.  Indices and counts are natural
  numbers; the counts are at least two where the code divides by the count less one.  The scale and
  the formatting of dates belong to other packages and are arguments.
\<close>

section \<open>Layouts\<close>

definition MAX_GAP_LAYOUTS :: nat where
  "MAX_GAP_LAYOUTS = 400"

definition binomial_of :: "nat \<Rightarrow> nat \<Rightarrow> real" where
  "binomial_of n k = (if n < k then 0 else foldl (\<lambda>r i. r * (real n - real i) / (real i + 1)) 1 [0..<k])"

text \<open>Never called for no parts.\<close>

fun composePositiveSum :: "nat \<Rightarrow> nat \<Rightarrow> nat list list" where
  "composePositiveSum sp 0 = []"
| "composePositiveSum sp (Suc 0) = (if 1 \<le> sp then [[sp]] else [])"
| "composePositiveSum sp (Suc (Suc p)) =
     concat (map (\<lambda>gap. map ((#) gap) (composePositiveSum (sp - gap) (Suc p))) [1..<sp - Suc p + 1])"

definition gapsToIndices :: "nat list \<Rightarrow> nat list" where
  "gapsToIndices gaps = foldl (\<lambda>ns gap. ns @ [last ns + gap]) [0] gaps"

definition sorted_set :: "nat list \<Rightarrow> nat list" where
  "sorted_set ns = sort (remdups ns)"

definition indicesForTickCount :: "nat \<Rightarrow> nat \<Rightarrow> nat list" where
  "indicesForTickCount len tickCount =
     (if len \<le> 1 then [0]
      else
        let sp = len - 1;
            rawIndices = map (\<lambda>i. nat \<lfloor>real i / (real tickCount - 1) * real sp + 1 / 2\<rfloor>) [0..<tickCount];
            a = sorted_set rawIndices;
            b = (if a = [] \<or> hd a \<noteq> 0 then 0 # a else a);
            c = (if last b \<noteq> sp then b @ [sp] else b)
        in sorted_set c)"

definition allIndexLayouts :: "nat \<Rightarrow> nat \<Rightarrow> nat list list" where
  "allIndexLayouts len tickCount =
     (let sp = len - 1; gapCount = tickCount - 1
      in if len \<le> 1 \<or> tickCount \<le> 1 then [[0]]
         else if real MAX_GAP_LAYOUTS < binomial_of (sp - 1) (gapCount - 1) then [indicesForTickCount len tickCount]
         else map gapsToIndices (composePositiveSum sp gapCount))"

section \<open>Labels\<close>

text \<open>The rows, their labels, and the label made from the date of a row that has none.\<close>

record 'd tick_labels =
  tl_data :: "'d list"
  tl_labels :: "jstr list"
  tl_format :: "'d \<Rightarrow> jstr"

definition label_at :: "'d tick_labels \<Rightarrow> nat \<Rightarrow> jstr" where
  "label_at o' i = (if i < length (tl_labels o') then tl_labels o' ! i else tl_format o' (tl_data o' ! i))"

definition dedupe_step :: "'d tick_labels \<Rightarrow> jstr list \<times> nat list \<Rightarrow> nat \<Rightarrow> jstr list \<times> nat list" where
  "dedupe_step o' st i = (case st of (seen, kept) \<Rightarrow>
     if length (tl_data o') \<le> i \<or> label_at o' i \<in> set seen then (seen, kept)
     else (seen @ [label_at o' i], kept @ [i]))"

definition dedupeIndicesByLabel :: "nat list \<Rightarrow> 'd tick_labels \<Rightarrow> nat list" where
  "dedupeIndicesByLabel ns o' = snd (foldl (dedupe_step o') ([], []) ns)"

section \<open>Scores\<close>

record tick_score =
  ts_score :: real
  ts_symmetry :: real
  ts_distance :: nat
  ts_edge :: nat

definition differences :: "'a :: minus list \<Rightarrow> 'a list" where
  "differences xs = map2 (-) (tl xs) (butlast xs)"

definition index_of :: "'a \<Rightarrow> 'a list \<Rightarrow> nat" where
  "index_of x xs = length (takeWhile (\<lambda>y. y \<noteq> x) xs)"

definition smallest_gap_at :: "nat list \<Rightarrow> nat" where
  "smallest_gap_at gaps = index_of (Min (set gaps)) gaps"

definition smallestGapEdgePreference :: "nat list \<Rightarrow> nat" where
  "smallestGapEdgePreference ns =
     (let gaps = differences ns; i = smallest_gap_at gaps
      in if i = length gaps - 1 then 0 else if i = 0 then 1 else 2)"

definition count_distance :: "nat list \<Rightarrow> nat \<Rightarrow> nat" where
  "count_distance ns targetCount = nat \<bar>int (length ns) - int targetCount\<bar>"

text \<open>\<open>None\<close> stands for a layout of fewer than two ticks, all of whose scores are infinite.\<close>

definition scoreTickLayout :: "nat list \<Rightarrow> (nat \<Rightarrow> real) \<Rightarrow> nat \<Rightarrow> tick_score option" where
  "scoreTickLayout ns resolveXPx targetCount =
     (if length ns < 2 then None
      else
        let pixelGaps = differences (map resolveXPx ns);
            minGap = Min (set pixelGaps); maxGap = Max (set pixelGaps);
            meanGap = sum_list pixelGaps / real (length pixelGaps);
            spreadRatio = (if 0 < meanGap then (maxGap - minGap) / meanGap else maxGap - minGap);
            gaps = differences ns;
            i = smallest_gap_at gaps;
            interiorPenalty = (if 0 < i \<and> i < length gaps - 1 then 8 / 100 else 0);
            symmetryPenalty = sum_list (map2 (\<lambda>a b. \<bar>real a - real b\<bar>) gaps (rev gaps)) / real (length gaps)
        in Some \<lparr>ts_score = spreadRatio + 1 / 10 * real (count_distance ns targetCount) + interiorPenalty
               + symmetryPenalty * (2 / 100),
             ts_symmetry = symmetryPenalty, ts_distance = count_distance ns targetCount,
             ts_edge = smallestGapEdgePreference ns\<rparr>)"

definition score_step :: real where
  "score_step = 1 / 1000000"

definition isBetterTickLayout :: "tick_score \<Rightarrow> tick_score option \<Rightarrow> nat \<Rightarrow> nat \<Rightarrow> bool" where
  "isBetterTickLayout new best0 newDistance bestDistance = (case best0 of
     None \<Rightarrow> True
   | Some best \<Rightarrow>
       if ts_score new < ts_score best - score_step then True
       else if score_step < \<bar>ts_score new - ts_score best\<bar> then False
       else if newDistance < bestDistance then True
       else if bestDistance < newDistance then False
       else if ts_symmetry new < ts_symmetry best - score_step then True
       else if ts_symmetry best + score_step < ts_symmetry new then False
       else ts_edge new < ts_edge best)"

section \<open>Selection\<close>

type_synonym tick_best = "nat list \<times> tick_score option \<times> nat"

definition consider_layout ::
  "'d tick_labels option \<Rightarrow> (nat \<Rightarrow> real) \<Rightarrow> nat \<Rightarrow> tick_best \<Rightarrow> nat list \<Rightarrow> tick_best" where
  "consider_layout labels resolveXPx targetCount best rawIndices =
     (let ns = (case labels of Some o' \<Rightarrow> dedupeIndicesByLabel rawIndices o' | None \<Rightarrow> rawIndices)
      in case scoreTickLayout ns resolveXPx targetCount of
           None \<Rightarrow> best
         | Some sc \<Rightarrow>
             if isBetterTickLayout sc (fst (snd best)) (count_distance ns targetCount) (snd (snd best))
             then (ns, Some sc, count_distance ns targetCount) else best)"

definition selectEvenlySpacedIndices ::
  "nat \<Rightarrow> nat \<Rightarrow> 'd tick_labels option \<Rightarrow> (nat \<Rightarrow> real) option \<Rightarrow> nat list" where
  "selectEvenlySpacedIndices len targetCount labels px =
     (if len = 0 then []
      else if len = 1 then [0]
      else if len \<le> targetCount then [0..<len]
      else
        let resolveXPx = (case px of Some f \<Rightarrow> f | None \<Rightarrow> real);
            minCount = max 2 (targetCount - 1);
            maxCount = min len (targetCount + 1);
            start = indicesForTickCount len targetCount;
            best = (start, scoreTickLayout start resolveXPx targetCount, count_distance start targetCount)
        in fst (foldl (consider_layout labels resolveXPx targetCount) best
             (concat (map (allIndexLayouts len) [minCount..<maxCount + 1]))))"

section \<open>Ticks\<close>

record axis_tick =
  at_date :: int
  at_x :: real
  at_label :: jstr

text \<open>
  The ticks of the rows.  \<open>xAccessor\<close> gives the date of a row, \<open>fmt\<close> formats dates, and the scale
  may have no value for a date.
\<close>

record 'd axis_input =
  ai_data :: "'d list"
  ai_labels :: "jstr list"
  ai_accessor :: "'d \<Rightarrow> int"
  ai_scale :: "int \<Rightarrow> real option"
  ai_format :: "int \<Rightarrow> jstr"
  ai_margin :: real

definition scale_at :: "(int \<Rightarrow> real option) \<Rightarrow> int \<Rightarrow> real" where
  "scale_at xScale d = (case xScale d of Some x \<Rightarrow> x | None \<Rightarrow> 0)"

definition row_px :: "'d axis_input \<Rightarrow> nat \<Rightarrow> real" where
  "row_px a i = (if i < length (ai_data a) then scale_at (ai_scale a) (ai_accessor a (ai_data a ! i)) else real i)"

definition axis_labels :: "'d axis_input \<Rightarrow> 'd tick_labels" where
  "axis_labels a = \<lparr>tl_data = ai_data a, tl_labels = ai_labels a, tl_format = ai_format a \<circ> ai_accessor a\<rparr>"

definition row_tick :: "'d axis_input \<Rightarrow> nat \<Rightarrow> axis_tick" where
  "row_tick a i = (let date = ai_accessor a (ai_data a ! i)
     in \<lparr>at_date = date, at_x = scale_at (ai_scale a) date + ai_margin a, at_label = label_at (axis_labels a) i\<rparr>)"

definition add_tick :: "axis_tick list \<Rightarrow> axis_tick \<Rightarrow> axis_tick list" where
  "add_tick ticks t = (if at_label t \<in> at_label ` set ticks then ticks else ticks @ [t])"

definition buildDataAlignedTicks :: "'d axis_input \<Rightarrow> nat \<Rightarrow> axis_tick list" where
  "buildDataAlignedTicks a targetTickCount =
     foldl (\<lambda>ticks i. if length (ai_data a) \<le> i then ticks else add_tick ticks (row_tick a i)) []
       (selectEvenlySpacedIndices (length (ai_data a)) targetTickCount (Some (axis_labels a)) (Some (row_px a)))"

text \<open>\<open>new Date(t)\<close> cuts off the fraction of a millisecond.\<close>

definition whole_ms :: "real \<Rightarrow> int" where
  "whole_ms t = (if 0 \<le> t then \<lfloor>t\<rfloor> else \<lceil>t\<rceil>)"

definition buildDomainTicks ::
  "(int \<times> int) option \<Rightarrow> real \<Rightarrow> nat \<Rightarrow> (int \<Rightarrow> real option) \<Rightarrow> (int \<Rightarrow> jstr) \<Rightarrow> axis_tick list" where
  "buildDomainTicks domain marginLeft numTicks xScale fmt = (case domain of
     None \<Rightarrow> []
   | Some (startTime, endTime) \<Rightarrow>
       let tickCount = max 2 numTicks
       in foldl (\<lambda>ticks i.
            let date = whole_ms (real_of_int startTime + real i / (real tickCount - 1) * real_of_int (endTime - startTime))
            in add_tick ticks \<lparr>at_date = date, at_x = scale_at xScale date + marginLeft, at_label = fmt date\<rparr>)
          [] [0..<tickCount])"

section \<open>Fading\<close>

definition label_opacity :: "jstr \<Rightarrow> real \<Rightarrow> real option \<Rightarrow> jstr option \<Rightarrow> bool \<Rightarrow> real \<Rightarrow> real" where
  "label_opacity label x crosshairX hoveredLabel isHovering tickerHalfWidth =
     (let fadeBuffer = 20; fadeRadius = tickerHalfWidth + fadeBuffer
      in case crosshairX of
           None \<Rightarrow> 1
         | Some cx \<Rightarrow>
             if \<not> isHovering then 1
             else
               let distance = \<bar>x - cx\<bar>
               in if distance < tickerHalfWidth then 0
                  else if hoveredLabel \<noteq> Some [] \<and> hoveredLabel = Some label then 0
                  else if distance < fadeRadius then (distance - tickerHalfWidth) / fadeBuffer
                  else 1)"

lemma label_opacity_bounds: "0 \<le> label_opacity l x cx h hov w \<and> label_opacity l x cx h hov w \<le> 1"
  by (auto simp: label_opacity_def Let_def split: option.splits)

section \<open>The layouts are complete\<close>

lemma binomial_of_eq: "binomial_of n k = real (n choose k)"
proof (cases "n < k")
  case False
  have "foldl (\<lambda>r i. r * (real n - real i) / (real i + 1)) 1 [0..<k] = real (n choose k)" if "k \<le> n" for k
    using that
  proof (induction k)
    case (Suc k)
    have "real (Suc k) * real (n choose Suc k) = real (n - k) * real (n choose k)"
      by (metis binomial_absorb_comp binomial_absorption of_nat_mult)
    then show ?case using Suc by (simp add: field_simps of_nat_diff)
  qed simp
  then show ?thesis using False by (simp add: binomial_of_def)
qed (simp add: binomial_of_def)

definition gap_lists :: "nat \<Rightarrow> nat \<Rightarrow> nat list set" where
  "gap_lists p m = {gs. length gs = p \<and> sum_list gs = m \<and> 0 \<notin> set gs}"

lemma gap_lists_long: "gs \<in> gap_lists p m \<Longrightarrow> p \<le> m"
proof -
  have "length gs \<le> sum_list gs" if "0 \<notin> set gs" for gs :: "nat list"
    using that by (induction gs) auto
  then show "gs \<in> gap_lists p m \<Longrightarrow> p \<le> m" by (auto simp: gap_lists_def)
qed

lemma gap_lists_Cons: "g # gs \<in> gap_lists (Suc p) m \<longleftrightarrow> 0 < g \<and> g \<le> m \<and> gs \<in> gap_lists p (m - g)"
  by (auto simp: gap_lists_def)

lemma gap_lists_Nil: "[] \<notin> gap_lists (Suc p) m"
  by (simp add: gap_lists_def)

lemma compose_set: "0 < p \<Longrightarrow> set (composePositiveSum m p) = gap_lists p m"
proof (induction m p rule: composePositiveSum.induct)
  case (2 m)
  then show ?case by (auto simp: gap_lists_def length_Suc_conv)
next
  case (3 m p)
  have "gs \<in> set (composePositiveSum m (Suc (Suc p))) \<longleftrightarrow> gs \<in> gap_lists (Suc (Suc p)) m" for gs
  proof (cases gs)
    case (Cons g hs)
    have "gs \<in> set (composePositiveSum m (Suc (Suc p))) \<longleftrightarrow>
        g \<in> set [1..<m - Suc p + 1] \<and> hs \<in> set (composePositiveSum (m - g) (Suc p))"
      using Cons by auto
    also have "\<dots> \<longleftrightarrow> g \<in> set [1..<m - Suc p + 1] \<and> hs \<in> gap_lists (Suc p) (m - g)"
      using 3 by blast
    also have "\<dots> \<longleftrightarrow> 0 < g \<and> g \<le> m \<and> hs \<in> gap_lists (Suc p) (m - g)"
      using gap_lists_long [of hs "Suc p" "m - g"] by auto
    finally show ?thesis using Cons by (simp add: gap_lists_Cons)
  qed (auto simp: gap_lists_Nil)
  then show ?case by blast
qed simp

lemma compose_distinct: "distinct (composePositiveSum m p)"
proof (induction m p rule: composePositiveSum.induct)
  case (3 m p)
  have "distinct (concat (map (\<lambda>gap. map ((#) gap) (composePositiveSum (m - gap) (Suc p))) gaps))"
    if "distinct gaps" "set gaps \<subseteq> set [1..<m - Suc p + 1]" for gaps
    using that 3 by (induction gaps) (auto simp: distinct_map)
  from this [of "[1..<m - Suc p + 1]"] show ?case by (simp only: composePositiveSum.simps) simp
qed simp_all

lemma compose_length: "0 < m \<Longrightarrow> length (composePositiveSum m (Suc p)) = (m - 1) choose p"
proof (induction p arbitrary: m)
  case (Suc p)
  have gaps: "[1..<m - Suc p + 1] = [1..<m - p]"
  proof (cases "p < m")
    case True
    then have "m - Suc p + 1 = m - p" by linarith
    then show ?thesis by (simp only:)
  qed simp
  have "length (composePositiveSum m (Suc (Suc p)))
      = (\<Sum>gap\<leftarrow>[1..<m - p]. length (composePositiveSum (m - gap) (Suc p)))"
    unfolding composePositiveSum.simps gaps by (simp add: length_concat comp_def)
  also have "\<dots> = (\<Sum>gap\<in>{1..<m - p}. (m - gap - 1) choose p)"
    unfolding sum_list_distinct_conv_sum_set [OF distinct_upt] set_upt
    by (rule sum.cong [OF refl], subst Suc.IH) auto
  also have "\<dots> = (\<Sum>j\<in>{p..<m - 1}. j choose p)"
    by (rule sum.reindex_bij_witness [where i = "\<lambda>j. m - j - 1" and j = "\<lambda>gap. m - gap - 1"]) auto
  also have "\<dots> = (\<Sum>j\<le>m - 2. j choose p)" if "2 \<le> m"
    by (rule sum.mono_neutral_left) (use that in auto)
  finally show ?case
    using sum_choose_upper [of p "m - 2"] Suc.prems by (cases "2 \<le> m") (simp_all add: Suc_diff_le not_le numeral_2_eq_2 Suc_diff_Suc)
qed simp

text \<open>The positions that gaps lead to, from a starting point.\<close>

fun steps_from :: "nat \<Rightarrow> nat list \<Rightarrow> nat list" where
  "steps_from x [] = [x]"
| "steps_from x (g # gs) = x # steps_from (x + g) gs"

lemma gapsToIndices_eq: "gapsToIndices gaps = steps_from 0 gaps"
proof -
  have "foldl (\<lambda>ns gap. ns @ [last ns + gap]) (xs @ [x]) gs = xs @ steps_from x gs" for xs x gs
  proof (induction gs arbitrary: xs x)
    case (Cons g gs)
    then show ?case using Cons.IH [of "xs @ [x]" "x + g"] by simp
  qed simp
  from this [of "[]" 0 gaps] show ?thesis by (simp add: gapsToIndices_def)
qed

lemma steps_from_Nil [simp]: "steps_from x gs \<noteq> []" "[] \<noteq> steps_from x gs"
  by (cases gs; simp)+

lemma steps_from_hd [simp]: "hd (steps_from x gs) = x"
  by (cases gs) simp_all

lemma steps_from_last [simp]: "last (steps_from x gs) = x + sum_list gs"
  by (induction gs arbitrary: x) simp_all

lemma steps_from_length [simp]: "length (steps_from x gs) = Suc (length gs)"
  by (induction gs arbitrary: x) simp_all

lemma steps_from_bounds: "y \<in> set (steps_from x gs) \<Longrightarrow> x \<le> y \<and> y \<le> x + sum_list gs"
  by (induction gs arbitrary: x) force+

lemma steps_from_sorted: "0 \<notin> set gs \<Longrightarrow> sorted_wrt (<) (steps_from x gs)"
  by (induction gs arbitrary: x) (auto dest: steps_from_bounds)

lemma steps_from_inject: "steps_from x gs = steps_from x hs \<longleftrightarrow> gs = hs"
proof (induction gs arbitrary: x hs)
  case Nil
  then show ?case by (cases hs) auto
next
  case (Cons g gs)
  have "steps_from (x + g) gs = steps_from (x + h) ks \<Longrightarrow> g = h" for h ks
    by (metis add_left_cancel steps_from_hd)
  then show ?case using Cons by (cases hs) auto
qed

lemma steps_from_onto:
  "ns \<noteq> [] \<Longrightarrow> sorted_wrt (<) ns \<Longrightarrow>
     \<exists>gs. ns = steps_from (hd ns) gs \<and> gs \<in> gap_lists (length ns - 1) (last ns - hd ns)"
proof (induction ns rule: list_nonempty_induct)
  case (single x)
  then show ?case by (intro exI [of _ "[]"]) (simp add: gap_lists_def)
next
  case (cons x ns)
  then obtain gs where gs: "ns = steps_from (hd ns) gs" "gs \<in> gap_lists (length ns - 1) (last ns - hd ns)" by auto
  have x: "x < hd ns" "hd ns \<le> last ns"
    using cons by simp (metis gs(1) le_add1 steps_from_last)
  have "x # ns = steps_from x ((hd ns - x) # gs)" using gs(1) x(1) by simp
  moreover have "(hd ns - x) # gs \<in> gap_lists (length ns) (last ns - x)"
    using gs(2) x cons.hyps by (cases ns) (auto simp: gap_lists_Cons)
  ultimately show ?case using cons.hyps by (intro exI [of _ "(hd ns - x) # gs"]) simp
qed

lemma layout_count: "binomial_of (n - 1 - 1) (t - 1 - 1) = real ((n - 2) choose (t - 2))"
  by (simp add: binomial_of_eq numeral_2_eq_2)

lemma layouts_eq:
  assumes "2 \<le> t" and "t \<le> n"
  shows "allIndexLayouts n t = (if (n - 2) choose (t - 2) \<le> MAX_GAP_LAYOUTS
    then map (steps_from 0) (composePositiveSum (n - 1) (t - 1)) else [indicesForTickCount n t])"
  using assms unfolding allIndexLayouts_def Let_def layout_count by (simp add: gapsToIndices_eq fun_eq_iff)

lemma layouts_set:
  assumes "2 \<le> t" and "t \<le> n" and "(n - 2) choose (t - 2) \<le> MAX_GAP_LAYOUTS"
  shows "set (allIndexLayouts n t) = {ns. length ns = t \<and> sorted_wrt (<) ns \<and> hd ns = 0 \<and> last ns = n - 1}"
proof -
  have "set (allIndexLayouts n t) = steps_from 0 ` gap_lists (t - 1) (n - 1)"
    using assms by (simp add: layouts_eq compose_set)
  also have "\<dots> = {ns. length ns = t \<and> sorted_wrt (<) ns \<and> hd ns = 0 \<and> last ns = n - 1}"
  proof (intro equalityI subsetI)
    fix ns assume ns: "ns \<in> {ns. length ns = t \<and> sorted_wrt (<) ns \<and> hd ns = 0 \<and> last ns = n - 1}"
    then have "ns \<noteq> []" using assms by auto
    then obtain gs where "ns = steps_from (hd ns) gs" "gs \<in> gap_lists (length ns - 1) (last ns - hd ns)"
      using steps_from_onto [of ns] ns by auto
    then show "ns \<in> steps_from 0 ` gap_lists (t - 1) (n - 1)" using ns by (intro image_eqI [of _ _ gs]) auto
  qed (use assms in \<open>auto simp: gap_lists_def steps_from_sorted\<close>)
  finally show ?thesis .
qed

text \<open>
  With not more than 400 possibilities the code tries every way to choose the ticks: the layouts
  are all the lists of \<open>t\<close> rows that rise from the first row to the last, each of them once; and it
  never tries more than 400.
\<close>

theorem tick_layouts_complete:
  assumes "2 \<le> t" and "t \<le> n"
  shows "length (allIndexLayouts n t) \<le> MAX_GAP_LAYOUTS \<and>
    ((n - 2) choose (t - 2) \<le> MAX_GAP_LAYOUTS \<longrightarrow>
      distinct (allIndexLayouts n t) \<and>
      set (allIndexLayouts n t) = {ns. length ns = t \<and> sorted_wrt (<) ns \<and> hd ns = 0 \<and> last ns = n - 1})"
proof -
  have "length (composePositiveSum (n - 1) (Suc (t - 2))) = (n - 2) choose (t - 2)"
    using assms by (subst compose_length) (simp_all add: numeral_2_eq_2)
  moreover have "Suc (t - 2) = t - 1" using assms by simp
  ultimately have "length (composePositiveSum (n - 1) (t - 1)) = (n - 2) choose (t - 2)" by simp
  moreover have "distinct (map (steps_from 0) (composePositiveSum (n - 1) (t - 1)))"
    by (simp add: distinct_map compose_distinct inj_on_def steps_from_inject)
  ultimately show ?thesis
    using layouts_set [OF assms] by (simp add: layouts_eq [OF assms] MAX_GAP_LAYOUTS_def)
qed

lemma tick_layouts_complete_witness:
  "length (allIndexLayouts 4 3) \<le> MAX_GAP_LAYOUTS \<and> allIndexLayouts 4 3 = [[0, 1, 3], [0, 2, 3]]"
proof -
  have "length (allIndexLayouts 4 3) \<le> MAX_GAP_LAYOUTS" using tick_layouts_complete [of 3 4] by simp
  moreover have "allIndexLayouts 4 3 = [[0, 1, 3], [0, 2, 3]]"
    by (simp add: allIndexLayouts_def binomial_of_def MAX_GAP_LAYOUTS_def gapsToIndices_def eval_nat_numeral)
  ultimately show ?thesis by simp
qed

section \<open>What is selected\<close>

definition rising :: "nat \<Rightarrow> nat list \<Rightarrow> bool" where
  "rising n ns \<longleftrightarrow> ns \<noteq> [] \<and> hd ns = 0 \<and> sorted_wrt (<) ns \<and> last ns < n"

definition spanning :: "nat \<Rightarrow> nat \<Rightarrow> nat list \<Rightarrow> bool" where
  "spanning n t ns \<longleftrightarrow> rising n ns \<and> last ns = n - 1 \<and> 2 \<le> length ns \<and> length ns \<le> t"

lemma strict_sorted_set: "sorted_wrt (<) (sorted_set ns)"
  by (simp add: sorted_set_def strict_sorted_iff)

lemma set_sorted_set [simp]: "set (sorted_set ns) = set ns"
  by (simp add: sorted_set_def)

lemma sorted_set_id: "sorted_wrt (<) ns \<Longrightarrow> sorted_set ns = ns"
  by (simp add: sorted_set_def strict_sorted_iff sorted_sort_id distinct_remdups_id)

lemma sorted_hd_least: "sorted_wrt (<) ns \<Longrightarrow> x \<in> set ns \<Longrightarrow> hd ns \<le> (x :: nat)"
  by (cases ns) auto

lemma sorted_last_greatest: "sorted_wrt (<) ns \<Longrightarrow> x \<in> set ns \<Longrightarrow> (x :: nat) \<le> last ns"
  by (cases ns rule: rev_cases) (auto simp: sorted_wrt_append)

lemma indices_spanning:
  assumes "2 \<le> t" and "2 \<le> n"
  shows "spanning n t (indicesForTickCount n t)"
proof -
  define f where "f = (\<lambda>i. nat \<lfloor>real i / (real t - 1) * real (n - 1) + 1 / 2\<rfloor>)"
  define a where "a = sorted_set (map f [0..<t])"
  have f: "f 0 = 0" "f (t - 1) = n - 1" using assms by (simp_all add: f_def of_nat_diff) linarith
  have le: "f i \<le> n - 1" if "i < t" for i
  proof -
    have "real i / (real t - 1) \<le> 1" using that assms by (simp add: field_simps)
    then have "real i / (real t - 1) * real (n - 1) \<le> real (n - 1)" by (rule mult_left_le_one_le [rotated -1]) (use assms in simp_all)
    then show ?thesis unfolding f_def by linarith
  qed
  have mem: "f 0 \<in> set a" "f (t - 1) \<in> set a" using assms by (auto simp: a_def)
  then have "a \<noteq> []" by auto
  moreover have "sorted_wrt (<) a" by (simp add: a_def strict_sorted_set)
  moreover have "hd a = 0" using sorted_hd_least [OF \<open>sorted_wrt (<) a\<close> mem(1)] f by simp
  moreover have "last a = n - 1"
  proof (rule antisym)
    show "last a \<le> n - 1" using last_in_set [OF \<open>a \<noteq> []\<close>] le by (auto simp: a_def)
    show "n - 1 \<le> last a" using sorted_last_greatest [OF \<open>sorted_wrt (<) a\<close> mem(2)] f by simp
  qed
  moreover have "length a \<le> t" using length_remdups_leq [of "map f [0..<t]"] by (simp add: a_def sorted_set_def)
  moreover have "length a \<noteq> 1" using \<open>hd a = 0\<close> \<open>last a = n - 1\<close> assms by (auto simp: length_Suc_conv)
  moreover have "indicesForTickCount n t = sorted_set a"
    using assms \<open>a \<noteq> []\<close> \<open>hd a = 0\<close> \<open>last a = n - 1\<close> unfolding indicesForTickCount_def Let_def
    by (simp add: a_def [unfolded f_def] split: if_splits)
  ultimately show ?thesis
    using assms by (cases "length a") (simp_all add: spanning_def rising_def sorted_set_id)
qed

lemma layouts_spanning:
  assumes "2 \<le> t" and "t \<le> n" and "ns \<in> set (allIndexLayouts n t)"
  shows "spanning n t ns"
proof (cases "(n - 2) choose (t - 2) \<le> MAX_GAP_LAYOUTS")
  case True
  then have "length ns = t \<and> sorted_wrt (<) ns \<and> hd ns = 0 \<and> last ns = n - 1"
    using layouts_set [OF assms(1,2)] assms(3) by auto
  then show ?thesis using assms by (auto simp: spanning_def rising_def)
next
  case False
  then show ?thesis using assms indices_spanning [of t n] by (simp add: layouts_eq)
qed

text \<open>Leaving out rows with a label that was seen keeps the first row and the order.\<close>

lemma dedupe_inv:
  assumes "sorted_wrt (<) (kept @ ns)"
  shows "\<exists>more. snd (foldl (dedupe_step o') (seen, kept) ns) = kept @ more \<and> set more \<subseteq> set ns \<and>
    sorted_wrt (<) (kept @ more) \<and> length more \<le> length ns"
  using assms
proof (induction ns arbitrary: seen kept)
  case (Cons i ns)
  show ?case
  proof (cases "length (tl_data o') \<le> i \<or> label_at o' i \<in> set seen")
    case True
    have "sorted_wrt (<) (kept @ ns)" using Cons.prems by (auto simp: sorted_wrt_append)
    from Cons.IH [OF this, of seen] show ?thesis using True by (auto simp: dedupe_step_def)
  next
    case False
    have "sorted_wrt (<) ((kept @ [i]) @ ns)" using Cons.prems by simp
    from Cons.IH [OF this, of "seen @ [label_at o' i]"] show ?thesis using False by (auto simp: dedupe_step_def)
  qed
qed simp

lemma dedupe_rising:
  assumes "rising n ns" and "length (tl_data o') = n"
  shows "rising n (dedupeIndicesByLabel ns o') \<and> length (dedupeIndicesByLabel ns o') \<le> length ns"
proof -
  obtain ms where ns: "ns = 0 # ms" using assms(1) by (cases ns) (auto simp: rising_def)
  have "0 < n" using assms(1) by (simp add: rising_def)
  then have "dedupeIndicesByLabel ns o' = snd (foldl (dedupe_step o') ([label_at o' 0], [0]) ms)"
    using assms(2) by (simp add: ns dedupeIndicesByLabel_def dedupe_step_def)
  moreover have "sorted_wrt (<) ([0] @ ms)" using assms(1) by (simp add: ns rising_def)
  ultimately obtain more where more: "dedupeIndicesByLabel ns o' = 0 # more" "set more \<subseteq> set ms"
      "sorted_wrt (<) (0 # more)" "length more \<le> length ms"
    using dedupe_inv [of "[0]" ms o' "[label_at o' 0]"] by auto
  have "last (0 # more) \<in> set ns" using more(2) last_in_set [of "0 # more"] by (auto simp: ns)
  then have "last (0 # more) < n"
    using assms(1) sorted_last_greatest [of ns "last (0 # more)"] by (simp add: rising_def)
  then show ?thesis using more by (simp add: rising_def ns)
qed

definition chosen_ok :: "nat \<Rightarrow> nat \<Rightarrow> bool \<Rightarrow> nat list \<Rightarrow> bool" where
  "chosen_ok n t labelled ns \<longleftrightarrow> rising n ns \<and> length ns \<le> t + 1 \<and> (labelled \<or> last ns = n - 1)"

lemma consider_ok:
  assumes "case labels of Some o' \<Rightarrow> length (tl_data o') = n | None \<Rightarrow> True"
    and "chosen_ok n t (labels \<noteq> None) (fst best)" and "spanning n k raw" and "k \<le> t + 1"
  shows "chosen_ok n t (labels \<noteq> None) (fst (consider_layout labels px t best raw))"
proof (cases labels)
  case None
  then show ?thesis using assms
    by (auto simp: consider_layout_def spanning_def chosen_ok_def Let_def split: option.splits)
next
  case (Some o')
  then have "rising n (dedupeIndicesByLabel raw o') \<and> length (dedupeIndicesByLabel raw o') \<le> length raw"
    using assms(1,3) by (intro dedupe_rising) (simp_all add: spanning_def)
  then show ?thesis using assms Some
    by (auto simp: consider_layout_def spanning_def chosen_ok_def Let_def split: option.splits)
qed

lemma selection_ok:
  assumes "2 \<le> t" and "0 < n" and labels: "case labels of Some o' \<Rightarrow> length (tl_data o') = n | None \<Rightarrow> True"
  shows "chosen_ok n t (labels \<noteq> None) (selectEvenlySpacedIndices n t labels px)"
proof -
  consider "n = 1" | "1 < n" "n \<le> t" | "t < n" "1 < n" using assms(1,2) by linarith
  then show ?thesis
  proof cases
    case 1
    then show ?thesis by (simp add: selectEvenlySpacedIndices_def chosen_ok_def rising_def)
  next
    case 2
    then show ?thesis by (simp add: selectEvenlySpacedIndices_def chosen_ok_def rising_def last_conv_nth hd_conv_nth)
  next
    case 3
    let ?px = "case px of Some f \<Rightarrow> f | None \<Rightarrow> real"
    have "chosen_ok n t (labels \<noteq> None) (fst (foldl (consider_layout labels ?px t) best raws))"
      if "chosen_ok n t (labels \<noteq> None) (fst best)" "list_all (\<lambda>raw. \<exists>k. spanning n k raw \<and> k \<le> t + 1) raws" for best raws
      using that
    proof (induction raws arbitrary: best)
      case (Cons raw raws)
      then obtain k where "spanning n k raw" "k \<le> t + 1" by auto
      from Cons.IH [OF consider_ok [OF labels Cons.prems(1) this]] Cons.prems(2) show ?case by simp
    qed simp
    moreover have "chosen_ok n t (labels \<noteq> None) (indicesForTickCount n t)"
      using indices_spanning [of t n] assms 3 by (simp add: spanning_def chosen_ok_def)
    moreover have "list_all (\<lambda>raw. \<exists>k. spanning n k raw \<and> k \<le> t + 1)
        (concat (map (allIndexLayouts n) [max 2 (t - 1)..<min n (t + 1) + 1]))"
      unfolding list_all_iff
    proof
      fix raw assume "raw \<in> set (concat (map (allIndexLayouts n) [max 2 (t - 1)..<min n (t + 1) + 1]))"
      then obtain k where k: "k \<in> set [max 2 (t - 1)..<min n (t + 1) + 1]" "raw \<in> set (allIndexLayouts n k)"
        by (simp only: set_concat set_map) blast
      then have "2 \<le> k" "k \<le> n" "k \<le> t + 1" unfolding set_upt atLeastLessThan_iff by linarith+
      then show "\<exists>k. spanning n k raw \<and> k \<le> t + 1" using k(2) layouts_spanning [of k n raw] by blast
    qed
    moreover have "(n = 0) = False" "(n = 1) = False" "(n \<le> t) = False" using 3 by auto
    ultimately show ?thesis unfolding selectEvenlySpacedIndices_def Let_def by (simp only: if_False fst_conv)
  qed
qed

lemma ticks_inv:
  assumes "distinct (map at_label (map (row_tick a) old))" and "sorted_wrt (<) (old @ ns)"
  shows "\<exists>more. foldl (\<lambda>ticks i. if length (ai_data a) \<le> i then ticks else add_tick ticks (row_tick a i)) (map (row_tick a) old) ns
      = map (row_tick a) (old @ more) \<and> distinct (map at_label (map (row_tick a) (old @ more))) \<and>
      sorted_wrt (<) (old @ more) \<and> set more \<subseteq> set ns \<and> length more \<le> length ns"
  using assms
proof (induction ns arbitrary: old)
  case (Cons i ns)
  show ?case
  proof (cases "length (ai_data a) \<le> i \<or> at_label (row_tick a i) \<in> at_label ` set (map (row_tick a) old)")
    case True
    have "sorted_wrt (<) (old @ ns)" using Cons.prems(2) by (auto simp: sorted_wrt_append)
    from Cons.IH [OF Cons.prems(1) this] show ?thesis using True by (auto simp: add_tick_def)
  next
    case False
    have "distinct (map at_label (map (row_tick a) (old @ [i])))" "sorted_wrt (<) ((old @ [i]) @ ns)"
      using Cons.prems False by auto
    from Cons.IH [OF this] obtain more where
      "foldl (\<lambda>ticks i. if length (ai_data a) \<le> i then ticks else add_tick ticks (row_tick a i)) (map (row_tick a) (old @ [i])) ns
        = map (row_tick a) ((old @ [i]) @ more)" "distinct (map at_label (map (row_tick a) ((old @ [i]) @ more)))"
      "sorted_wrt (<) ((old @ [i]) @ more)" "set more \<subseteq> set ns" "length more \<le> length ns" by blast
    then show ?thesis using False by (intro exI [of _ "i # more"]) (auto simp: add_tick_def)
  qed
qed auto

text \<open>
  The ticks of a chart are ticks of its rows, from the first row on and in the order of the rows,
  at the position the scale gives them; no two show the same label, and there is at most one more than
  was asked for.
\<close>

theorem data_ticks:
  assumes "2 \<le> t" and "ai_data a \<noteq> []"
  shows "\<exists>ns. buildDataAlignedTicks a t = map (row_tick a) ns \<and> rising (length (ai_data a)) ns \<and> length ns \<le> t + 1 \<and>
    distinct (map at_label (buildDataAlignedTicks a t))"
proof -
  let ?n = "length (ai_data a)" and ?ns = "selectEvenlySpacedIndices (length (ai_data a)) t (Some (axis_labels a)) (Some (row_px a))"
  have "chosen_ok ?n t True ?ns"
    using selection_ok [of t ?n "Some (axis_labels a)" "Some (row_px a)"] assms by (simp add: axis_labels_def)
  then have ns: "rising ?n ?ns" "length ?ns \<le> t + 1" by (simp_all add: chosen_ok_def)
  then obtain ms where ms: "?ns = 0 # ms" by (cases ?ns) (auto simp: rising_def)
  have "sorted_wrt (<) ([0] @ ms)" using ns(1) by (simp add: ms rising_def)
  then obtain more where more: "buildDataAlignedTicks a t = map (row_tick a) (0 # more)"
      "distinct (map at_label (map (row_tick a) (0 # more)))" "sorted_wrt (<) (0 # more)" "set more \<subseteq> set ms" "length more \<le> length ms"
    using ticks_inv [of a "[0]" ms] assms(2) by (auto simp: buildDataAlignedTicks_def ms add_tick_def)
  have "last (0 # more) \<in> set ?ns" using more(4) last_in_set [of "0 # more"] by (auto simp: ms)
  then have "last (0 # more) < ?n"
    using ns(1) sorted_last_greatest [of ?ns "last (0 # more)"] by (simp add: rising_def)
  then have "rising ?n (0 # more)" using more(3) by (simp add: rising_def)
  moreover have "length (0 # more) \<le> t + 1" using ns(2) more(5) by (simp add: ms)
  ultimately show ?thesis using more(1,2) by metis
qed

lemma data_ticks_witness:
  "\<exists>t. buildDataAlignedTicks \<lparr>ai_data = [5 :: int], ai_labels = [js ''Jan''], ai_accessor = id, ai_scale = (\<lambda>d. None),
     ai_format = (\<lambda>d. []), ai_margin = 3\<rparr> 2 = [t] \<and> at_x t = 3"
proof -
  let ?a = "\<lparr>ai_data = [5 :: int], ai_labels = [js ''Jan''], ai_accessor = id, ai_scale = (\<lambda>d. None),
     ai_format = (\<lambda>d. []), ai_margin = 3\<rparr>"
  obtain ns where ns: "buildDataAlignedTicks ?a 2 = map (row_tick ?a) ns" "rising 1 ns"
    using data_ticks [of 2 ?a] by auto
  then have "ns = [0]" by (cases ns) (auto simp: rising_def, metis last_in_set less_nat_zero_code)
  then show ?thesis using ns(1) by (simp add: row_tick_def scale_at_def Let_def)
qed

end
