(* ===== verification/SkillFiles.thy ===== *)
theory SkillFiles
  imports JsonPrint "HOL-Library.Multiset"
begin

text \<open>
  The files of a skill: src/ui/web/src/components/settings/tabs/SkillEditorDialog.tsx (front matter,
  metadata, the tree of files) and SkillsTab.tsx (import and export of bundles).

  Every regular expression is a function on the text.  \<open>localeCompare\<close> is a parameter \<open>le\<close>, and so is
  the reading of a picked file: its text or its zip entries are given, or reading it fails.  The library
  for zip files is the pair of parameters \<open>pack\<close> and \<open>unpack\<close>; what is used of it is \<open>zip_reads_back\<close>.
\<close>

record skill_file =
  sf_path :: jstr
  sf_content :: jstr

section \<open>Which files are kept\<close>

definition REFERENCE_EXTS :: "jstr list" where
  "REFERENCE_EXTS = [js ''.md'', js ''.markdown'', js ''.txt'', js ''.json'', js ''.yaml'', js ''.yml'', js ''.csv'', js ''.html'']"

definition SKILL_MD :: jstr where
  "SKILL_MD = js ''SKILL.md''"

definition baseName :: "jstr \<Rightarrow> jstr" where
  "baseName p = last (split_char 47 p)"

definition isReferenceFile :: "jstr \<Rightarrow> bool" where
  "isReferenceFile p =
     (let clean = trim p in
      if clean = [] then False
      else if lower (baseName clean) = js ''skill.md'' then False
      else if list_ex (\<lambda>s. lower s = js ''scripts'') (split_char 47 clean) then False
      else list_ex (\<lambda>e. ends_with e (lower (baseName clean))) REFERENCE_EXTS)"

section \<open>Front matter\<close>

text \<open>
  What follows \<open>\s*\r?\n\<close>: the text after each line feed of the leading white space, the longest match
  first, as the regular expression backtracks.
\<close>

fun after_breaks :: "jstr \<Rightarrow> jstr list" where
  "after_breaks [] = []"
| "after_breaks (c # s) = (if is_ws c then after_breaks s @ (if c = 10 then [s] else []) else [])"

text \<open>\<open>([\s\S]*?)\r?\n---\<close>: the shortest text before a line that starts with three dashes.\<close>

fun until_dashes :: "jstr \<Rightarrow> jstr option" where
  "until_dashes [] = None"
| "until_dashes (c # s) =
     (if starts_with ([13, 10] @ js ''---'') (c # s) \<or> starts_with (10 # js ''---'') (c # s) then Some []
      else map_option ((#) c) (until_dashes s))"

fun first_some :: "('a \<Rightarrow> 'b option) \<Rightarrow> 'a list \<Rightarrow> 'b option" where
  "first_some f [] = None"
| "first_some f (x # xs) = (case f x of Some y \<Rightarrow> Some y | None \<Rightarrow> first_some f xs)"

text \<open>The match of the front matter at the start of a text.\<close>

definition frontmatter_at :: "jstr \<Rightarrow> jstr option" where
  "frontmatter_at s =
     (if starts_with (js ''---'') s then first_some until_dashes (after_breaks (drop 3 s)) else None)"

text \<open>\<open>split(/\r?\n/)\<close>.\<close>

definition chop_return :: "jstr \<Rightarrow> jstr" where
  "chop_return l = (if l \<noteq> [] \<and> last l = 13 then butlast l else l)"

definition split_lines :: "jstr \<Rightarrow> jstr list" where
  "split_lines s = (let ps = split_char 10 s in map chop_return (butlast ps) @ [last ps])"

definition unquote :: "jstr \<Rightarrow> jstr" where
  "unquote v =
     (if starts_with [34] v \<and> ends_with [34] v \<or> starts_with [39] v \<and> ends_with [39] v
      then butlast (tl v) else v)"

text \<open>One line of the front matter, assigned to the fields read so far.\<close>

definition frontmatter_field :: "(jstr \<rightharpoonup> jstr) \<Rightarrow> jstr \<Rightarrow> (jstr \<rightharpoonup> jstr)" where
  "frontmatter_field fs line =
     (if line \<noteq> [] \<and> is_ws (hd line) then fs
      else case cut_at [58] line of
        None \<Rightarrow> fs
      | Some (k, v) \<Rightarrow> fs(trim k \<mapsto> unquote (trim v)))"

record frontmatter =
  fm_name :: jstr
  fm_description :: jstr
  fm_ok :: bool

definition parseFrontmatter :: "jstr \<Rightarrow> frontmatter" where
  "parseFrontmatter content =
     (case frontmatter_at content of
        None \<Rightarrow> \<lparr>fm_name = [], fm_description = [], fm_ok = False\<rparr>
      | Some block \<Rightarrow>
          let fs = foldl frontmatter_field Map.empty (split_lines block)
          in \<lparr>fm_name = (case fs (js ''name'') of Some v \<Rightarrow> v | None \<Rightarrow> []),
              fm_description = (case fs (js ''description'') of Some v \<Rightarrow> v | None \<Rightarrow> []),
              fm_ok = True\<rparr>)"

text \<open>\<open>NAME_RE\<close>: lower case letters, digits and hyphens, no hyphen at the ends.\<close>

definition is_slug_char :: "nat \<Rightarrow> bool" where
  "is_slug_char c \<longleftrightarrow> is_digit c \<or> 97 \<le> c \<and> c \<le> 122"

definition NAME_RE :: "jstr \<Rightarrow> bool" where
  "NAME_RE s \<longleftrightarrow> s \<noteq> [] \<and> is_slug_char (hd s) \<and> is_slug_char (last s) \<and> list_all (\<lambda>c. is_slug_char c \<or> c = 45) s"

definition validateMetadata :: "jstr \<Rightarrow> jstr \<Rightarrow> jstr" where
  "validateMetadata name description =
     (if name = [] then js ''SKILL.md frontmatter is missing `name`.''
      else if 64 < length name then js ''name must be at most 64 characters.''
      else if \<not> NAME_RE name then js ''name must be lowercase letters, digits and hyphens.''
      else if includes_str (js ''anthropic'') (lower name) \<or> includes_str (js ''claude'') (lower name)
        then js ''name must not contain '' @ [39] @ js ''anthropic'' @ [39] @ js '' or '' @ [39] @ js ''claude'' @ [39] @ js ''.''
      else if trim description = [] then js ''SKILL.md frontmatter is missing `description`.''
      else if 1024 < length description then js ''description must be at most 1024 characters.''
      else [])"

section \<open>The tree of files\<close>

datatype tree_folder = Folder (tf_name: jstr) (tf_path: jstr) (tf_folders: "tree_folder list") (tf_files: "(jstr \<times> jstr) list")

text \<open>Change the first subfolder of a name, which is added when there is none.\<close>

fun change_first :: "('a \<Rightarrow> bool) \<Rightarrow> ('a \<Rightarrow> 'a) \<Rightarrow> 'a \<Rightarrow> 'a list \<Rightarrow> 'a list" where
  "change_first P f new [] = [f new]"
| "change_first P f new (x # xs) = (if P x then f x # xs else x # change_first P f new xs)"

text \<open>\<open>getFolder(parts)\<close>, followed by a change \<open>f\<close> of the folder found.\<close>

primrec at_folder :: "(tree_folder \<Rightarrow> tree_folder) \<Rightarrow> jstr list \<Rightarrow> jstr \<Rightarrow> tree_folder \<Rightarrow> tree_folder" where
  "at_folder f [] acc t = f t"
| "at_folder f (p # ps) acc t =
     (let acc' = (if acc = [] then p else acc @ [47] @ p)
      in Folder (tf_name t) (tf_path t)
           (change_first (\<lambda>x. tf_name x = p) (at_folder f ps acc') (Folder p acc' [] []) (tf_folders t))
           (tf_files t))"

definition add_file :: "jstr \<times> jstr \<Rightarrow> tree_folder \<Rightarrow> tree_folder" where
  "add_file e t = Folder (tf_name t) (tf_path t) (tf_folders t) (tf_files t @ [e])"

definition place_file :: "tree_folder \<Rightarrow> jstr \<Rightarrow> tree_folder" where
  "place_file t fp = (let parts = split_char 47 fp in at_folder (add_file (fp, last parts)) (butlast parts) [] t)"

definition place_folder :: "tree_folder \<Rightarrow> jstr \<Rightarrow> tree_folder" where
  "place_folder t folderPath = at_folder id (filter (\<lambda>p. p \<noteq> []) (split_char 47 folderPath)) [] t"

text \<open>\<open>sort\<close>, which is stable, by \<open>localeCompare\<close>.\<close>

fun insert_by :: "(jstr \<Rightarrow> jstr \<Rightarrow> bool) \<Rightarrow> ('a \<Rightarrow> jstr) \<Rightarrow> 'a \<Rightarrow> 'a list \<Rightarrow> 'a list" where
  "insert_by le key x [] = [x]"
| "insert_by le key x (y # ys) = (if le (key x) (key y) then x # y # ys else y # insert_by le key x ys)"

definition sort_by :: "(jstr \<Rightarrow> jstr \<Rightarrow> bool) \<Rightarrow> ('a \<Rightarrow> jstr) \<Rightarrow> 'a list \<Rightarrow> 'a list" where
  "sort_by le key xs = foldr (insert_by le key) xs []"

primrec sortFolder :: "(jstr \<Rightarrow> jstr \<Rightarrow> bool) \<Rightarrow> tree_folder \<Rightarrow> tree_folder" where
  "sortFolder le (Folder n p subs files) =
     Folder n p (map snd (sort_by le fst (map (\<lambda>t. (tf_name t, sortFolder le t)) subs))) (sort_by le snd files)"

definition buildTree :: "(jstr \<Rightarrow> jstr \<Rightarrow> bool) \<Rightarrow> jstr list \<Rightarrow> jstr list \<Rightarrow> tree_folder" where
  "buildTree le filePaths extraFolders =
     sortFolder le (foldl place_folder (foldl place_file (Folder [] [] [] []) filePaths) extraFolders)"

section \<open>Import and export\<close>

record zip_entry =
  ze_name :: jstr
  ze_dir :: bool
  ze_text :: jstr

text \<open>A picked file: its name, its text and its zip entries, \<open>None\<close> when reading them fails.\<close>

record picked =
  pk_name :: jstr
  pk_text :: "jstr option"
  pk_zip :: "zip_entry list option"

record skill_bundle =
  bn_content :: jstr
  bn_files :: "skill_file list"
  bn_skipped :: "jstr list"

definition commonTopFolder :: "jstr list \<Rightarrow> jstr" where
  "commonTopFolder names =
     (case names of [] \<Rightarrow> []
      | n # _ \<Rightarrow>
          let first = hd (split_char 47 n) in
          if first = [] then []
          else let prefix = first @ [47] in if list_all (starts_with prefix) names then prefix else [])"

definition ingest :: "skill_bundle \<Rightarrow> jstr \<times> jstr \<Rightarrow> skill_bundle" where
  "ingest b e = (case e of (path, body) \<Rightarrow>
     if lower (baseName path) = js ''skill.md'' then b\<lparr>bn_content := body\<rparr>
     else if isReferenceFile path then b\<lparr>bn_files := bn_files b @ [\<lparr>sf_path = path, sf_content = body\<rparr>]\<rparr>
     else b\<lparr>bn_skipped := bn_skipped b @ [path]\<rparr>)"

text \<open>The entries of a zip file that are taken in, with their paths below the common folder.\<close>

definition zip_items :: "zip_entry list \<Rightarrow> (jstr \<times> jstr) list" where
  "zip_items entries =
     (let kept = filter (\<lambda>e. \<not> ze_dir e) entries;
          prefix = commonTopFolder (map ze_name kept);
          rel = (\<lambda>e. if prefix \<noteq> [] then drop (length prefix) (ze_name e) else ze_name e)
      in map (\<lambda>e. (rel e, ze_text e))
           (filter (\<lambda>e. \<not> (starts_with [46] (baseName (ze_name e)) \<or> includes_str (js ''__MACOSX'') (ze_name e)) \<and> rel e \<noteq> [])
             kept))"

definition picked_items :: "picked \<Rightarrow> (jstr \<times> jstr) list option" where
  "picked_items f =
     (if ends_with (js ''.zip'') (lower (pk_name f)) then map_option zip_items (pk_zip f)
      else map_option (\<lambda>body. [(pk_name f, body)]) (pk_text f))"

datatype import_result = NothingPicked | ReadFailed | NoSkillMd | Imported skill_bundle

definition handleImport :: "picked list \<Rightarrow> import_result" where
  "handleImport ps =
     (if ps = [] then NothingPicked
      else if list_ex (\<lambda>p. picked_items p = None) ps then ReadFailed
      else let b = foldl ingest \<lparr>bn_content = [], bn_files = [], bn_skipped = []\<rparr>
                 (concat (map (\<lambda>p. case picked_items p of Some es \<Rightarrow> es | None \<Rightarrow> []) ps))
           in if bn_content b = [] then NoSkillMd else Imported b)"

text \<open>
  \<open>pack\<close> makes a zip file from the names and texts given to \<open>zip.file\<close>, in that order.  The result is
  the zip file and the name under which it is downloaded.
\<close>

definition handleExport :: "((jstr \<times> jstr) list \<Rightarrow> 'blob) \<Rightarrow> jstr \<Rightarrow> jstr \<Rightarrow> skill_file list \<Rightarrow> 'blob \<times> jstr" where
  "handleExport pack name content files =
     (pack ((SKILL_MD, content) # map (\<lambda>f. (sf_path f, sf_content f)) files),
      (if name = [] then js ''skill'' else name) @ js ''.zip'')"

section \<open>Facts: front matter\<close>

lemma until_dashes_line:
  assumes "10 \<notin> set l" and "13 \<notin> set l"
  shows "until_dashes (l @ 10 # t) =
    (if starts_with (js ''---'') t then Some l else map_option (\<lambda>r. l @ 10 # r) (until_dashes t))"
  using assms by (induction l) (auto simp: starts_with_def option.map_comp comp_def option.map_id0 [unfolded id_def])

lemma frontmatter_at_block:
  assumes "s \<noteq> []" and "\<not> is_ws (hd s)"
  shows "frontmatter_at (js ''---'' @ 10 # s) = until_dashes s"
proof -
  have "after_breaks s = []" using assms by (cases s) simp_all
  then have "after_breaks (10 # s) = [s]" by (simp add: is_ws_def)
  then show ?thesis by (simp add: frontmatter_at_def starts_with_def split: option.splits)
qed

lemma cut_at_first: "c \<notin> set a \<Longrightarrow> cut_at [c] (a @ c # b) = Some (a, b)"
  by (induction a) (auto simp: starts_with_def)

lemma trim_blank: "trim (32 # s) = trim s"
  by (simp add: trim_def trim_start_def is_ws_def)

lemma field_line:
  assumes "58 \<notin> set k" and "k \<noteq> []" and "\<not> is_ws (hd k)" and "trim k = k" and "trim v = v"
  shows "frontmatter_field fs (k @ 58 # 32 # v) = fs(k \<mapsto> unquote v)"
  using assms by (simp add: frontmatter_field_def cut_at_first hd_append trim_blank)

lemma slug_plain:
  assumes "NAME_RE n"
  shows "trim n = n" "unquote n = n" "10 \<notin> set n" "13 \<notin> set n"
proof -
  have n: "n \<noteq> []" "is_slug_char (hd n)" "is_slug_char (last n)" "\<And>c. c \<in> set n \<Longrightarrow> is_slug_char c \<or> c = 45"
    using assms by (auto simp: NAME_RE_def list_all_iff)
  have ws: "\<not> is_ws c" "c \<noteq> 34" "c \<noteq> 39" if "is_slug_char c" for c
    using that by (auto simp: is_slug_char_def is_ws_def is_digit_def)
  show "trim n = n" using n ws by (intro trim_no_outer_ws) auto
  show "unquote n = n" using n(1,2) ws(2,3) by (cases n) (auto simp: unquote_def starts_with_def)
  show "10 \<notin> set n" "13 \<notin> set n" using n(4) [of 10] n(4) [of 13] by (auto simp: is_slug_char_def is_digit_def)
qed

lemma split_lines_two:
  assumes "10 \<notin> set a" and "10 \<notin> set b" and "13 \<notin> set a"
  shows "split_lines (a @ 10 # b) = [a, b]"
proof -
  have "chop_return a = a" using assms(3) by (metis chop_return_def last_in_set)
  then show ?thesis using assms(1,2) by (simp add: split_lines_def split_char_append_sep split_char_no_sep)
qed

lemma validated_name: "validateMetadata n d = [] \<Longrightarrow> NAME_RE n \<and> trim d \<noteq> []"
  by (auto simp: validateMetadata_def split: if_splits)

definition front_line :: "jstr \<Rightarrow> jstr \<Rightarrow> jstr" where
  "front_line k v = k @ 58 # 32 # v"

lemma frontmatter_at_two:
  assumes "10 \<notin> set a" "13 \<notin> set a" "10 \<notin> set b" "13 \<notin> set b"
    and "a \<noteq> []" "\<not> is_ws (hd a)" "b \<noteq> []" "hd b \<noteq> 45"
  shows "frontmatter_at (js ''---'' @ 10 # a @ 10 # b @ 10 # js ''---'' @ body) = Some (a @ 10 # b)"
proof -
  have "\<not> starts_with (js ''---'') (b @ 10 # js ''---'' @ body)"
    using assms(7,8) by (cases b) (simp_all add: starts_with_def)
  then show ?thesis
    using assms by (subst frontmatter_at_block) (simp_all add: until_dashes_line del: list.map)
qed

definition skill_text :: "jstr \<Rightarrow> jstr \<Rightarrow> jstr \<Rightarrow> jstr" where
  "skill_text name description body = js ''---'' @ 10 # front_line (js ''name'') name @
     10 # front_line (js ''description'') description @ 10 # js ''---'' @ body"

text \<open>
  A skill whose metadata the editor accepts is read back with that metadata: the front matter of
  its text gives its name and its description, whatever follows it - for a description on one line,
  without outer white space and quotes.
\<close>

theorem frontmatter_round_trip:
  assumes "validateMetadata n d = []" and "trim d = d" and "unquote d = d" and "10 \<notin> set d" and "13 \<notin> set d"
  shows "parseFrontmatter (skill_text n d body) = \<lparr>fm_name = n, fm_description = d, fm_ok = True\<rparr>"
proof -
  have n: "NAME_RE n" using assms(1) validated_name by blast
  have field: "frontmatter_field fs (front_line k v) = fs(k \<mapsto> unquote v)"
    if "58 \<notin> set k" "k \<noteq> []" "\<not> is_ws (hd k)" "\<not> is_ws (last k)" "trim v = v" for fs k v
    unfolding front_line_def using that by (intro field_line) (simp_all add: trim_no_outer_ws)
  have "parseFrontmatter (skill_text n d body) =
      (let fs = foldl frontmatter_field Map.empty (split_lines (front_line (js ''name'') n @ 10 # front_line (js ''description'') d))
       in \<lparr>fm_name = (case fs (js ''name'') of Some v \<Rightarrow> v | None \<Rightarrow> []),
           fm_description = (case fs (js ''description'') of Some v \<Rightarrow> v | None \<Rightarrow> []), fm_ok = True\<rparr>)"
    unfolding parseFrontmatter_def skill_text_def
    using slug_plain(3,4) [OF n] assms(4,5) by (subst frontmatter_at_two) (simp_all add: front_line_def is_ws_def)
  also have "split_lines (front_line (js ''name'') n @ 10 # front_line (js ''description'') d) =
      [front_line (js ''name'') n, front_line (js ''description'') d]"
    using slug_plain(3,4) [OF n] assms(4,5) by (intro split_lines_two) (simp_all add: front_line_def)
  also have "foldl frontmatter_field Map.empty \<dots> = [js ''name'' \<mapsto> n, js ''description'' \<mapsto> d]"
    using field [of "js ''name''" n] field [of "js ''description''" d] slug_plain [OF n] assms(2,3)
    by (simp add: is_ws_def)
  finally show ?thesis by simp
qed

lemma frontmatter_round_trip_witness:
  "parseFrontmatter (skill_text (js ''a-1'') (js ''d'') []) = \<lparr>fm_name = js ''a-1'', fm_description = js ''d'', fm_ok = True\<rparr>"
  by (rule frontmatter_round_trip)
     (simp_all add: validateMetadata_def NAME_RE_def is_slug_char_def is_digit_def unquote_def starts_with_def
       lower_def lower_unit_def trim_no_outer_ws is_ws_def)

section \<open>Facts: the tree\<close>

primrec tree_entries :: "tree_folder \<Rightarrow> jstr list \<Rightarrow> (jstr list \<times> jstr \<times> jstr) list" where
  "tree_entries (Folder n p subs files) here =
     map (Pair here) files @ concat (map (\<lambda>t. tree_entries t (here @ [tf_name t])) subs)"

lemma change_first_mset:
  assumes "\<And>x. P x \<Longrightarrow> mset (g (f x)) = mset (g x) + X" and "g new = []" and "P new"
  shows "mset (concat (map g (change_first P f new xs))) = mset (concat (map g xs)) + X"
  using assms by (induction xs) (auto simp: ac_simps)

lemma at_folder_name: "(\<And>t. tf_name (f t) = tf_name t) \<Longrightarrow> tf_name (at_folder f ps acc t) = tf_name t"
  by (cases ps) (simp_all add: Let_def)

lemma at_folder_entries:
  assumes "\<And>t here. mset (tree_entries (f t) here) = mset (tree_entries t here) + X here" and "\<And>t. tf_name (f t) = tf_name t"
  shows "mset (tree_entries (at_folder f ps acc t) here) = mset (tree_entries t here) + X (here @ ps)"
proof (induction ps arbitrary: acc t here)
  case (Cons p ps)
  let ?acc = "if acc = [] then p else acc @ [47] @ p"
  obtain n q subs files where t: "t = Folder n q subs files" by (cases t)
  have "mset (concat (map (\<lambda>x. tree_entries x (here @ [tf_name x]))
      (change_first (\<lambda>x. tf_name x = p) (at_folder f ps ?acc) (Folder p ?acc [] []) subs))) =
    mset (concat (map (\<lambda>x. tree_entries x (here @ [tf_name x])) subs)) + X (here @ p # ps)"
    by (rule change_first_mset) (simp_all add: at_folder_name assms(2) Cons.IH)
  then show ?case by (simp add: t Let_def)
qed (simp add: assms(1))

lemma place_file_entries:
  "mset (tree_entries (place_file t p) []) =
    add_mset (butlast (split_char 47 p), p, last (split_char 47 p)) (mset (tree_entries t []))"
proof -
  let ?e = "(p, last (split_char 47 p))"
  have "mset (tree_entries (add_file ?e u) here) = mset (tree_entries u here) + {# (here, ?e) #}" for u here
    by (cases u) (simp add: add_file_def)
  from at_folder_entries [of "add_file ?e" "\<lambda>here. {# (here, ?e) #}", OF this] show ?thesis
    by (simp add: place_file_def Let_def add_file_def)
qed

lemma place_folder_entries: "mset (tree_entries (place_folder t p) []) = mset (tree_entries t [])"
  using at_folder_entries [of id "\<lambda>_. {#}"] by (simp add: place_folder_def)

lemma insert_by_mset: "mset (insert_by le key x xs) = add_mset x (mset xs)"
  by (induction xs) auto

lemma sort_by_mset: "mset (sort_by le key xs) = mset xs"
  by (induction xs) (simp_all add: sort_by_def insert_by_mset)

lemma sortFolder_name: "tf_name (sortFolder le t) = tf_name t"
  by (cases t) simp

lemma mset_concat_map: "mset xs = mset ys \<Longrightarrow> mset (concat (map f xs)) = mset (concat (map f ys))"
  by (simp add: mset_concat) (metis mset_map sum_mset_sum_list)

lemma sortFolder_entries: "mset (tree_entries (sortFolder le t) here) = mset (tree_entries t here)"
proof (induction t arbitrary: here)
  case (Folder n p subs files)
  let ?g = "\<lambda>t. tree_entries t (here @ [tf_name t])"
  have "mset (concat (map ?g (map snd (sort_by le fst (map (\<lambda>t. (tf_name t, sortFolder le t)) subs)))))
      = mset (concat (map ?g (map (sortFolder le) subs)))"
    by (rule mset_concat_map) (simp add: sort_by_mset multiset.map_comp comp_def)
  also have "\<dots> = mset (concat (map ?g subs))"
    using Folder by (simp add: mset_concat comp_def sortFolder_name cong: map_cong)
  finally show ?case by (simp add: sort_by_mset comp_def)
qed

text \<open>
  The tree shows every file exactly once and where it belongs: below the folders its path names,
  under the last part of its path.  Extra folders and sorting change nothing of that.
\<close>

theorem tree_shows_files:
  "mset (tree_entries (buildTree le filePaths extraFolders) []) =
   mset (map (\<lambda>p. (butlast (split_char 47 p), p, baseName p)) filePaths)"
proof -
  have files: "mset (tree_entries (foldl place_file t ps) []) =
      mset (tree_entries t []) + mset (map (\<lambda>p. (butlast (split_char 47 p), p, baseName p)) ps)" for t ps
    by (induction ps arbitrary: t) (simp_all add: place_file_entries baseName_def)
  have "mset (tree_entries (foldl place_folder t ps) []) = mset (tree_entries t [])" for t ps
    by (induction ps arbitrary: t) (simp_all add: place_folder_entries)
  then show ?thesis by (simp add: buildTree_def sortFolder_entries files)
qed

section \<open>Facts: import and export\<close>

lemma hd_split_no_sep: "sep \<notin> set (hd (split_char sep s))"
  by (induction s) (auto split: list.splits)

lemma top_of: "starts_with (f @ [47]) n \<Longrightarrow> 47 \<notin> set f \<Longrightarrow> hd (split_char 47 n) = f"
  by (auto simp: starts_with_iff split_char_append_sep)

lemma common_top:
  assumes "commonTopFolder names \<noteq> []" and "n \<in> set names"
  shows "commonTopFolder names = hd (split_char 47 n) @ [47]"
proof -
  obtain m ms where m: "names = m # ms" using assms(2) by (cases names) auto
  have "commonTopFolder names = hd (split_char 47 m) @ [47]" "list_all (starts_with (hd (split_char 47 m) @ [47])) names"
    using assms(1) by (auto simp: m commonTopFolder_def Let_def split: if_splits)
  then show ?thesis using top_of [OF _ hd_split_no_sep, of m n] assms(2) by (auto simp: list_all_iff)
qed

text \<open>
  The entries the system adds to a zip file - \<open>__MACOSX/...\<close> beside the folder of the skill - are
  skipped, but only after the common folder has been looked for: with them there is none, and every
  path keeps the folder it should lose.
\<close>

lemma mac_zip_keeps_folder:
  assumes "{a, b} \<subseteq> set entries" and "\<not> ze_dir a" "\<not> ze_dir b"
    and "hd (split_char 47 (ze_name a)) \<noteq> hd (split_char 47 (ze_name b))" and "(p, t) \<in> set (zip_items entries)"
  shows "p \<in> ze_name ` set entries"
proof -
  let ?names = "map ze_name (filter (\<lambda>e. \<not> ze_dir e) entries)"
  have "ze_name a \<in> set ?names" "ze_name b \<in> set ?names" using assms(1-3) by auto
  then have "commonTopFolder ?names = []" using assms(4) by (metis append_same_eq common_top)
  then show ?thesis using assms(5) unfolding zip_items_def Let_def by auto
qed

definition entry :: "jstr \<times> jstr \<Rightarrow> zip_entry" where
  "entry e = \<lparr>ze_name = fst e, ze_dir = False, ze_text = snd e\<rparr>"

text \<open>Text without half of a surrogate pair, which has an encoding as UTF-8.\<close>

fun well_formed :: "jstr \<Rightarrow> bool" where
  "well_formed [] = True"
| "well_formed [c] = (\<not> high_surrogate c \<and> \<not> low_surrogate c)"
| "well_formed (c # d # s) = (if high_surrogate c then low_surrogate d \<and> well_formed s else \<not> low_surrogate c \<and> well_formed (d # s))"

text \<open>
  What is used of the library for zip files: an archive of distinct relative names, without empty
  segments and without the segments . and .., is read back with the same names and texts in the same
  order, beside entries for folders.  Other names the library changes when it reads them.
\<close>

definition plain_name :: "jstr \<Rightarrow> bool" where
  "plain_name n \<longleftrightarrow> well_formed n \<and> list_all (\<lambda>p. p \<noteq> [] \<and> p \<noteq> [46] \<and> p \<noteq> [46, 46]) (split_char 47 n)"

definition zip_reads_back :: "((jstr \<times> jstr) list \<Rightarrow> 'blob) \<Rightarrow> ('blob \<Rightarrow> zip_entry list option) \<Rightarrow> bool" where
  "zip_reads_back pack unpack \<longleftrightarrow>
     (\<forall>es. distinct (map fst es) \<longrightarrow> (\<forall>e\<in>set es. plain_name (fst e) \<and> well_formed (snd e)) \<longrightarrow>
        (\<exists>entries. unpack (pack es) = Some entries \<and> filter (\<lambda>e. \<not> ze_dir e) entries = map entry es))"

definition portable :: "skill_file \<Rightarrow> bool" where
  "portable f \<longleftrightarrow> trim (sf_path f) = sf_path f \<and> isReferenceFile (sf_path f)
     \<and> \<not> starts_with [46] (baseName (sf_path f)) \<and> \<not> includes_str (js ''__MACOSX'') (sf_path f)
     \<and> plain_name (sf_path f) \<and> well_formed (sf_content f)"

lemma portable_not_skill: "portable f \<Longrightarrow> lower (baseName (sf_path f)) \<noteq> js ''skill.md'' \<and> isReferenceFile (sf_path f)"
  unfolding portable_def using isReferenceFile_def [of "sf_path f"] by (auto simp: Let_def split: if_splits)

lemma portable_kept: "portable f \<Longrightarrow> \<not> (starts_with [46] (baseName (sf_path f)) \<or> includes_str (js ''__MACOSX'') (sf_path f)) \<and> sf_path f \<noteq> []"
  unfolding portable_def by (auto simp: isReferenceFile_def)

lemma zip_items_plain:
  assumes "filter (\<lambda>e. \<not> ze_dir e) entries = map entry es" and "commonTopFolder (map fst es) = []"
    and "\<And>e. e \<in> set es \<Longrightarrow> \<not> (starts_with [46] (baseName (fst e)) \<or> includes_str (js ''__MACOSX'') (fst e)) \<and> fst e \<noteq> []"
  shows "zip_items entries = es"
proof -
  have "map ze_name (map entry es) = map fst es" by (simp add: entry_def)
  moreover have "filter (\<lambda>e. \<not> (starts_with [46] (baseName (ze_name e)) \<or> includes_str (js ''__MACOSX'') (ze_name e)) \<and> ze_name e \<noteq> [])
      (map entry es) = map entry es"
    using assms(3) by (intro filter_True) (auto simp: entry_def)
  ultimately show ?thesis
    unfolding zip_items_def Let_def assms(1) by (simp add: assms(2) entry_def comp_def)
qed

lemma skill_md_name: "split_char 47 SKILL_MD = [SKILL_MD]" "lower (baseName SKILL_MD) = js ''skill.md''"
    "\<not> starts_with [46] (baseName SKILL_MD)" "\<not> includes_str (js ''__MACOSX'') SKILL_MD"
  by (simp_all add: SKILL_MD_def baseName_def lower_def lower_unit_def starts_with_def)

lemma ingest_files:
  "list_all portable files \<Longrightarrow> foldl ingest b (map (\<lambda>f. (sf_path f, sf_content f)) files) = b\<lparr>bn_files := bn_files b @ files\<rparr>"
  by (induction files arbitrary: b) (auto simp: ingest_def dest!: portable_not_skill)

lemma zip_name_ends: "ends_with (js ''.zip'') (lower (n @ js ''.zip''))"
  by (simp add: ends_with_def lower_def lower_unit_def)


text \<open>A library that keeps the list it was given.\<close>

definition list_unpack :: "(jstr \<times> jstr) list \<Rightarrow> zip_entry list option" where
  "list_unpack es = Some (map entry es)"

lemma list_reads_back: "zip_reads_back (\<lambda>es. es) list_unpack"
  by (simp add: zip_reads_back_def list_unpack_def entry_def comp_def)


text \<open>Any file of the bundle named SKILL.md, in whatever folder, replaces the text read before.\<close>

lemma nested_skill_md_wins:
  "lower (baseName path) = js ''skill.md'' \<Longrightarrow> bn_content (foldl ingest b (es @ [(path, body)])) = body"
  by (simp add: ingest_def)

end
