(* ===== verification/SkillEditor.thy ===== *)
theory SkillEditor
  imports SkillFiles JsValue
begin

text \<open>
  The dialog that edits a skill: src/ui/web/src/components/settings/tabs/SkillEditorDialog.tsx, with
  the properties SkillsTab.tsx gives it (openCreate, openEdit and the end of handleImport).

  The state is the one of the dialog's hooks and of the parent's properties; the requests it made are
  kept as lists.  Every event is one handler or one reply.  The answers of \<open>prompt\<close> and \<open>confirm\<close> are
  arguments; the handler of the Escape key does what \<open>requestClose\<close> does.
\<close>

section \<open>State\<close>

text \<open>What \<open>skills.get\<close> gives.\<close>

record loaded_skill =
  ls_content :: jstr
  ls_files :: "skill_file list option"
  ls_metadata :: "jstr option"

record save_request =
  sr_skill :: "jstr option"
  sr_content :: jstr
  sr_metadata :: jstr
  sr_files :: "skill_file list"

record editor =
  ed_open :: bool
  ed_skill :: "jstr option"
  ed_initial :: "(jstr \<times> skill_file list) option"
  ed_content :: jstr
  ed_metadata :: jstr
  ed_files :: "skill_file list"
  ed_extra :: "jstr list"
  ed_collapsed :: "jstr \<rightharpoonup> bool"
  ed_selected :: jstr
  ed_saving :: bool
  ed_loading :: bool
  ed_dirty :: bool
  ed_gets :: "jstr list"
  ed_sent :: "save_request list"
  ed_toasts :: "jstr list"

definition SKILL_MD_TEMPLATE :: jstr where
  "SKILL_MD_TEMPLATE = concat (map (\<lambda>l. l @ [10])
     [js ''---'', js ''name: my-skill'', js ''description: What this skill does and when to use it.'', js ''---'', [],
      js ''# My Skill'', [], js ''## Instructions'', js ''Step-by-step guidance for the agent.''])"

definition editor_start :: editor where
  "editor_start = \<lparr>ed_open = False, ed_skill = None, ed_initial = None, ed_content = SKILL_MD_TEMPLATE, ed_metadata = [],
     ed_files = [], ed_extra = [], ed_collapsed = Map.empty, ed_selected = SKILL_MD, ed_saving = False, ed_loading = False,
     ed_dirty = False, ed_gets = [], ed_sent = [], ed_toasts = []\<rparr>"

text \<open>The skill to update; an empty id counts as none.\<close>

definition edited_skill :: "editor \<Rightarrow> jstr option" where
  "edited_skill s = (case ed_skill s of Some i \<Rightarrow> if i = [] then None else Some i | None \<Rightarrow> None)"

definition toast :: "jstr \<Rightarrow> editor \<Rightarrow> editor" where
  "toast t s = s\<lparr>ed_toasts := ed_toasts s @ [t]\<rparr>"

section \<open>Opening\<close>

text \<open>The effect that runs whenever \<open>open\<close>, \<open>skillId\<close> or \<open>initial\<close> changes.\<close>

definition init_effect :: "editor \<Rightarrow> editor" where
  "init_effect s0 =
     (if \<not> ed_open s0 then s0
      else
        let s = s0\<lparr>ed_selected := SKILL_MD, ed_extra := [], ed_collapsed := Map.empty, ed_dirty := False\<rparr>
        in case ed_initial s of
             Some (c, fs) \<Rightarrow> s\<lparr>ed_content := c, ed_files := fs, ed_metadata := [], ed_loading := False\<rparr>
           | None \<Rightarrow>
               (case edited_skill s of
                  Some i \<Rightarrow> s\<lparr>ed_loading := True, ed_gets := ed_gets s @ [i]\<rparr>
                | None \<Rightarrow> s\<lparr>ed_content := SKILL_MD_TEMPLATE, ed_files := [], ed_metadata := [], ed_loading := False\<rparr>))"

definition openCreate :: "editor \<Rightarrow> editor" where
  "openCreate s = init_effect (s\<lparr>ed_skill := None, ed_initial := None, ed_open := True\<rparr>)"

definition openEdit :: "jstr \<Rightarrow> editor \<Rightarrow> editor" where
  "openEdit i s = init_effect (s\<lparr>ed_skill := Some i, ed_initial := None, ed_open := True\<rparr>)"

definition open_import :: "jstr \<Rightarrow> skill_file list \<Rightarrow> editor \<Rightarrow> editor" where
  "open_import c fs s = init_effect (s\<lparr>ed_skill := None, ed_initial := Some (c, fs), ed_open := True\<rparr>)"

text \<open>The reply to a request of the effect: the bundle, or \<open>None\<close> when it fails.\<close>

definition get_reply :: "loaded_skill option \<Rightarrow> editor \<Rightarrow> editor" where
  "get_reply r s =
     (case r of
        Some full \<Rightarrow> s\<lparr>ed_content := ls_content full,
            ed_files := (case ls_files full of Some fs \<Rightarrow> fs | None \<Rightarrow> []),
            ed_metadata := (case ls_metadata full of Some m \<Rightarrow> m | None \<Rightarrow> []), ed_loading := False\<rparr>
      | None \<Rightarrow> (toast (js ''Failed to load skill.'') s)\<lparr>ed_loading := False\<rparr>)"

section \<open>Editing\<close>

definition metaError :: "editor \<Rightarrow> jstr" where
  "metaError s = (let fm = parseFrontmatter (ed_content s) in
     if fm_ok fm then validateMetadata (fm_name fm) (fm_description fm)
     else js ''SKILL.md must start with YAML frontmatter (---).'')"

definition selectedContent :: "editor \<Rightarrow> jstr" where
  "selectedContent s =
     (if ed_selected s = SKILL_MD then ed_content s
      else case find (\<lambda>f. sf_path f = ed_selected s) (ed_files s) of Some f \<Rightarrow> sf_content f | None \<Rightarrow> [])"

definition setSelectedContent :: "jstr \<Rightarrow> editor \<Rightarrow> editor" where
  "setSelectedContent t s0 =
     (let s = s0\<lparr>ed_dirty := True\<rparr> in
      if ed_selected s = SKILL_MD then s\<lparr>ed_content := t\<rparr>
      else s\<lparr>ed_files := map (\<lambda>f. if sf_path f = ed_selected s then f\<lparr>sf_content := t\<rparr> else f) (ed_files s)\<rparr>)"

definition requestClose :: "bool \<Rightarrow> bool \<Rightarrow> editor \<Rightarrow> editor" where
  "requestClose nxt confirmed s = (if \<not> nxt \<and> ed_dirty s \<and> \<not> confirmed then s else s\<lparr>ed_open := nxt\<rparr>)"

text \<open>\<open>collapsed\<close> is a plain object: the names of \<open>Object.prototype\<close> are found in it from the start.\<close>

definition is_collapsed :: "editor \<Rightarrow> jstr \<Rightarrow> bool" where
  "is_collapsed s p = (case ed_collapsed s p of Some b \<Rightarrow> b | None \<Rightarrow> p \<in> set proto_names)"

definition toggleFolder :: "jstr \<Rightarrow> editor \<Rightarrow> editor" where
  "toggleFolder p s = s\<lparr>ed_collapsed := (ed_collapsed s)(p \<mapsto> \<not> is_collapsed s p)\<rparr>"

text \<open>\<open>input.trim().replace(/^\/+|\/+$/g, "")\<close>.\<close>

definition strip_slashes :: "jstr \<Rightarrow> jstr" where
  "strip_slashes t = rev (dropWhile (\<lambda>c. c = 47) (rev (dropWhile (\<lambda>c. c = 47) t)))"

definition child_path :: "jstr \<Rightarrow> jstr \<Rightarrow> jstr" where
  "child_path parent rel = (if parent \<noteq> [] then parent @ [47] @ rel else rel)"

definition skip_warning :: jstr where
  "skip_warning = js ''Only reference files are kept (.md .markdown .txt .json .yaml .yml .csv .html). This file will be skipped on save.''"

definition handleNewFile :: "jstr \<Rightarrow> jstr option \<Rightarrow> editor \<Rightarrow> editor" where
  "handleNewFile parent answer s =
     (let rel = (case answer of Some t \<Rightarrow> strip_slashes (trim t) | None \<Rightarrow> []); path = child_path parent rel in
      if rel = [] then s
      else if list_ex (\<lambda>f. sf_path f = path) (ed_files s) then toast (js ''A file with that path already exists.'') s
      else
        let s1 = (if isReferenceFile path then s else toast skip_warning s)
        in s1\<lparr>ed_files := ed_files s1 @ [\<lparr>sf_path = path, sf_content = []\<rparr>],
              ed_collapsed := (if parent \<noteq> [] then (ed_collapsed s1)(parent \<mapsto> False) else ed_collapsed s1),
              ed_selected := path, ed_dirty := True\<rparr>)"

definition handleNewFolder :: "jstr \<Rightarrow> jstr option \<Rightarrow> editor \<Rightarrow> editor" where
  "handleNewFolder parent answer s =
     (let rel = (case answer of Some t \<Rightarrow> strip_slashes (trim t) | None \<Rightarrow> []); folder = child_path parent rel;
          c = (ed_collapsed s)(folder \<mapsto> False) in
      if rel = [] then s
      else s\<lparr>ed_extra := (if folder \<in> set (ed_extra s) then ed_extra s else ed_extra s @ [folder]),
             ed_collapsed := (if parent \<noteq> [] then c(parent \<mapsto> False) else c)\<rparr>)"

definition deleteFile :: "jstr \<Rightarrow> bool \<Rightarrow> editor \<Rightarrow> editor" where
  "deleteFile path confirmed s =
     (if \<not> confirmed then s
      else s\<lparr>ed_files := filter (\<lambda>f. sf_path f \<noteq> path) (ed_files s),
             ed_selected := (if ed_selected s = path then SKILL_MD else ed_selected s), ed_dirty := True\<rparr>)"

definition deleteFolder :: "jstr \<Rightarrow> bool \<Rightarrow> editor \<Rightarrow> editor" where
  "deleteFolder path confirmed s =
     (let prefix = path @ [47] in
      if \<not> confirmed then s
      else s\<lparr>ed_files := filter (\<lambda>f. \<not> starts_with prefix (sf_path f)) (ed_files s),
             ed_extra := filter (\<lambda>f. f \<noteq> path \<and> \<not> starts_with prefix f) (ed_extra s), ed_dirty := True\<rparr>)"

section \<open>Saving\<close>

definition handleSave :: "editor \<Rightarrow> editor" where
  "handleSave s =
     (if metaError s \<noteq> [] then toast (metaError s) s
      else s\<lparr>ed_saving := True,
             ed_sent := ed_sent s @ [\<lparr>sr_skill = edited_skill s, sr_content = ed_content s,
               sr_metadata = ed_metadata s, sr_files = ed_files s\<rparr>]\<rparr>)"

text \<open>The reply to the save of a skill: the files the server skipped, or \<open>None\<close> when it fails.\<close>

definition save_reply :: "jstr option \<Rightarrow> jstr list option option \<Rightarrow> editor \<Rightarrow> editor" where
  "save_reply skill r s =
     (case r of
        None \<Rightarrow> s\<lparr>ed_saving := False\<rparr>
      | Some skipped \<Rightarrow>
          let s1 = toast (if skill \<noteq> None then js ''Skill saved'' else js ''Skill created'') s;
              s2 = (case skipped of
                      Some (f # fs) \<Rightarrow> toast (js ''Skipped '' @ nat_str (length (f # fs)) @ js '' file(s): '' @ join (js '', '') (f # fs)) s1
                    | _ \<Rightarrow> s1)
          in s2\<lparr>ed_dirty := False, ed_open := False, ed_saving := False\<rparr>)"

section \<open>Events\<close>

datatype editor_event =
  OpenCreate | OpenEdit jstr | OpenImport jstr "skill_file list" | GetReply jstr "loaded_skill option"
| EditText jstr | SelectFile jstr | Toggle jstr | NewFile jstr "jstr option" | NewFolder jstr "jstr option"
| DeleteFile jstr bool | DeleteFolder jstr bool | CloseEditor bool | SaveSkill | SaveReply "jstr option" "jstr list option option"

fun editor_step :: "editor \<Rightarrow> editor_event \<Rightarrow> editor" where
  "editor_step s OpenCreate = openCreate s"
| "editor_step s (OpenEdit i) = openEdit i s"
| "editor_step s (OpenImport c fs) = open_import c fs s"
| "editor_step s (GetReply i r) = get_reply r s"
| "editor_step s (EditText t) = setSelectedContent t s"
| "editor_step s (SelectFile p) = s\<lparr>ed_selected := p\<rparr>"
| "editor_step s (Toggle p) = toggleFolder p s"
| "editor_step s (NewFile parent a) = handleNewFile parent a s"
| "editor_step s (NewFolder parent a) = handleNewFolder parent a s"
| "editor_step s (DeleteFile p ok) = deleteFile p ok s"
| "editor_step s (DeleteFolder p ok) = deleteFolder p ok s"
| "editor_step s (CloseEditor ok) = requestClose False ok s"
| "editor_step s SaveSkill = handleSave s"
| "editor_step s (SaveReply skill r) = save_reply skill r s"

section \<open>The bundle as a map\<close>

type_synonym bundle_spec = "jstr \<times> (jstr \<rightharpoonup> jstr) \<times> jstr"

definition texts :: "skill_file list \<Rightarrow> (jstr \<rightharpoonup> jstr)" where
  "texts fs = map_of (map (\<lambda>f. (sf_path f, sf_content f)) fs)"

definition editor_abs :: "editor \<Rightarrow> bundle_spec" where
  "editor_abs s = (ed_content s, texts (ed_files s), ed_selected s)"

definition valid_request :: "save_request \<Rightarrow> bool" where
  "valid_request r \<longleftrightarrow> (let fm = parseFrontmatter (sr_content r) in
     fm_ok fm \<and> validateMetadata (fm_name fm) (fm_description fm) = []) \<and> distinct (map sf_path (sr_files r))"

definition editor_inv :: "editor \<Rightarrow> bool" where
  "editor_inv s \<longleftrightarrow> distinct (map sf_path (ed_files s)) \<and> list_all valid_request (ed_sent s)"

text \<open>What is given to the dialog has no path twice.\<close>

fun editor_ok :: "editor \<Rightarrow> editor_event \<Rightarrow> bool" where
  "editor_ok s (OpenImport c fs) = distinct (map sf_path fs)"
| "editor_ok s (GetReply i (Some full)) = (case ls_files full of Some fs \<Rightarrow> distinct (map sf_path fs) | None \<Rightarrow> True)"
| "editor_ok s _ = True"

definition new_path :: "jstr \<Rightarrow> jstr option \<Rightarrow> jstr option" where
  "new_path parent answer = (let rel = (case answer of Some t \<Rightarrow> strip_slashes (trim t) | None \<Rightarrow> [])
     in if rel = [] then None else Some (child_path parent rel))"

fun editor_spec :: "bundle_spec \<Rightarrow> editor_event \<Rightarrow> bundle_spec" where
  "editor_spec (c, m, sel) OpenCreate = (SKILL_MD_TEMPLATE, Map.empty, SKILL_MD)"
| "editor_spec (c, m, sel) (OpenEdit i) = (if i = [] then (SKILL_MD_TEMPLATE, Map.empty, SKILL_MD) else (c, m, SKILL_MD))"
| "editor_spec (c, m, sel) (OpenImport d fs) = (d, texts fs, SKILL_MD)"
| "editor_spec (c, m, sel) (GetReply i (Some full)) =
     (ls_content full, texts (case ls_files full of Some fs \<Rightarrow> fs | None \<Rightarrow> []), sel)"
| "editor_spec (c, m, sel) (EditText t) =
     (if sel = SKILL_MD then (t, m, sel) else (c, if m sel = None then m else m(sel \<mapsto> t), sel))"
| "editor_spec (c, m, sel) (SelectFile p) = (c, m, p)"
| "editor_spec (c, m, sel) (NewFile parent a) =
     (case new_path parent a of
        Some p \<Rightarrow> if m p = None then (c, m(p \<mapsto> []), p) else (c, m, sel)
      | None \<Rightarrow> (c, m, sel))"
| "editor_spec (c, m, sel) (DeleteFile p ok) = (if ok then (c, m(p := None), if sel = p then SKILL_MD else sel) else (c, m, sel))"
| "editor_spec (c, m, sel) (DeleteFolder p ok) = (if ok then (c, m |` {q. \<not> starts_with (p @ [47]) q}, sel) else (c, m, sel))"
| "editor_spec (c, m, sel) _ = (c, m, sel)"

lemma texts_none: "texts fs p = None \<longleftrightarrow> p \<notin> sf_path ` set fs"
  by (induction fs) (auto simp: texts_def)

lemma texts_snoc: "p \<notin> sf_path ` set fs \<Longrightarrow> texts (fs @ [\<lparr>sf_path = p, sf_content = t\<rparr>]) = (texts fs)(p \<mapsto> t)"
  by (induction fs) (auto simp: texts_def)

lemma texts_edit: "texts (map (\<lambda>f. if sf_path f = p then f\<lparr>sf_content := t\<rparr> else f) fs) =
    (if texts fs p = None then texts fs else (texts fs)(p \<mapsto> t))"
  by (induction fs) (auto simp: texts_def fun_eq_iff split: if_splits)

lemma texts_filter: "texts (filter (\<lambda>f. P (sf_path f)) fs) = texts fs |` {q. P q}"
  by (induction fs) (auto simp: texts_def restrict_map_def fun_eq_iff)

lemma edit_paths: "map sf_path (map (\<lambda>f. if sf_path f = p then f\<lparr>sf_content := t\<rparr> else f) fs) = map sf_path fs"
  by (induction fs) auto

lemma restrict_one: "m |` {q. q \<noteq> p} = m(p := None)"
  by (auto simp: restrict_map_def)

lemmas editor_defs = openCreate_def openEdit_def open_import_def init_effect_def edited_skill_def get_reply_def toast_def
  setSelectedContent_def toggleFolder_def handleNewFile_def handleNewFolder_def deleteFile_def deleteFolder_def
  requestClose_def handleSave_def save_reply_def Let_def

lemma distinct_filtered: "distinct (map f xs) \<Longrightarrow> distinct (map f (filter P xs))"
  by (induction xs) auto

lemma editor_inv_step: "editor_inv s \<Longrightarrow> editor_ok s e \<Longrightarrow> editor_inv (editor_step s e)"
proof (cases e)
  case (GetReply i r)
  assume "editor_inv s" "editor_ok s e"
  with GetReply show ?thesis by (cases r) (auto simp: editor_inv_def editor_defs split: option.splits)
next
  case (EditText t)
  assume "editor_inv s"
  with EditText show ?thesis by (simp add: editor_inv_def editor_defs edit_paths del: map_map)
next
  case (NewFile parent a)
  assume "editor_inv s"
  with NewFile show ?thesis by (auto simp: editor_inv_def editor_defs list_ex_iff)
next
  case SaveSkill
  assume "editor_inv s"
  with SaveSkill show ?thesis
    by (auto simp: editor_inv_def editor_defs valid_request_def metaError_def split: if_splits)
next
  case (SaveReply k r)
  assume "editor_inv s"
  with SaveReply show ?thesis by (auto simp: editor_inv_def editor_defs split: option.splits list.splits)
qed (auto simp: editor_inv_def editor_defs distinct_filtered split: option.splits)

lemma editor_abs_step: "editor_abs (editor_step s e) = editor_spec (editor_abs s) e"
proof (cases e)
  case (GetReply i r)
  then show ?thesis by (cases r) (auto simp: editor_abs_def editor_defs)
next
  case (EditText t)
  then show ?thesis by (simp add: editor_abs_def editor_defs texts_edit)
next
  case (NewFile parent a)
  then show ?thesis
    by (auto simp: editor_abs_def editor_defs new_path_def list_ex_iff texts_none texts_snoc image_iff)
next
  case (DeleteFile p ok)
  then show ?thesis
    using texts_filter [of "\<lambda>q. q \<noteq> p" "ed_files s"] by (simp add: editor_abs_def editor_defs restrict_one)
next
  case (DeleteFolder p ok)
  then show ?thesis
    using texts_filter [of "\<lambda>q. \<not> starts_with (p @ [47]) q" "ed_files s"] by (simp add: editor_abs_def editor_defs)
next
  case (SaveReply k r)
  then show ?thesis by (auto simp: editor_abs_def editor_defs split: option.splits list.splits)
qed (auto simp: editor_abs_def editor_defs texts_def split: option.splits)

interpretation editor: refinement_machine editor_step editor_ok editor_inv editor_spec editor_abs
  by unfold_locales (auto intro: editor_inv_step simp: editor_abs_step)

text \<open>
  C22. The list of files the editor keeps is a map from paths to texts: every run of events has the
  effect of the same events on the map, no path is ever listed twice, and no save is sent whose text
  lacks valid front matter.
\<close>

theorem editor_refines_spec:
  assumes "editor_inv s" and "ok_run editor_step editor_ok s es"
  shows "editor_abs (foldl editor_step s es) = foldl editor_spec (editor_abs s) es \<and>
    editor_inv (foldl editor_step s es)"
  using editor.run_refines assms by simp

lemma editor_refines_spec_witness:
  "editor_inv (foldl editor_step editor_start [OpenCreate, NewFile (js ''r'') (Some (js ''a.md'')), EditText (js ''x''), DeleteFolder (js ''r'') True])"
  by (rule editor_refines_spec [THEN conjunct2]) (simp_all add: editor_inv_def editor_start_def)

section \<open>Deleting a folder of the tree\<close>

text \<open>The path of the folder with the given names, as \<open>getFolder\<close> puts it together.\<close>

definition folder_path :: "jstr list \<Rightarrow> jstr" where
  "folder_path ns = foldl (\<lambda>acc p. if acc = [] then p else acc @ [47] @ p) [] ns"

text \<open>Every folder of the tree: its names from the root, and the path it carries.\<close>

primrec tree_paths :: "tree_folder \<Rightarrow> jstr list \<Rightarrow> (jstr list \<times> jstr) list" where
  "tree_paths (Folder n p subs files) here =
     concat (map (\<lambda>t. (here @ [tf_name t], tf_path t) # tree_paths t (here @ [tf_name t])) subs)"

lemma folder_path_snoc: "folder_path (here @ [p]) = (if folder_path here = [] then p else folder_path here @ [47] @ p)"
  by (simp add: folder_path_def)

lemma folder_path_join: "hd ns \<noteq> [] \<Longrightarrow> ns \<noteq> [] \<Longrightarrow> folder_path ns = join [47] ns \<and> folder_path ns \<noteq> []"
proof (induction ns rule: rev_induct)
  case (snoc p ns)
  have j: "ns \<noteq> [] \<Longrightarrow> join [47] (ns @ [p]) = join [47] ns @ [47] @ p" for ns :: "jstr list"
    by (induction ns rule: join.induct [of _ "[47]"]) simp_all
  show ?case
  proof (cases "ns = []")
    case False
    with snoc show ?thesis by (simp add: folder_path_snoc j hd_append) metis
  qed (use snoc in \<open>simp add: folder_path_def\<close>)
qed simp

abbreviation plain_names :: "jstr list \<Rightarrow> bool" where
  "plain_names ns \<equiv> list_all (\<lambda>n. 47 \<notin> set n) ns"

definition paths_ok :: "tree_folder \<Rightarrow> jstr list \<Rightarrow> bool" where
  "paths_ok t here \<longleftrightarrow> (\<forall>e \<in> set (tree_paths t here). snd e = folder_path (fst e) \<and> fst e \<noteq> [] \<and> plain_names (fst e))"

abbreviation child_ok :: "jstr list \<Rightarrow> tree_folder \<Rightarrow> bool" where
  "child_ok here t \<equiv> tf_path t = folder_path (here @ [tf_name t]) \<and> plain_names (here @ [tf_name t]) \<and> paths_ok t (here @ [tf_name t])"

lemma paths_ok_Folder: "paths_ok (Folder n p subs files) here \<longleftrightarrow> list_all (child_ok here) subs"
  unfolding paths_ok_def list_all_iff by auto

lemma split_char_parts: "x \<in> set (split_char sep s) \<Longrightarrow> sep \<notin> set x"
  by (induction s arbitrary: x) (auto split: if_splits list.splits)

lemma split_parts_plain: "set ps \<subseteq> set (split_char 47 s) \<Longrightarrow> plain_names ps"
  using split_char_parts [of _ 47 s] by (auto simp: list_all_iff)

lemma change_first_all: "list_all Q xs \<Longrightarrow> (\<And>x. P x \<Longrightarrow> Q x \<Longrightarrow> Q (f x)) \<Longrightarrow> Q (f new) \<Longrightarrow> list_all Q (change_first P f new xs)"
  by (induction xs) auto

lemma at_folder_path: "(\<And>t. tf_path (f t) = tf_path t) \<Longrightarrow> tf_path (at_folder f ps acc t) = tf_path t"
  by (cases ps) (simp_all add: Let_def)

lemma at_folder_paths:
  assumes "\<And>t here. paths_ok (f t) here = paths_ok t here" "\<And>t. tf_name (f t) = tf_name t" "\<And>t. tf_path (f t) = tf_path t"
  shows "paths_ok t here \<Longrightarrow> plain_names (here @ ps) \<Longrightarrow> paths_ok (at_folder f ps (folder_path here) t) here"
proof (induction ps arbitrary: t here)
  case (Cons p ps)
  obtain n q subs files where t: "t = Folder n q subs files" by (cases t)
  let ?f = "at_folder f ps (folder_path (here @ [p]))" and ?new = "Folder p (folder_path (here @ [p])) [] []"
  have step: "child_ok here (?f x)" if "tf_name x = p" "child_ok here x" for x
    using Cons.IH [of x "here @ [p]"] Cons.prems(2) that by (simp add: at_folder_name at_folder_path assms(2,3))
  have "child_ok here ?new" using Cons.prems(2) by (simp add: paths_ok_def)
  then have "list_all (child_ok here) (change_first (\<lambda>x. tf_name x = p) ?f ?new subs)"
    using Cons.prems(1) step [of ?new] by (intro change_first_all step) (simp_all add: t paths_ok_Folder)
  moreover have "at_folder f (p # ps) (folder_path here) t = Folder n q (change_first (\<lambda>x. tf_name x = p) ?f ?new subs) files"
    by (simp add: t Let_def folder_path_snoc)
  ultimately show ?case by (simp add: paths_ok_Folder)
qed (simp add: assms(1))

lemma sort_by_set: "set (sort_by le key xs) = set xs"
  by (metis set_mset_mset sort_by_mset)

lemma sortFolder_path: "tf_path (sortFolder le t) = tf_path t"
  by (cases t) simp

lemma sortFolder_paths: "paths_ok t here \<Longrightarrow> paths_ok (sortFolder le t) here"
proof (induction t arbitrary: here)
  case (Folder n p subs files)
  then show ?case by (auto simp: paths_ok_Folder list_all_iff sort_by_set sortFolder_name sortFolder_path)
qed

lemma place_file_paths: "paths_ok t [] \<Longrightarrow> paths_ok (place_file t p) []"
proof -
  let ?f = "add_file (p, last (split_char 47 p))"
  have f: "paths_ok (?f t) here = paths_ok t here" for t here
    by (cases t) (simp add: add_file_def paths_ok_Folder)
  have names: "tf_name (?f t) = tf_name t" "tf_path (?f t) = tf_path t" for t by (simp_all add: add_file_def)
  have "plain_names (butlast (split_char 47 p))"
    by (rule split_parts_plain) (auto dest: in_set_butlastD)
  then show "paths_ok t [] \<Longrightarrow> paths_ok (place_file t p) []"
    using at_folder_paths [of ?f t "[]", OF f names] by (simp add: place_file_def Let_def folder_path_def)
qed

lemma place_folder_paths: "paths_ok t [] \<Longrightarrow> paths_ok (place_folder t p) []"
  using at_folder_paths [of id t "[]"] split_parts_plain [of "filter (\<lambda>p. p \<noteq> []) (split_char 47 p)" p]
  by (simp add: place_folder_def folder_path_def)

lemma buildTree_paths: "paths_ok (buildTree le filePaths extraFolders) []"
proof -
  have "paths_ok t [] \<Longrightarrow> paths_ok (foldl place_file t ps) []" for t ps
    by (induction ps arbitrary: t) (simp_all add: place_file_paths)
  moreover have "paths_ok t [] \<Longrightarrow> paths_ok (foldl place_folder t ps) []" for t ps
    by (induction ps arbitrary: t) (simp_all add: place_folder_paths)
  moreover have "paths_ok (Folder [] [] [] []) []" by (simp add: paths_ok_def)
  ultimately show ?thesis by (simp add: buildTree_def sortFolder_paths)
qed

lemma split_char_top: "split_char sep p = x # y # zs \<Longrightarrow> starts_with (x @ [sep]) p"
  by (induction p arbitrary: x y zs) (auto simp: starts_with_def split: if_splits list.splits)

text \<open>A path lies below \<open>join "/" ns\<close> exactly when its folders start with \<open>ns\<close>.\<close>

lemma below_iff:
  assumes "ns \<noteq> []" and "plain_names ns"
  shows "starts_with (join [47] ns @ [47]) p \<longleftrightarrow> take (length ns) (butlast (split_char 47 p)) = ns"
  using assms
proof (induction ns arbitrary: p)
  case (Cons n ns)
  have n: "47 \<notin> set n" using Cons.prems(2) by simp
  have j: "join [47] (n # ns) @ [47] = n @ 47 # (if ns = [] then [] else join [47] ns @ [47])"
    by (cases ns) simp_all
  show ?case
  proof (cases "starts_with (n @ [47]) p")
    case True
    then obtain q where q: "p = n @ 47 # q" by (auto simp: starts_with_iff)
    then have "butlast (split_char 47 p) = n # butlast (split_char 47 q)"
      using n by (simp add: split_char_append_sep)
    then show ?thesis
      using Cons by (cases "ns = []") (simp_all add: q j starts_with_def)
  next
    case False
    have "\<not> starts_with (join [47] (n # ns) @ [47]) p"
      using False by (auto simp: j starts_with_iff simp del: join.simps)
    moreover have "take (length (n # ns)) (butlast (split_char 47 p)) \<noteq> n # ns"
      using False split_char_top [of 47 p n] by (cases "split_char 47 p"; cases "tl (split_char 47 p)") auto
    ultimately show ?thesis by blast
  qed
qed simp

lemma filter_mset_map: "(\<And>x. Q (g x) = P x) \<Longrightarrow> mset (map g (filter P xs)) = filter_mset Q (mset (map g xs))"
  by (induction xs) auto

text \<open>
  Deleting a folder of the tree deletes exactly the files the tree shows in it: of the files shown,
  those below the folder are gone and all others stay - for every folder whose path does not begin
  with an empty name.
\<close>

theorem delete_folder_matches_tree:
  assumes "(ns, path) \<in> set (tree_paths (buildTree le (map sf_path (ed_files s)) extra) [])" and "hd ns \<noteq> []"
  shows "mset (tree_entries (buildTree le (map sf_path (ed_files (deleteFolder path True s))) extra') []) =
    filter_mset (\<lambda>e. take (length ns) (fst e) \<noteq> ns) (mset (tree_entries (buildTree le (map sf_path (ed_files s)) extra) []))"
proof -
  have "path = join [47] ns" and ns: "ns \<noteq> []" "plain_names ns"
    using buildTree_paths [of le "map sf_path (ed_files s)" extra] assms folder_path_join [of ns]
    by (auto simp: paths_ok_def)
  then have "starts_with (path @ [47]) p \<longleftrightarrow> take (length ns) (butlast (split_char 47 p)) = ns" for p
    using below_iff by blast
  then have "map sf_path (ed_files (deleteFolder path True s)) =
      filter (\<lambda>p. take (length ns) (butlast (split_char 47 p)) \<noteq> ns) (map sf_path (ed_files s))"
    by (simp add: deleteFolder_def Let_def filter_map comp_def)
  then show ?thesis by (simp only: tree_shows_files) (rule filter_mset_map, simp)
qed

definition two_files :: editor where
  "two_files = editor_start\<lparr>ed_files := [\<lparr>sf_path = js ''a/x.md'', sf_content = []\<rparr>, \<lparr>sf_path = js ''b.md'', sf_content = []\<rparr>]\<rparr>"

lemma delete_folder_matches_tree_witness:
  "size (mset (tree_entries (buildTree (\<lambda>a b. True) (map sf_path (ed_files (deleteFolder (js ''a'') True two_files))) []) [])) = 1"
proof -
  have "([js ''a''], js ''a'') \<in> set (tree_paths (buildTree (\<lambda>a b. True) (map sf_path (ed_files two_files)) []) [])"
    by (simp add: two_files_def editor_start_def buildTree_def place_file_def add_file_def sort_by_def Let_def)
  from delete_folder_matches_tree [OF this, of "[]"]
  show ?thesis by (simp add: two_files_def editor_start_def buildTree_def place_file_def add_file_def sort_by_def Let_def)
qed

section \<open>What can be lost\<close>

lemma template_valid: "metaError editor_start = []"
proof -
  let ?d = "js ''What this skill does and when to use it.''"
  have "SKILL_MD_TEMPLATE = skill_text (js ''my-skill'') ?d (drop 76 SKILL_MD_TEMPLATE)"
    by (simp add: SKILL_MD_TEMPLATE_def skill_text_def front_line_def)
  moreover have v: "validateMetadata (js ''my-skill'') ?d = []"
    by (simp add: validateMetadata_def NAME_RE_def is_slug_char_def is_digit_def starts_with_def lower_def lower_unit_def
        trim_no_outer_ws is_ws_def)
  ultimately show ?thesis
    using frontmatter_round_trip [OF v, of "drop 76 SKILL_MD_TEMPLATE"]
    by (simp add: metaError_def editor_start_def trim_no_outer_ws is_ws_def unquote_def starts_with_def)
qed

text \<open>
  The editor lets a skill be saved before it has been loaded, and after loading it has failed:
  what is sent for the skill then is the bundle the dialog showed before - the template, or another
  skill - and it replaces the skill's own.
\<close>

theorem save_before_load:
  assumes "i \<noteq> []" and "metaError s = []" and "es = [] \<or> es = [GetReply i None]"
  shows "ed_sent (foldl editor_step s ([OpenEdit i] @ es @ [SaveSkill])) =
    ed_sent s @ [\<lparr>sr_skill = Some i, sr_content = ed_content s, sr_metadata = ed_metadata s, sr_files = ed_files s\<rparr>]"
  using assms by (auto simp: editor_defs metaError_def)

lemma save_before_load_witness:
  "map sr_content (ed_sent (foldl editor_step editor_start [OpenEdit (js ''s1''), GetReply (js ''s1'') None, SaveSkill])) = [SKILL_MD_TEMPLATE]"
  using save_before_load [of "js ''s1''" editor_start "[GetReply (js ''s1'') None]"] template_valid
  by (simp add: editor_start_def)

text \<open>A reply to an earlier opening is taken for the skill that is open now.\<close>

lemma late_reply_taken:
  assumes "a \<noteq> []" and "b \<noteq> []" and "metaError (get_reply (Some fa) s) = []"
  shows "map (\<lambda>r. (sr_skill r, sr_content r)) (ed_sent (foldl editor_step s
      [OpenEdit a, CloseEditor True, OpenEdit b, GetReply b (Some fb), GetReply a (Some fa), SaveSkill])) =
    map (\<lambda>r. (sr_skill r, sr_content r)) (ed_sent s) @ [(Some b, ls_content fa)]"
  using assms by (simp add: editor_defs metaError_def)

text \<open>Deleting the folder of the selected file leaves it selected: what is typed then goes nowhere.\<close>

lemma typed_text_lost:
  assumes "starts_with (path @ [47]) (ed_selected s)" and "ed_selected s \<noteq> SKILL_MD"
  shows "let s' = deleteFolder path True s in
    selectedContent (setSelectedContent t s') = [] \<and> ed_files (setSelectedContent t s') = ed_files s' \<and>
    ed_content (setSelectedContent t s') = ed_content s"
proof -
  have "find (\<lambda>f. sf_path f = ed_selected s) (filter (\<lambda>f. \<not> starts_with (path @ [47]) (sf_path f)) fs) = None" for fs :: "skill_file list"
    using assms(1) by (auto simp: find_None_iff)
  moreover have "map (\<lambda>f. if sf_path f = ed_selected s then f\<lparr>sf_content := t\<rparr> else f) (filter (\<lambda>f. \<not> starts_with (path @ [47]) (sf_path f)) fs)
      = filter (\<lambda>f. \<not> starts_with (path @ [47]) (sf_path f)) fs" for fs :: "skill_file list"
    using assms(1) by (intro map_idI) auto
  ultimately show ?thesis using assms(2) by (simp add: selectedContent_def setSelectedContent_def deleteFolder_def Let_def)
qed

text \<open>What is typed while a save is under way is dropped when it succeeds: the dialog closes without asking.\<close>

lemma edit_while_saving_lost:
  assumes "metaError s = []" and "ed_selected s = SKILL_MD"
  shows "let s' = foldl editor_step s [SaveSkill, EditText t, SaveReply k (Some r)] in
    \<not> ed_open s' \<and> \<not> ed_dirty s' \<and> map sr_content (ed_sent s') = map sr_content (ed_sent s) @ [ed_content s]"
  using assms by (simp add: editor_defs metaError_def split: option.splits list.splits)

text \<open>A folder named like a member of \<open>Object.prototype\<close> is shown collapsed from the start.\<close>

lemma constructor_folder_collapsed: "is_collapsed (openCreate s) (js ''constructor'')"
  by (simp add: is_collapsed_def editor_defs proto_names_def)

end
