(* ===== verification/SkillGenerator.thy ===== *)
theory SkillGenerator
  imports SkillFiles MessageSegments HtmlText ChatStore
begin

text \<open>
  The dialog that has a skill written by the model:
  src/ui/web/src/components/settings/tabs/AiCreateSkillDialog.tsx.  First the reading of an answer into
  the text of the skill and its reference files, then the dialog: its hooks are the state, and every
  handler and every reply of the stream is an event.  The memo of the shown answer and the effect that
  copies the parsed files into the editor run after each event, as React runs them.
\<close>

section \<open>Reading an answer\<close>

text \<open>The text of a fence up to the next three backticks or the end, and what follows.\<close>

definition fence_text :: "jstr \<Rightarrow> jstr \<times> jstr" where
  "fence_text s = (case cut_ticks s of Some ab \<Rightarrow> ab | None \<Rightarrow> (s, []))"

text \<open>The match of the skill block at the start of a text.\<close>

definition skill_at :: "jstr \<Rightarrow> (jstr \<times> jstr) option" where
  "skill_at s =
     (if starts_with (ticks @ js ''skill'') s then
        (case after_breaks (drop 8 s) of [] \<Rightarrow> None | t # _ \<Rightarrow> Some (fence_text t))
      else None)"

text \<open>The match of a reference block at the start of a text: its path, its text and what follows.\<close>

definition reference_at :: "jstr \<Rightarrow> ((jstr \<times> jstr) \<times> jstr) option" where
  "reference_at s =
     (if starts_with (ticks @ js ''reference:'') s then
        let r = drop 13 s; path = takeWhile (\<lambda>c. \<not> is_ws c) r in
        if path = [] then None
        else (case after_breaks (dropWhile (\<lambda>c. \<not> is_ws c) r) of
                [] \<Rightarrow> None
              | t # _ \<Rightarrow> (case fence_text t of (a, rest) \<Rightarrow> Some ((path, a), rest)))
      else None)"

text \<open>The first match of an expression in a text.\<close>

fun first_match :: "(jstr \<Rightarrow> 'a option) \<Rightarrow> jstr \<Rightarrow> 'a option" where
  "first_match m [] = m []"
| "first_match m (c # s) = (case m (c # s) of Some x \<Rightarrow> Some x | None \<Rightarrow> first_match m s)"

text \<open>The loop over \<open>refRegex.exec\<close>; it goes on after each match.\<close>

function reference_files :: "jstr \<Rightarrow> skill_file list" where
  "reference_files s = (case first_match reference_at s of
     None \<Rightarrow> []
   | Some ((path, a), rest) \<Rightarrow>
       \<lparr>sf_path = path, sf_content = trim a\<rparr> # (if length rest < length s then reference_files rest else []))"
  by pat_completeness auto
termination
  by (relation "measure length") auto

declare reference_files.simps [simp del]

definition parseIncremental :: "jstr \<Rightarrow> jstr \<times> skill_file list" where
  "parseIncremental t =
     (case first_match skill_at t of
        Some (a, _) \<Rightarrow> a
      | None \<Rightarrow> if first_match frontmatter_at t \<noteq> None then t else [], reference_files t)"

text \<open>\<open>replace(/\n{3,}/g, "\n\n")\<close>: \<open>n\<close> line feeds have been read.\<close>

fun squeeze_lines :: "nat \<Rightarrow> jstr \<Rightarrow> jstr" where
  "squeeze_lines n [] = replicate (if 3 \<le> n then 2 else n) 10"
| "squeeze_lines n (c # s) =
     (if c = 10 then squeeze_lines (Suc n) s
      else replicate (if 3 \<le> n then 2 else n) 10 @ c # squeeze_lines 0 s)"

definition cleanMessageForChat :: "jstr \<Rightarrow> jstr" where
  "cleanMessageForChat t =
     trim (squeeze_lines 0
       (replace_all (\<lambda>s. map_option (\<lambda>m. ([], snd m)) (reference_at s))
         (replace_all (\<lambda>s. map_option (\<lambda>m. ([], snd m)) (skill_at s)) t)))"

section \<open>The dialog\<close>

text \<open>A stream under way: what it has given so far.\<close>

type_synonym generation = "jstr option"

record generator =
  gn_open :: bool
  gn_prompt :: jstr
  gn_refinement :: jstr
  gn_messages :: "message list"
  gn_streamingContent :: jstr
  gn_streaming :: bool
  gn_selected :: jstr
  gn_saving :: bool
  gn_skillMd :: jstr
  gn_files :: "skill_file list"
  gn_latest :: jstr
  gn_runs :: "generation list"
  gn_sent :: "(jstr \<times> skill_file list) list"
  gn_toasts :: "jstr list"

definition generator_start :: generator where
  "generator_start = \<lparr>gn_open = True, gn_prompt = [], gn_refinement = [], gn_messages = [], gn_streamingContent = [],
     gn_streaming = False, gn_selected = SKILL_MD, gn_saving = False, gn_skillMd = [], gn_files = [], gn_latest = [],
     gn_runs = [], gn_sent = [], gn_toasts = []\<rparr>"

definition gn_toast :: "jstr \<Rightarrow> generator \<Rightarrow> generator" where
  "gn_toast t s = s\<lparr>gn_toasts := gn_toasts s @ [t]\<rparr>"

text \<open>\<open>latestAssistantMessage\<close>.\<close>

definition latestAssistantMessage :: "generator \<Rightarrow> jstr" where
  "latestAssistantMessage s =
     (if gn_streaming s then gn_streamingContent s
      else case find (\<lambda>m. msg_role m = Assistant) (rev (gn_messages s)) of Some m \<Rightarrow> msg_content m | None \<Rightarrow> [])"

text \<open>The memos and the effect: when the shown answer has changed it is parsed into the editor.\<close>

definition parsed_effect :: "generator \<Rightarrow> generator" where
  "parsed_effect s0 =
     (let l = latestAssistantMessage s0; s = s0\<lparr>gn_latest := l\<rparr> in
      if l = gn_latest s0 \<or> l = [] then s
      else s\<lparr>gn_skillMd := fst (parseIncremental l), gn_files := snd (parseIncremental l)\<rparr>)"

definition generatorError :: "generator \<Rightarrow> jstr" where
  "generatorError s =
     (if gn_skillMd s = [] then js ''Waiting for skill generation...''
      else let fm = parseFrontmatter (gn_skillMd s) in
        if \<not> fm_ok fm then js ''SKILL.md must start with YAML frontmatter (---).''
        else validateMetadata (fm_name fm) (fm_description fm))"

definition currentContent :: "generator \<Rightarrow> jstr" where
  "currentContent s =
     (if gn_selected s = SKILL_MD then gn_skillMd s
      else case find (\<lambda>f. sf_path f = gn_selected s) (gn_files s) of Some f \<Rightarrow> sf_content f | None \<Rightarrow> [])"

definition setCurrentContent :: "jstr \<Rightarrow> generator \<Rightarrow> generator" where
  "setCurrentContent v s =
     (if gn_selected s = SKILL_MD then s\<lparr>gn_skillMd := v\<rparr>
      else s\<lparr>gn_files := map (\<lambda>f. if sf_path f = gn_selected s then f\<lparr>sf_content := v\<rparr> else f) (gn_files s)\<rparr>)"

text \<open>\<open>startStream\<close> up to the first reply, as run number \<open>length (gn_runs s)\<close>.\<close>

definition startStream :: "generator \<Rightarrow> generator" where
  "startStream s = s\<lparr>gn_streaming := True, gn_streamingContent := [], gn_runs := gn_runs s @ [Some []]\<rparr>"

definition handleGenerate :: "generator \<Rightarrow> generator" where
  "handleGenerate s =
     (if trim (gn_prompt s) = [] then s
      else startStream (s\<lparr>gn_messages := [\<lparr>msg_role = User, msg_content = gn_prompt s\<rparr>]\<rparr>))"

definition handleRefine :: "generator \<Rightarrow> generator" where
  "handleRefine s =
     (if trim (gn_refinement s) = [] \<or> gn_streaming s then s
      else startStream (s\<lparr>gn_refinement := [],
             gn_messages := gn_messages s @ [\<lparr>msg_role = User, msg_content = gn_refinement s\<rparr>]\<rparr>))"

text \<open>A piece of the answer of a run.\<close>

definition run_chunk :: "nat \<Rightarrow> jstr \<Rightarrow> generator \<Rightarrow> generator" where
  "run_chunk i chunk s = (case gn_runs s ! i of
     Some full \<Rightarrow> s\<lparr>gn_runs := (gn_runs s)[i := Some (full @ chunk)], gn_streamingContent := full @ chunk\<rparr>
   | None \<Rightarrow> s)"

definition run_end :: "nat \<Rightarrow> generator \<Rightarrow> generator" where
  "run_end i s = (case gn_runs s ! i of
     Some full \<Rightarrow> s\<lparr>gn_runs := (gn_runs s)[i := None],
       gn_messages := (if full \<noteq> [] then gn_messages s @ [\<lparr>msg_role = Assistant, msg_content = full\<rparr>] else gn_messages s),
       gn_streamingContent := [], gn_streaming := False\<rparr>
   | None \<Rightarrow> s)"

text \<open>A run fails: it was aborted (\<open>None\<close>) or threw an error with a message.\<close>

definition run_fails :: "nat \<Rightarrow> jstr option \<Rightarrow> generator \<Rightarrow> generator" where
  "run_fails i e s = (case gn_runs s ! i of
     Some full \<Rightarrow> (gn_toast (case e of None \<Rightarrow> js ''Generation stopped by user.'' | Some m \<Rightarrow> m) s)
       \<lparr>gn_runs := (gn_runs s)[i := None], gn_streaming := False\<rparr>
   | None \<Rightarrow> s)"

definition handleStop :: "generator \<Rightarrow> generator" where
  "handleStop s = s\<lparr>gn_streaming := False\<rparr>"

definition handleStartOver :: "bool \<Rightarrow> generator \<Rightarrow> generator" where
  "handleStartOver confirmed s =
     (if gn_messages s \<noteq> [] \<and> \<not> confirmed then s
      else s\<lparr>gn_prompt := [], gn_refinement := [], gn_messages := [], gn_streamingContent := [], gn_streaming := False,
             gn_skillMd := [], gn_files := [], gn_selected := SKILL_MD\<rparr>)"

definition save_generated :: "generator \<Rightarrow> generator" where
  "save_generated s =
     (if generatorError s \<noteq> [] then gn_toast (generatorError s) s
      else s\<lparr>gn_saving := True, gn_sent := gn_sent s @ [(gn_skillMd s, gn_files s)]\<rparr>)"

definition generated_reply :: "jstr list option option \<Rightarrow> generator \<Rightarrow> generator" where
  "generated_reply r s =
     (case r of
        None \<Rightarrow> (gn_toast (js ''Failed to save skill.'') s)\<lparr>gn_saving := False\<rparr>
      | Some skipped \<Rightarrow>
          let s1 = gn_toast (js ''Skill created successfully'') s;
              s2 = (case skipped of Some (f # fs) \<Rightarrow> gn_toast (js ''Skipped files: '' @ join (js '', '') (f # fs)) s1 | _ \<Rightarrow> s1)
          in s2\<lparr>gn_open := False, gn_saving := False\<rparr>)"

datatype generator_event =
  SetPrompt jstr | SetRefinement jstr | Generate | Refine | Chunk nat jstr | RunEnd nat | RunFails nat "jstr option"
| StopGeneration | StartOver bool | SelectTab jstr | EditFile jstr | SaveGenerated | GeneratedReply "jstr list option option"

fun generator_handler :: "generator \<Rightarrow> generator_event \<Rightarrow> generator" where
  "generator_handler s (SetPrompt t) = s\<lparr>gn_prompt := t\<rparr>"
| "generator_handler s (SetRefinement t) = s\<lparr>gn_refinement := t\<rparr>"
| "generator_handler s Generate = handleGenerate s"
| "generator_handler s Refine = handleRefine s"
| "generator_handler s (Chunk i c) = run_chunk i c s"
| "generator_handler s (RunEnd i) = run_end i s"
| "generator_handler s (RunFails i e) = run_fails i e s"
| "generator_handler s StopGeneration = handleStop s"
| "generator_handler s (StartOver ok) = handleStartOver ok s"
| "generator_handler s (SelectTab p) = s\<lparr>gn_selected := p\<rparr>"
| "generator_handler s (EditFile t) = setCurrentContent t s"
| "generator_handler s SaveGenerated = save_generated s"
| "generator_handler s (GeneratedReply r) = generated_reply r s"

definition generator_step :: "generator \<Rightarrow> generator_event \<Rightarrow> generator" where
  "generator_step s e = parsed_effect (generator_handler s e)"

section \<open>Facts: reading an answer\<close>

lemma skip_text:
  assumes "\<And>t. m t \<noteq> None \<Longrightarrow> starts_with ticks t" and "cut_ticks s = Some (a, b)"
  shows "first_match m s = first_match m (ticks @ b)"
  using assms(2)
proof (induction s arbitrary: a)
  case (Cons c s)
  show ?case
  proof (cases "starts_with ticks (c # s)")
    case True
    then have "ticks @ b = c # s" using Cons.prems by (auto simp: starts_with_iff ticks_def)
    then show ?thesis by simp
  next
    case False
    then have "m (c # s) = None" using assms(1) by blast
    with False Cons show ?thesis by (auto split: option.splits)
  qed
qed simp

lemma no_text:
  assumes "\<And>t. m t \<noteq> None \<Longrightarrow> starts_with ticks t" and "cut_ticks s = None"
  shows "first_match m s = None"
  using assms(2)
proof (induction s)
  case Nil
  then show ?case using assms(1) [of "[]"] by (cases "m []") (auto simp: ticks_def starts_with_def)
next
  case (Cons c s)
  then have "\<not> starts_with ticks (c # s)" by (auto split: if_splits)
  then have "m (c # s) = None" using assms(1) by blast
  with Cons show ?case by (auto split: if_splits option.splits)
qed

lemma ticks_first: "starts_with (ticks @ l) t \<Longrightarrow> starts_with ticks t"
  by (auto simp: starts_with_iff)

lemma skill_at_ticks: "skill_at t \<noteq> None \<Longrightarrow> starts_with ticks t"
  by (auto simp: skill_at_def dest: ticks_first split: if_splits)

lemma reference_at_ticks: "reference_at t \<noteq> None \<Longrightarrow> starts_with ticks t"
  by (auto simp: reference_at_def dest: ticks_first split: if_splits)

definition plain_text :: "jstr \<Rightarrow> bool" where
  "plain_text t \<longleftrightarrow> tick_free t \<and> (t = [] \<or> \<not> is_ws (hd t))"

lemma break_before: "plain_text t \<Longrightarrow> after_breaks (10 # t @ ticks @ u) = [t @ ticks @ u]"
  by (cases t) (auto simp: plain_text_def is_ws_def ticks_def)

lemma skill_block: "plain_text md \<Longrightarrow> skill_at (ticks @ js ''skill'' @ 10 # md @ ticks @ u) = Some (md, u)"
  using break_before [of md u] cut_ticks_after [of md u]
  by (simp add: skill_at_def plain_text_def fence_text_def starts_with_def ticks_def)

definition reference_block :: "skill_file \<Rightarrow> jstr" where
  "reference_block f = 10 # ticks @ js ''reference:'' @ sf_path f @ 10 # sf_content f @ ticks"

definition plain_file :: "skill_file \<Rightarrow> bool" where
  "plain_file f \<longleftrightarrow> sf_path f \<noteq> [] \<and> list_all (\<lambda>c. \<not> is_ws c) (sf_path f) \<and> plain_text (sf_content f)"

lemma reference_block_read:
  assumes "plain_file f"
  shows "reference_at (ticks @ js ''reference:'' @ sf_path f @ 10 # sf_content f @ ticks @ u) = Some ((sf_path f, sf_content f), u)"
proof -
  have p: "takeWhile (\<lambda>c. \<not> is_ws c) (sf_path f @ 10 # t) = sf_path f" "dropWhile (\<lambda>c. \<not> is_ws c) (sf_path f @ 10 # t) = 10 # t" for t
    using assms by (simp_all add: plain_file_def list_all_iff is_ws_def)
  show ?thesis
    using assms break_before [of "sf_content f" u] cut_ticks_after [of "sf_content f" u]
    by (simp add: reference_at_def plain_file_def plain_text_def fence_text_def starts_with_def ticks_def p)
qed

lemma skip_first: "m (c # s) = None \<Longrightarrow> first_match m (c # s) = first_match m s"
  by simp

text \<open>No expression that begins with backticks matches before the end of a text without them.\<close>

lemma skip_plain:
  assumes "\<And>t. m t \<noteq> None \<Longrightarrow> starts_with ticks t" and "tick_free a"
  shows "first_match m (a @ ticks @ b) = first_match m (ticks @ b)"
  using skip_text [OF assms(1) cut_ticks_after [OF assms(2)]] by blast

lemma tick_free_after: "tick_free t \<Longrightarrow> c \<noteq> 96 \<Longrightarrow> tick_free (96 # 96 # c # t) \<and> tick_free (c # t)"
  by (auto simp: tick_free_def starts_with_def ticks_def split: if_splits)

lemma tick_free_opened: "tick_free md \<Longrightarrow> tick_free (96 # 96 # js ''skill'' @ 10 # md)"
  by (simp add: tick_free_after tick_free_after [THEN conjunct2])

lemma reference_block_first:
  assumes "plain_file f"
  shows "first_match reference_at (reference_block f @ u) = Some ((sf_path f, sf_content f), u)"
proof -
  have "reference_at (10 # t) = None" for t by (simp add: reference_at_def starts_with_def ticks_def)
  moreover have "first_match reference_at (ticks @ t) = reference_at (ticks @ t)" if "reference_at (ticks @ t) \<noteq> None" for t
    using that by (auto simp: ticks_def)
  ultimately show ?thesis using reference_block_read [OF assms, of u] by (simp add: reference_block_def)
qed

definition trimmed_file :: "skill_file \<Rightarrow> skill_file" where
  "trimmed_file f = f\<lparr>sf_content := trim (sf_content f)\<rparr>"

lemma references_read: "list_all plain_file files \<Longrightarrow> reference_files (concat (map reference_block files)) = map trimmed_file files"
proof (induction files)
  case Nil
  then show ?case by (simp add: reference_files.simps reference_at_def starts_with_def ticks_def)
next
  case (Cons f fs)
  then have "first_match reference_at (reference_block f @ concat (map reference_block fs)) =
      Some ((sf_path f, sf_content f), concat (map reference_block fs))"
    by (intro reference_block_first) simp
  moreover have "length (reference_block f) > 0" by (simp add: reference_block_def)
  ultimately show ?case using Cons by (subst reference_files.simps) (simp add: trimmed_file_def)
qed

text \<open>After the skill block the search for references goes on behind it.\<close>

lemma references_behind:
  assumes "tick_free intro" and "tick_free md" and "u = [] \<or> hd u = 10"
  shows "first_match reference_at (intro @ ticks @ js ''skill'' @ 10 # md @ ticks @ u) = first_match reference_at u"
proof -
  have "first_match reference_at (intro @ ticks @ js ''skill'' @ 10 # md @ ticks @ u)
      = first_match reference_at (ticks @ js ''skill'' @ 10 # md @ ticks @ u)"
    by (rule skip_plain [OF reference_at_ticks assms(1)])
  also have "\<dots> = first_match reference_at ((96 # 96 # js ''skill'' @ 10 # md) @ ticks @ u)"
    unfolding ticks_def by (simp add: reference_at_def starts_with_def ticks_def)
  also have "\<dots> = first_match reference_at (ticks @ u)"
    by (rule skip_plain [OF reference_at_ticks tick_free_opened [OF assms(2)]])
  also have "\<dots> = first_match reference_at u"
    using assms(3) by (cases u) (auto simp: reference_at_def starts_with_def ticks_def)
  finally show ?thesis .
qed

text \<open>
  An answer that follows the instructions given to the model is read back completely: whatever it
  says first, the text of its skill block becomes the skill and every reference block a file, in
  order, with its path and its text less outer white space.
\<close>

theorem bundle_read:
  assumes "tick_free intro" and "plain_text md" and "list_all plain_file files"
  shows "parseIncremental (intro @ ticks @ js ''skill'' @ 10 # md @ ticks @ concat (map reference_block files)) =
    (md, map trimmed_file files)"
proof -
  let ?u = "concat (map reference_block files)"
  let ?t = "intro @ ticks @ js ''skill'' @ 10 # md @ ticks @ ?u"
  have u: "?u = [] \<or> hd ?u = 10" by (cases files) (simp_all add: reference_block_def)
  have "first_match skill_at ?t = first_match skill_at (ticks @ js ''skill'' @ 10 # md @ ticks @ ?u)"
    by (rule skip_plain [OF skill_at_ticks assms(1)])
  also have "\<dots> = Some (md, ?u)"
    using skill_block [OF assms(2), of ?u] by (simp add: ticks_def)
  finally have skill: "first_match skill_at ?t = Some (md, ?u)" .
  have first: "first_match reference_at ?t = first_match reference_at ?u"
    using references_behind [OF assms(1) _ u] assms(2) by (simp add: plain_text_def)
  have "reference_files ?t = reference_files ?u"
  proof (cases files)
    case Nil
    moreover have "reference_at [] = None" by (simp add: reference_at_def starts_with_def ticks_def)
    ultimately show ?thesis using first by (subst (1 2) reference_files.simps) simp
  next
    case (Cons f fs)
    then have "first_match reference_at ?u = Some ((sf_path f, sf_content f), concat (map reference_block fs))"
      using reference_block_first assms(3) by simp
    moreover have "length (concat (map reference_block fs)) < length ?u" "length ?u \<le> length ?t"
      using Cons by (simp_all add: reference_block_def)
    ultimately show ?thesis using first by (subst (1 2) reference_files.simps) simp
  qed
  then show ?thesis using references_read [OF assms(3)] by (simp only: parseIncremental_def skill option.case prod.case)
qed

lemma bundle_read_witness:
  "parseIncremental (js ''ok'' @ ticks @ js ''skill'' @ 10 # js ''md'' @ ticks @ concat (map reference_block [\<lparr>sf_path = js ''a.md'', sf_content = js ''x ''\<rparr>]))
   = (js ''md'', [\<lparr>sf_path = js ''a.md'', sf_content = js ''x''\<rparr>])"
proof -
  let ?f = "\<lparr>sf_path = js ''a.md'', sf_content = js ''x ''\<rparr>"
  have "tick_free (js ''ok'')" "plain_text (js ''md'')" "list_all plain_file [?f]"
    by (simp_all add: plain_file_def plain_text_def tick_free_def ticks_def starts_with_def is_ws_def)
  from bundle_read [OF this] show ?thesis
    by (simp add: trimmed_file_def trim_def trim_start_def trim_end_def is_ws_def)
qed

section \<open>Facts: the dialog\<close>

lemma generation_chunks:
  assumes "i < length (gn_runs s)" and "gn_runs s ! i = Some p" and "gn_streamingContent s = p" and "gn_streaming s" and "gn_latest s = p"
    and "p \<noteq> [] \<Longrightarrow> (gn_skillMd s, gn_files s) = parseIncremental p" and "chunks = [] \<or> [] \<notin> set chunks"
  shows "let s' = foldl generator_step s (map (Chunk i) chunks); p' = p @ concat chunks in
    length (gn_runs s') = length (gn_runs s) \<and> gn_runs s' ! i = Some p' \<and> gn_streamingContent s' = p' \<and> gn_streaming s' \<and> gn_latest s' = p' \<and>
    (p' \<noteq> [] \<longrightarrow> (gn_skillMd s', gn_files s') = parseIncremental p') \<and> gn_messages s' = gn_messages s"
  using assms
proof (induction chunks arbitrary: s p)
  case (Cons c cs)
  let ?s = "generator_step s (Chunk i c)"
  have c: "c \<noteq> []" using Cons.prems(7) by auto
  have s: "?s = s\<lparr>gn_runs := (gn_runs s)[i := Some (p @ c)], gn_streamingContent := p @ c, gn_latest := p @ c,
      gn_skillMd := fst (parseIncremental (p @ c)), gn_files := snd (parseIncremental (p @ c))\<rparr>"
    using Cons.prems(1-5) c by (simp add: generator_step_def run_chunk_def parsed_effect_def latestAssistantMessage_def Let_def)
  show ?case
    using Cons.IH [of ?s "p @ c"] Cons.prems(1,4,7) by (auto simp: s Let_def)
qed (simp add: Let_def)

text \<open>
  A generation that runs to its end leaves the whole answer as a message and its skill and files in
  the editor - the same ones for every way the answer is cut into pieces.
\<close>

theorem generation_result:
  assumes "trim (gn_prompt s) \<noteq> []" and "gn_latest s = []" and "[] \<notin> set chunks" and "chunks \<noteq> []"
  shows "let s' = foldl generator_step s ([Generate] @ map (Chunk (length (gn_runs s))) chunks @ [RunEnd (length (gn_runs s))]) in
    (gn_skillMd s', gn_files s') = parseIncremental (concat chunks) \<and> \<not> gn_streaming s' \<and>
    gn_messages s' = [\<lparr>msg_role = User, msg_content = gn_prompt s\<rparr>, \<lparr>msg_role = Assistant, msg_content = concat chunks\<rparr>]"
proof -
  let ?i = "length (gn_runs s)" and ?u = "\<lparr>msg_role = User, msg_content = gn_prompt s\<rparr>"
  define s1 where "s1 = generator_step s Generate"
  define s2 where "s2 = foldl generator_step s1 (map (Chunk ?i) chunks)"
  have s1: "s1 = s\<lparr>gn_messages := [?u], gn_streaming := True, gn_streamingContent := [], gn_runs := gn_runs s @ [Some []], gn_latest := []\<rparr>"
    using assms(1,2) by (simp add: s1_def generator_step_def handleGenerate_def startStream_def parsed_effect_def latestAssistantMessage_def Let_def)
  have c: "concat chunks \<noteq> []" using assms(3,4) by (cases chunks) auto
  have s2: "?i < length (gn_runs s2)" "gn_runs s2 ! ?i = Some (concat chunks)" "gn_latest s2 = concat chunks"
      "(gn_skillMd s2, gn_files s2) = parseIncremental (concat chunks)" "gn_messages s2 = [?u]"
    using generation_chunks [of ?i s1 "[]" chunks] assms(3) c by (simp_all add: s1 s2_def Let_def)
  have "foldl generator_step s ([Generate] @ map (Chunk ?i) chunks @ [RunEnd ?i]) = generator_step s2 (RunEnd ?i)"
    by (simp add: s1_def s2_def)
  then show ?thesis
    using s2 c by (simp add: Let_def generator_step_def run_end_def parsed_effect_def latestAssistantMessage_def)
qed

lemma generation_result_witness:
  "gn_messages (foldl generator_step (generator_start\<lparr>gn_prompt := js ''p''\<rparr>) [Generate, Chunk 0 (js ''a''), Chunk 0 (js ''b''), RunEnd 0]) =
   [\<lparr>msg_role = User, msg_content = js ''p''\<rparr>, \<lparr>msg_role = Assistant, msg_content = js ''ab''\<rparr>]"
  using generation_result [of "generator_start\<lparr>gn_prompt := js ''p''\<rparr>" "[js ''a'', js ''b'']"]
  by (simp add: generator_start_def trim_no_outer_ws is_ws_def Let_def)

text \<open>
  A refinement that fails or is stopped before its first piece puts the previous answer back into the
  editor: every change made there by hand is lost.
\<close>

lemma failed_refinement_discards_edits:
  assumes "\<not> gn_streaming s" and "trim (gn_refinement s) \<noteq> []" and "gn_latest s = latestAssistantMessage s" and "gn_latest s \<noteq> []"
  shows "let s' = foldl generator_step s [Refine, RunFails (length (gn_runs s)) e] in
    (gn_skillMd s', gn_files s') = parseIncremental (gn_latest s)"
  using assms
  by (simp add: Let_def generator_step_def handleRefine_def startStream_def run_fails_def gn_toast_def parsed_effect_def
      latestAssistantMessage_def split: option.splits)

end
