(* ===== verification/KnowledgeBase.thy ===== *)
theory KnowledgeBase
  imports Uri HtmlText
begin

text \<open>
  The tab of knowledge bases: src/ui/web/src/components/settings/tabs/KnowledgeTab.tsx.  First the
  addresses of Confluence pages, then the tab: its hooks are the state, and every handler, every reply
  of the API and every tick of the polling timer is an event.  \<open>pathname\<close> is the path \<open>new URL(..)\<close>
  gives, \<open>None\<close> when it throws.
\<close>

section \<open>Addresses of pages\<close>

definition CONFLUENCE_BASE :: jstr where
  "CONFLUENCE_BASE = js ''https://confluence.zalopay.vn''"

text \<open>\<open>parts.indexOf("display")\<close> and the parts after it.\<close>

fun after_display :: "jstr list \<Rightarrow> jstr list option" where
  "after_display [] = None"
| "after_display (p # ps) = (if p = js ''display'' then Some ps else after_display ps)"

definition unplus :: "jstr \<Rightarrow> jstr" where
  "unplus s = map (\<lambda>c. if c = 43 then 32 else c) s"

definition parseConfluenceUrl :: "(jstr \<Rightarrow> jstr option) \<Rightarrow> jstr \<Rightarrow> (jstr \<times> jstr) option" where
  "parseConfluenceUrl pathname raw =
     (case pathname (trim raw) of
        None \<Rightarrow> None
      | Some path \<Rightarrow>
          (case after_display (filter (\<lambda>p. p \<noteq> []) (split_char 47 path)) of
             Some (k # t # ts) \<Rightarrow>
               (case decodeURIComponent k of
                  None \<Rightarrow> None
                | Some spaceKey \<Rightarrow>
                    (case decodeURIComponent (unplus (join [47] (t # ts))) of
                       None \<Rightarrow> None
                     | Some title \<Rightarrow> if spaceKey = [] \<or> title = [] then None else Some (spaceKey, title)))
           | _ \<Rightarrow> None))"

text \<open>\<open>replace(/%20/g, "+")\<close>.\<close>

fun plus_spaces :: "jstr \<Rightarrow> jstr" where
  "plus_spaces [] = []"
| "plus_spaces (c # s) =
     (if starts_with (js ''%20'') (c # s) then 43 # plus_spaces (drop 2 s) else c # plus_spaces s)"

text \<open>\<open>None\<close>: \<open>encodeURIComponent\<close> throws.\<close>

definition buildConfluenceUrl :: "jstr \<Rightarrow> jstr \<Rightarrow> jstr option" where
  "buildConfluenceUrl spaceKey title =
     (if spaceKey = [] \<or> title = [] then Some []
      else case encodeURIComponent title of
        None \<Rightarrow> None
      | Some t \<Rightarrow> map_option (\<lambda>k. CONFLUENCE_BASE @ js ''/display/'' @ k @ [47] @ plus_spaces t) (encodeURIComponent spaceKey))"

section \<open>The tab\<close>

datatype kb_source = Confluence | MarkdownText

datatype kb_status = KbIdle | KbSyncing | KbDone | KbError

record knowledge_base =
  kb_id :: jstr
  kb_name :: jstr
  kb_source :: kb_source
  kb_space_key :: jstr
  kb_root_page :: jstr
  kb_content :: "jstr option"
  kb_chunk_size :: int
  kb_chunk_overlap :: int
  kb_status :: kb_status
  kb_points :: int

record kb_form =
  kf_name :: jstr
  kf_source :: kb_source
  kf_url :: jstr
  kf_content :: jstr
  kf_chunk_size :: int
  kf_chunk_overlap :: int

definition emptyForm :: kb_form where
  "emptyForm = \<lparr>kf_name = [], kf_source = Confluence, kf_url = [], kf_content = [], kf_chunk_size = 1000, kf_chunk_overlap = 200\<rparr>"

text \<open>What is sent: markdown with its text, or a page with its space and title.\<close>

datatype kb_payload = SendMarkdown jstr jstr int int | SendPage jstr jstr jstr int int

record kb_tab =
  kt_data :: "knowledge_base list"
  kt_loading :: bool
  kt_expanded :: "jstr list"
  kt_dialog :: bool
  kt_editing :: "jstr option"
  kt_form :: kb_form
  kt_saving :: bool
  kt_poll :: "nat option"
  kt_timers :: "nat list"
  kt_next_timer :: nat
  kt_loads :: nat
  kt_sent :: "(jstr option \<times> kb_payload) list"
  kt_toasts :: "jstr list"

definition kb_toast :: "jstr \<Rightarrow> kb_tab \<Rightarrow> kb_tab" where
  "kb_toast t s = s\<lparr>kt_toasts := kt_toasts s @ [t]\<rparr>"

definition kb_load :: "kb_tab \<Rightarrow> kb_tab" where
  "kb_load s = s\<lparr>kt_loads := Suc (kt_loads s)\<rparr>"

subsection \<open>Polling\<close>

definition hasSyncing :: "knowledge_base list \<Rightarrow> bool" where
  "hasSyncing d = list_ex (\<lambda>kb. kb_status kb = KbSyncing) d"

definition clear_interval :: "nat \<Rightarrow> kb_tab \<Rightarrow> kb_tab" where
  "clear_interval t s = s\<lparr>kt_timers := filter (\<lambda>u. u \<noteq> t) (kt_timers s)\<rparr>"

definition poll_effect :: "kb_tab \<Rightarrow> kb_tab" where
  "poll_effect s =
     (if hasSyncing (kt_data s) \<and> kt_poll s = None then
        s\<lparr>kt_poll := Some (kt_next_timer s), kt_timers := kt_timers s @ [kt_next_timer s], kt_next_timer := Suc (kt_next_timer s)\<rparr>
      else if \<not> hasSyncing (kt_data s) then
        (case kt_poll s of Some t \<Rightarrow> (clear_interval t s)\<lparr>kt_poll := None\<rparr> | None \<Rightarrow> s)
      else s)"

definition poll_cleanup :: "kb_tab \<Rightarrow> kb_tab" where
  "poll_cleanup s = (case kt_poll s of Some t \<Rightarrow> clear_interval t s | None \<Rightarrow> s)"

text \<open>A reply replaces the list: the effect is cleaned up and runs again.\<close>

definition kb_reply :: "knowledge_base list option \<Rightarrow> kb_tab \<Rightarrow> kb_tab" where
  "kb_reply r s = poll_effect ((poll_cleanup s)
     \<lparr>kt_data := (case r of Some d \<Rightarrow> d | None \<Rightarrow> []), kt_loading := False, kt_loads := kt_loads s - 1\<rparr>)"

definition kb_start :: kb_tab where
  "kb_start = poll_effect (kb_load \<lparr>kt_data = [], kt_loading = True, kt_expanded = [], kt_dialog = False, kt_editing = None,
     kt_form = emptyForm, kt_saving = False, kt_poll = None, kt_timers = [], kt_next_timer = 0, kt_loads = 0, kt_sent = [], kt_toasts = []\<rparr>)"

subsection \<open>Handlers\<close>

definition toggleExpand :: "jstr \<Rightarrow> kb_tab \<Rightarrow> kb_tab" where
  "toggleExpand i s = s\<lparr>kt_expanded :=
     (if i \<in> set (kt_expanded s) then filter (\<lambda>j. j \<noteq> i) (kt_expanded s) else kt_expanded s @ [i])\<rparr>"

definition kb_create :: "kb_tab \<Rightarrow> kb_tab" where
  "kb_create s = s\<lparr>kt_editing := None, kt_form := emptyForm, kt_dialog := True\<rparr>"

text \<open>When the address cannot be built the handler throws after it has set the id.\<close>

definition kb_edit :: "knowledge_base \<Rightarrow> kb_tab \<Rightarrow> kb_tab" where
  "kb_edit kb s0 =
     (let s = s0\<lparr>kt_editing := Some (kb_id kb)\<rparr> in
      case (if kb_source kb = Confluence then buildConfluenceUrl (kb_space_key kb) (kb_root_page kb) else Some []) of
        None \<Rightarrow> s
      | Some url \<Rightarrow> s\<lparr>kt_form := \<lparr>kf_name = kb_name kb, kf_source = kb_source kb, kf_url = url,
            kf_content = (case kb_content kb of Some c \<Rightarrow> c | None \<Rightarrow> []),
            kf_chunk_size = kb_chunk_size kb, kf_chunk_overlap = kb_chunk_overlap kb\<rparr>, kt_dialog := True\<rparr>)"

definition kb_payload_of :: "(jstr \<Rightarrow> jstr option) \<Rightarrow> kb_form \<Rightarrow> jstr + kb_payload" where
  "kb_payload_of pathname f =
     (if kf_source f = MarkdownText then
        (if trim (kf_content f) = [] then Inl (js ''Markdown content is required.'')
         else Inr (SendMarkdown (kf_name f) (kf_content f) (kf_chunk_size f) (kf_chunk_overlap f)))
      else case parseConfluenceUrl pathname (kf_url f) of
        None \<Rightarrow> Inl (js ''Invalid Confluence URL. Expected a /display/<SPACE>/<page> link.'')
      | Some (k, t) \<Rightarrow> Inr (SendPage (kf_name f) k t (kf_chunk_size f) (kf_chunk_overlap f)))"

text \<open>The base to update; an empty id counts as none.\<close>

definition editing_kb :: "kb_tab \<Rightarrow> jstr option" where
  "editing_kb s = (case kt_editing s of Some i \<Rightarrow> if i = [] then None else Some i | None \<Rightarrow> None)"

definition kb_save :: "(jstr \<Rightarrow> jstr option) \<Rightarrow> kb_tab \<Rightarrow> kb_tab" where
  "kb_save pathname s = (case kb_payload_of pathname (kt_form s) of
     Inl e \<Rightarrow> kb_toast e s
   | Inr p \<Rightarrow> s\<lparr>kt_saving := True, kt_sent := kt_sent s @ [(editing_kb s, p)]\<rparr>)"

definition kb_saved :: "jstr option \<Rightarrow> bool \<Rightarrow> kb_tab \<Rightarrow> kb_tab" where
  "kb_saved i ok s =
     (if ok then kb_load ((kb_toast (if i \<noteq> None then js ''Knowledge base updated'' else js ''Knowledge base created'') s)
         \<lparr>kt_dialog := False, kt_saving := False\<rparr>)
      else s\<lparr>kt_saving := False\<rparr>)"

definition kb_deleted :: "jstr \<Rightarrow> kb_tab \<Rightarrow> kb_tab" where
  "kb_deleted i s = kb_load ((kb_toast (js ''Knowledge base deleted'') s)\<lparr>kt_expanded := filter (\<lambda>j. j \<noteq> i) (kt_expanded s)\<rparr>)"

definition kb_synced :: "kb_tab \<Rightarrow> kb_tab" where
  "kb_synced s = kb_load (kb_toast (js ''Sync started'') s)"

text \<open>\<open>parseInt(value) || default\<close>.\<close>

definition parsed_or :: "int option \<Rightarrow> int \<Rightarrow> int" where
  "parsed_or n d = (case n of Some i \<Rightarrow> if i = 0 then d else i | None \<Rightarrow> d)"

definition set_chunk_size :: "int option \<Rightarrow> kb_form \<Rightarrow> kb_form" where
  "set_chunk_size n f = f\<lparr>kf_chunk_size := parsed_or n 1000\<rparr>"

definition set_chunk_overlap :: "int option \<Rightarrow> kb_form \<Rightarrow> kb_form" where
  "set_chunk_overlap n f = f\<lparr>kf_chunk_overlap := parsed_or n 200\<rparr>"

text \<open>\<open>name.replace(/\.(md|markdown)$/i, "")\<close>.\<close>

definition ends_ci :: "jstr \<Rightarrow> jstr \<Rightarrow> bool" where
  "ends_ci p s \<longleftrightarrow> length p \<le> length s \<and> strip_ci p (drop (length s - length p) s) = Some []"

definition drop_md :: "jstr \<Rightarrow> jstr" where
  "drop_md n = (if ends_ci (js ''.markdown'') n then take (length n - 9) n
     else if ends_ci (js ''.md'') n then take (length n - 3) n else n)"

definition handleFileUpload :: "jstr \<Rightarrow> jstr \<Rightarrow> kb_form \<Rightarrow> kb_form" where
  "handleFileUpload file_name t f = f\<lparr>kf_content := t, kf_name := (if kf_name f \<noteq> [] then kf_name f else drop_md file_name)\<rparr>"

definition totalPoints :: "knowledge_base list \<Rightarrow> int" where
  "totalPoints d = foldl (\<lambda>n kb. n + kb_points kb) 0 d"

text \<open>An interval loads the list when it fires and is still set.\<close>

definition poll_tick :: "nat \<Rightarrow> kb_tab \<Rightarrow> kb_tab" where
  "poll_tick t s = (if t \<in> set (kt_timers s) then kb_load s else s)"

datatype kb_event =
  KbReply "knowledge_base list option" | KbTick nat | KbExpand jstr | KbCreate | KbEdit knowledge_base
| KbForm kb_form | KbChunkSize "int option" | KbOverlap "int option" | KbUpload jstr jstr | KbSave "jstr \<Rightarrow> jstr option"
| KbSaved "jstr option" bool | KbDeleted jstr | KbSynced | KbClose bool

fun kb_step :: "kb_tab \<Rightarrow> kb_event \<Rightarrow> kb_tab" where
  "kb_step s (KbReply r) = kb_reply r s"
| "kb_step s (KbTick t) = poll_tick t s"
| "kb_step s (KbExpand i) = toggleExpand i s"
| "kb_step s KbCreate = kb_create s"
| "kb_step s (KbEdit kb) = kb_edit kb s"
| "kb_step s (KbForm f) = s\<lparr>kt_form := f\<rparr>"
| "kb_step s (KbChunkSize n) = s\<lparr>kt_form := set_chunk_size n (kt_form s)\<rparr>"
| "kb_step s (KbOverlap n) = s\<lparr>kt_form := set_chunk_overlap n (kt_form s)\<rparr>"
| "kb_step s (KbUpload n t) = s\<lparr>kt_form := handleFileUpload n t (kt_form s)\<rparr>"
| "kb_step s (KbSave pathname) = kb_save pathname s"
| "kb_step s (KbSaved i ok) = kb_saved i ok s"
| "kb_step s (KbDeleted i) = kb_deleted i s"
| "kb_step s KbSynced = kb_synced s"
| "kb_step s (KbClose b) = s\<lparr>kt_dialog := b\<rparr>"

section \<open>Facts: addresses\<close>

declare plus_spaces.simps(2) [simp del]

lemma plus_spaces_skip: "c \<noteq> 37 \<Longrightarrow> plus_spaces (c # s) = c # plus_spaces s"
  by (simp add: plus_spaces.simps(2) starts_with_def)

lemma plus_spaces_triple: "plus_spaces (37 # a # b # s) =
    (if a = 50 \<and> b = 48 then 43 # plus_spaces s else 37 # plus_spaces (a # b # s))"
  by (simp add: plus_spaces.simps(2) [of 37] starts_with_def numeral_2_eq_2)

lemma plus_spaces_plain: "37 \<notin> set p \<Longrightarrow> plus_spaces (p @ s) = p @ plus_spaces s"
  by (induction p) (auto simp: plus_spaces_skip)

lemma hex_upper_not_percent: "n < 16 \<Longrightarrow> hex_upper n \<noteq> 37"
  by (auto simp: hex_upper_def)

lemma plus_spaces_percent:
  assumes "b < 256"
  shows "plus_spaces (percent b @ s) = (if b = 32 then [43] else percent b) @ plus_spaces s"
proof -
  have n: "b div 16 < 16" "b mod 16 < 16" using assms by (simp_all add: div_less_iff_less_mult)
  have "b = 32 \<longleftrightarrow> hex_upper (b div 16) = 50 \<and> hex_upper (b mod 16) = 48"
  proof
    assume "hex_upper (b div 16) = 50 \<and> hex_upper (b mod 16) = 48"
    then have "b div 16 = 2" "b mod 16 = 0" using n by (auto simp: hex_upper_def split: if_splits)
    then show "b = 32" by (metis add.right_neutral div_mult_mod_eq mult_2 numeral_Bit0)
  qed (simp add: hex_upper_def)
  then show ?thesis using n by (simp add: percent_def plus_spaces_triple plus_spaces_skip hex_upper_not_percent)
qed

lemma plus_spaces_bytes: "list_all (\<lambda>b. b < 256 \<and> b \<noteq> 32) bs \<Longrightarrow> plus_spaces (concat (map percent bs) @ s) = concat (map percent bs) @ plus_spaces s"
  by (induction bs) (simp_all add: plus_spaces_percent)

lemma plus_spaces_point:
  assumes "scalar cp"
  shows "plus_spaces (encode_point cp @ s) = (if cp = 32 then [43] else encode_point cp) @ plus_spaces s"
proof (cases "unreserved cp")
  case True
  then show ?thesis by (auto simp: encode_point_def unreserved_def is_alnum_def is_digit_def plus_spaces_skip)
next
  case False
  have "b \<noteq> 32" if "cp \<noteq> 32" "b \<in> set (utf8 cp)" for b
    using that by (auto simp: utf8_def split: if_splits)
  then have "cp \<noteq> 32 \<Longrightarrow> list_all (\<lambda>b. b < 256 \<and> b \<noteq> 32) (utf8 cp)"
    using utf8_bytes [OF assms] by (auto simp: list_all_iff)
  moreover have "utf8 32 = [32]" by (simp add: utf8_def)
  ultimately show ?thesis
    using False by (auto simp: encode_point_def plus_spaces_bytes plus_spaces_percent)
qed

lemma unplus_append: "unplus (a @ b) = unplus a @ unplus b"
  by (simp add: unplus_def)

lemma encode_point_chars:
  assumes "scalar cp" and "c \<in> set (encode_point cp)"
  shows "c = 37 \<or> unreserved c"
proof (cases "unreserved cp")
  case False
  then obtain b where "b \<in> set (utf8 cp)" "c \<in> set (percent b)" using assms(2) by (auto simp: encode_point_def)
  then show ?thesis using percent_chars [of b c] utf8_bytes [OF assms(1)] by (auto simp: unreserved_def)
qed (use assms(2) in \<open>simp add: encode_point_def\<close>)

lemma unreserved_not: "unreserved c \<Longrightarrow> c \<noteq> 43 \<and> c \<noteq> 47 \<and> c \<noteq> 37"
  by (auto simp: unreserved_def is_alnum_def is_digit_def)

lemma encode_point_no_plus: "scalar cp \<Longrightarrow> unplus (encode_point cp) = encode_point cp"
  using encode_point_chars unreserved_not by (fastforce simp: unplus_def intro!: map_idI)

lemma decode_plus_spaces:
  assumes "list_all (\<lambda>c. c < 65536) s" and "encodeURIComponent s = Some e"
  shows "decodeURIComponent (unplus (plus_spaces e)) = Some s"
proof -
  obtain cps where cps: "code_points s = Some cps" and e: "e = concat (map encode_point cps)"
    using assms(2) by (auto simp: encodeURIComponent_def)
  have "list_all scalar cps" by (rule code_points_scalar [OF assms(1) cps])
  then have "decodeURIComponent (unplus (plus_spaces (concat (map encode_point cps)))) = Some (concat (map units cps))"
  proof (induction cps)
    case Nil
    show ?case by (subst decodeURIComponent.simps) (simp add: unplus_def)
  next
    case (Cons cp cps)
    let ?r = "unplus (plus_spaces (concat (map encode_point cps)))"
    have IH: "decodeURIComponent ?r = Some (concat (map units cps))" using Cons by simp
    show ?case
    proof (cases "cp = 32")
      case True
      have "decodeURIComponent (32 # ?r) = map_option ((#) 32) (decodeURIComponent ?r)"
        by (subst decodeURIComponent.simps) simp
      moreover have "units 32 = [32]" by (simp add: units_def)
      ultimately show ?thesis using Cons.prems True IH by (simp add: plus_spaces_point unplus_def)
    next
      case False
      then show ?thesis
        using Cons.prems IH decode_encode_point [of cp ?r] by (simp add: plus_spaces_point unplus_append encode_point_no_plus)
    qed
  qed
  then show ?thesis using units_scalar [OF assms(1) cps] e by simp
qed

text \<open>The path with the given segments, and the segments an address parser resolves instead of keeping.\<close>

definition page_path :: "jstr list \<Rightarrow> jstr" where
  "page_path segs = concat (map (\<lambda>p. 47 # p) segs)"

definition dot_segments :: "jstr list" where
  "dot_segments = [js ''.'', js ''..'', js ''%2e'', js ''%2E'', js ''.%2e'', js ''.%2E'', js ''%2e.'', js ''%2E.'',
     js ''%2e%2e'', js ''%2e%2E'', js ''%2E%2e'', js ''%2E%2E'']"

definition path_segment :: "jstr \<Rightarrow> bool" where
  "path_segment p \<longleftrightarrow> p \<noteq> [] \<and> list_all (\<lambda>c. c = 37 \<or> c = 43 \<or> unreserved c) p \<and> p \<notin> set dot_segments"

text \<open>The URL standard: segments of unreserved characters, escapes and pluses are kept as they are.\<close>

definition keeps_paths :: "(jstr \<Rightarrow> jstr option) \<Rightarrow> bool" where
  "keeps_paths pathname \<longleftrightarrow> (\<forall>segs. segs \<noteq> [] \<longrightarrow> list_all path_segment segs \<longrightarrow>
     pathname (CONFLUENCE_BASE @ page_path segs) = Some (page_path segs))"

text \<open>A space key or a title that an address can carry.\<close>

definition page_name :: "jstr \<Rightarrow> bool" where
  "page_name t \<longleftrightarrow> t \<noteq> [] \<and> list_all (\<lambda>c. c < 65536) t \<and> encodeURIComponent t \<noteq> None \<and> t \<notin> {js ''.'', js ''..''}"

lemma decode_Nil: "decodeURIComponent [] = Some []"
  by (simp add: decodeURIComponent.simps)

lemma decode_plain: "c \<noteq> 37 \<Longrightarrow> decodeURIComponent (c # t) = map_option ((#) c) (decodeURIComponent t)"
  by (subst decodeURIComponent.simps) simp

lemma decode_dot: "x = 101 \<or> x = 69 \<Longrightarrow> decodeURIComponent (37 # 50 # x # t) = map_option ((#) 46) (decodeURIComponent t)"
proof -
  assume "x = 101 \<or> x = 69"
  then have "hex_byte (37 # 50 # x # t) = Some (46, t)" by (elim disjE) (simp_all add: pct_val_def is_digit_def)
  then have "decode_point (37 # 50 # x # t) = Some (46, t)" by (simp add: decode_point_def)
  then show ?thesis by (subst decodeURIComponent.simps) (simp add: units_def, cases "decodeURIComponent t", simp_all)
qed

lemma dot_segment_decoded: "p \<in> set dot_segments \<Longrightarrow> unplus p = p \<and> decodeURIComponent p \<in> {Some (js ''.''), Some (js ''..'')}"
proof -
  have "list_all (\<lambda>p. unplus p = p \<and> (decodeURIComponent p = Some [46] \<or> decodeURIComponent p = Some [46, 46])) dot_segments"
    by (simp add: dot_segments_def decode_dot decode_plain decode_Nil unplus_def)
  then show "p \<in> set dot_segments \<Longrightarrow> ?thesis" by (auto simp: list_all_iff)
qed

lemma encoded_segment:
  assumes "page_name t" and "encodeURIComponent t = Some e"
  shows "path_segment e" "path_segment (plus_spaces e)"
proof -
  obtain cps where cps: "code_points t = Some cps" and e: "e = concat (map encode_point cps)"
    using assms(2) by (auto simp: encodeURIComponent_def)
  have t: "t \<noteq> []" "list_all (\<lambda>c. c < 65536) t" "t \<notin> {js ''.'', js ''..''}" using assms(1) by (simp_all add: page_name_def)
  have sc: "list_all scalar cps" by (rule code_points_scalar [OF t(2) cps])
  then have "plus_spaces e = concat (map (\<lambda>cp. if cp = 32 then [43] else encode_point cp) cps)"
    unfolding e by (induction cps) (simp_all add: plus_spaces_point)
  then have chars: "c = 37 \<or> c = 43 \<or> unreserved c" if "c \<in> set e \<union> set (plus_spaces e)" for c
    using that sc encode_point_chars by (fastforce simp: e list_all_iff split: if_splits)
  have d: "decodeURIComponent e = Some t" "decodeURIComponent (unplus (plus_spaces e)) = Some t"
    using decode_encode [OF t(2) assms(2)] decode_plus_spaces [OF t(2) assms(2)] by simp_all
  have "e \<notin> set dot_segments" "plus_spaces e \<notin> set dot_segments"
    using dot_segment_decoded [of e] dot_segment_decoded [of "plus_spaces e"] d t(3) by auto
  moreover have "e \<noteq> []" "plus_spaces e \<noteq> []" using d t(1) by (auto simp: decode_Nil unplus_def)
  ultimately show "path_segment e" "path_segment (plus_spaces e)"
    using chars by (auto simp: path_segment_def list_all_iff)
qed

lemma segment_chars: "path_segment p \<Longrightarrow> c \<in> set p \<Longrightarrow> c \<noteq> 47 \<and> \<not> is_ws c"
proof -
  assume "path_segment p" "c \<in> set p"
  then have "c = 37 \<or> c = 43 \<or> unreserved c" by (auto simp: path_segment_def list_all_iff)
  then show ?thesis by (auto simp: unreserved_def is_alnum_def is_digit_def is_ws_def)
qed

lemma split_page_path:
  "list_all path_segment segs \<Longrightarrow> filter (\<lambda>p. p \<noteq> []) (split_char 47 (page_path segs)) = segs"
proof (induction segs)
  case (Cons p segs)
  have p: "47 \<notin> set p" "p \<noteq> []" using Cons.prems segment_chars [of p] by (auto simp: path_segment_def)
  show ?case
  proof (cases segs)
    case Nil
    then show ?thesis using p by (simp add: page_path_def split_char_no_sep)
  next
    case (Cons q qs)
    have "split_char 47 (page_path (p # segs)) = [] # p # tl (split_char 47 (page_path segs))"
      using p Cons by (simp add: page_path_def split_char_append_sep)
    moreover have "split_char 47 (page_path segs) = [] # tl (split_char 47 (page_path segs))"
      using Cons by (simp add: page_path_def)
    moreover from this have "filter (\<lambda>p. p \<noteq> []) (tl (split_char 47 (page_path segs))) = segs"
      using Cons.IH Cons.prems by (metis (mono_tags, lifting) filter.simps(2) list.pred_inject(2))
    ultimately show ?thesis using p by simp
  qed
qed (simp add: page_path_def)

lemma confluence_round_trip:
  assumes "keeps_paths pathname" and "page_name k" and "page_name t" and "buildConfluenceUrl k t = Some u"
  shows "parseConfluenceUrl pathname u = Some (k, t)"
proof -
  obtain ek et where e: "encodeURIComponent k = Some ek" "encodeURIComponent t = Some et"
    using assms(2,3) by (auto simp: page_name_def)
  let ?segs = "[js ''display'', ek, plus_spaces et]"
  have k: "k \<noteq> []" "t \<noteq> []" "list_all (\<lambda>c. c < 65536) k" "list_all (\<lambda>c. c < 65536) t" using assms(2,3) by (simp_all add: page_name_def)
  have u: "u = CONFLUENCE_BASE @ page_path ?segs"
    using assms(4) e k by (simp add: buildConfluenceUrl_def page_path_def)
  have "path_segment (js ''display'')"
    by (simp add: path_segment_def unreserved_def is_alnum_def dot_segments_def)
  then have segs: "list_all path_segment ?segs" using encoded_segment [OF assms(2) e(1)] encoded_segment [OF assms(3) e(2)] by simp
  have "trim u = u"
  proof (rule trim_no_outer_ws)
    have "plus_spaces et \<noteq> []" using segs by (simp add: path_segment_def)
    then have "last u = last (plus_spaces et)" "last (plus_spaces et) \<in> set (plus_spaces et)" by (simp_all add: u page_path_def)
    then show "\<not> is_ws (last u)" using segment_chars [of "plus_spaces et"] segs by simp
  qed (simp_all add: u CONFLUENCE_BASE_def is_ws_def)
  moreover have "pathname u = Some (page_path ?segs)" using assms(1) segs unfolding keeps_paths_def u by blast
  ultimately show ?thesis
    using split_page_path [OF segs] decode_encode [OF k(3) e(1)] decode_plus_spaces [OF k(4) e(2)] k
    by (simp add: parseConfluenceUrl_def)
qed

text \<open>
  Opening a knowledge base of a Confluence page for editing and saving it unchanged sends the
  space and the page it had, although they travel through an address in between.
\<close>

theorem edit_keeps_page:
  assumes "keeps_paths pathname" and "kb_source kb = Confluence" and "page_name (kb_space_key kb)" and "page_name (kb_root_page kb)"
    and "kb_id kb \<noteq> []"
  shows "kt_sent (kb_save pathname (kb_edit kb s)) = kt_sent s @ [(Some (kb_id kb),
    SendPage (kb_name kb) (kb_space_key kb) (kb_root_page kb) (kb_chunk_size kb) (kb_chunk_overlap kb))]"
proof -
  obtain u where u: "buildConfluenceUrl (kb_space_key kb) (kb_root_page kb) = Some u"
    using assms(3,4) by (auto simp: buildConfluenceUrl_def page_name_def)
  show ?thesis
    using confluence_round_trip [OF assms(1,3,4) u] assms(2,5)
    by (simp add: kb_save_def kb_payload_of_def kb_edit_def editing_kb_def u)
qed

definition base_path :: "jstr \<Rightarrow> jstr option" where
  "base_path u = (if starts_with CONFLUENCE_BASE u then Some (drop (length CONFLUENCE_BASE) u) else None)"

definition page_kb :: knowledge_base where
  "page_kb = \<lparr>kb_id = js ''k'', kb_name = js ''n'', kb_source = Confluence, kb_space_key = js ''PD'', kb_root_page = js ''A b'',
     kb_content = None, kb_chunk_size = 1000, kb_chunk_overlap = 200, kb_status = KbIdle, kb_points = 0\<rparr>"

lemma edit_keeps_page_witness:
  "kt_sent (kb_save base_path (kb_edit page_kb kb_start)) = [(Some (js ''k''), SendPage (js ''n'') (js ''PD'') (js ''A b'') 1000 200)]"
proof -
  have "keeps_paths base_path" by (simp add: keeps_paths_def base_path_def)
  moreover have "page_name (js ''PD'')" "page_name (js ''A b'')"
    by (simp_all add: page_name_def encodeURIComponent_def is_high_def is_low_def)
  ultimately show ?thesis
    using edit_keeps_page [of base_path page_kb kb_start]
    by (simp add: page_kb_def kb_start_def poll_effect_def kb_load_def hasSyncing_def)
qed

section \<open>Facts: polling\<close>

fun kb_replies :: "kb_event list \<Rightarrow> bool list" where
  "kb_replies [] = []"
| "kb_replies (KbReply r # es) = hasSyncing (case r of Some d \<Rightarrow> d | None \<Rightarrow> []) # kb_replies es"
| "kb_replies (e # es) = kb_replies es"

lemma kb_replies_append: "kb_replies (es @ fs) = kb_replies es @ kb_replies fs"
  by (induction es rule: kb_replies.induct) simp_all

lemmas kb_defs = poll_tick_def toggleExpand_def kb_create_def kb_edit_def kb_save_def kb_saved_def kb_deleted_def kb_synced_def
  kb_load_def kb_toast_def

lemma poll_unchanged:
  assumes "kb_replies [e] = []"
  shows "kt_poll (kb_step s e) = kt_poll s \<and> kt_timers (kb_step s e) = kt_timers s"
  using assms by (cases e) (simp_all add: kb_defs Let_def split: option.splits sum.splits)

text \<open>The last reply, and the one before it.\<close>

definition polls :: "bool list \<Rightarrow> bool" where
  "polls bs \<longleftrightarrow> bs \<noteq> [] \<and> last bs \<and> \<not> (butlast bs \<noteq> [] \<and> last (butlast bs))"

lemma polling_state:
  "(kt_poll (foldl kb_step kb_start es) \<noteq> None \<longleftrightarrow> kb_replies es \<noteq> [] \<and> last (kb_replies es)) \<and>
   kt_timers (foldl kb_step kb_start es) =
     (if polls (kb_replies es) then [the (kt_poll (foldl kb_step kb_start es))] else [])"
proof (induction es rule: rev_induct)
  case Nil
  then show ?case by (simp add: kb_start_def poll_effect_def kb_load_def hasSyncing_def polls_def)
next
  case (snoc e es)
  let ?s = "foldl kb_step kb_start es"
  show ?case
  proof (cases "\<exists>r. e = KbReply r")
    case True
    then obtain r where e: "e = KbReply r" by blast
    show ?thesis
      using snoc
      by (auto simp: e kb_replies_append kb_reply_def poll_effect_def poll_cleanup_def clear_interval_def polls_def
          split: option.splits if_splits)
  next
    case False
    then have "kb_replies [e] = []" by (cases e) auto
    then show ?thesis using snoc poll_unchanged [of e ?s] by (simp add: kb_replies_append)
  qed
qed

text \<open>
  The list is polled by at most one timer, and exactly while the last reply showed a base that is
  syncing and the reply before it showed none: the reply to the first poll stops the polling, and as
  long as a base goes on syncing it never starts again.
\<close>

theorem polling_exact:
  "length (kt_timers (foldl kb_step kb_start es)) = (if polls (kb_replies es) then 1 else 0)"
  using polling_state by simp

lemma polling_dies:
  "kb_replies es \<noteq> [] \<Longrightarrow> last (kb_replies es) \<Longrightarrow> hasSyncing d \<Longrightarrow> kt_timers (foldl kb_step kb_start (es @ [KbReply (Some d)])) = []"
  using polling_state [of "es @ [KbReply (Some d)]"] by (simp add: kb_replies_append polls_def butlast_append)

text \<open>An overlap of zero cannot be entered.\<close>

lemma overlap_zero: "kf_chunk_overlap (set_chunk_overlap (Some 0) f) = 200"
  by (simp add: set_chunk_overlap_def parsed_or_def)

end
