(* ===== verification/SessionView.thy ===== *)
theory SessionView
  imports ChatStore SessionsStore
begin

text \<open>
  The page of a session: src/ui/web/src/pages/SessionDetailPage.tsx.  First the grouping of the stored
  messages into what is shown - messages and thinking blocks -, with the live thinking steps of the
  chat store and the window on the latest segments; then the page itself, which loads the session
  whose key the address names, sends messages and keeps the title, with the replies as events.
\<close>

section \<open>Stored messages\<close>

record hist_call =
  hc_id :: jstr
  hc_name :: jstr
  hc_arguments :: jsval

record hist_message =
  hm_role :: role
  hm_content :: "jstr option"
  hm_calls :: "hist_call list option"
  hm_call_id :: "jstr option"

datatype display_segment = MessageShown hist_message | ThinkingShown "thinking_step list"

text \<open>A string that is there and not empty.\<close>

definition truthy_str :: "jstr option \<Rightarrow> bool" where
  "truthy_str s \<longleftrightarrow> s \<noteq> None \<and> s \<noteq> Some []"

section \<open>Grouping\<close>

type_synonym grouping = "display_segment list \<times> thinking_step list"

definition flushThinking :: "grouping \<Rightarrow> grouping" where
  "flushThinking g = (case g of (segs, pending) \<Rightarrow> if pending \<noteq> [] then (segs @ [ThinkingShown pending], []) else g)"

definition call_step :: "hist_call \<Rightarrow> thinking_step" where
  "call_step c = ToolStep \<lparr>tc_id = JStr (hc_id c), tc_name = JStr (hc_name c), tc_status = Completed,
     tc_arguments = hc_arguments c, tc_result = JUndef\<rparr>"

text \<open>The steps an assistant message with tool calls adds: its text, if there is any, and its calls.\<close>

definition message_steps :: "hist_message \<Rightarrow> thinking_step list" where
  "message_steps m =
     (case hm_content m of Some c \<Rightarrow> if trim c \<noteq> [] then [TextStep (trim c)] else [] | None \<Rightarrow> [])
     @ map call_step (case hm_calls m of Some cs \<Rightarrow> cs | None \<Rightarrow> [])"

text \<open>The first step with the id of a tool result gets the result.\<close>

fun attach_result :: "jstr \<Rightarrow> jstr \<Rightarrow> thinking_step list \<Rightarrow> thinking_step list" where
  "attach_result i r [] = []"
| "attach_result i r (TextStep t # ss) = TextStep t # attach_result i r ss"
| "attach_result i r (ToolStep tc # ss) =
     (if tc_id tc = JStr i then ToolStep (tc\<lparr>tc_result := JStr r\<rparr>) # ss else ToolStep tc # attach_result i r ss)"

definition group_message :: "grouping \<Rightarrow> hist_message \<Rightarrow> grouping" where
  "group_message g m =
     (case hm_role m of
        User \<Rightarrow> apfst (\<lambda>segs. segs @ [MessageShown m]) (flushThinking g)
      | Assistant \<Rightarrow>
          if hm_calls m \<noteq> None \<and> hm_calls m \<noteq> Some [] then apsnd (\<lambda>pending. pending @ message_steps m) g
          else if truthy_str (hm_content m) then apfst (\<lambda>segs. segs @ [MessageShown m]) (flushThinking g)
          else g
      | Tool \<Rightarrow>
          if truthy_str (hm_call_id m) \<and> truthy_str (hm_content m)
          then apsnd (attach_result (the (hm_call_id m)) (the (hm_content m))) g else g
      | System \<Rightarrow> g)"

definition buildSegments :: "hist_message list \<Rightarrow> display_segment list" where
  "buildSegments ms = fst (flushThinking (foldl group_message ([], []) ms))"

text \<open>The live thinking steps of a run that has just ended go before the last answer.\<close>

definition is_thinking :: "display_segment \<Rightarrow> bool" where
  "is_thinking seg = (case seg of ThinkingShown _ \<Rightarrow> True | MessageShown _ \<Rightarrow> False)"

definition with_live_steps :: "display_segment list \<Rightarrow> thinking_step list \<Rightarrow> bool \<Rightarrow> display_segment list" where
  "with_live_steps segs steps live =
     (if steps \<noteq> [] \<and> \<not> live \<and> segs \<noteq> [] then
        (case last segs of
           MessageShown m \<Rightarrow>
             if hm_role m = Assistant \<and> (butlast segs = [] \<or> \<not> is_thinking (last (butlast segs)))
             then butlast segs @ [ThinkingShown steps, last segs] else segs
         | ThinkingShown _ \<Rightarrow> segs)
      else segs)"

section \<open>The window\<close>

definition PAGE_SIZE :: nat where
  "PAGE_SIZE = 20"

definition visibleSegments :: "nat \<Rightarrow> 'a list \<Rightarrow> 'a list" where
  "visibleSegments visibleCount segments =
     (if length segments \<le> visibleCount then segments else drop (length segments - visibleCount) segments)"

definition hiddenCount :: "nat \<Rightarrow> 'a list \<Rightarrow> nat" where
  "hiddenCount visibleCount segments = length segments - visibleCount"

text \<open>While an answer streams the last visible segment is shown with it.\<close>

definition normalSegments :: "bool \<Rightarrow> 'a list \<Rightarrow> 'a list" where
  "normalSegments live visible = (if \<not> live \<or> visible = [] then visible else butlast visible)"

definition activeUserSegment :: "bool \<Rightarrow> 'a list \<Rightarrow> 'a option" where
  "activeUserSegment live visible = (if \<not> live \<or> visible = [] then None else Some (last visible))"

definition handleLoadMore :: "'a list \<Rightarrow> nat \<Rightarrow> nat" where
  "handleLoadMore segments visibleCount = min (visibleCount + PAGE_SIZE) (length segments)"

text \<open>The effect on the number of messages: \<open>prev\<close> is the number it saw last.\<close>

definition grow_window :: "nat \<Rightarrow> nat \<Rightarrow> nat \<Rightarrow> nat" where
  "grow_window prev current visibleCount = (if 0 < prev \<and> prev < current then visibleCount + (current - prev) else visibleCount)"

section \<open>The page\<close>

text \<open>
  A load is the key it was made for and whether its effect has been cleaned up.  The messages are
  those the page puts into the chat store; a run is the key it was started with.  Titles are those
  \<open>getSessionDisplayTitle\<close> gives.
\<close>

record session_page =
  sp_key :: jstr
  sp_title :: jstr
  sp_messages :: "hist_message list"
  sp_loads :: "(jstr \<times> bool) list"
  sp_runs :: "jstr list"
  sp_title_requests :: "jstr list"
  sp_list_loads :: nat
  sp_sent_initial :: "jstr option"
  sp_left :: bool

text \<open>The effect of the key: clean up the load before, reset, and load.\<close>

definition open_session :: "jstr \<Rightarrow> session_page \<Rightarrow> session_page" where
  "open_session k s = (let loads = map (\<lambda>(j, c). (j, True)) (sp_loads s) in
     s\<lparr>sp_key := k, sp_messages := [], sp_title := NEW_SESSION_TITLE, sp_loads := (if k = [] then loads else loads @ [(k, False)])\<rparr>)"

definition start_run :: "jstr \<Rightarrow> session_page \<Rightarrow> session_page" where
  "start_run k s = s\<lparr>sp_runs := sp_runs s @ [k]\<rparr>"

datatype session_reply = Loaded "hist_message list" jstr | Forbidden | LoadError

text \<open>The reply to a load; \<open>queued\<close> is the prompt waiting for this session.\<close>

definition load_reply :: "nat \<Rightarrow> session_reply \<Rightarrow> jstr option \<Rightarrow> session_page \<Rightarrow> session_page" where
  "load_reply i r queued s =
     (case sp_loads s ! i of (k, cancelled) \<Rightarrow>
        if cancelled then s
        else (case r of
          Loaded ms t \<Rightarrow>
            (let s1 = s\<lparr>sp_messages := ms, sp_title := t\<rparr> in
             if truthy_str queued \<and> ms = [] \<and> sp_sent_initial s \<noteq> Some k
             then start_run k (s1\<lparr>sp_sent_initial := Some k\<rparr>) else s1)
        | Forbidden \<Rightarrow> s\<lparr>sp_left := True\<rparr>
        | LoadError \<Rightarrow> s\<lparr>sp_messages := []\<rparr>))"

definition handle_send :: "session_page \<Rightarrow> session_page" where
  "handle_send s = (if sp_key s = [] then s else start_run (sp_key s) s)"

text \<open>A run ends, with the title the server generated if there is one; then the title is asked for.\<close>

definition applyGeneratedTitle :: "jstr option \<Rightarrow> session_page \<Rightarrow> session_page" where
  "applyGeneratedTitle t s = (case t of Some x \<Rightarrow> if trim x \<noteq> [] then s\<lparr>sp_title := trim x\<rparr> else s | None \<Rightarrow> s)"

definition refreshAfterRun :: "jstr \<Rightarrow> session_page \<Rightarrow> session_page" where
  "refreshAfterRun k s = s\<lparr>sp_list_loads := Suc (sp_list_loads s), sp_title_requests := sp_title_requests s @ [k]\<rparr>"

definition run_done :: "jstr \<Rightarrow> jstr option \<Rightarrow> session_page \<Rightarrow> session_page" where
  "run_done k t s = refreshAfterRun k (applyGeneratedTitle t s)"

definition title_reply :: "jstr option \<Rightarrow> session_page \<Rightarrow> session_page" where
  "title_reply t s = (case t of Some x \<Rightarrow> s\<lparr>sp_title := x\<rparr> | None \<Rightarrow> s)"

datatype page_event =
  OpenSession jstr | LoadReply nat session_reply "jstr option" | SendText
| RunDone jstr "jstr option" | TitleReply jstr "jstr option"

fun page_step :: "session_page \<Rightarrow> page_event \<Rightarrow> session_page" where
  "page_step s (OpenSession k) = open_session k s"
| "page_step s (LoadReply i r q) = load_reply i r q s"
| "page_step s SendText = handle_send s"
| "page_step s (RunDone k t) = run_done k t s"
| "page_step s (TitleReply k t) = title_reply t s"

definition page_start :: session_page where
  "page_start = \<lparr>sp_key = [], sp_title = NEW_SESSION_TITLE, sp_messages = [], sp_loads = [], sp_runs = [], sp_title_requests = [],
     sp_list_loads = 0, sp_sent_initial = None, sp_left = False\<rparr>"

section \<open>Facts: grouping\<close>

definition shown :: "hist_message \<Rightarrow> bool" where
  "shown m \<longleftrightarrow> hm_role m = User \<or> hm_role m = Assistant \<and> (hm_calls m = None \<or> hm_calls m = Some []) \<and> truthy_str (hm_content m)"

definition thinks :: "hist_message \<Rightarrow> bool" where
  "thinks m \<longleftrightarrow> hm_role m = Assistant \<and> hm_calls m \<noteq> None \<and> hm_calls m \<noteq> Some []"

definition segment_messages :: "display_segment list \<Rightarrow> hist_message list" where
  "segment_messages segs = concat (map (\<lambda>g. case g of MessageShown m \<Rightarrow> [m] | ThinkingShown _ \<Rightarrow> []) segs)"

definition segment_steps :: "display_segment list \<Rightarrow> thinking_step list" where
  "segment_steps segs = concat (map (\<lambda>g. case g of MessageShown m \<Rightarrow> [] | ThinkingShown ss \<Rightarrow> ss) segs)"

fun no_result :: "thinking_step \<Rightarrow> thinking_step" where
  "no_result (TextStep t) = TextStep t"
| "no_result (ToolStep tc) = ToolStep (tc\<lparr>tc_result := JUndef\<rparr>)"

text \<open>Thinking blocks are not empty and never follow one another.\<close>

fun separated :: "display_segment list \<Rightarrow> bool" where
  "separated [] = True"
| "separated (MessageShown m # segs) = separated segs"
| "separated (ThinkingShown ss # segs) =
     (ss \<noteq> [] \<and> (case segs of ThinkingShown _ # _ \<Rightarrow> False | _ \<Rightarrow> True) \<and> separated segs)"

lemma separated_message: "separated (segs @ [MessageShown m]) = separated segs"
  by (induction segs rule: separated.induct) (auto split: list.splits display_segment.splits)

lemma separated_thinking:
  "separated segs \<Longrightarrow> segs = [] \<or> \<not> is_thinking (last segs) \<Longrightarrow> ss \<noteq> [] \<Longrightarrow> separated (segs @ [ThinkingShown ss])"
  by (induction segs rule: separated.induct) (auto simp: is_thinking_def split: list.splits display_segment.splits if_splits)

lemma attach_no_result: "map no_result (attach_result i r ss) = map no_result ss"
  by (induction i r ss rule: attach_result.induct) auto

lemma steps_no_result: "map no_result (message_steps m) = message_steps m"
  by (auto simp: message_steps_def call_step_def split: option.splits)

lemma attach_Nil: "attach_result i r ss = [] \<longleftrightarrow> ss = []"
  by (induction i r ss rule: attach_result.induct) auto

definition grouped :: "hist_message list \<Rightarrow> grouping \<Rightarrow> bool" where
  "grouped ms g \<longleftrightarrow> segment_messages (fst g) = filter shown ms
     \<and> map no_result (segment_steps (fst g) @ snd g) = concat (map message_steps (filter thinks ms))
     \<and> separated (fst g) \<and> (fst g = [] \<or> \<not> is_thinking (last (fst g)))"

lemma segment_snoc [simp]:
  "segment_messages (segs @ [MessageShown m]) = segment_messages segs @ [m]"
  "segment_messages (segs @ [ThinkingShown ss]) = segment_messages segs"
  "segment_steps (segs @ [MessageShown m]) = segment_steps segs"
  "segment_steps (segs @ [ThinkingShown ss]) = segment_steps segs @ ss"
  by (simp_all add: segment_messages_def segment_steps_def)

lemma grouped_flush:
  assumes "grouped ms g"
  shows "segment_messages (fst (flushThinking g)) = filter shown ms"
    "map no_result (segment_steps (fst (flushThinking g))) = concat (map message_steps (filter thinks ms))"
    "separated (fst (flushThinking g))" "snd (flushThinking g) = []"
  using assms by (auto simp: grouped_def flushThinking_def separated_thinking split: prod.splits)

lemma grouped_show:
  assumes "grouped ms g" and "shown m" and "\<not> thinks m"
  shows "grouped (ms @ [m]) (apfst (\<lambda>segs. segs @ [MessageShown m]) (flushThinking g))"
  using grouped_flush [OF assms(1)] assms(2,3)
  by (cases "flushThinking g") (simp add: grouped_def separated_message is_thinking_def)

lemma grouped_step: "grouped ms g \<Longrightarrow> grouped (ms @ [m]) (group_message g m)"
proof (cases "hm_role m")
  case User
  assume "grouped ms g"
  with User show ?thesis using grouped_show [of ms g m] by (simp add: group_message_def shown_def thinks_def)
next
  case Assistant
  assume g: "grouped ms g"
  show ?thesis
  proof (cases "thinks m")
    case True
    then show ?thesis
      using g Assistant by (cases g) (simp add: group_message_def grouped_def shown_def thinks_def steps_no_result)
  next
    case False
    then show ?thesis
      using g Assistant grouped_show [of ms g m]
      by (cases "truthy_str (hm_content m)") (auto simp: group_message_def grouped_def shown_def thinks_def)
  qed
next
  case Tool
  assume "grouped ms g"
  with Tool show ?thesis
    by (cases g) (auto simp: group_message_def grouped_def shown_def thinks_def attach_no_result)
qed (simp add: group_message_def grouped_def shown_def thinks_def)

lemma grouped_all: "grouped ms (foldl group_message ([], []) ms)"
  by (induction ms rule: rev_induct)
     (simp_all add: grouped_step, simp add: grouped_def segment_messages_def segment_steps_def)

text \<open>
  C20. The page shows every question and every final answer, in order and unchanged; the thinking
  blocks hold every intermediate text and every tool call, in order; and no block is empty or follows
  another one.
\<close>

theorem segments_complete:
  "segment_messages (buildSegments ms) = filter shown ms \<and>
   map no_result (segment_steps (buildSegments ms)) = concat (map message_steps (filter thinks ms)) \<and>
   separated (buildSegments ms)"
  using grouped_flush [OF grouped_all [of ms]] by (simp add: buildSegments_def)

text \<open>The results of one turn: every step gets the last result with its id.\<close>

definition tool_message :: "jstr \<times> jstr \<Rightarrow> hist_message" where
  "tool_message e = \<lparr>hm_role = Tool, hm_content = Some (snd e), hm_calls = None, hm_call_id = Some (fst e)\<rparr>"

definition result_step :: "(jstr \<rightharpoonup> jstr) \<Rightarrow> hist_call \<Rightarrow> thinking_step" where
  "result_step res c = ToolStep \<lparr>tc_id = JStr (hc_id c), tc_name = JStr (hc_name c), tc_status = Completed,
     tc_arguments = hc_arguments c, tc_result = (case res (hc_id c) of Some r \<Rightarrow> JStr r | None \<Rightarrow> JUndef)\<rparr>"

lemma attach_texts: "attach_result i r (map TextStep ts @ ss) = map TextStep ts @ attach_result i r ss"
  by (induction ts) simp_all

lemma attach_one:
  "distinct (map hc_id cs) \<Longrightarrow> attach_result i r (map (result_step res) cs) = map (result_step (res(i \<mapsto> r))) cs"
proof (induction cs)
  case (Cons c cs)
  show ?case
  proof (cases "hc_id c = i")
    case True
    then have "map (result_step (res(i \<mapsto> r))) cs = map (result_step res) cs"
      using Cons.prems by (intro map_cong) (auto simp: result_step_def image_iff)
    with True show ?thesis by (simp add: result_step_def)
  next
    case False
    with Cons show ?thesis by (simp add: result_step_def)
  qed
qed simp

lemma group_tools:
  assumes "distinct (map hc_id cs)" and "list_all (\<lambda>e. fst e \<noteq> [] \<and> snd e \<noteq> []) rs"
  shows "foldl group_message (segs, map TextStep ts @ map (result_step res) cs) (map tool_message rs) =
    (segs, map TextStep ts @ map (result_step (res ++ map_of (rev rs))) cs)"
  using assms(2)
proof (induction rs arbitrary: res)
  case (Cons e rs)
  have "group_message (segs, map TextStep ts @ map (result_step res) cs) (tool_message e) =
      (segs, map TextStep ts @ map (result_step (res(fst e \<mapsto> snd e))) cs)"
    using Cons.prems assms(1) by (simp add: group_message_def tool_message_def truthy_str_def attach_texts attach_one)
  moreover have "res(fst e \<mapsto> snd e) ++ map_of (rev rs) = res ++ map_of (rev rs @ [e])"
    by (cases e) (simp add: map_add_def fun_eq_iff split: option.splits)
  ultimately show ?case using Cons by simp
qed simp

text \<open>
  One turn of a stored conversation - a question, an assistant message with tool calls, the results
  in any order, and the answer - is shown as the question, one thinking block and the answer, and every
  call in the block carries its own result.
\<close>

theorem turn_shown:
  assumes "hm_role u = User" and "hm_role a = Assistant" and "hm_calls a = Some cs" and "cs \<noteq> []" and "distinct (map hc_id cs)"
    and "list_all (\<lambda>e. fst e \<noteq> [] \<and> snd e \<noteq> []) rs" and "hm_role f = Assistant" and "hm_calls f = None" and "truthy_str (hm_content f)"
  shows "\<exists>ts. buildSegments (u # a # map tool_message rs @ [f]) =
    [MessageShown u, ThinkingShown (map TextStep ts @ map (result_step (map_of (rev rs))) cs), MessageShown f] \<and> length ts \<le> 1"
proof -
  obtain ts where ts: "message_steps a = map TextStep ts @ map (result_step Map.empty) cs" "length ts \<le> 1"
  proof (cases "hm_content a")
    case None
    then show ?thesis using assms(3) that [of "[]"] by (simp add: message_steps_def call_step_def result_step_def)
  next
    case (Some c)
    then show ?thesis
      using assms(3) that [of "if trim c \<noteq> [] then [trim c] else []"] by (simp add: message_steps_def call_step_def result_step_def)
  qed
  have "foldl group_message ([], []) (u # a # map tool_message rs) =
      foldl group_message ([MessageShown u], map TextStep ts @ map (result_step Map.empty) cs) (map tool_message rs)"
    using assms(1-4) ts(1) by (simp add: group_message_def flushThinking_def)
  also have "\<dots> = ([MessageShown u], map TextStep ts @ map (result_step (map_of (rev rs))) cs)"
    using group_tools [OF assms(5,6), of "[MessageShown u]" ts Map.empty] by simp
  finally have "foldl group_message ([], []) (u # a # map tool_message rs @ [f]) =
      ([MessageShown u, ThinkingShown (map TextStep ts @ map (result_step (map_of (rev rs))) cs), MessageShown f], [])"
    using assms(4,7-9) by (simp add: group_message_def flushThinking_def flip: append_Cons)
  then show ?thesis using ts(2) by (auto simp: buildSegments_def flushThinking_def)
qed

definition said :: "role \<Rightarrow> string \<Rightarrow> hist_message" where
  "said r t = \<lparr>hm_role = r, hm_content = Some (js t), hm_calls = None, hm_call_id = None\<rparr>"

lemma turn_shown_witness:
  "length (buildSegments (said User ''q'' # (said Assistant ''t'')\<lparr>hm_calls := Some [\<lparr>hc_id = js ''1'', hc_name = js ''n'', hc_arguments = JNull\<rparr>]\<rparr>
     # map tool_message [(js ''1'', js ''r'')] @ [said Assistant ''a''])) = 3"
proof -
  let ?c = "\<lparr>hc_id = js ''1'', hc_name = js ''n'', hc_arguments = JNull\<rparr>"
  show ?thesis
    using turn_shown [of "said User ''q''" "(said Assistant ''t'')\<lparr>hm_calls := Some [?c]\<rparr>" "[?c]" "[(js ''1'', js ''r'')]" "said Assistant ''a''"]
    by (auto simp: said_def truthy_str_def)
qed

text \<open>A run that has just ended is shown as a reload would show it: its thinking between question and answer.\<close>

lemma live_steps_placed:
  assumes "hm_role u = User" and "hm_role a = Assistant" and "shown a" and "steps \<noteq> []"
  shows "with_live_steps (buildSegments (ms @ [u, a])) steps False =
    buildSegments (ms @ [u]) @ [ThinkingShown steps, MessageShown a]"
proof -
  obtain segs pending where g: "flushThinking (foldl group_message ([], []) ms) = (segs, pending)"
    by (cases "flushThinking (foldl group_message ([], []) ms)")
  have "pending = []" using grouped_flush(4) [OF grouped_all [of ms]] g by simp
  moreover have "\<not> (hm_calls a \<noteq> None \<and> hm_calls a \<noteq> Some [])" "truthy_str (hm_content a)" using assms(2,3) by (auto simp: shown_def)
  ultimately have "buildSegments (ms @ [u, a]) = segs @ [MessageShown u, MessageShown a]" "buildSegments (ms @ [u]) = segs @ [MessageShown u]"
    using assms(1,2) g by (simp_all add: buildSegments_def group_message_def flushThinking_def)
  then show ?thesis
    using assms(2,4) by (simp add: with_live_steps_def is_thinking_def butlast_append)
qed

section \<open>Facts: the window\<close>

lemma window_partition:
  "length (visibleSegments n segs) + hiddenCount n segs = length segs \<and>
   (\<exists>old. segs = old @ visibleSegments n segs) \<and>
   visibleSegments n segs = normalSegments live (visibleSegments n segs)
     @ (case activeUserSegment live (visibleSegments n segs) of Some g \<Rightarrow> [g] | None \<Rightarrow> [])"
proof (intro conjI)
  show "\<exists>old. segs = old @ visibleSegments n segs"
    by (cases "length segs \<le> n") (simp_all add: visibleSegments_def, metis append_take_drop_id)
  show "vis = normalSegments live vis @ (case activeUserSegment live vis of Some g \<Rightarrow> [g] | None \<Rightarrow> [])" for vis :: "'a list"
    by (simp add: normalSegments_def activeUserSegment_def)
qed (simp add: visibleSegments_def hiddenCount_def)

section \<open>Facts: the page\<close>

definition loads_current :: "session_page \<Rightarrow> bool" where
  "loads_current s \<longleftrightarrow> list_all (\<lambda>l. snd l \<or> fst l = sp_key s) (sp_loads s)"

lemma loads_current_step: "loads_current s \<Longrightarrow> loads_current (page_step s e)"
  by (cases e)
     (auto simp: loads_current_def open_session_def load_reply_def handle_send_def start_run_def run_done_def refreshAfterRun_def
        applyGeneratedTitle_def title_reply_def Let_def list_all_iff split: prod.splits session_reply.splits option.splits)

interpretation page: invariant_machine page_step loads_current
  by unfold_locales (rule loads_current_step)

text \<open>
  C21. However the user moves between sessions and in whatever order the replies arrive, a reply to a
  load changes the page only when it was made for the session the page shows.
\<close>

theorem stale_load_ignored:
  assumes "page_step (foldl page_step page_start es) (LoadReply i r q) \<noteq> foldl page_step page_start es"
    and "i < length (sp_loads (foldl page_step page_start es))"
  shows "fst (sp_loads (foldl page_step page_start es) ! i) = sp_key (foldl page_step page_start es)"
proof -
  let ?s = "foldl page_step page_start es"
  have "loads_current ?s" by (rule page.run_inv) (simp add: loads_current_def page_start_def)
  then have "snd (sp_loads ?s ! i) \<or> fst (sp_loads ?s ! i) = sp_key ?s" using assms(2) by (simp add: loads_current_def list_all_length)
  then show ?thesis using assms(1) by (auto simp: load_reply_def split: prod.splits)
qed

lemma stale_load_ignored_witness:
  "fst (sp_loads (foldl page_step page_start [OpenSession (js ''a''), OpenSession (js ''b'')]) ! 1) = js ''b''"
  using stale_load_ignored [of "[OpenSession (js ''a''), OpenSession (js ''b'')]" 1 "Loaded [] (js ''t'')" None]
  by (simp add: page_start_def open_session_def load_reply_def truthy_str_def NEW_SESSION_TITLE_def)

text \<open>
  Titles are not guarded like that: when a run of the session left behind ends, its title is asked for
  and shown above the session that is open.
\<close>

lemma old_title_shown:
  assumes "a \<noteq> []" and "b \<noteq> []"
  shows "let s' = foldl page_step page_start [OpenSession a, SendText, OpenSession b, RunDone a None, TitleReply a (Some t)] in
    sp_key s' = b \<and> sp_title s' = t"
  using assms by (simp add: page_start_def open_session_def handle_send_def start_run_def run_done_def refreshAfterRun_def
      applyGeneratedTitle_def title_reply_def Let_def)

end
