(* ===== verification/JsonRoundTrip.thy ===== *)
theory JsonRoundTrip
  imports JsonPrint
begin

text \<open>
  Reading what was written: \<open>JSON.parse(JSON.stringify(v))\<close> gives back every value made of strings,
  truth values, null, arrays and objects.  The pages that keep lists in the local storage rest on it.
\<close>

section \<open>Strings\<close>

lemma json_hex_val: "n < 16 \<Longrightarrow> hex_val (hex_digit n) = Some n"
  by (auto simp: hex_val_def hex_digit_def is_digit_def)

lemma hex4_u: "c < 65536 \<Longrightarrow> hex4 [hex_digit (c div 4096 mod 16), hex_digit (c div 256 mod 16), hex_digit (c div 16 mod 16), hex_digit (c mod 16)] = Some c"
proof -
  assume c: "c < 65536"
  define x y z where "x = c div 16" "y = x div 16" "z = y div 16"
  have xyz: "c div 256 = y" "c div 4096 = z" by (simp_all add: x_y_z_def flip: div_mult2_eq)
  have "c div 4096 < 16" using c by (simp add: div_less_iff_less_mult)
  then have z: "z < 16" by (simp only: xyz(2))
  have sum: "((z' * 16 + y0) * 16 + x0) * 16 + c0 = c'" if "c' = 16 * x' + c0" "x' = 16 * y' + x0" "y' = 16 * z' + y0"
    for c' x' y' z' c0 x0 y0 :: nat using that by simp
  have "((z * 16 + y mod 16) * 16 + x mod 16) * 16 + c mod 16 = c"
    by (rule sum [of c x _ y _ z]) (simp_all add: x_y_z_def)
  then show ?thesis using z by (simp add: hex4_def json_hex_val xyz flip: x_y_z_def(1))
qed

lemma json_string_u:
  assumes "c < 65536"
  shows "json_string (json_u c @ t) = map_option (apfst ((#) c)) (json_string t)"
proof -
  obtain a1 a2 a3 a4 where u: "json_u c = [92, 117, a1, a2, a3, a4]" "hex4 [a1, a2, a3, a4] = Some c"
    using hex4_u [OF assms] by (simp add: json_u_def)
  show ?thesis by (simp add: u)
qed

lemma json_string_escape: "c < 65536 \<Longrightarrow> json_string (json_escape c @ t) = map_option (apfst ((#) c)) (json_string t)"
  using json_string_u [of c t] by (auto simp: json_escape_def unescape_def split: if_splits)

lemma json_string_escapes: "list_all (\<lambda>c. c < 65536) s \<Longrightarrow> json_string (json_escapes s @ 34 # t) = Some (s, t)"
proof (induction s rule: json_escapes.induct)
  case (2 c)
  then show ?case by (simp add: json_string_u json_string_escape)
next
  case (3 c d s)
  show ?case
  proof (cases "high_surrogate c \<and> low_surrogate d")
    case True
    then have "c \<ge> 55296" "d \<ge> 55296" by (simp_all add: high_surrogate_def low_surrogate_def)
    then show ?thesis using 3 True by simp
  next
    case False
    then show ?thesis using 3 by (auto simp: json_string_u json_string_escape)
  qed
qed simp

section \<open>Values\<close>

fun plain_value :: "jsval \<Rightarrow> bool" where
  "plain_value JNull = True"
| "plain_value (JBool b) = True"
| "plain_value (JStr s) = list_all (\<lambda>c. c < 65536) s"
| "plain_value (JArr vs) = list_all plain_value vs"
| "plain_value (JObj ob) =
     (distinct (map fst ob) \<and> list_all (\<lambda>e. list_all (\<lambda>c. c < 65536) (fst e) \<and> \<not> is_index (fst e) \<and> plain_value (snd e)) ob)"
| "plain_value v = False"

definition written :: "jsval \<Rightarrow> jstr" where
  "written v = the (json_print 0 [] v)"

definition written_member :: "jstr \<times> jsval \<Rightarrow> jstr" where
  "written_member e = json_quote (fst e) @ 58 # written (snd e)"

lemma plain_printed: "plain_value v \<Longrightarrow> json_print 0 [] v = Some (written v)"
  by (cases v) (simp_all add: written_def)

lemma written_arr: "list_all plain_value vs \<Longrightarrow> written (JArr vs) = 91 # join [44] (map written vs) @ [93]"
proof -
  assume "list_all plain_value vs"
  then have "map (\<lambda>v. case json_print 0 ([] @ replicate 0 32) v of Some t \<Rightarrow> t | None \<Rightarrow> js ''null'') vs = map written vs"
    by (intro map_cong) (auto simp: list_all_iff plain_printed)
  then have "json_print 0 [] (JArr vs) = Some (json_items 0 [] 91 93 (map written vs))" by (simp only: json_print.simps)
  then show ?thesis by (simp add: written_def [of "JArr vs"] json_items_def)
qed

lemma written_obj:
  assumes "plain_value (JObj ob)"
  shows "written (JObj ob) = 123 # join [44] (map written_member ob) @ [125]"
proof -
  let ?p = "map (\<lambda>(k, v). (k, json_print 0 [] v)) ob"
  have "filter (\<lambda>e. is_index (fst e)) ?p = []" "filter (\<lambda>e. \<not> is_index (fst e)) ?p = ?p"
    using assms by (auto simp: filter_empty_conv filter_id_conv list_all_iff split: prod.splits)
  then have "obj_entries ?p = ?p" by (simp add: obj_entries_def)
  moreover have "List.map_filter (json_member 0) ?p = map written_member ob"
    using assms by (induction ob) (auto simp: json_member_def written_member_def plain_printed split: prod.splits)
  ultimately show ?thesis by (simp add: written_def json_items_def)
qed

text \<open>Reading the text of a value: with fuel for twice its length, it is read and what follows is left.\<close>

definition reads :: "jsval \<Rightarrow> bool" where
  "reads v \<longleftrightarrow> (\<forall>n t. 2 * length (written v) \<le> Suc n \<longrightarrow> json_value n (written v @ t) = Some (v, t))"

definition solid :: "jstr \<Rightarrow> bool" where
  "solid s \<longleftrightarrow> s \<noteq> [] \<and> \<not> json_ws (hd s) \<and> hd s \<noteq> 93 \<and> hd s \<noteq> 125"

lemma skip_solid: "solid s \<Longrightarrow> skip_ws (s @ t) = s @ t"
  by (cases s) (simp_all add: solid_def skip_ws_def)

lemma written_solid: "plain_value v \<Longrightarrow> solid (written v)"
proof (cases v)
  case (JArr vs)
  then show "plain_value v \<Longrightarrow> ?thesis" by (simp add: written_arr solid_def json_ws_def)
next
  case (JObj ob)
  then show "plain_value v \<Longrightarrow> ?thesis" using written_obj [of ob] by (simp add: solid_def json_ws_def)
next
  case (JBool b)
  then show ?thesis by (cases b) (simp_all add: written_def solid_def json_ws_def)
qed (simp_all add: written_def json_quote_def solid_def json_ws_def)

lemma string_read: "list_all (\<lambda>c. c < 65536) s \<Longrightarrow> json_value (Suc n) (json_quote s @ t) = Some (JStr s, t)"
  by (simp add: json_quote_def json_string_escapes skip_ws_def json_ws_def)

lemma joined_solid: "x \<noteq> [] \<Longrightarrow> list_all solid x \<Longrightarrow> solid (join [44] x)"
proof (cases x)
  case (Cons a l)
  then show "list_all solid x \<Longrightarrow> ?thesis" by (cases l) (auto simp: solid_def hd_append)
qed simp

lemma elems_read:
  assumes "vs \<noteq> []" and "list_all (\<lambda>v. reads v \<and> solid (written v)) vs"
  shows "2 * length (join [44] (map written vs)) \<le> n \<Longrightarrow>
    json_elems n acc (join [44] (map written vs) @ 93 # t) = Some (JArr (acc @ vs), t)"
  using assms
proof (induction vs arbitrary: acc n)
  case (Cons v vs)
  have v: "reads v" "solid (written v)" using Cons.prems(3) by simp_all
  then have "length (written v) > 0" by (simp add: solid_def)
  moreover have "2 * length (written v) \<le> n" using Cons.prems(1) by (cases vs) simp_all
  ultimately obtain m where n: "n = Suc m" and m: "2 * length (written v) \<le> Suc m" by (cases n) auto
  have first: "json_value m (written v @ u) = Some (v, u)" for u using v(1) m by (simp add: reads_def)
  show ?case
  proof (cases vs)
    case Nil
    then show ?thesis by (simp add: n first skip_ws_def json_ws_def)
  next
    case (Cons w ws)
    then have "2 * length (join [44] (map written vs)) \<le> m" using Cons.prems(1) n by simp
    then have "json_elems m (acc @ [v]) (join [44] (map written vs) @ 93 # t) = Some (JArr (acc @ v # vs), t)"
      using Cons.IH [of m "acc @ [v]"] Cons.prems(3) Cons by simp
    then show ?thesis using Cons by (simp add: n first skip_ws_def json_ws_def)
  qed
qed simp

lemma define_new: "k \<notin> set (map fst ob) \<Longrightarrow> obj_define ob k v = ob @ [(k, v)]"
  by (induction ob) auto

lemma members_read:
  assumes "ob \<noteq> []" and "list_all (\<lambda>e. list_all (\<lambda>c. c < 65536) (fst e) \<and> reads (snd e) \<and> solid (written (snd e))) ob"
  shows "2 * length (join [44] (map written_member ob)) \<le> n \<Longrightarrow> distinct (map fst (acc @ ob)) \<Longrightarrow>
    json_members n acc (join [44] (map written_member ob) @ 125 # t) = Some (JObj (acc @ ob), t)"
  using assms
proof (induction ob arbitrary: acc n)
  case (Cons e ob)
  obtain k v where e: "e = (k, v)" by (cases e)
  have v: "reads v" "solid (written v)" "list_all (\<lambda>c. c < 65536) k" using Cons.prems(4) by (simp_all add: e)
  have "2 * length (written_member e) \<le> n" using Cons.prems(1) by (cases ob) simp_all
  then obtain m where n: "n = Suc m" and m: "2 * length (written v) \<le> Suc m" by (cases n) (auto simp: written_member_def e json_quote_def)
  have first: "json_value m (written v @ u) = Some (v, u)" for u using v(1) m by (simp add: reads_def)
  have key: "json_string (json_escapes k @ 34 # u) = Some (k, u)" for u by (rule json_string_escapes [OF v(3)])
  have new: "obj_define acc k v = acc @ [e]" using Cons.prems(2) by (simp add: e define_new)
  have wm: "written_member e = 34 # json_escapes k @ 34 # 58 # written v" by (simp add: written_member_def json_quote_def e)
  show ?case
  proof (cases ob)
    case Nil
    then show ?thesis
      by (simp add: n wm skip_ws_def json_ws_def key first new)
  next
    case (Cons w ws)
    then have "2 * length (join [44] (map written_member ob)) \<le> m" using Cons.prems(1) n by simp
    then have "json_members m (acc @ [e]) (join [44] (map written_member ob) @ 125 # t) = Some (JObj (acc @ e # ob), t)"
      using Cons.IH [of m "acc @ [e]"] Cons.prems(2,4) Cons by simp
    then show ?thesis
      using Cons by (simp add: n wm skip_ws_def json_ws_def key first new)
  qed
qed simp

lemma solid_head: "solid s \<Longrightarrow> \<exists>d u. s = d # u \<and> \<not> json_ws d \<and> d \<noteq> 93 \<and> d \<noteq> 125"
  by (cases s) (auto simp: solid_def)

lemma plain_reads: "plain_value v \<Longrightarrow> reads v"
proof (induction v)
  case (JArr vs)
  then have vs: "list_all (\<lambda>v. reads v \<and> solid (written v)) vs" by (auto simp: list_all_iff written_solid)
  have w: "written (JArr vs) = 91 # join [44] (map written vs) @ [93]" using JArr.prems by (simp add: written_arr)
  have "json_value n (written (JArr vs) @ t) = Some (JArr vs, t)" if len: "2 * length (written (JArr vs)) \<le> Suc n" for n t
  proof -
    obtain m where n: "n = Suc m" "2 * length (join [44] (map written vs)) \<le> m" using len by (cases n) (simp_all add: w)
    show ?thesis
    proof (cases "vs = []")
      case True
      then show ?thesis unfolding n(1) w by (simp add: skip_ws_def json_ws_def)
    next
      case False
      then have "solid (join [44] (map written vs))" using vs by (intro joined_solid) (auto simp: list_all_iff)
      then obtain d u where "join [44] (map written vs) = d # u" "\<not> json_ws d" "d \<noteq> 93" using solid_head by blast
      then show ?thesis using elems_read [OF False vs n(2), of "[]" t] unfolding n(1) w by (simp add: skip_ws_def json_ws_def)
    qed
  qed
  then show ?case by (simp add: reads_def)
next
  case (JObj ob)
  have ob: "list_all (\<lambda>e. list_all (\<lambda>c. c < 65536) (fst e) \<and> reads (snd e) \<and> solid (written (snd e))) ob"
    using JObj by (force simp: list_all_iff written_solid)
  have w: "written (JObj ob) = 123 # join [44] (map written_member ob) @ [125]" using JObj.prems by (rule written_obj)
  have "json_value n (written (JObj ob) @ t) = Some (JObj ob, t)" if len: "2 * length (written (JObj ob)) \<le> Suc n" for n t
  proof -
    obtain m where n: "n = Suc m" "2 * length (join [44] (map written_member ob)) \<le> m" using len by (cases n) (simp_all add: w)
    show ?thesis
    proof (cases "ob = []")
      case True
      then show ?thesis unfolding n(1) w by (simp add: skip_ws_def json_ws_def)
    next
      case False
      then have "solid (join [44] (map written_member ob))"
        by (intro joined_solid) (auto simp: list_all_iff solid_def written_member_def json_quote_def json_ws_def)
      then obtain d u where "join [44] (map written_member ob) = d # u" "\<not> json_ws d" "d \<noteq> 125" using solid_head by blast
      then show ?thesis
        using members_read [OF False ob n(2), of "[]" t] JObj.prems unfolding n(1) w by (simp add: skip_ws_def json_ws_def)
    qed
  qed
  then show ?case by (simp add: reads_def)
next
  case (JStr s)
  have "json_value n (json_quote s @ t) = Some (JStr s, t)" if "2 * length (json_quote s) \<le> Suc n" for n t
    using that JStr string_read [of s _ t] by (cases n) (simp_all add: json_quote_def)
  then show ?case by (simp add: reads_def written_def)
next
  case JNull
  have "json_value n (js ''null'' @ t) = Some (JNull, t)" if "2 * length (js ''null'') \<le> Suc n" for n t
    using that by (cases n) (simp_all add: skip_ws_def json_ws_def json_word_def starts_with_def)
  then show ?case by (simp add: reads_def written_def)
next
  case (JBool b)
  have "json_value n (written (JBool b) @ t) = Some (JBool b, t)" if "2 * length (written (JBool b)) \<le> Suc n" for n t
    using that by (cases n; cases b) (simp_all add: written_def skip_ws_def json_ws_def json_word_def starts_with_def)
  then show ?case by (simp add: reads_def)
qed simp_all

theorem json_round_trip: "plain_value v \<Longrightarrow> json_stringify 0 v = Some (written v) \<and> json_parse (written v) = Some v"
proof
  assume v: "plain_value v"
  then show "json_stringify 0 v = Some (written v)" by (simp add: json_stringify_def plain_printed)
  have "json_value (Suc (2 * length (written v))) (written v @ []) = Some (v, [])"
    using plain_reads [OF v] unfolding reads_def by (metis le_SucI order_refl)
  then show "json_parse (written v) = Some v" by (simp add: json_parse_def skip_ws_def)
qed

end
