(* ===== verification/Dashboard.thy ===== *)
theory Dashboard
  imports JsonRoundTrip RoutinesStore
begin

text \<open>
  The dashboard: src/ui/web/src/pages/DashboardPage.tsx.  The list of widgets is a list of objects kept
  in the local storage as JSON; the state is the one of the page's hooks with the text stored, and
  every handler is an event.  \<open>Date.parse\<close> is a parameter, \<open>None\<close> being NaN; the ids that
  \<open>createWidgetId\<close> makes are given with the event.
\<close>

section \<open>Widgets\<close>

definition ROUTINE_LATEST_WIDGET :: jstr where
  "ROUTINE_LATEST_WIDGET = js ''routineLatest''"

definition CALENDAR_WIDGET :: jstr where
  "CALENDAR_WIDGET = js ''calendar''"

definition WEATHER_WIDGET :: jstr where
  "WEATHER_WIDGET = js ''weather''"

definition isDashboardWidget :: "jsval \<Rightarrow> bool" where
  "isDashboardWidget v = (case v of
     JObj w \<Rightarrow>
       if \<not> is_str (obj_get w (js ''id'')) then False
       else if obj_get w (js ''type'') = JStr ROUTINE_LATEST_WIDGET then is_str (obj_get w (js ''routineId''))
       else obj_get w (js ''type'') = JStr CALENDAR_WIDGET \<or> obj_get w (js ''type'') = JStr WEATHER_WIDGET
   | _ \<Rightarrow> False)"

definition loadDashboardWidgets :: "jstr option \<Rightarrow> jsval list" where
  "loadDashboardWidgets saved =
     (case saved of
        None \<Rightarrow> []
      | Some t \<Rightarrow>
          if t = [] then []
          else (case json_parse t of Some (JArr vs) \<Rightarrow> filter isDashboardWidget vs | _ \<Rightarrow> []))"

definition saveDashboardWidgets :: "jsval list \<Rightarrow> jstr option" where
  "saveDashboardWidgets ws = json_stringify 0 (JArr ws)"

definition widget_prop :: "jsval \<Rightarrow> jstr \<Rightarrow> jsval" where
  "widget_prop v k = (case v of JObj w \<Rightarrow> obj_get w k | _ \<Rightarrow> JUndef)"

definition widget_is :: "jstr \<Rightarrow> jsval \<Rightarrow> bool" where
  "widget_is i v \<longleftrightarrow> widget_prop v (js ''id'') = JStr i"

section \<open>Runs\<close>

definition getRunTime :: "(jstr \<Rightarrow> int option) \<Rightarrow> routine_run \<Rightarrow> int" where
  "getRunTime parse r =
     (case parse (case rr_finished_at r of Some t \<Rightarrow> if t = [] then rr_started_at r else t | None \<Rightarrow> rr_started_at r) of
        Some n \<Rightarrow> n | None \<Rightarrow> 0)"

definition latest_step :: "(jstr \<Rightarrow> int option) \<Rightarrow> routine_run option \<Rightarrow> routine_run \<Rightarrow> routine_run option" where
  "latest_step parse current r = (case current of
     None \<Rightarrow> Some r
   | Some c \<Rightarrow> if getRunTime parse c < getRunTime parse r then Some r else current)"

definition getLatestRoutineRun :: "(jstr \<Rightarrow> int option) \<Rightarrow> routine_run list \<Rightarrow> routine_run option" where
  "getLatestRoutineRun parse runs = foldl (latest_step parse) None runs"

text \<open>The routines whose runs the widgets show, each once.\<close>

definition add_routine_id :: "jstr list \<Rightarrow> jsval \<Rightarrow> jstr list" where
  "add_routine_id ids v = (case widget_prop v (js ''routineId'') of
     JStr i \<Rightarrow> if widget_prop v (js ''type'') = JStr ROUTINE_LATEST_WIDGET \<and> i \<noteq> [] \<and> i \<notin> set ids then ids @ [i] else ids
   | _ \<Rightarrow> ids)"

definition widgetRoutineIds :: "jsval list \<Rightarrow> jstr list" where
  "widgetRoutineIds ws = foldl add_routine_id [] ws"

text \<open>When a run ended, in the notation of the reader's place (a parameter), and the class of its badge.\<close>

definition formatRoutineRunTime :: "(jstr \<Rightarrow> int option) \<Rightarrow> (int \<Rightarrow> jstr) \<Rightarrow> routine_run \<Rightarrow> jstr" where
  "formatRoutineRunTime parse locale_time r =
     (case parse (case rr_finished_at r of Some t \<Rightarrow> if t = [] then rr_started_at r else t | None \<Rightarrow> rr_started_at r) of
        Some n \<Rightarrow> locale_time n | None \<Rightarrow> [])"

fun runStatusClass :: "run_status \<Rightarrow> jstr" where
  "runStatusClass Success = js ''bg-success/10 text-success''"
| "runStatusClass Failed = js ''bg-destructive/10 text-destructive''"
| "runStatusClass Running = js ''bg-info/10 text-info''"

text \<open>What the widget of a routine says.\<close>

datatype run_body = InProgress | RunFailure jstr | Preview jstr | NoPreview

datatype routine_view =
  Unavailable | RoutineGone | LoadingOutput | NoOutput jstr | RunView jstr routine_run run_body

definition run_body_of :: "routine_run \<Rightarrow> run_body" where
  "run_body_of r =
     (if rr_status r = Running then InProgress
      else case rr_error r of Some (c # e) \<Rightarrow> RunFailure (c # e)
        | _ \<Rightarrow> (case rr_output_preview r of Some (c # p) \<Rightarrow> Preview (c # p) | _ \<Rightarrow> NoPreview))"

definition RoutineLatestWidget :: "routine option \<Rightarrow> routine_run option \<Rightarrow> bool \<Rightarrow> bool \<Rightarrow> routine_view" where
  "RoutineLatestWidget routine latest loading canViewRoutines =
     (if \<not> canViewRoutines then Unavailable
      else case routine of None \<Rightarrow> RoutineGone
        | Some r \<Rightarrow>
            (case latest of
               Some run \<Rightarrow> RunView (r_name r) run (run_body_of run)
             | None \<Rightarrow> if loading then LoadingOutput else NoOutput (r_name r)))"

text \<open>A widget with the state of the routines store.\<close>

definition routine_widget :: "(jstr \<Rightarrow> int option) \<Rightarrow> bool \<Rightarrow> routines_state \<Rightarrow> jsval \<Rightarrow> routine_view" where
  "routine_widget parse canViewRoutines st w =
     (let i = (case widget_prop w (js ''routineId'') of JStr i \<Rightarrow> i | _ \<Rightarrow> []) in
      RoutineLatestWidget (List.find (\<lambda>r. r_id r = i) (items st))
        (getLatestRoutineRun parse (case runsByRoutine st i of Some runs \<Rightarrow> runs | None \<Rightarrow> []))
        (runsLoading st i = Some True) canViewRoutines)"

section \<open>The page\<close>

record dashboard =
  db_widgets :: "jsval list"
  db_stored :: "jstr option"
  db_dialog :: bool
  db_type :: jstr
  db_routine :: jstr
  db_dragging :: "jstr option"
  db_over :: "jstr option"
  db_requested :: "jstr list"

definition dashboard_start :: "jstr option \<Rightarrow> dashboard" where
  "dashboard_start stored = \<lparr>db_widgets = loadDashboardWidgets stored, db_stored = stored, db_dialog = False,
     db_type = ROUTINE_LATEST_WIDGET, db_routine = [], db_dragging = None, db_over = None, db_requested = []\<rparr>"

definition updateWidgets :: "jsval list \<Rightarrow> dashboard \<Rightarrow> dashboard" where
  "updateWidgets ws s = s\<lparr>db_widgets := ws, db_stored := saveDashboardWidgets ws\<rparr>"

text \<open>The effect that asks for the runs of the routines shown; \<open>split("|")\<close> undoes \<open>join("|")\<close>.\<close>

definition request_runs :: "bool \<Rightarrow> dashboard \<Rightarrow> dashboard" where
  "request_runs canViewRoutines s =
     (let key = join [124] (widgetRoutineIds (db_widgets s)) in
      if \<not> canViewRoutines \<or> key = [] then s
      else s\<lparr>db_requested := foldl (\<lambda>done i. if i \<in> set done then done else done @ [i]) (db_requested s) (split_char 124 key)\<rparr>)"

definition openAddDialog :: "bool \<Rightarrow> jstr list \<Rightarrow> dashboard \<Rightarrow> dashboard" where
  "openAddDialog canViewRoutines routine_ids s =
     s\<lparr>db_type := (if canViewRoutines then ROUTINE_LATEST_WIDGET else CALENDAR_WIDGET),
       db_routine := (case routine_ids of i # _ \<Rightarrow> i | [] \<Rightarrow> []), db_dialog := True\<rparr>"

definition canAddSelectedWidget :: "bool \<Rightarrow> jstr list \<Rightarrow> dashboard \<Rightarrow> bool" where
  "canAddSelectedWidget canViewRoutines routine_ids s \<longleftrightarrow>
     db_type s \<noteq> ROUTINE_LATEST_WIDGET \<or> canViewRoutines \<and> db_routine s \<noteq> [] \<and> routine_ids \<noteq> []"

definition new_widget :: "jstr \<Rightarrow> jstr \<Rightarrow> jstr \<Rightarrow> jsval" where
  "new_widget i t r = JObj ([(js ''id'', JStr i), (js ''type'', JStr t)]
     @ (if t = ROUTINE_LATEST_WIDGET then [(js ''routineId'', JStr r)] else []))"

definition addWidget :: "bool \<Rightarrow> jstr list \<Rightarrow> jstr \<Rightarrow> dashboard \<Rightarrow> dashboard" where
  "addWidget canViewRoutines routine_ids i s =
     (if \<not> canAddSelectedWidget canViewRoutines routine_ids s then s
      else (updateWidgets (db_widgets s @ [new_widget i (db_type s) (db_routine s)]) s)\<lparr>db_dialog := False\<rparr>)"

definition removeWidget :: "jstr \<Rightarrow> dashboard \<Rightarrow> dashboard" where
  "removeWidget i s = updateWidgets (filter (\<lambda>w. \<not> widget_is i w) (db_widgets s)) (s\<lparr>db_dragging := None, db_over := None\<rparr>)"

text \<open>Take the element at \<open>i\<close> out and put it back at \<open>j\<close>: the two calls of \<open>splice\<close>.\<close>

definition move_to :: "nat \<Rightarrow> nat \<Rightarrow> 'a list \<Rightarrow> 'a list" where
  "move_to i j xs = (let rest = take i xs @ drop (Suc i) xs in take j rest @ [xs ! i] @ drop j rest)"

definition reorderWidgets :: "jstr \<Rightarrow> jstr \<Rightarrow> dashboard \<Rightarrow> dashboard" where
  "reorderWidgets sourceId targetId s =
     (if sourceId = targetId then s
      else (case (find_index (widget_is sourceId) (db_widgets s), find_index (widget_is targetId) (db_widgets s)) of
         (Some i, Some j) \<Rightarrow> updateWidgets (move_to i j (db_widgets s)) s
       | _ \<Rightarrow> s))"

text \<open>An id that is there and not empty, else the other.\<close>

definition or_id :: "jstr option \<Rightarrow> jstr option \<Rightarrow> jstr option" where
  "or_id a b = (case a of Some i \<Rightarrow> if i \<noteq> [] then a else b | None \<Rightarrow> b)"

definition drag_over :: "jstr \<Rightarrow> jstr \<Rightarrow> dashboard \<Rightarrow> dashboard" where
  "drag_over transferred i s = (case or_id (db_dragging s) (Some transferred) of
     Some src \<Rightarrow> if src = [] \<or> src = i then s else s\<lparr>db_over := Some i\<rparr>
   | None \<Rightarrow> s)"

definition drop_widget :: "jstr \<Rightarrow> jstr \<Rightarrow> dashboard \<Rightarrow> dashboard" where
  "drop_widget transferred i s =
     (let s1 = s\<lparr>db_dragging := None, db_over := None\<rparr> in
      case or_id (Some transferred) (db_dragging s) of
        Some src \<Rightarrow> if src = [] then s1 else reorderWidgets src i s1
      | None \<Rightarrow> s1)"

text \<open>Where the button of a routine widget leads: to the session of its run, or to a new one with a prompt.\<close>

definition startRoutineConversation :: "routine option \<Rightarrow> routine_run option \<Rightarrow> jstr + jstr" where
  "startRoutineConversation r latest =
     (case (case latest of Some run \<Rightarrow> rr_session_key run | None \<Rightarrow> None) of
        Some (c # k) \<Rightarrow> Inl (c # k)
      | _ \<Rightarrow> Inr (js ''Ki'' @ [7875] @ js ''m tra ''
          @ (case r of Some x \<Rightarrow> js ''routine '' @ [34] @ r_name x @ [34] | None \<Rightarrow> js ''routine dashboard'')
          @ js '' v'' @ [224, 32, 273, 7873] @ js '' xu'' @ [7845] @ js ''t c'' @ [225] @ js ''c b'' @ [432, 7899] @ js ''c ti'' @ [7871] @ js ''p theo.''))"

datatype dashboard_event =
  OpenAdd bool "jstr list" | SelectType jstr | SelectRoutine jstr | CloseAdd | AddWidget bool "jstr list" jstr | RemoveWidget jstr
| DragStart jstr | DragOver jstr jstr | DropOn jstr jstr | DragEnd | RunsEffect bool

fun dashboard_step :: "dashboard \<Rightarrow> dashboard_event \<Rightarrow> dashboard" where
  "dashboard_step s (OpenAdd can ids) = openAddDialog can ids s"
| "dashboard_step s (SelectType t) = s\<lparr>db_type := t\<rparr>"
| "dashboard_step s (SelectRoutine r) = s\<lparr>db_routine := r\<rparr>"
| "dashboard_step s CloseAdd = s\<lparr>db_dialog := False\<rparr>"
| "dashboard_step s (AddWidget can ids i) = addWidget can ids i s"
| "dashboard_step s (RemoveWidget i) = removeWidget i s"
| "dashboard_step s (DragStart i) = s\<lparr>db_dragging := Some i\<rparr>"
| "dashboard_step s (DragOver t i) = drag_over t i s"
| "dashboard_step s (DropOn t i) = drop_widget t i s"
| "dashboard_step s DragEnd = s\<lparr>db_dragging := None, db_over := None\<rparr>"
| "dashboard_step s (RunsEffect can) = request_runs can s"

section \<open>Facts: what is stored\<close>

abbreviation "units_ok \<equiv> list_all (\<lambda>c. c < (65536 :: nat))"

definition widget_ok :: "jsval \<Rightarrow> bool" where
  "widget_ok w \<longleftrightarrow> isDashboardWidget w \<and> plain_value w"

definition widget_types :: "jstr list" where
  "widget_types = [ROUTINE_LATEST_WIDGET, CALENDAR_WIDGET, WEATHER_WIDGET]"

lemmas widget_consts = ROUTINE_LATEST_WIDGET_def CALENDAR_WIDGET_def WEATHER_WIDGET_def

lemma saved_loaded: "list_all widget_ok ws \<Longrightarrow> loadDashboardWidgets (saveDashboardWidgets ws) = ws"
proof -
  assume ws: "list_all widget_ok ws"
  then have p: "plain_value (JArr ws)" by (simp add: list_all_iff widget_ok_def)
  moreover have "written (JArr ws) \<noteq> []" using p by (simp add: written_arr)
  moreover have "filter isDashboardWidget ws = ws" using ws by (simp add: list_all_iff widget_ok_def)
  ultimately show ?thesis using json_round_trip [OF p] by (simp add: saveDashboardWidgets_def loadDashboardWidgets_def)
qed

lemma new_widget_ok: "units_ok i \<Longrightarrow> units_ok r \<Longrightarrow> t \<in> set widget_types \<Longrightarrow> widget_ok (new_widget i t r)"
  by (auto simp: widget_ok_def widget_types_def new_widget_def isDashboardWidget_def obj_get_def widget_consts is_index_def all_digits_def is_digit_def)

definition dashboard_ok :: "dashboard \<Rightarrow> bool" where
  "dashboard_ok s \<longleftrightarrow> list_all widget_ok (db_widgets s) \<and> loadDashboardWidgets (db_stored s) = db_widgets s
     \<and> db_type s \<in> set widget_types \<and> units_ok (db_routine s)"

text \<open>What the browser and the form give: known types, texts made of 16-bit units.\<close>

fun dashboard_input_ok :: "dashboard \<Rightarrow> dashboard_event \<Rightarrow> bool" where
  "dashboard_input_ok s (OpenAdd can ids) = list_all units_ok ids"
| "dashboard_input_ok s (SelectType t) = (t \<in> set widget_types)"
| "dashboard_input_ok s (SelectRoutine r) = units_ok r"
| "dashboard_input_ok s (AddWidget can ids i) = units_ok i"
| "dashboard_input_ok s e = True"

lemma update_ok: "dashboard_ok s \<Longrightarrow> list_all widget_ok ws \<Longrightarrow> dashboard_ok (updateWidgets ws s)"
  by (simp add: dashboard_ok_def updateWidgets_def saved_loaded)

lemma move_to_mset: "i < length xs \<Longrightarrow> mset (move_to i j xs) = mset xs"
proof -
  assume i: "i < length xs"
  have "mset (move_to i j xs) = add_mset (xs ! i) (mset (take j (take i xs @ drop (Suc i) xs) @ drop j (take i xs @ drop (Suc i) xs)))"
    by (simp add: move_to_def Let_def del: append_take_drop_id)
  also have "\<dots> = mset (take i xs @ xs ! i # drop (Suc i) xs)" by (simp only: append_take_drop_id) simp
  finally show ?thesis using i by (simp only: id_take_nth_drop [symmetric])
qed

lemma reorder_ok: "dashboard_ok s \<Longrightarrow> dashboard_ok (reorderWidgets a b s)"
proof -
  assume s: "dashboard_ok s"
  have "list_all widget_ok (move_to i j (db_widgets s))" if "find_index P (db_widgets s) = Some i" for P i j
  proof -
    have "set (move_to i j (db_widgets s)) = set (db_widgets s)"
      using move_to_mset [of i "db_widgets s" j] find_index_nth [OF that] by (metis set_mset_mset)
    then show ?thesis using s by (simp add: dashboard_ok_def list_all_iff)
  qed
  then show ?thesis using s by (auto simp: reorderWidgets_def intro: update_ok split: option.splits)
qed

lemma dashboard_step_ok: "dashboard_ok s \<Longrightarrow> dashboard_input_ok s e \<Longrightarrow> dashboard_ok (dashboard_step s e)"
proof (cases e)
  case (AddWidget can ids i)
  assume s: "dashboard_ok s" and e: "dashboard_input_ok s e"
  have "list_all widget_ok (db_widgets s @ [new_widget i (db_type s) (db_routine s)])"
    using s e AddWidget by (auto simp: dashboard_ok_def intro!: new_widget_ok)
  from update_ok [OF s this] show ?thesis using s AddWidget by (auto simp: addWidget_def dashboard_ok_def)
next
  case (RemoveWidget i)
  assume "dashboard_ok s"
  then show ?thesis using RemoveWidget
    by (auto simp: removeWidget_def dashboard_ok_def updateWidgets_def list_all_iff intro!: saved_loaded)
next
  case (DropOn t i)
  assume "dashboard_ok s"
  then have "dashboard_ok (s\<lparr>db_dragging := None, db_over := None\<rparr>)" by (simp add: dashboard_ok_def)
  then show ?thesis using DropOn by (auto simp: drop_widget_def Let_def reorder_ok split: option.splits)
qed (auto simp: dashboard_ok_def openAddDialog_def widget_types_def drag_over_def request_runs_def Let_def split: list.splits option.splits)

interpretation dash: guarded_machine dashboard_step dashboard_input_ok dashboard_ok
  by unfold_locales (rule dashboard_step_ok)

text \<open>
  C24. A reload of the dashboard shows what it showed: whatever is added, removed and dragged, the text
  in the local storage is read back as the list of widgets on the page, none lost, none changed.
\<close>

theorem dashboard_saved:
  assumes "ok_run dashboard_step dashboard_input_ok (dashboard_start None) es"
  shows "db_widgets (dashboard_start (db_stored (foldl dashboard_step (dashboard_start None) es)))
       = db_widgets (foldl dashboard_step (dashboard_start None) es)"
proof -
  have "dashboard_ok (dashboard_start None)" by (simp add: dashboard_ok_def dashboard_start_def loadDashboardWidgets_def widget_types_def)
  from dash.run_guarded [OF this assms] show ?thesis by (simp add: dashboard_ok_def dashboard_start_def)
qed

lemma dashboard_saved_witness:
  "db_widgets (dashboard_start (db_stored (foldl dashboard_step (dashboard_start None)
     [OpenAdd True [js ''r1''], AddWidget True [js ''r1''] (js ''a''), SelectType CALENDAR_WIDGET, AddWidget True [js ''r1''] (js ''b''),
      DropOn (js ''b'') (js ''a'')])))
   = [new_widget (js ''b'') CALENDAR_WIDGET [], new_widget (js ''a'') ROUTINE_LATEST_WIDGET (js ''r1'')]"
  by (subst dashboard_saved)
     (simp_all add: dashboard_start_def loadDashboardWidgets_def openAddDialog_def addWidget_def canAddSelectedWidget_def updateWidgets_def
        drop_widget_def or_id_def reorderWidgets_def widget_is_def widget_prop_def new_widget_def obj_get_def widget_consts move_to_def Let_def
        widget_types_def)

section \<open>Facts: dragging\<close>

text \<open>
  Dropping a widget on another puts it where the other was: it is found at the index of the target,
  no widget is lost, and the others keep their order.
\<close>

theorem drop_moves_widget:
  assumes "distinct (map (\<lambda>w. widget_prop w (js ''id'')) (db_widgets s))"
    and "i < length (db_widgets s)" and "j < length (db_widgets s)" and "a \<noteq> b" and "a \<noteq> []"
    and "widget_is a (db_widgets s ! i)" and "widget_is b (db_widgets s ! j)"
  shows "db_widgets (drop_widget a b s) ! j = db_widgets s ! i
    \<and> take j (db_widgets (drop_widget a b s)) @ drop (Suc j) (db_widgets (drop_widget a b s))
       = take i (db_widgets s) @ drop (Suc i) (db_widgets s)
    \<and> mset (db_widgets (drop_widget a b s)) = mset (db_widgets s)"
proof (intro conjI)
  let ?ws = "db_widgets s" and ?id = "\<lambda>w. widget_prop w (js ''id'')"
  have "find_index (widget_is a) ?ws = Some i" "find_index (widget_is b) ?ws = Some j"
    using find_index_at [OF assms(1), of i] find_index_at [OF assms(1), of j] assms by (simp_all add: widget_is_def [abs_def])
  then have d: "db_widgets (drop_widget a b s) = move_to i j ?ws"
    using assms(4,5) by (simp add: drop_widget_def or_id_def reorderWidgets_def updateWidgets_def Let_def)
  have n: "length (take i ?ws @ drop (Suc i) ?ws) = length ?ws - 1" "j \<le> length ?ws - 1" using assms by simp_all
  then have t: "length (take j (take i ?ws @ drop (Suc i) ?ws)) = j" by (simp only: length_take min_absorb2)
  show "db_widgets (drop_widget a b s) ! j = ?ws ! i"
    unfolding d move_to_def Let_def by (metis t append_Cons nth_append_length)
  show "take j (db_widgets (drop_widget a b s)) @ drop (Suc j) (db_widgets (drop_widget a b s)) = take i ?ws @ drop (Suc i) ?ws"
  proof -
    have "take j (ys @ [x] @ zs) @ drop (Suc j) (ys @ [x] @ zs) = ys @ zs" if "length ys = j" for ys zs :: "jsval list" and x
      using that by simp
    from this [OF t] show ?thesis unfolding d move_to_def Let_def by (simp only: append_take_drop_id)
  qed
  show "mset (db_widgets (drop_widget a b s)) = mset ?ws" unfolding d by (rule move_to_mset [OF assms(2)])
qed

lemma drop_moves_widget_witness:
  "db_widgets (drop_widget (js ''a'') (js ''c'') (dashboard_start None\<lparr>db_widgets := [new_widget (js ''a'') WEATHER_WIDGET [],
     new_widget (js ''b'') WEATHER_WIDGET [], new_widget (js ''c'') WEATHER_WIDGET []]\<rparr>)) ! 2 = new_widget (js ''a'') WEATHER_WIDGET []"
  using drop_moves_widget [of "dashboard_start None\<lparr>db_widgets := [new_widget (js ''a'') WEATHER_WIDGET [],
     new_widget (js ''b'') WEATHER_WIDGET [], new_widget (js ''c'') WEATHER_WIDGET []]\<rparr>" 0 2 "js ''a''" "js ''c''"]
  by (simp add: widget_prop_def new_widget_def obj_get_def widget_is_def)

section \<open>Facts: runs\<close>

lemma latest_some: "\<exists>r. foldl (latest_step parse) (Some c) runs = Some r"
  by (induction runs arbitrary: c) (simp_all add: latest_step_def)

lemma latest_from:
  "foldl (latest_step parse) (Some c) runs = Some r \<Longrightarrow>
   \<exists>pre post. c # runs = pre @ r # post \<and> (\<forall>q\<in>set pre. getRunTime parse q < getRunTime parse r)
     \<and> (\<forall>q\<in>set post. getRunTime parse q \<le> getRunTime parse r)"
proof (induction runs arbitrary: r rule: rev_induct)
  case Nil
  then show ?case by (intro exI [of _ "[]"]) simp
next
  case (snoc q runs)
  obtain r0 where r0: "foldl (latest_step parse) (Some c) runs = Some r0"
    using latest_some [of parse c runs] by blast
  from snoc.IH [OF this] obtain pre post where p: "c # runs = pre @ r0 # post"
    "\<forall>q\<in>set pre. getRunTime parse q < getRunTime parse r0" "\<forall>q\<in>set post. getRunTime parse q \<le> getRunTime parse r0" by blast
  show ?case
  proof (cases "getRunTime parse r0 < getRunTime parse q")
    case True
    then have "r = q" using snoc.prems by (simp add: r0) (simp add: latest_step_def)
    then show ?thesis using p True by (intro exI [of _ "c # runs"] exI [of _ "[]"]) fastforce
  next
    case False
    then have "r = r0" using snoc.prems by (simp add: r0) (simp add: latest_step_def)
    then show ?thesis using p False by (intro exI [of _ pre] exI [of _ "post @ [q]"]) auto
  qed
qed

text \<open>The run a routine widget shows is the first of those that ended last.\<close>

lemma latest_run:
  "getLatestRoutineRun parse runs = Some r \<Longrightarrow>
   \<exists>pre post. runs = pre @ r # post \<and> (\<forall>q\<in>set pre. getRunTime parse q < getRunTime parse r)
     \<and> (\<forall>q\<in>set post. getRunTime parse q \<le> getRunTime parse r)"
  by (cases runs) (use latest_from in \<open>fastforce simp: getLatestRoutineRun_def latest_step_def\<close>)+

text \<open>
  A routine widget that shows a run shows one of the runs the store has for its routine, and none that
  ended later is there.
\<close>

lemma shown_run:
  assumes "routine_widget parse can st w = RunView name run body" and "widget_prop w (js ''routineId'') = JStr i"
  shows "can \<and> (\<exists>r\<in>set (items st). r_id r = i \<and> r_name r = name) \<and>
    (\<exists>runs. runsByRoutine st i = Some runs \<and> run \<in> set runs \<and> (\<forall>q\<in>set runs. getRunTime parse q \<le> getRunTime parse run))"
proof -
  let ?runs = "case runsByRoutine st i of Some runs \<Rightarrow> runs | None \<Rightarrow> []"
  obtain r where r: "can" "List.find (\<lambda>r. r_id r = i) (items st) = Some r" "r_name r = name" "getLatestRoutineRun parse ?runs = Some run"
    using assms by (auto simp: routine_widget_def RoutineLatestWidget_def split: if_splits option.splits)
  from latest_run [OF r(4)] have "run \<in> set ?runs" "\<forall>q\<in>set ?runs. getRunTime parse q \<le> getRunTime parse run" by fastforce+
  moreover from this obtain runs where "runsByRoutine st i = Some runs" by (cases "runsByRoutine st i") auto
  moreover have "\<exists>r\<in>set (items st). r_id r = i \<and> r_name r = name" using r(2,3) by (auto simp: find_Some_iff)
  ultimately show ?thesis using r(1) by simp
qed

lemma widget_ids_distinct: "distinct (widgetRoutineIds ws)"
  unfolding widgetRoutineIds_def
  by (induction ws rule: rev_induct) (auto simp: add_routine_id_def split: jsval.splits)

definition requests_once :: "dashboard \<Rightarrow> bool" where
  "requests_once s \<longleftrightarrow> distinct (db_requested s)"

lemma requested_distinct: "distinct ds \<Longrightarrow> distinct (foldl (\<lambda>done i. if i \<in> set done then done else done @ [i]) ds is)"
  by (induction "is" arbitrary: ds) auto

interpretation requests: invariant_machine dashboard_step requests_once
  by unfold_locales
     (rename_tac s e, case_tac e, auto simp: requests_once_def openAddDialog_def addWidget_def removeWidget_def drag_over_def drop_widget_def
        reorderWidgets_def updateWidgets_def request_runs_def Let_def requested_distinct split: option.splits)

text \<open>The runs of a routine are asked for at most once, whatever the user does.\<close>

lemma runs_requested_once: "distinct (db_requested (foldl dashboard_step (dashboard_start stored) es))"
  using requests.run_inv [of "dashboard_start stored" es] by (simp add: requests_once_def dashboard_start_def)

end
