(* ===== verification/Composer.thy ===== *)
theory Composer
  imports JsPrelude "HOL-Library.Multiset"
begin

text \<open>
  The field messages are written in: src/ui/web/src/components/chat/InputMessage.tsx, with its parent
  ChatInput.tsx.  The field is controlled: text, files and queue belong to the parent, which this model
  joins with the hooks of the component in one record.  Every handler and every change of the status is
  an event; after each of them the effect of the status runs.  Focus, caret and height are left out.

  \<open>toLowerCase\<close> is the one of JsPrelude: the accepted file endings are ASCII.
\<close>

section \<open>Files\<close>

record chat_file =
  cf_name :: jstr
  cf_type :: jstr
  cf_size :: nat
  cf_modified :: nat

definition DEFAULT_ACCEPT :: jstr where
  "DEFAULT_ACCEPT = js ''image/png,image/jpeg,application/pdf''"

definition acceptTokens :: "jstr \<Rightarrow> jstr list" where
  "acceptTokens accept = filter (\<lambda>t. t \<noteq> []) (map trim (split_char 44 accept))"

definition token_accepts :: "chat_file \<Rightarrow> jstr \<Rightarrow> bool" where
  "token_accepts f token =
     (if ends_with (js ''/*'') token then starts_with (butlast token) (cf_type f)
      else if starts_with [46] token then ends_with (lower token) (lower (cf_name f))
      else cf_type f = token)"

definition matchesAccept :: "jstr \<Rightarrow> chat_file \<Rightarrow> bool" where
  "matchesAccept accept f = list_ex (token_accepts f) (acceptTokens accept)"

definition fingerprint :: "chat_file \<Rightarrow> jstr" where
  "fingerprint f = cf_name f @ [45] @ nat_str (cf_size f) @ [45] @ nat_str (cf_modified f)"

text \<open>One round of the loop over the incoming files: fingerprints seen, files taken.\<close>

definition take_incoming :: "jstr \<Rightarrow> jstr list \<times> chat_file list \<Rightarrow> chat_file \<Rightarrow> jstr list \<times> chat_file list" where
  "take_incoming accept st f = (case st of (seen, accepted) \<Rightarrow>
     if \<not> matchesAccept accept f then st
     else if fingerprint f \<in> set seen then st
     else (seen @ [fingerprint f], accepted @ [f]))"

definition at_most :: "nat option \<Rightarrow> 'a list \<Rightarrow> 'a list" where
  "at_most n xs = (case n of Some k \<Rightarrow> take k xs | None \<Rightarrow> xs)"

definition add_files :: "jstr \<Rightarrow> nat option \<Rightarrow> chat_file list \<Rightarrow> chat_file list \<Rightarrow> chat_file list" where
  "add_files accept maxFiles files incoming =
     (let accepted = snd (foldl (take_incoming accept) (map fingerprint files, []) incoming)
      in if accepted = [] then files else at_most maxFiles (files @ accepted))"

section \<open>The state\<close>

text \<open>
  What the parent gives: whether it takes files and a queue, whether it can stop a run and whether it
  empties the field when a message is sent, as ChatInput does.
\<close>

record composer_props =
  cp_accept :: jstr
  cp_max_files :: "nat option"
  cp_files :: bool
  cp_queue :: bool
  cp_stop :: bool
  cp_disabled :: bool
  cp_history :: "jstr list"
  cp_clears :: bool

record queued_message =
  qm_id :: jstr
  qm_text :: jstr
  qm_files :: "chat_file list"

text \<open>A message handed to the parent: its text, its files, and its id if it comes from the queue.\<close>

record sent_message =
  sm_text :: jstr
  sm_files :: "chat_file list"
  sm_queued :: "jstr option"

record composer =
  cm_value :: jstr
  cm_files :: "chat_file list"
  cm_queue :: "queued_message list"
  cm_streaming :: bool
  cm_prev :: bool
  cm_index :: "nat option"
  cm_draft :: jstr
  cm_drag :: bool
  cm_live :: jstr
  cm_sent :: "sent_message list"
  cm_stops :: nat

definition composer_start :: composer where
  "composer_start = \<lparr>cm_value = [], cm_files = [], cm_queue = [], cm_streaming = False, cm_prev = False, cm_index = None,
     cm_draft = [], cm_drag = False, cm_live = [], cm_sent = [], cm_stops = 0\<rparr>"

text \<open>ChatInput, the parent the client has: files, no queue, no history.\<close>

definition chat_input :: "bool \<Rightarrow> bool \<Rightarrow> composer_props" where
  "chat_input stop disabled = \<lparr>cp_accept = DEFAULT_ACCEPT, cp_max_files = None, cp_files = True, cp_queue = False,
     cp_stop = stop, cp_disabled = disabled, cp_history = [], cp_clears = True\<rparr>"

section \<open>Sending\<close>

definition canSend :: "composer_props \<Rightarrow> composer \<Rightarrow> bool" where
  "canSend p s \<longleftrightarrow> \<not> cp_disabled p \<and> (trim (cm_value s) \<noteq> [] \<or> cm_files s \<noteq> [])"

text \<open>\<open>onSend\<close>: the parent passes the message on and may empty the field.\<close>

definition on_send :: "composer_props \<Rightarrow> sent_message \<Rightarrow> composer \<Rightarrow> composer" where
  "on_send p m s = (let s1 = s\<lparr>cm_sent := cm_sent s @ [m]\<rparr> in
     if cp_clears p then s1\<lparr>cm_value := [], cm_files := []\<rparr> else s1)"

definition handle_submit :: "composer_props \<Rightarrow> jstr \<Rightarrow> composer \<Rightarrow> composer" where
  "handle_submit p uuid s0 =
     (if \<not> canSend p s0 then s0
      else let s = s0\<lparr>cm_index := None\<rparr> in
        if cm_streaming s \<and> cp_queue p then
          s\<lparr>cm_queue := cm_queue s @ [\<lparr>qm_id = uuid, qm_text = trim (cm_value s), qm_files = cm_files s\<rparr>],
            cm_value := [], cm_files := (if cp_files p then [] else cm_files s)\<rparr>
        else on_send p \<lparr>sm_text = trim (cm_value s), sm_files = cm_files s, sm_queued = None\<rparr> s)"

text \<open>The effect of the status: when a run ends, the first message of the queue is sent.\<close>

definition queue_effect :: "composer_props \<Rightarrow> composer \<Rightarrow> composer" where
  "queue_effect p s0 =
     (let s = s0\<lparr>cm_prev := cm_streaming s0\<rparr> in
      if cp_queue p \<and> cm_prev s0 \<and> \<not> cm_streaming s0 then
        (case cm_queue s of
           [] \<Rightarrow> s
         | next # rest \<Rightarrow>
             (on_send p \<lparr>sm_text = qm_text next, sm_files = qm_files next, sm_queued = Some (qm_id next)\<rparr> (s\<lparr>cm_queue := rest\<rparr>))
               \<lparr>cm_live := js ''Message sent.'' @ (if rest \<noteq> [] then 32 # nat_str (length rest) @ js '' still queued.'' else [])\<rparr>)
      else s)"

datatype button_mode = SendMode | QueueMode | StopMode

definition buttonMode :: "composer_props \<Rightarrow> composer \<Rightarrow> button_mode" where
  "buttonMode p s =
     (if \<not> cm_streaming s then SendMode
      else if canSend p s \<and> cp_queue p then QueueMode
      else if cp_stop p then StopMode
      else SendMode)"

definition press_button :: "composer_props \<Rightarrow> jstr \<Rightarrow> composer \<Rightarrow> composer" where
  "press_button p uuid s =
     (if buttonMode p s = StopMode then (if cp_disabled p then s else s\<lparr>cm_stops := Suc (cm_stops s)\<rparr>)
      else handle_submit p uuid s)"

section \<open>The queue\<close>

definition editQueued :: "composer_props \<Rightarrow> queued_message \<Rightarrow> composer \<Rightarrow> composer" where
  "editQueued p item s =
     (if \<not> cp_queue p then s
      else s\<lparr>cm_index := None, cm_value := qm_text item,
        cm_files := (if cp_files p then at_most (cp_max_files p) (qm_files item) else cm_files s),
        cm_queue := filter (\<lambda>q. qm_id q \<noteq> qm_id item) (cm_queue s)\<rparr>)"

definition removeQueued :: "composer_props \<Rightarrow> queued_message \<Rightarrow> composer \<Rightarrow> composer" where
  "removeQueued p item s =
     (if \<not> cp_queue p then s else s\<lparr>cm_queue := filter (\<lambda>q. qm_id q \<noteq> qm_id item) (cm_queue s)\<rparr>)"

definition moveQueued :: "composer_props \<Rightarrow> queued_message \<Rightarrow> bool \<Rightarrow> composer \<Rightarrow> composer" where
  "moveQueued p item up s =
     (if \<not> cp_queue p then s
      else case find_index (\<lambda>q. qm_id q = qm_id item) (cm_queue s) of
        None \<Rightarrow> s
      | Some i \<Rightarrow>
          if up \<and> i = 0 \<or> \<not> up \<and> length (cm_queue s) \<le> Suc i then s
          else let j = (if up then i - 1 else Suc i) in
            s\<lparr>cm_queue := (cm_queue s)[i := cm_queue s ! j, j := cm_queue s ! i]\<rparr>)"

section \<open>Keys\<close>

datatype key = ArrowUp | ArrowDown | EnterKey | OtherKey

text \<open>A key with its modifiers (\<open>mods\<close>: alt, meta or ctrl) and the selection when it was pressed.\<close>

record key_press =
  kp_key :: key
  kp_composing :: bool
  kp_shift :: bool
  kp_mods :: bool
  kp_caret :: nat
  kp_end :: nat

definition history_up :: "composer_props \<Rightarrow> composer \<Rightarrow> composer" where
  "history_up p s =
     (let start = (case cm_index s of None \<Rightarrow> length (cp_history p) | Some i \<Rightarrow> i) in
      if start = 0 then s
      else s\<lparr>cm_draft := (if cm_index s = None then cm_value s else cm_draft s), cm_index := Some (start - 1),
             cm_value := cp_history p ! (start - 1)\<rparr>)"

definition history_down :: "composer_props \<Rightarrow> nat \<Rightarrow> composer \<Rightarrow> composer" where
  "history_down p i s =
     (if length (cp_history p) \<le> Suc i then s\<lparr>cm_index := None, cm_value := cm_draft s\<rparr>
      else s\<lparr>cm_index := Some (Suc i), cm_value := cp_history p ! Suc i\<rparr>)"

definition handleKeyDown :: "composer_props \<Rightarrow> jstr \<Rightarrow> key_press \<Rightarrow> composer \<Rightarrow> composer" where
  "handleKeyDown p uuid k s =
     (let browse = cp_history p \<noteq> [] \<and> (kp_key k = ArrowUp \<or> kp_key k = ArrowDown) \<and> \<not> kp_shift k \<and> \<not> kp_mods k;
          submit = (if kp_key k = EnterKey \<and> \<not> kp_shift k then handle_submit p uuid s else s) in
      if kp_composing k then s
      else if browse \<and> kp_key k = ArrowUp \<and> 10 \<notin> set (take (kp_caret k) (cm_value s)) then history_up p s
      else if browse \<and> kp_key k = ArrowDown \<and> 10 \<notin> set (drop (kp_end k) (cm_value s)) then
        (case cm_index s of Some i \<Rightarrow> history_down p i s | None \<Rightarrow> submit)
      else submit)"

section \<open>Steps\<close>

definition addFiles :: "composer_props \<Rightarrow> chat_file list \<Rightarrow> composer \<Rightarrow> composer" where
  "addFiles p incoming s =
     (if \<not> cp_files p then s else s\<lparr>cm_files := add_files (cp_accept p) (cp_max_files p) (cm_files s) incoming\<rparr>)"

definition removeFile :: "composer_props \<Rightarrow> nat \<Rightarrow> composer \<Rightarrow> composer" where
  "removeFile p i s = (if \<not> cp_files p then s else s\<lparr>cm_files := take i (cm_files s) @ drop (Suc i) (cm_files s)\<rparr>)"

definition handle_drag_over :: "composer_props \<Rightarrow> bool \<Rightarrow> composer \<Rightarrow> composer" where
  "handle_drag_over p has_files s = (if \<not> cp_files p \<or> cp_disabled p \<or> \<not> has_files then s else s\<lparr>cm_drag := True\<rparr>)"

definition handle_drop :: "composer_props \<Rightarrow> chat_file list \<Rightarrow> composer \<Rightarrow> composer" where
  "handle_drop p dropped s0 = (let s = s0\<lparr>cm_drag := False\<rparr> in
     if \<not> cp_files p \<or> cp_disabled p then s else addFiles p dropped s)"

datatype composer_event =
  TypeText jstr | PressKey jstr key_press | PressButton jstr | StatusIs bool
| EditQueued queued_message | RemoveQueued queued_message | MoveQueued queued_message bool | ReorderQueue "queued_message list"
| PickFiles "chat_file list" | RemoveFile nat | DragOverField bool | DragLeaveField bool | DropFiles "chat_file list"

fun composer_handler :: "composer_props \<Rightarrow> composer \<Rightarrow> composer_event \<Rightarrow> composer" where
  "composer_handler p s (TypeText t) = s\<lparr>cm_index := None, cm_value := t\<rparr>"
| "composer_handler p s (PressKey uuid k) = handleKeyDown p uuid k s"
| "composer_handler p s (PressButton uuid) = press_button p uuid s"
| "composer_handler p s (StatusIs b) = s\<lparr>cm_streaming := b\<rparr>"
| "composer_handler p s (EditQueued q) = editQueued p q s"
| "composer_handler p s (RemoveQueued q) = removeQueued p q s"
| "composer_handler p s (MoveQueued q up) = moveQueued p q up s"
| "composer_handler p s (ReorderQueue qs) = (if cp_queue p then s\<lparr>cm_queue := qs\<rparr> else s)"
| "composer_handler p s (PickFiles fs) = addFiles p fs s"
| "composer_handler p s (RemoveFile i) = removeFile p i s"
| "composer_handler p s (DragOverField has_files) = handle_drag_over p has_files s"
| "composer_handler p s (DragLeaveField inside) = (if inside then s else s\<lparr>cm_drag := False\<rparr>)"
| "composer_handler p s (DropFiles fs) = handle_drop p fs s"

definition composer_step :: "composer_props \<Rightarrow> composer \<Rightarrow> composer_event \<Rightarrow> composer" where
  "composer_step p s e = queue_effect p (composer_handler p s e)"

section \<open>Facts: files\<close>

lemma first_sep: "c \<notin> set a \<Longrightarrow> c \<notin> set b \<Longrightarrow> a @ c # x = b @ c # y \<Longrightarrow> a = b \<and> x = y"
  by (induction a arbitrary: b) (auto simp: Cons_eq_append_conv)

lemma digits_split:
  assumes "a @ 45 # n = b @ 45 # m" and "list_all is_digit n" and "list_all is_digit m"
  shows "a = b \<and> n = m"
proof -
  have no: "(45::nat) \<notin> set (rev x)" if "list_all is_digit x" for x using that by (auto simp: list_all_iff is_digit_def)
  have "rev n @ 45 # rev a = rev m @ 45 # rev b" using arg_cong [OF assms(1), of rev] by simp
  from first_sep [OF no [OF assms(2)] no [OF assms(3)] this] show ?thesis by simp
qed

text \<open>Files are told apart by name, size and time of change.\<close>

lemma fingerprint_inj:
  "fingerprint f = fingerprint g \<longleftrightarrow> cf_name f = cf_name g \<and> cf_size f = cf_size g \<and> cf_modified f = cf_modified g"
proof
  assume eq: "fingerprint f = fingerprint g"
  then have "(cf_name f @ [45] @ nat_str (cf_size f)) @ 45 # nat_str (cf_modified f) =
      (cf_name g @ [45] @ nat_str (cf_size g)) @ 45 # nat_str (cf_modified g)" by (simp add: fingerprint_def)
  from digits_split [OF this nat_str_digits nat_str_digits]
  have "cf_name f @ 45 # nat_str (cf_size f) = cf_name g @ 45 # nat_str (cf_size g)" "cf_modified f = cf_modified g" by simp_all
  with digits_split [OF this(1) nat_str_digits nat_str_digits]
  show "cf_name f = cf_name g \<and> cf_size f = cf_size g \<and> cf_modified f = cf_modified g" by simp
qed (simp add: fingerprint_def)

lemma take_incoming_all:
  "\<exists>new. foldl (take_incoming accept) (seen, acc) fs = (seen @ map fingerprint new, acc @ new) \<and>
     list_all (matchesAccept accept) new \<and> set new \<subseteq> set fs \<and> (distinct seen \<longrightarrow> distinct (seen @ map fingerprint new)) \<and>
     (\<forall>f\<in>set fs. matchesAccept accept f \<longrightarrow> fingerprint f \<in> set seen \<union> fingerprint ` set new)"
proof (induction fs arbitrary: seen acc)
  case (Cons f fs)
  show ?case
  proof (cases "matchesAccept accept f \<and> fingerprint f \<notin> set seen")
    case True
    then have f: "take_incoming accept (seen, acc) f = (seen @ [fingerprint f], acc @ [f])" by (simp add: take_incoming_def)
    obtain new where "foldl (take_incoming accept) (seen @ [fingerprint f], acc @ [f]) fs =
        (seen @ [fingerprint f] @ map fingerprint new, acc @ [f] @ new)"
      "list_all (matchesAccept accept) new" "set new \<subseteq> set fs"
      "distinct (seen @ [fingerprint f]) \<longrightarrow> distinct ((seen @ [fingerprint f]) @ map fingerprint new)"
      "\<forall>g\<in>set fs. matchesAccept accept g \<longrightarrow> fingerprint g \<in> set (seen @ [fingerprint f]) \<union> fingerprint ` set new"
      using Cons.IH [of "seen @ [fingerprint f]" "acc @ [f]"] by auto
    then show ?thesis using True by (intro exI [of _ "f # new"]) (auto simp: f)
  next
    case False
    then have f: "take_incoming accept (seen, acc) f = (seen, acc)" by (auto simp: take_incoming_def)
    from Cons.IH [of seen acc] show ?thesis using False by (auto simp: f)
  qed
qed simp

text \<open>
  Adding files keeps those that are there, adds files of accepted types only, never two of one
  fingerprint, and, without a limit, every accepted file is there afterwards.
\<close>

lemma add_files_ok:
  assumes "distinct (map fingerprint files)"
  shows "\<exists>new. add_files accept None files incoming = files @ new \<and> list_all (matchesAccept accept) new \<and> set new \<subseteq> set incoming \<and>
    distinct (map fingerprint (files @ new)) \<and>
    (\<forall>f\<in>set incoming. matchesAccept accept f \<longrightarrow> fingerprint f \<in> fingerprint ` set (files @ new))"
proof -
  obtain new where "foldl (take_incoming accept) (map fingerprint files, []) incoming = (map fingerprint files @ map fingerprint new, new)"
    "list_all (matchesAccept accept) new" "set new \<subseteq> set incoming" "distinct (map fingerprint files @ map fingerprint new)"
    "\<forall>f\<in>set incoming. matchesAccept accept f \<longrightarrow> fingerprint f \<in> set (map fingerprint files) \<union> fingerprint ` set new"
    using take_incoming_all [of accept "map fingerprint files" "[]" incoming] assms by auto
  then show ?thesis by (intro exI [of _ new]) (auto simp: add_files_def at_most_def image_Un)
qed

lemma add_files_limit: "length files \<le> n \<Longrightarrow> length (add_files accept (Some n) files incoming) \<le> n"
  by (auto simp: add_files_def at_most_def Let_def min_def)

section \<open>Facts: browsing\<close>

definition browse_key :: "key \<Rightarrow> nat \<times> nat \<Rightarrow> composer_event" where
  "browse_key k c = PressKey [] \<lparr>kp_key = k, kp_composing = False, kp_shift = False, kp_mods = False, kp_caret = fst c, kp_end = snd c\<rparr>"

definition one_line :: "composer_props \<Rightarrow> composer \<Rightarrow> bool" where
  "one_line p s \<longleftrightarrow> 10 \<notin> set (cm_value s) \<and> 10 \<notin> set (cm_draft s) \<and> list_all (\<lambda>h. 10 \<notin> set h) (cp_history p) \<and> cm_prev s = cm_streaming s"

lemma no_break: "10 \<notin> set v \<Longrightarrow> 10 \<notin> set (take n v) \<and> 10 \<notin> set (drop n (v :: jstr))"
  by (meson in_set_takeD in_set_dropD)

lemma quiet_effect: "cm_prev s = cm_streaming s \<Longrightarrow> queue_effect p s = s"
  by (simp add: queue_effect_def Let_def)

lemma up_step:
  assumes "one_line p s" and "cp_history p \<noteq> []"
  shows "composer_step p s (browse_key ArrowUp c) = history_up p s"
  using assms no_break [of "cm_value s" "fst c"]
  by (simp add: composer_step_def browse_key_def handleKeyDown_def Let_def one_line_def history_up_def quiet_effect)

lemma down_step:
  assumes "one_line p s" and "cp_history p \<noteq> []" and "cm_index s = Some i"
  shows "composer_step p s (browse_key ArrowDown c) = history_down p i s"
  using assms no_break [of "cm_value s" "snd c"]
  by (simp add: composer_step_def browse_key_def handleKeyDown_def Let_def one_line_def history_down_def quiet_effect)

lemma up_keys:
  assumes "one_line p s" and "cm_index s = None" and "length cs \<le> length (cp_history p)" and "cs \<noteq> []"
  shows "foldl (composer_step p) s (map (browse_key ArrowUp) cs) =
    s\<lparr>cm_index := Some (length (cp_history p) - length cs), cm_value := cp_history p ! (length (cp_history p) - length cs),
      cm_draft := cm_value s\<rparr>"
  using assms(3,4)
proof (induction cs rule: rev_induct)
  case (snoc c cs)
  let ?n = "length (cp_history p)" and ?k = "length (cp_history p) - length cs"
  have h: "cp_history p \<noteq> []" using snoc.prems by auto
  show ?case
  proof (cases "cs = []")
    case True
    then show ?thesis using assms(1,2) h by (simp add: up_step) (simp add: history_up_def Let_def)
  next
    case False
    let ?s = "s\<lparr>cm_index := Some ?k, cm_value := cp_history p ! ?k, cm_draft := cm_value s\<rparr>"
    have "?k < ?n" using False snoc.prems by (cases cs) auto
    then have "one_line p ?s" using assms(1) by (auto simp: one_line_def list_all_length)
    then have "composer_step p ?s (browse_key ArrowUp c) = history_up p ?s" using h by (rule up_step)
    moreover have "foldl (composer_step p) s (map (browse_key ArrowUp) cs) = ?s" using snoc False by simp
    moreover have "?k \<noteq> 0" "?k - 1 = ?n - length (cs @ [c])" using snoc.prems(1) by auto
    ultimately show ?thesis by (simp add: history_up_def Let_def)
  qed
qed simp

lemma down_keys:
  assumes "one_line p s" and "cm_index s = Some i" and "i < length (cp_history p)" and "length cs = length (cp_history p) - i"
  shows "foldl (composer_step p) s (map (browse_key ArrowDown) cs) = s\<lparr>cm_index := None, cm_value := cm_draft s\<rparr>"
  using assms
proof (induction cs arbitrary: s i)
  case (Cons c cs)
  have h: "cp_history p \<noteq> []" using Cons.prems(3) by auto
  have step: "composer_step p s (browse_key ArrowDown c) = history_down p i s" using Cons.prems(1,2) h by (simp add: down_step)
  show ?case
  proof (cases "Suc i < length (cp_history p)")
    case True
    let ?s = "s\<lparr>cm_index := Some (Suc i), cm_value := cp_history p ! Suc i\<rparr>"
    have "one_line p ?s" using Cons.prems(1) True by (auto simp: one_line_def list_all_length)
    then have "foldl (composer_step p) ?s (map (browse_key ArrowDown) cs) = ?s\<lparr>cm_index := None, cm_value := cm_draft ?s\<rparr>"
      using True Cons.prems(4) by (intro Cons.IH [of ?s "Suc i"]) auto
    then show ?thesis using True by (simp add: step history_down_def)
  next
    case False
    moreover have "Suc (length cs) = length (cp_history p) - i" using Cons.prems(4) by simp
    ultimately have "length cs = 0" using Cons.prems(3) by arith
    then have "cs = []" by simp
    then show ?thesis using False by (simp add: step history_down_def)
  qed
qed simp

text \<open>
  Browsing the messages sent before and going back the same number of steps brings back the text
  that was being written, wherever the caret was.
\<close>

theorem history_round_trip:
  assumes "one_line p s" and "cm_index s = None" and "length ups \<le> length (cp_history p)" and "length downs = length ups"
  shows "cm_value (foldl (composer_step p) s (map (browse_key ArrowUp) ups @ map (browse_key ArrowDown) downs)) = cm_value s"
proof (cases "ups = []")
  case False
  let ?i = "length (cp_history p) - length ups"
  let ?s = "s\<lparr>cm_index := Some ?i, cm_value := cp_history p ! ?i, cm_draft := cm_value s\<rparr>"
  have i: "?i < length (cp_history p)" using False assms(3) by (cases ups) auto
  then have "one_line p ?s" using assms(1) by (auto simp: one_line_def list_all_length)
  from down_keys [OF this, of ?i downs] show ?thesis using up_keys [OF assms(1,2,3) False] i assms(3,4) by simp
qed (use assms in simp)

lemma history_round_trip_witness:
  "cm_value (foldl (composer_step (chat_input True False\<lparr>cp_history := [js ''a'', js ''b'']\<rparr>)) (composer_start\<lparr>cm_value := js ''hi''\<rparr>)
     (map (browse_key ArrowUp) [(2, 2), (1, 1)] @ map (browse_key ArrowDown) [(1, 1), (1, 1)])) = js ''hi''"
  by (subst history_round_trip) (simp_all add: one_line_def chat_input_def composer_start_def)

section \<open>Facts: the queue\<close>

text \<open>The messages that went through the queue, in their order: those sent from it, then those waiting.\<close>

definition queued_sent :: "composer \<Rightarrow> (jstr \<times> jstr \<times> chat_file list) list" where
  "queued_sent s = map (\<lambda>m. (the (sm_queued m), sm_text m, sm_files m)) (filter (\<lambda>m. sm_queued m \<noteq> None) (cm_sent s))"

definition queue_line :: "composer \<Rightarrow> (jstr \<times> jstr \<times> chat_file list) list" where
  "queue_line s = queued_sent s @ map (\<lambda>q. (qm_id q, qm_text q, qm_files q)) (cm_queue s)"

fun queue_op :: "composer_event \<Rightarrow> bool" where
  "queue_op (EditQueued q) = True"
| "queue_op (RemoveQueued q) = True"
| "queue_op (MoveQueued q up) = True"
| "queue_op (ReorderQueue qs) = True"
| "queue_op e = False"

lemmas line_defs = queue_line_def queued_sent_def on_send_def Let_def

lemma line_effect [simp]: "queue_line (queue_effect p s) = queue_line s"
  by (simp add: queue_effect_def line_defs split: list.split)

lemma line_submit: "\<exists>new. queue_line (handle_submit p uuid s) = queue_line s @ new \<and> (new = [] \<or> map fst new = [uuid])"
  by (simp add: handle_submit_def line_defs)

lemma line_same:
  "queue_line (history_up p s) = queue_line s" "queue_line (history_down p i s) = queue_line s"
  "queue_line (addFiles p fs s) = queue_line s" "queue_line (removeFile p i s) = queue_line s"
  "queue_line (handle_drag_over p b s) = queue_line s" "queue_line (handle_drop p fs s) = queue_line s"
  by (simp_all add: history_up_def history_down_def addFiles_def removeFile_def handle_drag_over_def handle_drop_def line_defs)

lemma line_press: "\<exists>new. queue_line (press_button p uuid s) = queue_line s @ new \<and> (new = [] \<or> map fst new = [uuid])"
  using line_submit [of p uuid s] by (simp add: press_button_def line_defs)

lemma line_key: "\<exists>new. queue_line (handleKeyDown p uuid k s) = queue_line s @ new \<and> (new = [] \<or> map fst new = [uuid])"
  using line_submit [of p uuid s] by (auto simp: handleKeyDown_def Let_def line_same split: option.splits)

text \<open>The id an event can give to a message.\<close>

fun event_ids :: "composer_event \<Rightarrow> jstr list" where
  "event_ids (PressKey uuid k) = [uuid]"
| "event_ids (PressButton uuid) = [uuid]"
| "event_ids e = []"

lemma line_step:
  assumes "\<not> queue_op e"
  shows "\<exists>new. queue_line (composer_step p s e) = queue_line s @ new \<and> (new = [] \<or> map fst new = event_ids e)"
proof (cases e)
  case (PressKey uuid k)
  then show ?thesis using line_key by (simp add: composer_step_def)
next
  case (PressButton uuid)
  then show ?thesis using line_press by (simp add: composer_step_def)
qed (use assms in \<open>simp_all add: composer_step_def line_same, simp_all add: line_defs\<close>)

text \<open>
  C25. Messages written while a run is going on are sent in the order they were written, none lost and
  none changed: unless the queue itself is edited, the line of messages sent from the queue and
  waiting in it only grows at its end, whatever else happens.
\<close>

theorem queue_in_order:
  assumes "list_all (\<lambda>e. \<not> queue_op e) es"
  shows "\<exists>new. queue_line (foldl (composer_step p) s es) = queue_line s @ new"
  using assms
proof (induction es rule: rev_induct)
  case (snoc e es)
  then show ?case using line_step [of e p "foldl (composer_step p) s es"] by auto
qed simp

lemma run_end_sends_head:
  assumes "cp_queue p" and "cm_queue s = q # qs" and "cm_streaming s" and "cm_prev s"
  shows "let s' = composer_step p s (StatusIs False) in
    cm_sent s' = cm_sent s @ [\<lparr>sm_text = qm_text q, sm_files = qm_files q, sm_queued = Some (qm_id q)\<rparr>] \<and> cm_queue s' = qs"
  using assms by (simp add: composer_step_def queue_effect_def on_send_def Let_def)

definition queue_props :: composer_props where
  "queue_props = \<lparr>cp_accept = [], cp_max_files = None, cp_files = False, cp_queue = True, cp_stop = True, cp_disabled = False,
     cp_history = [], cp_clears = False\<rparr>"

lemma queue_in_order_witness:
  "\<exists>new. queue_line (foldl (composer_step queue_props)
      (composer_start\<lparr>cm_streaming := True, cm_prev := True, cm_queue := [\<lparr>qm_id = js ''1'', qm_text = js ''a'', qm_files = []\<rparr>]\<rparr>)
      [TypeText (js ''b''), PressButton (js ''2''), StatusIs False]) = [(js ''1'', js ''a'', [])] @ new"
  using queue_in_order [of "[TypeText (js ''b''), PressButton (js ''2''), StatusIs False]" queue_props
      "composer_start\<lparr>cm_streaming := True, cm_prev := True, cm_queue := [\<lparr>qm_id = js ''1'', qm_text = js ''a'', qm_files = []\<rparr>]\<rparr>"]
  by (simp add: queue_line_def queued_sent_def composer_start_def)

subsection \<open>No message twice\<close>

definition line_distinct :: "composer \<Rightarrow> bool" where
  "line_distinct s \<longleftrightarrow> distinct (map fst (queue_line s))"

text \<open>Ids are new, and dragging only changes the order of the queue.\<close>

fun composer_ok :: "composer \<Rightarrow> composer_event \<Rightarrow> bool" where
  "composer_ok s (PressKey uuid k) = (uuid \<notin> fst ` set (queue_line s))"
| "composer_ok s (PressButton uuid) = (uuid \<notin> fst ` set (queue_line s))"
| "composer_ok s (ReorderQueue qs) = (mset qs = mset (cm_queue s))"
| "composer_ok s e = True"

lemma line_fst: "map fst (queue_line s) = map fst (queued_sent s) @ map qm_id (cm_queue s)"
  by (simp add: queue_line_def comp_def)

lemma distinct_sub: "distinct xs \<Longrightarrow> mset ys \<subseteq># mset xs \<Longrightarrow> distinct ys"
proof -
  assume xs: "distinct xs" and "mset ys \<subseteq># mset xs"
  then obtain zs where "mset (ys @ zs) = mset xs" by (metis ex_mset mset_append subset_mset.le_iff_add)
  then have "distinct (ys @ zs)" using xs by (metis mset_eq_imp_distinct_iff)
  then show "distinct ys" by simp
qed

lemma line_rearranged:
  assumes "line_distinct s" and "queued_sent t = queued_sent s" and "mset (map qm_id (cm_queue t)) \<subseteq># mset (map qm_id (cm_queue s))"
  shows "line_distinct t"
proof -
  have "set (map qm_id (cm_queue t)) \<subseteq> set (map qm_id (cm_queue s))" using set_mset_mono [OF assms(3)] by simp
  moreover have "distinct (map qm_id (cm_queue t))"
    using assms(1,3) by (auto simp: line_distinct_def line_fst intro: distinct_sub)
  ultimately show ?thesis using assms(1,2) by (auto simp: line_distinct_def line_fst)
qed

lemma moved_mset: "mset (cm_queue (moveQueued p q up s)) = mset (cm_queue s)"
proof -
  have "mset ((cm_queue s)[i := cm_queue s ! j, j := cm_queue s ! i]) = mset (cm_queue s)"
    if "i < length (cm_queue s)" "j < length (cm_queue s)" for i j using that by (simp add: mset_swap)
  then show ?thesis by (auto simp: moveQueued_def Let_def split: option.splits dest!: find_index_nth)
qed

lemma edited_mset:
  "mset (map qm_id (cm_queue (editQueued p q s))) \<subseteq># mset (map qm_id (cm_queue s))"
  "mset (map qm_id (cm_queue (removeQueued p q s))) \<subseteq># mset (map qm_id (cm_queue s))"
  by (simp_all add: editQueued_def removeQueued_def image_mset_subseteq_mono)

lemma sent_same:
  "queued_sent (moveQueued p q up s) = queued_sent s" "queued_sent (editQueued p q s) = queued_sent s"
  "queued_sent (removeQueued p q s) = queued_sent s"
  by (auto simp: queued_sent_def moveQueued_def editQueued_def removeQueued_def Let_def split: option.splits)

lemma line_distinct_step:
  assumes "line_distinct s" and "composer_ok s e"
  shows "line_distinct (composer_step p s e)"
proof (cases "queue_op e")
  case True
  then have "queued_sent (composer_handler p s e) = queued_sent s \<and>
      mset (map qm_id (cm_queue (composer_handler p s e))) \<subseteq># mset (map qm_id (cm_queue s))"
    using assms(2) edited_mset moved_mset by (cases e) (simp_all add: sent_same, simp add: queued_sent_def)
  then have "line_distinct (composer_handler p s e)" using line_rearranged [OF assms(1)] by blast
  then show ?thesis by (simp add: composer_step_def line_distinct_def)
next
  case False
  from line_step [OF this, of p s] show ?thesis
    using assms by (cases e) (auto simp: line_distinct_def)
qed

interpretation composer: guarded_machine "composer_step p" composer_ok line_distinct
  by unfold_locales (rule line_distinct_step)

text \<open>
  C26. No message of the queue is sent twice: whatever the user does with the queue, every id is at most
  once among those sent from it and those waiting in it.
\<close>

theorem queue_sends_once:
  assumes "ok_run (composer_step p) composer_ok composer_start es"
  shows "distinct (map fst (queue_line (foldl (composer_step p) composer_start es)))"
  using composer.run_guarded [OF _ assms] by (simp add: line_distinct_def queue_line_def queued_sent_def composer_start_def)

lemma queue_sends_once_witness:
  "distinct (map fst (queue_line (foldl (composer_step queue_props) composer_start
     [StatusIs True, TypeText (js ''a''), PressButton (js ''1''), StatusIs False])))"
  by (rule queue_sends_once)
     (simp add: composer_step_def queue_effect_def press_button_def handle_submit_def buttonMode_def canSend_def on_send_def
        queue_props_def composer_start_def queue_line_def queued_sent_def Let_def trim_no_outer_ws is_ws_def)

section \<open>What goes wrong\<close>

text \<open>Opening a queued message for editing replaces the text that is being written.\<close>

lemma edit_discards_draft:
  "cp_queue p \<Longrightarrow> cm_value (editQueued p q s) = qm_text q"
  by (simp add: editQueued_def)

text \<open>
  In the chat the button only stops a run while one is going on, but the enter key still sends; and
  files are shown and let a message be sent, but the parent passes on the text alone.
\<close>

lemma enter_sends_while_running:
  assumes "cm_streaming s" and "cm_prev s" and "trim (cm_value s) \<noteq> []"
  shows "buttonMode (chat_input True False) s = StopMode \<and>
    cm_sent (composer_step (chat_input True False) s
      (PressKey u \<lparr>kp_key = EnterKey, kp_composing = False, kp_shift = False, kp_mods = False, kp_caret = c, kp_end = e\<rparr>)) =
    cm_sent s @ [\<lparr>sm_text = trim (cm_value s), sm_files = cm_files s, sm_queued = None\<rparr>]"
  using assms
  by (simp add: buttonMode_def chat_input_def composer_step_def handleKeyDown_def handle_submit_def canSend_def on_send_def queue_effect_def Let_def)

text \<open>What ChatInput makes of a message: \<open>onSend(text)\<close>.\<close>

definition chat_input_sends :: "composer \<Rightarrow> jstr list" where
  "chat_input_sends s = map sm_text (cm_sent s)"

lemma files_alone_send_nothing:
  "chat_input_sends (foldl (composer_step (chat_input True False)) composer_start
     [PickFiles [\<lparr>cf_name = js ''a.png'', cf_type = js ''image/png'', cf_size = 1, cf_modified = 0\<rparr>], PressButton u]) = [[]]"
  by (simp add: chat_input_sends_def chat_input_def composer_start_def composer_step_def addFiles_def add_files_def at_most_def
      take_incoming_def matchesAccept_def acceptTokens_def token_accepts_def DEFAULT_ACCEPT_def trim_no_outer_ws is_ws_def ends_with_def
      starts_with_def press_button_def buttonMode_def handle_submit_def canSend_def on_send_def queue_effect_def Let_def)

end
