(* ===== verification/DocumentsView.thy ===== *)
theory DocumentsView
  imports DocumentsStore HtmlText "HOL-Library.Multiset"
begin

text \<open>
  The documents page: src/ui/web/src/pages/DocumentsPage.tsx over the documents store.  The record
  joins the hooks of the page with the store; a handler is what runs up to its \<open>await\<close>, and the rest of
  it runs when the action is done (\<open>ActionDone\<close>), in any order.  After every event the effect of the
  selection runs when the open document or its object changed.  Clock readings and ids made from them
  are given with the events; \<open>toLowerCase\<close> is a parameter.
\<close>

section \<open>Pure helpers\<close>

text \<open>The width of the sidebar while it is dragged.\<close>

definition dragged_width :: "int \<Rightarrow> int \<Rightarrow> int \<Rightarrow> int" where
  "dragged_width startWidth startX clientX = max 100 (min 480 (startWidth + (clientX - startX)))"

text \<open>\<open>https://\<close> is put before an address without a protocol.\<close>

definition has_protocol :: "jstr \<Rightarrow> bool" where
  "has_protocol u \<longleftrightarrow> strip_ci (js ''http://'') u \<noteq> None \<or> strip_ci (js ''https://'') u \<noteq> None"

definition formattedUrl :: "jstr \<Rightarrow> jstr" where
  "formattedUrl u = (if has_protocol u then u else js ''https://'' @ u)"

text \<open>\<open>insertMarkdown\<close> on a text and its selection: the new text and the new caret.\<close>

definition md_replacement :: "jstr \<Rightarrow> jstr \<Rightarrow> jstr" where
  "md_replacement syn selected =
     (if selected = [] then syn
      else if starts_with [42, 42] syn \<and> ends_with [42, 42] syn then [42, 42] @ selected @ [42, 42]
      else if starts_with [42] syn \<and> ends_with [42] syn then [42] @ selected @ [42]
      else if starts_with [96] syn \<and> ends_with [96] syn then [96] @ selected @ [96]
      else if starts_with [91] syn then [91] @ selected @ js ''](url)''
      else syn @ selected)"

definition insertMarkdown :: "jstr \<Rightarrow> nat \<Rightarrow> nat \<Rightarrow> jstr \<Rightarrow> jstr \<times> nat" where
  "insertMarkdown t start end syn =
     (let r = md_replacement syn (take (end - start) (drop start t))
      in (take start t @ r @ drop end t, start + length r))"

section \<open>The state\<close>

text \<open>What is still to do when an action of the store is done.\<close>

datatype page_action =
  SaveSection bool | DropSection | SaveLink bool | DropLink | PinLink bool
| NewDoc jstr | SaveDoc | DropDoc | PinDoc bool

record doc_page =
  dp_store :: documents_state
  dp_workspace :: jstr
  dp_active :: "jstr option"
  dp_editing :: bool
  dp_search :: jstr
  dp_collapsed :: "jstr \<Rightarrow> bool"
  dp_title :: jstr
  dp_content :: jstr
  dp_section :: "jstr option"
  dp_sec_dialog :: bool
  dp_sec_name :: jstr
  dp_sec_target :: "jstr option"
  dp_link_dialog :: bool
  dp_lk_title :: jstr
  dp_lk_url :: jstr
  dp_lk_desc :: jstr
  dp_lk_section :: "jstr option"
  dp_lk_target :: "jstr option"
  dp_pending :: "page_action list"
  dp_toasts :: "jstr list"
  dp_touched :: bool

definition workspaceDocs :: "doc_page \<Rightarrow> document list" where
  "workspaceDocs s = filter (\<lambda>d. d_workspaceId d = dp_workspace s) (documents (dp_store s))"

definition workspaceSecs :: "doc_page \<Rightarrow> doc_section list" where
  "workspaceSecs s = filter (\<lambda>c. s_workspaceId c = dp_workspace s) (sections (dp_store s))"

definition workspaceLinks :: "doc_page \<Rightarrow> ext_link list" where
  "workspaceLinks s = filter (\<lambda>l. l_workspaceId l = dp_workspace s) (links (dp_store s))"

definition selectedDoc :: "doc_page \<Rightarrow> document option" where
  "selectedDoc s = (case dp_active s of None \<Rightarrow> None | Some i \<Rightarrow> List.find (\<lambda>d. d_id d = i) (workspaceDocs s))"

definition say :: "jstr \<Rightarrow> doc_page \<Rightarrow> doc_page" where
  "say t s = s\<lparr>dp_toasts := dp_toasts s @ [t]\<rparr>"

definition pend :: "page_action \<Rightarrow> doc_page \<Rightarrow> doc_page" where
  "pend a s = s\<lparr>dp_pending := dp_pending s @ [a]\<rparr>"

section \<open>The store below the page\<close>

text \<open>Whether an event of the store replaces the object of a document: updates copy it, loading reads all anew.\<close>

fun replaces :: "documents_state \<Rightarrow> documents_event \<Rightarrow> document \<Rightarrow> bool" where
  "replaces st (UpdateDocument stamp i u) d = (d_id d = i)"
| "replaces st (DeleteSection stamp i) d = (d_sectionId d = Some i)"
| "replaces st (Commit today) d =
     (case db_queue st of
        (r, Some k) # q \<Rightarrow>
          k < length (loaders st) \<and>
          (case loaders st ! k of
             AwaitLinks docs secs \<Rightarrow> docs \<noteq> [] \<or> secs \<noteq> [] \<or> store_all (db_links (apply_request (doc_db st) r)) \<noteq> []
           | Seeding ws day \<Rightarrow> ws = []
           | _ \<Rightarrow> False)
      | _ \<Rightarrow> False)"
| "replaces st e d = False"

definition store_do :: "documents_event \<Rightarrow> doc_page \<Rightarrow> doc_page" where
  "store_do e s = s\<lparr>dp_store := documents_step (dp_store s) e,
     dp_touched := (dp_touched s \<or> (case selectedDoc s of Some d \<Rightarrow> replaces (dp_store s) e d | None \<Rightarrow> False))\<rparr>"

text \<open>The effect of the selection: fill the fields from the open document, or end editing.\<close>

definition selection_effect :: "doc_page \<Rightarrow> doc_page" where
  "selection_effect s = (case selectedDoc s of
     Some d \<Rightarrow> s\<lparr>dp_title := d_title d, dp_content := d_content d, dp_section := d_sectionId d\<rparr>
   | None \<Rightarrow> s\<lparr>dp_editing := False\<rparr>)"

section \<open>Handlers\<close>

definition toggleSection :: "jstr \<Rightarrow> doc_page \<Rightarrow> doc_page" where
  "toggleSection i s = s\<lparr>dp_collapsed := (dp_collapsed s)(i := \<not> dp_collapsed s i)\<rparr>"

definition handleCreateSection :: "nat \<Rightarrow> doc_page \<Rightarrow> doc_page" where
  "handleCreateSection now s =
     (let name = trim (dp_sec_name s) in
      if name = [] then s
      else case dp_sec_target s of
        Some i \<Rightarrow> pend (SaveSection True) (store_do (UpdateSection i name) s)
      | None \<Rightarrow> pend (SaveSection False) (store_do (CreateSection now (dp_workspace s) name) s))"

definition handleDeleteSection :: "bool \<Rightarrow> jstr \<Rightarrow> jstr \<Rightarrow> doc_page \<Rightarrow> doc_page" where
  "handleDeleteSection yes stamp i s = (if \<not> yes then s else pend DropSection (store_do (DeleteSection stamp i) s))"

definition handleOpenAddLink :: "doc_page \<Rightarrow> doc_page" where
  "handleOpenAddLink s = s\<lparr>dp_lk_target := None, dp_lk_title := [], dp_lk_url := [], dp_lk_desc := [], dp_lk_section := None,
     dp_link_dialog := True\<rparr>"

definition handleOpenEditLink :: "ext_link \<Rightarrow> doc_page \<Rightarrow> doc_page" where
  "handleOpenEditLink l s = s\<lparr>dp_lk_target := Some (l_id l), dp_lk_title := l_title l, dp_lk_url := l_url l,
     dp_lk_desc := given (l_description l) [], dp_lk_section := l_sectionId l, dp_link_dialog := True\<rparr>"

definition handleSaveLink :: "nat \<Rightarrow> doc_page \<Rightarrow> doc_page" where
  "handleSaveLink now s =
     (let title = trim (dp_lk_title s); url = trim (dp_lk_url s);
          desc = (if trim (dp_lk_desc s) = [] then None else Some (trim (dp_lk_desc s))) in
      if title = [] \<or> url = [] then say (js ''Title and URL are required'') s
      else case dp_lk_target s of
        Some i \<Rightarrow> pend (SaveLink True) (store_do (UpdateLink i \<lparr>lu_title = Some title, lu_url = Some (formattedUrl url),
            lu_description = Some desc, lu_sectionId = Some (dp_lk_section s), lu_isPinned = None\<rparr>) s)
      | None \<Rightarrow> pend (SaveLink False)
          (store_do (CreateLink now (dp_workspace s) title (formattedUrl url) desc (dp_lk_section s)) s))"

definition handleDeleteLink :: "bool \<Rightarrow> jstr \<Rightarrow> doc_page \<Rightarrow> doc_page" where
  "handleDeleteLink yes i s = (if \<not> yes then s else pend DropLink (store_do (DeleteLink i) s))"

definition handleTogglePinLink :: "ext_link \<Rightarrow> doc_page \<Rightarrow> doc_page" where
  "handleTogglePinLink l s = pend (PinLink (l_isPinned l)) (store_do (UpdateLink (l_id l) \<lparr>lu_title = None, lu_url = None,
     lu_description = None, lu_sectionId = None, lu_isPinned = Some (\<not> l_isPinned l)\<rparr>) s)"

definition new_doc_text :: jstr where
  "new_doc_text = js ''Start writing your content here in markdown...'' @ [10, 10]
     @ js ''Use headings, lists, tables, and code blocks.''"

definition handleCreateNewDoc :: "nat \<Rightarrow> jstr \<Rightarrow> jstr \<Rightarrow> doc_page \<Rightarrow> doc_page" where
  "handleCreateNewDoc now created updated s =
     pend (NewDoc (generated_id (js ''doc-'') now))
       (store_do (CreateDocument now created updated (dp_workspace s) (js ''Untitled Document'') new_doc_text None) s)"

definition handleSaveDoc :: "jstr \<Rightarrow> doc_page \<Rightarrow> doc_page" where
  "handleSaveDoc stamp s =
     (let title = (if trim (dp_title s) \<noteq> [] then trim (dp_title s) else js ''Untitled Document'') in
      case dp_active s of
        None \<Rightarrow> s
      | Some i \<Rightarrow> pend SaveDoc (store_do (UpdateDocument stamp i \<lparr>du_title = Some title, du_content = Some (dp_content s),
          du_sectionId = Some (dp_section s), du_isPinned = None\<rparr>) s))"

definition handleDeleteDoc :: "bool \<Rightarrow> doc_page \<Rightarrow> doc_page" where
  "handleDeleteDoc yes s = (case (dp_active s, selectedDoc s) of
     (Some i, Some d) \<Rightarrow> if \<not> yes then s else pend DropDoc (store_do (DeleteDocument i) s)
   | _ \<Rightarrow> s)"

definition handleTogglePinDoc :: "jstr \<Rightarrow> doc_page \<Rightarrow> doc_page" where
  "handleTogglePinDoc stamp s = (case (dp_active s, selectedDoc s) of
     (Some i, Some d) \<Rightarrow> pend (PinDoc (d_isPinned d)) (store_do (UpdateDocument stamp i \<lparr>du_title = None, du_content = None,
         du_sectionId = None, du_isPinned = Some (\<not> d_isPinned d)\<rparr>) s)
   | _ \<Rightarrow> s)"

text \<open>The rest of a handler, when the action has succeeded or failed.\<close>

fun action_done :: "page_action \<Rightarrow> bool \<Rightarrow> doc_page \<Rightarrow> doc_page" where
  "action_done (SaveSection renamed) ok s =
     (if ok then (say (if renamed then js ''Section renamed'' else js ''Section created'') s)
        \<lparr>dp_sec_name := [], dp_sec_target := None, dp_sec_dialog := False\<rparr>
      else say (js ''Failed to save section'') s)"
| "action_done DropSection ok s = say (if ok then js ''Section deleted'' else js ''Failed to delete section'') s"
| "action_done (SaveLink updated) ok s =
     (if ok then (say (if updated then js ''Link updated'' else js ''Link added'') s)
        \<lparr>dp_link_dialog := False, dp_lk_title := [], dp_lk_url := [], dp_lk_desc := [], dp_lk_target := None\<rparr>
      else say (js ''Failed to save link'') s)"
| "action_done DropLink ok s = say (if ok then js ''Link removed'' else js ''Failed to delete link'') s"
| "action_done (PinLink pinned) ok s =
     say (if \<not> ok then js ''Error updating pin state'' else if pinned then js ''Link unpinned'' else js ''Link pinned'') s"
| "action_done (NewDoc i) ok s =
     (if ok then (say (js ''Document created'') s)\<lparr>dp_active := Some i, dp_editing := True\<rparr>
      else say (js ''Failed to create document'') s)"
| "action_done SaveDoc ok s =
     (if ok then (say (js ''Document saved'') s)\<lparr>dp_editing := False\<rparr> else say (js ''Failed to save document'') s)"
| "action_done DropDoc ok s =
     (if ok then (say (js ''Document deleted'') s)\<lparr>dp_active := None\<rparr> else say (js ''Failed to delete document'') s)"
| "action_done (PinDoc pinned) ok s =
     say (if \<not> ok then js ''Error updating pin state'' else if pinned then js ''Document unpinned'' else js ''Document pinned'') s"

datatype docs_page_event =
  SwitchWorkspace jstr | OpenDoc jstr | ShowHub | StartEdit | CancelEdit | EditFields jstr jstr "jstr option"
| InsertSyntax nat nat jstr | SearchFor jstr | ToggleSection jstr
| OpenSectionDialog "doc_section option" | SectionName jstr | CloseSectionDialog | SubmitSection nat | RemoveSection bool jstr jstr
| OpenAddLink | OpenEditLink ext_link | LinkFields jstr jstr jstr "jstr option" | CloseLinkDialog | SubmitLink nat
| RemoveLink bool jstr | TogglePinLink ext_link
| CreateDoc nat jstr jstr | SubmitDoc jstr | RemoveDoc bool | TogglePinDoc jstr
| ActionDone nat bool | StoreWorks documents_event

fun docs_page_handler :: "doc_page \<Rightarrow> docs_page_event \<Rightarrow> doc_page" where
  "docs_page_handler s (SwitchWorkspace w) = (if w = dp_workspace s then s else s\<lparr>dp_workspace := w, dp_active := None, dp_editing := False\<rparr>)"
| "docs_page_handler s (OpenDoc i) = s\<lparr>dp_active := Some i, dp_editing := False\<rparr>"
| "docs_page_handler s ShowHub = s\<lparr>dp_active := None, dp_editing := False\<rparr>"
| "docs_page_handler s StartEdit = s\<lparr>dp_editing := True\<rparr>"
| "docs_page_handler s CancelEdit = s\<lparr>dp_editing := False\<rparr>"
| "docs_page_handler s (EditFields t c sec) = s\<lparr>dp_title := t, dp_content := c, dp_section := sec\<rparr>"
| "docs_page_handler s (InsertSyntax a b syn) = s\<lparr>dp_content := fst (insertMarkdown (dp_content s) a b syn)\<rparr>"
| "docs_page_handler s (SearchFor q) = s\<lparr>dp_search := q\<rparr>"
| "docs_page_handler s (ToggleSection i) = toggleSection i s"
| "docs_page_handler s (OpenSectionDialog c) =
     s\<lparr>dp_sec_target := map_option s_id c, dp_sec_name := (case c of Some x \<Rightarrow> s_name x | None \<Rightarrow> []), dp_sec_dialog := True\<rparr>"
| "docs_page_handler s (SectionName n) = s\<lparr>dp_sec_name := n\<rparr>"
| "docs_page_handler s CloseSectionDialog = s\<lparr>dp_sec_dialog := False\<rparr>"
| "docs_page_handler s (SubmitSection now) = handleCreateSection now s"
| "docs_page_handler s (RemoveSection yes stamp i) = handleDeleteSection yes stamp i s"
| "docs_page_handler s OpenAddLink = handleOpenAddLink s"
| "docs_page_handler s (OpenEditLink l) = handleOpenEditLink l s"
| "docs_page_handler s (LinkFields t u d sec) = s\<lparr>dp_lk_title := t, dp_lk_url := u, dp_lk_desc := d, dp_lk_section := sec\<rparr>"
| "docs_page_handler s CloseLinkDialog = s\<lparr>dp_link_dialog := False\<rparr>"
| "docs_page_handler s (SubmitLink now) = handleSaveLink now s"
| "docs_page_handler s (RemoveLink yes i) = handleDeleteLink yes i s"
| "docs_page_handler s (TogglePinLink l) = handleTogglePinLink l s"
| "docs_page_handler s (CreateDoc now created updated) = handleCreateNewDoc now created updated s"
| "docs_page_handler s (SubmitDoc stamp) = handleSaveDoc stamp s"
| "docs_page_handler s (RemoveDoc yes) = handleDeleteDoc yes s"
| "docs_page_handler s (TogglePinDoc stamp) = handleTogglePinDoc stamp s"
| "docs_page_handler s (ActionDone n ok) =
     (if n < length (dp_pending s) then
        action_done (dp_pending s ! n) ok (s\<lparr>dp_pending := take n (dp_pending s) @ drop (Suc n) (dp_pending s)\<rparr>)
      else s)"
| "docs_page_handler s (StoreWorks e) = store_do e s"

definition docs_page_step :: "doc_page \<Rightarrow> docs_page_event \<Rightarrow> doc_page" where
  "docs_page_step s e =
     (let t = docs_page_handler (s\<lparr>dp_touched := False\<rparr>) e in
      if dp_touched t \<or> dp_active t \<noteq> dp_active s \<or> selectedDoc t \<noteq> selectedDoc s then selection_effect t else t)"

section \<open>What the page lists\<close>

definition filteredDocs :: "(jstr \<Rightarrow> jstr) \<Rightarrow> doc_page \<Rightarrow> document list" where
  "filteredDocs lc s = filter (\<lambda>d. includes_str (lc (dp_search s)) (lc (d_title d)) \<or> includes_str (lc (dp_search s)) (lc (d_content d)))
     (workspaceDocs s)"

definition filteredLinks :: "(jstr \<Rightarrow> jstr) \<Rightarrow> doc_page \<Rightarrow> ext_link list" where
  "filteredLinks lc s = filter (\<lambda>l. includes_str (lc (dp_search s)) (lc (l_title l))
       \<or> (case l_description l of Some d \<Rightarrow> d \<noteq> [] \<and> includes_str (lc (dp_search s)) (lc d) | None \<Rightarrow> False)
       \<or> includes_str (lc (dp_search s)) (lc (l_url l)))
     (workspaceLinks s)"

definition getSectionItems :: "jstr option \<Rightarrow> doc_page \<Rightarrow> document list \<times> ext_link list" where
  "getSectionItems sec s = (filter (\<lambda>d. d_sectionId d = sec) (workspaceDocs s), filter (\<lambda>l. l_sectionId l = sec) (workspaceLinks s))"

text \<open>
  The sidebar: for each section the number of its items, and the items unless the section is collapsed;
  then the items of no section, if there are any.
\<close>

record side_group =
  sg_section :: "doc_section option"
  sg_count :: nat
  sg_docs :: "document list"
  sg_links :: "ext_link list"

definition side_section :: "doc_page \<Rightarrow> doc_section \<Rightarrow> side_group" where
  "side_section s sec =
     (let isCollapsed = dp_collapsed s (s_id sec);
          secDocs = filter (\<lambda>d. d_sectionId d = Some (s_id sec)) (workspaceDocs s);
          secLinks = filter (\<lambda>l. l_sectionId l = Some (s_id sec)) (workspaceLinks s)
      in \<lparr>sg_section = Some sec, sg_count = length secDocs + length secLinks,
           sg_docs = (if \<not> isCollapsed then secDocs else []), sg_links = (if \<not> isCollapsed then secLinks else [])\<rparr>)"

definition uncategorized :: "doc_page \<Rightarrow> side_group list" where
  "uncategorized s =
     (let uncDocs = filter (\<lambda>d. d_sectionId d = None) (workspaceDocs s);
          uncLinks = filter (\<lambda>l. l_sectionId l = None) (workspaceLinks s)
      in if uncDocs = [] \<and> uncLinks = [] then []
         else [\<lparr>sg_section = None, sg_count = length uncDocs + length uncLinks, sg_docs = uncDocs, sg_links = uncLinks\<rparr>])"

definition sidebar :: "doc_page \<Rightarrow> side_group list" where
  "sidebar s = map (side_section s) (workspaceSecs s) @ uncategorized s"

section \<open>Facts: the page and its store\<close>

text \<open>The one event of the store that an event of the page causes.\<close>

definition page_event_store :: "doc_page \<Rightarrow> docs_page_event \<Rightarrow> documents_event list" where
  "page_event_store s e = (case e of
     SubmitSection now \<Rightarrow>
       (if trim (dp_sec_name s) = [] then []
        else case dp_sec_target s of Some i \<Rightarrow> [UpdateSection i (trim (dp_sec_name s))]
          | None \<Rightarrow> [CreateSection now (dp_workspace s) (trim (dp_sec_name s))])
   | RemoveSection yes stamp i \<Rightarrow> if yes then [DeleteSection stamp i] else []
   | SubmitLink now \<Rightarrow>
       (let title = trim (dp_lk_title s); url = trim (dp_lk_url s);
            desc = (if trim (dp_lk_desc s) = [] then None else Some (trim (dp_lk_desc s))) in
        if title = [] \<or> url = [] then []
        else case dp_lk_target s of
          Some i \<Rightarrow> [UpdateLink i \<lparr>lu_title = Some title, lu_url = Some (formattedUrl url), lu_description = Some desc,
              lu_sectionId = Some (dp_lk_section s), lu_isPinned = None\<rparr>]
        | None \<Rightarrow> [CreateLink now (dp_workspace s) title (formattedUrl url) desc (dp_lk_section s)])
   | RemoveLink yes i \<Rightarrow> if yes then [DeleteLink i] else []
   | TogglePinLink l \<Rightarrow> [UpdateLink (l_id l) \<lparr>lu_title = None, lu_url = None, lu_description = None, lu_sectionId = None,
        lu_isPinned = Some (\<not> l_isPinned l)\<rparr>]
   | CreateDoc now created updated \<Rightarrow>
       [CreateDocument now created updated (dp_workspace s) (js ''Untitled Document'') new_doc_text None]
   | SubmitDoc stamp \<Rightarrow> (case dp_active s of None \<Rightarrow> []
       | Some i \<Rightarrow> [UpdateDocument stamp i \<lparr>du_title = Some (if trim (dp_title s) \<noteq> [] then trim (dp_title s) else js ''Untitled Document''),
           du_content = Some (dp_content s), du_sectionId = Some (dp_section s), du_isPinned = None\<rparr>])
   | RemoveDoc yes \<Rightarrow> (case (dp_active s, selectedDoc s) of (Some i, Some d) \<Rightarrow> if yes then [DeleteDocument i] else [] | _ \<Rightarrow> [])
   | TogglePinDoc stamp \<Rightarrow> (case (dp_active s, selectedDoc s) of
       (Some i, Some d) \<Rightarrow> [UpdateDocument stamp i \<lparr>du_title = None, du_content = None, du_sectionId = None,
         du_isPinned = Some (\<not> d_isPinned d)\<rparr>] | _ \<Rightarrow> [])
   | StoreWorks ev \<Rightarrow> [ev]
   | _ \<Rightarrow> [])"

lemmas docs_page_defs = store_do_def say_def pend_def handleCreateSection_def handleDeleteSection_def handleOpenAddLink_def
  handleOpenEditLink_def handleSaveLink_def handleDeleteLink_def handleTogglePinLink_def handleCreateNewDoc_def handleSaveDoc_def
  handleDeleteDoc_def handleTogglePinDoc_def toggleSection_def

lemma selected_untouched [simp]: "selectedDoc (s\<lparr>dp_touched := b\<rparr>) = selectedDoc s"
  by (simp add: selectedDoc_def workspaceDocs_def split: option.split)

lemma selected_fields [simp]:
  "selectedDoc (s\<lparr>dp_title := x\<rparr>) = selectedDoc s" "selectedDoc (s\<lparr>dp_content := x\<rparr>) = selectedDoc s"
  "selectedDoc (s\<lparr>dp_section := sec\<rparr>) = selectedDoc s" "selectedDoc (s\<lparr>dp_editing := b\<rparr>) = selectedDoc s"
  "selectedDoc (s\<lparr>dp_pending := p\<rparr>) = selectedDoc s"
  by (simp_all add: selectedDoc_def workspaceDocs_def split: option.split)

lemma effect_store [simp]:
  "dp_store (selection_effect s) = dp_store s" "dp_workspace (selection_effect s) = dp_workspace s"
  by (simp_all add: selection_effect_def split: option.split)

lemma done_store [simp]: "dp_store (action_done a ok s) = dp_store s" "dp_workspace (action_done a ok s) = dp_workspace s"
  by (cases a; simp add: say_def)+

lemma page_store: "dp_store (docs_page_step s e) = foldl documents_step (dp_store s) (page_event_store s e)"
proof -
  have "dp_store (docs_page_handler (s\<lparr>dp_touched := False\<rparr>) e) = foldl documents_step (dp_store s) (page_event_store s e)"
    by (cases e) (simp_all add: docs_page_defs page_event_store_def Let_def split: option.split)
  then show ?thesis by (simp add: docs_page_step_def Let_def)
qed

lemma page_workspace: "dp_workspace (docs_page_step s e) = (case e of SwitchWorkspace w \<Rightarrow> w | _ \<Rightarrow> dp_workspace s)"
proof -
  have "dp_workspace (docs_page_handler (s\<lparr>dp_touched := False\<rparr>) e) = (case e of SwitchWorkspace w \<Rightarrow> w | _ \<Rightarrow> dp_workspace s)"
    by (cases e) (simp_all add: docs_page_defs Let_def split: option.split)
  then show ?thesis by (simp add: docs_page_step_def Let_def)
qed

section \<open>Facts: every item has its section\<close>

definition sec_ok :: "documents_state \<Rightarrow> jstr \<Rightarrow> jstr option \<Rightarrow> bool" where
  "sec_ok st w sec \<longleftrightarrow> (case sec of None \<Rightarrow> True | Some i \<Rightarrow> \<exists>c\<in>set (sections st). s_workspaceId c = w \<and> s_id c = i)"

definition filed :: "documents_state \<Rightarrow> bool" where
  "filed st \<longleftrightarrow> synced st \<and> (\<forall>d\<in>set (documents st). sec_ok st (d_workspaceId d) (d_sectionId d)) \<and>
     (\<forall>l\<in>set (links st). sec_ok st (l_workspaceId l) (l_sectionId l))"

fun filed_ok :: "documents_state \<Rightarrow> documents_event \<Rightarrow> bool" where
  "filed_ok st (CreateDocument now created updated w title content sec) =
     (documents_ok st (CreateDocument now created updated w title content sec) \<and> sec_ok st w sec)"
| "filed_ok st (CreateLink now w title url desc sec) = (documents_ok st (CreateLink now w title url desc sec) \<and> sec_ok st w sec)"
| "filed_ok st (UpdateDocument stamp i u) =
     (\<forall>d\<in>set (documents st). d_id d = i \<longrightarrow> sec_ok st (d_workspaceId d) (given (du_sectionId u) (d_sectionId d)))"
| "filed_ok st (UpdateLink i u) =
     (\<forall>l\<in>set (links st). l_id l = i \<longrightarrow> sec_ok st (l_workspaceId l) (given (lu_sectionId u) (l_sectionId l)))"
| "filed_ok st e = documents_ok st e"

lemma filed_synced_step: "synced st \<Longrightarrow> filed_ok st e \<Longrightarrow> synced (documents_step st e)"
  by (rule step_synced) (cases e; simp)+

lemma sec_ok_mono:
  "sec_ok st w sec \<Longrightarrow> (\<And>c. c \<in> set (sections st) \<Longrightarrow> Some (s_id c) = sec \<Longrightarrow>
     \<exists>c'\<in>set (sections st'). s_workspaceId c' = s_workspaceId c \<and> s_id c' = s_id c) \<Longrightarrow> sec_ok st' w sec"
  by (auto simp: sec_ok_def split: option.splits)

lemma sec_ok_same: "sections st' = sections st \<Longrightarrow> sec_ok st' w sec = sec_ok st w sec"
  by (simp add: sec_ok_def split: option.split)

lemma filed_step:
  assumes "filed st" and "filed_ok st e"
  shows "filed (documents_step st e)"
proof -
  let ?t = "documents_step st e"
  have s: "synced st" and d: "\<forall>d\<in>set (documents st). sec_ok st (d_workspaceId d) (d_sectionId d)"
    and l: "\<forall>l\<in>set (links st). sec_ok st (l_workspaceId l) (l_sectionId l)" using assms(1) by (simp_all add: filed_def)
  have same: "sections ?t = sections st \<Longrightarrow> sec_ok ?t = sec_ok st" by (intro ext) (rule sec_ok_same)
  have "(\<forall>d\<in>set (documents ?t). sec_ok ?t (d_workspaceId d) (d_sectionId d)) \<and>
      (\<forall>l\<in>set (links ?t). sec_ok ?t (l_workspaceId l) (l_sectionId l))"
  proof (cases e)
    case (Commit today)
    have "documents ?t = documents st \<and> sections ?t = sections st \<and> links ?t = links st"
      using flushed_commit [of st today] s Commit by (auto simp: synced_def)
    then show ?thesis using d l by (simp add: sec_ok_same [of ?t st])
  next
    case (CreateSection now w name)
    have "sec_ok ?t w' sec" if "sec_ok st w' sec" for w' sec
      using that by (rule sec_ok_mono) (auto simp: CreateSection createSection_def Let_def)
    then show ?thesis using d l by (simp add: CreateSection createSection_def Let_def)
  next
    case (UpdateSection i name)
    have "sec_ok ?t w' sec" if "sec_ok st w' sec" for w' sec
      using that
    proof (rule sec_ok_mono)
      fix c assume "c \<in> set (sections st)"
      then show "\<exists>c'\<in>set (sections ?t). s_workspaceId c' = s_workspaceId c \<and> s_id c' = s_id c"
        by (intro bexI [of _ "if s_id c = i then c\<lparr>s_name := name\<rparr> else c"]) (auto simp: UpdateSection updateSection_def)
    qed
    then show ?thesis using d l by (simp add: UpdateSection updateSection_def)
  next
    case (DeleteSection stamp i)
    have "sec_ok ?t w' sec" if "sec_ok st w' sec" "sec \<noteq> Some i" for w' sec
      using that by (intro sec_ok_mono [OF that(1)]) (auto simp: DeleteSection deleteSection_def Let_def)
    moreover have "sec_ok ?t w' None" for w' by (simp add: sec_ok_def)
    ultimately show ?thesis using d l by (auto simp: DeleteSection deleteSection_def Let_def)
  next
    case (UpdateDocument stamp i u)
    then have "sec_ok ?t = sec_ok st" by (intro same) (simp add: updateDocument_def)
    then show ?thesis using d l assms(2) by (auto simp: UpdateDocument updateDocument_def update_document_def)
  next
    case (UpdateLink i u)
    then have "sec_ok ?t = sec_ok st" by (intro same) (simp add: updateLink_def)
    then show ?thesis using d l assms(2) by (auto simp: UpdateLink updateLink_def update_link_def)
  next
    case (CreateDocument now created updated w title content sec)
    then have "sec_ok ?t = sec_ok st" by (intro same) (simp add: createDocument_def Let_def)
    then show ?thesis using d l assms(2) by (auto simp: CreateDocument createDocument_def Let_def)
  next
    case (DeleteDocument i)
    then have "sec_ok ?t = sec_ok st" by (intro same) (simp add: deleteDocument_def)
    then show ?thesis using d l by (simp add: DeleteDocument deleteDocument_def)
  next
    case (CreateLink now w title url desc sec)
    then have "sec_ok ?t = sec_ok st" by (intro same) (simp add: createLink_def Let_def)
    then show ?thesis using d l assms(2) by (auto simp: CreateLink createLink_def Let_def)
  next
    case (DeleteLink i)
    then have "sec_ok ?t = sec_ok st" by (intro same) (simp add: deleteLink_def)
    then show ?thesis using d l by (simp add: DeleteLink deleteLink_def)
  qed (use assms(2) in simp_all)
  then show ?thesis using filed_synced_step [OF s assms(2)] by (simp add: filed_def)
qed

text \<open>
  What the page takes care of and what it does not: an id made from the clock is new, a link is edited
  in the workspace that is open, and the section chosen for a document or a link still exists when it
  is saved.
\<close>

fun page_ok :: "doc_page \<Rightarrow> docs_page_event \<Rightarrow> bool" where
  "page_ok s (SubmitSection now) =
     (dp_sec_target s = None \<longrightarrow> generated_id (js ''sec-'') now \<notin> s_id ` set (sections (dp_store s)))"
| "page_ok s (CreateDoc now created updated) = (generated_id (js ''doc-'') now \<notin> d_id ` set (documents (dp_store s)))"
| "page_ok s (SubmitDoc stamp) =
     (dp_active s \<noteq> None \<longrightarrow> selectedDoc s \<noteq> None \<and> sec_ok (dp_store s) (dp_workspace s) (dp_section s))"
| "page_ok s (SubmitLink now) =
     (sec_ok (dp_store s) (dp_workspace s) (dp_lk_section s) \<and>
      (case dp_lk_target s of
         None \<Rightarrow> generated_id (js ''lnk-'') now \<notin> l_id ` set (links (dp_store s))
       | Some i \<Rightarrow> \<forall>l\<in>set (links (dp_store s)). l_id l = i \<longrightarrow> l_workspaceId l = dp_workspace s))"
| "page_ok s (StoreWorks e) = (case e of Commit today \<Rightarrow> True | _ \<Rightarrow> False)"
| "page_ok s e = True"

lemma selected_unique:
  assumes "synced (dp_store s)" and "selectedDoc s = Some d0" and "dp_active s = Some i"
    and "d \<in> set (documents (dp_store s))" and "d_id d = i"
  shows "d_workspaceId d = dp_workspace s"
proof -
  have d0: "d0 \<in> set (documents (dp_store s))" "d_workspaceId d0 = dp_workspace s" "d_id d0 = i"
    using assms(2,3) by (auto simp: selectedDoc_def workspaceDocs_def find_Some_iff dest!: nth_mem)
  have "d0 = d" using syncedD(1) [OF assms(1)] d0 assms(4,5) by (metis distinct_map inj_onD)
  then show ?thesis using d0 by simp
qed

lemma page_filed:
  assumes "filed (dp_store s)" and "page_ok s e"
  shows "filed (dp_store (docs_page_step s e))"
proof -
  have f: "synced (dp_store s)" "\<And>d. d \<in> set (documents (dp_store s)) \<Longrightarrow> sec_ok (dp_store s) (d_workspaceId d) (d_sectionId d)"
    "\<And>l. l \<in> set (links (dp_store s)) \<Longrightarrow> sec_ok (dp_store s) (l_workspaceId l) (l_sectionId l)"
    using assms(1) by (simp_all add: filed_def)
  have "list_all (filed_ok (dp_store s)) (page_event_store s e)"
  proof (cases e)
    case (SubmitDoc stamp)
    show ?thesis
    proof (cases "dp_active s")
      case (Some i)
      then obtain d0 where "selectedDoc s = Some d0" using assms(2) SubmitDoc by auto
      from selected_unique [OF f(1) this Some] have "d_workspaceId d = dp_workspace s"
        if "d \<in> set (documents (dp_store s))" "d_id d = i" for d using that .
      then show ?thesis using assms(2) SubmitDoc Some by (simp add: page_event_store_def given_def)
    qed (simp add: SubmitDoc page_event_store_def)
  next
    case (SubmitLink now)
    then show ?thesis using assms(2) by (auto simp: page_event_store_def given_def Let_def split: option.splits)
  next
    case (StoreWorks ev)
    then show ?thesis using assms(2) by (cases ev) (simp_all add: page_event_store_def)
  next
    case (SubmitSection now)
    then show ?thesis using assms(2) by (simp add: page_event_store_def split: option.split)
  next
    case (TogglePinLink l)
    then show ?thesis using f(3) by (simp add: page_event_store_def given_def)
  next
    case (CreateDoc now created updated)
    then show ?thesis using assms(2) by (simp add: page_event_store_def sec_ok_def)
  next
    case (TogglePinDoc stamp)
    then show ?thesis using f(2) by (simp add: page_event_store_def given_def split: option.split)
  qed (simp_all add: page_event_store_def split: option.split)
  moreover have "page_event_store s e = [] \<or> (\<exists>ev. page_event_store s e = [ev])"
    by (cases e) (auto simp: page_event_store_def Let_def split: option.split)
  ultimately show ?thesis using assms(1) filed_step by (auto simp: page_store)
qed

interpretation docs_page: guarded_machine docs_page_step page_ok "\<lambda>s. filed (dp_store s)"
  by unfold_locales (rule page_filed)

lemma filter_parts:
  assumes "distinct ks" and "\<And>x. x \<in> set xs \<Longrightarrow> key x = None \<or> key x \<in> Some ` set ks"
  shows "mset (concat (map (\<lambda>k. filter (\<lambda>x. key x = Some k) xs) ks) @ filter (\<lambda>x. key x = None) xs) = mset xs"
  using assms
proof (induction ks arbitrary: xs)
  case Nil
  then have "filter (\<lambda>x. key x = None) xs = xs" by (simp add: filter_id_conv)
  then show ?case by simp
next
  case (Cons k ks)
  let ?rest = "filter (\<lambda>x. key x \<noteq> Some k) xs"
  have a: "map (\<lambda>j. filter (\<lambda>x. key x = Some j) ?rest) ks = map (\<lambda>j. filter (\<lambda>x. key x = Some j) xs) ks"
    using Cons.prems(1) by (auto intro!: filter_cong)
  have b: "filter (\<lambda>x. key x = None) ?rest = filter (\<lambda>x. key x = None) xs" by (auto intro: filter_cong)
  have "mset (concat (map (\<lambda>j. filter (\<lambda>x. key x = Some j) ?rest) ks) @ filter (\<lambda>x. key x = None) ?rest) = mset ?rest"
    using Cons.prems by (intro Cons.IH) auto
  then have rest: "mset (concat (map (\<lambda>j. filter (\<lambda>x. key x = Some j) xs) ks) @ filter (\<lambda>x. key x = None) xs) = mset ?rest"
    unfolding a b .
  have "mset (concat (map (\<lambda>j. filter (\<lambda>x. key x = Some j) xs) (k # ks)) @ filter (\<lambda>x. key x = None) xs)
      = mset (filter (\<lambda>x. key x = Some k) xs) + mset ?rest"
    unfolding rest [symmetric] by simp
  also have "\<dots> = mset xs" by (simp only: mset_filter) (rule multiset_partition [symmetric])
  finally show ?case .
qed

lemma filter_open_parts:
  assumes "distinct ks" and "\<And>x. x \<in> set xs \<Longrightarrow> key x = None \<or> key x \<in> Some ` set ks"
  shows "mset (concat (map (\<lambda>k. if \<not> shut k then filter (\<lambda>x. key x = Some k) xs else []) ks) @ filter (\<lambda>x. key x = None) xs) =
    mset (filter (\<lambda>x. case key x of None \<Rightarrow> True | Some k \<Rightarrow> \<not> shut k) xs)"
proof -
  let ?ys = "filter (\<lambda>x. case key x of None \<Rightarrow> True | Some k \<Rightarrow> \<not> shut k) xs"
  have a: "filter (\<lambda>x. key x = Some k) ?ys = (if \<not> shut k then filter (\<lambda>x. key x = Some k) xs else [])" for k
    by (cases "shut k") (auto simp: filter_empty_conv intro!: filter_cong)
  have b: "filter (\<lambda>x. key x = None) ?ys = filter (\<lambda>x. key x = None) xs"
    by (auto intro!: filter_cong)
  have "mset (concat (map (\<lambda>k. filter (\<lambda>x. key x = Some k) ?ys) ks) @ filter (\<lambda>x. key x = None) ?ys) = mset ?ys"
    using assms by (intro filter_parts) auto
  then show ?thesis unfolding a b .
qed

definition sidebarDocs :: "doc_page \<Rightarrow> document list" where
  "sidebarDocs s = concat (map sg_docs (sidebar s))"

definition sidebarLinks :: "doc_page \<Rightarrow> ext_link list" where
  "sidebarLinks s = concat (map sg_links (sidebar s))"

text \<open>An item is in the open when its section is not collapsed.\<close>

definition in_open :: "doc_page \<Rightarrow> jstr option \<Rightarrow> bool" where
  "in_open s sec \<longleftrightarrow> (case sec of None \<Rightarrow> True | Some i \<Rightarrow> \<not> dp_collapsed s i)"

lemma sec_in_workspace: "sec_ok (dp_store s) (dp_workspace s) sec \<Longrightarrow> sec = None \<or> sec \<in> Some ` set (map s_id (workspaceSecs s))"
  by (cases sec) (auto simp: sec_ok_def workspaceSecs_def)

lemma sidebar_complete:
  assumes "filed (dp_store s)"
  shows "mset (sidebarDocs s) = mset (filter (\<lambda>d. in_open s (d_sectionId d)) (workspaceDocs s)) \<and>
    mset (sidebarLinks s) = mset (filter (\<lambda>l. in_open s (l_sectionId l)) (workspaceLinks s))"
proof -
  let ?ks = "map s_id (workspaceSecs s)"
  have k: "distinct ?ks" using syncedD(2) [of "dp_store s"] assms by (simp add: filed_def workspaceSecs_def distinct_map_filter)
  have rest: "concat (map sg_docs (uncategorized s)) = filter (\<lambda>d. d_sectionId d = None) (workspaceDocs s)"
    "concat (map sg_links (uncategorized s)) = filter (\<lambda>l. l_sectionId l = None) (workspaceLinks s)"
    by (simp_all add: uncategorized_def Let_def)
  have "d_sectionId d = None \<or> d_sectionId d \<in> Some ` set ?ks" if "d \<in> set (workspaceDocs s)" for d
    using that assms by (intro sec_in_workspace) (auto simp: filed_def workspaceDocs_def)
  then have "mset (sidebarDocs s) = mset (filter (\<lambda>d. in_open s (d_sectionId d)) (workspaceDocs s))"
    using filter_open_parts [of ?ks "workspaceDocs s" d_sectionId "dp_collapsed s"] k
    by (simp add: sidebarDocs_def sidebar_def side_section_def rest in_open_def comp_def Let_def)
  moreover have "l_sectionId l = None \<or> l_sectionId l \<in> Some ` set ?ks" if "l \<in> set (workspaceLinks s)" for l
    using that assms by (intro sec_in_workspace) (auto simp: filed_def workspaceLinks_def)
  then have "mset (sidebarLinks s) = mset (filter (\<lambda>l. in_open s (l_sectionId l)) (workspaceLinks s))"
    using filter_open_parts [of ?ks "workspaceLinks s" l_sectionId "dp_collapsed s"] k
    by (simp add: sidebarLinks_def sidebar_def side_section_def rest in_open_def comp_def Let_def)
  ultimately show ?thesis by simp
qed

text \<open>
  C27. Nothing gets out of sight: however documents, links and sections are created, edited, moved and
  deleted, and whatever workspace is open, the sidebar lists, each exactly once, the documents and links
  of the workspace that are in no collapsed section: all of them when no section is collapsed.  This
  starts from lists that match the database and in which every item is in a section of its workspace,
  and needs that ids made from the clock are new, that a section chosen in a form still exists when the
  form is saved, that a link is edited in its own workspace, and that the lists are not loaded again.
\<close>

theorem sidebar_lists_all:
  assumes "filed (dp_store s)" and "ok_run docs_page_step page_ok s es" and "t = foldl docs_page_step s es"
  shows "mset (sidebarDocs t) = mset (filter (\<lambda>d. in_open t (d_sectionId d)) (workspaceDocs t)) \<and>
    mset (sidebarLinks t) = mset (filter (\<lambda>l. in_open t (l_sectionId l)) (workspaceLinks t))"
  using docs_page.run_guarded [OF assms(1,2)] assms(3) sidebar_complete by simp

definition empty_page :: doc_page where
  "empty_page = \<lparr>dp_store = empty_documents, dp_workspace = js ''w'', dp_active = None, dp_editing = False, dp_search = [],
     dp_collapsed = (\<lambda>i. False), dp_title = [], dp_content = [], dp_section = None, dp_sec_dialog = False, dp_sec_name = [],
     dp_sec_target = None, dp_link_dialog = False, dp_lk_title = [], dp_lk_url = [], dp_lk_desc = [], dp_lk_section = None,
     dp_lk_target = None, dp_pending = [], dp_toasts = [], dp_touched = False\<rparr>"

lemma empty_filed: "filed (dp_store empty_page)"
  using empty_synced by (simp add: filed_def empty_page_def empty_documents_def)

lemma sidebar_lists_all_witness:
  "let t = foldl docs_page_step empty_page
      [SectionName (js ''Guides''), SubmitSection 7, CreateDoc 8 (js ''a'') (js ''a''), ToggleSection (js ''sec-7'')]
   in mset (sidebarDocs t) = mset (filter (\<lambda>d. in_open t (d_sectionId d)) (workspaceDocs t)) \<and>
     mset (sidebarLinks t) = mset (filter (\<lambda>l. in_open t (l_sectionId l)) (workspaceLinks t))"
  unfolding Let_def
  by (rule sidebar_lists_all [OF empty_filed _ refl])
     (simp add: docs_page_step_def docs_page_defs selection_effect_def selectedDoc_def workspaceDocs_def createSection_def enqueue_def
        empty_page_def empty_documents_def trim_no_outer_ws is_ws_def Let_def)

section \<open>Facts: inserting syntax\<close>

text \<open>No button of the editor loses text: what stands around the selection and the selection itself stay.\<close>

lemma replacement_keeps: "\<exists>l r. md_replacement syn sel = l @ sel @ r"
proof -
  have "sel \<noteq> [] \<Longrightarrow> md_replacement syn sel = [42, 42] @ sel @ [42, 42] \<or> md_replacement syn sel = [42] @ sel @ [42] \<or>
      md_replacement syn sel = [96] @ sel @ [96] \<or> md_replacement syn sel = [91] @ sel @ js ''](url)'' \<or>
      md_replacement syn sel = syn @ sel @ []"
    by (simp add: md_replacement_def)
  moreover have "md_replacement syn [] = syn @ [] @ []" by (simp add: md_replacement_def)
  ultimately show ?thesis by (cases "sel = []") blast+
qed

lemma insert_keeps_text:
  "\<exists>l r. fst (insertMarkdown t start end syn) = take start t @ (l @ take (end - start) (drop start t) @ r) @ drop end t
    \<and> snd (insertMarkdown t start end syn) = start + length (l @ take (end - start) (drop start t) @ r)"
proof -
  obtain l r where "md_replacement syn (take (end - start) (drop start t)) = l @ take (end - start) (drop start t) @ r"
    using replacement_keeps by blast
  then show ?thesis by (intro exI [of _ l] exI [of _ r]) (simp only: insertMarkdown_def Let_def fst_conv snd_conv)
qed

text \<open>The button for a block of code turns a selection into inline code: its syntax starts and ends with a backtick.\<close>

lemma code_block_becomes_inline:
  "sel \<noteq> [] \<Longrightarrow> md_replacement (js ''```javascript'' @ [10] @ js ''// code here'' @ [10] @ js ''```'') sel = [96] @ sel @ [96]"
  by (simp add: md_replacement_def starts_with_def ends_with_def)

section \<open>What goes wrong\<close>

lemma find_updated:
  "List.find (\<lambda>d. d_id d = i) (filter P ds) = Some d \<Longrightarrow> (\<And>x. d_id (f x) = d_id x) \<Longrightarrow> (\<And>x. P (f x) = P x) \<Longrightarrow>
   List.find (\<lambda>d. d_id d = i) (filter P (map (\<lambda>x. if d_id x = i then f x else x) ds)) = Some (f d)"
  by (induction ds) (auto split: if_splits)

lemma selected_updated:
  assumes "selectedDoc s = Some d" and "dp_active s = Some i"
  shows "selectedDoc (s\<lparr>dp_store := updateDocument stamp i u (dp_store s), dp_touched := b\<rparr>) = Some (update_document u stamp d)"
  using assms find_updated [of i "\<lambda>d. d_workspaceId d = dp_workspace s" "documents (dp_store s)" d "update_document u stamp"]
  by (simp add: selectedDoc_def workspaceDocs_def updateDocument_def update_document_def)

lemma selected_id: "selectedDoc s = Some d \<Longrightarrow> dp_active s = Some (d_id d)"
  by (auto simp: selectedDoc_def find_Some_iff split: option.splits)

text \<open>Pinning the open document fills the fields anew: what was typed and not saved is lost.\<close>

lemma pin_discards_edits:
  assumes "selectedDoc s = Some d"
  shows "dp_content (foldl docs_page_step s [EditFields t c sec, TogglePinDoc stamp]) = d_content d"
proof -
  let ?s = "s\<lparr>dp_title := t, dp_content := c, dp_section := sec, dp_touched := False\<rparr>"
  have s1: "docs_page_step s (EditFields t c sec) = ?s" by (simp add: docs_page_step_def Let_def)
  let ?u = "\<lparr>du_title = None, du_content = None, du_sectionId = None, du_isPinned = Some (\<not> d_isPinned d)\<rparr>"
  let ?p = "?s\<lparr>dp_store := updateDocument stamp (d_id d) ?u (dp_store s), dp_touched := True\<rparr>"
  have h: "handleTogglePinDoc stamp ?s = ?p\<lparr>dp_pending := dp_pending s @ [PinDoc (d_isPinned d)]\<rparr>"
    using assms selected_id [OF assms] by (simp add: handleTogglePinDoc_def store_do_def pend_def)
  have "selectedDoc ?p = Some (update_document ?u stamp d)"
    using selected_updated [of ?s d "d_id d" True stamp ?u] assms selected_id [OF assms] by simp
  then have "selectedDoc (?p\<lparr>dp_pending := dp_pending s @ [PinDoc (d_isPinned d)]\<rparr>) = Some (update_document ?u stamp d)"
    by (simp only: selected_fields)
  then show ?thesis by (simp add: s1 docs_page_step_def Let_def h selection_effect_def update_document_def given_def)
qed

text \<open>Cancel does not undo: the abandoned text is there when editing starts again, and is saved then.\<close>

lemma cancel_keeps_edits:
  "dp_content (foldl docs_page_step s [EditFields t c sec, CancelEdit, StartEdit]) = c"
  by (simp add: docs_page_step_def Let_def)

text \<open>
  The section chosen in the form of the open document can be deleted before the document is saved: the
  document then belongs to no section the sidebar knows, and is not listed any more.
\<close>

definition orphaning :: "docs_page_event list" where
  "orphaning = [SectionName (js ''G''), SubmitSection 7, CreateDoc 8 [] [], OpenDoc (js ''doc-8''), StartEdit,
     EditFields (js ''t'') [] (Some (js ''sec-7'')), RemoveSection True [] (js ''sec-7''), SubmitDoc []]"

lemma orphaned_document:
  "let t = foldl docs_page_step empty_page orphaning
   in map d_sectionId (workspaceDocs t) = [Some (js ''sec-7'')] \<and> workspaceSecs t = [] \<and> sidebarDocs t = []"
  by (simp add: orphaning_def docs_page_step_def docs_page_defs selection_effect_def selectedDoc_def workspaceDocs_def workspaceSecs_def
      createSection_def createDocument_def updateDocument_def deleteSection_def enqueue_def empty_page_def empty_documents_def
      trim_no_outer_ws is_ws_def generated_id_def nat_str.simps [of 7] nat_str.simps [of 8] update_document_def given_def
      sidebarDocs_def sidebar_def uncategorized_def Let_def)

end
