(* ===== verification/AppTheme.thy ===== *)
theory AppTheme
  imports ThemeStore
begin

text \<open>
  How the settings reach the page: the effect of src/ui/web/src/App.tsx that writes classes and style
  properties to the root element whenever the theme, the mode or the custom color changes, and when the
  system changes between light and dark.  The element lives as long as the page, so what it shows
  depends on what earlier settings left behind.
\<close>

section \<open>The root element\<close>

definition CUSTOM_STYLE_KEYS :: "jstr list" where
  "CUSTOM_STYLE_KEYS =
    [js ''--primary'', js ''--primary-foreground'', js ''--sidebar'', js ''--sidebar-foreground'', js ''--sidebar-border'',
     js ''--sidebar-accent'', js ''--sidebar-accent-foreground'', js ''--background'', js ''--background-secondary'', js ''--card'',
     js ''--popover'', js ''--border'', js ''--accent'', js ''--input'', js ''--secondary'',
     js ''--muted'']"

definition CHART_STYLE_KEYS :: "jstr list" where
  "CHART_STYLE_KEYS =
    [js ''--chart-1'', js ''--chart-2'', js ''--chart-3'', js ''--chart-4'', js ''--chart-5'',
     js ''--chart-6'', js ''--chart-7'', js ''--chart-8'', js ''--chart-9'', js ''--chart-10'',
     js ''--chart-11'', js ''--chart-12'', js ''--color-chart-1'', js ''--color-chart-2'', js ''--color-chart-3'',
     js ''--color-chart-4'', js ''--color-chart-5'', js ''--color-chart-6'', js ''--color-chart-7'', js ''--color-chart-8'',
     js ''--color-chart-9'', js ''--color-chart-10'', js ''--color-chart-11'', js ''--color-chart-12'', js ''--chart-line-primary'',
     js ''--chart-line-secondary'', js ''--chart-background'', js ''--chart-foreground'', js ''--chart-foreground-muted'', js ''--chart-crosshair'',
     js ''--chart-grid'', js ''--chart-brush-border'', js ''--chart-tooltip-background'', js ''--chart-tooltip-foreground'', js ''--chart-tooltip-muted'',
     js ''--chart-marker-background'', js ''--chart-marker-border'', js ''--chart-marker-foreground'', js ''--chart-ring-background'', js ''--chart-label'']"

definition themeClasses :: "jstr list" where
  "themeClasses = [js ''theme-harbor'', js ''theme-sage'', js ''theme-dune'', js ''theme-lilac'', js ''theme-blossom'',
     js ''theme-ink'', js ''theme-custom'']"

record app =
  ap_theme :: jstr
  ap_mode :: jstr
  ap_color :: custom_color
  ap_system_dark :: bool
  ap_classes :: "jstr list"
  ap_style :: "jstr \<rightharpoonup> jstr"

definition class_remove :: "jstr \<Rightarrow> jstr list \<Rightarrow> jstr list" where
  "class_remove c cs = filter (\<lambda>d. d \<noteq> c) cs"

definition class_add :: "jstr \<Rightarrow> jstr list \<Rightarrow> jstr list" where
  "class_add c cs = (if c \<in> set cs then cs else cs @ [c])"

definition removeProperty :: "(jstr \<rightharpoonup> jstr) \<Rightarrow> jstr \<Rightarrow> (jstr \<rightharpoonup> jstr)" where
  "removeProperty st k = st(k := None)"

definition setProperty :: "(jstr \<rightharpoonup> jstr) \<Rightarrow> jstr \<times> jstr \<Rightarrow> (jstr \<rightharpoonup> jstr)" where
  "setProperty st e = st(fst e \<mapsto> snd e)"

section \<open>The effect\<close>

definition resolved_dark :: "app \<Rightarrow> bool" where
  "resolved_dark s = (if ap_mode s = js ''system'' then ap_system_dark s else ap_mode s = js ''dark'')"

definition applyThemeMode :: "app \<Rightarrow> app" where
  "applyThemeMode s =
     (let dark = resolved_dark s; st = foldl removeProperty (ap_style s) CHART_STYLE_KEYS in
      s\<lparr>ap_classes := (if dark then class_add (js ''dark'') (ap_classes s) else class_remove (js ''dark'') (ap_classes s)),
        ap_style := (if ap_theme s = js ''custom'' then foldl setProperty st (getCustomThemeStyles (ap_color s) dark)
          else foldl removeProperty st CUSTOM_STYLE_KEYS)\<rparr>)"

definition theme_effect :: "app \<Rightarrow> app" where
  "theme_effect s = applyThemeMode (s\<lparr>ap_classes :=
     class_add (js ''theme-'' @ ap_theme s) (foldl (\<lambda>cs c. class_remove c cs) (ap_classes s) themeClasses)\<rparr>)"

datatype app_event = Settings jstr jstr custom_color | SystemDark bool

fun app_step :: "app \<Rightarrow> app_event \<Rightarrow> app" where
  "app_step s (Settings t m c) =
     (if t = ap_theme s \<and> m = ap_mode s \<and> c = ap_color s then s
      else theme_effect (s\<lparr>ap_theme := t, ap_mode := m, ap_color := c\<rparr>))"
| "app_step s (SystemDark b) =
     (let s1 = s\<lparr>ap_system_dark := b\<rparr> in if ap_mode s = js ''system'' then applyThemeMode s1 else s1)"

text \<open>The first render; the element comes from the page without theme classes and properties.\<close>

definition app_start :: "jstr \<Rightarrow> jstr \<Rightarrow> custom_color \<Rightarrow> bool \<Rightarrow> app" where
  "app_start t m c dark = theme_effect \<lparr>ap_theme = t, ap_mode = m, ap_color = c, ap_system_dark = dark, ap_classes = [],
     ap_style = Map.empty\<rparr>"

section \<open>Facts: what the element shows\<close>

lemma removed: "foldl removeProperty st ks k = (if k \<in> set ks then None else st k)"
  by (induction ks arbitrary: st) (auto simp: removeProperty_def)

lemma properties_set: "distinct (map fst es) \<Longrightarrow> foldl setProperty st es k = (case map_of es k of Some v \<Rightarrow> Some v | None \<Rightarrow> st k)"
proof (induction es arbitrary: st)
  case (Cons e es)
  have "map_of es (fst e) = None" using Cons.prems by (simp add: map_of_eq_None_iff)
  then show ?case using Cons by (auto simp: setProperty_def split: option.split)
qed simp

abbreviation "popover \<equiv> js ''--popover''"

text \<open>The keys of the styles: all of them in the dark, all but the popover's in the light.\<close>

lemma style_keys:
  "map fst (getCustomThemeStyles c True) = CUSTOM_STYLE_KEYS"
  "map fst (getCustomThemeStyles c False) = filter (\<lambda>k. k \<noteq> popover) CUSTOM_STYLE_KEYS"
  by (simp_all add: getCustomThemeStyles_def grey_dark_styles_def grey_light_styles_def dark_styles_def light_styles_def
      CUSTOM_STYLE_KEYS_def Let_def)

lemma keys_distinct: "distinct CUSTOM_STYLE_KEYS" "set CHART_STYLE_KEYS \<inter> set CUSTOM_STYLE_KEYS = {}"
  by (simp_all add: CUSTOM_STYLE_KEYS_def CHART_STYLE_KEYS_def)

text \<open>The style of a page that has only ever had these settings.\<close>

definition style_of :: "app \<Rightarrow> (jstr \<rightharpoonup> jstr)" where
  "style_of s = (if ap_theme s = js ''custom'' then map_of (getCustomThemeStyles (ap_color s) (resolved_dark s)) else Map.empty)"

text \<open>Every property is the settings' own, but the popover's in a light custom theme, which may be older.\<close>

definition style_ok :: "app \<Rightarrow> bool" where
  "style_ok s \<longleftrightarrow> dom (ap_style s) \<subseteq> set CUSTOM_STYLE_KEYS \<and>
     (\<forall>k. k \<noteq> popover \<or> ap_theme s \<noteq> js ''custom'' \<or> resolved_dark s \<longrightarrow> ap_style s k = style_of s k)"

definition classes_ok :: "app \<Rightarrow> bool" where
  "classes_ok s \<longleftrightarrow> (\<forall>c\<in>set themeClasses. c \<in> set (ap_classes s) \<longleftrightarrow> c = js ''theme-'' @ ap_theme s) \<and>
     (js ''dark'' \<in> set (ap_classes s) \<longleftrightarrow> resolved_dark s)"

lemma dom_style:
  assumes "dom st \<subseteq> set CUSTOM_STYLE_KEYS" and "k \<notin> fst ` set (getCustomThemeStyles c dark)" and "k \<noteq> popover \<or> dark"
  shows "st k = None"
proof -
  have "fst ` set (getCustomThemeStyles c dark) = set CUSTOM_STYLE_KEYS - (if dark then {} else {popover})"
    using arg_cong [OF style_keys(1) [of c], of set] arg_cong [OF style_keys(2) [of c], of set] by (cases dark) auto
  then show ?thesis using assms by (auto split: if_splits)
qed

lemma mode_style:
  assumes "dom (ap_style s) \<subseteq> set CUSTOM_STYLE_KEYS"
  shows "style_ok (applyThemeMode s)"
proof -
  let ?es = "getCustomThemeStyles (ap_color s) (resolved_dark s)"
  let ?st = "foldl removeProperty (ap_style s) CHART_STYLE_KEYS"
  have r: "resolved_dark (applyThemeMode s) = resolved_dark s" by (simp add: applyThemeMode_def Let_def resolved_dark_def)
  have st: "?st = ap_style s"
  proof
    fix k
    have "ap_style s k = None" if "k \<in> set CHART_STYLE_KEYS"
      using that assms keys_distinct(2) by (metis disjoint_iff domIff in_mono)
    then show "?st k = ap_style s k" by (simp add: removed)
  qed
  show ?thesis
  proof (cases "ap_theme s = js ''custom''")
    case True
    have d: "distinct (map fst ?es)" using style_keys keys_distinct(1) by (cases "resolved_dark s") (simp_all del: filter.simps)
    have sub: "fst ` set ?es \<subseteq> set CUSTOM_STYLE_KEYS"
      using arg_cong [OF style_keys(1) [of "ap_color s"], of set] arg_cong [OF style_keys(2) [of "ap_color s"], of set]
      by (cases "resolved_dark s") auto
    have style: "ap_style (applyThemeMode s) = foldl setProperty (ap_style s) ?es" using True by (simp add: applyThemeMode_def st Let_def)
    have "k \<in> set CUSTOM_STYLE_KEYS" if "ap_style (applyThemeMode s) k \<noteq> None" for k
    proof (cases "map_of ?es k")
      case None
      then have "ap_style s k \<noteq> None" using that unfolding style by (simp only: properties_set [OF d] option.case simp_thms)
      then show ?thesis using assms by (meson domIff subsetD)
    next
      case (Some v)
      then have "k \<in> fst ` set ?es" by (rule map_of_SomeD [THEN image_eqI [rotated]]) simp
      then show ?thesis by (rule subsetD [OF sub])
    qed
    then have "dom (ap_style (applyThemeMode s)) \<subseteq> set CUSTOM_STYLE_KEYS" by (meson domIff subsetI)
    moreover have "ap_style (applyThemeMode s) k = style_of (applyThemeMode s) k" if "k \<noteq> popover \<or> resolved_dark s" for k
    proof (cases "map_of ?es k")
      case None
      then have "k \<notin> fst ` set ?es" by (simp add: map_of_eq_None_iff)
      then have "ap_style s k = None" using that by (rule dom_style [OF assms])
      then show ?thesis using None True unfolding style by (simp add: properties_set [OF d] style_of_def r) (simp add: applyThemeMode_def Let_def)
    next
      case (Some v)
      then show ?thesis using True unfolding style by (simp add: properties_set [OF d] style_of_def r) (simp add: applyThemeMode_def Let_def)
    qed
    ultimately show ?thesis using True by (simp add: style_ok_def r) (simp add: applyThemeMode_def Let_def)
  next
    case False
    then have "ap_style (applyThemeMode s) = foldl removeProperty (ap_style s) CUSTOM_STYLE_KEYS" by (simp add: applyThemeMode_def st Let_def)
    then have "ap_style (applyThemeMode s) = Map.empty" using assms by (auto simp: removed fun_eq_iff domIff)
    then show ?thesis using False by (simp add: style_ok_def style_of_def) (simp add: applyThemeMode_def Let_def)
  qed
qed

lemma classes_removed: "set (foldl (\<lambda>cs c. class_remove c cs) cs ks) = set cs - set ks"
  by (induction ks arbitrary: cs) (auto simp: class_remove_def)

lemma class_names: "js ''dark'' \<notin> set themeClasses" "js ''theme-'' @ t \<noteq> js ''dark''"
  by (simp_all add: themeClasses_def)

lemma effect_fields [simp]:
  "ap_theme (applyThemeMode s) = ap_theme s" "ap_theme (theme_effect s) = ap_theme s"
  "resolved_dark (applyThemeMode s) = resolved_dark s" "resolved_dark (theme_effect s) = resolved_dark s"
  by (simp_all add: theme_effect_def applyThemeMode_def Let_def resolved_dark_def)

lemma mode_classes:
  "c \<noteq> js ''dark'' \<Longrightarrow> c \<in> set (ap_classes (applyThemeMode s)) \<longleftrightarrow> c \<in> set (ap_classes s)"
  "js ''dark'' \<in> set (ap_classes (applyThemeMode s)) \<longleftrightarrow> resolved_dark s"
  by (auto simp: applyThemeMode_def class_add_def class_remove_def Let_def)

lemma effect_ok: "dom (ap_style s) \<subseteq> set CUSTOM_STYLE_KEYS \<Longrightarrow> style_ok (theme_effect s) \<and> classes_ok (theme_effect s)"
proof
  assume "dom (ap_style s) \<subseteq> set CUSTOM_STYLE_KEYS"
  then show "style_ok (theme_effect s)" unfolding theme_effect_def by (intro mode_style) simp
  let ?s = "s\<lparr>ap_classes := class_add (js ''theme-'' @ ap_theme s) (foldl (\<lambda>cs c. class_remove c cs) (ap_classes s) themeClasses)\<rparr>"
  have a: "c \<in> set (ap_classes ?s) \<longleftrightarrow> c = js ''theme-'' @ ap_theme s" if "c \<in> set themeClasses" for c
    using that by (auto simp: class_add_def classes_removed)
  have b: "c \<noteq> js ''dark''" if "c \<in> set themeClasses" for c using that class_names(1) by blast
  have "c \<in> set (ap_classes (applyThemeMode ?s)) \<longleftrightarrow> c = js ''theme-'' @ ap_theme s" if "c \<in> set themeClasses" for c
    unfolding mode_classes(1) [OF b [OF that]] by (rule a [OF that])
  moreover have "resolved_dark ?s = resolved_dark s" by (simp add: resolved_dark_def)
  ultimately show "classes_ok (theme_effect s)"
    unfolding classes_ok_def effect_fields unfolding theme_effect_def mode_classes(2) by simp
qed

definition look_ok :: "app \<Rightarrow> bool" where
  "look_ok s \<longleftrightarrow> style_ok s \<and> classes_ok s"

lemma look_step:
  assumes "look_ok s"
  shows "look_ok (app_step s e)"
proof (cases e)
  case (Settings t m c)
  have "dom (ap_style (s\<lparr>ap_theme := t, ap_mode := m, ap_color := c\<rparr>)) \<subseteq> set CUSTOM_STYLE_KEYS"
    using assms by (simp add: look_ok_def style_ok_def)
  from effect_ok [OF this] show ?thesis using assms Settings by (simp add: look_ok_def)
next
  case (SystemDark b)
  let ?s = "s\<lparr>ap_system_dark := b\<rparr>"
  show ?thesis
  proof (cases "ap_mode s = js ''system''")
    case True
    have "dom (ap_style ?s) \<subseteq> set CUSTOM_STYLE_KEYS" using assms by (simp add: look_ok_def style_ok_def)
    then have "style_ok (applyThemeMode ?s)" by (rule mode_style)
    moreover have "c \<noteq> js ''dark''" if "c \<in> set themeClasses" for c using that class_names(1) by blast
    then have "classes_ok (applyThemeMode ?s)"
      using assms unfolding look_ok_def classes_ok_def effect_fields mode_classes(2) by (simp add: mode_classes(1))
    ultimately show ?thesis using True SystemDark by (simp add: look_ok_def)
  next
    case False
    then have "resolved_dark ?s = resolved_dark s" by (simp add: resolved_dark_def)
    then show ?thesis using False assms SystemDark by (simp add: look_ok_def style_ok_def classes_ok_def style_of_def)
  qed
qed

interpretation look: invariant_machine app_step look_ok
  by unfold_locales (rule look_step)

text \<open>
  C28. What the page looks like depends on the settings of the moment only: after any changes of theme,
  mode, color and system preference the root element has the one theme class of the theme, the dark
  class exactly in dark mode, and the style properties of the settings and no others - except for the
  popover's color in a light custom theme.
\<close>

theorem look_matches_settings:
  assumes "s = foldl app_step (app_start t m c dark) es"
  shows "filter (\<lambda>k. k \<in> set (ap_classes s)) themeClasses = filter (\<lambda>k. k = js ''theme-'' @ ap_theme s) themeClasses \<and>
    (js ''dark'' \<in> set (ap_classes s) \<longleftrightarrow> resolved_dark s) \<and>
    (\<forall>k. k \<noteq> popover \<or> ap_theme s \<noteq> js ''custom'' \<or> resolved_dark s \<longrightarrow> ap_style s k = style_of s k)"
proof -
  have "look_ok (app_start t m c dark)" unfolding app_start_def look_ok_def by (rule effect_ok) simp
  then have "look_ok s" unfolding assms by (rule look.run_inv)
  then show ?thesis by (simp add: look_ok_def classes_ok_def style_ok_def cong: filter_cong)
qed

lemma look_matches_settings_witness:
  "ap_style (foldl app_step (app_start (js ''custom'') (js ''dark'') \<lparr>cc_h = 60, cc_s = 0, cc_l = 50\<rparr> False)
     [Settings (js ''sage'') (js ''dark'') \<lparr>cc_h = 60, cc_s = 0, cc_l = 50\<rparr>]) (js ''--card'') = None"
  using look_matches_settings [OF refl, of "js ''custom''" "js ''dark''" "\<lparr>cc_h = 60, cc_s = 0, cc_l = 50\<rparr>" False
      "[Settings (js ''sage'') (js ''dark'') \<lparr>cc_h = 60, cc_s = 0, cc_l = 50\<rparr>]"]
  by (simp add: app_start_def style_of_def)

text \<open>
  A custom theme that was dark leaves the dark color of the popover behind: the styles of the light
  variant do not set it, and nothing removes it.
\<close>

lemma popover_stays_dark:
  "ap_style (app_step (app_start (js ''custom'') (js ''dark'') c False) (Settings (js ''custom'') (js ''light'') c)) popover
   = map_of (getCustomThemeStyles c True) popover"
proof -
  have d: "distinct (map fst (getCustomThemeStyles c b))" for b
    using style_keys [of c] keys_distinct(1) by (cases b) (simp_all del: filter.simps)
  have n: "map_of (getCustomThemeStyles c False) popover = None"
    unfolding map_of_eq_None_iff using arg_cong [OF style_keys(2) [of c], of set] by simp
  have p: "popover \<notin> set CHART_STYLE_KEYS" by (simp add: CHART_STYLE_KEYS_def)
  have m: "map_of (getCustomThemeStyles c True) popover \<noteq> None"
    unfolding map_of_eq_None_iff using arg_cong [OF style_keys(1) [of c], of set] by (simp add: CUSTOM_STYLE_KEYS_def)
  show ?thesis
    using d n p m
    by (auto simp: app_start_def theme_effect_def applyThemeMode_def resolved_dark_def properties_set removed Let_def)
qed

end
