(* ===== verification/TokenGate.thy ===== *)
theory TokenGate
  imports AuthStore
begin

text \<open>
  The gate in front of the client: src/ui/web/src/components/auth/TokenGate.tsx.  It shows the client
  only when the cookie has been verified, which takes two requests, first the workspaces, then the
  permissions.  A verification is the phase it has reached and whether its effect has been cleaned up.
  The address of the page is given as whether it is the callback of the single sign-on, and its ticket.
  The permissions have one more writer, the frame of the client (theory AppShell), which sets those of
  another workspace when the user goes there: that is an event here.
\<close>

datatype gate_status = GateIdle | GateVerifying | GateCas | GateOnboarding | GateOk

datatype verify_phase = AwaitWorkspaces | AwaitMe | VerifyDone

record gate =
  tg_cas :: bool
  tg_login :: bool
  tg_status :: gate_status
  tg_auth :: auth_state
  tg_input :: jstr
  tg_checking :: bool
  tg_error :: jstr
  tg_runs :: "(verify_phase \<times> bool) list"
  tg_reloads :: nat

text \<open>The effect that verifies the cookie; it runs when the user or the kind of page changes.\<close>

definition verify_effect :: "gate \<Rightarrow> gate" where
  "verify_effect s0 =
     (let s = s0\<lparr>tg_runs := map (\<lambda>(p, c). (p, True)) (tg_runs s0)\<rparr> in
      if tg_cas s then s
      else if auth_sub (tg_auth s) = [] then s\<lparr>tg_status := GateIdle\<rparr>
      else s\<lparr>tg_status := GateVerifying, tg_runs := tg_runs s @ [(AwaitWorkspaces, False)]\<rparr>)"

text \<open>The first render and its effects; a callback with a ticket sends it to the server.\<close>

definition gate_start :: "bool \<Rightarrow> jstr \<Rightarrow> auth_state \<Rightarrow> jstr \<Rightarrow> gate" where
  "gate_start cas ticket a token = verify_effect \<lparr>tg_cas = cas, tg_login = (cas \<and> ticket \<noteq> []),
     tg_status = (if cas then GateCas else if auth_sub a \<noteq> [] then GateVerifying else GateIdle), tg_auth = a,
     tg_input = token, tg_checking = False, tg_error = [], tg_runs = [], tg_reloads = 0\<rparr>"

definition fail_verify :: "gate \<Rightarrow> gate" where
  "fail_verify s = s\<lparr>tg_auth := clearAuth (tg_auth s), tg_error := js ''Token expired or invalid'', tg_status := GateIdle\<rparr>"

definition cas_reply :: "bool \<Rightarrow> gate \<Rightarrow> gate" where
  "cas_reply ok s0 =
     (if \<not> tg_login s0 then s0
      else let s = s0\<lparr>tg_login := False\<rparr> in
        if ok then s\<lparr>tg_reloads := Suc (tg_reloads s)\<rparr>
        else s\<lparr>tg_auth := clearAuth (tg_auth s), tg_cas := False, tg_error := js ''CAS login failed. Please try again.'',
               tg_status := GateIdle\<rparr>)"

text \<open>The replies to the run \<open>i\<close>: the number of workspaces, then the permissions; \<open>None\<close> when the request failed.\<close>

definition workspaces_reply :: "nat \<Rightarrow> nat option \<Rightarrow> gate \<Rightarrow> gate" where
  "workspaces_reply i r s =
     (if i < length (tg_runs s) \<and> fst (tg_runs s ! i) = AwaitWorkspaces then
        (let cancelled = snd (tg_runs s ! i); done = s\<lparr>tg_runs := (tg_runs s)[i := (VerifyDone, cancelled)]\<rparr> in
         if cancelled then done
         else case r of
           None \<Rightarrow> fail_verify done
         | Some n \<Rightarrow> if n = 0 then done\<lparr>tg_status := GateOnboarding\<rparr> else s\<lparr>tg_runs := (tg_runs s)[i := (AwaitMe, False)]\<rparr>)
      else s)"

definition me_reply :: "nat \<Rightarrow> jstr list option option \<Rightarrow> gate \<Rightarrow> gate" where
  "me_reply i r s =
     (if i < length (tg_runs s) \<and> fst (tg_runs s ! i) = AwaitMe then
        (let cancelled = snd (tg_runs s ! i); done = s\<lparr>tg_runs := (tg_runs s)[i := (VerifyDone, cancelled)]\<rparr> in
         if cancelled then done
         else case r of
           None \<Rightarrow> fail_verify done
         | Some ps \<Rightarrow> done\<lparr>tg_auth := setPermissions ps (tg_auth s), tg_status := GateOk\<rparr>)
      else s)"

definition submit_token :: "gate \<Rightarrow> gate" where
  "submit_token s = (if trim (tg_input s) = [] then s else s\<lparr>tg_checking := True, tg_error := []\<rparr>)"

definition token_reply :: "bool \<Rightarrow> gate \<Rightarrow> gate" where
  "token_reply ok s =
     (if \<not> tg_checking s then s
      else if ok then s\<lparr>tg_reloads := Suc (tg_reloads s), tg_checking := False\<rparr>
      else s\<lparr>tg_auth := clearAuth (tg_auth s), tg_error := js ''Invalid token. Please try again.'', tg_checking := False\<rparr>)"

datatype gate_event =
  CasReply bool | WorkspacesReply nat "nat option" | MeReply nat "jstr list option option"
| TypeToken jstr | SubmitToken | TokenReply bool | AuthCleared | FramePermissions "jstr list option"

fun gate_handler :: "gate \<Rightarrow> gate_event \<Rightarrow> gate" where
  "gate_handler s (CasReply ok) = cas_reply ok s"
| "gate_handler s (WorkspacesReply i r) = workspaces_reply i r s"
| "gate_handler s (MeReply i r) = me_reply i r s"
| "gate_handler s (TypeToken t) = s\<lparr>tg_input := t\<rparr>"
| "gate_handler s SubmitToken = submit_token s"
| "gate_handler s (TokenReply ok) = token_reply ok s"
| "gate_handler s AuthCleared = s\<lparr>tg_auth := clearAuth (tg_auth s)\<rparr>"
| "gate_handler s (FramePermissions ps) = s\<lparr>tg_auth := setPermissions ps (tg_auth s)\<rparr>"

definition gate_step :: "gate \<Rightarrow> gate_event \<Rightarrow> gate" where
  "gate_step s e = (let t = gate_handler s e in
     if auth_sub (tg_auth t) \<noteq> auth_sub (tg_auth s) \<or> tg_cas t \<noteq> tg_cas s then verify_effect t else t)"

section \<open>Facts\<close>

lemmas gate_defs = gate_step_def cas_reply_def workspaces_reply_def me_reply_def submit_token_def token_reply_def
  fail_verify_def clearAuth_def setPermissions_def Let_def

text \<open>The permissions in force when the frame has set others since.\<close>

fun set_by_frame :: "jstr list option \<Rightarrow> gate_event \<Rightarrow> jstr list option" where
  "set_by_frame p (FramePermissions q) = q"
| "set_by_frame p _ = p"

definition frame_permissions :: "jstr list option \<Rightarrow> gate_event list \<Rightarrow> jstr list option" where
  "frame_permissions ps es = foldl set_by_frame ps es"

text \<open>The events so far contain the two replies that let the user in, in their order.\<close>

definition verified :: "gate_event list \<Rightarrow> jstr list option \<Rightarrow> bool" where
  "verified es q \<longleftrightarrow> (\<exists>i n ps pre mid post. es = pre @ WorkspacesReply i (Some n) # mid @ MeReply i (Some ps) # post \<and> 0 < n \<and>
     q = frame_permissions ps post)"

lemma verified_more: "verified es q \<Longrightarrow> verified (es @ [e]) (set_by_frame q e)"
proof -
  assume "verified es q"
  then obtain i n ps pre mid post where es: "es = pre @ WorkspacesReply i (Some n) # mid @ MeReply i (Some ps) # post"
      "0 < n" "q = frame_permissions ps post"
    unfolding verified_def by blast
  then have "es @ [e] = pre @ WorkspacesReply i (Some n) # mid @ MeReply i (Some ps) # (post @ [e])" by simp
  moreover have "set_by_frame q e = frame_permissions ps (post @ [e])"
    using es(3) by (simp add: frame_permissions_def)
  ultimately show ?thesis using es(2) unfolding verified_def by blast
qed

definition phases_ok :: "gate_event list \<Rightarrow> gate \<Rightarrow> bool" where
  "phases_ok es s \<longleftrightarrow> (\<forall>i<length (tg_runs s). fst (tg_runs s ! i) = AwaitMe \<longrightarrow> (\<exists>n. 0 < n \<and> WorkspacesReply i (Some n) \<in> set es))"

definition gate_inv :: "gate_event list \<Rightarrow> gate \<Rightarrow> bool" where
  "gate_inv es s \<longleftrightarrow> phases_ok es s \<and>
     (tg_status s = GateOk \<longrightarrow> auth_sub (tg_auth s) \<noteq> [] \<and> \<not> tg_cas s \<and> verified es (permissions (tg_auth s))) \<and>
     (\<forall>r\<in>set (tg_runs s). snd r \<or> auth_sub (tg_auth s) \<noteq> [] \<and> \<not> tg_cas s)"

lemma phases_more: "phases_ok es s \<Longrightarrow> phases_ok (es @ [e]) s"
  by (auto simp: phases_ok_def)

lemma effect_inv: "phases_ok es s \<Longrightarrow> tg_cas s \<longrightarrow> tg_status s \<noteq> GateOk \<Longrightarrow> gate_inv es (verify_effect s)"
  by (auto simp: gate_inv_def phases_ok_def verify_effect_def Let_def nth_append split: prod.split)

text \<open>A handler keeps the phases, and keeps the rest unless the effect is about to run.\<close>

lemma handler_phases:
  assumes "phases_ok es s"
  shows "phases_ok (es @ [e]) (gate_handler s e)"
proof (cases e)
  case (WorkspacesReply i r)
  then show ?thesis using assms
    by (auto simp: phases_ok_def workspaces_reply_def fail_verify_def Let_def nth_list_update split: option.split)
next
  case (MeReply i r)
  then show ?thesis using assms
    by (auto simp: phases_ok_def me_reply_def fail_verify_def Let_def nth_list_update split: option.split)
qed (use assms in \<open>auto simp: phases_ok_def cas_reply_def submit_token_def token_reply_def Let_def\<close>)

lemma handler_inv:
  assumes "gate_inv es s" and "auth_sub (tg_auth (gate_handler s e)) = auth_sub (tg_auth s)" and "tg_cas (gate_handler s e) = tg_cas s"
  shows "gate_inv (es @ [e]) (gate_handler s e)"
proof -
  have ph: "phases_ok (es @ [e]) (gate_handler s e)" using assms(1) by (intro handler_phases) (simp add: gate_inv_def)
  have rest: "tg_status s = GateOk \<Longrightarrow> auth_sub (tg_auth s) \<noteq> [] \<and> \<not> tg_cas s \<and> verified (es @ [e]) (set_by_frame (permissions (tg_auth s)) e)"
    and runs: "\<And>r. r \<in> set (tg_runs s) \<Longrightarrow> snd r \<or> auth_sub (tg_auth s) \<noteq> [] \<and> \<not> tg_cas s"
    using assms(1) verified_more by (auto simp: gate_inv_def)
  show ?thesis
  proof (cases e)
    case (MeReply i r)
    note rest = rest [unfolded MeReply set_by_frame.simps, folded MeReply]
    show ?thesis
    proof (cases "i < length (tg_runs s) \<and> tg_runs s ! i = (AwaitMe, False) \<and> r \<noteq> None")
      case True
      then obtain ps where ps: "r = Some ps" by blast
      obtain n where "0 < n" "WorkspacesReply i (Some n) \<in> set es" using assms(1) True by (auto simp: gate_inv_def phases_ok_def)
      then obtain pre mid where "es = pre @ WorkspacesReply i (Some n) # mid" by (meson split_list)
      then have "verified (es @ [MeReply i (Some ps)]) ps" using \<open>0 < n\<close> unfolding verified_def frame_permissions_def by force
      moreover have "(AwaitMe, False) \<in> set (tg_runs s)" using True by (metis nth_mem)
      ultimately show ?thesis
        using True ps ph runs [of "(AwaitMe, False)"] runs
        by (auto simp: gate_inv_def MeReply me_reply_def setPermissions_def Let_def dest!: set_update_subset_insert [THEN subsetD])
    next
      case False
      show ?thesis
      proof (cases "i < length (tg_runs s) \<and> fst (tg_runs s ! i) = AwaitMe")
        case waiting: True
        show ?thesis
        proof (cases "snd (tg_runs s ! i)")
          case True
          then have "gate_handler s e = s\<lparr>tg_runs := (tg_runs s)[i := (VerifyDone, True)]\<rparr>"
            using waiting by (simp add: MeReply me_reply_def Let_def)
          then show ?thesis using ph rest runs by (auto simp: gate_inv_def dest!: set_update_subset_insert [THEN subsetD])
        next
          case going: False
          then have here: "tg_runs s ! i = (AwaitMe, False)" using waiting by (cases "tg_runs s ! i") simp
          then have "r = None" using False waiting by simp
          moreover have "auth_sub (tg_auth s) \<noteq> []" using runs [of "(AwaitMe, False)"] here waiting nth_mem by fastforce
          ultimately show ?thesis using here waiting assms(2) by (simp add: MeReply me_reply_def fail_verify_def clearAuth_def Let_def)
        qed
      next
        case out: False
        then have "gate_handler s e = s" by (simp only: MeReply gate_handler.simps me_reply_def if_False simp_thms)
        then show ?thesis using ph rest runs by (simp add: gate_inv_def)
      qed
    qed
  next
    case (WorkspacesReply i r)
    moreover have "i < length (tg_runs s) \<Longrightarrow> \<not> snd (tg_runs s ! i) \<Longrightarrow> auth_sub (tg_auth s) \<noteq> [] \<and> \<not> tg_cas s"
      using runs [of "tg_runs s ! i"] by simp
    ultimately show ?thesis
      using assms(2,3) ph rest runs
      by (auto simp: gate_inv_def workspaces_reply_def fail_verify_def clearAuth_def Let_def
          dest!: set_update_subset_insert [THEN subsetD] split: option.splits if_splits)
  qed (use assms(2,3) ph rest runs in \<open>auto simp: gate_inv_def cas_reply_def submit_token_def token_reply_def clearAuth_def setPermissions_def Let_def\<close>)
qed

lemma cas_status: "gate_inv es s \<Longrightarrow> tg_cas (gate_handler s e) \<Longrightarrow> tg_status (gate_handler s e) \<noteq> GateOk"
proof -
  assume inv: "gate_inv es s" and cas: "tg_cas (gate_handler s e)"
  then have c: "tg_cas s"
    by (cases e) (simp_all add: gate_defs split: if_splits option.splits)
  then have "tg_status s \<noteq> GateOk" "\<And>r. r \<in> set (tg_runs s) \<Longrightarrow> snd r" using inv by (auto simp: gate_inv_def)
  then show ?thesis using cas by (cases e) (auto simp: gate_defs split: if_splits option.splits)
qed

lemma gate_inv_step: "gate_inv es s \<Longrightarrow> gate_inv (es @ [e]) (gate_step s e)"
  using handler_inv [of es s e] effect_inv [of "es @ [e]" "gate_handler s e"] handler_phases [of es s e] cas_status [of es s e]
  by (auto simp: gate_step_def Let_def gate_inv_def [of es s])

lemma gate_run_inv: "gate_inv es (foldl gate_step (gate_start cas ticket a token) es)"
proof (induction es rule: rev_induct)
  case Nil
  then show ?case unfolding gate_start_def foldl_Nil by (rule effect_inv) (simp_all add: phases_ok_def)
qed (simp add: gate_inv_step)

text \<open>
  C29. The gate shows the client only to a signed-in user: when it is open, a request of this page for
  the workspaces has been answered with at least one and after it a request for the permissions, and
  the permissions the client works with are the ones that reply gave, or the ones the frame of the
  client has set last since.
\<close>

theorem gate_opens_verified:
  assumes "tg_status (foldl gate_step (gate_start cas ticket a token) es) = GateOk"
  shows "\<exists>i n ps pre mid post. es = pre @ WorkspacesReply i (Some n) # mid @ MeReply i (Some ps) # post \<and> 0 < n \<and>
    permissions (tg_auth (foldl gate_step (gate_start cas ticket a token) es)) = frame_permissions ps post \<and>
    auth_sub (tg_auth (foldl gate_step (gate_start cas ticket a token) es)) \<noteq> []"
  using gate_run_inv [of es cas ticket a token] assms unfolding gate_inv_def verified_def by blast

definition sign_in :: "gate_event list" where
  "sign_in = [WorkspacesReply 0 (Some 1), MeReply 0 (Some (Some [])), FramePermissions None]"

lemma gate_opens_verified_witness:
  "\<exists>i n ps pre mid post. sign_in = pre @ WorkspacesReply i (Some n) # mid @ MeReply i (Some ps) # post \<and> 0 < n \<and>
     None = frame_permissions ps post"
proof -
  let ?a = "\<lparr>auth_sub = js ''u'', permissions = None\<rparr>"
  have "tg_status (foldl gate_step (gate_start False [] ?a []) sign_in) = GateOk"
    "permissions (tg_auth (foldl gate_step (gate_start False [] ?a []) sign_in)) = None"
    by (simp_all add: sign_in_def gate_start_def verify_effect_def gate_step_def workspaces_reply_def me_reply_def setPermissions_def Let_def)
  then show ?thesis
    using gate_opens_verified [of False "[]" ?a "[]" sign_in] by metis
qed

text \<open>A callback whose ticket is empty waits for ever: no request is made and nothing else changes the screen.\<close>

definition gate_stuck :: "gate \<Rightarrow> bool" where
  "gate_stuck s \<longleftrightarrow> tg_cas s \<and> \<not> tg_login s \<and> tg_runs s = [] \<and> tg_status s = GateCas"

lemma gate_stuck_step: "gate_stuck s \<Longrightarrow> gate_stuck (gate_step s e)"
  by (cases e) (simp_all add: gate_stuck_def gate_defs verify_effect_def)

lemma empty_ticket_waits: "tg_status (foldl gate_step (gate_start True [] a token) es) = GateCas"
proof -
  have "gate_stuck (foldl gate_step (gate_start True [] a token) es)"
    by (induction es rule: rev_induct)
      (simp_all add: gate_stuck_step, simp add: gate_stuck_def gate_start_def verify_effect_def)
  then show ?thesis by (simp add: gate_stuck_def)
qed

end
