(* ===== verification/Grouping.thy ===== *)
theory Grouping
  imports JsPrelude "HOL-Library.Multiset"
begin

text \<open>
  Sets and groups the pages keep: a JavaScript \<open>Set\<close> as the list of its elements and a \<open>Map\<close> from texts
  to lists as the list of its entries, both in the order of insertion, with the facts about them that
  the components share.
\<close>

section \<open>Sets\<close>

text \<open>\<open>next.add(x)\<close>, and \<open>x\<close> switched on or off.\<close>

definition set_add :: "'a \<Rightarrow> 'a list \<Rightarrow> 'a list" where
  "set_add x xs = (if x \<in> set xs then xs else xs @ [x])"

definition set_toggle :: "'a \<Rightarrow> 'a list \<Rightarrow> 'a list" where
  "set_toggle x xs = (if x \<in> set xs then filter (\<lambda>y. y \<noteq> x) xs else xs @ [x])"

lemma set_set_add: "set (set_add x xs) = insert x (set xs)"
  by (auto simp: set_add_def)

lemma distinct_set_add: "distinct xs \<Longrightarrow> distinct (set_add x xs)" "distinct xs \<Longrightarrow> distinct (set_toggle x xs)"
  by (auto simp: set_add_def set_toggle_def)

section \<open>Groups\<close>

text \<open>The value of a key changed by \<open>f\<close>; a new key starts with no elements.\<close>

fun upd_group :: "('a list \<Rightarrow> 'a list) \<Rightarrow> jstr \<Rightarrow> (jstr \<times> 'a list) list \<Rightarrow> (jstr \<times> 'a list) list" where
  "upd_group f k [] = [(k, f [])]"
| "upd_group f k ((k', xs) # g) = (if k' = k then (k', f xs) # g else (k', xs) # upd_group f k g)"

definition entries :: "(jstr \<times> 'a list) list \<Rightarrow> (jstr \<times> 'a) set" where
  "entries g = {(k, x). \<exists>xs. (k, xs) \<in> set g \<and> x \<in> set xs}"

lemma entries_upd: "(\<And>xs. set (f xs) = insert x (set xs)) \<Longrightarrow> entries (upd_group f k g) = insert (k, x) (entries g)"
proof (induction f k g rule: upd_group.induct)
  case (2 f k k' xs g)
  have "entries ((k', ys) # g') = {k'} \<times> set ys \<union> entries g'" for ys and g' :: "(jstr \<times> 'a list) list"
    by (auto simp: entries_def)
  then show ?case using 2 by auto
qed (auto simp: entries_def)

definition group_elements :: "(jstr \<times> 'a list) list \<Rightarrow> 'a multiset" where
  "group_elements g = (\<Sum>(k, xs)\<leftarrow>g. mset xs)"

lemma group_elements_upd: "group_elements (upd_group (\<lambda>xs. xs @ [x]) k g) = add_mset x (group_elements g)"
  by (induction "\<lambda>xs. xs @ [x]" k g rule: upd_group.induct) (simp_all add: group_elements_def)

lemma group_elements_concat: "group_elements g = mset (concat (map snd g))"
  by (induction g) (simp_all add: group_elements_def split_beta)

definition groups_ok :: "(jstr \<times> 'a list) list \<Rightarrow> bool" where
  "groups_ok g \<longleftrightarrow> distinct (map fst g)"

lemma upd_keys: "set (map fst (upd_group f k g)) = insert k (set (map fst g))"
  by (induction f k g rule: upd_group.induct) auto

lemma groups_ok_upd: "groups_ok g \<Longrightarrow> groups_ok (upd_group f k g)"
proof (induction f k g rule: upd_group.induct)
  case (2 f k k' xs g)
  then show ?case using upd_keys [of f k g] by (auto simp: groups_ok_def)
qed (simp add: groups_ok_def)

end
