(* ===== verification/Roles.thy ===== *)
theory Roles
  imports WorkspacesStore Grouping "HOL-Library.List_Lexorder"
begin

text \<open>
  Roles and members.  The first part is the tab of roles, components/settings/tabs/RolesTab.tsx: how the
  resources of the server become the check boxes of the dialog, and the dialog as a machine.  The second
  part is the tab of the workspace, components/settings/tabs/WorkspaceTab.tsx: its form, its members and
  their roles (all under src/ui/web/src).  A \<open>Set\<close> is the list of its elements in their order of
  insertion, a \<open>Map\<close> the list of its entries.
\<close>

section \<open>Grouping the resources\<close>

record workspace_role =
  ro_name :: jstr
  ro_permissions :: "jstr list option"
  ro_members :: "jstr list option"

definition CRUD_ACTIONS :: "jstr list" where
  "CRUD_ACTIONS = [js ''read'', js ''create'', js ''update'', js ''delete'']"

definition TAB_LABELS :: "(jstr \<times> jstr) list" where
  "TAB_LABELS = [(js ''sessions'', js ''Sessions''), (js ''skills'', js ''Skills''), (js ''context-files'', js ''Context Files''),
     (js ''traces'', js ''Traces''), (js ''roles'', js ''Roles''), (js ''knowledge'', js ''Knowledge''), (js ''mcp'', js ''MCP Servers'')]"

text \<open>The second and third part of a resource of three parts with the prefix \<open>p\<close>.\<close>

definition parts_of :: "jstr \<Rightarrow> jstr \<Rightarrow> (jstr \<times> jstr) option" where
  "parts_of p r = (if starts_with p r then (case split_char 58 r of [_, a, b] \<Rightarrow> Some (a, b) | _ \<Rightarrow> None) else None)"

definition toolResources :: "jstr list \<Rightarrow> jstr list" where
  "toolResources rs = filter (starts_with (js ''tool:'')) rs"

definition mcp_group :: "(jstr \<times> jstr list) list \<Rightarrow> jstr \<Rightarrow> (jstr \<times> jstr list) list" where
  "mcp_group g r = (case parts_of (js ''mcp:'') r of None \<Rightarrow> g | Some (server, _) \<Rightarrow> upd_group (\<lambda>xs. xs @ [r]) server g)"

definition mcpResourcesByServer :: "jstr list \<Rightarrow> (jstr \<times> jstr list) list" where
  "mcpResourcesByServer rs = map (apsnd sort) (foldl mcp_group [] rs)"

definition tab_group :: "(jstr \<times> jstr list) list \<Rightarrow> jstr \<Rightarrow> (jstr \<times> jstr list) list" where
  "tab_group g r = (case parts_of (js ''tab:'') r of None \<Rightarrow> g | Some (tab, action) \<Rightarrow> upd_group (set_add action) tab g)"

record tab_row =
  tr_name :: jstr
  tr_label :: jstr
  tr_actions :: "jstr list"

definition tabMatrix :: "jstr list \<Rightarrow> tab_row list" where
  "tabMatrix rs = map (\<lambda>(n, acts). \<lparr>tr_name = n, tr_label = (case map_of TAB_LABELS n of Some l \<Rightarrow> l | None \<Rightarrow> n), tr_actions = acts\<rparr>)
     (foldl tab_group [] rs)"

definition tab_resource :: "jstr \<Rightarrow> jstr \<Rightarrow> jstr" where
  "tab_resource tab action = js ''tab:'' @ tab @ [58] @ action"

definition perms_of :: "workspace_role \<Rightarrow> jstr list" where
  "perms_of r = (case ro_permissions r of None \<Rightarrow> [] | Some ps \<Rightarrow> ps)"

definition buildRoleMatrix :: "jstr list \<Rightarrow> workspace_role \<Rightarrow> (tab_row \<times> (jstr \<times> bool) list) list" where
  "buildRoleMatrix rs r = map (\<lambda>tab. (tab, map (\<lambda>a. (a, tab_resource (tr_name tab) a \<in> set (perms_of r))) CRUD_ACTIONS)) (tabMatrix rs)"

definition getRoleToolPerms :: "workspace_role \<Rightarrow> jstr list" where
  "getRoleToolPerms r = filter (starts_with (js ''tool:'')) (perms_of r)"

definition getRoleMCPPermsByServer :: "workspace_role \<Rightarrow> (jstr \<times> jstr list) list" where
  "getRoleMCPPermsByServer r = foldl (\<lambda>g p. case parts_of (js ''mcp:'') p of None \<Rightarrow> g
     | Some (server, fn) \<Rightarrow> upd_group (\<lambda>xs. xs @ [fn]) server g) [] (perms_of r)"

text \<open>\<open>[...entries].sort()\<close> compares the texts of the entries.\<close>

definition server_rows :: "(jstr \<times> jstr list) list \<Rightarrow> (jstr \<times> jstr list) list" where
  "server_rows g = sort_key (\<lambda>(server, ps). join [44] (server # ps)) g"

text \<open>
  The check boxes of the dialog, from top to bottom: those of single permissions, and for each MCP server
  one in front of its permissions that stands for all of them.
\<close>

datatype check_box = PermBox jstr | ServerBox jstr

definition checkboxes :: "jstr list \<Rightarrow> check_box list" where
  "checkboxes rs =
     map PermBox (concat (map (\<lambda>tab. map (tab_resource (tr_name tab)) (filter (\<lambda>a. a \<in> set (tr_actions tab)) CRUD_ACTIONS)) (tabMatrix rs))) @
     map PermBox (toolResources rs) @
     concat (map (\<lambda>(server, perms). ServerBox server # map PermBox perms) (server_rows (mcpResourcesByServer rs)))"

section \<open>The tab of roles\<close>

datatype role_request = CreateRole jstr "jstr list" | UpdateRole jstr "jstr list" | DeleteRole jstr

record roles_tab =
  rl_roles :: "workspace_role list"
  rl_resources :: "jstr list"
  rl_loading :: bool
  rl_expanded :: "jstr list"
  rl_dialog :: bool
  rl_editing :: "jstr option"
  rl_name :: jstr
  rl_selected :: "jstr list"
  rl_saving :: bool
  rl_loads :: nat
  rl_sent :: "role_request list"
  rl_toasts :: "jstr list"

definition roles_load :: "roles_tab \<Rightarrow> roles_tab" where
  "roles_load s = s\<lparr>rl_loading := True, rl_loads := Suc (rl_loads s)\<rparr>"

definition roles_start :: roles_tab where
  "roles_start = roles_load \<lparr>rl_roles = [], rl_resources = [], rl_loading = True, rl_expanded = [], rl_dialog = False, rl_editing = None,
     rl_name = [], rl_selected = [], rl_saving = False, rl_loads = 0, rl_sent = [], rl_toasts = []\<rparr>"

text \<open>Both requests answered, or one failed.\<close>

definition roles_reply :: "(workspace_role list \<times> jstr list) option \<Rightarrow> roles_tab \<Rightarrow> roles_tab" where
  "roles_reply r s = (if rl_loads s = 0 then s else
     s\<lparr>rl_roles := (case r of Some (rs, _) \<Rightarrow> rs | None \<Rightarrow> []), rl_resources := (case r of Some (_, res) \<Rightarrow> res | None \<Rightarrow> []),
       rl_loading := False, rl_loads := rl_loads s - 1\<rparr>)"

definition role_create :: "roles_tab \<Rightarrow> roles_tab" where
  "role_create s = s\<lparr>rl_dialog := True, rl_editing := None, rl_name := [], rl_selected := []\<rparr>"

definition role_edit :: "workspace_role \<Rightarrow> roles_tab \<Rightarrow> roles_tab" where
  "role_edit r s = s\<lparr>rl_dialog := True, rl_editing := Some (ro_name r), rl_name := ro_name r, rl_selected := remdups (perms_of r)\<rparr>"

text \<open>An empty name counts as none.\<close>

definition edited_role :: "roles_tab \<Rightarrow> jstr option" where
  "edited_role s = (case rl_editing s of Some n \<Rightarrow> if n = [] then None else Some n | None \<Rightarrow> None)"

definition role_save_disabled :: "roles_tab \<Rightarrow> bool" where
  "role_save_disabled s \<longleftrightarrow> rl_saving s \<or> (edited_role s = None \<and> trim (rl_name s) = [])"

definition handleSaveRole :: "roles_tab \<Rightarrow> roles_tab" where
  "handleSaveRole s = (if role_save_disabled s then s else
     s\<lparr>rl_saving := True, rl_sent := rl_sent s @ [case edited_role s of
        Some n \<Rightarrow> UpdateRole n (rl_selected s) | None \<Rightarrow> CreateRole (rl_name s) (rl_selected s)]\<rparr>)"

definition role_saved :: "bool \<Rightarrow> bool \<Rightarrow> roles_tab \<Rightarrow> roles_tab" where
  "role_saved updated ok s =
     (if \<not> rl_saving s then s
      else if ok then roles_load (s\<lparr>rl_dialog := False, rl_saving := False,
         rl_toasts := rl_toasts s @ [if updated then js ''Role updated'' else js ''Role created'']\<rparr>)
      else s\<lparr>rl_saving := False\<rparr>)"

definition handleDeleteRole :: "jstr \<Rightarrow> bool \<Rightarrow> roles_tab \<Rightarrow> roles_tab" where
  "handleDeleteRole n confirmed s = (if confirmed then s\<lparr>rl_sent := rl_sent s @ [DeleteRole n]\<rparr> else s)"

definition role_deleted :: "jstr \<Rightarrow> roles_tab \<Rightarrow> roles_tab" where
  "role_deleted n s = roles_load (s\<lparr>rl_expanded := filter (\<lambda>m. m \<noteq> n) (rl_expanded s), rl_toasts := rl_toasts s @ [js ''Role deleted'']\<rparr>)"

definition togglePerm :: "jstr \<Rightarrow> roles_tab \<Rightarrow> roles_tab" where
  "togglePerm p s = s\<lparr>rl_selected := set_toggle p (rl_selected s)\<rparr>"

text \<open>The check box of a server: all of its permissions on, or all off when they are on.\<close>

definition toggle_server :: "jstr \<Rightarrow> roles_tab \<Rightarrow> roles_tab" where
  "toggle_server server s = (case map_of (mcpResourcesByServer (rl_resources s)) server of
     None \<Rightarrow> s
   | Some ps \<Rightarrow> s\<lparr>rl_selected :=
       (if list_all (\<lambda>p. p \<in> set (rl_selected s)) ps then filter (\<lambda>q. q \<notin> set ps) (rl_selected s)
        else foldl (\<lambda>xs p. set_add p xs) (rl_selected s) ps)\<rparr>)"

datatype roles_event =
  RolesReply "(workspace_role list \<times> jstr list) option" | ExpandRole jstr | CreateClick | EditClick workspace_role | RoleNameTyped jstr
| TogglePerm jstr | ToggleServer jstr | SaveRole | RoleSaved bool bool | DeleteClick jstr bool | RoleDeleted jstr | RoleDialog bool

fun roles_step :: "roles_tab \<Rightarrow> roles_event \<Rightarrow> roles_tab" where
  "roles_step s (RolesReply r) = roles_reply r s"
| "roles_step s (ExpandRole n) = s\<lparr>rl_expanded := set_toggle n (rl_expanded s)\<rparr>"
| "roles_step s CreateClick = role_create s"
| "roles_step s (EditClick r) = role_edit r s"
| "roles_step s (RoleNameTyped t) = s\<lparr>rl_name := t\<rparr>"
| "roles_step s (TogglePerm p) = togglePerm p s"
| "roles_step s (ToggleServer server) = toggle_server server s"
| "roles_step s SaveRole = handleSaveRole s"
| "roles_step s (RoleSaved updated ok) = role_saved updated ok s"
| "roles_step s (DeleteClick n confirmed) = handleDeleteRole n confirmed s"
| "roles_step s (RoleDeleted n) = role_deleted n s"
| "roles_step s (RoleDialog b) = s\<lparr>rl_dialog := b\<rparr>"

section \<open>Facts: the check boxes\<close>

text \<open>The permissions with a check box of their own, and the servers with one.\<close>

fun box_perms :: "check_box \<Rightarrow> jstr list" where
  "box_perms (PermBox p) = [p]"
| "box_perms (ServerBox server) = []"

fun box_servers :: "check_box \<Rightarrow> jstr list" where
  "box_servers (PermBox p) = []"
| "box_servers (ServerBox server) = [server]"

definition permission_boxes :: "jstr list \<Rightarrow> jstr list" where
  "permission_boxes rs = concat (map box_perms (checkboxes rs))"

lemma box_lists [simp]:
  "concat (map box_perms (map PermBox ps)) = ps" "concat (map box_servers (map PermBox ps)) = []"
  "concat (map box_perms (concat (map (\<lambda>(server, perms). ServerBox server # map PermBox perms) g))) = concat (map snd g)"
  "concat (map box_servers (concat (map (\<lambda>(server, perms). ServerBox server # map PermBox perms) g))) = map fst g"
proof -
  show perms: "concat (map box_perms (map PermBox ps)) = ps" and servers: "concat (map box_servers (map PermBox ps)) = []" for ps
    by (induction ps) simp_all
  show "concat (map box_perms (concat (map (\<lambda>(server, perms). ServerBox server # map PermBox perms) g))) = concat (map snd g)"
    using perms by (induction g) auto
  show "concat (map box_servers (concat (map (\<lambda>(server, perms). ServerBox server # map PermBox perms) g))) = map fst g"
    using servers by (induction g) auto
qed

lemma distinct_boxes:
  "distinct (concat (map box_perms bs)) \<Longrightarrow> distinct (concat (map box_servers bs)) \<Longrightarrow> distinct bs"
proof (induction bs)
  case (Cons b bs)
  then show ?case by (cases b) force+
qed simp

lemma boxes_split: "set bs = PermBox ` set (concat (map box_perms bs)) \<union> ServerBox ` set (concat (map box_servers bs))"
proof (induction bs)
  case (Cons b bs)
  then show ?case by (cases b) auto
qed simp

text \<open>The groups are those of the servers named by the resources.\<close>

lemma mcp_keys: "set (map fst (foldl mcp_group g rs)) = set (map fst g) \<union> {sv. \<exists>r\<in>set rs. \<exists>f. parts_of (js ''mcp:'') r = Some (sv, f)}"
proof (induction rs arbitrary: g)
  case (Cons r rs)
  have "set (map fst (mcp_group g r)) = set (map fst g) \<union> {sv. \<exists>f. parts_of (js ''mcp:'') r = Some (sv, f)}"
  proof (cases "parts_of (js ''mcp:'') r")
    case (Some q)
    then obtain sv f where eq: "parts_of (js ''mcp:'') r = Some (sv, f)" by (cases q) blast
    show ?thesis unfolding mcp_group_def eq option.case prod.case upd_keys by auto
  qed (simp add: mcp_group_def)
  then show ?case unfolding foldl_Cons Cons.IH by auto
qed simp

lemma groups_ok_mcp: "groups_ok g \<Longrightarrow> groups_ok (foldl mcp_group g rs)"
  by (induction rs arbitrary: g) (auto simp: mcp_group_def groups_ok_upd split: option.split)

lemma server_boxes:
  "set (map fst (server_rows (mcpResourcesByServer rs))) = {sv. \<exists>r\<in>set rs. \<exists>f. parts_of (js ''mcp:'') r = Some (sv, f)}"
  "distinct (map fst (server_rows (mcpResourcesByServer rs)))"
proof -
  have keys: "map fst (mcpResourcesByServer rs) = map fst (foldl mcp_group [] rs)"
    by (simp add: mcpResourcesByServer_def)
  have rows: "mset (map fst (server_rows g)) = mset (map fst g)" for g
    by (simp add: server_rows_def)
  show "set (map fst (server_rows (mcpResourcesByServer rs))) = {sv. \<exists>r\<in>set rs. \<exists>f. parts_of (js ''mcp:'') r = Some (sv, f)}"
    using arg_cong [OF rows [of "mcpResourcesByServer rs"], of set_mset] unfolding set_mset_mset keys mcp_keys by simp
  have "distinct (map fst (foldl mcp_group [] rs))"
    using groups_ok_mcp [of "[]" rs] by (simp add: groups_ok_def)
  then show "distinct (map fst (server_rows (mcpResourcesByServer rs)))"
    using mset_eq_imp_distinct_iff [OF rows [of "mcpResourcesByServer rs"]] unfolding keys by simp
qed

lemma join_split_char: "join [sep] (split_char sep s) = s"
proof (induction s)
  case (Cons c s)
  obtain p ps where "split_char sep s = p # ps" by (cases "split_char sep s") auto
  then show ?case using Cons by (cases ps) auto
qed simp

lemma parts_of_text:
  assumes "58 \<notin> set p" and "parts_of (p @ [58]) r = Some (a, b)"
  shows "r = p @ 58 # a @ 58 # b"
proof -
  obtain x where s: "split_char 58 r = [x, a, b]" and p: "starts_with (p @ [58]) r"
    using assms(2) by (auto simp: parts_of_def split: if_splits list.splits)
  obtain t where "r = p @ 58 # t" using p by (auto simp: starts_with_iff)
  then have "x = p" using s split_char_append_sep [OF assms(1), of t] by simp
  then show ?thesis using join_split_char [of 58 r] s by simp
qed

lemma tab_parts: "parts_of (js ''tab:'') r = Some (a, b) \<Longrightarrow> r = tab_resource a b"
  using parts_of_text [of "js ''tab''" r a b] by (simp add: tab_resource_def)

lemma tab_entries: "entries (foldl tab_group g rs) = entries g \<union> {(t, a). \<exists>r\<in>set rs. parts_of (js ''tab:'') r = Some (t, a)}"
proof (induction rs arbitrary: g)
  case (Cons r rs)
  have "entries (tab_group g r) = entries g \<union> {(t, a). parts_of (js ''tab:'') r = Some (t, a)}"
    by (auto simp: tab_group_def entries_upd set_set_add split: option.split)
  then show ?case using Cons by auto
qed simp

lemma elements_mcp: "group_elements (foldl mcp_group g rs) = group_elements g + mset (filter (\<lambda>r. parts_of (js ''mcp:'') r \<noteq> None) rs)"
  by (induction rs arbitrary: g) (auto simp: mcp_group_def group_elements_upd split: option.split)

lemma elements_rows: "group_elements (server_rows g) = group_elements g" "group_elements (map (apsnd sort) g) = group_elements g"
proof -
  have "mset (map (\<lambda>(k, xs). mset xs) (server_rows g)) = mset (map (\<lambda>(k, xs). mset xs) g)"
    by (simp add: server_rows_def)
  then show "group_elements (server_rows g) = group_elements g" unfolding group_elements_def by (metis sum_mset_sum_list)
  show "group_elements (map (apsnd sort) g) = group_elements g" by (induction g) (simp_all add: group_elements_def split_beta)
qed

lemma mcp_boxes: "mset (concat (map snd (server_rows (mcpResourcesByServer rs)))) = mset (filter (\<lambda>r. parts_of (js ''mcp:'') r \<noteq> None) rs)"
  using elements_rows(1) [of "mcpResourcesByServer rs"] elements_rows(2) [of "foldl mcp_group [] rs"] elements_mcp [of "[]" rs]
  by (simp add: group_elements_concat mcpResourcesByServer_def)

lemma groups_ok_tab: "groups_ok g \<Longrightarrow> groups_ok (foldl tab_group g rs)"
  by (induction rs arbitrary: g) (auto simp: tab_group_def groups_ok_upd split: option.split)

definition tab_boxes :: "(jstr \<times> jstr list) list \<Rightarrow> jstr list" where
  "tab_boxes g = concat (map (\<lambda>(n, acts). map (tab_resource n) (filter (\<lambda>a. a \<in> set acts) CRUD_ACTIONS)) g)"

lemma permission_boxes_parts:
  "permission_boxes rs = tab_boxes (foldl tab_group [] rs) @ toolResources rs @ concat (map snd (server_rows (mcpResourcesByServer rs)))"
proof -
  have "concat (map (\<lambda>tab. map (tab_resource (tr_name tab)) (filter (\<lambda>a. a \<in> set (tr_actions tab)) CRUD_ACTIONS)) (tabMatrix rs)) =
      tab_boxes (foldl tab_group [] rs)"
    by (simp add: tab_boxes_def tabMatrix_def comp_def case_prod_unfold)
  then show ?thesis unfolding permission_boxes_def checkboxes_def map_append concat_append box_lists by simp
qed

lemma box_servers_rows: "concat (map box_servers (checkboxes rs)) = map fst (server_rows (mcpResourcesByServer rs))"
  unfolding checkboxes_def map_append concat_append box_lists by simp

lemma tab_boxes_set: "set (tab_boxes g) = {r. \<exists>(t, a)\<in>entries g. a \<in> set CRUD_ACTIONS \<and> r = tab_resource t a}"
  by (force simp: tab_boxes_def entries_def)

lemma tab_resource_inj: "58 \<notin> set t \<Longrightarrow> 58 \<notin> set t' \<Longrightarrow> tab_resource t a = tab_resource t' a' \<longleftrightarrow> t = t' \<and> a = a'"
proof -
  assume t: "58 \<notin> set t" "58 \<notin> set t'"
  have "t = t'" if e: "tab_resource t a = tab_resource t' a'"
  proof -
    have "t @ 58 # a = t' @ 58 # a'" using e by (simp add: tab_resource_def)
    then have "takeWhile (\<lambda>c. c \<noteq> 58) (t @ 58 # a) = takeWhile (\<lambda>c. c \<noteq> 58) (t' @ 58 # a')" by (rule arg_cong)
    moreover have "takeWhile (\<lambda>c. c \<noteq> 58) (x @ 58 # y) = x" if "58 \<notin> set x" for x y :: jstr
      using that by (induction x) auto
    ultimately show ?thesis using t by simp
  qed
  then show ?thesis by (auto simp: tab_resource_def)
qed

lemma split_char_sep_free: "p \<in> set (split_char sep s) \<Longrightarrow> sep \<notin> set p"
  by (induction s arbitrary: p) (auto split: if_splits list.splits)

lemma tab_names: "parts_of p r = Some (t, a) \<Longrightarrow> 58 \<notin> set t"
  using split_char_sep_free [of t 58 r] by (auto simp: parts_of_def split: if_splits list.splits)

lemma tab_boxes_distinct:
  assumes "groups_ok g" and "\<forall>n\<in>set (map fst g). 58 \<notin> set n"
  shows "distinct (tab_boxes g)"
  using assms
proof (induction g)
  case (Cons p g)
  obtain n acts where p: "p = (n, acts)" by (cases p)
  have crud: "distinct CRUD_ACTIONS" by (simp add: CRUD_ACTIONS_def)
  have "inj_on (tab_resource n) A" for A by (simp add: inj_on_def tab_resource_def)
  then have "distinct (map (tab_resource n) (filter (\<lambda>a. a \<in> set acts) CRUD_ACTIONS))" using crud by (simp add: distinct_map)
  moreover have "r \<notin> set (tab_boxes g)" if "r \<in> set (map (tab_resource n) (filter (\<lambda>a. a \<in> set acts) CRUD_ACTIONS))" for r
  proof
    assume "r \<in> set (tab_boxes g)"
    then obtain t a where t: "(t, a) \<in> entries g" "r = tab_resource t a" by (auto simp: tab_boxes_set)
    then have m: "t \<in> set (map fst g)" by (force simp: entries_def)
    then have "58 \<notin> set t" "58 \<notin> set n" "t \<noteq> n" using Cons.prems p by (auto simp: groups_ok_def)
    then show False using that t(2) by (auto simp: tab_resource_inj)
  qed
  moreover have "distinct (tab_boxes g)" using Cons by (simp add: groups_ok_def)
  moreover have "tab_boxes (p # g) = map (tab_resource n) (filter (\<lambda>a. a \<in> set acts) CRUD_ACTIONS) @ tab_boxes g"
    by (simp add: p tab_boxes_def)
  ultimately show ?case unfolding distinct_append by (metis disjoint_iff distinct_append)
qed (simp add: tab_boxes_def)

lemma tab_keys: "\<forall>n\<in>set (map fst g). 58 \<notin> set n \<Longrightarrow> \<forall>n\<in>set (map fst (foldl tab_group g rs)). 58 \<notin> set n"
proof (induction rs arbitrary: g)
  case (Cons r rs)
  have "\<forall>n\<in>set (map fst (tab_group g r)). 58 \<notin> set n"
  proof (cases "parts_of (js ''tab:'') r")
    case (Some q)
    then obtain t a where eq: "parts_of (js ''tab:'') r = Some (t, a)" by (cases q) blast
    have "set (map fst (tab_group g r)) = insert t (set (map fst g))"
      unfolding tab_group_def eq option.case prod.case by (rule upd_keys)
    then show ?thesis using Cons.prems tab_names [OF eq] by simp
  qed (use Cons.prems in \<open>simp add: tab_group_def\<close>)
  then show ?case unfolding foldl_Cons by (rule Cons.IH)
qed simp

text \<open>The three kinds of resource, told apart by their first letters.\<close>

definition offered :: "jstr \<Rightarrow> bool" where
  "offered r \<longleftrightarrow> starts_with (js ''tool:'') r \<or> parts_of (js ''mcp:'') r \<noteq> None \<or>
     (\<exists>t. \<exists>a\<in>set CRUD_ACTIONS. parts_of (js ''tab:'') r = Some (t, a))"

lemma parts_of_starts: "parts_of p r \<noteq> None \<Longrightarrow> starts_with p r"
  by (auto simp: parts_of_def split: if_splits)

lemma prefixes_apart:
  "starts_with (js ''tool:'') r \<Longrightarrow> \<not> starts_with (js ''mcp:'') r \<and> \<not> starts_with (js ''tab:'') r"
  "starts_with (js ''mcp:'') r \<Longrightarrow> \<not> starts_with (js ''tab:'') r"
  by (auto simp: starts_with_iff)

lemma tab_box_set: "set (tab_boxes (foldl tab_group [] rs)) = {r\<in>set rs. \<exists>t. \<exists>a\<in>set CRUD_ACTIONS. parts_of (js ''tab:'') r = Some (t, a)}"
  using tab_entries [of "[]" rs] tab_parts by (fastforce simp: tab_boxes_set entries_def)

lemma mcp_box_set: "set (concat (map snd (server_rows (mcpResourcesByServer rs)))) = {r\<in>set rs. parts_of (js ''mcp:'') r \<noteq> None}"
  using arg_cong [OF mcp_boxes [of rs], of set_mset] by simp

lemma permission_boxes_ok:
  "set (permission_boxes rs) = {r\<in>set rs. offered r}" "distinct rs \<Longrightarrow> distinct (permission_boxes rs)"
proof -
  show "set (permission_boxes rs) = {r\<in>set rs. offered r}"
    unfolding permission_boxes_parts set_append tab_box_set mcp_box_set by (auto simp: toolResources_def offered_def)
  assume d: "distinct rs"
  have "distinct (concat (map snd (server_rows (mcpResourcesByServer rs))))"
    using mset_eq_imp_distinct_iff [OF mcp_boxes [of rs]] d by (rule iffD2 [OF _ distinct_filter])
  moreover have "distinct (tab_boxes (foldl tab_group [] rs))"
    using groups_ok_tab [of "[]" rs] tab_keys [of "[]" rs] by (intro tab_boxes_distinct) (simp_all add: groups_ok_def)
  moreover have "starts_with (js ''tab:'') r" if "r \<in> set (tab_boxes (foldl tab_group [] rs))" for r
    using that parts_of_starts unfolding tab_box_set by blast
  moreover have "starts_with (js ''mcp:'') r" if "r \<in> set (concat (map snd (server_rows (mcpResourcesByServer rs))))" for r
    using that parts_of_starts unfolding mcp_box_set by blast
  ultimately show "distinct (permission_boxes rs)"
    unfolding permission_boxes_parts distinct_append using d prefixes_apart by (fastforce simp: toolResources_def)
qed

text \<open>
  C30. The dialog of a role has a check box for each resource of the server that is a tool, a function of
  an MCP server or one of the four actions on a tab, one for each MCP server that a resource names, and
  no others; where the server lists no resource twice, no check box is there twice.
\<close>

theorem checkboxes_cover_resources:
  "set (checkboxes rs) = PermBox ` {r\<in>set rs. offered r} \<union>
     ServerBox ` {server. \<exists>r\<in>set rs. \<exists>f. parts_of (js ''mcp:'') r = Some (server, f)} \<and>
   (distinct rs \<longrightarrow> distinct (checkboxes rs))"
proof
  show "set (checkboxes rs) = PermBox ` {r\<in>set rs. offered r} \<union>
     ServerBox ` {server. \<exists>r\<in>set rs. \<exists>f. parts_of (js ''mcp:'') r = Some (server, f)}"
    using boxes_split [of "checkboxes rs"] permission_boxes_ok(1) [of rs]
    unfolding box_servers_rows server_boxes(1) permission_boxes_def by simp
  show "distinct rs \<longrightarrow> distinct (checkboxes rs)"
  proof
    assume "distinct rs"
    then have "distinct (concat (map box_perms (checkboxes rs)))"
      using permission_boxes_ok(2) by (simp only: permission_boxes_def)
    moreover have "distinct (concat (map box_servers (checkboxes rs)))"
      unfolding box_servers_rows by (rule server_boxes(2))
    ultimately show "distinct (checkboxes rs)" by (rule distinct_boxes)
  qed
qed

lemma checkboxes_cover_resources_witness:
  "distinct (checkboxes [js ''tab:routines:read'', js ''tool:bash'', js ''tab:routines:run'', js ''mcp:jira:read''])"
proof -
  have "distinct [js ''tab:routines:read'', js ''tool:bash'', js ''tab:routines:run'', js ''mcp:jira:read'']" by simp
  then show ?thesis using checkboxes_cover_resources by blast
qed

text \<open>
  The backend guards the runs of routines with \<open>tab:routines:run\<close>, which it lists as a resource; the
  table of the dialog has no column for it.
\<close>

lemma run_not_offered: "js ''tab:routines:run'' \<notin> set (permission_boxes rs)"
proof
  assume "js ''tab:routines:run'' \<in> set (permission_boxes rs)"
  then have "r \<in> set (permission_boxes rs) \<and> offered r" if "r = js ''tab:routines:run''" for r
    unfolding permission_boxes_parts set_append tab_box_set mcp_box_set using that
    by (auto simp: toolResources_def offered_def)
  then have "offered (js ''tab:routines:run'')" by blast
  moreover have "\<not> offered (js ''tab:routines:run'')"
    by (simp add: offered_def parts_of_def starts_with_def CRUD_ACTIONS_def)
  ultimately show False by blast
qed

section \<open>Facts: the dialog\<close>

text \<open>What the check boxes mean: a set of permissions.\<close>

fun tick :: "jstr list \<Rightarrow> jstr set \<Rightarrow> roles_event \<Rightarrow> jstr set" where
  "tick rs P (TogglePerm p) = (if p \<in> P then P - {p} else insert p P)"
| "tick rs P (ToggleServer server) = (case map_of (mcpResourcesByServer rs) server of None \<Rightarrow> P
     | Some ps \<Rightarrow> if set ps \<subseteq> P then P - set ps else P \<union> set ps)"
| "tick rs P _ = P"

text \<open>The events of a dialog that stays open: a check box it shows, or its name.\<close>

fun box_event :: "jstr list \<Rightarrow> roles_event \<Rightarrow> bool" where
  "box_event rs (TogglePerm p) = (p \<in> set (permission_boxes rs))"
| "box_event rs (ToggleServer _) = True"
| "box_event rs (RoleNameTyped _) = True"
| "box_event rs _ = False"

lemma set_fold_add: "set (foldl (\<lambda>xs p. set_add p xs) xs ps) = set xs \<union> set ps"
  by (induction ps arbitrary: xs) (auto simp: set_set_add)

lemma distinct_fold_add: "distinct xs \<Longrightarrow> distinct (foldl (\<lambda>xs p. set_add p xs) xs ps)"
  by (induction ps arbitrary: xs) (simp_all add: distinct_set_add)

definition same_dialog :: "roles_tab \<Rightarrow> roles_tab \<Rightarrow> bool" where
  "same_dialog s t \<longleftrightarrow> rl_resources t = rl_resources s \<and> rl_editing t = rl_editing s \<and> rl_saving t = rl_saving s \<and>
     rl_sent t = rl_sent s \<and> (distinct (rl_selected s) \<longrightarrow> distinct (rl_selected t))"

lemma box_step:
  assumes "box_event (rl_resources s) e"
  shows "same_dialog s (roles_step s e) \<and> set (rl_selected (roles_step s e)) = tick (rl_resources s) (set (rl_selected s)) e"
proof (cases e)
  case (ToggleServer sv)
  then show ?thesis
    by (auto simp: same_dialog_def toggle_server_def set_fold_add distinct_fold_add list_all_iff split: option.split)
qed (use assms in \<open>auto simp: same_dialog_def togglePerm_def set_toggle_def\<close>)

lemma box_run:
  "list_all (box_event (rl_resources s)) es \<Longrightarrow> same_dialog s (foldl roles_step s es) \<and>
   set (rl_selected (foldl roles_step s es)) = foldl (tick (rl_resources s)) (set (rl_selected s)) es"
proof (induction es arbitrary: s)
  case (Cons e es)
  have one: "same_dialog s (roles_step s e)" "set (rl_selected (roles_step s e)) = tick (rl_resources s) (set (rl_selected s)) e"
    using box_step [of s e] Cons.prems by auto
  then have res: "rl_resources (roles_step s e) = rl_resources s" by (simp add: same_dialog_def)
  then have "same_dialog (roles_step s e) (foldl roles_step (roles_step s e) es)"
    "set (rl_selected (foldl roles_step (roles_step s e) es)) = foldl (tick (rl_resources s)) (set (rl_selected (roles_step s e))) es"
    using Cons.IH [of "roles_step s e"] Cons.prems by auto
  then show ?case using one by (auto simp: same_dialog_def)
qed (simp add: same_dialog_def)

lemma map_of_server: "map_of (mcpResourcesByServer rs) server = Some ps \<Longrightarrow> set ps \<subseteq> set (permission_boxes rs)"
proof -
  assume "map_of (mcpResourcesByServer rs) server = Some ps"
  then have "(server, ps) \<in> set (mcpResourcesByServer rs)" by (rule map_of_SomeD)
  then have "set ps \<subseteq> set (concat (map snd (server_rows (mcpResourcesByServer rs))))" by (force simp: server_rows_def)
  then show ?thesis by (simp only: permission_boxes_parts set_append) blast
qed

lemma tick_outside: "box_event rs e \<Longrightarrow> tick rs P e - set (permission_boxes rs) = P - set (permission_boxes rs)"
  by (cases e) (auto split: option.splits dest: map_of_server)

lemma tick_run_outside: "list_all (box_event rs) es \<Longrightarrow> foldl (tick rs) P es - set (permission_boxes rs) = P - set (permission_boxes rs)"
  by (induction es arbitrary: P) (simp_all add: tick_outside)

text \<open>
  C31. A role that is opened, whose check boxes are clicked in any order and which is saved is sent with
  exactly the permissions it had, changed by those clicks; a permission for which the dialog has no
  check box is neither added nor lost.
\<close>

theorem role_edit_sends:
  assumes "\<not> rl_saving s" and "ro_name r \<noteq> []" and "list_all (box_event (rl_resources s)) es"
  shows "\<exists>ps. rl_sent (foldl roles_step s (EditClick r # es @ [SaveRole])) = rl_sent s @ [UpdateRole (ro_name r) ps] \<and>
    distinct ps \<and> set ps = foldl (tick (rl_resources s)) (set (perms_of r)) es \<and>
    set ps - set (permission_boxes (rl_resources s)) = set (perms_of r) - set (permission_boxes (rl_resources s))"
proof -
  let ?s = "roles_step s (EditClick r)"
  have s: "rl_resources ?s = rl_resources s" "rl_editing ?s = Some (ro_name r)" "\<not> rl_saving ?s" "rl_sent ?s = rl_sent s"
    "set (rl_selected ?s) = set (perms_of r)" "distinct (rl_selected ?s)"
    using assms(1) by (simp_all add: role_edit_def)
  let ?t = "foldl roles_step ?s es"
  have t: "rl_editing ?t = Some (ro_name r)" "\<not> rl_saving ?t" "rl_sent ?t = rl_sent s" "distinct (rl_selected ?t)"
    "set (rl_selected ?t) = foldl (tick (rl_resources s)) (set (perms_of r)) es"
    using box_run [of ?s es] assms(3) s by (auto simp: same_dialog_def)
  then have "rl_sent (roles_step ?t SaveRole) = rl_sent s @ [UpdateRole (ro_name r) (rl_selected ?t)]"
    using assms(2) by (simp add: handleSaveRole_def role_save_disabled_def edited_role_def)
  then show ?thesis using t(4,5) tick_run_outside [OF assms(3)] by auto
qed

lemma role_edit_sends_witness:
  "\<exists>ps. rl_sent (foldl roles_step (roles_reply (Some ([], [js ''tool:a'', js ''mcp:j:r''])) roles_start)
     (EditClick \<lparr>ro_name = js ''x'', ro_permissions = Some [js ''tab:routines:run'', js ''tool:a''], ro_members = None\<rparr> #
      [TogglePerm (js ''tool:a''), ToggleServer (js ''j'')] @ [SaveRole])) = [UpdateRole (js ''x'') ps] \<and>
   set ps - {js ''tool:a'', js ''mcp:j:r''} = {js ''tab:routines:run''}"
proof -
  let ?s = "roles_reply (Some ([], [js ''tool:a'', js ''mcp:j:r''])) roles_start"
  let ?r = "\<lparr>ro_name = js ''x'', ro_permissions = Some [js ''tab:routines:run'', js ''tool:a''], ro_members = None\<rparr>"
  have res: "rl_resources ?s = [js ''tool:a'', js ''mcp:j:r'']" "\<not> rl_saving ?s" "rl_sent ?s = []"
    by (simp_all add: roles_reply_def roles_start_def roles_load_def)
  have "permission_boxes [js ''tool:a'', js ''mcp:j:r''] = [js ''tool:a'', js ''mcp:j:r'']"
    by (simp add: permission_boxes_def checkboxes_def tabMatrix_def toolResources_def mcpResourcesByServer_def tab_group_def mcp_group_def parts_of_def
        starts_with_def server_rows_def)
  then have "list_all (box_event (rl_resources ?s)) [TogglePerm (js ''tool:a''), ToggleServer (js ''j'')]" and
    c: "set (permission_boxes (rl_resources ?s)) = {js ''tool:a'', js ''mcp:j:r''}"
    unfolding res by simp_all
  moreover have "set (perms_of ?r) - {js ''tool:a'', js ''mcp:j:r''} = {js ''tab:routines:run''}" by (auto simp: perms_of_def)
  ultimately show ?thesis
    using role_edit_sends [of ?s ?r "[TogglePerm (js ''tool:a''), ToggleServer (js ''j'')]"] res(2,3) unfolding c by auto
qed

section \<open>The tab of the workspace\<close>

text \<open>
  The state of the tab; \<open>mt_workspace\<close> is the active workspace of the store and \<open>mt_loads\<close> the
  workspaces whose members have been asked for and not answered, oldest first.
\<close>

datatype member_request = AddMember jstr jstr "jstr list" | SetMemberRoles jstr jstr "jstr list" | RemoveMember jstr jstr
| RenameWorkspace jstr jstr jstr

record members_tab =
  mt_workspace :: "workspace option"
  mt_name :: jstr
  mt_description :: jstr
  mt_saving :: bool
  mt_members :: "jstr list"
  mt_roles :: "workspace_role list"
  mt_dialog :: bool
  mt_editing :: "jstr option"
  mt_sub :: jstr
  mt_selected :: "jstr list"
  mt_member_saving :: bool
  mt_loads :: "jstr list"
  mt_sent :: "member_request list"
  mt_toasts :: "jstr list"

definition loadMembers :: "workspace option \<Rightarrow> members_tab \<Rightarrow> members_tab" where
  "loadMembers w s = (case w of None \<Rightarrow> s | Some w \<Rightarrow> s\<lparr>mt_loads := mt_loads s @ [w_id w]\<rparr>)"

definition same_fields :: "('w \<Rightarrow> jstr) \<Rightarrow> 'w option \<Rightarrow> 'w option \<Rightarrow> bool" where
  "same_fields f v w \<longleftrightarrow> map_option f v = map_option f w"

text \<open>The store has another active workspace, or another text of it: the two effects.\<close>

definition workspace_changed :: "workspace option \<Rightarrow> members_tab \<Rightarrow> members_tab" where
  "workspace_changed w s0 =
     (let old = mt_workspace s0; s = s0\<lparr>mt_workspace := w\<rparr>;
          s1 = (if same_fields w_id old w \<and> same_fields w_name old w \<and> same_fields w_description old w then s
                else s\<lparr>mt_name := (case w of Some v \<Rightarrow> w_name v | None \<Rightarrow> []),
                       mt_description := (case w of Some v \<Rightarrow> w_description v | None \<Rightarrow> [])\<rparr>)
      in if same_fields w_id old w then s1 else loadMembers w s1)"

definition members_start :: "workspace option \<Rightarrow> members_tab" where
  "members_start w = loadMembers w \<lparr>mt_workspace = w, mt_name = (case w of Some v \<Rightarrow> w_name v | None \<Rightarrow> []),
     mt_description = (case w of Some v \<Rightarrow> w_description v | None \<Rightarrow> []), mt_saving = False, mt_members = [], mt_roles = [],
     mt_dialog = False, mt_editing = None, mt_sub = [], mt_selected = [], mt_member_saving = False, mt_loads = [], mt_sent = [], mt_toasts = []\<rparr>"

text \<open>The answer to the load \<open>i\<close>: the members and the roles, or a failure, which changes nothing.\<close>

definition members_reply :: "nat \<Rightarrow> (jstr list \<times> workspace_role list) option \<Rightarrow> members_tab \<Rightarrow> members_tab" where
  "members_reply i r s0 = (if length (mt_loads s0) \<le> i then s0 else
     let s = s0\<lparr>mt_loads := take i (mt_loads s0) @ drop (Suc i) (mt_loads s0)\<rparr> in
     case r of None \<Rightarrow> s | Some (m, rs) \<Rightarrow> s\<lparr>mt_members := m, mt_roles := rs\<rparr>)"

definition workspace_dirty :: "workspace \<Rightarrow> members_tab \<Rightarrow> bool" where
  "workspace_dirty w s \<longleftrightarrow> trim (mt_name s) \<noteq> w_name w \<or> mt_description s \<noteq> w_description w"

text \<open>The button is off while saving and when nothing has changed.\<close>

definition save_workspace :: "members_tab \<Rightarrow> members_tab" where
  "save_workspace s = (case mt_workspace s of None \<Rightarrow> s | Some w \<Rightarrow>
     if mt_saving s \<or> \<not> workspace_dirty w s then s
     else if trim (mt_name s) = [] then s\<lparr>mt_toasts := mt_toasts s @ [js ''Workspace name is required'']\<rparr>
     else s\<lparr>mt_saving := True, mt_sent := mt_sent s @ [RenameWorkspace (w_id w) (trim (mt_name s)) (mt_description s)]\<rparr>)"

definition workspace_saved :: "bool \<Rightarrow> members_tab \<Rightarrow> members_tab" where
  "workspace_saved ok s = (if \<not> mt_saving s then s else
     s\<lparr>mt_saving := False, mt_toasts := (if ok then mt_toasts s @ [js ''Workspace updated''] else mt_toasts s)\<rparr>)"

definition members_of :: "workspace_role \<Rightarrow> jstr list" where
  "members_of r = (case ro_members r of None \<Rightarrow> [] | Some ms \<Rightarrow> ms)"

definition rolesForMember :: "workspace_role list \<Rightarrow> jstr \<Rightarrow> jstr list" where
  "rolesForMember rs sub = map ro_name (filter (\<lambda>r. sub \<in> set (members_of r)) rs)"

definition isSoleAdmin :: "workspace_role list \<Rightarrow> jstr \<Rightarrow> bool" where
  "isSoleAdmin rs sub = (case find (\<lambda>r. ro_name r = js ''admin'') rs of None \<Rightarrow> False
     | Some r \<Rightarrow> length (members_of r) = 1 \<and> sub \<in> set (members_of r))"

definition openAddMember :: "members_tab \<Rightarrow> members_tab" where
  "openAddMember s = s\<lparr>mt_dialog := True, mt_editing := None, mt_sub := [], mt_selected := []\<rparr>"

definition openEditMember :: "jstr \<Rightarrow> members_tab \<Rightarrow> members_tab" where
  "openEditMember sub s = s\<lparr>mt_dialog := True, mt_editing := Some sub, mt_sub := sub,
     mt_selected := remdups (rolesForMember (mt_roles s) sub)\<rparr>"

definition edited_member :: "members_tab \<Rightarrow> jstr option" where
  "edited_member s = (case mt_editing s of Some n \<Rightarrow> if n = [] then None else Some n | None \<Rightarrow> None)"

definition handleSaveMember :: "members_tab \<Rightarrow> members_tab" where
  "handleSaveMember s = (case mt_workspace s of None \<Rightarrow> s | Some w \<Rightarrow>
     if mt_member_saving s \<or> (edited_member s = None \<and> trim (mt_sub s) = []) then s
     else if trim (mt_sub s) = [] then s\<lparr>mt_toasts := mt_toasts s @ [js ''User ID is required'']\<rparr>
     else s\<lparr>mt_member_saving := True, mt_sent := mt_sent s @ [case edited_member s of
       Some sub \<Rightarrow> SetMemberRoles (w_id w) sub (mt_selected s) | None \<Rightarrow> AddMember (w_id w) (trim (mt_sub s)) (mt_selected s)]\<rparr>)"

text \<open>The reply belongs to a click made while \<open>w\<close> was the workspace; so does the load that follows.\<close>

definition member_saved :: "workspace \<Rightarrow> bool \<Rightarrow> bool \<Rightarrow> members_tab \<Rightarrow> members_tab" where
  "member_saved w edited ok s =
     (if \<not> mt_member_saving s then s
      else if ok then loadMembers (Some w) (s\<lparr>mt_dialog := False, mt_member_saving := False,
        mt_toasts := mt_toasts s @ [if edited then js ''Member roles updated'' else js ''Member added'']\<rparr>)
      else s\<lparr>mt_member_saving := False\<rparr>)"

text \<open>The button is off for the only administrator.\<close>

definition handleRemoveMember :: "jstr \<Rightarrow> bool \<Rightarrow> members_tab \<Rightarrow> members_tab" where
  "handleRemoveMember sub confirmed s = (case mt_workspace s of None \<Rightarrow> s | Some w \<Rightarrow>
     if isSoleAdmin (mt_roles s) sub \<or> \<not> confirmed then s else s\<lparr>mt_sent := mt_sent s @ [RemoveMember (w_id w) sub]\<rparr>)"

definition member_removed :: "workspace \<Rightarrow> members_tab \<Rightarrow> members_tab" where
  "member_removed w s = loadMembers (Some w) (s\<lparr>mt_toasts := mt_toasts s @ [js ''Member removed'']\<rparr>)"

datatype members_event =
  WorkspaceChanged "workspace option" | MembersReply nat "(jstr list \<times> workspace_role list) option" | WorkspaceNameTyped jstr
| WorkspaceTextTyped jstr | SaveWorkspace | WorkspaceSaved bool | AddMemberClick | EditMemberClick jstr | MemberTyped jstr
| RolesPicked "jstr list" | SaveMember | MemberSaved workspace bool bool | RemoveClick jstr bool | MemberRemoved workspace | MemberDialog bool

fun members_step :: "members_tab \<Rightarrow> members_event \<Rightarrow> members_tab" where
  "members_step s (WorkspaceChanged w) = workspace_changed w s"
| "members_step s (MembersReply i r) = members_reply i r s"
| "members_step s (WorkspaceNameTyped t) = s\<lparr>mt_name := t\<rparr>"
| "members_step s (WorkspaceTextTyped t) = s\<lparr>mt_description := t\<rparr>"
| "members_step s SaveWorkspace = save_workspace s"
| "members_step s (WorkspaceSaved ok) = workspace_saved ok s"
| "members_step s AddMemberClick = openAddMember s"
| "members_step s (EditMemberClick sub) = openEditMember sub s"
| "members_step s (MemberTyped t) = s\<lparr>mt_sub := t\<rparr>"
| "members_step s (RolesPicked rs) = s\<lparr>mt_selected := rs\<rparr>"
| "members_step s SaveMember = handleSaveMember s"
| "members_step s (MemberSaved w edited ok) = member_saved w edited ok s"
| "members_step s (RemoveClick sub confirmed) = handleRemoveMember sub confirmed s"
| "members_step s (MemberRemoved w) = member_removed w s"
| "members_step s (MemberDialog b) = s\<lparr>mt_dialog := b\<rparr>"

section \<open>Facts: members\<close>

text \<open>
  The server answers a load with what is true of its workspace, and in the order of the loads; a save or
  a removal is answered while its workspace is still the active one.
\<close>

definition in_order :: "(jstr \<Rightarrow> jstr list \<times> workspace_role list \<Rightarrow> bool) \<Rightarrow> members_tab \<Rightarrow> members_event \<Rightarrow> bool" where
  "in_order valid s e = (case e of
     MembersReply i r \<Rightarrow> i = 0 \<and> (mt_loads s \<noteq> [] \<longrightarrow> (case r of None \<Rightarrow> False | Some a \<Rightarrow> valid (hd (mt_loads s)) a))
   | MemberSaved w _ _ \<Rightarrow> same_fields w_id (Some w) (mt_workspace s)
   | MemberRemoved w \<Rightarrow> same_fields w_id (Some w) (mt_workspace s)
   | _ \<Rightarrow> True)"

definition members_ok :: "(jstr \<Rightarrow> jstr list \<times> workspace_role list \<Rightarrow> bool) \<Rightarrow> members_tab \<Rightarrow> bool" where
  "members_ok valid s = (case mt_workspace s of None \<Rightarrow> True
     | Some w \<Rightarrow> if mt_loads s = [] then valid (w_id w) (mt_members s, mt_roles s) else last (mt_loads s) = w_id w)"

lemma workspace_changed_ok: "members_ok valid s \<Longrightarrow> members_ok valid (workspace_changed w s)"
  by (cases w; cases "mt_workspace s") (auto simp: members_ok_def workspace_changed_def loadMembers_def same_fields_def Let_def)

lemma members_reply_ok:
  assumes "members_ok valid s" and "in_order valid s (MembersReply i r)"
  shows "members_ok valid (members_reply i r s)"
proof (cases "mt_loads s")
  case (Cons l ls)
  then obtain a where "i = 0" "r = Some a" "valid l a" using assms(2) by (auto simp: in_order_def split: option.splits)
  then show ?thesis using assms(1) Cons by (cases a) (auto simp: members_ok_def members_reply_def Let_def split: option.splits)
qed (use assms in \<open>simp add: members_reply_def\<close>)

lemma load_ok: "same_fields w_id (Some w) (mt_workspace s) \<Longrightarrow> members_ok valid (loadMembers (Some w) s)"
  by (auto simp: members_ok_def loadMembers_def same_fields_def split: option.split)

lemma members_keep:
  "mt_workspace t = mt_workspace s \<Longrightarrow> mt_loads t = mt_loads s \<Longrightarrow> mt_members t = mt_members s \<Longrightarrow> mt_roles t = mt_roles s \<Longrightarrow>
   members_ok valid t = members_ok valid s"
  by (simp add: members_ok_def split: option.split)

lemma members_step_ok:
  assumes "members_ok valid s" and "in_order valid s e"
  shows "members_ok valid (members_step s e)"
proof (cases e)
  case (WorkspaceChanged w)
  then show ?thesis using assms(1) by (simp add: workspace_changed_ok)
next
  case (MembersReply i r)
  then show ?thesis using assms members_reply_ok by simp
next
  case (MemberSaved w edited ok)
  show ?thesis
  proof (cases "mt_member_saving s \<and> ok")
    case True
    then show ?thesis using assms(2) by (auto simp: MemberSaved member_saved_def in_order_def intro!: load_ok)
  next
    case False
    then show ?thesis using assms(1) members_keep [of "members_step s e" s valid] by (auto simp: MemberSaved member_saved_def)
  qed
next
  case (MemberRemoved w)
  then show ?thesis using assms(2) by (auto simp: member_removed_def in_order_def intro!: load_ok)
next
  case SaveWorkspace
  then show ?thesis using assms(1) members_keep [of "members_step s e" s valid] by (auto simp: save_workspace_def split: option.splits)
next
  case SaveMember
  then show ?thesis using assms(1) members_keep [of "members_step s e" s valid] by (auto simp: handleSaveMember_def split: option.splits)
next
  case (RemoveClick sub c)
  then show ?thesis using assms(1) members_keep [of "members_step s e" s valid] by (auto simp: handleRemoveMember_def split: option.splits)
next
  case (WorkspaceSaved ok)
  then show ?thesis using assms(1) members_keep [of "members_step s e" s valid] by (simp add: workspace_saved_def)
qed (use assms(1) members_keep [of "members_step s e" s valid] in \<open>simp_all add: openAddMember_def openEditMember_def\<close>)

interpretation members_tab: guarded_machine members_step "in_order valid" "members_ok valid" for valid
  by unfold_locales (rule members_step_ok)

text \<open>
  The tab shows the members and roles of the active workspace: whatever happens between the opening
  of the tab and a moment where nothing is loading, if the answers come in the order of the requests.
\<close>

theorem members_of_active:
  assumes "ok_run members_step (in_order valid) (members_start (Some w)) es"
    and "mt_loads (foldl members_step (members_start (Some w)) es) = []"
    and "mt_workspace (foldl members_step (members_start (Some w)) es) = Some v"
  shows "valid (w_id v) (mt_members (foldl members_step (members_start (Some w)) es), mt_roles (foldl members_step (members_start (Some w)) es))"
proof -
  have "members_ok valid (members_start (Some w))" by (simp add: members_ok_def members_start_def loadMembers_def)
  then have "members_ok valid (foldl members_step (members_start (Some w)) es)" using assms(1) by (rule members_tab.run_guarded)
  then show ?thesis using assms(2,3) by (simp add: members_ok_def)
qed

definition a_workspace :: "jstr \<Rightarrow> workspace" where
  "a_workspace i = \<lparr>w_id = i, w_slug = i, w_name = i, w_description = [], w_created_by = None, w_created_at = [], w_updated_at = [], w_theme = JUndef\<rparr>"

lemma members_of_active_witness:
  "mt_members (foldl members_step (members_start (Some (a_workspace (js ''a''))))
     [WorkspaceChanged (Some (a_workspace (js ''b''))), MembersReply 0 (Some ([js ''ann''], [])), MembersReply 0 (Some ([js ''bob''], []))]) = [js ''bob'']"
  using members_of_active [of "\<lambda>i a. a = (if i = js ''a'' then ([js ''ann''], []) else ([js ''bob''], []))" "a_workspace (js ''a'')"
    "[WorkspaceChanged (Some (a_workspace (js ''b''))), MembersReply 0 (Some ([js ''ann''], [])), MembersReply 0 (Some ([js ''bob''], []))]"
    "a_workspace (js ''b'')"]
  by (simp add: in_order_def members_start_def loadMembers_def workspace_changed_def same_fields_def members_reply_def a_workspace_def Let_def)

text \<open>
  Nothing cancels a load when the workspace changes: when the older answer comes last, the members of the
  workspace that was left are shown, and removing one of them is sent to the new workspace.
\<close>

lemma stale_members:
  "mt_sent (foldl members_step (members_start (Some (a_workspace (js ''a''))))
     [WorkspaceChanged (Some (a_workspace (js ''b''))), MembersReply 1 (Some ([js ''bob''], [])), MembersReply 0 (Some ([js ''ann''], [])),
      RemoveClick (js ''ann'') True]) = [RemoveMember (js ''b'') (js ''ann'')] \<and>
   mt_members (foldl members_step (members_start (Some (a_workspace (js ''a''))))
     [WorkspaceChanged (Some (a_workspace (js ''b''))), MembersReply 1 (Some ([js ''bob''], [])), MembersReply 0 (Some ([js ''ann''], []))]) = [js ''ann'']"
  by (simp add: members_start_def loadMembers_def workspace_changed_def same_fields_def members_reply_def a_workspace_def
      handleRemoveMember_def isSoleAdmin_def Let_def)

end
