(* ===== verification/ScatterInteraction.thy ===== *)
theory ScatterInteraction
  imports ChartInteraction
begin

text \<open>
  The scatter chart has its own copy of the pointer handlers,
  src/ui/web/src/components/charts/use-scatter-chart-interaction.ts: it takes the position of the pointer
  from the SVG and does not anchor the tooltip again when the chart changes.  The copy is translated from
  its own source and compared with the hook of the other charts.
\<close>

section \<open>The hook\<close>

record scatter =
  sc_chart :: chart_env
  sc_selection :: "selection option"
  sc_tips :: scheduled
  sc_dragging :: bool
  sc_drag_start :: jnum

definition scatter_initial :: "chart_env \<Rightarrow> scatter" where
  "scatter_initial c = \<lparr>sc_chart = c, sc_selection = None, sc_tips = scheduled_initial, sc_dragging = False, sc_drag_start = 0\<rparr>"

text \<open>The row nearest to a pixel and its index.\<close>

definition scatter_hit :: "chart_env \<Rightarrow> jnum \<Rightarrow> (jsobj \<times> int) option" where
  "scatter_hit c pixelX =
     (let x0 = x_invert c pixelX; index = bisect c (ce_data c) x0 1
      in case row_at (ce_data c) (index - 1) of
           None \<Rightarrow> None
         | Some d0 \<Rightarrow> Some (case row_at (ce_data c) index of
             None \<Rightarrow> (d0, index - 1)
           | Some d1 \<Rightarrow> if x_accessor c d1 - x0 < x0 - x_accessor c d0 then (d1, index) else (d0, index - 1)))"

definition scatter_y :: "chart_env \<Rightarrow> jsobj \<Rightarrow> line_config \<Rightarrow> (jstr \<times> jsval) option" where
  "scatter_y c d line = (case obj_get d (dataKey line) of
     JNum v \<Rightarrow> (case (case map_of (y_scales c) (normalizeYAxisId (yAxisId line)) of Some sc \<Rightarrow> sc | None \<Rightarrow> y_scale c) v of
        Some y \<Rightarrow> Some (dataKey line, JNum y) | None \<Rightarrow> Some (dataKey line, JNum 0))
   | _ \<Rightarrow> None)"

definition scatter_tooltip :: "chart_env \<Rightarrow> jnum \<Rightarrow> jsval option" where
  "scatter_tooltip c pixelX = (case scatter_hit c pixelX of
     None \<Rightarrow> None
   | Some (d, i) \<Rightarrow> Some (JObj
       [(js ''point'', JObj d), (js ''index'', JNum (Fin (of_int i))),
        (js ''x'', JNum (case x_scale c (x_accessor c d) of Some x \<Rightarrow> x | None \<Rightarrow> 0)),
        (js ''yPositions'', JObj (fold (\<lambda>(k, v) ys. obj_set ys k v) (List.map_filter (scatter_y c d) (ce_lines c)) []))]))"

definition scatter_index :: "chart_env \<Rightarrow> jnum \<Rightarrow> int" where
  "scatter_index c pixelX = (case scatter_hit c pixelX of None \<Rightarrow> 0 | Some (_, i) \<Rightarrow> i)"

definition scatter_range :: "chart_env \<Rightarrow> jnum \<Rightarrow> jnum \<Rightarrow> selection" where
  "scatter_range c a b = \<lparr>startX = n_min a b, endX = n_max a b, startIndex = scatter_index c (n_min a b),
     endIndex = scatter_index c (n_max a b), active = True\<rparr>"

text \<open>A pointer or a finger has a place in the SVG, or none.\<close>

definition scatter_x :: "chart_env \<Rightarrow> jnum option list \<Rightarrow> nat \<Rightarrow> jnum option" where
  "scatter_x c points i = (if i < length points then map_option (\<lambda>x. x - margin_left c) (points ! i) else None)"

definition scatter_hover :: "jnum option \<Rightarrow> scatter \<Rightarrow> scatter" where
  "scatter_hover x s = (case x of
     None \<Rightarrow> s
   | Some chartX \<Rightarrow> (case scatter_tooltip (sc_chart s) chartX of
       None \<Rightarrow> s | Some t \<Rightarrow> s\<lparr>sc_tips := scheduleTooltip t None (sc_tips s)\<rparr>))"

definition scatter_move :: "jnum option \<Rightarrow> scatter \<Rightarrow> scatter" where
  "scatter_move point s = (case scatter_x (sc_chart s) [point] 0 of
     None \<Rightarrow> s
   | Some chartX \<Rightarrow>
       if sc_dragging s then s\<lparr>sc_selection := Some (scatter_range (sc_chart s) (sc_drag_start s) chartX)\<rparr>
       else scatter_hover (Some chartX) s)"

definition scatter_leave :: "scatter \<Rightarrow> scatter" where
  "scatter_leave s = s\<lparr>sc_selection := None, sc_tips := clearTooltip (sc_tips s), sc_dragging := False\<rparr>"

definition scatter_down :: "jnum option \<Rightarrow> scatter \<Rightarrow> scatter" where
  "scatter_down point s = (case scatter_x (sc_chart s) [point] 0 of
     None \<Rightarrow> s
   | Some chartX \<Rightarrow> s\<lparr>sc_selection := None, sc_tips := clearTooltip (sc_tips s), sc_dragging := True, sc_drag_start := chartX\<rparr>)"

definition scatter_up :: "scatter \<Rightarrow> scatter" where
  "scatter_up s = s\<lparr>sc_selection := None, sc_dragging := False\<rparr>"

definition scatter_pinch :: "jnum option list \<Rightarrow> scatter \<Rightarrow> scatter" where
  "scatter_pinch ts s = (case scatter_x (sc_chart s) ts 0 of
     None \<Rightarrow> s
   | Some x0 \<Rightarrow> (case scatter_x (sc_chart s) ts 1 of
       None \<Rightarrow> s | Some x1 \<Rightarrow> s\<lparr>sc_selection := Some (scatter_range (sc_chart s) x0 x1)\<rparr>))"

definition scatter_touch_start :: "jnum option list \<Rightarrow> scatter \<Rightarrow> scatter" where
  "scatter_touch_start ts s =
     (if length ts = 1 then scatter_hover (scatter_x (sc_chart s) ts 0) s
      else if length ts = 2 then scatter_pinch ts (s\<lparr>sc_tips := clearTooltip (resetTooltipDedupe (sc_tips s))\<rparr>)
      else s)"

definition scatter_touch_move :: "jnum option list \<Rightarrow> scatter \<Rightarrow> scatter" where
  "scatter_touch_move ts s =
     (if length ts = 1 then scatter_hover (scatter_x (sc_chart s) ts 0) s
      else if length ts = 2 then scatter_pinch ts s else s)"

definition scatter_touch_end :: "scatter \<Rightarrow> scatter" where
  "scatter_touch_end s = s\<lparr>sc_selection := None, sc_tips := clearTooltip (sc_tips s)\<rparr>"

fun scatter_handle :: "pointer_event \<Rightarrow> scatter \<Rightarrow> scatter" where
  "scatter_handle (MouseMove p) s = scatter_move p s"
| "scatter_handle MouseLeave s = scatter_leave s"
| "scatter_handle (MouseDown p) s = scatter_down p s"
| "scatter_handle MouseUp s = scatter_up s"
| "scatter_handle (TouchStart ts) s = scatter_touch_start ts s"
| "scatter_handle (TouchMove ts) s = scatter_touch_move ts s"
| "scatter_handle TouchEnd s = scatter_touch_end s"

fun scatter_step :: "scatter \<Rightarrow> interaction_event \<Rightarrow> scatter" where
  "scatter_step s (Pointer e) = (if canInteract (sc_chart s) then scatter_handle e s else s)"
| "scatter_step s ClearSelection = s\<lparr>sc_selection := None\<rparr>"
| "scatter_step s AnimationFrame = s\<lparr>sc_tips := run_frame (sc_tips s)\<rparr>"
| "scatter_step s (Rendered c) = s\<lparr>sc_chart := c\<rparr>"

section \<open>Facts: the two hooks agree\<close>

definition forget_hover :: "interaction \<Rightarrow> scatter" where
  "forget_hover s = \<lparr>sc_chart = chart s, sc_selection = selected s, sc_tips = tips s, sc_dragging = isDragging s, sc_drag_start = dragStartX s\<rparr>"

lemma scatter_fold: "foldl (y_position c d) ys lines = fold (\<lambda>(k, v) ys. obj_set ys k v) (List.map_filter (scatter_y c d) lines) ys"
proof (induction lines arbitrary: ys)
  case (Cons l lines)
  then show ?case
    by (simp add: y_position_def scatter_y_def Let_def map_filter_simps split: jsval.split option.split)
qed (simp add: map_filter_simps)

lemma scatter_tooltip_eq: "scatter_tooltip c x = resolveTooltipFromX c x"
  by (simp add: scatter_tooltip_def scatter_hit_def resolveTooltipFromX_def right_nearer_def scatter_fold Let_def split: option.split)

lemma scatter_index_eq: "scatter_index c x = resolveIndexFromX c x"
  by (simp add: scatter_index_def scatter_hit_def resolveIndexFromX_def right_nearer_def Let_def split: option.split)

lemma scatter_range_eq: "scatter_range c a b = select_range c a b"
  by (simp add: scatter_range_def select_range_def scatter_index_eq Let_def)

lemma scatter_x_eq: "scatter_x c ts i = touch_x c ts i" "touch_x c [p] 0 = getChartX c p"
  by (simp_all add: scatter_x_def touch_x_def getChartX_def)

lemmas scatter_eqs = scatter_tooltip_eq scatter_range_eq scatter_x_eq forget_hover_def

lemma forget_mouse:
  "forget_hover (handleMouseMove p s) = scatter_move p (forget_hover s)"
  "forget_hover (handleMouseDown p s) = scatter_down p (forget_hover s)"
  "forget_hover (handleMouseLeave s) = scatter_leave (forget_hover s)"
  "forget_hover (handleMouseUp s) = scatter_up (forget_hover s)"
  by (simp_all add: scatter_eqs handleMouseMove_def hover_def scatter_move_def scatter_hover_def handleMouseDown_def scatter_down_def
      handleMouseLeave_def scatter_leave_def handleMouseUp_def scatter_up_def split: option.split)

lemma forget_touch:
  "forget_hover (handleTouchStart ts s) = scatter_touch_start ts (forget_hover s)"
  "forget_hover (handleTouchMove ts s) = scatter_touch_move ts (forget_hover s)"
  "forget_hover (handleTouchEnd s) = scatter_touch_end (forget_hover s)"
  by (simp_all add: scatter_eqs handleTouchStart_def handleTouchMove_def touch_hover_def touch_select_def hover_def scatter_pinch_def
      scatter_touch_start_def scatter_touch_move_def scatter_hover_def handleTouchEnd_def scatter_touch_end_def split: option.split)

text \<open>No tooltip is anchored again: nothing is hovered, or the chart takes no pointers.\<close>

definition no_reanchor :: "interaction \<Rightarrow> interaction_event \<Rightarrow> bool" where
  "no_reanchor s e = (case e of Rendered c \<Rightarrow> lastHoveredX s = None \<or> \<not> canInteract c | _ \<Rightarrow> True)"

lemma forget_step:
  assumes "no_reanchor s e"
  shows "forget_hover (interaction_step s e) = scatter_step (forget_hover s) e"
proof (cases e)
  case (Pointer p)
  then show ?thesis by (cases p) (simp_all add: forget_mouse forget_touch, simp_all add: forget_hover_def)
next
  case (Rendered c)
  then show ?thesis using assms by (auto simp: no_reanchor_def reanchor_def forget_hover_def split: option.split)
qed (simp_all add: forget_hover_def clearSelection_def)

interpretation scatter: refinement_machine interaction_step no_reanchor "\<lambda>_. True" scatter_step forget_hover
  by unfold_locales (simp_all add: forget_step)

text \<open>
  C32. The copy of the pointer handlers in the scatter chart agrees with the original: from the start, after
  any pointer events, frames and renders in which the original does not anchor its tooltip again, both
  show the same tooltip and the same selection.
\<close>

theorem scatter_agrees:
  assumes "ok_run interaction_step no_reanchor (interaction_initial c) es"
  shows "sc_tips (foldl scatter_step (scatter_initial c) es) = tips (foldl interaction_step (interaction_initial c) es) \<and>
    sc_selection (foldl scatter_step (scatter_initial c) es) = selected (foldl interaction_step (interaction_initial c) es)"
proof -
  have "forget_hover (interaction_initial c) = scatter_initial c"
    by (simp add: forget_hover_def interaction_initial_def scatter_initial_def)
  then have "forget_hover (foldl interaction_step (interaction_initial c) es) = foldl scatter_step (scatter_initial c) es"
    using scatter.run_refines [OF _ assms] by simp
  then show ?thesis by (metis forget_hover_def scatter.select_convs(2,3))
qed

lemma scatter_agrees_witness:
  "sc_selection (foldl scatter_step (scatter_initial sample_env) [Pointer (MouseDown (Some 3)), Rendered sample_env, Pointer (MouseMove None)])
    = selected (foldl interaction_step (interaction_initial sample_env) [Pointer (MouseDown (Some 3)), Rendered sample_env, Pointer (MouseMove None)])"
  using scatter_agrees [of sample_env "[Pointer (MouseDown (Some 3)), Rendered sample_env, Pointer (MouseMove None)]"]
  by (simp add: no_reanchor_def interaction_initial_def handleMouseDown_def sample_env_def getChartX_def)

end
