(* ===== verification/McpServers.thy ===== *)
theory McpServers
  imports Grouping
begin

text \<open>
  The tab of MCP servers, src/ui/web/src/components/settings/tabs/MCPServersTab.tsx, and what the backend
  does with its requests to create and to change a server,
  src/internal/transport/http/handler/mcp_servers.go.  The hooks of the tab are the state; every handler
  and every reply is an event.  The query of the address is the list of its parameters.
\<close>

section \<open>Data\<close>

text \<open>A server as the API lists it; a field that may be missing is an option.\<close>

record mcp_server =
  ms_name :: jstr
  ms_url :: jstr
  ms_auth_type :: "jstr option"
  ms_provider :: "jstr option"
  ms_description :: jstr
  ms_enabled :: bool

datatype auth_kind = Bearer | OAuth

record server_form =
  sf_name :: jstr
  sf_url :: jstr
  sf_token :: jstr
  sf_auth :: auth_kind
  sf_provider :: jstr
  sf_description :: jstr
  sf_enabled :: bool

definition empty_server_form :: server_form where
  "empty_server_form = \<lparr>sf_name = [], sf_url = [], sf_token = [], sf_auth = Bearer, sf_provider = [], sf_description = [], sf_enabled = True\<rparr>"

text \<open>The body of a request; a field that is \<open>undefined\<close> is not sent.\<close>

record mcp_body =
  mb_url :: jstr
  mb_token :: "jstr option"
  mb_auth :: auth_kind
  mb_provider :: "jstr option"
  mb_description :: jstr
  mb_enabled :: bool

definition notion_name :: jstr where
  "notion_name = js ''notion''"

definition notionServer :: mcp_body where
  "notionServer = \<lparr>mb_url = js ''https://mcp.notion.com/mcp'', mb_token = None, mb_auth = OAuth, mb_provider = Some (js ''notion''),
     mb_description = js ''Notion workspace MCP'', mb_enabled = True\<rparr>"

definition non_empty :: "jstr \<Rightarrow> jstr option" where
  "non_empty s = (if s = [] then None else Some s)"

definition is_oauth :: "mcp_server \<Rightarrow> bool" where
  "is_oauth srv \<longleftrightarrow> ms_auth_type srv = Some (js ''oauth'')"

definition form_of :: "mcp_server \<Rightarrow> server_form" where
  "form_of srv = \<lparr>sf_name = ms_name srv, sf_url = ms_url srv, sf_token = [], sf_auth = (if is_oauth srv then OAuth else Bearer),
     sf_provider = (case ms_provider srv of Some p \<Rightarrow> p | None \<Rightarrow> []), sf_description = ms_description srv, sf_enabled = ms_enabled srv\<rparr>"

text \<open>The body is the same for a new server and a change: a token only for bearer authentication, and only a typed one.\<close>

definition body_of :: "server_form \<Rightarrow> mcp_body" where
  "body_of f = \<lparr>mb_url = sf_url f, mb_token = (if sf_auth f = Bearer then non_empty (sf_token f) else None), mb_auth = sf_auth f,
     mb_provider = non_empty (sf_provider f), mb_description = sf_description f, mb_enabled = sf_enabled f\<rparr>"

section \<open>The tab\<close>

datatype mcp_request = CreateServer jstr mcp_body | UpdateServer jstr mcp_body | StartOAuth jstr | DisconnectOAuth jstr
| DeleteServer jstr | RefreshServer jstr | SetFunctionEnabled jstr jstr bool

text \<open>The handlers that connect: saving the Notion server, starting OAuth, disconnecting; a flow that has ended.\<close>

datatype connect_flow = SavingNotion | Starting jstr | Disconnecting jstr | FlowOver

datatype notice = Success jstr | Warning jstr | Failure jstr

record mcp_tab =
  mc_data :: "mcp_server list"
  mc_loading :: bool
  mc_expanded :: "jstr list"
  mc_dialog :: bool
  mc_editing :: "jstr option"
  mc_form :: server_form
  mc_saving :: bool
  mc_refreshing :: "jstr option"
  mc_connecting :: "jstr option"
  mc_flows :: "connect_flow list"
  mc_loads :: nat
  mc_sent :: "mcp_request list"
  mc_notices :: "notice list"
  mc_query :: "(jstr \<times> jstr) list option"
  mc_location :: "jstr option"

definition mcp_load :: "mcp_tab \<Rightarrow> mcp_tab" where
  "mcp_load s = s\<lparr>mc_loading := True, mc_loads := Suc (mc_loads s)\<rparr>"

definition mcp_notice :: "notice \<Rightarrow> mcp_tab \<Rightarrow> mcp_tab" where
  "mcp_notice n s = s\<lparr>mc_notices := mc_notices s @ [n]\<rparr>"

definition mcp_send :: "mcp_request \<Rightarrow> mcp_tab \<Rightarrow> mcp_tab" where
  "mcp_send r s = s\<lparr>mc_sent := mc_sent s @ [r]\<rparr>"

definition mcp_warn :: "jstr option \<Rightarrow> mcp_tab \<Rightarrow> mcp_tab" where
  "mcp_warn w s = (case w of None \<Rightarrow> s | Some t \<Rightarrow> if t = [] then s else mcp_notice (Warning t) s)"

text \<open>\<open>params.get(k) || d\<close>.\<close>

definition param_or :: "(jstr \<times> jstr) list \<Rightarrow> jstr \<Rightarrow> jstr \<Rightarrow> jstr" where
  "param_or ps k d = (case map_of ps k of Some v \<Rightarrow> if v = [] then d else v | None \<Rightarrow> d)"

text \<open>Back from an OAuth provider: its outcome is told once and taken out of the address.\<close>

definition oauth_return :: "mcp_tab \<Rightarrow> mcp_tab" where
  "oauth_return s = (case mc_query s of None \<Rightarrow> s | Some ps \<Rightarrow>
     let status = param_or ps (js ''mcp_oauth'') []; server = param_or ps (js ''server'') (js ''MCP server'') in
     if status = [] then s
     else let n = (if status = js ''connected'' then Success (server @ js '' connected'')
                   else if status = js ''connected_sync_failed'' then Warning (server @ js '' connected, but tool discovery failed'')
                   else Failure (param_or ps (js ''message'') (server @ js '' OAuth failed'')));
              rest = filter (\<lambda>(k, _). k \<notin> {js ''mcp_oauth'', js ''server'', js ''message''}) ps
          in mcp_load (mcp_notice n s)\<lparr>mc_query := (if rest = [] then None else Some rest)\<rparr>)"

definition mcp_start :: "(jstr \<times> jstr) list option \<Rightarrow> mcp_tab" where
  "mcp_start query = oauth_return (mcp_load \<lparr>mc_data = [], mc_loading = True, mc_expanded = [], mc_dialog = False, mc_editing = None,
     mc_form = empty_server_form, mc_saving = False, mc_refreshing = None, mc_connecting = None, mc_flows = [], mc_loads = 0,
     mc_sent = [], mc_notices = [], mc_query = query, mc_location = None\<rparr>)"

definition mcp_reply :: "mcp_server list option \<Rightarrow> mcp_tab \<Rightarrow> mcp_tab" where
  "mcp_reply r s = (if mc_loads s = 0 then s else
     s\<lparr>mc_data := (case r of Some d \<Rightarrow> d | None \<Rightarrow> []), mc_loading := False, mc_loads := mc_loads s - 1\<rparr>)"

definition mcp_expand :: "jstr \<Rightarrow> mcp_tab \<Rightarrow> mcp_tab" where
  "mcp_expand n s = s\<lparr>mc_expanded := set_toggle n (mc_expanded s)\<rparr>"

definition mcp_create :: "mcp_tab \<Rightarrow> mcp_tab" where
  "mcp_create s = s\<lparr>mc_dialog := True, mc_editing := None, mc_form := empty_server_form\<rparr>"

definition mcp_edit :: "mcp_server \<Rightarrow> mcp_tab \<Rightarrow> mcp_tab" where
  "mcp_edit srv s = s\<lparr>mc_dialog := True, mc_editing := Some (ms_name srv), mc_form := form_of srv\<rparr>"

text \<open>The server to change; an empty name counts as none.\<close>

definition edited_server :: "mcp_tab \<Rightarrow> jstr option" where
  "edited_server s = (case mc_editing s of None \<Rightarrow> None | Some n \<Rightarrow> non_empty n)"

definition mcp_save :: "mcp_tab \<Rightarrow> mcp_tab" where
  "mcp_save s =
     (if mc_saving s then s
      else if trim (sf_name (mc_form s)) = [] \<or> trim (sf_url (mc_form s)) = [] then mcp_notice (Failure (js ''Name and URL are required'')) s
      else mcp_send (case edited_server s of Some n \<Rightarrow> UpdateServer n (body_of (mc_form s))
             | None \<Rightarrow> CreateServer (sf_name (mc_form s)) (body_of (mc_form s))) (s\<lparr>mc_saving := True\<rparr>))"

text \<open>The reply: the warning of the server that was saved, or \<open>None\<close> when the request failed.\<close>

definition mcp_saved :: "bool \<Rightarrow> jstr option option \<Rightarrow> mcp_tab \<Rightarrow> mcp_tab" where
  "mcp_saved updated r s =
     (if \<not> mc_saving s then s
      else case r of None \<Rightarrow> s\<lparr>mc_saving := False\<rparr>
      | Some w \<Rightarrow> mcp_load ((mcp_warn w (mcp_notice (Success (if updated then js ''MCP server updated'' else js ''MCP server registered'')) s))
          \<lparr>mc_dialog := False, mc_saving := False\<rparr>))"

text \<open>The button is off while Notion is being connected.\<close>

definition connect_notion :: "mcp_tab \<Rightarrow> mcp_tab" where
  "connect_notion s0 =
     (if mc_connecting s0 = Some notion_name then s0
      else let s = s0\<lparr>mc_connecting := Some notion_name\<rparr> in
        case find (\<lambda>srv. ms_name srv = notion_name) (mc_data s) of
          None \<Rightarrow> mcp_send (CreateServer notion_name notionServer) (s\<lparr>mc_flows := mc_flows s @ [SavingNotion]\<rparr>)
        | Some srv \<Rightarrow>
            if \<not> is_oauth srv \<or> ms_url srv \<noteq> mb_url notionServer then
              mcp_send (UpdateServer notion_name (notionServer\<lparr>mb_description :=
                (if ms_description srv = [] then mb_description notionServer else ms_description srv)\<rparr>))
                (s\<lparr>mc_flows := mc_flows s @ [SavingNotion]\<rparr>)
            else mcp_send (StartOAuth notion_name) (s\<lparr>mc_flows := mc_flows s @ [Starting notion_name]\<rparr>))"

definition start_oauth :: "jstr \<Rightarrow> mcp_tab \<Rightarrow> mcp_tab" where
  "start_oauth n s = (if mc_connecting s = Some n then s
     else mcp_send (StartOAuth n) (s\<lparr>mc_connecting := Some n, mc_flows := mc_flows s @ [Starting n]\<rparr>))"

definition disconnect_oauth :: "jstr \<Rightarrow> mcp_tab \<Rightarrow> mcp_tab" where
  "disconnect_oauth n s = (if mc_connecting s = Some n then s
     else mcp_send (DisconnectOAuth n) (s\<lparr>mc_connecting := Some n, mc_flows := mc_flows s @ [Disconnecting n]\<rparr>))"

text \<open>The reply to the flow \<open>i\<close>: a warning or an address, empty where there is none; \<open>None\<close> when the request failed.\<close>

definition flow_reply :: "nat \<Rightarrow> jstr option \<Rightarrow> mcp_tab \<Rightarrow> mcp_tab" where
  "flow_reply i r s =
     (if length (mc_flows s) \<le> i then s
      else case mc_flows s ! i of
        FlowOver \<Rightarrow> s
      | flow \<Rightarrow>
          (case r of
             None \<Rightarrow> s\<lparr>mc_connecting := None, mc_flows := (mc_flows s)[i := FlowOver]\<rparr>
           | Some t \<Rightarrow>
               (case flow of
                  SavingNotion \<Rightarrow> mcp_send (StartOAuth notion_name) ((mcp_warn (Some t) s)\<lparr>mc_flows := (mc_flows s)[i := Starting notion_name]\<rparr>)
                | Starting n \<Rightarrow> s\<lparr>mc_connecting := None, mc_flows := (mc_flows s)[i := FlowOver], mc_location := Some t\<rparr>
                | _ \<Rightarrow> mcp_load ((mcp_notice (Success (js ''OAuth disconnected'')) s)
                    \<lparr>mc_connecting := None, mc_flows := (mc_flows s)[i := FlowOver]\<rparr>))))"

definition mcp_delete :: "jstr \<Rightarrow> bool \<Rightarrow> mcp_tab \<Rightarrow> mcp_tab" where
  "mcp_delete n confirmed s = (if confirmed then mcp_send (DeleteServer n) s else s)"

definition mcp_deleted :: "jstr \<Rightarrow> mcp_tab \<Rightarrow> mcp_tab" where
  "mcp_deleted n s = mcp_load ((mcp_notice (Success (js ''MCP server deleted'')) s)\<lparr>mc_expanded := filter (\<lambda>m. m \<noteq> n) (mc_expanded s)\<rparr>)"

definition mcp_refresh :: "jstr \<Rightarrow> mcp_tab \<Rightarrow> mcp_tab" where
  "mcp_refresh n s = (if mc_refreshing s = Some n then s else mcp_send (RefreshServer n) (s\<lparr>mc_refreshing := Some n\<rparr>))"

text \<open>The reply: the warning, or the number of tools that were found.\<close>

definition mcp_refreshed :: "(jstr + nat) option \<Rightarrow> mcp_tab \<Rightarrow> mcp_tab" where
  "mcp_refreshed r s = (case r of
     None \<Rightarrow> s\<lparr>mc_refreshing := None\<rparr>
   | Some o1 \<Rightarrow> mcp_load ((mcp_notice (case o1 of Inl w \<Rightarrow> Warning w
        | Inr k \<Rightarrow> Success (js ''Discovered '' @ nat_str k @ js '' tool(s)'')) s)\<lparr>mc_refreshing := None\<rparr>))"

definition function_switched :: "jstr \<Rightarrow> bool \<Rightarrow> bool \<Rightarrow> mcp_tab \<Rightarrow> mcp_tab" where
  "function_switched fn on ok s = mcp_load
     (if ok then mcp_notice (Success (fn @ (if on then js '' enabled'' else js '' disabled''))) s else s)"

datatype mcp_event =
  McpReply "mcp_server list option" | McpExpand jstr | McpAdd | McpEdit mcp_server | McpForm server_form | McpSave
| McpSaved bool "jstr option option" | McpNotion | McpConnect jstr | McpDisconnect jstr | McpFlow nat "jstr option"
| McpDeleteClick jstr bool | McpDeleted jstr | McpRefresh jstr | McpRefreshed "(jstr + nat) option"
| McpFunction jstr jstr bool | McpFunctionDone jstr bool bool | McpDialog bool

fun mcp_step :: "mcp_tab \<Rightarrow> mcp_event \<Rightarrow> mcp_tab" where
  "mcp_step s (McpReply r) = mcp_reply r s"
| "mcp_step s (McpExpand n) = mcp_expand n s"
| "mcp_step s McpAdd = mcp_create s"
| "mcp_step s (McpEdit srv) = mcp_edit srv s"
| "mcp_step s (McpForm f) = s\<lparr>mc_form := f\<rparr>"
| "mcp_step s McpSave = mcp_save s"
| "mcp_step s (McpSaved updated r) = mcp_saved updated r s"
| "mcp_step s McpNotion = connect_notion s"
| "mcp_step s (McpConnect n) = start_oauth n s"
| "mcp_step s (McpDisconnect n) = disconnect_oauth n s"
| "mcp_step s (McpFlow i r) = flow_reply i r s"
| "mcp_step s (McpDeleteClick n confirmed) = mcp_delete n confirmed s"
| "mcp_step s (McpDeleted n) = mcp_deleted n s"
| "mcp_step s (McpRefresh n) = mcp_refresh n s"
| "mcp_step s (McpRefreshed r) = mcp_refreshed r s"
| "mcp_step s (McpFunction n fn on) = mcp_send (SetFunctionEnabled n fn on) s"
| "mcp_step s (McpFunctionDone fn on ok) = function_switched fn on ok s"
| "mcp_step s (McpDialog b) = s\<lparr>mc_dialog := b\<rparr>"

section \<open>The backend\<close>

text \<open>White space of Go's \<open>strings.TrimSpace\<close>.\<close>

definition go_space :: "nat \<Rightarrow> bool" where
  "go_space c \<longleftrightarrow> (9 \<le> c \<and> c \<le> 13) \<or> c \<in> {32, 133, 160, 5760, 8232, 8233, 8239, 8287, 12288} \<or> (8192 \<le> c \<and> c \<le> 8202)"

definition TrimSpace :: "jstr \<Rightarrow> jstr" where
  "TrimSpace s = rev (dropWhile go_space (rev (dropWhile go_space s)))"

record go_server =
  gs_name :: jstr
  gs_url :: jstr
  gs_token :: jstr
  gs_auth_type :: jstr
  gs_enabled :: bool
  gs_description :: jstr

text \<open>What the handlers read of a body: the type of the authentication and the provider are not among it.\<close>

definition go_create :: "jstr \<Rightarrow> mcp_body \<Rightarrow> go_server option" where
  "go_create n b = (if TrimSpace n = [] \<or> TrimSpace (mb_url b) = [] then None else
     Some \<lparr>gs_name = TrimSpace n, gs_url = TrimSpace (mb_url b), gs_token = (case mb_token b of Some t \<Rightarrow> t | None \<Rightarrow> []),
       gs_auth_type = js ''bearer'', gs_enabled = mb_enabled b, gs_description = mb_description b\<rparr>)"

text \<open>\<open>None\<close>: the address is refused; \<open>valid\<close> is the parser of addresses.\<close>

definition go_update :: "(jstr \<Rightarrow> bool) \<Rightarrow> mcp_body \<Rightarrow> go_server \<Rightarrow> go_server option" where
  "go_update valid b g =
     (let u = TrimSpace (mb_url b) in
      if u = [] \<or> \<not> valid u then None
      else Some (g\<lparr>gs_url := u, gs_token := (case mb_token b of Some t \<Rightarrow> t | None \<Rightarrow> gs_token g),
        gs_enabled := mb_enabled b, gs_description := mb_description b\<rparr>))"

definition toResp :: "go_server \<Rightarrow> mcp_server" where
  "toResp g = \<lparr>ms_name = gs_name g, ms_url = gs_url g, ms_auth_type = None, ms_provider = None, ms_description = gs_description g,
     ms_enabled = gs_enabled g\<rparr>"

section \<open>Facts: the requests of the tab\<close>

lemmas mcp_defs = mcp_load_def mcp_notice_def mcp_send_def mcp_reply_def mcp_expand_def mcp_create_def mcp_edit_def mcp_delete_def
  mcp_deleted_def mcp_refresh_def mcp_refreshed_def function_switched_def

text \<open>A body that carries a token is for bearer authentication and the token is not empty.\<close>

definition body_ok :: "mcp_body \<Rightarrow> bool" where
  "body_ok b \<longleftrightarrow> (mb_token b \<noteq> None \<longrightarrow> mb_auth b = Bearer \<and> mb_token b \<noteq> Some [])"

fun mcp_request_ok :: "mcp_request \<Rightarrow> bool" where
  "mcp_request_ok (CreateServer n b) = (body_ok b \<and> trim n \<noteq> [] \<and> trim (mb_url b) \<noteq> [])"
| "mcp_request_ok (UpdateServer n b) = (body_ok b \<and> n \<noteq> [] \<and> trim (mb_url b) \<noteq> [])"
| "mcp_request_ok _ = True"

text \<open>A request that registers Notion with OAuth.\<close>

fun notion_request :: "mcp_request \<Rightarrow> bool" where
  "notion_request (CreateServer n b) = (n = notion_name \<and> mb_auth b = OAuth \<and> mb_url b = mb_url notionServer)"
| "notion_request (UpdateServer n b) = (n = notion_name \<and> mb_auth b = OAuth \<and> mb_url b = mb_url notionServer)"
| "notion_request _ = False"

definition mcp_inv :: "mcp_tab \<Rightarrow> bool" where
  "mcp_inv s \<longleftrightarrow> list_all mcp_request_ok (mc_sent s) \<and>
     (SavingNotion \<in> set (mc_flows s) \<longrightarrow> list_ex notion_request (mc_sent s)) \<and>
     (\<forall>n. Starting n \<in> set (mc_flows s) \<longrightarrow> StartOAuth n \<in> set (mc_sent s)) \<and>
     (mc_location s \<noteq> None \<longrightarrow> (\<exists>n. StartOAuth n \<in> set (mc_sent s)))"

text \<open>A handler that starts and ends no flow: the invariant only asks about the request it sends.\<close>

lemma mcp_inv_more:
  assumes "mcp_inv s" and "mc_sent t = mc_sent s @ rs" and "list_all mcp_request_ok rs" and "mc_flows t = mc_flows s"
    and "mc_location t = mc_location s"
  shows "mcp_inv t"
  using assms by (auto simp: mcp_inv_def)

lemma mcp_inv_flow:
  assumes "mcp_inv s" and "mc_sent t = mc_sent s @ [r]" and "mcp_request_ok r" and "mc_flows t = mc_flows s @ [f]"
    and "mc_location t = mc_location s" and "f = SavingNotion \<Longrightarrow> notion_request r" and "\<And>n. f = Starting n \<Longrightarrow> r = StartOAuth n"
  shows "mcp_inv t"
  using assms by (auto simp: mcp_inv_def)

lemma notion_ok: "trim notion_name \<noteq> []" "trim (mb_url notionServer) \<noteq> []" "notion_name \<noteq> []"
  by (simp_all add: notion_name_def notionServer_def trim_no_outer_ws is_ws_def)

lemma notion_body_ok: "body_ok (notionServer\<lparr>mb_description := d\<rparr>)" "body_ok notionServer" "mb_auth notionServer = OAuth"
  by (simp_all add: body_ok_def notionServer_def)

lemma connect_inv: "mcp_inv s \<Longrightarrow> mcp_inv (connect_notion s)"
proof -
  assume inv: "mcp_inv s"
  show ?thesis
  proof (cases "mc_connecting s = Some notion_name")
    case False
    show ?thesis
    proof (cases "find (\<lambda>srv. ms_name srv = notion_name) (mc_data s)")
      case None
      then show ?thesis
        using False by (intro mcp_inv_flow [OF inv, of _ "CreateServer notion_name notionServer" SavingNotion])
          (simp_all add: connect_notion_def mcp_send_def notion_ok notion_body_ok)
    next
      case (Some srv)
      show ?thesis
      proof (cases "\<not> is_oauth srv \<or> ms_url srv \<noteq> mb_url notionServer")
        case True
        then show ?thesis
          using False Some by (intro mcp_inv_flow [OF inv, of _ "UpdateServer notion_name (notionServer\<lparr>mb_description :=
                (if ms_description srv = [] then mb_description notionServer else ms_description srv)\<rparr>)" SavingNotion])
            (simp_all add: connect_notion_def mcp_send_def notion_ok notion_body_ok)
      next
        case oauth: False
        then show ?thesis
          using False Some by (intro mcp_inv_flow [OF inv, of _ "StartOAuth notion_name" "Starting notion_name"])
            (simp_all add: connect_notion_def mcp_send_def)
      qed
    qed
  qed (use inv in \<open>simp add: connect_notion_def\<close>)
qed

lemma mcp_warn_fields: "mc_sent (mcp_warn w s) = mc_sent s" "mc_flows (mcp_warn w s) = mc_flows s" "mc_location (mcp_warn w s) = mc_location s"
  by (simp_all add: mcp_warn_def mcp_notice_def split: option.split)

text \<open>A flow moves to its next phase, or ends.\<close>

lemma mcp_inv_reply:
  assumes "mcp_inv s" and "i < length (mc_flows s)" and "mc_flows t = (mc_flows s)[i := f]"
    and "mc_sent t = mc_sent s \<and> f = FlowOver \<or> mc_sent t = mc_sent s @ [StartOAuth n] \<and> f = Starting n"
    and "mc_location t = mc_location s \<or> (\<exists>n. mc_flows s ! i = Starting n)"
  shows "mcp_inv t"
proof -
  have f: "g \<in> set (mc_flows s)" if "g \<in> set (mc_flows t)" "g \<noteq> f" for g
    using that assms(3) set_update_subset_insert [of "mc_flows s" i f] by auto
  have ok: "list_all mcp_request_ok (mc_sent t)" "set (mc_sent s) \<subseteq> set (mc_sent t)"
    using assms(1,4) by (auto simp: mcp_inv_def)
  have old: "StartOAuth m \<in> set (mc_sent s)" if "Starting m \<in> set (mc_flows s)" for m
    using assms(1) that by (simp add: mcp_inv_def)
  have starting: "StartOAuth m \<in> set (mc_sent t)" if "Starting m \<in> set (mc_flows t)" for m
  proof (cases "f = Starting m")
    case True
    then show ?thesis using assms(4) by auto
  next
    case False
    then show ?thesis using old f [OF that] ok(2) by blast
  qed
  have saving: "list_ex notion_request (mc_sent t)" if "SavingNotion \<in> set (mc_flows t)"
  proof -
    have "SavingNotion \<in> set (mc_flows s)" using f [OF that] assms(4) by blast
    then show ?thesis using assms(1) ok(2) by (auto simp: mcp_inv_def list_ex_iff)
  qed
  have "\<exists>n. StartOAuth n \<in> set (mc_sent s)" if loc: "mc_location t \<noteq> None"
  proof (cases "mc_location s = None")
    case True
    then obtain n where "mc_flows s ! i = Starting n" using assms(5) loc by auto
    then have "Starting n \<in> set (mc_flows s)" using assms(2) nth_mem by metis
    then show ?thesis using old by blast
  qed (use assms(1) in \<open>simp add: mcp_inv_def\<close>)
  then show ?thesis unfolding mcp_inv_def using ok starting saving by blast
qed

lemma flow_inv: "mcp_inv s \<Longrightarrow> mcp_inv (flow_reply i r s)"
proof -
  assume inv: "mcp_inv s"
  show ?thesis
  proof (cases "length (mc_flows s) \<le> i \<or> mc_flows s ! i = FlowOver")
    case True
    then show ?thesis using inv by (auto simp: flow_reply_def)
  next
    case False
    then have i: "i < length (mc_flows s)" by simp
    show ?thesis
    proof (cases r)
      case None
      then show ?thesis using False by (intro mcp_inv_reply [OF inv i, of _ FlowOver]) (simp_all add: flow_reply_def split: connect_flow.split)
    next
      case (Some t)
      show ?thesis
      proof (cases "mc_flows s ! i")
        case SavingNotion
        then show ?thesis
          using False Some by (intro mcp_inv_reply [OF inv i, of _ "Starting notion_name" notion_name])
            (simp_all add: flow_reply_def mcp_send_def mcp_warn_fields)
      qed (use False Some in \<open>auto intro!: mcp_inv_reply [OF inv i, of _ FlowOver] simp: flow_reply_def mcp_load_def mcp_notice_def\<close>)
    qed
  qed
qed

lemma save_request_ok:
  assumes "trim (sf_name f) \<noteq> []" and "trim (sf_url f) \<noteq> []"
  shows "mcp_request_ok (CreateServer (sf_name f) (body_of f))" and "non_empty n = Some m \<Longrightarrow> mcp_request_ok (UpdateServer m (body_of f))"
  using assms by (auto simp: body_ok_def body_of_def non_empty_def split: if_splits)

lemma save_inv: "mcp_inv s \<Longrightarrow> mcp_inv (mcp_save s)"
proof -
  assume inv: "mcp_inv s"
  show ?thesis
  proof (cases "mc_saving s \<or> trim (sf_name (mc_form s)) = [] \<or> trim (sf_url (mc_form s)) = []")
    case True
    then show ?thesis by (intro mcp_inv_more [OF inv, of _ "[]"]) (auto simp: mcp_save_def mcp_notice_def)
  next
    case False
    then have "mcp_request_ok (case edited_server s of Some n \<Rightarrow> UpdateServer n (body_of (mc_form s))
        | None \<Rightarrow> CreateServer (sf_name (mc_form s)) (body_of (mc_form s)))"
      using save_request_ok [of "mc_form s"] by (auto simp: edited_server_def split: option.split)
    then show ?thesis using False by (intro mcp_inv_more [OF inv]) (auto simp: mcp_save_def mcp_send_def)
  qed
qed

lemma saved_inv: "mcp_inv s \<Longrightarrow> mcp_inv (mcp_saved u r s)"
  by (rule mcp_inv_more [of s _ "[]"]) (simp_all add: mcp_saved_def mcp_load_def mcp_warn_fields mcp_notice_def split: option.split)

lemma flow_start_inv: "mcp_inv s \<Longrightarrow> mcp_inv (start_oauth n s)" "mcp_inv s \<Longrightarrow> mcp_inv (disconnect_oauth n s)"
  by (auto simp: start_oauth_def disconnect_oauth_def mcp_send_def
      intro: mcp_inv_flow [of s _ "StartOAuth n" "Starting n"] mcp_inv_flow [of s _ "DisconnectOAuth n" "Disconnecting n"])

lemma mcp_step_inv: "mcp_inv s \<Longrightarrow> mcp_inv (mcp_step s e)"
proof (cases e)
  case (McpDeleteClick n c)
  then show "mcp_inv s \<Longrightarrow> ?thesis" by (auto simp: mcp_defs intro: mcp_inv_more [of s _ "[DeleteServer n]"])
next
  case (McpRefresh n)
  then show "mcp_inv s \<Longrightarrow> ?thesis" by (auto simp: mcp_defs intro: mcp_inv_more [of s _ "[RefreshServer n]"])
next
  case (McpFunction n fn on)
  then show "mcp_inv s \<Longrightarrow> ?thesis" by (auto simp: mcp_defs intro: mcp_inv_more [of s _ "[SetFunctionEnabled n fn on]"])
next
  case (McpRefreshed r)
  then show "mcp_inv s \<Longrightarrow> ?thesis" by (auto simp: mcp_defs split: option.split intro: mcp_inv_more [of s _ "[]"])
qed (auto simp: connect_inv flow_inv save_inv saved_inv flow_start_inv mcp_defs intro: mcp_inv_more [of s _ "[]"])

interpretation mcp: invariant_machine mcp_step mcp_inv
  by unfold_locales (rule mcp_step_inv)

text \<open>
  Whatever happens in the tab, every request to save a server has a name and an address, a token is
  sent only for bearer authentication and only when one was typed, and the browser leaves the page only
  after the start of OAuth was asked for.
\<close>

theorem mcp_requests_safe:
  "list_all mcp_request_ok (mc_sent (foldl mcp_step (mcp_start q) es)) \<and>
   (mc_location (foldl mcp_step (mcp_start q) es) = None \<or> (\<exists>n. StartOAuth n \<in> set (mc_sent (foldl mcp_step (mcp_start q) es))))"
proof -
  have "mcp_inv (mcp_start q)"
    by (simp add: mcp_inv_def mcp_start_def oauth_return_def mcp_load_def mcp_notice_def Let_def split: option.split)
  then have "mcp_inv (foldl mcp_step (mcp_start q) es)" by (rule mcp.run_inv)
  then show ?thesis by (auto simp: mcp_inv_def)
qed

section \<open>Facts: the tab and the backend\<close>

text \<open>
  C33. A server is opened in the editor and saved, with a new token typed or none: what the backend stores
  is the same server with that token, or with its old one; no other field changes.
\<close>

theorem server_edit_round_trip:
  assumes "\<not> mc_saving s" and "trim (gs_name g) \<noteq> []" and "trim (gs_url g) \<noteq> []" and "TrimSpace (gs_url g) = gs_url g"
    and "valid (gs_url g)"
  shows "\<exists>b. mc_sent (foldl mcp_step s [McpEdit (toResp g), McpForm ((form_of (toResp g))\<lparr>sf_token := t\<rparr>), McpSave]) =
      mc_sent s @ [UpdateServer (gs_name g) b] \<and>
    go_update valid b g = Some (g\<lparr>gs_token := (if t = [] then gs_token g else t)\<rparr>)"
proof -
  let ?b = "body_of ((form_of (toResp g))\<lparr>sf_token := t\<rparr>)"
  have n: "gs_name g \<noteq> []" "gs_url g \<noteq> []" using assms(2,3) by auto
  have "mc_sent (foldl mcp_step s [McpEdit (toResp g), McpForm ((form_of (toResp g))\<lparr>sf_token := t\<rparr>), McpSave]) =
      mc_sent s @ [UpdateServer (gs_name g) ?b]"
    using assms n by (simp add: mcp_edit_def mcp_save_def mcp_send_def edited_server_def non_empty_def form_of_def toResp_def)
  moreover have "go_update valid ?b g = Some (g\<lparr>gs_token := (if t = [] then gs_token g else t)\<rparr>)"
    using assms n by (simp add: go_update_def body_of_def form_of_def toResp_def is_oauth_def non_empty_def Let_def)
  ultimately show ?thesis by blast
qed

lemma server_edit_round_trip_witness:
  "\<exists>b. go_update (\<lambda>u. starts_with (js ''http'') u) b
      \<lparr>gs_name = js ''jira'', gs_url = js ''http://j'', gs_token = js ''s'', gs_auth_type = js ''bearer'', gs_enabled = True, gs_description = []\<rparr>
    = Some \<lparr>gs_name = js ''jira'', gs_url = js ''http://j'', gs_token = js ''s'', gs_auth_type = js ''bearer'', gs_enabled = True, gs_description = []\<rparr>"
proof -
  let ?g = "\<lparr>gs_name = js ''jira'', gs_url = js ''http://j'', gs_token = js ''s'', gs_auth_type = js ''bearer'', gs_enabled = True, gs_description = []\<rparr>"
  have "\<not> mc_saving (mcp_start None)" by (simp add: mcp_start_def oauth_return_def mcp_load_def)
  moreover have "trim (gs_name ?g) \<noteq> []" "trim (gs_url ?g) \<noteq> []" by (simp_all add: trim_no_outer_ws is_ws_def)
  moreover have "TrimSpace (gs_url ?g) = gs_url ?g" by (simp add: TrimSpace_def go_space_def)
  moreover have "starts_with (js ''http'') (gs_url ?g)" by (simp add: starts_with_def)
  ultimately show ?thesis using server_edit_round_trip [of "mcp_start None" ?g "\<lambda>u. starts_with (js ''http'') u" "[]"] by auto
qed

text \<open>
  The handlers of the backend neither read nor return the kind of authentication: a Notion server that
  was registered for OAuth is stored as one with a token, and is listed without a kind, so that every
  click on the button saves it again instead of going on to OAuth, and its row never offers OAuth.
\<close>

lemma notion_never_oauth:
  "(\<exists>g. go_create notion_name notionServer = Some g \<and> gs_auth_type g = js ''bearer'' \<and> gs_token g = []) \<and>
   (mc_data s = map toResp gs \<longrightarrow> mc_connecting s \<noteq> Some notion_name \<longrightarrow>
     (\<exists>b. mc_sent (connect_notion s) = mc_sent s @ [CreateServer notion_name b] \<or> mc_sent (connect_notion s) = mc_sent s @ [UpdateServer notion_name b]))"
proof
  have "TrimSpace notion_name \<noteq> []" "TrimSpace (mb_url notionServer) \<noteq> []"
    by (simp_all add: notion_name_def notionServer_def TrimSpace_def go_space_def)
  then show "\<exists>g. go_create notion_name notionServer = Some g \<and> gs_auth_type g = js ''bearer'' \<and> gs_token g = []"
    by (simp add: go_create_def) (simp add: notionServer_def)
  have "\<not> is_oauth srv" if "srv \<in> set (map toResp gs)" for srv
    using that by (auto simp: is_oauth_def toResp_def)
  then have "\<not> is_oauth srv" if "find P (map toResp gs) = Some srv" for srv P
    using that by (auto simp: find_Some_iff)
  then show "mc_data s = map toResp gs \<longrightarrow> mc_connecting s \<noteq> Some notion_name \<longrightarrow>
     (\<exists>b. mc_sent (connect_notion s) = mc_sent s @ [CreateServer notion_name b] \<or> mc_sent (connect_notion s) = mc_sent s @ [UpdateServer notion_name b])"
    by (auto simp: connect_notion_def mcp_send_def Let_def split: option.split)
qed

end
