(* ===== verification/RoutineForms.thy ===== *)
theory RoutineForms
  imports RoutinesStore Cron
begin

text \<open>
  The page of routines and the form of a routine: src/ui/web/src/pages/RoutinesPage.tsx and, under
  components/routines, RoutineFormDialog.tsx, TriggerSelector.tsx and ScheduleTypeInput.tsx.  The page
  works on the store of RoutinesStore; the hooks of page and dialog are the state, handlers and replies
  are events, and what remains of a save after an await is its phase.
\<close>

section \<open>The form\<close>

definition DEFAULT_CRON :: jstr where
  "DEFAULT_CRON = js ''0 * * * *''"

record routine_form =
  fv_name :: jstr
  fv_prompt :: jstr
  fv_type :: jstr
  fv_cron :: jstr
  fv_tz :: jstr
  fv_enabled :: bool
  fv_schedule :: bool
  fv_api :: bool

definition empty_routine_form :: routine_form where
  "empty_routine_form = \<lparr>fv_name = [], fv_prompt = [], fv_type = js ''hourly'', fv_cron = DEFAULT_CRON, fv_tz = js ''Asia/Ho_Chi_Minh'',
     fv_enabled = True, fv_schedule = True, fv_api = False\<rparr>"

text \<open>\<open>r.schedule_cron || d\<close>; an empty schedule counts as none.\<close>

definition cron_or :: "jstr option \<Rightarrow> jstr \<Rightarrow> jstr" where
  "cron_or c d = (case c of Some t \<Rightarrow> if t = [] then d else t | None \<Rightarrow> d)"

definition routineToForm :: "routine \<Rightarrow> routine_form" where
  "routineToForm r = \<lparr>fv_name = r_name r, fv_prompt = r_prompt r, fv_type = getScheduleType (Some (cron_or (r_schedule_cron r) DEFAULT_CRON)),
     fv_cron = cron_or (r_schedule_cron r) DEFAULT_CRON, fv_tz = r_schedule_tz r, fv_enabled = r_enabled r,
     fv_schedule = (cron_or (r_schedule_cron r) [] \<noteq> []), fv_api = r_has_fire_token r\<rparr>"

subsection \<open>Choosing a schedule\<close>

definition SCHEDULE_PRESET_CRON :: "(jstr \<times> jstr) list" where
  "SCHEDULE_PRESET_CRON = [(js ''hourly'', js ''0 * * * *''), (js ''daily'', js ''0 9 * * *''), (js ''weekdays'', js ''0 9 * * 1-5''),
     (js ''weekly'', js ''0 9 * * 0''), (js ''once'', js ''0 9 * * *'')]"

definition SCHEDULE_TABS :: "jstr list" where
  "SCHEDULE_TABS = [js ''once'', js ''hourly'', js ''daily'', js ''weekdays'', js ''weekly'', js ''custom'']"

definition on_schedule :: "jstr \<Rightarrow> jstr \<Rightarrow> routine_form \<Rightarrow> routine_form" where
  "on_schedule cron ty f = f\<lparr>fv_type := ty, fv_cron := cron\<rparr>"

definition handleTabChange :: "jstr \<Rightarrow> routine_form \<Rightarrow> routine_form" where
  "handleTabChange ty f = on_schedule (case map_of SCHEDULE_PRESET_CRON ty of Some c \<Rightarrow> c | None \<Rightarrow> fv_cron f) ty f"

text \<open>A picked date is its minute, hour, day and month (from 1).\<close>

definition handleOnceChange :: "(nat \<times> nat \<times> nat \<times> nat) option \<Rightarrow> routine_form \<Rightarrow> routine_form" where
  "handleOnceChange dt f = (case dt of None \<Rightarrow> f
     | Some (mins, hours, date, month) \<Rightarrow>
         on_schedule (nat_str mins @ [32] @ nat_str hours @ [32] @ nat_str date @ [32] @ nat_str month @ js '' *'') (js ''once'') f)"

text \<open>What the input of the chosen kind reports: a minute, a time of day, or a whole schedule.\<close>

definition schedule_input :: "jstr \<Rightarrow> routine_form \<Rightarrow> routine_form" where
  "schedule_input v f =
     (if fv_type f = js ''hourly'' then on_schedule (generateCron (js ''hourly'') (if v = [] then js ''0'' else v)) (js ''hourly'') f
      else if fv_type f \<in> {js ''daily'', js ''weekdays'', js ''weekly''} then
        on_schedule (generateCron (fv_type f) (if v = [] then js ''00:00'' else v)) (fv_type f) f
      else if fv_type f = js ''custom'' then on_schedule v (js ''custom'') f
      else f)"

section \<open>Page and dialog\<close>

record routine_payload =
  py_name :: jstr
  py_prompt :: jstr
  py_cron :: jstr
  py_tz :: jstr
  py_enabled :: bool
  py_token :: bool

datatype routine_request = CreateRoutine routine_payload | UpdateRoutine jstr routine_payload | EnableRoutine jstr bool
| RevokeToken jstr | RotateToken jstr | FireRoutine jstr | DeleteRoutine jstr | AskRuns jstr

text \<open>
  What is left of a save: the routine it edits, whether that had a token, whether the API trigger was on
  when it was clicked; then the token of the reply while an old one is revoked.
\<close>

datatype save_phase = AwaitSave "jstr option" bool bool | AwaitRevoke "jstr option" "jstr option"

record routine_page =
  rp_store :: routines_state
  rp_open :: bool
  rp_editing :: "routine option"
  rp_form :: routine_form
  rp_saving :: "save_phase option"
  rp_expanded :: "jstr list"
  rp_modal :: bool
  rp_shown :: jstr
  rp_sent :: "routine_request list"
  rp_toasts :: "jstr list"

text \<open>The dialog fills its form when it opens, and when another routine is edited.\<close>

definition fill_form :: "bool \<Rightarrow> routine option \<Rightarrow> routine_page \<Rightarrow> routine_page" where
  "fill_form was_open was_editing s =
     (if rp_open s \<and> (\<not> was_open \<or> rp_editing s \<noteq> was_editing) then
        s\<lparr>rp_form := (case rp_editing s of Some r \<Rightarrow> routineToForm r | None \<Rightarrow> empty_routine_form)\<rparr>
      else s)"

definition open_dialog :: "routine option \<Rightarrow> routine_page \<Rightarrow> routine_page" where
  "open_dialog r s = fill_form (rp_open s) (rp_editing s) (s\<lparr>rp_open := True, rp_editing := r\<rparr>)"

definition close_dialog :: "routine_page \<Rightarrow> routine_page" where
  "close_dialog s = s\<lparr>rp_open := False, rp_editing := None, rp_form := empty_routine_form\<rparr>"

definition routine_send :: "routine_request \<Rightarrow> routine_page \<Rightarrow> routine_page" where
  "routine_send r s = s\<lparr>rp_sent := rp_sent s @ [r]\<rparr>"

definition routine_toast :: "jstr \<Rightarrow> routine_page \<Rightarrow> routine_page" where
  "routine_toast t s = s\<lparr>rp_toasts := rp_toasts s @ [t]\<rparr>"

definition store_event :: "routines_event \<Rightarrow> routine_page \<Rightarrow> routine_page" where
  "store_event e s = s\<lparr>rp_store := routines_step (rp_store s) e\<rparr>"

definition had_token :: "routine_page \<Rightarrow> bool" where
  "had_token s = (case rp_editing s of Some r \<Rightarrow> r_has_fire_token r | None \<Rightarrow> False)"

text \<open>\<open>editingId\<close>, where an empty id counts as none.\<close>

definition editing_id :: "routine_page \<Rightarrow> jstr option" where
  "editing_id s = (case rp_editing s of Some r \<Rightarrow> if r_id r = [] then None else Some (r_id r) | None \<Rightarrow> None)"

definition payload_of :: "bool \<Rightarrow> routine_form \<Rightarrow> routine_payload" where
  "payload_of had v = \<lparr>py_name = fv_name v, py_prompt = fv_prompt v, py_cron = (if fv_schedule v then fv_cron v else []),
     py_tz = fv_tz v, py_enabled = fv_enabled v, py_token = (fv_api v \<and> \<not> had)\<rparr>"

text \<open>The click on the button of the dialog, up to the request of the page.\<close>

definition save_routine :: "routine_page \<Rightarrow> routine_page" where
  "save_routine s =
     (if rp_saving s \<noteq> None \<or> trim (fv_name (rp_form s)) = [] \<or> trim (fv_prompt (rp_form s)) = [] then s
      else if \<not> fv_schedule (rp_form s) \<and> \<not> fv_api (rp_form s) then routine_toast (js ''Select at least one trigger'') s
      else routine_send (case editing_id s of Some i \<Rightarrow> UpdateRoutine i (payload_of (had_token s) (rp_form s))
             | None \<Rightarrow> CreateRoutine (payload_of (had_token s) (rp_form s)))
        (s\<lparr>rp_saving := Some (AwaitSave (editing_id s) (had_token s) (fv_api (rp_form s)))\<rparr>))"

text \<open>
  The end of a save: a new token is shown and the form stays; otherwise the page and then the dialog
  report the success.
\<close>

definition end_save :: "jstr option \<Rightarrow> jstr option \<Rightarrow> routine_page \<Rightarrow> routine_page" where
  "end_save i token s0 =
     (let s = s0\<lparr>rp_open := False, rp_saving := None\<rparr>;
          done = (if i \<noteq> None then js ''Routine updated'' else js ''Routine created'')
      in case token of
           Some t \<Rightarrow> if t = [] then routine_toast done (routine_toast done (s\<lparr>rp_editing := None, rp_form := empty_routine_form\<rparr>))
             else s\<lparr>rp_modal := True, rp_shown := t\<rparr>
         | None \<Rightarrow> routine_toast done (routine_toast done (s\<lparr>rp_editing := None, rp_form := empty_routine_form\<rparr>)))"

text \<open>The reply of the server to a save: the routine and, when one was made, the token; \<open>None\<close> when it failed.\<close>

definition routine_save_reply :: "(routine \<times> jstr option) option \<Rightarrow> routine_page \<Rightarrow> routine_page" where
  "routine_save_reply r s = (case rp_saving s of
     Some (AwaitSave i had api) \<Rightarrow>
       (case r of
          None \<Rightarrow> s\<lparr>rp_saving := None\<rparr>
        | Some (v, token) \<Rightarrow>
            (case i of
               None \<Rightarrow> end_save None token (store_event (Created v) s)
             | Some k \<Rightarrow>
                 if had \<and> \<not> api then routine_send (RevokeToken k) ((store_event (Updated k v) s)\<lparr>rp_saving := Some (AwaitRevoke i token)\<rparr>)
                 else end_save i token (store_event (Updated k v) s)))
   | _ \<Rightarrow> s)"

definition revoke_reply :: "bool \<Rightarrow> routine_page \<Rightarrow> routine_page" where
  "revoke_reply ok s = (case rp_saving s of
     Some (AwaitRevoke i token) \<Rightarrow> end_save i token (case i of Some k \<Rightarrow> if ok then store_event (TokenRevoked k) s else s | None \<Rightarrow> s)
   | _ \<Rightarrow> s)"

definition toggle_routine :: "jstr \<Rightarrow> routine_page \<Rightarrow> routine_page" where
  "toggle_routine i s =
     (if i \<in> set (rp_expanded s) then s\<lparr>rp_expanded := filter (\<lambda>j. j \<noteq> i) (rp_expanded s)\<rparr>
      else routine_send (AskRuns i) (store_event (LoadRuns i) (s\<lparr>rp_expanded := rp_expanded s @ [i]\<rparr>)))"

definition expandRoutine :: "jstr \<Rightarrow> routine_page \<Rightarrow> routine_page" where
  "expandRoutine i s = (if i \<in> set (rp_expanded s) then s else s\<lparr>rp_expanded := rp_expanded s @ [i]\<rparr>)"

text \<open>The reply to a run that was started by hand carries its id.\<close>

definition fired :: "jstr \<Rightarrow> jstr \<Rightarrow> routine_page \<Rightarrow> routine_page" where
  "fired i run s = routine_send (AskRuns i) (store_event (LoadRuns i) (expandRoutine i (routine_toast (js ''Run started: '' @ run) s)))"

definition token_rotated :: "jstr \<Rightarrow> jstr \<Rightarrow> routine_page \<Rightarrow> routine_page" where
  "token_rotated i t s = (store_event (TokenRotated i) s)\<lparr>rp_modal := True, rp_shown := t\<rparr>"

definition routine_deleted :: "jstr \<Rightarrow> routine_page \<Rightarrow> routine_page" where
  "routine_deleted i s = routine_toast (js ''Routine deleted'') (store_event (Deleted i) s)"

datatype routine_page_event =
  PageStore routines_event | NewRoutine | EditRoutine routine | CloseForm | NameText jstr | PromptText jstr | ScheduleOn bool | ApiOn bool
| PickTab jstr | PickDate "(nat \<times> nat \<times> nat \<times> nat) option" | ScheduleText jstr | SaveForm
| SaveReplied "(routine \<times> jstr option) option" | RevokeReplied bool | ExpandRow jstr | RunNow jstr | Fired jstr jstr
| Rotate jstr | Rotated jstr jstr | Enable routine | Enabled jstr routine | RemoveRoutine jstr bool | Removed jstr | CloseModal

fun routine_page_step :: "routine_page \<Rightarrow> routine_page_event \<Rightarrow> routine_page" where
  "routine_page_step s (PageStore e) = store_event e s"
| "routine_page_step s NewRoutine = open_dialog None s"
| "routine_page_step s (EditRoutine r) = open_dialog (Some r) s"
| "routine_page_step s CloseForm = close_dialog s"
| "routine_page_step s (NameText t) = s\<lparr>rp_form := (rp_form s)\<lparr>fv_name := t\<rparr>\<rparr>"
| "routine_page_step s (PromptText t) = s\<lparr>rp_form := (rp_form s)\<lparr>fv_prompt := t\<rparr>\<rparr>"
| "routine_page_step s (ScheduleOn b) = s\<lparr>rp_form := (rp_form s)\<lparr>fv_schedule := b\<rparr>\<rparr>"
| "routine_page_step s (ApiOn b) = s\<lparr>rp_form := (rp_form s)\<lparr>fv_api := b\<rparr>\<rparr>"
| "routine_page_step s (PickTab ty) = s\<lparr>rp_form := handleTabChange ty (rp_form s)\<rparr>"
| "routine_page_step s (PickDate dt) = s\<lparr>rp_form := handleOnceChange dt (rp_form s)\<rparr>"
| "routine_page_step s (ScheduleText v) = s\<lparr>rp_form := schedule_input v (rp_form s)\<rparr>"
| "routine_page_step s SaveForm = save_routine s"
| "routine_page_step s (SaveReplied r) = routine_save_reply r s"
| "routine_page_step s (RevokeReplied ok) = revoke_reply ok s"
| "routine_page_step s (ExpandRow i) = toggle_routine i s"
| "routine_page_step s (RunNow i) = routine_send (FireRoutine i) s"
| "routine_page_step s (Fired i run) = fired i run s"
| "routine_page_step s (Rotate i) = routine_send (RotateToken i) s"
| "routine_page_step s (Rotated i t) = token_rotated i t s"
| "routine_page_step s (Enable r) = routine_send (EnableRoutine (r_id r) (\<not> r_enabled r)) s"
| "routine_page_step s (Enabled i r) = store_event (Updated i r) s"
| "routine_page_step s (RemoveRoutine i confirmed) = (if confirmed then routine_send (DeleteRoutine i) s else s)"
| "routine_page_step s (Removed i) = routine_deleted i s"
| "routine_page_step s CloseModal = s\<lparr>rp_modal := False\<rparr>"

section \<open>Facts: schedules\<close>

definition preset :: "jstr \<Rightarrow> jstr" where
  "preset ty = (case map_of SCHEDULE_PRESET_CRON ty of Some c \<Rightarrow> c | None \<Rightarrow> [])"

lemma preset_evals:
  "getScheduleType (Some (js ''0 * * * *'')) = js ''hourly''"
  "getScheduleType (Some (js ''0 9 * * *'')) = js ''daily''"
  "getScheduleType (Some (js ''0 9 * * 1-5'')) = js ''weekdays''"
  "getScheduleType (Some (js ''0 9 * * 0'')) = js ''weekly''"
  by (simp_all add: getScheduleType_def cron_parts_def split_ws_def trim_no_outer_ws is_ws_def schedule_type_of_parts_def star_def)

lemma once_parts: "cron_parts (nat_str mi @ [32] @ nat_str h @ [32] @ nat_str d @ [32] @ nat_str mo @ js '' *'') = [nat_str mi, nat_str h, nat_str d, nat_str mo, star]"
  using cron_parts_five [OF word_number word_number word_number word_number word_lits(1), of mi h d mo] by (simp add: star_def)

text \<open>
  A schedule chosen in the form is read back as the kind that was chosen: each of the presets, and
  every picked date.
\<close>

theorem schedule_choice_read_back:
  "(\<forall>ty \<in> {js ''hourly'', js ''daily'', js ''weekdays'', js ''weekly''}.
     fv_type (handleTabChange ty f) = ty \<and> getScheduleType (Some (fv_cron (handleTabChange ty f))) = ty) \<and>
   getScheduleType (Some (fv_cron (handleOnceChange (Some (mi, h, d, mo)) f))) = js ''once'' \<and>
   fv_type (handleOnceChange (Some (mi, h, d, mo)) f) = js ''once''"
proof -
  have "schedule_type_of_parts (nat_str h) (nat_str d) (nat_str mo) star = js ''once''"
    by (simp add: schedule_type_of_parts_def number_not_star number_part)
  then have "getScheduleType (Some (fv_cron (handleOnceChange (Some (mi, h, d, mo)) f))) = js ''once''"
    using once_parts [of mi h d mo] by (simp add: handleOnceChange_def on_schedule_def getScheduleType_def)
  moreover have "fv_type (handleTabChange ty f) = ty \<and> getScheduleType (Some (fv_cron (handleTabChange ty f))) = ty"
    if "ty \<in> {js ''hourly'', js ''daily'', js ''weekdays'', js ''weekly''}" for ty
    using that preset_evals by (auto simp: handleTabChange_def on_schedule_def SCHEDULE_PRESET_CRON_def)
  ultimately show ?thesis by (simp add: handleOnceChange_def on_schedule_def)
qed

lemma schedule_choice_read_back_witness:
  "getScheduleType (Some (fv_cron (handleTabChange (js ''weekly'') empty_routine_form))) = js ''weekly''"
  using schedule_choice_read_back [of empty_routine_form 0 0 1 1] by simp

text \<open>
  The tab \<open>once\<close> alone sets the schedule of a daily run: saved without picking a date, the routine runs
  every day at nine.
\<close>

lemma once_without_date_is_daily:
  "fv_type (handleTabChange (js ''once'') f) = js ''once'' \<and> getScheduleType (Some (fv_cron (handleTabChange (js ''once'') f))) = js ''daily'' \<and>
   cronDescription (fv_cron (handleTabChange (js ''once'') f)) = js ''Every day at 09:00''"
proof -
  have c: "fv_cron (handleTabChange (js ''once'') f) = js ''0 9 * * *''"
    by (simp add: handleTabChange_def on_schedule_def SCHEDULE_PRESET_CRON_def)
  have "cron_parts (js ''0 9 * * *'') = [nat_str 0, nat_str 9, star, star, star]"
    by (simp add: cron_parts_def split_ws_def trim_no_outer_ws is_ws_def star_def nat_str.simps)
  moreover have "two_digits 9 = js ''09''" "two_digits 0 = js ''00''" by (simp_all add: two_digits_def pad_start_def nat_str.simps)
  ultimately have "cronDescription (js ''0 9 * * *'') = js ''Every day at 09:00''"
    using time_number [of 9 0] by (simp add: cronDescription_def describe_parts_def number_not_star clock_def)
  then show ?thesis using preset_evals(2) unfolding c by (simp add: handleTabChange_def on_schedule_def)
qed

section \<open>Facts: saving\<close>

lemmas routine_page_defs = open_dialog_def fill_form_def save_routine_def routine_send_def routine_toast_def store_event_def payload_of_def
  had_token_def editing_id_def routine_save_reply_def revoke_reply_def end_save_def

text \<open>
  A routine that is opened and saved without a change is sent as it is: its name, instructions,
  schedule and zone, no new token is asked for, and when the server confirms, nothing more is sent.
\<close>

theorem routine_edit_round_trip:
  assumes "\<not> rp_open s" and "rp_saving s = None" and "r_id r \<noteq> []" and "trim (r_name r) \<noteq> []" and "trim (r_prompt r) \<noteq> []"
    and "cron_or (r_schedule_cron r) [] \<noteq> [] \<or> r_has_fire_token r"
  shows "rp_sent (foldl routine_page_step s [EditRoutine r, SaveForm, SaveReplied (Some (r, None))]) = rp_sent s @ [UpdateRoutine (r_id r)
     \<lparr>py_name = r_name r, py_prompt = r_prompt r, py_cron = cron_or (r_schedule_cron r) [], py_tz = r_schedule_tz r,
      py_enabled = r_enabled r, py_token = False\<rparr>]"
proof -
  have "cron_or (r_schedule_cron r) DEFAULT_CRON = cron_or (r_schedule_cron r) []" if "cron_or (r_schedule_cron r) [] \<noteq> []"
    using that by (auto simp: cron_or_def split: option.splits if_splits)
  then show ?thesis
    using assms by (auto simp: routine_page_defs routineToForm_def Let_def)
qed

definition a_routine :: routine where
  "a_routine = \<lparr>r_id = js ''r1'', r_workspace_id = [], r_name = js ''n'', r_prompt = js ''p'', r_model = None, r_session_prefix = [],
     r_enabled = True, r_schedule_cron = Some (js ''0 9 * * *''), r_schedule_tz = js ''UTC'', r_temporal_schedule_id = None,
     r_has_fire_token = True, r_created_by = None, r_created_at = [], r_updated_at = []\<rparr>"

definition routine_page_start :: "routines_state \<Rightarrow> routine_page" where
  "routine_page_start st = store_event LoadRoutines \<lparr>rp_store = st, rp_open = False, rp_editing = None, rp_form = empty_routine_form, rp_saving = None,
     rp_expanded = [], rp_modal = False, rp_shown = [], rp_sent = [], rp_toasts = []\<rparr>"

lemma routine_edit_round_trip_witness:
  "rp_sent (foldl routine_page_step (routine_page_start routines_initial) [EditRoutine a_routine, SaveForm, SaveReplied (Some (a_routine, None))])
    = [UpdateRoutine (js ''r1'') \<lparr>py_name = js ''n'', py_prompt = js ''p'', py_cron = js ''0 9 * * *'', py_tz = js ''UTC'', py_enabled = True, py_token = False\<rparr>]"
proof -
  let ?s = "routine_page_start routines_initial"
  have "\<not> rp_open ?s" "rp_saving ?s = None" "rp_sent ?s = []" by (simp_all add: routine_page_start_def store_event_def)
  moreover have "r_id a_routine \<noteq> []" "trim (r_name a_routine) \<noteq> []" "trim (r_prompt a_routine) \<noteq> []"
    "cron_or (r_schedule_cron a_routine) [] \<noteq> [] \<or> r_has_fire_token a_routine"
    by (simp_all add: a_routine_def trim_no_outer_ws is_ws_def)
  ultimately have "rp_sent (foldl routine_page_step ?s [EditRoutine a_routine, SaveForm, SaveReplied (Some (a_routine, None))]) = [] @ [UpdateRoutine (r_id a_routine)
     \<lparr>py_name = r_name a_routine, py_prompt = r_prompt a_routine, py_cron = cron_or (r_schedule_cron a_routine) [], py_tz = r_schedule_tz a_routine,
      py_enabled = r_enabled a_routine, py_token = False\<rparr>]"
    using routine_edit_round_trip [of ?s a_routine] by simp
  then show ?thesis by (simp add: a_routine_def cron_or_def)
qed

section \<open>The backend of a save\<close>

text \<open>
  What the backend does with an update, src/internal/transport/http/handler/routines.go and
  src/internal/services/routines/service.go.  The routine that is stored is known by its fields, where
  the token is known by whether there is one.  \<open>sid\<close> is the id under which the scheduler has taken the
  routine, \<open>None\<close> without a scheduler or when it fails; \<open>fresh\<close> is the new token.  Only an update that is
  accepted is described; times of change are left as they are.
\<close>

definition is_go_space :: "nat \<Rightarrow> bool" where
  "is_go_space c \<longleftrightarrow> c \<in> {9, 10, 11, 12, 13, 32, 133, 160, 5760, 8232, 8233, 8239, 8287, 12288} \<or> 8192 \<le> c \<and> c \<le> 8202"

definition normalizeCron :: "jstr option \<Rightarrow> jstr option" where
  "normalizeCron c = (case c of Some t \<Rightarrow> if list_all is_go_space t then None else c | None \<Rightarrow> None)"

text \<open>The handler lays the fields of the request over the routine.\<close>

definition overlay_update :: "routine \<Rightarrow> routine_payload \<Rightarrow> routine" where
  "overlay_update existing p = existing\<lparr>r_name := py_name p, r_prompt := py_prompt p, r_enabled := py_enabled p,
     r_schedule_cron := Some (py_cron p), r_schedule_tz := py_tz p\<rparr>"

definition service_update :: "jstr option \<Rightarrow> routine \<Rightarrow> routine \<Rightarrow> routine" where
  "service_update sid existing r =
     (let u = r\<lparr>r_schedule_cron := normalizeCron (r_schedule_cron r), r_workspace_id := r_workspace_id existing,
            r_has_fire_token := r_has_fire_token existing, r_temporal_schedule_id := r_temporal_schedule_id existing\<rparr>
      in case sid of None \<Rightarrow> u | Some i \<Rightarrow> u\<lparr>r_temporal_schedule_id := Some i\<rparr>)"

definition generate_fire_token :: "routine \<Rightarrow> routine" where
  "generate_fire_token r = r\<lparr>r_has_fire_token := True\<rparr>"

definition revoke_fire_token :: "routine \<Rightarrow> routine" where
  "revoke_fire_token r = r\<lparr>r_has_fire_token := False\<rparr>"

text \<open>The routine that is stored in the end, and the routine and token of the reply: the reply is put together before the token is made.\<close>

definition handle_update :: "jstr option \<Rightarrow> jstr \<Rightarrow> routine \<Rightarrow> routine_payload \<Rightarrow> routine \<times> routine \<times> jstr option" where
  "handle_update sid fresh existing p =
     (let updated = service_update sid existing (overlay_update existing p)
      in if py_token p then (generate_fire_token updated, updated, Some fresh) else (updated, updated, None))"

text \<open>The routine after the requests that follow the update; \<open>ok\<close>: they succeed.\<close>

definition after_requests :: "bool \<Rightarrow> routine_request list \<Rightarrow> routine \<Rightarrow> routine" where
  "after_requests ok rs r = (if ok \<and> RevokeToken (r_id r) \<in> set rs then revoke_fire_token r else r)"

lemma handle_update_fields:
  assumes "handle_update sid fresh existing p = (stored, v, t)"
  shows "r_id stored = r_id existing" "r_id v = r_id existing" "r_has_fire_token v = r_has_fire_token existing"
    "r_has_fire_token stored = (r_has_fire_token existing \<or> py_token p)"
  using assms by (auto simp: handle_update_def service_update_def overlay_update_def generate_fire_token_def Let_def split: if_splits option.splits)

section \<open>Facts: saving and tokens\<close>

lemma end_save_fields: "rp_store (end_save i t s) = rp_store s" "rp_sent (end_save i t s) = rp_sent s" "rp_saving (end_save i t s) = None"
  by (simp_all add: end_save_def routine_toast_def Let_def split: option.split)

lemma save_routine_sends:
  assumes "rp_editing s = Some r" and "r_id r \<noteq> []" and "rp_saving s = None"
    and "trim (fv_name (rp_form s)) \<noteq> []" and "trim (fv_prompt (rp_form s)) \<noteq> []" and "fv_schedule (rp_form s) \<or> fv_api (rp_form s)"
  shows "save_routine s = routine_send (UpdateRoutine (r_id r) (payload_of (r_has_fire_token r) (rp_form s)))
    (s\<lparr>rp_saving := Some (AwaitSave (Some (r_id r)) (r_has_fire_token r) (fv_api (rp_form s)))\<rparr>)"
proof -
  have "editing_id s = Some (r_id r)" "had_token s = r_has_fire_token r" using assms(1,2) by (simp_all add: editing_id_def had_token_def)
  then show ?thesis using assms(3-6) by (auto simp: save_routine_def)
qed

lemma save_replied:
  assumes "rp_saving u = Some (AwaitSave (Some i) had api)"
  shows "rp_store (revoke_reply ok (routine_save_reply (Some (v, t)) u)) =
      (if had \<and> \<not> api \<and> ok then routines_step (routines_step (rp_store u) (Updated i v)) (TokenRevoked i) else routines_step (rp_store u) (Updated i v))"
    and "rp_sent (revoke_reply ok (routine_save_reply (Some (v, t)) u)) = rp_sent u @ (if had \<and> \<not> api then [RevokeToken i] else [])"
proof -
  have keep: "revoke_reply ok w = w" if "rp_saving w = None" for w using that by (simp add: revoke_reply_def)
  have "routine_save_reply (Some (v, t)) u = (if had \<and> \<not> api
      then routine_send (RevokeToken i) ((store_event (Updated i v) u)\<lparr>rp_saving := Some (AwaitRevoke (Some i) t)\<rparr>)
      else end_save (Some i) t (store_event (Updated i v) u))"
    by (simp add: routine_save_reply_def assms)
  moreover have "revoke_reply ok (routine_send (RevokeToken i) ((store_event (Updated i v) u)\<lparr>rp_saving := Some (AwaitRevoke (Some i) t)\<rparr>)) =
      end_save (Some i) t (let w = routine_send (RevokeToken i) ((store_event (Updated i v) u)\<lparr>rp_saving := Some (AwaitRevoke (Some i) t)\<rparr>)
        in if ok then store_event (TokenRevoked i) w else w)"
    by (simp add: revoke_reply_def routine_send_def Let_def)
  ultimately show "rp_store (revoke_reply ok (routine_save_reply (Some (v, t)) u)) =
      (if had \<and> \<not> api \<and> ok then routines_step (routines_step (rp_store u) (Updated i v)) (TokenRevoked i) else routines_step (rp_store u) (Updated i v))"
    and "rp_sent (revoke_reply ok (routine_save_reply (Some (v, t)) u)) = rp_sent u @ (if had \<and> \<not> api then [RevokeToken i] else [])"
    using keep [OF end_save_fields(3)] by (auto simp: end_save_fields store_event_def routine_send_def Let_def)
qed

text \<open>
  C34. When a routine has been edited and saved and the backend has answered, the backend keeps a token
  for it exactly when the API trigger was on, or when revoking the old token failed: a token is made
  only when there was none, and the old one is revoked only when the trigger was switched off.  The list
  of the page follows, except that it never shows a token that was just made, because the backend
  answers with the routine as it was before.  The page is assumed to have shown the right state before.
\<close>

theorem token_follows_trigger:
  assumes "rp_editing s = Some r" and "r_id r \<noteq> []" and "rp_saving s = None"
    and "trim (fv_name (rp_form s)) \<noteq> []" and "trim (fv_prompt (rp_form s)) \<noteq> []" and "fv_schedule (rp_form s) \<or> fv_api (rp_form s)"
    and "routines_inv (rp_store s)" and "routines_abs (rp_store s) (r_id r) \<noteq> None"
    and "r_id srv = r_id r" and "r_has_fire_token srv = r_has_fire_token r"
    and "handle_update sid fresh srv (payload_of (r_has_fire_token r) (rp_form s)) = (stored, v, t)"
    and "s' = foldl routine_page_step s [SaveForm, SaveReplied (Some (v, t)), RevokeReplied ok]"
    and "rs = (if r_has_fire_token r \<and> \<not> fv_api (rp_form s) then [RevokeToken (r_id r)] else [])"
  shows "rp_sent s' = rp_sent s @ UpdateRoutine (r_id r) (payload_of (r_has_fire_token r) (rp_form s)) # rs \<and>
    (r_has_fire_token (after_requests ok rs stored) \<longleftrightarrow> fv_api (rp_form s) \<or> r_has_fire_token r \<and> \<not> ok) \<and>
    (\<exists>w. routines_abs (rp_store s') (r_id r) = Some w \<and>
      (r_has_fire_token w \<longleftrightarrow> r_has_fire_token r \<and> (fv_api (rp_form s) \<or> \<not> ok)))"
proof -
  let ?st = "rp_store s" and ?i = "r_id r" and ?p = "payload_of (r_has_fire_token r) (rp_form s)"
  note fields = handle_update_fields [OF assms(11), unfolded assms(9,10)]
  have ok: "routines_ok ?st (Updated ?i v)" using fields by simp
  have up: "routines_abs (routines_step ?st (Updated ?i v)) ?i = Some v"
    using routines.step_refines [OF assms(7) ok] assms(8) by auto
  have inv: "routines_inv (routines_step ?st (Updated ?i v))" by (rule routines.step_ok_inv [OF assms(7) ok])
  have rev: "routines_abs (routines_step (routines_step ?st (Updated ?i v)) (TokenRevoked ?i)) ?i = Some (v\<lparr>r_has_fire_token := False\<rparr>)"
    using routines.step_refines [OF inv, of "TokenRevoked ?i"] up by simp
  let ?u = "save_routine s"
  have u: "rp_saving ?u = Some (AwaitSave (Some ?i) (r_has_fire_token r) (fv_api (rp_form s)))" "rp_store ?u = ?st"
    "rp_sent ?u = rp_sent s @ [UpdateRoutine ?i ?p]"
    unfolding save_routine_sends [OF assms(1-6)] by (simp_all add: routine_send_def)
  have s': "s' = revoke_reply ok (routine_save_reply (Some (v, t)) ?u)"
    using assms(12) by simp
  have "r_has_fire_token stored \<longleftrightarrow> r_has_fire_token r \<or> fv_api (rp_form s)"
    using fields(4) by (auto simp: payload_of_def)
  then have "r_has_fire_token (after_requests ok rs stored) \<longleftrightarrow> fv_api (rp_form s) \<or> r_has_fire_token r \<and> \<not> ok"
    using fields(1) by (auto simp: after_requests_def revoke_fire_token_def assms(13))
  moreover have "\<exists>w. routines_abs (rp_store s') ?i = Some w \<and> (r_has_fire_token w \<longleftrightarrow> r_has_fire_token r \<and> (fv_api (rp_form s) \<or> \<not> ok))"
    unfolding s' save_replied(1) [OF u(1)] u(2) using up rev fields(3)
    by (cases "r_has_fire_token r \<and> \<not> fv_api (rp_form s) \<and> ok") auto
  moreover have "rp_sent s' = rp_sent s @ UpdateRoutine ?i ?p # rs"
    using save_replied(2) [OF u(1), of ok v t] unfolding s' u(3) assms(13) by simp
  ultimately show ?thesis by blast
qed

lemma token_follows_trigger_witness:
  "rp_sent (foldl routine_page_step ((routine_page_start (routines_initial\<lparr>items := [a_routine]\<rparr>))
       \<lparr>rp_editing := Some a_routine, rp_form := (routineToForm a_routine)\<lparr>fv_api := False\<rparr>\<rparr>)
     [SaveForm, SaveReplied (Some (fst (snd (handle_update None (js ''t'') a_routine (payload_of True ((routineToForm a_routine)\<lparr>fv_api := False\<rparr>)))), None)),
      RevokeReplied True]) =
   [UpdateRoutine (js ''r1'') (payload_of True ((routineToForm a_routine)\<lparr>fv_api := False\<rparr>)), RevokeToken (js ''r1'')]"
proof -
  let ?f = "(routineToForm a_routine)\<lparr>fv_api := False\<rparr>"
  let ?s = "(routine_page_start (routines_initial\<lparr>items := [a_routine]\<rparr>))\<lparr>rp_editing := Some a_routine, rp_form := ?f\<rparr>"
  have f: "fv_name (rp_form ?s) = js ''n''" "fv_prompt (rp_form ?s) = js ''p''" "fv_schedule (rp_form ?s)" "\<not> fv_api (rp_form ?s)"
    "r_id a_routine = js ''r1''" "r_has_fire_token a_routine"
    by (simp_all add: routineToForm_def a_routine_def cron_or_def)
  have t: "trim (js ''n'') = js ''n''" "trim (js ''p'') = js ''p''" by (simp_all add: trim_no_outer_ws is_ws_def)
  have st: "rp_store ?s = routines_step (routines_initial\<lparr>items := [a_routine]\<rparr>) LoadRoutines" "rp_saving ?s = None" "rp_sent ?s = []"
    by (simp_all add: routine_page_start_def store_event_def)
  have i: "routines_inv (rp_store ?s)" "routines_abs (rp_store ?s) (r_id a_routine) \<noteq> None"
    unfolding st by (simp_all add: routines_inv_def routines_abs_def lookup_def)
  obtain stored v where h: "handle_update None (js ''t'') a_routine (payload_of True ?f) = (stored, v, None)"
    by (simp add: handle_update_def payload_of_def Let_def)
  have "handle_update None (js ''t'') a_routine (payload_of (r_has_fire_token a_routine) (rp_form ?s)) = (stored, v, None)"
    using h f(6) by simp
  from token_follows_trigger [OF _ _ st(2) _ _ _ i refl refl this refl refl, of True]
  show ?thesis using f t st(3) h by simp
qed

text \<open>
  After the API trigger has been switched on, the list says that the routine has no token.  When the
  form is opened from it and saved again, the token stays in force, although the trigger is off in the
  form.
\<close>

lemma new_token_forgotten:
  assumes "handle_update sid fresh srv p = (stored, v, t)" and "py_token p" and "\<not> r_has_fire_token srv"
  shows "r_has_fire_token stored \<and> \<not> r_has_fire_token v \<and> \<not> fv_api (routineToForm v) \<and>
    (\<forall>s. rp_editing s = Some v \<longrightarrow> rp_form s = routineToForm v \<longrightarrow> rp_sent (save_routine s) = rp_sent s \<or>
       (\<exists>q. rp_sent (save_routine s) = rp_sent s @ [q] \<and> (\<forall>sid' f. case q of
          UpdateRoutine _ p' \<Rightarrow> r_has_fire_token (fst (handle_update sid' f stored p')) | _ \<Rightarrow> r_id v = [])))"
proof -
  note fields = handle_update_fields [OF assms(1)]
  have "r_has_fire_token (fst (handle_update sid' f stored p'))" for sid' f p'
    using handle_update_fields(4) [of sid' f stored p'] fields(4) assms(2) by (metis prod.collapse)
  then show ?thesis
    using fields(3,4) assms(2,3)
    by (auto simp: save_routine_def routine_send_def routine_toast_def editing_id_def routineToForm_def)
qed

text \<open>A successful save is reported twice, once by the page and once by the dialog.\<close>

lemma success_told_twice:
  "rp_saving s = Some (AwaitSave None False False) \<Longrightarrow>
   rp_toasts (routine_save_reply (Some (v, None)) s) = rp_toasts s @ [js ''Routine created'', js ''Routine created'']"
  by (simp add: routine_save_reply_def end_save_def routine_toast_def store_event_def Let_def)

end
