(* ===== verification/ContextFiles.thy ===== *)
theory ContextFiles
  imports Grouping
begin

text \<open>
  The tab of context files, src/ui/web/src/components/settings/tabs/ContextFilesTab.tsx: a list of files, the
  one that is open, and its text.  The hooks are the state; handlers and replies are events.  A load
  remembers whether a file was selected when its handler was called, as the closure of the handler does.
  A file can be opened when the list is shown, that is while nothing is loading.  For the property the
  tab runs beside the store of the server, which only the tab writes.
\<close>

section \<open>The tab\<close>

record context_file =
  cf_id :: jstr
  cf_scope :: jstr
  cf_user_id :: "jstr option"
  cf_path :: jstr
  cf_content :: jstr

datatype context_request = UpsertFile context_file | CreateFile jstr jstr jstr | DeleteFile jstr jstr "jstr option"

record files_tab =
  ft_files :: "context_file list"
  ft_loading :: bool
  ft_selected :: "context_file option"
  ft_text :: jstr
  ft_dirty :: bool
  ft_saving :: bool
  ft_dialog :: bool
  ft_path :: jstr
  ft_scope :: jstr
  ft_content :: jstr
  ft_creating :: bool
  ft_loads :: "bool list"
  ft_sent :: "context_request list"
  ft_toasts :: "jstr list"

text \<open>\<open>open_one\<close>: no file was selected when the load was asked for.\<close>

definition files_load :: "bool \<Rightarrow> files_tab \<Rightarrow> files_tab" where
  "files_load open_one s = s\<lparr>ft_loading := True, ft_loads := ft_loads s @ [open_one]\<rparr>"

definition files_start :: files_tab where
  "files_start = files_load True \<lparr>ft_files = [], ft_loading = True, ft_selected = None, ft_text = [], ft_dirty = False, ft_saving = False,
     ft_dialog = False, ft_path = [], ft_scope = js ''global'', ft_content = [], ft_creating = False, ft_loads = [], ft_sent = [], ft_toasts = []\<rparr>"

definition selectFile :: "context_file \<Rightarrow> files_tab \<Rightarrow> files_tab" where
  "selectFile f s = s\<lparr>ft_selected := Some f, ft_text := cf_content f, ft_dirty := False\<rparr>"

text \<open>The reply to the load \<open>i\<close>; \<open>wide\<close>: the window is at least 768 pixels wide.\<close>

definition files_reply :: "nat \<Rightarrow> context_file list option \<Rightarrow> bool \<Rightarrow> files_tab \<Rightarrow> files_tab" where
  "files_reply i r wide s0 =
     (if length (ft_loads s0) \<le> i then s0
      else let s = s0\<lparr>ft_loading := False, ft_loads := take i (ft_loads s0) @ drop (Suc i) (ft_loads s0)\<rparr> in
        case r of
          None \<Rightarrow> s\<lparr>ft_files := []\<rparr>
        | Some [] \<Rightarrow> s\<lparr>ft_files := []\<rparr>
        | Some (f # fs) \<Rightarrow> if ft_loads s0 ! i \<and> wide then selectFile f (s\<lparr>ft_files := f # fs\<rparr>) else s\<lparr>ft_files := f # fs\<rparr>)"

text \<open>The button is off while saving and when nothing was typed.\<close>

definition save_file :: "files_tab \<Rightarrow> files_tab" where
  "save_file s = (case ft_selected s of
     None \<Rightarrow> s
   | Some f \<Rightarrow> if ft_saving s \<or> \<not> ft_dirty s then s
       else s\<lparr>ft_saving := True, ft_sent := ft_sent s @ [UpsertFile (f\<lparr>cf_content := ft_text s\<rparr>)]\<rparr>)"

definition file_saved :: "bool \<Rightarrow> files_tab \<Rightarrow> files_tab" where
  "file_saved ok s =
     (if \<not> ft_saving s then s
      else if ok then files_load False (s\<lparr>ft_dirty := False, ft_saving := False, ft_toasts := ft_toasts s @ [js ''Context file saved'']\<rparr>)
      else s\<lparr>ft_saving := False\<rparr>)"

definition create_dialog :: "files_tab \<Rightarrow> files_tab" where
  "create_dialog s = s\<lparr>ft_dialog := True, ft_path := [], ft_scope := js ''global'', ft_content := []\<rparr>"

definition create_file :: "files_tab \<Rightarrow> files_tab" where
  "create_file s = (if ft_creating s \<or> ft_path s = [] then s
     else s\<lparr>ft_creating := True, ft_sent := ft_sent s @ [CreateFile (ft_path s) (ft_scope s) (ft_content s)]\<rparr>)"

text \<open>\<open>open_one\<close>: no file was selected when the button was clicked.\<close>

definition file_created :: "bool \<Rightarrow> context_file option \<Rightarrow> files_tab \<Rightarrow> files_tab" where
  "file_created open_one r s =
     (if \<not> ft_creating s then s
      else case r of None \<Rightarrow> s\<lparr>ft_creating := False\<rparr>
      | Some f \<Rightarrow> selectFile f (files_load open_one
          (s\<lparr>ft_dialog := False, ft_creating := False, ft_toasts := ft_toasts s @ [js ''Context file created'']\<rparr>)))"

definition delete_file :: "bool \<Rightarrow> files_tab \<Rightarrow> files_tab" where
  "delete_file confirmed s = (case ft_selected s of None \<Rightarrow> s
     | Some f \<Rightarrow> if confirmed then s\<lparr>ft_sent := ft_sent s @ [DeleteFile (cf_scope f) (cf_path f) (cf_user_id f)]\<rparr> else s)"

text \<open>The reply to the request \<open>n\<close> of those sent.\<close>

definition is_delete :: "context_request \<Rightarrow> bool" where
  "is_delete r = (case r of DeleteFile _ _ _ \<Rightarrow> True | _ \<Rightarrow> False)"

definition file_deleted :: "nat \<Rightarrow> files_tab \<Rightarrow> files_tab" where
  "file_deleted n s =
     (if n < length (ft_sent s) \<and> is_delete (ft_sent s ! n)
      then files_load False (s\<lparr>ft_selected := None, ft_toasts := ft_toasts s @ [js ''Context file deleted'']\<rparr>) else s)"

text \<open>A click on a file of the list, which is not shown while a load is under way.\<close>

definition click_file :: "context_file \<Rightarrow> files_tab \<Rightarrow> files_tab" where
  "click_file f s = (if ft_loading s \<or> f \<notin> set (ft_files s) then s else selectFile f s)"

text \<open>The files by scope; an empty scope counts as global.\<close>

definition file_groups :: "context_file list \<Rightarrow> (jstr \<times> context_file list) list" where
  "file_groups fs = foldl (\<lambda>g f. upd_group (\<lambda>xs. xs @ [f]) (if cf_scope f = [] then js ''global'' else cf_scope f) g) [] fs"

datatype files_event =
  FilesReply nat "context_file list option" bool | SelectFile context_file | FileTyped jstr | FileBack | SaveFile | FileSaved bool
| NewFile | NewFileForm jstr jstr jstr | FileDialog bool | CreateClicked | FileCreated bool "context_file option"
| DeleteClicked bool | FileDeleted nat

fun files_step :: "files_tab \<Rightarrow> files_event \<Rightarrow> files_tab" where
  "files_step s (FilesReply i r wide) = files_reply i r wide s"
| "files_step s (SelectFile f) = click_file f s"
| "files_step s (FileTyped t) = (if ft_selected s = None then s else s\<lparr>ft_text := t, ft_dirty := True\<rparr>)"
| "files_step s FileBack = s\<lparr>ft_selected := None\<rparr>"
| "files_step s SaveFile = save_file s"
| "files_step s (FileSaved ok) = file_saved ok s"
| "files_step s NewFile = create_dialog s"
| "files_step s (NewFileForm p sc c) = s\<lparr>ft_path := p, ft_scope := sc, ft_content := c\<rparr>"
| "files_step s (FileDialog b) = s\<lparr>ft_dialog := b\<rparr>"
| "files_step s CreateClicked = create_file s"
| "files_step s (FileCreated open_one r) = file_created open_one r s"
| "files_step s (DeleteClicked confirmed) = delete_file confirmed s"
| "files_step s (FileDeleted n) = file_deleted n s"

section \<open>Facts\<close>

text \<open>Every file is listed, in the group of its scope.\<close>

lemma file_groups_all: "group_elements (file_groups fs) = mset fs"
proof -
  have "group_elements (foldl (\<lambda>g f. upd_group (\<lambda>xs. xs @ [f]) (k f) g) g fs) = group_elements g + mset fs" for g :: "(jstr \<times> context_file list) list" and k
    by (induction fs arbitrary: g) (simp_all add: group_elements_upd)
  then show ?thesis by (simp add: file_groups_def group_elements_def)
qed

subsection \<open>The server beside the tab\<close>

text \<open>The server keeps one text for each scope, path and user.\<close>

type_synonym file_slot = "jstr \<times> jstr \<times> jstr option"

definition file_key :: "context_file \<Rightarrow> file_slot" where
  "file_key f = (cf_scope f, cf_path f, cf_user_id f)"

definition last_upsert :: "context_request list \<Rightarrow> context_file option" where
  "last_upsert rs = foldl (\<lambda>last r. case r of UpsertFile f \<Rightarrow> Some f | _ \<Rightarrow> last) None rs"

text \<open>A request has been carried out when its reply arrives, and a failed one has not.\<close>

definition server_step :: "(file_slot \<rightharpoonup> jstr) \<Rightarrow> files_tab \<Rightarrow> files_event \<Rightarrow> (file_slot \<rightharpoonup> jstr)" where
  "server_step sv s e = (case e of
     FileSaved ok \<Rightarrow> (case last_upsert (ft_sent s) of
         Some f \<Rightarrow> if ok \<and> ft_saving s then sv(file_key f \<mapsto> cf_content f) else sv
       | None \<Rightarrow> sv)
   | FileCreated _ (Some f) \<Rightarrow> if ft_creating s then sv(file_key f \<mapsto> cf_content f) else sv
   | FileDeleted n \<Rightarrow> if n < length (ft_sent s)
       then (case ft_sent s ! n of DeleteFile sc path u \<Rightarrow> sv((sc, path, u) := None) | _ \<Rightarrow> sv) else sv
   | _ \<Rightarrow> sv)"

definition files_world :: "files_tab \<times> (file_slot \<rightharpoonup> jstr) \<Rightarrow> files_event \<Rightarrow> files_tab \<times> (file_slot \<rightharpoonup> jstr)" where
  "files_world w e = (files_step (fst w) e, server_step (snd w) (fst w) e)"

text \<open>
  A list that arrives holds what the server holds.  While a save is under way nothing else reaches the
  open file: no typing, no other file, no creation or deletion, and no list that opens its first file.
\<close>

definition files_calm :: "files_tab \<times> (file_slot \<rightharpoonup> jstr) \<Rightarrow> files_event \<Rightarrow> bool" where
  "files_calm w e \<longleftrightarrow>
     (case e of FilesReply i (Some fs) _ \<Rightarrow> list_all (\<lambda>f. snd w (file_key f) = Some (cf_content f)) fs | _ \<Rightarrow> True) \<and>
     (ft_saving (fst w) \<longrightarrow> (case e of FileSaved _ \<Rightarrow> True
        | FilesReply i _ _ \<Rightarrow> i < length (ft_loads (fst w)) \<longrightarrow> \<not> ft_loads (fst w) ! i
        | NewFile \<Rightarrow> True | NewFileForm _ _ _ \<Rightarrow> True | FileDialog _ \<Rightarrow> True | _ \<Rightarrow> False))"

definition files_inv :: "files_tab \<times> (file_slot \<rightharpoonup> jstr) \<Rightarrow> bool" where
  "files_inv w \<longleftrightarrow>
     (\<forall>f. ft_selected (fst w) = Some f \<longrightarrow> \<not> ft_dirty (fst w) \<longrightarrow> snd w (file_key f) = Some (ft_text (fst w))) \<and>
     (ft_saving (fst w) \<longrightarrow> (\<exists>f. ft_selected (fst w) = Some f \<and>
        last_upsert (ft_sent (fst w)) = Some (f\<lparr>cf_content := ft_text (fst w)\<rparr>))) \<and>
     (\<not> ft_loading (fst w) \<longrightarrow> (\<forall>f \<in> set (ft_files (fst w)). snd w (file_key f) = Some (cf_content f)))"

lemma last_upsert_snoc [simp]: "last_upsert (rs @ [UpsertFile f]) = Some f"
  by (simp add: last_upsert_def)

lemma file_key_content [simp]: "file_key (f\<lparr>cf_content := t\<rparr>) = file_key f"
  by (simp add: file_key_def)

lemmas files_world_defs = files_inv_def files_calm_def files_world_def server_step_def

lemma reply_inv:
  assumes "files_inv (s, sv)" and "files_calm (s, sv) (FilesReply i r wide)"
  shows "files_inv (files_world (s, sv) (FilesReply i r wide))"
proof (cases r)
  case None
  then show ?thesis using assms by (auto simp: files_world_defs files_reply_def Let_def)
next
  case (Some fs)
  then show ?thesis using assms
    by (cases fs) (auto simp: files_world_defs files_reply_def selectFile_def Let_def list_all_iff)
qed

lemma files_world_inv:
  assumes "files_inv w" and "files_calm w e"
  shows "files_inv (files_world w e)"
proof -
  obtain s sv where w: "w = (s, sv)" by (cases w)
  show ?thesis
  proof (cases e)
    case (FilesReply i r wide)
    then show ?thesis using reply_inv assms w by simp
  next
    case (SelectFile f)
    then show ?thesis using assms by (auto simp: w files_world_defs click_file_def selectFile_def)
  next
    case SaveFile
    then show ?thesis using assms by (auto simp: w files_world_defs save_file_def split: option.splits)
  next
    case (FileSaved ok)
    then show ?thesis using assms by (auto simp: w files_world_defs file_saved_def files_load_def split: option.splits)
  next
    case CreateClicked
    then show ?thesis using assms by (auto simp: w files_world_defs create_file_def)
  next
    case (FileCreated open_one r)
    then show ?thesis using assms
      by (cases r) (auto simp: w files_world_defs file_created_def files_load_def selectFile_def)
  next
    case (DeleteClicked c)
    then show ?thesis using assms by (auto simp: w files_world_defs delete_file_def split: option.splits)
  next
    case (FileDeleted n)
    then show ?thesis using assms
      by (auto simp: w files_world_defs file_deleted_def is_delete_def files_load_def split: context_request.splits)
  qed (use assms in \<open>auto simp: w files_world_defs create_dialog_def\<close>)
qed

interpretation files_tab: guarded_machine files_world files_calm files_inv
  by unfold_locales (rule files_world_inv)

lemma files_world_run: "fst (foldl files_world w es) = foldl files_step (fst w) es"
  by (induction es arbitrary: w) (simp_all add: files_world_def)


definition a_file :: "jstr \<Rightarrow> jstr \<Rightarrow> context_file" where
  "a_file p c = \<lparr>cf_id = p, cf_scope = js ''global'', cf_user_id = None, cf_path = p, cf_content = c\<rparr>"

lemmas files_eval = files_start_def files_load_def files_reply_def selectFile_def save_file_def file_saved_def create_file_def
  create_dialog_def file_created_def a_file_def Let_def

definition edit_and_save :: "files_event list" where
  "edit_and_save = [FilesReply 0 (Some [a_file (js ''a'') (js ''x'')]) True, FileTyped (js ''y''), SaveFile, FileSaved True]"


text \<open>Text typed while a save is under way is marked as saved when the reply arrives, and the button is off.\<close>

lemma typed_while_saving:
  assumes "ft_selected s = Some f" and "ft_dirty s" and "\<not> ft_saving s"
  shows "ft_text (foldl files_step s [SaveFile, FileTyped t, FileSaved True]) = t \<and> \<not> ft_dirty (foldl files_step s [SaveFile, FileTyped t, FileSaved True]) \<and>
    ft_sent (foldl files_step s [SaveFile, FileTyped t, FileSaved True, SaveFile]) = ft_sent s @ [UpsertFile (f\<lparr>cf_content := ft_text s\<rparr>)]"
  using assms by (simp add: save_file_def file_saved_def files_load_def)

text \<open>A file that is created while none is open is left again for the first file when the list arrives.\<close>

lemma created_file_is_left:
  "ft_selected (foldl files_step files_start [FilesReply 0 (Some []) True, NewFile, NewFileForm (js ''b'') (js ''global'') [], CreateClicked,
     FileCreated True (Some (a_file (js ''b'') [])), FilesReply 0 (Some [a_file (js ''a'') [], a_file (js ''b'') []]) True]) = Some (a_file (js ''a'') [])"
  by (simp add: files_eval)

end
