(* ===== verification/AppShell.thy ===== *)
theory AppShell
  imports WorkspacesStore SessionsStore AuthStore
begin

text \<open>
  The frame around the pages, src/ui/web/src/components/layout/AppLayout.tsx: the sidebar with its width and
  search, the settings in the address, and the switch of the workspace, which goes through the stores of
  workspaces, permissions and sessions.  The requests in flight are lists, oldest first; a request goes
  to the workspace the client reads from the browser when it is made.
\<close>

section \<open>Sidebar\<close>

record nav_item =
  nav_to :: jstr
  nav_label :: jstr
  nav_tab :: jstr

definition navGroups :: "(jstr \<times> nav_item list) list" where
  "navGroups = [(js ''Workspace'',
     [\<lparr>nav_to = js ''/dashboard'', nav_label = js ''Dashboard'', nav_tab = js ''*''\<rparr>,
      \<lparr>nav_to = js ''/skills'', nav_label = js ''Skills'', nav_tab = js ''skills''\<rparr>,
      \<lparr>nav_to = js ''/routines'', nav_label = js ''Routines'', nav_tab = js ''routines''\<rparr>])]"

definition isVisible :: "auth_state \<Rightarrow> nav_item \<Rightarrow> bool" where
  "isVisible a item \<longleftrightarrow> nav_tab item = js ''*'' \<or> hasTabAccess a (nav_tab item)"

definition visibleGroups :: "auth_state \<Rightarrow> (jstr \<times> nav_item list) list" where
  "visibleGroups a = filter (\<lambda>g. snd g \<noteq> []) (map (apsnd (filter (isVisible a))) navGroups)"

definition sidebar_width :: "int \<Rightarrow> int \<Rightarrow> int \<Rightarrow> int" where
  "sidebar_width start_width start_x x = max 100 (min 480 (start_width + (x - start_x)))"

definition filteredSessions :: "jstr \<Rightarrow> session_info list \<Rightarrow> session_info list" where
  "filteredSessions q l = filter (\<lambda>i. includes_str (lower q) (lower (getSessionDisplayTitle (si_title i) None)) \<or>
     includes_str (lower q) (lower (si_key i))) l"

section \<open>The frame\<close>

text \<open>A flow of switching to a workspace or of creating one waits for its permissions, then for its sessions.\<close>

datatype flow_kind = Mounting | Switching | Creating

record shell =
  as_ws :: ws_tab
  as_auth :: auth_state
  as_sessions :: sessions_state
  as_path :: jstr
  as_settings :: "(jstr \<times> jstr) list"
  as_mobile :: bool
  as_search_open :: bool
  as_search :: jstr
  as_new_open :: bool
  as_new_name :: jstr
  as_creating :: bool
  as_naming :: "jstr option"
  as_width :: int
  as_drag :: "(int \<times> int) option"
  as_me :: "(flow_kind \<times> jstr) list"
  as_lists :: "(flow_kind \<times> jstr) list"
  as_toasts :: "jstr list"

text \<open>The workspace to which a request made now goes.\<close>

definition shell_active :: "shell \<Rightarrow> jstr" where
  "shell_active s = getActiveWorkspaceId (tab_browser (as_ws s))"

definition ask_sessions :: "flow_kind \<Rightarrow> shell \<Rightarrow> shell" where
  "ask_sessions k s = s\<lparr>as_sessions := sessions_step (as_sessions s) LoadSessions, as_lists := as_lists s @ [(k, shell_active s)]\<rparr>"

definition ask_permissions :: "flow_kind \<Rightarrow> shell \<Rightarrow> shell" where
  "ask_permissions k s = s\<lparr>as_me := as_me s @ [(k, shell_active s)]\<rparr>"

definition shell_start :: "ws_tab \<Rightarrow> auth_state \<Rightarrow> jstr \<Rightarrow> (jstr \<times> jstr) list \<Rightarrow> int \<Rightarrow> shell" where
  "shell_start ws a path params width = ask_sessions Mounting \<lparr>as_ws = ws, as_auth = a,
     as_sessions = \<lparr>sessions = [], sessions_loading = False\<rparr>, as_path = path, as_settings = params, as_mobile = False,
     as_search_open = False, as_search = [], as_new_open = False, as_new_name = [], as_creating = False, as_naming = None,
     as_width = width, as_drag = None, as_me = [], as_lists = [], as_toasts = []\<rparr>"

definition switchWorkspace :: "jstr \<Rightarrow> shell \<Rightarrow> shell" where
  "switchWorkspace i s =
     (if i = activeWorkspaceId (tab_store (as_ws s)) then s
      else ask_permissions Switching (s\<lparr>as_ws := ws_step (as_ws s) (SetActive i), as_path := js ''/dashboard''\<rparr>))"

definition handleCreateWorkspace :: "shell \<Rightarrow> shell" where
  "handleCreateWorkspace s = (if trim (as_new_name s) = [] \<or> as_creating s then s
     else s\<lparr>as_creating := True, as_naming := Some (trim (as_new_name s))\<rparr>)"

text \<open>The reply to the creation: the new workspace is the active one.\<close>

definition workspace_created :: "workspace option \<Rightarrow> shell \<Rightarrow> shell" where
  "workspace_created r s = (case as_naming s of
     None \<Rightarrow> s
   | Some n \<Rightarrow> (case r of
       None \<Rightarrow> s\<lparr>as_creating := False, as_naming := None\<rparr>
     | Some w \<Rightarrow> ask_permissions Creating (s\<lparr>as_ws := ws_step (as_ws s) (WorkspaceCreated w), as_new_open := False, as_new_name := [],
         as_naming := None, as_toasts := as_toasts s @ [js ''Workspace \"'' @ n @ js ''\" created'']\<rparr>)))"

text \<open>The replies to the request \<open>i\<close> in flight; a failed request for permissions keeps the old ones.\<close>

definition permissions_reply :: "nat \<Rightarrow> jstr list option option \<Rightarrow> shell \<Rightarrow> shell" where
  "permissions_reply i r s =
     (if length (as_me s) \<le> i then s
      else ask_sessions (fst (as_me s ! i))
        (s\<lparr>as_auth := (case r of Some ps \<Rightarrow> setPermissions ps (as_auth s) | None \<Rightarrow> as_auth s),
           as_me := take i (as_me s) @ drop (Suc i) (as_me s)\<rparr>))"

definition sessions_reply :: "nat \<Rightarrow> session_info list option \<Rightarrow> shell \<Rightarrow> shell" where
  "sessions_reply i r s0 =
     (if length (as_lists s0) \<le> i then s0
      else let s = s0\<lparr>as_sessions := sessions_step (as_sessions s0) (case r of Some l \<Rightarrow> SessionsReply l | None \<Rightarrow> SessionsError),
             as_lists := take i (as_lists s0) @ drop (Suc i) (as_lists s0)\<rparr>
        in if fst (as_lists s0 ! i) = Creating then s\<lparr>as_path := js ''/dashboard'', as_creating := False\<rparr> else s)"

definition handleSettingsTab :: "jstr \<Rightarrow> shell \<Rightarrow> shell" where
  "handleSettingsTab tab s = s\<lparr>as_settings := [(js ''settings'', tab)]\<rparr>"

definition settings_open_change :: "bool \<Rightarrow> shell \<Rightarrow> shell" where
  "settings_open_change opened s = s\<lparr>as_settings :=
     (if opened then [(js ''settings'', js ''profile'')] else filter (\<lambda>p. fst p \<noteq> js ''settings'') (as_settings s))\<rparr>"

definition handleStartNewChat :: "jstr \<Rightarrow> shell \<Rightarrow> shell" where
  "handleStartNewChat key s = (case encodeURIComponent key of
     None \<Rightarrow> s\<lparr>as_mobile := False\<rparr>
   | Some e \<Rightarrow> s\<lparr>as_path := js ''/sessions/'' @ e, as_mobile := False\<rparr>)"

text \<open>
  The end of a deletion that was confirmed: the store swallows a failure, so the handler goes on in both
  cases.  An encoding that throws ends it after the message.
\<close>

definition session_deleted :: "jstr \<Rightarrow> bool \<Rightarrow> shell \<Rightarrow> shell" where
  "session_deleted key ok s0 =
     (let s = s0\<lparr>as_sessions := sessions_step (as_sessions s0) (if ok then DeleteReply key else DeleteError),
            as_toasts := as_toasts s0 @ [js ''Session deleted'']\<rparr>
      in case encodeURIComponent key of
           None \<Rightarrow> s
         | Some e \<Rightarrow> if as_path s = js ''/sessions/'' @ e \<or> as_path s = js ''/sessions/'' @ key then s\<lparr>as_path := js ''/dashboard''\<rparr> else s)"

definition start_drag :: "int \<Rightarrow> shell \<Rightarrow> shell" where
  "start_drag x s = s\<lparr>as_drag := Some (x, as_width s)\<rparr>"

definition move_drag :: "int \<Rightarrow> shell \<Rightarrow> shell" where
  "move_drag x s = (case as_drag s of None \<Rightarrow> s | Some (x0, w0) \<Rightarrow> s\<lparr>as_width := sidebar_width w0 x0 x\<rparr>)"

datatype shell_event =
  SwitchTo jstr | NewName jstr | NewDialog bool | CreateWorkspace | WorkspaceReply "workspace option"
| PermissionsReply nat "jstr list option option" | SessionsListReply nat "session_info list option"
| SettingsTab jstr | SettingsOpen bool | StartChat jstr | SessionDeleted jstr bool | GoTo jstr | MobileMenu bool
| SearchToggle | SearchText jstr | DragStart int | DragMove int | DragEnd | ShellStore ws_event

fun shell_step :: "shell \<Rightarrow> shell_event \<Rightarrow> shell" where
  "shell_step s (SwitchTo i) = switchWorkspace i s"
| "shell_step s (NewName t) = s\<lparr>as_new_name := t\<rparr>"
| "shell_step s (NewDialog b) = (if as_creating s then s else s\<lparr>as_new_open := b\<rparr>)"
| "shell_step s CreateWorkspace = handleCreateWorkspace s"
| "shell_step s (WorkspaceReply r) = workspace_created r s"
| "shell_step s (PermissionsReply i r) = permissions_reply i r s"
| "shell_step s (SessionsListReply i r) = sessions_reply i r s"
| "shell_step s (SettingsTab tab) = handleSettingsTab tab s"
| "shell_step s (SettingsOpen b) = settings_open_change b s"
| "shell_step s (StartChat key) = handleStartNewChat key s"
| "shell_step s (SessionDeleted key ok) = session_deleted key ok s"
| "shell_step s (GoTo p) = s\<lparr>as_path := p, as_mobile := False\<rparr>"
| "shell_step s (MobileMenu b) = s\<lparr>as_mobile := b\<rparr>"
| "shell_step s SearchToggle = s\<lparr>as_search_open := \<not> as_search_open s\<rparr>"
| "shell_step s (SearchText t) = s\<lparr>as_search := t\<rparr>"
| "shell_step s (DragStart x) = start_drag x s"
| "shell_step s (DragMove x) = move_drag x s"
| "shell_step s DragEnd = s\<lparr>as_drag := None\<rparr>"
| "shell_step s (ShellStore e) = s\<lparr>as_ws := ws_step (as_ws s) e\<rparr>"

section \<open>Facts: the frame shows the active workspace\<close>

text \<open>
  A server that gives each workspace its permissions (\<open>pv\<close>) and lists only its own sessions (\<open>own\<close>), whose
  answers come in the order of the requests; workspaces have ids, and the active one changes only here.
  Any request may fail.
\<close>

definition shell_ok :: "(jstr \<Rightarrow> jstr list option \<Rightarrow> bool) \<Rightarrow> (jstr \<Rightarrow> jstr \<Rightarrow> bool) \<Rightarrow> shell \<Rightarrow> shell_event \<Rightarrow> bool" where
  "shell_ok pv own s e = (case e of
     SwitchTo i \<Rightarrow> i \<noteq> []
   | WorkspaceReply r \<Rightarrow> (case r of Some w \<Rightarrow> w_id w \<noteq> [] | None \<Rightarrow> True)
   | PermissionsReply i r \<Rightarrow> i = 0 \<and> (as_me s \<noteq> [] \<longrightarrow> (case r of Some ps \<Rightarrow> pv (snd (hd (as_me s))) ps | None \<Rightarrow> True))
   | SessionsListReply i r \<Rightarrow> i = 0 \<and> (as_lists s \<noteq> [] \<longrightarrow> (case r of Some l \<Rightarrow> (\<forall>x\<in>set l. own (snd (hd (as_lists s))) (si_key x)) | None \<Rightarrow> True))
   | ShellStore e \<Rightarrow> (case e of WorkspacesLoaded _ \<Rightarrow> False | SetActive _ \<Rightarrow> False | WorkspaceCreated _ \<Rightarrow> False | _ \<Rightarrow> True)
   | _ \<Rightarrow> True)"

definition own_entry :: "ws_tab \<Rightarrow> bool" where
  "own_entry t \<longleftrightarrow> (case map_of (session_storage (tab_browser t)) active_key of Some v \<Rightarrow> v \<noteq> [] | None \<Rightarrow> False)"

definition shell_inv :: "(jstr \<Rightarrow> jstr list option \<Rightarrow> bool) \<Rightarrow> (jstr \<Rightarrow> jstr \<Rightarrow> bool) \<Rightarrow> shell \<Rightarrow> bool" where
  "shell_inv pv own s \<longleftrightarrow> own_entry (as_ws s) \<and>
     (as_me s \<noteq> [] \<longrightarrow> snd (last (as_me s)) = shell_active s) \<and>
     (as_me s = [] \<longrightarrow> pv (shell_active s) (permissions (as_auth s))) \<and>
     (as_me s = [] \<longrightarrow> as_lists s \<noteq> [] \<longrightarrow> snd (last (as_lists s)) = shell_active s) \<and>
     (as_me s = [] \<longrightarrow> as_lists s = [] \<longrightarrow> (\<forall>x\<in>set (sessions (as_sessions s)). own (shell_active s) (si_key x)))"

text \<open>Asking for permissions is enough to restore the invariant.\<close>

lemma ask_permissions_inv: "own_entry (as_ws s) \<Longrightarrow> shell_inv pv own (ask_permissions k s)"
  by (simp add: shell_inv_def ask_permissions_def shell_active_def)

lemma own_entry_persist: "i \<noteq> [] \<Longrightarrow> own_entry (ws_step t (SetActive i))" "w_id w \<noteq> [] \<Longrightarrow> own_entry (ws_step t (WorkspaceCreated w))"
  by (simp_all add: own_entry_def setActiveWorkspaceId_def createWorkspace_reply_def get_persisted)

text \<open>Events of the store that keep the session storage keep the active workspace.\<close>

lemma own_entry_active: "own_entry t \<Longrightarrow> getActiveWorkspaceId (tab_browser t) = the (map_of (session_storage (tab_browser t)) active_key)"
  by (auto simp: own_entry_def getActiveWorkspaceId_def str_or_def split: option.splits)

lemma store_keeps_session:
  assumes "shell_ok pv own s (ShellStore e)"
  shows "session_storage (tab_browser (ws_step t e)) = session_storage (tab_browser t)"
  using assms by (cases e) (simp_all add: shell_ok_def updateWorkspace_reply_def theme_keeps_session)

lemma store_inv:
  assumes "shell_inv pv own s" and "shell_ok pv own s (ShellStore e)"
  shows "shell_inv pv own (shell_step s (ShellStore e))"
proof -
  have ss: "session_storage (tab_browser (ws_step (as_ws s) e)) = session_storage (tab_browser (as_ws s))"
    by (rule store_keeps_session [OF assms(2)])
  have own: "own_entry (as_ws s)" using assms(1) by (simp add: shell_inv_def)
  then have own': "own_entry (ws_step (as_ws s) e)" by (simp add: own_entry_def ss)
  have "shell_active (shell_step s (ShellStore e)) = shell_active s"
    by (simp add: shell_active_def own_entry_active [OF own] own_entry_active [OF own'] ss)
  then show ?thesis using assms(1) own' by (simp add: shell_inv_def)
qed

text \<open>A reply to a request for permissions establishes them, or nothing is said about them.\<close>

lemma permissions_inv:
  assumes "shell_inv pv own s" and "shell_ok pv' own s (PermissionsReply i r)"
    and "as_me s \<noteq> [] \<longrightarrow> (case r of Some ps \<Rightarrow> pv'' (snd (hd (as_me s))) ps | None \<Rightarrow> (\<forall>i ps. pv'' i ps))"
    and "as_me s = [] \<longrightarrow> pv'' = pv"
  shows "shell_inv pv'' own (permissions_reply i r s)"
proof (cases "as_me s")
  case (Cons m ms)
  have i: "i = 0" using assms(2) by (simp add: shell_ok_def)
  show ?thesis
    using assms(1,3) i Cons by (cases ms; cases r) (simp_all add: shell_inv_def permissions_reply_def ask_sessions_def shell_active_def setPermissions_def)
qed (use assms(1,4) in \<open>simp add: permissions_reply_def\<close>)

lemma sessions_inv:
  assumes "shell_inv pv own s" and "shell_ok pv own s (SessionsListReply i r)"
  shows "shell_inv pv own (sessions_reply i r s)"
proof (cases "as_lists s")
  case (Cons m ms)
  have i: "i = 0" using assms(2) by (simp add: shell_ok_def)
  have own: "\<forall>x\<in>set l. own (snd m) (si_key x)" if "r = Some l" for l using assms(2) that Cons by (simp add: shell_ok_def)
  show ?thesis
    using assms(1) Cons i own by (cases r; cases ms) (auto simp: shell_inv_def sessions_reply_def shell_active_def Let_def)
qed (use assms(1) in \<open>simp add: sessions_reply_def\<close>)

lemma deleted_inv: "shell_inv pv own s \<Longrightarrow> shell_inv pv own (session_deleted key ok s)"
  by (auto simp: shell_inv_def session_deleted_def shell_active_def Let_def split: option.split)

text \<open>Events that only concern the look of the frame.\<close>

lemma shell_inv_same:
  "as_ws t = as_ws s \<Longrightarrow> as_auth t = as_auth s \<Longrightarrow> as_sessions t = as_sessions s \<Longrightarrow> as_me t = as_me s \<Longrightarrow> as_lists t = as_lists s \<Longrightarrow>
   shell_inv pv own s \<Longrightarrow> shell_inv pv own t"
  by (simp add: shell_inv_def shell_active_def)

lemmas shell_looks = handleCreateWorkspace_def handleSettingsTab_def settings_open_change_def handleStartNewChat_def start_drag_def move_drag_def

lemma shell_step_inv:
  assumes "shell_inv pv own s" and "shell_ok pv own s e" and "\<forall>i r. e \<noteq> PermissionsReply i r"
  shows "shell_inv pv own (shell_step s e)"
proof (cases e)
  case (SwitchTo i)
  then show ?thesis
    using assms by (auto simp: switchWorkspace_def shell_ok_def intro!: ask_permissions_inv own_entry_persist(1) simp del: ws_step.simps)
next
  case (WorkspaceReply r)
  have keep: "shell_inv pv own (s\<lparr>as_creating := False, as_naming := None\<rparr>)" by (rule shell_inv_same [OF _ _ _ _ _ assms(1)]) simp_all
  show ?thesis
    using assms WorkspaceReply keep
    by (auto simp: workspace_created_def shell_ok_def intro!: ask_permissions_inv own_entry_persist(2) simp del: ws_step.simps split: option.splits)
next
  case (PermissionsReply i r)
  then show ?thesis using assms(3) by simp
next
  case (SessionsListReply i r)
  then show ?thesis using assms sessions_inv by simp
next
  case (ShellStore x)
  then show ?thesis using assms store_inv by simp
next
  case (SessionDeleted key ok)
  then show ?thesis using assms(1) deleted_inv by simp
qed (auto intro!: shell_inv_same [OF _ _ _ _ _ assms(1)] simp: shell_looks split: option.split)

text \<open>The frame beside a note whether the last request for permissions that was answered has failed.\<close>

definition noted_step :: "shell \<times> bool \<Rightarrow> shell_event \<Rightarrow> shell \<times> bool" where
  "noted_step w e = (shell_step (fst w) e,
     case e of PermissionsReply i r \<Rightarrow> if i < length (as_me (fst w)) then r = None else snd w | _ \<Rightarrow> snd w)"

definition noted_ok :: "(jstr \<Rightarrow> jstr list option \<Rightarrow> bool) \<Rightarrow> (jstr \<Rightarrow> jstr \<Rightarrow> bool) \<Rightarrow> shell \<times> bool \<Rightarrow> shell_event \<Rightarrow> bool" where
  "noted_ok pv own w e = shell_ok pv own (fst w) e"

definition noted_inv :: "(jstr \<Rightarrow> jstr list option \<Rightarrow> bool) \<Rightarrow> (jstr \<Rightarrow> jstr \<Rightarrow> bool) \<Rightarrow> shell \<times> bool \<Rightarrow> bool" where
  "noted_inv pv own w = shell_inv (\<lambda>i ps. snd w \<or> pv i ps) own (fst w)"

lemma ok_weaker: "shell_ok pv own s e \<Longrightarrow> shell_ok (\<lambda>i ps. b \<or> pv i ps) own s e"
  by (cases e) (auto simp: shell_ok_def split: option.splits)

lemma noted_step_inv:
  assumes "noted_inv pv own w" and "noted_ok pv own w e"
  shows "noted_inv pv own (noted_step w e)"
proof (cases e)
  case (PermissionsReply i r)
  have inv: "shell_inv (\<lambda>i ps. snd w \<or> pv i ps) own (fst w)" using assms(1) by (simp add: noted_inv_def)
  have ok: "shell_ok pv own (fst w) (PermissionsReply i r)" using assms(2) PermissionsReply by (simp add: noted_ok_def)
  define b where "b = snd (noted_step w e)"
  have "shell_inv (\<lambda>i ps. b \<or> pv i ps) own (permissions_reply i r (fst w))"
    by (rule permissions_inv [OF inv ok])
      (use ok in \<open>auto simp: b_def noted_step_def PermissionsReply shell_ok_def split: option.splits\<close>)
  then show ?thesis
    unfolding b_def by (simp add: noted_inv_def) (simp add: noted_step_def PermissionsReply)
next
  case (ShellStore x)
  then show ?thesis using assms ok_weaker shell_step_inv by (auto simp: noted_inv_def noted_ok_def noted_step_def simp del: shell_step.simps)
qed (use assms ok_weaker shell_step_inv in \<open>auto simp: noted_inv_def noted_ok_def noted_step_def simp del: shell_step.simps\<close>)

interpretation shell: guarded_machine noted_step "noted_ok pv own" "noted_inv pv own" for pv own
  by unfold_locales (rule noted_step_inv)

lemma noted_run: "fst (foldl noted_step w es) = foldl shell_step (fst w) es"
  by (induction es arbitrary: w) (simp_all add: noted_step_def)

text \<open>
  C36. Through any number of switches and new workspaces, clicks and replies, in which any request may
  fail, provided the answers come in the order of the requests: once nothing is loading, every session
  the frame lists belongs to the workspace its requests go to, and the permissions it works with are
  those of that workspace, unless the last request for permissions that was answered has failed.
\<close>

theorem shell_shows_active:
  assumes "own_entry ws" and "pv (getActiveWorkspaceId (tab_browser ws)) (permissions a)"
    and "ok_run noted_step (noted_ok pv own) (shell_start ws a path params width, False) es"
    and "s = foldl shell_step (shell_start ws a path params width) es" and "as_me s = []" and "as_lists s = []"
  shows "(pv (shell_active s) (permissions (as_auth s)) \<or> snd (foldl noted_step (shell_start ws a path params width, False) es)) \<and>
    (\<forall>x\<in>set (sessions (as_sessions s)). own (shell_active s) (si_key x))"
proof -
  let ?w = "(shell_start ws a path params width, False)"
  have "noted_inv pv own ?w"
    using assms(1,2) by (simp add: noted_inv_def shell_inv_def shell_start_def ask_sessions_def shell_active_def)
  then have "noted_inv pv own (foldl noted_step ?w es)" using assms(3) by (rule shell.run_guarded)
  then show ?thesis using assms(4-6) noted_run [of ?w es] by (auto simp: noted_inv_def shell_inv_def)
qed

definition shell_sample :: shell where
  "shell_sample = shell_start (setActiveWorkspaceId (js ''a'') (ws_initial \<lparr>session_storage = [], local_storage = []\<rparr>))
     \<lparr>auth_sub = js ''u'', permissions = Some [js ''pa'']\<rparr> [] [] 256"

lemmas shell_eval = shell_sample_def shell_start_def ask_sessions_def ask_permissions_def switchWorkspace_def permissions_reply_def sessions_reply_def
  setPermissions_def setActiveWorkspaceId_def ws_initial_def shell_active_def active_persisted Let_def

lemma shell_shows_active_witness:
  "permissions (as_auth (foldl shell_step shell_sample [SessionsListReply 0 (Some []), SwitchTo (js ''b''),
     PermissionsReply 0 (Some (Some [js ''pb''])), SessionsListReply 0 None])) = Some [js ''pb'']"
proof -
  let ?ws = "setActiveWorkspaceId (js ''a'') (ws_initial \<lparr>session_storage = [], local_storage = []\<rparr>)"
  let ?es = "[SessionsListReply 0 (Some []), SwitchTo (js ''b''), PermissionsReply 0 (Some (Some [js ''pb''])), SessionsListReply 0 None]"
  let ?pv = "\<lambda>i ps. ps = (if i = js ''b'' then Some [js ''pb''] else Some [js ''pa''])"
  have ws: "own_entry ?ws" "getActiveWorkspaceId (tab_browser ?ws) = js ''a''"
    by (simp_all add: own_entry_def setActiveWorkspaceId_def get_persisted active_persisted)
  have "ok_run noted_step (noted_ok ?pv (\<lambda>_ _. True)) (shell_sample, False) ?es" "\<not> snd (foldl noted_step (shell_sample, False) ?es)"
    by (simp_all add: shell_eval shell_ok_def noted_step_def noted_ok_def)
  moreover have "as_me (foldl shell_step shell_sample ?es) = []" "as_lists (foldl shell_step shell_sample ?es) = []"
    "shell_active (foldl shell_step shell_sample ?es) = js ''b''"
    by (simp_all add: shell_eval)
  ultimately show ?thesis
    using shell_shows_active [OF ws(1) _ _ refl, of ?pv "\<lparr>auth_sub = js ''u'', permissions = Some [js ''pa'']\<rparr>" "\<lambda>_ _. True" "[]" "[]" 256 ?es] ws
    unfolding shell_sample_def by simp
qed

text \<open>After a switch whose request for permissions fails, those of the workspace that was left stay in force.\<close>

lemma failed_permissions_kept:
  "permissions (as_auth (foldl shell_step shell_sample [SwitchTo (js ''b''), PermissionsReply 0 None])) = Some [js ''pa''] \<and>
   shell_active (foldl shell_step shell_sample [SwitchTo (js ''b''), PermissionsReply 0 None]) = js ''b''"
  by (simp add: shell_eval)

text \<open>
  Nothing ties a reply to its workspace: after two quick switches whose replies cross, the permissions
  of the workspace that was left stay in force.
\<close>

lemma crossed_permissions:
  "permissions (as_auth (foldl shell_step shell_sample [SwitchTo (js ''b''), SwitchTo (js ''c''),
     PermissionsReply 1 (Some (Some [js ''pc''])), PermissionsReply 0 (Some (Some [js ''pb'']))])) = Some [js ''pb''] \<and>
   shell_active (foldl shell_step shell_sample [SwitchTo (js ''b''), SwitchTo (js ''c''),
     PermissionsReply 1 (Some (Some [js ''pc''])), PermissionsReply 0 (Some (Some [js ''pb'']))]) = js ''c''"
  by (simp add: shell_eval)

text \<open>A session whose deletion failed is still listed, but its deletion is reported.\<close>

lemma failed_deletion_reported:
  "sessions (as_sessions (session_deleted key False s)) = sessions (as_sessions s) \<and> js ''Session deleted'' \<in> set (as_toasts (session_deleted key False s))"
  by (simp add: session_deleted_def Let_def split: option.split)

text \<open>Dragging keeps the sidebar between 100 and 480 pixels wide.\<close>

lemma drag_width: "as_drag s \<noteq> None \<Longrightarrow> 100 \<le> as_width (move_drag x s) \<and> as_width (move_drag x s) \<le> 480"
  by (auto simp: move_drag_def sidebar_width_def)

end
