(* ===== verification/LiveChart.thy ===== *)
theory LiveChart
  imports JsPrelude
begin

text \<open>
  The live line chart, src/ui/web/src/components/charts/live-line-chart.tsx, and the labels of its axes,
  live-y-axis.tsx and live-x-axis.tsx: the range that follows the data frame by frame, the value under the
  pointer, the loop that commits frames and tooltips, and the choice of the distance between two labels.
  Times and values are finite numbers, here exact rationals.  The scales of visx, the bisector of d3 and
  the logarithm are parameters.
\<close>

section \<open>The range and its frames\<close>

record live_point =
  lp_time :: rat
  lp_value :: rat

record anim_frame =
  fr_now :: rat
  fr_min :: rat
  fr_max :: rat
  fr_value :: rat

definition computeTargetRange :: "live_point list \<Rightarrow> rat \<Rightarrow> bool \<Rightarrow> rat \<times> rat" where
  "computeTargetRange data v exaggerate = (case data of
     [] \<Rightarrow> (0, 100)
   | p # ps \<Rightarrow>
       (let lo0 = foldl (\<lambda>m d. if lp_value d < m then lp_value d else m) (lp_value p) ps;
            hi0 = foldl (\<lambda>m d. if m < lp_value d then lp_value d else m) (lp_value p) ps;
            lo = (if v < lo0 then v else lo0);
            hi = (if hi0 < v then v else hi0);
            pad = (hi - lo) * (if exaggerate then 3 / 100 else 15 / 100);
            rangePad = (if pad = 0 then (if exaggerate then 4 / 100 else 10) else pad)
        in (lo - rangePad, hi + rangePad)))"

definition nextAnimFrame :: "anim_frame \<Rightarrow> rat \<times> rat \<Rightarrow> rat \<Rightarrow> rat \<Rightarrow> bool \<Rightarrow> rat \<Rightarrow> anim_frame" where
  "nextAnimFrame prev target targetValue speed isPaused clock =
     \<lparr>fr_now = (if isPaused then fr_now prev else clock),
      fr_min = (if fst target < fr_min prev then fst target else fr_min prev + (fst target - fr_min prev) * speed),
      fr_max = (if fr_max prev < snd target then snd target else fr_max prev + (snd target - fr_max prev) * speed),
      fr_value = fr_value prev + (targetValue - fr_value prev) * speed\<rparr>"

section \<open>The value at a time\<close>

text \<open>The binary search: \<open>lo\<close> and \<open>hi\<close> close in on the segment.\<close>

function find_segment :: "live_point list \<Rightarrow> rat \<Rightarrow> nat \<Rightarrow> nat \<Rightarrow> nat \<times> nat" where
  "find_segment ps t lo hi =
     (if 1 < hi - lo then
        let mid = (lo + hi) div 2 in
        if lp_time (ps ! mid) \<le> t then find_segment ps t mid hi else find_segment ps t lo mid
      else (lo, hi))"
  by pat_completeness auto

termination
  by (relation "measure (\<lambda>(_, _, lo, hi). hi - lo)") auto

declare find_segment.simps [simp del]

definition interpolateAtTime :: "live_point list \<Rightarrow> rat \<Rightarrow> rat option" where
  "interpolateAtTime ps t =
     (if ps = [] then None
      else if t \<le> lp_time (hd ps) then Some (lp_value (hd ps))
      else if lp_time (last ps) \<le> t then Some (lp_value (last ps))
      else let (lo, hi) = find_segment ps t 0 (length ps - 1); p1 = ps ! lo; p2 = ps ! hi; dt = lp_time p2 - lp_time p1
        in if dt = 0 then Some (lp_value p1)
           else Some (lp_value p1 + (lp_value p2 - lp_value p1) * ((t - lp_time p1) / dt)))"

section \<open>The loop of the animation\<close>

text \<open>
  The scales of a frame: from a domain and a size, the time at a pixel and the pixel of a value.
\<close>

record live_scales =
  x_time :: "rat \<Rightarrow> rat \<Rightarrow> rat \<Rightarrow> rat \<Rightarrow> rat"
  y_pixel :: "rat \<Rightarrow> rat \<Rightarrow> rat \<Rightarrow> rat \<Rightarrow> rat option"

record live_view =
  lv_width :: rat
  lv_height :: rat
  lv_leading :: rat
  lv_window :: rat
  lv_unit :: rat

record live_tip =
  lt_time :: rat
  lt_value :: rat
  lt_x :: rat
  lt_y :: rat

text \<open>The two points that follow the data: the tip at the present, and one unit ahead.\<close>

definition virtual_points :: "anim_frame \<Rightarrow> rat \<Rightarrow> live_point list" where
  "virtual_points f unit = [\<lparr>lp_time = fr_now f / 1000, lp_value = fr_value f\<rparr>, \<lparr>lp_time = (fr_now f + unit) / 1000, lp_value = fr_value f\<rparr>]"

definition resolveLiveTooltip :: "live_scales \<Rightarrow> rat option \<Rightarrow> live_view \<Rightarrow> anim_frame \<Rightarrow> live_point list \<Rightarrow> live_tip option" where
  "resolveLiveTooltip sc cursor v f data = (case cursor of
     None \<Rightarrow> None
   | Some x \<Rightarrow>
       if lv_width v \<le> 0 \<or> lv_height v \<le> 0 then None
       else let domainEnd = fr_now f + lv_leading v;
                time = x_time sc (domainEnd - lv_window v) domainEnd (lv_width v) x;
                visible = filter (\<lambda>p. (domainEnd - lv_window v) / 1000 \<le> lp_time p) data @ virtual_points f (lv_unit v)
            in (case interpolateAtTime visible (time / 1000) of
                  None \<Rightarrow> None
                | Some val \<Rightarrow> Some \<lparr>lt_time = time, lt_value = val, lt_x = x,
                    lt_y = (case y_pixel sc (fr_min f) (fr_max f) (lv_height v) val of Some y \<Rightarrow> y | None \<Rightarrow> 0)\<rparr>))"

definition round_half_up :: "rat \<Rightarrow> int" where
  "round_half_up q = \<lfloor>q + 1 / 2\<rfloor>"

definition liveTooltipKey :: "live_tip option \<Rightarrow> jstr option" where
  "liveTooltipKey tip = map_option (\<lambda>t. int_str (round_half_up (lt_x t)) @ [58] @ int_str (round_half_up (lt_y t))) tip"

definition LIVE_FRAME_COMMIT_MS :: rat where
  "LIVE_FRAME_COMMIT_MS = 32"

definition shouldCommitLiveUpdates :: "rat \<Rightarrow> rat \<Rightarrow> jstr option \<Rightarrow> jstr option \<Rightarrow> bool \<times> bool" where
  "shouldCommitLiveUpdates now lastCommit key lastKey = (LIVE_FRAME_COMMIT_MS \<le> now - lastCommit, key \<noteq> lastKey)"

record live =
  li_anim :: anim_frame
  li_frame :: anim_frame
  li_cursor :: "rat option"
  li_tip :: "live_tip option"
  li_last_commit :: rat
  li_last_key :: "jstr option"
  li_commits :: "rat list"

text \<open>What one run of the loop reads: the properties of the last render and the two clocks.\<close>

record live_props =
  pr_data :: "live_point list"
  pr_value :: rat
  pr_exaggerate :: bool
  pr_speed :: rat
  pr_paused :: bool
  pr_view :: live_view
  pr_clock :: rat
  pr_perf :: rat

definition live_start :: "rat \<Rightarrow> rat \<Rightarrow> live" where
  "live_start clock v = (let f = \<lparr>fr_now = clock, fr_min = 0, fr_max = 100, fr_value = v\<rparr> in
     \<lparr>li_anim = f, li_frame = f, li_cursor = None, li_tip = None, li_last_commit = 0, li_last_key = None, li_commits = []\<rparr>)"

definition live_tick :: "live_scales \<Rightarrow> live_props \<Rightarrow> live \<Rightarrow> live" where
  "live_tick sc p s =
     (let nxt = nextAnimFrame (li_anim s) (computeTargetRange (pr_data p) (pr_value p) (pr_exaggerate p)) (pr_value p) (pr_speed p)
            (pr_paused p) (pr_clock p);
          tip = resolveLiveTooltip sc (li_cursor s) (pr_view p) nxt (pr_data p);
          key = liveTooltipKey tip;
          (commitFrame, commitTooltip) = shouldCommitLiveUpdates (pr_perf p) (li_last_commit s) key (li_last_key s)
      in s\<lparr>li_anim := nxt, li_frame := (if commitFrame then nxt else li_frame s), li_tip := (if commitTooltip then tip else li_tip s),
           li_last_commit := (if commitFrame then pr_perf p else li_last_commit s), li_last_key := (if commitTooltip then key else li_last_key s),
           li_commits := (if commitFrame then li_commits s @ [pr_perf p] else li_commits s)\<rparr>)"

text \<open>The pointer at a place in the margins counts as outside; no place, no change.\<close>

definition live_move :: "rat option \<Rightarrow> rat \<Rightarrow> live_view \<Rightarrow> live \<Rightarrow> live" where
  "live_move place margin v s = (case place of
     None \<Rightarrow> s
   | Some px \<Rightarrow> s\<lparr>li_cursor := (if 0 \<le> px - margin \<and> px - margin \<le> lv_width v then Some (px - margin) else None)\<rparr>)"

definition live_leave :: "live \<Rightarrow> live" where
  "live_leave s = s\<lparr>li_cursor := None, li_tip := None, li_last_key := None\<rparr>"

datatype live_event = LiveTick live_props | LiveMove "rat option" rat live_view | LiveLeave

fun live_step :: "live_scales \<Rightarrow> live \<Rightarrow> live_event \<Rightarrow> live" where
  "live_step sc s (LiveTick p) = live_tick sc p s"
| "live_step sc s (LiveMove place margin v) = live_move place margin v s"
| "live_step sc s LiveLeave = live_leave s"

text \<open>The rows handed to the chart; \<open>bisect_left\<close> gives the first place whose time is not before.\<close>

definition live_rows :: "(live_point list \<Rightarrow> rat \<Rightarrow> nat) \<Rightarrow> live_view \<Rightarrow> anim_frame \<Rightarrow> live_point list \<Rightarrow> (rat \<times> rat) list" where
  "live_rows bisect_left v f data =
     (let start = bisect_left data ((fr_now f + lv_leading v - lv_window v) / 1000)
      in map (\<lambda>p. (lp_time p * 1000, lp_value p)) (drop (start - 1) data) @
         [(fr_now f, fr_value f), (fr_now f + lv_unit v, fr_value f)])"

section \<open>Labels\<close>

definition divisor :: "rat list \<Rightarrow> nat \<Rightarrow> rat" where
  "divisor divs i = (if i mod 3 < length divs then divs ! (i mod 3) else 2)"

text \<open>The loop that divides the span by 2 or 2.5 in turn; it may not end when \<open>minGap\<close> is not positive.\<close>

partial_function (option) shrink_span :: "rat list \<Rightarrow> rat \<Rightarrow> rat \<Rightarrow> rat \<Rightarrow> nat \<Rightarrow> rat option" where
  "shrink_span divs px minGap sp i =
     (if minGap \<le> sp / divisor divs i * px then shrink_span divs px minGap (sp / divisor divs i) (Suc i) else Some sp)"

definition divisor_sets :: "rat list list" where
  "divisor_sets = [[2, 5 / 2, 2], [2, 2, 5 / 2], [5 / 2, 2, 2]]"

text \<open>\<open>ceil_log10\<close> is \<open>Math.ceil(Math.log10(x))\<close>.  The smallest of the three spans; \<open>None\<close>: a loop does not end.\<close>

definition power10 :: "int \<Rightarrow> rat" where
  "power10 k = (if 0 \<le> k then 10 ^ nat k else 1 / 10 ^ nat (- k))"

definition pickNiceInterval :: "(rat \<Rightarrow> int) \<Rightarrow> rat \<Rightarrow> rat \<Rightarrow> rat \<Rightarrow> rat \<Rightarrow> rat option" where
  "pickNiceInterval ceil_log10 valRange chartHeight minGap prevInterval =
     (if valRange \<le> 0 \<or> chartHeight \<le> 0 then Some 1
      else let px = chartHeight / valRange in
        if 0 < prevInterval \<and> minGap / 2 \<le> prevInterval * px \<and> prevInterval * px \<le> minGap * 3 then Some prevInterval
        else let sp = power10 (ceil_log10 valRange); r = map (\<lambda>d. shrink_span d px minGap sp 0) divisor_sets
          in if list_all (\<lambda>x. x \<noteq> None) r then Some (foldl (\<lambda>m x. if the x < m then the x else m) (the (hd r)) (tl r)) else None)"

definition EDGE_FADE_PX :: rat where
  "EDGE_FADE_PX = 28"

definition edgeOpacity :: "rat \<Rightarrow> rat \<Rightarrow> rat" where
  "edgeOpacity y chartHeight = (let fromEdge = min y (chartHeight - y)
     in if EDGE_FADE_PX \<le> fromEdge then 1 else if fromEdge \<le> 0 then 0 else fromEdge / EDGE_FADE_PX)"

definition labelFadeOpacity :: "rat \<Rightarrow> rat option \<Rightarrow> rat" where
  "labelFadeOpacity labelX crosshair = (case crosshair of
     None \<Rightarrow> 1
   | Some x \<Rightarrow> let distance = \<bar>labelX - x\<bar>
       in if distance < 50 then 0 else if distance < 70 then (distance - 50) / 20 else 1)"

text \<open>The values that get a label, \<open>Math.round(v * 1e10) / 1e10\<close>.\<close>

definition tick_values :: "rat \<Rightarrow> rat \<Rightarrow> rat \<Rightarrow> bool \<Rightarrow> rat list" where
  "tick_values interval minVal maxVal allowDecimals =
     (if interval \<le> 0 \<or> maxVal - minVal \<le> 0 then []
      else let first = of_int \<lceil>(minVal - interval / 2) / interval\<rceil> * interval;
               n = nat (\<lfloor>(maxVal + interval / 2 - first) / interval\<rfloor> + 1);
               vs = map (\<lambda>k. of_int (round_half_up ((first + of_nat k * interval) * 10 ^ 10)) / 10 ^ 10) [0..<n]
           in filter (\<lambda>v. allowDecimals \<or> of_int \<lfloor>v\<rfloor> = v) vs)"

text \<open>The times of the labels; a single label divides by zero and has no time.\<close>

definition live_axis_labels :: "rat \<Rightarrow> rat \<Rightarrow> nat \<Rightarrow> rat option list" where
  "live_axis_labels startMs endMs numTicks =
     map (\<lambda>i. if numTicks = 1 then None else Some (startMs + of_nat i * ((endMs - startMs) / (of_nat numTicks - 1)))) [0..<numTicks]"

section \<open>Facts: the range\<close>

lemma fold_low: "foldl (\<lambda>m d. if f d < m then f d else m) (a :: rat) ds \<le> a \<and> (\<forall>d\<in>set ds. foldl (\<lambda>m d. if f d < m then f d else m) a ds \<le> f d)"
proof (induction ds arbitrary: a)
  case (Cons d ds)
  let ?b = "if f d < a then f d else a"
  have "foldl (\<lambda>m d. if f d < m then f d else m) ?b ds \<le> ?b" and "\<forall>x\<in>set ds. foldl (\<lambda>m d. if f d < m then f d else m) ?b ds \<le> f x"
    using Cons.IH [of ?b] by blast+
  moreover have "?b \<le> a" "?b \<le> f d" by auto
  ultimately show ?case by (auto simp del: if_split intro: order_trans)
qed simp

lemma fold_high: "a \<le> foldl (\<lambda>m d. if m < f d then f d else m) (a :: rat) ds \<and> (\<forall>d\<in>set ds. f d \<le> foldl (\<lambda>m d. if m < f d then f d else m) a ds)"
proof (induction ds arbitrary: a)
  case (Cons d ds)
  let ?b = "if a < f d then f d else a"
  have "?b \<le> foldl (\<lambda>m d. if m < f d then f d else m) ?b ds" and "\<forall>x\<in>set ds. f x \<le> foldl (\<lambda>m d. if m < f d then f d else m) ?b ds"
    using Cons.IH [of ?b] by blast+
  moreover have "a \<le> ?b" "f d \<le> ?b" by auto
  ultimately show ?case by (auto simp del: if_split intro: order_trans)
qed simp

lemma target_covers:
  assumes "data \<noteq> []"
  shows "fst (computeTargetRange data v ex) < v \<and> v < snd (computeTargetRange data v ex) \<and>
    (\<forall>d\<in>set data. fst (computeTargetRange data v ex) < lp_value d \<and> lp_value d < snd (computeTargetRange data v ex))"
proof -
  obtain p ps where data: "data = p # ps" using assms by (cases data) auto
  define lo0 where "lo0 = foldl (\<lambda>m d. if lp_value d < m then lp_value d else m) (lp_value p) ps"
  define hi0 where "hi0 = foldl (\<lambda>m d. if m < lp_value d then lp_value d else m) (lp_value p) ps"
  define lo where "lo = (if v < lo0 then v else lo0)"
  define hi where "hi = (if hi0 < v then v else hi0)"
  define pad where "pad = (hi - lo) * (if ex then 3 / 100 else 15 / 100)"
  define rangePad where "rangePad = (if pad = 0 then (if ex then 4 / 100 else 10) else pad)"
  have all: "lo0 \<le> lp_value d" "lp_value d \<le> hi0" if "d \<in> set data" for d
    using that fold_low [of lp_value "lp_value p" ps] fold_high [of "lp_value p" lp_value ps] by (auto simp: data lo0_def hi0_def)
  have "lo \<le> lo0" "hi0 \<le> hi" "lo \<le> v" "v \<le> hi" by (auto simp: lo_def hi_def)
  moreover have "0 < rangePad"
    using calculation all [of p] by (auto simp: rangePad_def pad_def data)
  moreover have "computeTargetRange data v ex = (lo - rangePad, hi + rangePad)"
    unfolding computeTargetRange_def data list.case Let_def rangePad_def pad_def hi_def lo_def hi0_def lo0_def ..
  ultimately show ?thesis using all by fastforce
qed

lemma step_toward_low: "0 \<le> sp \<Longrightarrow> sp \<le> 1 \<Longrightarrow> (if (t :: rat) < a then t else a + (t - a) * sp) \<le> t"
  using mult_left_le [of sp "t - a"] by (auto simp: not_less)

lemma step_toward_high: "0 \<le> sp \<Longrightarrow> sp \<le> 1 \<Longrightarrow> (t :: rat) \<le> (if a < t then t else a + (t - a) * sp)"
proof (cases "a < t")
  case False
  assume "0 \<le> sp" "sp \<le> 1"
  then show ?thesis using False mult_left_le [of sp "a - t"] by (simp add: algebra_simps)
qed simp

text \<open>
  From the first frame on, whatever the data and the frames before, the animated range holds the
  whole target range: no value of the data and not the latest value is ever outside the chart.
\<close>

theorem frame_never_clips:
  assumes "0 \<le> pr_speed p" and "pr_speed p \<le> 1" and "d \<in> set (pr_data p)"
  shows "fr_min (li_anim (live_tick sc p s)) < lp_value d \<and> lp_value d < fr_max (li_anim (live_tick sc p s)) \<and>
    fr_min (li_anim (live_tick sc p s)) < pr_value p \<and> pr_value p < fr_max (li_anim (live_tick sc p s))"
proof -
  let ?t = "computeTargetRange (pr_data p) (pr_value p) (pr_exaggerate p)"
  have anim: "li_anim (live_tick sc p s) = nextAnimFrame (li_anim s) ?t (pr_value p) (pr_speed p) (pr_paused p) (pr_clock p)"
    by (simp add: live_tick_def Let_def split: prod.split)
  have "fr_min (li_anim (live_tick sc p s)) \<le> fst ?t" "snd ?t \<le> fr_max (li_anim (live_tick sc p s))"
    unfolding anim nextAnimFrame_def anim_frame.select_convs
    by (rule step_toward_low [OF assms(1,2)], rule step_toward_high [OF assms(1,2)])
  moreover have "pr_data p \<noteq> []" using assms(3) by auto
  ultimately show ?thesis using target_covers [of "pr_data p" "pr_value p" "pr_exaggerate p"] assms(3) by fastforce
qed

definition live_sample :: live_props where
  "live_sample = \<lparr>pr_data = [\<lparr>lp_time = 1, lp_value = 500\<rparr>], pr_value = -3, pr_exaggerate = True, pr_speed = 8 / 100, pr_paused = False,
     pr_view = \<lparr>lv_width = 100, lv_height = 50, lv_leading = 0, lv_window = 30000, lv_unit = 7500\<rparr>, pr_clock = 2000, pr_perf = 40\<rparr>"

lemma frame_never_clips_witness: "500 < fr_max (li_anim (live_tick sc live_sample (live_start 0 7)))"
  using frame_never_clips [of live_sample "\<lparr>lp_time = 1, lp_value = 500\<rparr>" sc "live_start 0 7"] by (simp add: live_sample_def)

section \<open>Facts: interpolation\<close>

definition sorted_times :: "live_point list \<Rightarrow> bool" where
  "sorted_times ps \<longleftrightarrow> (\<forall>i j. i \<le> j \<longrightarrow> j < length ps \<longrightarrow> lp_time (ps ! i) \<le> lp_time (ps ! j))"

lemma find_segment_spec:
  assumes "lo < hi" "hi < length ps" "lp_time (ps ! lo) \<le> t" "t < lp_time (ps ! hi)"
  shows "\<exists>i. find_segment ps t lo hi = (i, Suc i) \<and> Suc i < length ps \<and> lp_time (ps ! i) \<le> t \<and> t < lp_time (ps ! Suc i)"
  using assms
proof (induction ps t lo hi rule: find_segment.induct)
  case (1 ps t lo hi)
  show ?case
  proof (cases "1 < hi - lo")
    case True
    then have m: "lo < (lo + hi) div 2" "(lo + hi) div 2 < hi" by auto
    then show ?thesis
      using 1 True find_segment.simps [of ps t lo hi] by (cases "lp_time (ps ! ((lo + hi) div 2)) \<le> t") (auto simp: Let_def)
  next
    case False
    then have "hi = Suc lo" using 1(3) by simp
    then show ?thesis using 1(3-) find_segment.simps [of ps t lo hi] by auto
  qed
qed

lemma between_convex:
  fixes a b w :: rat
  assumes "0 \<le> w" "w \<le> 1"
  shows "min a b \<le> a + (b - a) * w \<and> a + (b - a) * w \<le> max a b"
proof (cases "a \<le> b")
  case True
  then show ?thesis using assms mult_left_le [of w "b - a"] by auto
next
  case False
  then show ?thesis using assms mult_left_le [of w "a - b"] mult_right_mono [of b a w] by (auto simp: algebra_simps)
qed

text \<open>
  C39. The value shown at a time between the first and the last point lies on the segment whose ends
  enclose the time: the search finds two neighbours around it and the value is their linear
  interpolation, between the values of the two.
\<close>

theorem interpolation_on_segment:
  assumes "ps \<noteq> []" and "lp_time (hd ps) < t" and "t < lp_time (last ps)"
  shows "\<exists>i y. Suc i < length ps \<and> lp_time (ps ! i) \<le> t \<and> t < lp_time (ps ! Suc i) \<and> interpolateAtTime ps t = Some y \<and>
    (y - lp_value (ps ! i)) * (lp_time (ps ! Suc i) - lp_time (ps ! i)) = (lp_value (ps ! Suc i) - lp_value (ps ! i)) * (t - lp_time (ps ! i)) \<and>
    min (lp_value (ps ! i)) (lp_value (ps ! Suc i)) \<le> y \<and> y \<le> max (lp_value (ps ! i)) (lp_value (ps ! Suc i))"
proof -
  have n: "ps ! 0 = hd ps" "ps ! (length ps - 1) = last ps" using assms(1) by (simp_all add: hd_conv_nth last_conv_nth)
  have "0 < length ps - 1"
  proof (rule ccontr)
    assume "\<not> 0 < length ps - 1"
    then have "length ps = 1" using assms(1) by (cases ps) auto
    then have "hd ps = last ps" by (cases ps) auto
    then show False using assms(2,3) by simp
  qed
  then obtain i where i: "find_segment ps t 0 (length ps - 1) = (i, Suc i)" "Suc i < length ps" "lp_time (ps ! i) \<le> t" "t < lp_time (ps ! Suc i)"
    using find_segment_spec [of 0 "length ps - 1" ps t] n assms by auto
  define dt where "dt = lp_time (ps ! Suc i) - lp_time (ps ! i)"
  define w where "w = (t - lp_time (ps ! i)) / dt"
  define y where "y = lp_value (ps ! i) + (lp_value (ps ! Suc i) - lp_value (ps ! i)) * w"
  have dt: "0 < dt" using i(3,4) by (simp add: dt_def)
  then have w: "0 \<le> w" "w \<le> 1" "w * dt = t - lp_time (ps ! i)" using i(3,4) by (simp_all add: w_def dt_def)
  have "interpolateAtTime ps t = Some y"
    using assms i(1) dt by (simp add: interpolateAtTime_def Let_def y_def w_def dt_def)
  moreover have "(y - lp_value (ps ! i)) * dt = (lp_value (ps ! Suc i) - lp_value (ps ! i)) * (t - lp_time (ps ! i))"
    unfolding y_def w(3) [symmetric] by simp
  ultimately show ?thesis using i between_convex [OF w(1,2), of "lp_value (ps ! i)" "lp_value (ps ! Suc i)"] unfolding dt_def y_def by blast
qed

lemma interpolation_on_segment_witness:
  "\<exists>y. interpolateAtTime [\<lparr>lp_time = 0, lp_value = 4\<rparr>, \<lparr>lp_time = 2, lp_value = 8\<rparr>] 1 = Some y \<and> min 4 8 \<le> y"
  using interpolation_on_segment [of "[\<lparr>lp_time = 0, lp_value = 4\<rparr>, \<lparr>lp_time = 2, lp_value = 8\<rparr>]" 1] by auto

section \<open>Facts: the loop\<close>

text \<open>The tooltip on the screen has the key that was last committed, and frames are at least 32 ms apart.\<close>

definition commits_ok :: "rat list \<Rightarrow> rat \<Rightarrow> bool" where
  "commits_ok cs l \<longleftrightarrow> sorted_wrt (\<lambda>a b. LIVE_FRAME_COMMIT_MS \<le> b - a) cs \<and> (cs \<noteq> [] \<longrightarrow> last cs = l)"

definition live_ok :: "live \<Rightarrow> bool" where
  "live_ok s \<longleftrightarrow> liveTooltipKey (li_tip s) = li_last_key s \<and> commits_ok (li_commits s) (li_last_commit s)"

lemma commits_snoc: "commits_ok cs l \<Longrightarrow> LIVE_FRAME_COMMIT_MS \<le> n - l \<Longrightarrow> commits_ok (cs @ [n]) n"
proof -
  assume c: "commits_ok cs l" and n: "LIVE_FRAME_COMMIT_MS \<le> n - l"
  have "LIVE_FRAME_COMMIT_MS \<le> n - x" if "x \<in> set cs" for x
  proof -
    have "x = l \<or> LIVE_FRAME_COMMIT_MS \<le> l - x"
    proof (cases cs rule: rev_cases)
      case (snoc as a)
      then have "a = l" using c by (simp add: commits_ok_def)
      moreover have "sorted_wrt (\<lambda>a b. LIVE_FRAME_COMMIT_MS \<le> b - a) cs" using c unfolding commits_ok_def by (rule conjunct1)
      then have "\<forall>y\<in>set as. LIVE_FRAME_COMMIT_MS \<le> a - y" unfolding snoc by (simp add: sorted_wrt_append)
      ultimately show ?thesis using that snoc by auto
    qed (use that in simp)
    then show ?thesis using n by (auto simp: LIVE_FRAME_COMMIT_MS_def)
  qed
  then show ?thesis using c by (simp add: commits_ok_def sorted_wrt_append)
qed

lemma live_tick_ok: "live_ok s \<Longrightarrow> live_ok (live_tick sc p s)"
  using commits_snoc [of "li_commits s" "li_last_commit s" "pr_perf p"]
  by (simp add: live_ok_def live_tick_def shouldCommitLiveUpdates_def Let_def)

lemma live_move_ok: "live_ok s \<Longrightarrow> live_ok (live_move place margin v s)"
  by (simp add: live_move_def live_ok_def liveTooltipKey_def Let_def split: option.split)

lemma live_leave_ok: "live_ok s \<Longrightarrow> live_ok (live_leave s)"
  by (simp add: live_leave_def live_ok_def liveTooltipKey_def Let_def split: option.split)

interpretation live: invariant_machine "live_step sc" live_ok for sc
proof
  fix s e
  assume "live_ok s"
  then show "live_ok (live_step sc s e)"
    using live_tick_ok [of s sc] by (cases e) (simp_all add: live_move_ok live_leave_ok)
qed

text \<open>
  Whatever the pointer does, the tooltip on the screen is the one whose key was committed last, and
  the frames are committed at least 32 milliseconds apart.
\<close>

theorem live_commits:
  "liveTooltipKey (li_tip (foldl (live_step sc) (live_start clock v) es)) = li_last_key (foldl (live_step sc) (live_start clock v) es) \<and>
   sorted_wrt (\<lambda>a b. LIVE_FRAME_COMMIT_MS \<le> b - a) (li_commits (foldl (live_step sc) (live_start clock v) es))"
proof -
  have "live_ok (live_start clock v)" by (simp add: live_ok_def live_start_def commits_ok_def liveTooltipKey_def Let_def)
  then have "live_ok (foldl (live_step sc) (live_start clock v) es)" by (rule live.run_inv)
  then show ?thesis by (simp add: live_ok_def commits_ok_def)
qed


section \<open>Facts: the distance between two labels\<close>

lemma divisor_bounds: "divs \<in> set divisor_sets \<Longrightarrow> 2 \<le> divisor divs i \<and> divisor divs i \<le> 5 / 2"
proof -
  assume d: "divs \<in> set divisor_sets"
  have "i mod 3 = 0 \<or> i mod 3 = 1 \<or> i mod 3 = 2" by arith
  then show ?thesis using d by (auto simp: divisor_sets_def divisor_def)
qed

lemma shrink_span_ends:
  assumes "0 < minGap" "0 < px" "divs \<in> set divisor_sets" "minGap \<le> sp * px" "sp * px < minGap * 2 ^ n"
  shows "\<exists>r. shrink_span divs px minGap sp i = Some r \<and> minGap \<le> r * px \<and> r * px \<le> 5 / 2 * minGap"
  using assms(4,5)
proof (induction n arbitrary: sp i)
  case (Suc n)
  define d where "d = divisor divs i"
  have d: "2 \<le> d" "d \<le> 5 / 2" using divisor_bounds [OF assms(3)] by (auto simp: d_def)
  show ?case
  proof (cases "minGap \<le> sp / d * px")
    case True
    have "0 \<le> sp * px" using Suc.prems(1) assms(1) by simp
    then have "sp / d * px \<le> sp * px / 2" using d(1) divide_left_mono [of 2 d "sp * px"] by simp
    moreover have "sp * px / 2 < minGap * 2 ^ n" using Suc.prems(2) by simp
    ultimately have "sp / d * px < minGap * 2 ^ n" by (rule le_less_trans)
    then have "\<exists>r. shrink_span divs px minGap (sp / d) (Suc i) = Some r \<and> minGap \<le> r * px \<and> r * px \<le> 5 / 2 * minGap"
      by (rule Suc.IH [OF True])
    then show ?thesis using True shrink_span.simps [of divs px minGap sp i] by (simp add: d_def)
  next
    case False
    then have "sp * px < d * minGap" using d(1) by (simp add: field_simps)
    moreover have "d * minGap \<le> 5 / 2 * minGap" using d(2) assms(1) by (intro mult_right_mono) auto
    ultimately show ?thesis using False Suc.prems(1) shrink_span.simps [of divs px minGap sp i] by (simp add: d_def)
  qed
qed simp

lemma below_power: "0 < minGap \<Longrightarrow> \<exists>n. (x :: rat) < minGap * 2 ^ n"
proof -
  assume m: "0 < minGap"
  define n where "n = nat \<lceil>x / minGap\<rceil>"
  have "x / minGap \<le> of_nat n" unfolding n_def by linarith
  also have "(of_nat n :: rat) < 2 ^ n" by (metis less_exp of_nat_less_iff of_nat_numeral of_nat_power)
  finally show ?thesis using m by (auto simp: field_simps)
qed

text \<open>
  C40. Wherever a label fits on the axis at all, the search for the distance between two labels ends, with
  a distance on the screen between half the wanted gap and three times the gap.
\<close>

theorem label_spacing:
  assumes "0 < valRange" and "0 < minGap" and "minGap \<le> height" and "valRange \<le> power10 (ceil_log10 valRange)"
  shows "\<exists>r. pickNiceInterval ceil_log10 valRange height minGap prev = Some r \<and>
    minGap / 2 \<le> r * (height / valRange) \<and> r * (height / valRange) \<le> minGap * 3"
proof (cases "0 < prev \<and> minGap / 2 \<le> prev * (height / valRange) \<and> prev * (height / valRange) \<le> minGap * 3")
  case True
  then show ?thesis using assms by (auto simp: pickNiceInterval_def Let_def)
next
  case False
  define px where "px = height / valRange"
  define sp where "sp = power10 (ceil_log10 valRange)"
  have px: "0 < px" using assms by (simp add: px_def)
  have "valRange * px = height" using assms(1) by (simp add: px_def)
  then have fits: "minGap \<le> sp * px" using assms(3,4) px mult_right_mono [of valRange sp px] by (simp add: sp_def)
  obtain n where n: "sp * px < minGap * 2 ^ n" using below_power [OF assms(2)] by blast
  have ends: "\<exists>r. shrink_span divs px minGap sp 0 = Some r \<and> minGap \<le> r * px \<and> r * px \<le> 5 / 2 * minGap"
    if "divs \<in> set divisor_sets" for divs
    by (rule shrink_span_ends [OF assms(2) px that fits n])
  obtain a b c where abc: "map (\<lambda>d. shrink_span d px minGap sp 0) divisor_sets = [Some a, Some b, Some c]"
    and all: "\<forall>r\<in>{a, b, c}. minGap \<le> r * px \<and> r * px \<le> 5 / 2 * minGap"
    using ends [of "divisor_sets ! 0"] ends [of "divisor_sets ! 1"] ends [of "divisor_sets ! 2"] by (auto simp: divisor_sets_def)
  define r where "r = foldl (\<lambda>m x. if the x < m then the x else m) a [Some b, Some c]"
  have "r \<in> {a, b, c}" by (simp add: r_def)
  then have "minGap \<le> r * px \<and> r * px \<le> 5 / 2 * minGap" using all by blast
  moreover have "pickNiceInterval ceil_log10 valRange height minGap prev = Some r"
    using assms(1-3) unfolding pickNiceInterval_def Let_def if_not_P [OF False] unfolding px_def [symmetric] sp_def [symmetric] abc
    by (simp add: r_def)
  ultimately show ?thesis using assms(2) by (auto simp flip: px_def)
qed

lemma label_spacing_witness:
  "\<exists>r. pickNiceInterval (\<lambda>_. 2) 60 200 36 0 = Some r \<and> 18 \<le> r * (200 / 60) \<and> r * (200 / 60) \<le> 108"
  using label_spacing [of 60 36 200 "\<lambda>_. 2" 0] by (simp add: power10_def)

end
