(* ===== verification/AnimatedDomains.thy ===== *)
theory AnimatedDomains
  imports YAxis
begin

text \<open>
  The vertical domains a chart draws with, src/ui/web/src/components/charts/use-animated-y-domains.ts:
  they follow the skeleton or the data through the phases of the chart, at once or by a tween of the
  motion library.  A tween is known by where it comes from and where it goes; its frames and its end are
  events.  The state of the hook and its reference are always set together and are one field here.
\<close>

section \<open>Tweens\<close>

type_synonym domains = "(jstr \<times> ydomain) list"

text \<open>What \<open>JSON.stringify\<close> tells apart: a number that is not finite is written \<open>null\<close>.\<close>

definition signature_num :: "jnum \<Rightarrow> rat option" where
  "signature_num x = (case x of Fin q \<Rightarrow> Some q | _ \<Rightarrow> None)"

definition targetSignature :: "domains \<Rightarrow> (jstr \<times> rat option \<times> rat option) list" where
  "targetSignature ds = map (\<lambda>(k, a, b). (k, signature_num a, signature_num b)) ds"

definition lerpDomain :: "ydomain \<Rightarrow> ydomain \<Rightarrow> jnum \<Rightarrow> ydomain" where
  "lerpDomain d e w = (fst d + (fst e - fst d) * w, snd d + (snd e - snd d) * w)"

record domains_tween =
  tw_from :: domains
  tw_dest :: domains

record domains_props =
  an_enabled :: bool
  an_reduced :: bool
  an_duration :: jnum
  an_phase :: chart_phase
  an_skeleton :: domains
  an_target :: domains
  an_on_change :: bool

record domains_hook =
  an_domains :: domains
  an_prev_phase :: chart_phase
  an_prev_signature :: "(jstr \<times> rat option \<times> rat option) list"
  an_phase_tween :: "domains_tween option"
  an_target_tween :: "domains_tween option"
  an_settled :: nat
  an_props :: domains_props

definition destinationByAxis :: "domains_props \<Rightarrow> domains" where
  "destinationByAxis p = resolveAnimatedYDestinationDomains (an_phase p) (an_skeleton p) (an_target p)"

definition snapDomains :: "domains \<Rightarrow> domains_hook \<Rightarrow> domains_hook" where
  "snapDomains ds s = (if domainsEqual (an_domains s) ds then s else s\<lparr>an_domains := ds\<rparr>)"

definition on_settled :: "domains_hook \<Rightarrow> domains_hook" where
  "on_settled s = s\<lparr>an_settled := Suc (an_settled s)\<rparr>"

text \<open>Where an axis starts.\<close>

definition axis_from :: "domains \<Rightarrow> domains \<Rightarrow> jstr \<Rightarrow> ydomain" where
  "axis_from snapshot dest axisId = (case map_of snapshot axisId of
     Some d \<Rightarrow> d
   | None \<Rightarrow> (case map_of dest axisId of Some d \<Rightarrow> d | None \<Rightarrow> default_domain))"

definition axis_to :: "domains \<Rightarrow> domains \<Rightarrow> jstr \<Rightarrow> ydomain" where
  "axis_to snapshot dest axisId = (case map_of dest axisId of Some d \<Rightarrow> d | None \<Rightarrow> axis_from snapshot dest axisId)"

definition needs_tween :: "domains \<Rightarrow> domains \<Rightarrow> bool" where
  "needs_tween snapshot dest = list_ex (\<lambda>k. shouldTweenYDomain (axis_from snapshot dest k) (axis_to snapshot dest k)) (map fst dest)"

definition tweenDomains :: "domains_props \<Rightarrow> domains \<Rightarrow> domains_hook \<Rightarrow> domains_tween option \<times> domains_hook" where
  "tweenDomains p dest s =
     (if domainsEqual (an_domains s) dest then (None, on_settled s)
      else if \<not> an_enabled p \<or> an_reduced p \<or> \<not> needs_tween (an_domains s) dest then (None, on_settled (snapDomains dest s))
      else (Some \<lparr>tw_from = map (\<lambda>k. (k, axis_from (an_domains s) dest k)) (map fst dest), tw_dest = dest\<rparr>, s))"

text \<open>\<open>onUpdate\<close>.\<close>

definition tween_frame :: "domains_tween \<Rightarrow> jnum \<Rightarrow> domains" where
  "tween_frame tw w =
     map (\<lambda>k. let from = axis_from (tw_from tw) (tw_dest tw) k; to = axis_to (tw_from tw) (tw_dest tw) k
         in (k, if shouldTweenYDomain from to then lerpDomain from to w else to)) (map fst (tw_dest tw))"

section \<open>The effects\<close>

text \<open>The effect of the phase.\<close>

definition phase_body :: "domains_props \<Rightarrow> domains_hook \<Rightarrow> domains_hook" where
  "phase_body p s0 =
     (if an_prev_phase s0 = an_phase p then s0
      else let s = s0\<lparr>an_prev_phase := an_phase p\<rparr> in
        case an_phase p of
          PhExiting \<Rightarrow> snapDomains (an_skeleton p) s
        | PhExitingReady \<Rightarrow> snapDomains (an_target p) s
        | PhLoading \<Rightarrow> snapDomains (an_skeleton p) s
        | PhRevealing \<Rightarrow> snapDomains (an_target p) s
        | PhReady \<Rightarrow> snapDomains (an_target p) s
        | ph \<Rightarrow> if \<not> isYDomainTweenPhase ph then s
            else let (control, t) = tweenDomains p (destinationByAxis p) s in t\<lparr>an_phase_tween := control\<rparr>)"

text \<open>The effect of the target.\<close>

definition target_body :: "domains_props \<Rightarrow> domains_hook \<Rightarrow> domains_hook" where
  "target_body p s0 =
     (let s = s0\<lparr>an_prev_signature := targetSignature (an_target p)\<rparr> in
      if an_phase p \<noteq> PhReady \<and> an_phase p \<noteq> PhRevealing then s
      else if an_prev_signature s0 = targetSignature (an_target p) then s0
      else if an_on_change p \<and> an_phase p = PhReady then
        (let (control, t) = tweenDomains p (an_target p) s in t\<lparr>an_target_tween := control\<rparr>)
      else snapDomains (an_target p) s)"

definition phase_deps :: "domains_props \<Rightarrow> chart_phase \<times> jnum \<times> bool \<times> bool" where
  "phase_deps p = (an_phase p, an_duration p, an_enabled p, an_reduced p)"

definition target_deps ::
    "domains_props \<Rightarrow> (chart_phase \<times> jnum \<times> bool \<times> bool) \<times> (jstr \<times> rat option \<times> rat option) list \<times> bool" where
  "target_deps p = (phase_deps p, targetSignature (an_target p), an_on_change p)"

text \<open>A render: first the cleanups of the effects that run again, which stop their tweens, then the effects.\<close>

definition domains_render :: "domains_props \<Rightarrow> domains_hook \<Rightarrow> domains_hook" where
  "domains_render p s0 =
     (let again1 = phase_deps p \<noteq> phase_deps (an_props s0);
          again2 = target_deps p \<noteq> target_deps (an_props s0);
          s1 = (if again1 then s0\<lparr>an_phase_tween := None\<rparr> else s0);
          s2 = (if again2 then s1\<lparr>an_target_tween := None\<rparr> else s1);
          s3 = (if again1 then phase_body p s2 else s2);
          s4 = (if again2 then target_body p s3 else s3)
      in s4\<lparr>an_props := p\<rparr>)"

definition domains_start :: "domains_props \<Rightarrow> domains_hook" where
  "domains_start p = \<lparr>an_domains = destinationByAxis p, an_prev_phase = an_phase p, an_prev_signature = targetSignature (an_target p),
     an_phase_tween = None, an_target_tween = None, an_settled = 0, an_props = p\<rparr>"

datatype domains_event = DomainsRender domains_props | PhaseFrame jnum | PhaseComplete | TargetFrame jnum | TargetComplete

fun domains_step :: "domains_hook \<Rightarrow> domains_event \<Rightarrow> domains_hook" where
  "domains_step s (DomainsRender p) = domains_render p s"
| "domains_step s (PhaseFrame x) = (case an_phase_tween s of None \<Rightarrow> s | Some tw \<Rightarrow> s\<lparr>an_domains := tween_frame tw x\<rparr>)"
| "domains_step s PhaseComplete = (case an_phase_tween s of None \<Rightarrow> s
     | Some tw \<Rightarrow> on_settled (snapDomains (tw_dest tw) (s\<lparr>an_phase_tween := None\<rparr>)))"
| "domains_step s (TargetFrame x) = (case an_target_tween s of None \<Rightarrow> s | Some tw \<Rightarrow> s\<lparr>an_domains := tween_frame tw x\<rparr>)"
| "domains_step s TargetComplete = (case an_target_tween s of None \<Rightarrow> s
     | Some tw \<Rightarrow> on_settled (snapDomains (tw_dest tw) (s\<lparr>an_target_tween := None\<rparr>)))"

section \<open>Facts: where the domains come to rest\<close>

text \<open>The same domains, or domains the hook takes for the same.\<close>

definition same_domains :: "domains \<Rightarrow> domains \<Rightarrow> bool" where
  "same_domains a b \<longleftrightarrow> a = b \<or> domainsEqual a b"

definition finite_domains :: "domains \<Rightarrow> bool" where
  "finite_domains ds = list_all (\<lambda>(k, a, b). signature_num a \<noteq> None \<and> signature_num b \<noteq> None) ds"

text \<open>
  What a render may change: anything when the phase changes; within a phase the target while the chart
  is live, and the settings of the tween while none runs.
\<close>

definition steady :: "domains_hook \<Rightarrow> domains_event \<Rightarrow> bool" where
  "steady s e = (case e of
     DomainsRender p \<Rightarrow>
       an_phase p \<noteq> PhRevealingLoading \<and> finite_domains (an_target p) \<and>
       (an_phase p = an_phase (an_props s) \<longrightarrow>
          (\<not> (an_phase p = PhReady \<or> an_phase p = PhRevealing) \<longrightarrow> destinationByAxis p = destinationByAxis (an_props s)) \<and>
          (an_phase_tween s \<noteq> None \<or> an_target_tween s \<noteq> None \<longrightarrow>
             phase_deps p = phase_deps (an_props s) \<and> an_on_change p = an_on_change (an_props s)))
   | _ \<Rightarrow> True)"

definition live_phase :: "domains_props \<Rightarrow> bool" where
  "live_phase p \<longleftrightarrow> an_phase p = PhReady \<or> an_phase p = PhRevealing"

definition domains_inv :: "domains_hook \<Rightarrow> bool" where
  "domains_inv s \<longleftrightarrow> an_prev_phase s = an_phase (an_props s) \<and> an_prev_signature s = targetSignature (an_target (an_props s)) \<and>
     finite_domains (an_target (an_props s)) \<and>
     (an_phase_tween s = None \<longrightarrow> an_target_tween s = None \<longrightarrow> same_domains (an_domains s) (destinationByAxis (an_props s))) \<and>
     (\<forall>tw. an_phase_tween s = Some tw \<longrightarrow> tw_dest tw = destinationByAxis (an_props s) \<and> \<not> live_phase (an_props s)) \<and>
     (\<forall>tw. an_target_tween s = Some tw \<longrightarrow> tw_dest tw = destinationByAxis (an_props s) \<and> live_phase (an_props s))"

lemma signature_inj: "signature_num a = signature_num b \<Longrightarrow> signature_num a \<noteq> None \<Longrightarrow> a = b"
  by (cases a; cases b) (auto simp: signature_num_def)

lemma targetSignature_inj: "targetSignature a = targetSignature b \<Longrightarrow> finite_domains a \<Longrightarrow> a = b"
proof (induction a arbitrary: b)
  case Nil
  then show ?case by (simp add: targetSignature_def)
next
  case (Cons x xs)
  then obtain y ys where b: "b = y # ys" by (cases b) (auto simp: targetSignature_def)
  obtain k l r where x: "x = (k, l, r)" by (cases x)
  obtain k' l' r' where y: "y = (k', l', r')" by (cases y)
  have "k = k'" "signature_num l = signature_num l'" "signature_num r = signature_num r'" "targetSignature xs = targetSignature ys"
    using Cons.prems(1) by (simp_all add: targetSignature_def b x y)
  moreover have "signature_num l \<noteq> None" "signature_num r \<noteq> None" "finite_domains xs" using Cons.prems(2) by (simp_all add: finite_domains_def x)
  ultimately show ?case using Cons.IH [of ys] signature_inj [of l l'] signature_inj [of r r'] by (simp add: b x y)
qed

lemma snapped: "same_domains (an_domains (snapDomains ds s)) ds"
  by (simp add: snapDomains_def same_domains_def)

lemma snap_keeps:
  "an_prev_phase (snapDomains ds s) = an_prev_phase s" "an_prev_signature (snapDomains ds s) = an_prev_signature s"
  "an_phase_tween (snapDomains ds s) = an_phase_tween s" "an_target_tween (snapDomains ds s) = an_target_tween s"
  "an_settled (snapDomains ds s) = an_settled s" "an_props (snapDomains ds s) = an_props s"
  by (simp_all add: snapDomains_def)

lemma settled_keeps:
  "an_domains (on_settled s) = an_domains s" "an_prev_phase (on_settled s) = an_prev_phase s"
  "an_prev_signature (on_settled s) = an_prev_signature s" "an_phase_tween (on_settled s) = an_phase_tween s"
  "an_target_tween (on_settled s) = an_target_tween s" "an_props (on_settled s) = an_props s"
  by (simp_all add: on_settled_def)

lemmas hook_keeps = snap_keeps settled_keeps

text \<open>A tween that is asked for starts, or its destination is there and that is reported.\<close>

lemma tweenDomains_cases:
  obtains (there) t where "tweenDomains p dest s = (None, t)" "same_domains (an_domains t) dest" "an_settled t = Suc (an_settled s)"
      "an_prev_phase t = an_prev_phase s" "an_prev_signature t = an_prev_signature s" "an_phase_tween t = an_phase_tween s"
      "an_target_tween t = an_target_tween s"
  | (starts) tw where "tweenDomains p dest s = (Some tw, s)" "tw_dest tw = dest"
proof (cases "domainsEqual (an_domains s) dest")
  case True
  then show thesis using there [of "on_settled s"] by (simp add: tweenDomains_def same_domains_def settled_keeps on_settled_def)
next
  case False
  show thesis
  proof (cases "\<not> an_enabled p \<or> an_reduced p \<or> \<not> needs_tween (an_domains s) dest")
    case True
    then show thesis using False there [of "on_settled (snapDomains dest s)"] snapped [of dest s]
      by (simp add: tweenDomains_def hook_keeps) (simp add: on_settled_def snap_keeps)
  next
    case False2: False
    then show thesis using False starts by (simp add: tweenDomains_def)
  qed
qed

text \<open>Entering a phase.\<close>

lemma phase_body_new:
  assumes "an_prev_phase s \<noteq> an_phase p" and "an_phase p \<noteq> PhRevealingLoading" and "an_phase_tween s = None" and "an_target_tween s = None"
  shows "an_prev_phase (phase_body p s) = an_phase p \<and> an_prev_signature (phase_body p s) = an_prev_signature s \<and>
    an_target_tween (phase_body p s) = None \<and>
    (case an_phase_tween (phase_body p s) of None \<Rightarrow> same_domains (an_domains (phase_body p s)) (destinationByAxis p)
       | Some tw \<Rightarrow> tw_dest tw = destinationByAxis p \<and> \<not> live_phase p)"
proof -
  define t where "t = s\<lparr>an_prev_phase := an_phase p\<rparr>"
  show ?thesis
  proof (cases "isYDomainTweenPhase (an_phase p)")
    case True
    then have body: "phase_body p s = (let (control, u) = tweenDomains p (destinationByAxis p) t in u\<lparr>an_phase_tween := control\<rparr>)"
      using assms(1) by (cases "an_phase p") (simp_all add: phase_body_def t_def isYDomainTweenPhase_def)
    show ?thesis
      by (rule tweenDomains_cases [of p "destinationByAxis p" t]) (use True in \<open>simp_all add: body isYDomainTweenPhase_def live_phase_def\<close>, auto simp: t_def assms(4))
  next
    case False
    then have "phase_body p s = snapDomains (destinationByAxis p) t"
      using assms(1,2) by (cases "an_phase p")
        (simp_all add: phase_body_def t_def isYDomainTweenPhase_def destinationByAxis_def resolveAnimatedYDestinationDomains_def)
    then show ?thesis using snapped [of "destinationByAxis p" t] assms(3,4) by (simp add: snap_keeps) (simp add: t_def)
  qed
qed

lemma live_destination: "live_phase p \<Longrightarrow> destinationByAxis p = an_target p"
  by (auto simp: live_phase_def destinationByAxis_def resolveAnimatedYDestinationDomains_def)

text \<open>The effect of the target leaves the domains at the destination or under way to it.\<close>

lemma target_body_ok:
  assumes "an_prev_phase s = an_phase p" and "an_target_tween s = None"
    and "case an_phase_tween s of
        None \<Rightarrow> (live_phase p \<longrightarrow> an_prev_signature s = targetSignature (an_target p)) \<longrightarrow> same_domains (an_domains s) (destinationByAxis p)
      | Some tw \<Rightarrow> tw_dest tw = destinationByAxis p \<and> \<not> live_phase p"
    and "finite_domains (an_target p)"
  shows "domains_inv ((target_body p s)\<lparr>an_props := p\<rparr>)"
proof -
  define t where "t = s\<lparr>an_prev_signature := targetSignature (an_target p)\<rparr>"
  consider (quiet) "\<not> live_phase p" | (old) "live_phase p" "an_prev_signature s = targetSignature (an_target p)"
    | (tween) "an_prev_signature s \<noteq> targetSignature (an_target p)" "an_on_change p" "an_phase p = PhReady"
    | (snap) "live_phase p" "an_prev_signature s \<noteq> targetSignature (an_target p)" "\<not> (an_on_change p \<and> an_phase p = PhReady)" by blast
  then show ?thesis
  proof cases
    case quiet
    then have "target_body p s = t" by (simp add: target_body_def t_def live_phase_def)
    then show ?thesis using assms quiet by (auto simp: domains_inv_def t_def split: option.splits)
  next
    case old
    then have "target_body p s = s" by (auto simp: target_body_def live_phase_def)
    then show ?thesis using assms old by (auto simp: domains_inv_def split: option.splits)
  next
    case tween
    then have live: "live_phase p" by (simp add: live_phase_def)
    then have none: "an_phase_tween s = None" using assms(3) by (cases "an_phase_tween s") auto
    have body: "target_body p s = (let (control, u) = tweenDomains p (destinationByAxis p) t in u\<lparr>an_target_tween := control\<rparr>)"
      using tween by (simp add: target_body_def t_def live_destination [OF live])
    show ?thesis
      by (rule tweenDomains_cases [of p "destinationByAxis p" t]) (simp_all add: body domains_inv_def t_def none live assms)
  next
    case snap
    then have none: "an_phase_tween s = None" using assms(3) by (cases "an_phase_tween s") auto
    have "target_body p s = snapDomains (destinationByAxis p) t"
      using snap by (auto simp: target_body_def t_def live_destination live_phase_def Let_def)
    then show ?thesis using snapped [of "destinationByAxis p" t] by (simp add: domains_inv_def snap_keeps) (simp add: t_def none assms)
  qed
qed

text \<open>Within a phase a render that is let through keeps the destination, or the signature tells.\<close>

lemma same_destination:
  assumes "domains_inv s" and "steady s (DomainsRender p)" and "an_phase p = an_phase (an_props s)"
    and "live_phase p \<longrightarrow> an_prev_signature s = targetSignature (an_target p)"
  shows "destinationByAxis p = destinationByAxis (an_props s)"
proof (cases "live_phase p")
  case True
  then have "targetSignature (an_target (an_props s)) = targetSignature (an_target p)" using assms(1,4) by (simp add: domains_inv_def)
  then have "an_target (an_props s) = an_target p" using assms(1) targetSignature_inj by (auto simp: domains_inv_def)
  moreover have "live_phase (an_props s)" using True assms(3) by (simp add: live_phase_def)
  ultimately show ?thesis using live_destination True by metis
next
  case False
  then show ?thesis using assms(2,3) by (simp add: steady_def live_phase_def)
qed

lemma render_inv:
  assumes inv: "domains_inv s" and ok: "steady s (DomainsRender p)"
  shows "domains_inv (domains_render p s)"
proof -
  have fin: "finite_domains (an_target p)" using ok by (simp add: steady_def)
  consider (phase) "an_phase p \<noteq> an_phase (an_props s)" | (settings) "an_phase p = an_phase (an_props s)" "phase_deps p \<noteq> phase_deps (an_props s)"
    | (target) "phase_deps p = phase_deps (an_props s)" "target_deps p \<noteq> target_deps (an_props s)"
    | (idle) "target_deps p = target_deps (an_props s)" by (auto simp: phase_deps_def)
  then show ?thesis
  proof cases
    case phase
    define t where "t = s\<lparr>an_phase_tween := None, an_target_tween := None\<rparr>"
    have "phase_deps p \<noteq> phase_deps (an_props s)" "target_deps p \<noteq> target_deps (an_props s)"
      using phase by (auto simp: phase_deps_def target_deps_def)
    then have "domains_render p s = (target_body p (phase_body p t))\<lparr>an_props := p\<rparr>" by (simp add: domains_render_def t_def Let_def)
    moreover have "an_prev_phase t \<noteq> an_phase p" using phase inv by (simp add: t_def domains_inv_def)
    then have "an_prev_phase (phase_body p t) = an_phase p \<and> an_target_tween (phase_body p t) = None \<and>
        (case an_phase_tween (phase_body p t) of None \<Rightarrow> same_domains (an_domains (phase_body p t)) (destinationByAxis p)
           | Some tw \<Rightarrow> tw_dest tw = destinationByAxis p \<and> \<not> live_phase p)"
      using phase_body_new [of t p] ok by (simp add: steady_def t_def)
    then have "domains_inv ((target_body p (phase_body p t))\<lparr>an_props := p\<rparr>)"
      by (intro target_body_ok [OF _ _ _ fin]) (auto split: option.splits)
    ultimately show ?thesis by simp
  next
    case settings
    define t where "t = s\<lparr>an_phase_tween := None, an_target_tween := None\<rparr>"
    have "target_deps p \<noteq> target_deps (an_props s)" using settings by (auto simp: target_deps_def)
    moreover have p: "an_prev_phase t = an_phase p" using settings inv by (simp add: t_def domains_inv_def)
    then have "phase_body p t = t" by (simp add: phase_body_def)
    ultimately have "domains_render p s = (target_body p t)\<lparr>an_props := p\<rparr>" using settings by (simp add: domains_render_def t_def Let_def)
    moreover have "an_phase_tween s = None" "an_target_tween s = None" using ok settings by (auto simp: steady_def)
    then have "same_domains (an_domains s) (destinationByAxis (an_props s))" using inv by (simp add: domains_inv_def)
    then have "domains_inv ((target_body p t)\<lparr>an_props := p\<rparr>)"
      using same_destination [OF inv ok settings(1)] p fin by (intro target_body_ok) (auto simp: t_def)
    ultimately show ?thesis by simp
  next
    case target
    define t where "t = s\<lparr>an_target_tween := None\<rparr>"
    have ph: "an_phase p = an_phase (an_props s)" using target by (simp add: phase_deps_def)
    have "domains_render p s = (target_body p t)\<lparr>an_props := p\<rparr>" using target by (simp add: domains_render_def t_def Let_def)
    moreover have "domains_inv ((target_body p t)\<lparr>an_props := p\<rparr>)"
    proof (rule target_body_ok [OF _ _ _ fin])
      show "an_prev_phase t = an_phase p" using ph inv by (simp add: t_def domains_inv_def)
      show "an_target_tween t = None" by (simp add: t_def)
      have live: "live_phase p = live_phase (an_props s)" using ph by (simp add: live_phase_def)
      show "case an_phase_tween t of
          None \<Rightarrow> (live_phase p \<longrightarrow> an_prev_signature t = targetSignature (an_target p)) \<longrightarrow> same_domains (an_domains t) (destinationByAxis p)
        | Some tw \<Rightarrow> tw_dest tw = destinationByAxis p \<and> \<not> live_phase p"
      proof (cases "an_phase_tween s")
        case None
        have "same_domains (an_domains s) (destinationByAxis p)" if sg: "live_phase p \<longrightarrow> an_prev_signature s = targetSignature (an_target p)"
        proof (cases "an_target_tween s")
          case None2: None
          then show ?thesis using None inv same_destination [OF inv ok ph sg] by (simp add: domains_inv_def)
        next
          case (Some tw)
          then have "live_phase p" using inv live by (simp add: domains_inv_def)
          moreover have "an_on_change p = an_on_change (an_props s)" using ok ph Some by (simp add: steady_def)
          ultimately have "target_deps p = target_deps (an_props s)" using sg inv target(1) by (simp add: target_deps_def domains_inv_def)
          then show ?thesis using target(2) by simp
        qed
        then show ?thesis by (simp add: t_def None)
      next
        case (Some tw)
        then have "tw_dest tw = destinationByAxis (an_props s)" "\<not> live_phase p" using inv live by (simp_all add: domains_inv_def)
        then show ?thesis using same_destination [OF inv ok ph] by (simp add: t_def Some)
      qed
    qed
    ultimately show ?thesis by simp
  next
    case idle
    then have deps: "phase_deps p = phase_deps (an_props s)" "targetSignature (an_target p) = targetSignature (an_target (an_props s))"
      by (simp_all add: target_deps_def)
    then have ph: "an_phase p = an_phase (an_props s)" by (simp add: phase_deps_def)
    have sg: "an_prev_signature s = targetSignature (an_target p)" using inv deps(2) by (simp add: domains_inv_def)
    have "destinationByAxis p = destinationByAxis (an_props s)" by (rule same_destination [OF inv ok ph]) (simp add: sg)
    moreover have "live_phase p = live_phase (an_props s)" using ph by (simp add: live_phase_def)
    moreover have "(target_deps p \<noteq> target_deps (an_props s)) = False" "(phase_deps p \<noteq> phase_deps (an_props s)) = False"
      using idle deps(1) by simp_all
    then have "domains_render p s = s\<lparr>an_props := p\<rparr>" unfolding domains_render_def Let_def by (simp only: if_False)
    ultimately show ?thesis using inv ph deps(2) fin by (simp add: domains_inv_def)
  qed
qed

interpretation animated_domains: guarded_machine domains_step steady domains_inv
proof
  fix s e
  assume inv: "domains_inv s" and ok: "steady s e"
  show "domains_inv (domains_step s e)"
  proof (cases e)
    case (DomainsRender p)
    then show ?thesis using render_inv [OF inv] ok by simp
  next
    case PhaseComplete
    then show ?thesis using inv snapped by (auto simp: domains_inv_def hook_keeps split: option.splits)
  next
    case TargetComplete
    then show ?thesis using inv snapped by (auto simp: domains_inv_def hook_keeps split: option.splits)
  qed (use inv in \<open>auto simp: domains_inv_def split: option.splits\<close>)
qed

text \<open>
  C37. The axes come to rest where they belong: after any renders and frames, once the tweens under way
  have ended, the chart is drawn with the domains of its phase - those of the skeleton while it loads,
  those of the data otherwise.  This needs that the domains of the data are always finite and the phase
  that reveals the loading chart is not entered, and that no render changes, within one phase, the
  settings of a tween that is running or, outside the phases that show live data, the domains the phase
  goes to: neither the skeleton while the chart loads nor the data while it leaves or tweens.  Lemmas
  \<open>tween_interrupted\<close> and \<open>target_change_missed\<close> show what happens otherwise.
\<close>

theorem domains_come_to_rest:
  assumes "finite_domains (an_target p)" and "ok_run domains_step steady (domains_start p) es"
    and "s = foldl domains_step (domains_start p) es"
  shows "same_domains (an_domains (foldl domains_step s [PhaseComplete, TargetComplete])) (destinationByAxis (an_props s))"
proof -
  have "domains_inv (domains_start p)" using assms(1) by (simp add: domains_inv_def domains_start_def same_domains_def)
  then have inv: "domains_inv s" using animated_domains.run_guarded assms(2,3) by blast
  define t where "t = domains_step s PhaseComplete"
  have t: "domains_inv t" "an_phase_tween t = None" "an_props t = an_props s"
    using animated_domains.step_ok_inv [OF inv, of PhaseComplete]
    by (simp_all add: t_def steady_def hook_keeps split: option.split)
  define u where "u = domains_step t TargetComplete"
  have "domains_inv u" using animated_domains.step_ok_inv [OF t(1), of TargetComplete] by (simp add: u_def steady_def)
  moreover have "an_phase_tween u = None" "an_target_tween u = None" "an_props u = an_props s"
    using t(2,3) by (simp_all add: u_def hook_keeps split: option.split)
  ultimately show ?thesis by (simp add: domains_inv_def t_def u_def)
qed

definition loading_props :: domains_props where
  "loading_props = \<lparr>an_enabled = True, an_reduced = False, an_duration = Fin 600, an_phase = PhLoading,
     an_skeleton = [(DEFAULT_Y_AXIS_ID, (Fin 0, Fin 100))], an_target = [(DEFAULT_Y_AXIS_ID, (Fin 0, Fin 1000))], an_on_change = False\<rparr>"

lemma loading_eval:
  "domainsEqual [(DEFAULT_Y_AXIS_ID, (Fin 0, Fin 100))] [(DEFAULT_Y_AXIS_ID, (Fin 0, Fin 1000))] = False"
  "needs_tween [(DEFAULT_Y_AXIS_ID, (Fin 0, Fin 100))] [(DEFAULT_Y_AXIS_ID, (Fin 0, Fin 1000))]"
  by (simp_all add: domainsEqual_def needs_tween_def axis_from_def axis_to_def shouldTweenYDomain_def Let_def jnum_literals n_eq_def)

text \<open>
  A tween whose settings change while it runs is stopped and not started again: the axes stay where they
  are and the end of the tween, which the chart waits for, is never reported.
\<close>

lemma tween_interrupted:
  "let s = foldl domains_step (domains_start loading_props)
      [DomainsRender (loading_props\<lparr>an_phase := PhGridTweenReady\<rparr>), DomainsRender (loading_props\<lparr>an_phase := PhGridTweenReady, an_duration := Fin 900\<rparr>)]
   in an_domains s = [(DEFAULT_Y_AXIS_ID, (Fin 0, Fin 100))] \<and> an_phase_tween s = None \<and> an_target_tween s = None \<and> an_settled s = 0"
  by (simp add: loading_props_def domains_start_def destinationByAxis_def resolveAnimatedYDestinationDomains_def domains_render_def
      phase_deps_def target_deps_def phase_body_def target_body_def isYDomainTweenPhase_def tweenDomains_def loading_eval Let_def)

text \<open>Data that change in the phase of the tween are not followed before the phase ends.\<close>

lemma target_change_missed:
  "let s = foldl domains_step (domains_start loading_props)
      [DomainsRender (loading_props\<lparr>an_phase := PhGridTweenReady\<rparr>), PhaseComplete,
       DomainsRender (loading_props\<lparr>an_phase := PhGridTweenReady, an_target := [(DEFAULT_Y_AXIS_ID, (Fin 0, Fin 500))]\<rparr>)]
   in an_domains s = [(DEFAULT_Y_AXIS_ID, (Fin 0, Fin 1000))] \<and> an_phase_tween s = None \<and> an_target_tween s = None"
  by (simp add: loading_props_def domains_start_def destinationByAxis_def resolveAnimatedYDestinationDomains_def domains_render_def
      phase_deps_def target_deps_def phase_body_def target_body_def isYDomainTweenPhase_def tweenDomains_def loading_eval Let_def
      snapDomains_def on_settled_def)

lemma render_props: "an_props (domains_step s (DomainsRender p)) = p"
  by (simp add: domains_render_def Let_def)

lemma domains_come_to_rest_witness:
  "same_domains (an_domains (foldl domains_step (domains_step (domains_start loading_props) (DomainsRender (loading_props\<lparr>an_phase := PhGridTweenReady\<rparr>)))
     [PhaseComplete, TargetComplete])) [(DEFAULT_Y_AXIS_ID, (Fin 0, Fin 1000))]"
proof -
  have fin: "finite_domains (an_target loading_props)"
    by (simp add: finite_domains_def loading_props_def signature_num_def)
  have "ok_run domains_step steady (domains_start loading_props) [DomainsRender (loading_props\<lparr>an_phase := PhGridTweenReady\<rparr>)]"
    using fin by (simp add: steady_def) (simp add: loading_props_def domains_start_def)
  from domains_come_to_rest [OF fin this refl] show ?thesis
    by (simp add: render_props destinationByAxis_def resolveAnimatedYDestinationDomains_def loading_props_def del: domains_step.simps)
qed

end
