(* ===== verification/Heatmap.thy ===== *)
theory Heatmap
  imports JsPrelude
begin

text \<open>
  The heatmap of contributions, src/ui/web/src/components/charts/heatmap: heatmap-utils.ts,
  heatmap-animation.ts, heatmap-colors.ts, generate-heatmap-skeleton-data.ts, and of heatmap-chart.tsx
  and heatmap-cells.tsx the size of the cells, their fading and the layers of their opacity.  Counts,
  sizes and durations are finite numbers, here exact rationals; dates are milliseconds.
\<close>

section \<open>Columns and levels\<close>

record heatmap_bin =
  hb_count :: rat
  hb_bin :: nat
  hb_date :: int

record heat_column =
  hc_bin :: nat
  hc_bins :: "heatmap_bin list"

definition getHeatmapColumnStartDate :: "heat_column \<Rightarrow> int option" where
  "getHeatmapColumnStartDate c = (case hc_bins c of [] \<Rightarrow> None | b # _ \<Rightarrow> Some (hb_date b))"

definition getHeatmapColumnEndDate :: "heat_column \<Rightarrow> int option" where
  "getHeatmapColumnEndDate c = (if hc_bins c = [] then None else Some (hb_date (last (hc_bins c))))"

definition getHeatmapTimeExtent :: "heat_column list \<Rightarrow> (int \<times> int) option" where
  "getHeatmapTimeExtent columns =
     (if columns = [] then None
      else case (getHeatmapColumnStartDate (hd columns), getHeatmapColumnEndDate (last columns)) of
        (Some a, Some b) \<Rightarrow> Some (a, b) | _ \<Rightarrow> None)"

definition filterHeatmapColumns :: "(int \<times> int) option \<Rightarrow> heat_column list \<Rightarrow> heat_column list" where
  "filterHeatmapColumns xDomain columns = (case xDomain of
     None \<Rightarrow> columns
   | Some (x0, x1) \<Rightarrow> filter (\<lambda>c. case (getHeatmapColumnStartDate c, getHeatmapColumnEndDate c) of
         (Some weekStart, Some weekEnd) \<Rightarrow> min x0 x1 \<le> weekEnd \<and> weekStart \<le> max x0 x1
       | _ \<Rightarrow> False) columns)"

definition getHeatmapContributionLevel :: "rat \<Rightarrow> nat" where
  "getHeatmapContributionLevel count =
     (if count \<le> 0 then 0 else if count = 1 then 1 else if count = 2 then 2 else if count = 3 then 3 else 4)"

definition generateHeatmapSkeletonFromTarget :: "heat_column list \<Rightarrow> heat_column list" where
  "generateHeatmapSkeletonFromTarget target =
     map (\<lambda>c. \<lparr>hc_bin = hc_bin c, hc_bins = map (\<lambda>b. \<lparr>hb_count = 0, hb_bin = hb_bin b, hb_date = hb_date b\<rparr>) (hc_bins c)\<rparr>) target"

text \<open>The least and the greatest level, with \<open>None\<close> for the infinities of the start.\<close>

definition level_bounds :: "(nat \<times> nat) option \<Rightarrow> heatmap_bin \<Rightarrow> (nat \<times> nat) option" where
  "level_bounds r b = (let level = getHeatmapContributionLevel (hb_count b) in case r of
     None \<Rightarrow> Some (level, level)
   | Some (lo, hi) \<Rightarrow> Some (if level < lo then level else lo, if hi < level then level else hi))"

definition computeHeatmapLevelRange :: "heat_column list \<Rightarrow> nat \<times> nat" where
  "computeHeatmapLevelRange columns =
     (case foldl (\<lambda>r c. foldl level_bounds r (hc_bins c)) None columns of Some r \<Rightarrow> r | None \<Rightarrow> (0, 4))"

section \<open>Delays\<close>

text \<open>The generator of Lehmer: its state for a seed, the next state, and the number that state gives.\<close>

definition lehmer_modulus :: nat where
  "lehmer_modulus = 2147483647"

definition lehmer_start :: "nat \<Rightarrow> nat" where
  "lehmer_start seed = (if seed mod lehmer_modulus = 0 then 2147483646 else seed mod lehmer_modulus)"

definition lehmer_next :: "nat \<Rightarrow> nat" where
  "lehmer_next state = state * 16807 mod lehmer_modulus"

definition lehmer_number :: "nat \<Rightarrow> rat" where
  "lehmer_number state = (of_nat state - 1) / 2147483646"

text \<open>The first number of \<open>seededRandom(seed)\<close>.\<close>

definition seededRandom :: "nat \<Rightarrow> rat" where
  "seededRandom seed = lehmer_number (lehmer_next (lehmer_start seed))"

definition heatmapCellSeed :: "nat \<Rightarrow> nat \<Rightarrow> nat" where
  "heatmapCellSeed column row = column * 1009 + row * 9176"

definition HEATMAP_ENTER_STAGGER_SPREAD :: rat where
  "HEATMAP_ENTER_STAGGER_SPREAD = 6 / 10"

text \<open>\<open>enterTransition\<close> is known by its duration, when that is a number.\<close>

definition resolveHeatmapEnterFadeDurationSec :: "rat option \<Rightarrow> rat \<Rightarrow> rat" where
  "resolveHeatmapEnterFadeDurationSec transition animationDurationMs =
     (case transition of Some d \<Rightarrow> d | None \<Rightarrow> min (45 / 100) (animationDurationMs / 1000 * (3 / 10)))"

definition computeHeatmapEnterFadeDelayMs :: "nat \<Rightarrow> nat \<Rightarrow> nat \<Rightarrow> rat \<Rightarrow> rat \<Rightarrow> rat \<Rightarrow> rat" where
  "computeHeatmapEnterFadeDelayMs column row revealEpoch animationDurationMs enterStaggerScale fadeDurationSec =
     (let fadeMs = fadeDurationSec * 1000;
          maxDelayMs = max 0 (animationDurationMs - fadeMs);
          spreadMs = maxDelayMs * HEATMAP_ENTER_STAGGER_SPREAD * max enterStaggerScale (1 / 4)
      in seededRandom (heatmapCellSeed column row + revealEpoch * 524287) * spreadMs)"

text \<open>The default transition lasts as long as the whole animation.\<close>

definition HEATMAP_DEFAULT_ENTER_DURATION_MS :: rat where
  "HEATMAP_DEFAULT_ENTER_DURATION_MS = 1600"

definition HEATMAP_DEFAULT_ENTER_TRANSITION :: "rat option" where
  "HEATMAP_DEFAULT_ENTER_TRANSITION = Some (HEATMAP_DEFAULT_ENTER_DURATION_MS / 1000)"

definition heatmapLoadingCellParticipates :: "nat \<Rightarrow> nat \<Rightarrow> rat \<Rightarrow> bool" where
  "heatmapLoadingCellParticipates column row randomness =
     (if 1 \<le> randomness then True else if randomness \<le> 0 then False
      else seededRandom (heatmapCellSeed column row + 73133) < randomness)"

section \<open>Colors\<close>

record level_style =
  ls_color :: jstr
  ls_fill_mode :: "jstr option"
  ls_pattern :: "jstr option"
  ls_pattern_color :: "jstr option"
  ls_pattern_scale :: "rat option"
  ls_pattern_fill :: "jstr option"
  ls_tile_background :: "jstr option"
  ls_pattern_opacity :: "rat option"

definition solid_style :: "jstr \<Rightarrow> level_style" where
  "solid_style c = \<lparr>ls_color = c, ls_fill_mode = Some (js ''solid''), ls_pattern = Some (js ''none''), ls_pattern_color = None,
     ls_pattern_scale = None, ls_pattern_fill = None, ls_tile_background = None, ls_pattern_opacity = None\<rparr>"

definition HEATMAP_DEFAULT_LEVEL_COLORS :: "jstr list" where
  "HEATMAP_DEFAULT_LEVEL_COLORS = [js ''var(--color-muted)'', js ''#0e4429'', js ''#006d32'', js ''#26a641'', js ''#39d353'']"

definition heatmapLevelPatternId :: "nat \<Rightarrow> jstr" where
  "heatmapLevelPatternId level = js ''heatmap-level-'' @ nat_str level"

definition isHeatmapLevelPattern :: "level_style \<Rightarrow> bool" where
  "isHeatmapLevelPattern st \<longleftrightarrow> ls_fill_mode st = Some (js ''pattern'') \<and> ls_pattern st \<noteq> None \<and> ls_pattern st \<noteq> Some (js ''none'')"

definition heatmapPatternStrokeFallback :: "jstr \<Rightarrow> jstr" where
  "heatmapPatternStrokeFallback c = js ''color-mix(in oklch, '' @ c @ js '' 45%, white)''"

text \<open>\<open>s?.trim() || t\<close>.\<close>

definition trimmed_or :: "jstr \<Rightarrow> jstr option \<Rightarrow> jstr" where
  "trimmed_or t s = (case s of Some x \<Rightarrow> if trim x \<noteq> [] then trim x else t | None \<Rightarrow> t)"

record pattern_options =
  po_color :: jstr
  po_background :: jstr
  po_scale :: rat
  po_fill :: "jstr option"

definition heatmapLevelPatternRenderOptions :: "level_style \<Rightarrow> pattern_options" where
  "heatmapLevelPatternRenderOptions st =
     (let preset = (case ls_pattern st of Some p \<Rightarrow> p | None \<Rightarrow> js ''diagonal'');
          defaultScale = (if preset = js ''cross'' then 133 / 100 else 1)
      in \<lparr>po_color = trimmed_or (if preset = js ''accent'' then js ''#e879f9'' else heatmapPatternStrokeFallback (ls_color st)) (ls_pattern_color st),
          po_background = trimmed_or (ls_color st) (ls_tile_background st),
          po_scale = (case ls_pattern_scale st of Some x \<Rightarrow> x | None \<Rightarrow> defaultScale),
          po_fill = (if trimmed_or [] (ls_pattern_fill st) = [] then None else Some (trimmed_or [] (ls_pattern_fill st)))\<rparr>)"

definition heatmapLevelCellFillOpacity :: "level_style \<Rightarrow> rat" where
  "heatmapLevelCellFillOpacity st =
     (if \<not> isHeatmapLevelPattern st then 1 else case ls_pattern_opacity st of Some x \<Rightarrow> x | None \<Rightarrow> 1)"

text \<open>Five colors, five styles.\<close>

definition levelColorsFromStyles :: "level_style list \<Rightarrow> jstr list" where
  "levelColorsFromStyles styles = map ls_color styles"

definition levelStylesFromColors :: "jstr list \<Rightarrow> level_style list" where
  "levelStylesFromColors colors = map solid_style colors"

definition resolveHeatmapLevelStyles :: "jstr list option \<Rightarrow> level_style list option \<Rightarrow> level_style list" where
  "resolveHeatmapLevelStyles colors styles = (case styles of
     Some st \<Rightarrow> st
   | None \<Rightarrow> (case colors of Some c \<Rightarrow> levelStylesFromColors c | None \<Rightarrow> levelStylesFromColors HEATMAP_DEFAULT_LEVEL_COLORS))"

definition level_style_at :: "level_style list \<Rightarrow> nat \<Rightarrow> level_style" where
  "level_style_at styles level = (if level < length styles then styles ! level else hd styles)"

definition buildHeatmapColorScaleFromStyles :: "level_style list \<Rightarrow> rat option \<Rightarrow> jstr" where
  "buildHeatmapColorScaleFromStyles styles count =
     ls_color (level_style_at styles (getHeatmapContributionLevel (case count of Some c \<Rightarrow> c | None \<Rightarrow> 0)))"

definition buildHeatmapColorScale :: "jstr list \<Rightarrow> rat option \<Rightarrow> jstr" where
  "buildHeatmapColorScale colors = buildHeatmapColorScaleFromStyles (levelStylesFromColors colors)"

definition buildHeatmapFillScale :: "level_style list \<Rightarrow> rat option \<Rightarrow> jstr" where
  "buildHeatmapFillScale styles count =
     (let level = getHeatmapContributionLevel (case count of Some c \<Rightarrow> c | None \<Rightarrow> 0); st = level_style_at styles level
      in if isHeatmapLevelPattern st then js ''url(#'' @ heatmapLevelPatternId level @ js '')'' else ls_color st)"

section \<open>Cells\<close>

datatype heatmap_layout = Fluid | Fill

record heat_margin =
  hm_top :: rat
  hm_right :: rat
  hm_bottom :: rat
  hm_left :: rat

record heat_size =
  hs_cell :: rat
  hs_inner_width :: rat
  hs_inner_height :: rat
  hs_height :: rat

definition computeHeatmapDimensions :: "rat \<Rightarrow> rat \<Rightarrow> heat_margin \<Rightarrow> nat \<Rightarrow> nat \<Rightarrow> rat \<Rightarrow> heatmap_layout \<Rightarrow> heat_size" where
  "computeHeatmapDimensions width parentHeight m columnCount rowCount binSize layout =
     (let innerWidth = max (width - hm_left m - hm_right m) 0;
          availableHeight = max (parentHeight - hm_top m - hm_bottom m) 0;
          cell = (if 0 < binSize then binSize
            else if layout = Fluid then innerWidth / of_nat columnCount
            else min (innerWidth / of_nat columnCount) (availableHeight / of_nat rowCount));
          innerHeight = of_nat rowCount * cell;
          total = hm_top m + innerHeight + hm_bottom m
      in \<lparr>hs_cell = cell, hs_inner_width = innerWidth, hs_inner_height = innerHeight,
          hs_height = (if layout = Fluid then total else max parentHeight total)\<rparr>)"

definition computeHeatmapCellFaded :: "bool \<Rightarrow> bool \<Rightarrow> (nat \<times> nat) option \<Rightarrow> nat option \<Rightarrow> nat \<times> nat \<Rightarrow> rat \<Rightarrow> bool" where
  "computeHeatmapCellFaded isCellHovering isLevelHovering hoveredCell hoveredLegendLevel cell count =
     (case (if isCellHovering then hoveredCell else None) of
        Some h \<Rightarrow> fst h \<noteq> fst cell \<or> snd h \<noteq> snd cell
      | None \<Rightarrow> (case (if isLevelHovering then hoveredLegendLevel else None) of
          Some l \<Rightarrow> getHeatmapContributionLevel count \<noteq> l
        | None \<Rightarrow> False))"

text \<open>The calls that bring the three layers of a cell to their opacity, each with the value it leads to.\<close>

datatype heat_layer = DataLayer | ShimmerLayer | PulseLayer

datatype heat_motion = AtOnce | Stagger | Conceal | HoverFade

record heat_sync =
  hy_animate :: bool
  hy_loading :: bool
  hy_conceal :: bool
  hy_loading_rest :: bool
  hy_ready_rest :: bool
  hy_reveal :: bool
  hy_participates :: bool
  hy_show_layer :: bool
  hy_pulse :: bool
  hy_opacity :: rat

definition HEATMAP_LOADING_BASE_CELL_OPACITY :: rat where
  "HEATMAP_LOADING_BASE_CELL_OPACITY = 2 / 10"

definition syncHeatmapCellLayerOpacities :: "heat_sync \<Rightarrow> (heat_layer \<times> rat \<times> heat_motion) list" where
  "syncHeatmapCellLayerOpacities p =
     (if \<not> hy_animate p then
        (if hy_ready_rest p then [(DataLayer, hy_opacity p, AtOnce), (ShimmerLayer, 0, AtOnce), (PulseLayer, 0, AtOnce)]
         else if hy_loading p then [(DataLayer, 0, AtOnce), (PulseLayer, 0, AtOnce),
           (ShimmerLayer, if hy_participates p \<and> hy_show_layer p then 0 else HEATMAP_LOADING_BASE_CELL_OPACITY, AtOnce)]
         else [])
      else if hy_loading_rest p then
        (DataLayer, 0, AtOnce) # (if \<not> hy_pulse p then [(ShimmerLayer, HEATMAP_LOADING_BASE_CELL_OPACITY, AtOnce)] else [])
      else if hy_reveal p then [(PulseLayer, 0, AtOnce), (ShimmerLayer, 0, AtOnce), (DataLayer, hy_opacity p, Stagger)]
      else if hy_conceal p then [(DataLayer, 0, Conceal), (ShimmerLayer, 0, AtOnce)]
      else if hy_ready_rest p then [(DataLayer, hy_opacity p, HoverFade), (ShimmerLayer, 0, AtOnce), (PulseLayer, 0, AtOnce)]
      else [])"

definition apply_layers :: "(heat_layer \<Rightarrow> rat) \<Rightarrow> (heat_layer \<times> rat \<times> heat_motion) list \<Rightarrow> heat_layer \<Rightarrow> rat" where
  "apply_layers o0 ops = foldl (\<lambda>q (l, v, _). q(l := v)) o0 ops"

section \<open>Facts: delays\<close>

lemma lehmer_start_range: "0 < lehmer_start seed \<and> lehmer_start seed < lehmer_modulus"
  by (simp add: lehmer_start_def lehmer_modulus_def)

text \<open>The multiplication is exact: its result is below \<open>2 ^ 53\<close>.\<close>

lemma lehmer_exact: "lehmer_start seed * 16807 < 2 ^ 53"
  using lehmer_start_range [of seed] by (simp add: lehmer_modulus_def)

lemma lehmer_back: "a < lehmer_modulus \<Longrightarrow> lehmer_next a * 1407677000 mod lehmer_modulus = a"
proof -
  assume a: "a < lehmer_modulus"
  have "lehmer_next a * 1407677000 mod lehmer_modulus = a * 16807 * 1407677000 mod lehmer_modulus"
    unfolding lehmer_next_def by (rule mod_mult_left_eq)
  also have "a * 16807 * 1407677000 = a + lehmer_modulus * (a * 11017)" by (simp add: lehmer_modulus_def)
  also have "(a + lehmer_modulus * (a * 11017)) mod lehmer_modulus = a" using a by (simp del: mult.assoc)
  finally show ?thesis .
qed

lemma lehmer_next_range: "0 < a \<Longrightarrow> a < lehmer_modulus \<Longrightarrow> 0 < lehmer_next a \<and> lehmer_next a < lehmer_modulus"
proof -
  assume a: "0 < a" "a < lehmer_modulus"
  then have "lehmer_next a \<noteq> 0" using lehmer_back [of a] by (auto simp: lehmer_modulus_def)
  then show ?thesis by (simp add: lehmer_next_def lehmer_modulus_def)
qed

lemma seededRandom_range: "0 \<le> seededRandom seed \<and> seededRandom seed < 1"
proof -
  let ?n = "lehmer_next (lehmer_start seed)"
  have "1 \<le> ?n" "?n \<le> 2147483646" 
    using lehmer_next_range [of "lehmer_start seed"] lehmer_start_range [of seed] by (auto simp: lehmer_modulus_def Suc_le_eq)
  then have "(of_nat 1 :: rat) \<le> of_nat ?n" "(of_nat ?n :: rat) \<le> of_nat 2147483646" by (simp_all only: of_nat_le_iff)
  then have "(1 :: rat) \<le> of_nat ?n" "(of_nat ?n :: rat) \<le> 2147483646" by (simp_all only: of_nat_1 of_nat_numeral)
  then show ?thesis by (simp add: seededRandom_def lehmer_number_def)
qed

lemma seededRandom_inj:
  assumes "a < 2147483646" "b < 2147483646" "0 < a" "0 < b" "seededRandom a = seededRandom b"
  shows "a = b"
proof -
  have start: "lehmer_start a = a" "lehmer_start b = b" using assms by (simp_all add: lehmer_start_def lehmer_modulus_def)
  have "lehmer_next a = lehmer_next b" using assms(5) by (simp add: seededRandom_def lehmer_number_def start)
  then show ?thesis using lehmer_back [of a] lehmer_back [of b] assms by (simp add: lehmer_modulus_def)
qed

text \<open>Different cells have different seeds.\<close>

lemma seeds_apart:
  assumes "heatmapCellSeed c r = heatmapCellSeed c' r'" "r < 1009" "r' < 1009"
  shows "c = c' \<and> r = r'"
proof -
  have "(c * 1009 + r * 9176) mod 1009 = (c' * 1009 + r' * 9176) mod 1009" using assms(1) by (simp add: heatmapCellSeed_def)
  then have m: "r * 9176 mod 1009 = r' * 9176 mod 1009" by simp
  have inverse: "x * 9176 mod 1009 * 701 mod 1009 = x" if "x < 1009" for x :: nat
  proof -
    have "x * 9176 mod 1009 * 701 mod 1009 = x * 9176 * 701 mod 1009" by (rule mod_mult_left_eq)
    also have "x * 9176 * 701 = x + 1009 * (x * 6375)" by simp
    also have "(x + 1009 * (x * 6375)) mod 1009 = x" using that by (simp only: mod_mult_self2 mod_less)
    finally show ?thesis .
  qed
  have "r = r'" using inverse [OF assms(2)] inverse [OF assms(3)] unfolding m by (rule trans [OF sym])
  then show ?thesis using assms(1) by (simp add: heatmapCellSeed_def)
qed



text \<open>With its default settings the chart does not spread the cells at all.\<close>

lemma default_delay_none:
  "computeHeatmapEnterFadeDelayMs c r epoch HEATMAP_DEFAULT_ENTER_DURATION_MS scale
     (resolveHeatmapEnterFadeDurationSec HEATMAP_DEFAULT_ENTER_TRANSITION HEATMAP_DEFAULT_ENTER_DURATION_MS) = 0"
  by (simp add: computeHeatmapEnterFadeDelayMs_def resolveHeatmapEnterFadeDurationSec_def
      HEATMAP_DEFAULT_ENTER_TRANSITION_def HEATMAP_DEFAULT_ENTER_DURATION_MS_def)

text \<open>With a larger scale a cell may still fade when the animation has ended.\<close>

lemma late_cell: "1600 < computeHeatmapEnterFadeDelayMs 3 6 1 1600 3 (45 / 100) + 45 / 100 * 1000"
  by (simp add: computeHeatmapEnterFadeDelayMs_def HEATMAP_ENTER_STAGGER_SPREAD_def seededRandom_def lehmer_number_def lehmer_next_def
      lehmer_start_def lehmer_modulus_def heatmapCellSeed_def Let_def)

section \<open>Facts: levels, sizes and layers\<close>

lemma level_le_4: "getHeatmapContributionLevel count \<le> 4"
  by (simp add: getHeatmapContributionLevel_def)

lemma fractional_count: "getHeatmapContributionLevel (1 / 2) = 4"
  by (simp add: getHeatmapContributionLevel_def)

text \<open>A fill that refers to a pattern refers to one that is defined: the one of a style with a pattern.\<close>

lemma fill_defined:
  assumes "length styles = 5"
  shows "\<exists>level < 5. (buildHeatmapFillScale styles count = ls_color (styles ! level) \<and> \<not> isHeatmapLevelPattern (styles ! level)) \<or>
    (buildHeatmapFillScale styles count = js ''url(#'' @ heatmapLevelPatternId level @ js '')'' \<and> isHeatmapLevelPattern (styles ! level))"
proof -
  let ?l = "getHeatmapContributionLevel (case count of Some c \<Rightarrow> c | None \<Rightarrow> 0)"
  have "?l < 5" using level_le_4 [of "case count of Some c \<Rightarrow> c | None \<Rightarrow> 0"] by linarith
  then show ?thesis using assms by (intro exI [of _ ?l]) (simp add: buildHeatmapFillScale_def level_style_at_def Let_def)
qed

text \<open>The two scales agree where no level has a pattern.\<close>

lemma scales_agree: "length colors = 5 \<Longrightarrow> buildHeatmapFillScale (levelStylesFromColors colors) count = buildHeatmapColorScale colors count"
proof -
  assume n: "length colors = 5"
  let ?l = "getHeatmapContributionLevel (case count of Some c \<Rightarrow> c | None \<Rightarrow> 0)"
  have l: "?l < 5" using level_le_4 [of "case count of Some c \<Rightarrow> c | None \<Rightarrow> 0"] by linarith
  have "\<not> isHeatmapLevelPattern (solid_style x)" for x by (simp add: isHeatmapLevelPattern_def solid_style_def)
  then show ?thesis using n l
    by (simp add: buildHeatmapFillScale_def buildHeatmapColorScale_def buildHeatmapColorScaleFromStyles_def level_style_at_def
        levelStylesFromColors_def Let_def)
qed

lemma colors_of_styles: "levelColorsFromStyles (levelStylesFromColors colors) = colors"
  by (simp add: levelColorsFromStyles_def levelStylesFromColors_def solid_style_def o_def)

text \<open>A fitted heatmap fits: its cells take no more than the width and the height there are.\<close>

lemma cells_fit:
  assumes "0 < columns" "0 < rows" "binSize \<le> 0"
  shows "of_nat columns * hs_cell (computeHeatmapDimensions w h m columns rows binSize Fill) \<le> max (w - hm_left m - hm_right m) 0 \<and>
    of_nat rows * hs_cell (computeHeatmapDimensions w h m columns rows binSize Fill) \<le> max (h - hm_top m - hm_bottom m) 0"
proof -
  define iw where "iw = max (w - hm_left m - hm_right m) 0"
  define ah where "ah = max (h - hm_top m - hm_bottom m) 0"
  have cell: "hs_cell (computeHeatmapDimensions w h m columns rows binSize Fill) = min (iw / of_nat columns) (ah / of_nat rows)"
    using assms(3) by (simp add: computeHeatmapDimensions_def Let_def iw_def ah_def)
  have "of_nat columns * min (iw / of_nat columns) (ah / of_nat rows) \<le> of_nat columns * (iw / of_nat columns)"
    "of_nat rows * min (iw / of_nat columns) (ah / of_nat rows) \<le> of_nat rows * (ah / of_nat rows)"
    by (rule mult_left_mono; simp)+
  then show ?thesis using assms by (simp add: cell iw_def ah_def)
qed

text \<open>The data and the shimmer of a cell are never led to be seen at once.\<close>

lemma layers_apart:
  assumes "o0 DataLayer = 0 \<or> o0 ShimmerLayer = 0"
  shows "apply_layers o0 (syncHeatmapCellLayerOpacities p) DataLayer = 0 \<or> apply_layers o0 (syncHeatmapCellLayerOpacities p) ShimmerLayer = 0"
  using assms by (simp add: syncHeatmapCellLayerOpacities_def apply_layers_def)

lemma skeleton_shape:
  "map hc_bin (generateHeatmapSkeletonFromTarget cs) = map hc_bin cs"
  "getHeatmapTimeExtent (generateHeatmapSkeletonFromTarget cs) = getHeatmapTimeExtent cs"
proof -
  show "map hc_bin (generateHeatmapSkeletonFromTarget cs) = map hc_bin cs" by (simp add: generateHeatmapSkeletonFromTarget_def)
  have "getHeatmapColumnStartDate \<lparr>hc_bin = n, hc_bins = map (\<lambda>b. \<lparr>hb_count = 0, hb_bin = hb_bin b, hb_date = hb_date b\<rparr>) bs\<rparr> =
      getHeatmapColumnStartDate \<lparr>hc_bin = n, hc_bins = bs\<rparr>" for n bs
    by (cases bs) (simp_all add: getHeatmapColumnStartDate_def)
  moreover have "getHeatmapColumnEndDate \<lparr>hc_bin = n, hc_bins = map (\<lambda>b. \<lparr>hb_count = 0, hb_bin = hb_bin b, hb_date = hb_date b\<rparr>) bs\<rparr> =
      getHeatmapColumnEndDate \<lparr>hc_bin = n, hc_bins = bs\<rparr>" for n bs
    by (simp add: getHeatmapColumnEndDate_def last_map)
  ultimately show "getHeatmapTimeExtent (generateHeatmapSkeletonFromTarget cs) = getHeatmapTimeExtent cs"
    by (cases "hd cs"; cases "last cs") (simp add: getHeatmapTimeExtent_def generateHeatmapSkeletonFromTarget_def hd_map last_map)
qed

end
