(* ===== verification/ProximityHover.thy ===== *)
theory ProximityHover
  imports JsPrelude
begin

text \<open>
  The item of a list the pointer is at or nearest to, src/ui/web/src/hooks/use-proximity-hover.ts.  Items
  register under their index, are measured in animation frames, and a move of the pointer is answered in
  the next frame.  Positions are finite numbers, here exact rationals; what the browser measures comes
  with the event of the frame.
\<close>

section \<open>The choice\<close>

record item_rect =
  ir_top :: rat
  ir_height :: rat
  ir_left :: rat
  ir_width :: rat

text \<open>The container along the axis.\<close>

record hover_view =
  hv_edge :: rat
  hv_border :: rat
  hv_scroll :: rat
  hv_layout :: rat
  hv_visual :: rat

definition view_scale :: "hover_view \<Rightarrow> rat" where
  "view_scale v = (if 0 < hv_layout v then hv_visual v / hv_layout v else 1)"

definition item_start :: "bool \<Rightarrow> hover_view \<Rightarrow> item_rect \<Rightarrow> rat" where
  "item_start horizontal v r =
     hv_edge v + (hv_border v + (if horizontal then ir_left r else ir_top r) - hv_scroll v) * view_scale v"

definition item_size :: "bool \<Rightarrow> hover_view \<Rightarrow> item_rect \<Rightarrow> rat" where
  "item_size horizontal v r = (if horizontal then ir_width r else ir_height r) * view_scale v"

definition item_contains :: "bool \<Rightarrow> hover_view \<Rightarrow> rat \<Rightarrow> item_rect \<Rightarrow> bool" where
  "item_contains horizontal v pos r \<longleftrightarrow> item_start horizontal v r \<le> pos \<and> pos \<le> item_start horizontal v r + item_size horizontal v r"

definition item_distance :: "bool \<Rightarrow> hover_view \<Rightarrow> rat \<Rightarrow> item_rect \<Rightarrow> rat" where
  "item_distance horizontal v pos r = \<bar>pos - (item_start horizontal v r + item_size horizontal v r / 2)\<bar>"

text \<open>One round of the loop: the item that contains the place, and the closest one with its distance.\<close>

type_synonym hover_search = "nat option \<times> (nat \<times> rat) option"

definition hover_round :: "bool \<Rightarrow> hover_view \<Rightarrow> rat \<Rightarrow> hover_search \<Rightarrow> nat \<times> item_rect option \<Rightarrow> hover_search" where
  "hover_round horizontal v pos st e = (case e of
     (_, None) \<Rightarrow> st
   | (i, Some r) \<Rightarrow>
       (if item_contains horizontal v pos r then Some i else fst st,
        (let d = item_distance horizontal v pos r in case snd st of
           None \<Rightarrow> Some (i, d)
         | Some (j, b) \<Rightarrow> if d < b then Some (i, d) else Some (j, b))))"

definition hover_index :: "bool \<Rightarrow> hover_view \<Rightarrow> rat \<Rightarrow> item_rect option list \<Rightarrow> nat option" where
  "hover_index horizontal v pos rects =
     (case foldl (hover_round horizontal v pos) (None, None) (enumerate 0 rects) of
        (Some i, _) \<Rightarrow> Some i
      | (None, c) \<Rightarrow> map_option fst c)"

section \<open>The hook\<close>

record hover_hook =
  ho_items :: "nat list"
  ho_active :: "nat option"
  ho_rects :: "item_rect option list"
  ho_move :: "(rat \<times> rat) option"
  ho_remeasure :: bool
  ho_session :: nat

definition hover_start :: hover_hook where
  "hover_start = \<lparr>ho_items = [], ho_active = None, ho_rects = [], ho_move = None, ho_remeasure = False, ho_session = 0\<rparr>"

text \<open>An array written at the registered indices, as long as the greatest of them tells.\<close>

definition measureItems :: "(nat \<Rightarrow> item_rect) \<Rightarrow> hover_hook \<Rightarrow> hover_hook" where
  "measureItems geo s = s\<lparr>ho_rects := map (\<lambda>i. if i \<in> set (ho_items s) then Some (geo i) else None)
     [0..<foldl (\<lambda>n i. max n (Suc i)) 0 (ho_items s)]\<rparr>"

definition registerItem :: "nat \<Rightarrow> bool \<Rightarrow> hover_hook \<Rightarrow> hover_hook" where
  "registerItem i present s =
     s\<lparr>ho_items := (if \<not> present then filter (\<lambda>j. j \<noteq> i) (ho_items s) else if i \<in> set (ho_items s) then ho_items s else ho_items s @ [i]),
       ho_remeasure := True\<rparr>"

definition move_frame :: "bool \<Rightarrow> hover_view option \<Rightarrow> hover_hook \<Rightarrow> hover_hook" where
  "move_frame horizontal view s = (case ho_move s of
     None \<Rightarrow> s
   | Some (x, y) \<Rightarrow>
       (let t = s\<lparr>ho_move := None\<rparr> in case view of
          None \<Rightarrow> t
        | Some v \<Rightarrow> t\<lparr>ho_active := hover_index horizontal v (if horizontal then x else y) (ho_rects t)\<rparr>))"

text \<open>The frames carry what is measured in them: \<open>None\<close> when the container is gone.\<close>

datatype hover_event =
  Register nat bool | RemeasureFrame "(nat \<Rightarrow> item_rect) option" | MeasureNow "(nat \<Rightarrow> item_rect) option"
| HoverMove rat rat | HoverFrame "hover_view option" | HoverEnter | HoverLeave | SetActiveIndex "nat option"

fun hover_step :: "bool \<Rightarrow> hover_hook \<Rightarrow> hover_event \<Rightarrow> hover_hook" where
  "hover_step h s (Register i b) = registerItem i b s"
| "hover_step h s (RemeasureFrame g) =
     (if \<not> ho_remeasure s then s
      else let t = s\<lparr>ho_remeasure := False\<rparr> in case g of None \<Rightarrow> t | Some geo \<Rightarrow> measureItems geo t)"
| "hover_step h s (MeasureNow g) = (case g of None \<Rightarrow> s | Some geo \<Rightarrow> measureItems geo s)"
| "hover_step h s (HoverMove x y) = s\<lparr>ho_move := Some (x, y)\<rparr>"
| "hover_step h s (HoverFrame v) = move_frame h v s"
| "hover_step h s HoverEnter = s\<lparr>ho_session := Suc (ho_session s)\<rparr>"
| "hover_step h s HoverLeave = s\<lparr>ho_move := None, ho_active := None\<rparr>"
| "hover_step h s (SetActiveIndex i) = s\<lparr>ho_active := i\<rparr>"

section \<open>Facts\<close>

text \<open>What the loop has found after some items.\<close>

definition search_ok :: "bool \<Rightarrow> hover_view \<Rightarrow> rat \<Rightarrow> item_rect option list \<Rightarrow> hover_search \<Rightarrow> bool" where
  "search_ok h v pos rs st \<longleftrightarrow>
     (case fst st of
        None \<Rightarrow> \<forall>i < length rs. \<forall>r. rs ! i = Some r \<longrightarrow> \<not> item_contains h v pos r
      | Some i \<Rightarrow> i < length rs \<and> (\<exists>r. rs ! i = Some r \<and> item_contains h v pos r)) \<and>
     (case snd st of
        None \<Rightarrow> \<forall>i < length rs. rs ! i = None
      | Some (i, d) \<Rightarrow> i < length rs \<and> (\<exists>r. rs ! i = Some r \<and> item_distance h v pos r = d) \<and>
          (\<forall>j < length rs. \<forall>r. rs ! j = Some r \<longrightarrow> d \<le> item_distance h v pos r))"

lemma search_round:
  assumes "search_ok h v pos rs st"
  shows "search_ok h v pos (rs @ [x]) (hover_round h v pos st (length rs, x))"
proof (cases x)
  case None
  have "search_ok h v pos (rs @ [None]) st"
    using assms by (auto simp: search_ok_def nth_append less_Suc_eq split: option.splits)
  then show ?thesis by (simp add: hover_round_def None)
next
  case (Some r)
  show ?thesis
    using assms
    by (auto simp: search_ok_def hover_round_def Some nth_append less_Suc_eq Let_def split: option.splits if_splits)
      (fastforce+)?
qed

lemma search_loop: "search_ok h v pos rs (foldl (hover_round h v pos) (None, None) (enumerate 0 rs))"
proof (induction rs rule: rev_induct)
  case Nil
  then show ?case by (simp add: search_ok_def)
next
  case (snoc x rs)
  have "enumerate 0 (rs @ [x]) = enumerate 0 rs @ [(length rs, x)]" by (simp add: enumerate_append_eq)
  then show ?case using search_round [OF snoc] by simp
qed

text \<open>
  The highlighted item is one under the pointer whenever there is one, and otherwise one whose middle
  is nearest to the pointer; none is highlighted only when nothing has been measured.
\<close>

theorem hover_choice:
  "case hover_index h v pos rects of
     None \<Rightarrow> \<forall>i < length rects. rects ! i = None
   | Some i \<Rightarrow> i < length rects \<and> (\<exists>r. rects ! i = Some r \<and>
       (item_contains h v pos r \<or>
        (\<forall>j < length rects. \<forall>q. rects ! j = Some q \<longrightarrow> \<not> item_contains h v pos q \<and> item_distance h v pos r \<le> item_distance h v pos q)))"
proof -
  obtain a b where st: "foldl (hover_round h v pos) (None, None) (enumerate 0 rects) = (a, b)" by fastforce
  have "search_ok h v pos rects (a, b)" using search_loop [of h v pos rects] by (simp add: st)
  then show ?thesis by (auto simp: hover_index_def st search_ok_def split: option.splits)
qed

text \<open>Nothing is highlighted after the pointer has left, until it moves over the list again.\<close>

definition hover_quiet :: "hover_hook \<Rightarrow> bool" where
  "hover_quiet s \<longleftrightarrow> ho_move s = None \<and> ho_active s = None"

definition not_moving :: "hover_hook \<Rightarrow> hover_event \<Rightarrow> bool" where
  "not_moving s e \<longleftrightarrow> (case e of HoverMove _ _ \<Rightarrow> False | SetActiveIndex _ \<Rightarrow> False | _ \<Rightarrow> True)"

interpretation hover: guarded_machine "hover_step h" not_moving hover_quiet for h
proof
  fix s e
  assume "hover_quiet s" and "not_moving s e"
  then show "hover_quiet (hover_step h s e)"
    by (cases e) (auto simp: hover_quiet_def not_moving_def registerItem_def measureItems_def move_frame_def Let_def split: option.splits)
qed

lemma leave_clears:
  assumes "ok_run (hover_step h) not_moving (hover_step h s HoverLeave) es"
  shows "ho_active (foldl (hover_step h) (hover_step h s HoverLeave) es) = None"
  using hover.run_guarded [OF _ assms] by (simp add: hover_quiet_def)

text \<open>An item that goes away stays highlighted until the pointer moves or leaves.\<close>

lemma gone_item_active:
  "ho_active (foldl (hover_step h) s [Register i False, RemeasureFrame (Some geo)]) = ho_active s"
  by (simp add: registerItem_def measureItems_def)

end
