(* ===== verification/ThinkingView.thy ===== *)
theory ThinkingView
  imports ChatStore
begin

text \<open>
  What a thinking block and a tool card say: src/ui/web/src/components/chat/ThinkingBlock.tsx and
  ToolCallCard.tsx, which has its own copies of two functions.  \<open>upper\<close> is \<open>toUpperCase\<close>.
\<close>

section \<open>Tools\<close>

text \<open>\<open>s.replace(/^p/, q)\<close>.\<close>

definition replace_head :: "jstr \<Rightarrow> jstr \<Rightarrow> jstr \<Rightarrow> jstr" where
  "replace_head p q s = (if starts_with p s then q @ drop (length p) s else s)"

definition capitalized :: "(jstr \<Rightarrow> jstr) \<Rightarrow> jstr \<Rightarrow> jstr" where
  "capitalized upper name = (let label = map (\<lambda>c. if c = 95 then 32 else c) name in upper (take 1 label) @ drop 1 label)"

definition formatToolName :: "(jstr \<Rightarrow> jstr) \<Rightarrow> jstr \<Rightarrow> jstr \<Rightarrow> jstr" where
  "formatToolName upper name status =
     (let c = capitalized upper name in
      if status = js ''completed'' \<and> starts_with (js ''search_'') name then replace_head (js ''Search'') (js ''Searched'') c
      else if status = js ''completed'' \<and> starts_with (js ''get_'') name then replace_head (js ''Get'') (js ''Retrieved'') c
      else if status = js ''completed'' \<and> starts_with (js ''query_'') name then replace_head (js ''Query'') (js ''Queried'') c
      else if status = js ''running'' \<and> starts_with (js ''search_'') name then replace_head (js ''Search'') (js ''Searching'') c
      else if status = js ''running'' \<and> starts_with (js ''get_'') name then replace_head (js ''Get'') (js ''Retrieving'') c
      else if status = js ''running'' \<and> starts_with (js ''read_'') name then replace_head (js ''Read'') (js ''Reading'') c
      else if status = js ''running'' \<and> starts_with (js ''query_'') name then replace_head (js ''Query'') (js ''Querying'') c
      else c)"

text \<open>The copy of ToolCallCard.\<close>

definition card_tool_name :: "(jstr \<Rightarrow> jstr) \<Rightarrow> jstr \<Rightarrow> jstr \<Rightarrow> jstr" where
  "card_tool_name upper name status =
     (let c = capitalized upper name in
      if status = js ''completed'' \<and> starts_with (js ''search_'') name then replace_head (js ''Search'') (js ''Searched'') c
      else if status = js ''completed'' \<and> starts_with (js ''get_'') name then replace_head (js ''Get'') (js ''Retrieved'') c
      else if status = js ''completed'' \<and> starts_with (js ''read_'') name then replace_head (js ''Read'') (js ''Read'') c
      else if status = js ''completed'' \<and> starts_with (js ''query_'') name then replace_head (js ''Query'') (js ''Queried'') c
      else if status = js ''running'' \<and> starts_with (js ''search_'') name then replace_head (js ''Search'') (js ''Searching'') c
      else if status = js ''running'' \<and> starts_with (js ''get_'') name then replace_head (js ''Get'') (js ''Retrieving'') c
      else if status = js ''running'' \<and> starts_with (js ''read_'') name then replace_head (js ''Read'') (js ''Reading'') c
      else if status = js ''running'' \<and> starts_with (js ''query_'') name then replace_head (js ''Query'') (js ''Querying'') c
      else c)"

text \<open>At most 80 characters, and a sign that there were more.\<close>

definition shortened :: "jstr \<Rightarrow> jstr" where
  "shortened s = (if 80 < length s then take 80 s @ js ''...'' else s)"

fun text_value :: "jsval \<Rightarrow> jstr option" where
  "text_value (JStr s) = (if s = [] then None else Some s)"
| "text_value _ = None"

text \<open>The first of the named arguments that is a text, else the first text there is.\<close>

definition arg_summary :: "jstr list \<Rightarrow> jsobj option \<Rightarrow> jstr option" where
  "arg_summary priority args = (case args of
     None \<Rightarrow> None
   | Some obj \<Rightarrow>
       (case List.find (\<lambda>v. v \<noteq> None) (map (\<lambda>k. Option.bind (map_of obj k) text_value) priority) of
          Some (Some v) \<Rightarrow> Some (shortened v)
        | _ \<Rightarrow> (case List.find (\<lambda>v. v \<noteq> None) (map (\<lambda>e. text_value (snd e)) (obj_entries obj)) of
            Some (Some v) \<Rightarrow> Some (shortened v)
          | _ \<Rightarrow> None)))"

definition getArgSummary :: "jsobj option \<Rightarrow> jstr option" where
  "getArgSummary = arg_summary [js ''query'', js ''ticket_key'', js ''trace_id'', js ''keyword'', js ''search'', js ''message'', js ''name'']"

definition card_arg_summary :: "jsobj option \<Rightarrow> jstr option" where
  "card_arg_summary = arg_summary [js ''query'', js ''ticket_key'', js ''trace_id'', js ''session_key'', js ''keyword'', js ''search'',
     js ''message'', js ''name'', js ''url'', js ''path'']"

section \<open>The block\<close>

definition formatTime :: "nat \<Rightarrow> jstr" where
  "formatTime s = (if s < 60 then nat_str s @ js ''s'' else nat_str (s div 60) @ js ''m '' @ nat_str (s mod 60) @ js ''s'')"

definition getStreamingProfile :: "nat \<Rightarrow> jstr" where
  "getStreamingProfile n =
     [js ''glitch-gold'', js ''cobalt-breath'', js ''digital-pulse'', js ''rebound'', js ''fluid-wave'', js ''mono-scanner''] ! (n mod 6)"

definition thinking_label :: "bool \<Rightarrow> tool_call list \<Rightarrow> jstr" where
  "thinking_label isActive calls =
     (if \<not> isActive then js ''Thought'' else if list_ex (\<lambda>tc. tc_status tc = Running) calls then js ''Working'' else js ''Thinking'')"

text \<open>The text of the last step that has one.\<close>

definition last_text :: "thinking_step list \<Rightarrow> jstr option" where
  "last_text steps = foldl (\<lambda>r st. case st of TextStep t \<Rightarrow> Some t | ToolStep _ \<Rightarrow> r) None steps"

text \<open>The line under the label; the name of a tool is its text (\<open>name_of\<close>).\<close>

definition previewText :: "(jstr \<Rightarrow> jstr) \<Rightarrow> (tool_call \<Rightarrow> jstr) \<Rightarrow> bool \<Rightarrow> tool_call list \<Rightarrow> jstr option \<Rightarrow> thinking_step list \<Rightarrow> jstr option" where
  "previewText upper name_of isActive calls livePreview steps =
     (if \<not> isActive then None
      else Some (shortened
        (case List.find (\<lambda>tc. tc_status tc = Running) calls of
           Some tc \<Rightarrow> formatToolName upper (name_of tc) (js ''running'') @ js ''...''
         | None \<Rightarrow>
             (case livePreview of
                Some l \<Rightarrow> if trim l \<noteq> [] then trim l
                  else (case last_text steps of Some t \<Rightarrow> t | None \<Rightarrow> js ''Analyzing your request...'')
              | None \<Rightarrow> (case last_text steps of Some t \<Rightarrow> t | None \<Rightarrow> js ''Analyzing your request...'')))))"

section \<open>Facts\<close>

lemma replace_head_same: "replace_head p p s = s"
  by (metis append_take_drop_id replace_head_def starts_with_def)

lemma heads_differ: "c \<noteq> d \<Longrightarrow> starts_with (c # p) s \<Longrightarrow> \<not> starts_with (d # q) s"
  by (cases s) (simp_all add: starts_with_def)

text \<open>
  The two copies of the function that names a tool agree for every name and status.
\<close>

theorem tool_names_agree: "card_tool_name upper name status = formatToolName upper name status"
proof (cases "starts_with (js ''read_'') name")
  case True
  then have "\<not> starts_with (js ''query_'') name" using heads_differ [of 114 113 "js ''ead_''" name "js ''uery_''"] by simp
  then show ?thesis by (simp add: card_tool_name_def formatToolName_def replace_head_same Let_def)
qed (simp add: card_tool_name_def formatToolName_def Let_def)

lemma find_some: "List.find (\<lambda>v. v \<noteq> None) xs = Some y \<Longrightarrow> y \<noteq> None"
  by (induction xs) (auto split: if_splits)

lemma shortened_length: "length (shortened s) \<le> 83"
  by (simp add: shortened_def)

lemma preview_length: "previewText upper name_of a calls l steps = Some t \<Longrightarrow> length t \<le> 83"
  by (auto simp: previewText_def shortened_length split: if_splits)

text \<open>Minutes and seconds that are shown add up.\<close>

lemma formatTime_parts: "60 \<le> s \<Longrightarrow> \<exists>m r. formatTime s = nat_str m @ js ''m '' @ nat_str r @ js ''s'' \<and> s = m * 60 + r \<and> r < 60"
  by (intro exI [of _ "s div 60"] exI [of _ "s mod 60"]) (simp add: formatTime_def div_mult_mod_eq)

text \<open>A block that is not active never shows a live preview.\<close>

lemma no_preview: "previewText upper name_of False calls (Some live) steps = None"
  by (simp add: previewText_def)

end
