(* ===== verification/Spec2Isabelle.thy ===== *)
theory Spec2Isabelle
  imports JsPrelude JsNumber Doubles JsValue JsonText JsonPrint Sse ChatStore ReportComponents
    ReportProps ReportSpec HtmlText HtmlReport HtmlSanitizer ReportTree RendererData
    MessageSegments Markdown Prose IndexedDb DocumentsStore Cron Uri ApiClient AuthStore
    WorkspacesStore SessionsStore RoutinesStore ThemeStore ChartPhase TimeSeries ProfitLoss
    ScheduledTooltip YAxis ChartInteraction ChartGeometry XAxisTicks SkillFiles SkillEditor
    SkillGenerator KnowledgeBase SessionView JsonRoundTrip Dashboard Composer DocumentsView
    AppTheme TokenGate Grouping Roles ScatterInteraction McpServers RoutineForms ContextFiles
    AppShell LiveChart AnimatedDomains Heatmap ProximityHover ThinkingView
begin

text \<open>
  Verification of the web client of Temporal Loom, src/ui/web/src.  The client is a React
  application over zustand stores: the stores keep the state and call the backend through one API
  client, the chat reads its answers from event streams, answers carry reports that are read,
  normalised and drawn by chart components.  This development models the TypeScript code that
  decides what happens - stores, readers, parsers, layout and interaction logic - and leaves the
  JSX that only renders to the side.

  \<^bold>\<open>The language.\<close>  JsPrelude holds strings (lists of UTF-16 code units) and the interfaces
  (locales) the components share: a machine that keeps an invariant, with and without a
  precondition of its steps, a machine that refines an abstract one, a partial monoid, a key-value
  store.  JsNumber is the number type with NaN and the infinities, whose finite numbers are exact;
  Doubles is the rounding of doubles, used where it decides which rows a chart keeps.  JsValue holds
  the values and the property protocol of objects, JsonText the reader \<open>JSON.parse\<close> and JsonPrint the writer
  \<open>JSON.stringify\<close>, JsonRoundTrip the theorem that what is written is read back, Uri the encoding
  of URI components.

  \<^bold>\<open>Chat.\<close>  Sse models lib/sse.ts: both readers are folds over chunks; the theorems say that the
  cutting into chunks does not matter, that frames written by the backend
  (internal/transport/http/handler/agent.go) are decoded exactly, and how read errors end.
  ChatStore models stores/chat.ts: each await of \<open>sendMessage\<close> is a step, any number of runs
  overlap; the theorems relate an undisturbed run to a fold of the event handler, give the
  invariant between the two lists of tool calls, and describe stops, failures and stale runs.

  \<^bold>\<open>Reports.\<close>  ReportComponents, ReportProps and ReportSpec model lib/report-spec.ts: names and
  aliases, chart properties, and the two forms of a specification, the flat one and the tree, which
  is flattened to a tree of elements with unique ids.  MessageSegments models the splitting of a
  message at its fences; no text is lost, also while an html fence is still streaming.  HtmlText and
  HtmlReport model lib/html-report-spec.ts, the conversion of html to a report: every result is a
  tree of elements, and plain text gives one element per line or the card of a loan.  ReportTree
  models how components/chat/ReportRenderer.tsx walks a specification from its root, with its guards;
  reports from html and trees of at most 31 levels are shown completely, each element once.
  RendererData models the functions of the same file that turn properties into chart data, colors,
  keys and links, with lib/compact-number.ts.

  \<^bold>\<open>Text and html of answers.\<close>  Markdown and Prose model components/markdown/Prose.tsx: blocks of
  lines, whose loop may run for ever and is a partial function, lists, tables, the marks inside a
  line and the fences; the theorems say exactly when the loop ends and that a line is shown up to its
  marks.  HtmlSanitizer models the sanitizer of components/chat/HtmlRenderer.tsx on a tree of nodes:
  the result is safe exactly when the children of the elements it unwraps are, and a link that passes
  leads to the web, to mail or to the page itself.

  \<^bold>\<open>Stores.\<close>  IndexedDb and DocumentsStore model lib/db.ts and stores/documents.ts with a queue
  of requests to the database and refine them to three maps; RoutinesStore refines
  stores/routines.ts to a map; WorkspacesStore models stores/workspaces.ts with the storage areas
  of a tab and ties it to the addresses that ApiClient (lib/api.ts) puts into requests and to the paths
  that the browser makes of them; SessionsStore,
  AuthStore and ThemeStore model the smaller stores with lib/chat-session.ts, lib/session-title.ts,
  lib/cas.ts, lib/themeUtils.ts and lib/surface-classes.ts.  Cron models lib/cron.ts.

  \<^bold>\<open>Pages and dialogs.\<close>  The hooks of a page are a record, its handlers and the replies of the API are
  events.  SessionView models pages/SessionDetailPage.tsx: the grouping of messages into segments and
  the loads, runs and titles that overlap when the user changes the session.  Dashboard models
  pages/DashboardPage.tsx: the widgets and their copy in the local storage, dragging, and the run a
  routine widget shows.  SkillFiles, SkillEditor and SkillGenerator model the dialogs of skills
  (components/settings/tabs: SkillEditorDialog.tsx, SkillsTab.tsx, AiCreateSkillDialog.tsx): front
  matter, the tree of files, import and export of bundles over any library for zip files, an editor that refines a map from paths to
  texts, and the reading of a bundle from an answer that is still streaming.  KnowledgeBase models
  KnowledgeTab.tsx: the addresses of Confluence pages, the form, and the timer that polls.
  Composer models components/chat/InputMessage.tsx with its parent ChatInput.tsx: files, the queue of
  messages, the history and the keys.  DocumentsView models pages/DocumentsPage.tsx over the documents
  store with the sidebar and its collapsed sections, RoutineForms models pages/RoutinesPage.tsx with the
  dialog, the triggers and the schedules of components/routines over the routines store, and the Go code
  that updates a routine and its token (internal/transport/http/handler/routines.go and
  internal/services/routines/service.go).  AppTheme models the effect of App.tsx that puts the
  theme on the root element, TokenGate components/auth/TokenGate.tsx, with the permissions that the frame
  sets behind it, AppShell components/layout/AppLayout.tsx over the stores of workspaces, sessions and
  permissions.  Of the tabs
  in components/settings/tabs, Roles models RolesTab.tsx and WorkspaceTab.tsx, ContextFiles models
  ContextFilesTab.tsx beside the texts of the server, and McpServers models MCPServersTab.tsx together with the Go handlers that create,
  update and show a server (internal/transport/http/handler/mcp_servers.go); Grouping holds the sets and
  groups they share.
  ThinkingView models the texts of components/chat/ThinkingBlock.tsx and ToolCallCard.tsx, and
  ProximityHover models hooks/use-proximity-hover.ts.

  \<^bold>\<open>Charts\<close> (components/charts).  ChartPhase models chart-phase.ts and
  use-chart-phase-orchestrator.ts: the effects of the hook run in passes until the phase is stable,
  with an invariant after every batch and a bound on the way to the resting phase.
  ScheduledTooltip and ChartInteraction model use-scheduled-tooltip.ts, use-chart-interaction.ts
  and highlight-segment-bounds.ts as machines over pointer events and animation frames;
  ScatterInteraction models use-scatter-chart-interaction.ts and shows that this copy of the handlers
  agrees with the original.  LiveChart models live-line-chart.tsx and the labels of live-y-axis.tsx and
  live-x-axis.tsx: the animated range, the value under the pointer, the loop of frames, and a search for
  the distance of labels that ends wherever a label fits.  AnimatedDomains models
  use-animated-y-domains.ts, whose axes come to rest at the domains of the phase, and Heatmap the
  columns, colors, cells and random delays of charts/heatmap.  TimeSeries
  and ProfitLoss model the thinning and splitting of data (decimate-time-series.ts,
  filter-data-by-x-domain.ts, lib/profit-loss-segments.ts), YAxis the grouping of lines by axis,
  ChartGeometry the search on a path, bar layout and fades, XAxisTicks the choice of ticks of
  x-axis.tsx: the layouts it tries are all there are, and the ticks shown are distinct rows.

  \<^bold>\<open>Bounds and fuel.\<close>  Loops are structural recursions or functions with a measure, or partial
  functions where they may not end (the blocks of a markdown text, the span between two labels), with two
  exceptions.  The reader of JSON has fuel \<open>Suc (2 * length s)\<close>: every two calls consume a
  character.  The passes of the chart's effects are cut at three: a pass changes the phase at most
  twice in a row (\<open>settle_coherent\<close> shows that the state is stable by then).

  \<^bold>\<open>Parameters.\<close>  Code of other packages is an argument: the scales and the bisector of visx and
  d3, the position of a pointer event, the replies of the backend, the time of day and random
  suffixes, the library for zip files.  What a theorem needs of them is a named premise (\<open>bisects\<close>,
  \<open>tooltip_ok\<close>, \<open>zip_reads_back\<close>, freshness of generated ids) with a witness that instantiates it.

  \<^bold>\<open>Not modelled.\<close>  The rounding of doubles, but for the limits of the buckets of
  TimeSeries, and the sign of zero; the decoding of bytes to text;
  \<open>parseOnceDate\<close> (lib/cron.ts), which needs the calendar; number formatting by Intl, the reading of
  dates and the parsing of URLs, which are parameters of RendererData; the Unicode normalisation of
  labels (a parameter of HtmlReport); the browser's parsing and printing of HTML around the sanitizer
  and the style sheet of its frame; animation over frames of the motion library; focus, scrolling and
  the measuring of elements; the JSX of the React components; the Go services but for the frame of an
  event stream and the handlers named above.
\<close>

end
